(* ===== verification/Prelude.thy ===== *)
theory Prelude
  imports Main "HOL-Library.AList" "HOL-Library.Sublist"
begin

text \<open>
  Shared vocabulary of the development: Python exceptions as values, the state and exception
  monad in which every coroutine of the code is written, Python dictionaries as association
  lists in insertion order, the string functions the code uses (\<open>str\<close>, \<open>int\<close>, \<open>split\<close>,
  \<open>join\<close>, \<open>lower\<close>, \<open>strip\<close>, \<open>replace\<close>), and the weakest precondition calculus the
  component theories reason with (collection \<open>wp_rules\<close>).
\<close>

named_theorems wp_rules \<open>weakest preconditions of the monadic combinators\<close>
named_theorems preserving \<open>programs that keep an invariant\<close>
named_theorems proc_simps \<open>unfolding a monadic program on a given state\<close>

section \<open>Exceptions and programs\<close>

text \<open>
  The exceptions the modelled code raises or catches. \<open>StillRunning\<close> is no exception: it is
  the value of a loop that has used up the number of iterations given to the model, so that a
  loop that does not return is visible in the result. No handler of the model catches it and
  no \<open>finally\<close> block runs on it.
\<close>

datatype py_error =
    StillRunning
  | AssertionError
  | ValueError
  | TypeError
  | KeyError
  | IndexError
  | RuntimeError
  | NotImplementedError
  | AttributeError
  | ConversionError
  | HTTPStatusError
  | NotADirectoryError
  | ZeroDivisionError
  | TimeoutError
  | CancelledError
  | TransportError
  | ScriptError
  | OSError
  | FileExistsError
  | FileNotFoundError
  | PlainException string
  | ApiError int

type_synonym 'a res = "py_error + 'a"
type_synonym ('s, 'a) proc = "'s \<Rightarrow> 'a res \<times> 's"

definition ret :: "'a \<Rightarrow> ('s, 'a) proc" where
  "ret x s = (Inr x, s)"

definition raise :: "py_error \<Rightarrow> ('s, 'a) proc" where
  "raise e s = (Inl e, s)"

definition bnd :: "('s, 'a) proc \<Rightarrow> ('a \<Rightarrow> ('s, 'b) proc) \<Rightarrow> ('s, 'b) proc" where
  "bnd m f s = (case m s of (Inl e, t) \<Rightarrow> (Inl e, t) | (Inr x, t) \<Rightarrow> f x t)"

definition andthen :: "('s, 'a) proc \<Rightarrow> ('s, 'b) proc \<Rightarrow> ('s, 'b) proc" where
  "andthen m k = bnd m (\<lambda>_. k)"

definition gets :: "('s \<Rightarrow> 'a) \<Rightarrow> ('s, 'a) proc" where
  "gets f s = (Inr (f s), s)"

definition modify :: "('s \<Rightarrow> 's) \<Rightarrow> ('s, unit) proc" where
  "modify f s = (Inr (), f s)"

text \<open>\<open>try: m except: h\<close>; the handler decides which exceptions it takes.\<close>

definition catch :: "('s, 'a) proc \<Rightarrow> (py_error \<Rightarrow> ('s, 'a) proc) \<Rightarrow> ('s, 'a) proc" where
  "catch m h s =
     (case m s of
        (Inl e, t) \<Rightarrow> (if e = StillRunning then (Inl e, t) else h e t)
      | (Inr x, t) \<Rightarrow> (Inr x, t))"

text \<open>\<open>try: m finally: f\<close>; an exception of the \<open>finally\<close> block replaces the result.\<close>

definition finally_do :: "('s, 'a) proc \<Rightarrow> ('s, unit) proc \<Rightarrow> ('s, 'a) proc" where
  "finally_do m f s =
     (case m s of (r, t) \<Rightarrow>
        if r = Inl StillRunning then (r, t)
        else (case f t of (Inl e, u) \<Rightarrow> (Inl e, u) | (Inr _, u) \<Rightarrow> (r, u)))"

primrec each :: "('x \<Rightarrow> ('s, unit) proc) \<Rightarrow> 'x list \<Rightarrow> ('s, unit) proc" where
  "each f [] = ret ()"
| "each f (x # xs) = andthen (f x) (each f xs)"

primrec collect :: "('x \<Rightarrow> ('s, 'a) proc) \<Rightarrow> 'x list \<Rightarrow> ('s, 'a list) proc" where
  "collect f [] = ret []"
| "collect f (x # xs) = bnd (f x) (\<lambda>y. bnd (collect f xs) (\<lambda>ys. ret (y # ys)))"

primrec fold_proc :: "('x \<Rightarrow> 'a \<Rightarrow> ('w, 'a) proc) \<Rightarrow> 'x list \<Rightarrow> 'a \<Rightarrow> ('w, 'a) proc" where
  "fold_proc f [] a = ret a"
| "fold_proc f (x # xs) a = bnd (f x a) (fold_proc f xs)"

definition lift_res :: "'a res \<Rightarrow> ('w, 'a) proc" where
  "lift_res r = (case r of Inl e \<Rightarrow> raise e | Inr x \<Rightarrow> ret x)"

text \<open>A program on a part of a larger state.\<close>

definition zoom :: "('w \<Rightarrow> 's) \<Rightarrow> ('s \<Rightarrow> 'w \<Rightarrow> 'w) \<Rightarrow> ('s, 'a) proc \<Rightarrow> ('w, 'a) proc" where
  "zoom get put m w = (case m (get w) of (r, s) \<Rightarrow> (r, put s w))"

text \<open>A program on the first part of a pair.\<close>

definition on_first :: "('w, 'a) proc \<Rightarrow> ('w \<times> 'x, 'a) proc" where
  "on_first = zoom fst (\<lambda>w s. (w, snd s))"

section \<open>Weakest preconditions\<close>

definition wp :: "('s, 'a) proc \<Rightarrow> ('a \<Rightarrow> 's \<Rightarrow> bool) \<Rightarrow> (py_error \<Rightarrow> 's \<Rightarrow> bool) \<Rightarrow> 's \<Rightarrow> bool" where
  "wp m Q E s = (case m s of (Inr x, t) \<Rightarrow> Q x t | (Inl e, t) \<Rightarrow> E e t)"

section \<open>Dictionaries\<close>

text \<open>
  A Python \<open>dict\<close> iterates in insertion order; storing under a key that is present keeps its
  place. That is \<open>AList.update\<close>.
\<close>

type_synonym ('k, 'v) dict = "('k \<times> 'v) list"

abbreviation dict_get :: "('k, 'v) dict \<Rightarrow> 'k \<Rightarrow> 'v option" where
  "dict_get \<equiv> map_of"

abbreviation dict_set :: "'k \<Rightarrow> 'v \<Rightarrow> ('k, 'v) dict \<Rightarrow> ('k, 'v) dict" where
  "dict_set \<equiv> AList.update"

abbreviation dict_del :: "'k \<Rightarrow> ('k, 'v) dict \<Rightarrow> ('k, 'v) dict" where
  "dict_del \<equiv> AList.delete"

abbreviation dict_keys :: "('k, 'v) dict \<Rightarrow> 'k list" where
  "dict_keys d \<equiv> map fst d"

definition dict_get_or :: "('k, 'v) dict \<Rightarrow> 'k \<Rightarrow> 'v \<Rightarrow> 'v" where
  "dict_get_or d k v = (case dict_get d k of None \<Rightarrow> v | Some w \<Rightarrow> w)"

text \<open>\<open>{f(k): g(v) for k, v in d.items()}\<close> over a dictionary whose new keys are its own.\<close>

definition dict_map :: "('v \<Rightarrow> 'w) \<Rightarrow> ('k, 'v) dict \<Rightarrow> ('k, 'w) dict" where
  "dict_map f d = map (\<lambda>(k, v). (k, f v)) d"

section \<open>Strings\<close>

definition digit_char :: "nat \<Rightarrow> char" where
  "digit_char d = char_of (48 + d)"

definition is_digit :: "char \<Rightarrow> bool" where
  "is_digit c \<longleftrightarrow> 48 \<le> (of_char c :: nat) \<and> (of_char c :: nat) \<le> 57"

definition digit_val :: "char \<Rightarrow> nat" where
  "digit_val c = of_char c - 48"

text \<open>\<open>str(n)\<close> and \<open>int(s)\<close> on the decimal strings the code stores.\<close>

fun nat_str :: "nat \<Rightarrow> string" where
  "nat_str n = (if n < 10 then [digit_char n] else nat_str (n div 10) @ [digit_char (n mod 10)])"

declare nat_str.simps [simp del]

definition int_str :: "int \<Rightarrow> string" where
  "int_str i = (if i < 0 then CHR ''-'' # nat_str (nat (- i)) else nat_str (nat i))"

definition parse_nat :: "string \<Rightarrow> nat option" where
  "parse_nat s =
     (if s \<noteq> [] \<and> list_all is_digit s
      then Some (foldl (\<lambda>n c. 10 * n + digit_val c) 0 s) else None)"

definition parse_int :: "string \<Rightarrow> int option" where
  "parse_int s =
     (case s of
        c # cs \<Rightarrow>
          if c = CHR ''-'' then map_option (\<lambda>n. - int n) (parse_nat cs)
          else map_option int (parse_nat s)
      | [] \<Rightarrow> None)"

fun split_on :: "char \<Rightarrow> string \<Rightarrow> string list" where
  "split_on c [] = [[]]"
| "split_on c (x # xs) =
     (if x = c then [] # split_on c xs
      else (x # hd (split_on c xs)) # tl (split_on c xs))"

fun join_with :: "string \<Rightarrow> string list \<Rightarrow> string" where
  "join_with sep [] = []"
| "join_with sep [w] = w"
| "join_with sep (w # ws) = w @ sep @ join_with sep ws"

definition lower_char :: "char \<Rightarrow> char" where
  "lower_char c =
     (if 65 \<le> (of_char c :: nat) \<and> (of_char c :: nat) \<le> 90 then char_of ((of_char c :: nat) + 32)
      else c)"

definition str_lower :: "string \<Rightarrow> string" where
  "str_lower = map lower_char"

definition is_space :: "char \<Rightarrow> bool" where
  "is_space c \<longleftrightarrow>
     c = CHR '' '' \<or> (9 \<le> (of_char c :: nat) \<and> (of_char c :: nat) \<le> 13) \<or>
     (28 \<le> (of_char c :: nat) \<and> (of_char c :: nat) \<le> 31)"

definition str_strip :: "string \<Rightarrow> string" where
  "str_strip s = rev (dropWhile is_space (rev (dropWhile is_space s)))"

definition replace_char :: "char \<Rightarrow> char \<Rightarrow> string \<Rightarrow> string" where
  "replace_char a b = map (\<lambda>c. if c = a then b else c)"

definition bool_str :: "bool \<Rightarrow> string" where
  "bool_str b = (if b then ''true'' else ''false'')"

text \<open>
  \<open>uuid4()\<close> draws from a stream of identifiers: the stream and the number of draws so far.
\<close>

type_synonym uuid_src = "(nat \<Rightarrow> string) \<times> nat"

definition uuid4 :: "uuid_src \<Rightarrow> string \<times> uuid_src" where
  "uuid4 u = (fst u (snd u), (fst u, Suc (snd u)))"

section \<open>Lemmas on programs\<close>

lemma ret_apply [proc_simps]: "ret x s = (Inr x, s)"
  by (simp add: ret_def)

lemma raise_apply [proc_simps]: "raise e s = (Inl e, s)"
  by (simp add: raise_def)

lemma gets_apply [proc_simps]: "gets f s = (Inr (f s), s)"
  by (simp add: gets_def)

lemma modify_apply [proc_simps]: "modify f s = (Inr (), f s)"
  by (simp add: modify_def)

lemma bnd_Inr [simp]: "m s = (Inr x, t) \<Longrightarrow> bnd m f s = f x t"
  by (simp add: bnd_def)

lemma bnd_Inl [simp]: "m s = (Inl e, t) \<Longrightarrow> bnd m f s = (Inl e, t)"
  by (simp add: bnd_def)

lemma bnd_cong [fundef_cong]:
  assumes "m s = m' s'" and "\<And>x t. m' s' = (Inr x, t) \<Longrightarrow> f x t = g x t" and "s = s'"
  shows "bnd m f s = bnd m' g s'"
  using assms by (auto simp: bnd_def split: prod.splits sum.splits)

lemma bnd_assoc: "bnd (bnd m f) g = bnd m (\<lambda>x. bnd (f x) g)"
  by (rule ext) (simp add: bnd_def split: prod.splits sum.splits)

lemma bnd_ret_left [simp]: "bnd (ret x) f = f x"
  by (rule ext) (simp add: bnd_def ret_def)

lemma bnd_raise_left [simp]: "bnd (raise e) f = raise e"
  by (rule ext) (simp add: bnd_def raise_def)

lemma bnd_ret_right [simp]: "bnd m ret = m"
  by (rule ext) (simp add: bnd_def ret_def split: prod.splits sum.splits)

lemma zoom_apply: "zoom get put m w = (fst (m (get w)), put (snd (m (get w))) w)"
  by (simp add: zoom_def split: prod.splits)

lemma wp_ret [simp, wp_rules]: "wp (ret x) Q E = Q x"
  by (rule ext) (simp add: wp_def ret_def)

lemma wp_raise [simp, wp_rules]: "wp (raise e) Q E = E e"
  by (rule ext) (simp add: wp_def raise_def)

lemma wp_gets [simp, wp_rules]: "wp (gets f) Q E = (\<lambda>s. Q (f s) s)"
  by (rule ext) (simp add: wp_def gets_def)

lemma wp_modify [simp, wp_rules]: "wp (modify f) Q E = (\<lambda>s. Q () (f s))"
  by (rule ext) (simp add: wp_def modify_def)

lemma wp_bnd [simp, wp_rules]: "wp (bnd m f) Q E = wp m (\<lambda>x. wp (f x) Q E) E"
  by (rule ext) (simp add: wp_def bnd_def split: prod.splits sum.splits)

lemma wp_andthen [simp, wp_rules]: "wp (andthen m k) Q E = wp m (\<lambda>_. wp k Q E) E"
  by (simp add: andthen_def)

lemma wp_catch [simp, wp_rules]:
  "wp (catch m h) Q E = wp m Q (\<lambda>e. if e = StillRunning then E e else wp (h e) Q E)"
  by (rule ext) (simp add: wp_def catch_def split: prod.splits sum.splits)

lemma wp_finally [simp, wp_rules]:
  "wp (finally_do m f) Q E =
     wp m (\<lambda>x. wp f (\<lambda>_. Q x) E)
          (\<lambda>e. if e = StillRunning then E e else wp f (\<lambda>_. E e) E)"
  by (rule ext) (auto simp: wp_def finally_do_def split: prod.splits sum.splits)

lemma wp_if [simp, wp_rules]:
  "wp (if b then m else k) Q E = (if b then wp m Q E else wp k Q E)"
  by simp

lemma if_apply [simp]: "(if b then f else g) x = (if b then f x else g x)"
  by simp

lemma wp_zoom [simp, wp_rules]:
  "wp (zoom get put m) Q E =
     (\<lambda>w. wp m (\<lambda>x s. Q x (put s w)) (\<lambda>e s. E e (put s w)) (get w))"
  by (rule ext) (simp add: wp_def zoom_def split: prod.splits sum.splits)

lemma wp_lift_res [simp, wp_rules]:
  "wp (lift_res r) Q E s = (case r of Inl e \<Rightarrow> E e s | Inr x \<Rightarrow> Q x s)"
  by (simp add: lift_res_def split: sum.split)

lemma wp_mono:
  assumes "wp m Q E s" and "\<And>x t. Q x t \<Longrightarrow> Q' x t" and "\<And>e t. E e t \<Longrightarrow> E' e t"
  shows "wp m Q' E' s"
  using assms by (auto simp: wp_def split: prod.splits sum.splits)

lemma wp_Inr: "wp m Q E s \<Longrightarrow> m s = (Inr x, t) \<Longrightarrow> Q x t"
  by (simp add: wp_def)

lemma wp_Inl: "wp m Q E s \<Longrightarrow> m s = (Inl e, t) \<Longrightarrow> E e t"
  by (simp add: wp_def)

lemma wp_inv: "wp m (\<lambda>_. P) (\<lambda>_. P) s \<Longrightarrow> P (snd (m s))"
  by (simp add: wp_def split: prod.splits sum.splits)

text \<open>A loop keeps what its body keeps, whether it ends or raises.\<close>

lemma wp_each:
  assumes "P s" and "\<And>x t. x \<in> set xs \<Longrightarrow> P t \<Longrightarrow> wp (f x) (\<lambda>_. P) (\<lambda>_. P) t"
  shows "wp (each f xs) (\<lambda>_. P) (\<lambda>_. P) s"
  using assms
proof (induction xs arbitrary: s)
  case Nil
  then show ?case by simp
next
  case (Cons x xs)
  have "wp (f x) (\<lambda>_. P) (\<lambda>_. P) s" using Cons.prems by simp
  then show ?case
    unfolding each.simps wp_andthen
    by (rule wp_mono) (auto intro!: Cons.IH Cons.prems(2))
qed

lemma wp_collect:
  assumes "P s" and "\<And>x t. x \<in> set xs \<Longrightarrow> P t \<Longrightarrow> wp (f x) (\<lambda>y t. P t \<and> R y) (\<lambda>_. P) t"
  shows "wp (collect f xs) (\<lambda>ys t. P t \<and> (\<forall>y \<in> set ys. R y)) (\<lambda>_. P) s"
  using assms
proof (induction xs arbitrary: s)
  case Nil
  then show ?case by simp
next
  case (Cons x xs)
  have "wp (f x) (\<lambda>y t. P t \<and> R y) (\<lambda>_. P) s" using Cons.prems by simp
  then show ?case
    unfolding collect.simps wp_bnd
  proof (rule wp_mono)
    fix y t assume y: "P t \<and> R y"
    have "wp (collect f xs) (\<lambda>ys t. P t \<and> (\<forall>y \<in> set ys. R y)) (\<lambda>_. P) t"
      by (rule Cons.IH) (use y Cons.prems(2) in auto)
    then show "wp (collect f xs) (\<lambda>ys. wp (ret (y # ys)) (\<lambda>ys t. P t \<and> (\<forall>y \<in> set ys. R y)) (\<lambda>_. P))
                (\<lambda>_. P) t"
      by (rule wp_mono) (use y in auto)
  qed simp
qed

lemma each_append: "each f (xs @ ys) = andthen (each f xs) (each f ys)"
  by (induction xs) (simp_all add: andthen_def bnd_assoc)

section \<open>Lemmas on dictionaries\<close>

lemma dict_get_set [simp]:
  "dict_get (dict_set k v d) k' = (if k' = k then Some v else dict_get d k')"
  by (simp add: AList.update_conv')

lemma dict_get_del [simp]: "dict_get (dict_del k d) k' = (if k' = k then None else dict_get d k')"
  by (simp add: AList.delete_conv')

lemma dict_keys_set [simp]: "fst ` set (dict_set k v d) = insert k (fst ` set d)"
  by (induction d) auto

lemma dict_keys_del [simp]: "fst ` set (dict_del k d) = fst ` set d - {k}"
  by (induction d) auto

lemma distinct_dict_set [simp]: "distinct (dict_keys d) \<Longrightarrow> distinct (dict_keys (dict_set k v d))"
  by (rule AList.distinct_update)

lemma distinct_dict_del [simp]: "distinct (dict_keys d) \<Longrightarrow> distinct (dict_keys (dict_del k d))"
  by (rule AList.distinct_delete)

lemma dict_get_or_set [simp]:
  "dict_get_or (dict_set k v d) k' w = (if k' = k then v else dict_get_or d k' w)"
  by (simp add: dict_get_or_def)

lemma dict_get_or_del [simp]:
  "dict_get_or (dict_del k d) k' w = (if k' = k then w else dict_get_or d k' w)"
  by (simp add: dict_get_or_def)

lemma dict_get_map [simp]: "dict_get (dict_map f d) k = map_option f (dict_get d k)"
  by (induction d) (auto simp: dict_map_def)

lemma dict_keys_map [simp]: "dict_keys (dict_map f d) = dict_keys d"
  by (induction d) (auto simp: dict_map_def)

lemma set_dict_set: "x \<in> set (dict_set k v d) \<Longrightarrow> x = (k, v) \<or> x \<in> set d"
  by (induction d) (auto split: if_splits)

lemma set_dict_del: "x \<in> set (dict_del k d) \<Longrightarrow> x \<in> set d \<and> fst x \<noteq> k"
  by (induction d) (auto split: if_splits)

lemma wp_any: "(\<And>x t. Q x t) \<Longrightarrow> (\<And>e t. E e t) \<Longrightarrow> wp m Q E s"
  by (auto simp: wp_def split: prod.splits sum.splits)

text \<open>A program keeps an invariant, whatever it ends with, and its result has a property.\<close>

definition preserves :: "('s \<Rightarrow> bool) \<Rightarrow> ('a \<Rightarrow> bool) \<Rightarrow> ('s, 'a) proc \<Rightarrow> bool" where
  "preserves P N m \<longleftrightarrow> (\<forall>s. P s \<longrightarrow> wp m (\<lambda>x t. P t \<and> N x) (\<lambda>_. P) s)"

lemma preserves_wp: "preserves P N m \<Longrightarrow> P s \<Longrightarrow> wp m (\<lambda>x t. P t \<and> N x) (\<lambda>_. P) s"
  by (simp add: preserves_def)

lemma preserves_ret [preserving]: "N x \<Longrightarrow> preserves P N (ret x)"
  by (simp add: preserves_def)

lemma preserves_raise [preserving]: "preserves P N (raise e)"
  by (simp add: preserves_def)

lemma preserves_lift_res [preserving]: "(\<And>x. r = Inr x \<Longrightarrow> N x) \<Longrightarrow> preserves P N (lift_res r)"
  by (auto simp: preserves_def split: sum.splits)

lemma preserves_bnd:
  assumes "preserves P M m" and "\<And>x. M x \<Longrightarrow> preserves P N (f x)"
  shows "preserves P N (bnd m f)"
proof -
  have "wp m (\<lambda>x. wp (f x) (\<lambda>y t. P t \<and> N y) (\<lambda>_. P)) (\<lambda>_. P) s" if "P s" for s
    by (rule wp_mono [OF preserves_wp [OF assms(1) that]]) (use assms(2) in \<open>auto simp: preserves_def\<close>)
  then show ?thesis by (simp add: preserves_def)
qed

lemma preserves_then [preserving]:
  "preserves P (\<lambda>_. True) m \<Longrightarrow> preserves P N k \<Longrightarrow> preserves P N (andthen m k)"
  unfolding andthen_def by (rule preserves_bnd)

lemma preserves_bnd_any [preserving]:
  "preserves P (\<lambda>_. True) m \<Longrightarrow> (\<And>x. preserves P N (f x)) \<Longrightarrow> preserves P N (bnd m f)"
  by (rule preserves_bnd)

lemma preserves_catch [preserving]:
  assumes "preserves P N m" and "\<And>e. preserves P N (h e)"
  shows "preserves P N (catch m h)"
proof -
  have "wp m (\<lambda>x t. P t \<and> N x)
      (\<lambda>e. if e = StillRunning then P else wp (h e) (\<lambda>x t. P t \<and> N x) (\<lambda>_. P)) s" if "P s" for s
    by (rule wp_mono [OF preserves_wp [OF assms(1) that]]) (use assms(2) in \<open>auto simp: preserves_def\<close>)
  then show ?thesis by (simp add: preserves_def)
qed

lemma preserves_finally [preserving]:
  assumes "preserves P N m" and "preserves P (\<lambda>_. True) f"
  shows "preserves P N (finally_do m f)"
proof -
  have f: "wp f (\<lambda>_ t. P t \<and> R) (\<lambda>_. P) s" if "P s" "R" for s R
    by (rule wp_mono [OF preserves_wp [OF assms(2) that(1)]]) (use that(2) in auto)
  have "wp m (\<lambda>x. wp f (\<lambda>_ t. P t \<and> N x) (\<lambda>_. P))
      (\<lambda>e. if e = StillRunning then P else wp f (\<lambda>_. P) (\<lambda>_. P)) s" if "P s" for s
    by (rule wp_mono [OF preserves_wp [OF assms(1) that]]) (use f [where R = True] in \<open>auto simp: f\<close>)
  then show ?thesis by (simp add: preserves_def)
qed

lemma preserves_if [preserving]:
  "(b \<Longrightarrow> preserves P N m) \<Longrightarrow> (\<not> b \<Longrightarrow> preserves P N k) \<Longrightarrow> preserves P N (if b then m else k)"
  by simp

lemma preserves_each [preserving]:
  assumes "\<And>x. preserves P (\<lambda>_. True) (f x)"
  shows "preserves P (\<lambda>_. True) (each f xs)"
  by (induction xs) (simp_all add: preserves_ret preserves_then assms)

lemma preserves_any: "preserves P N m \<Longrightarrow> preserves P (\<lambda>_. True) m"
  by (auto simp: preserves_def intro: wp_mono)

lemma wp_on_first: "wp (on_first m) Q E (w, l) = wp m (\<lambda>x v. Q x (v, l)) (\<lambda>e v. E e (v, l)) w"
  by (simp add: on_first_def)

text \<open>A step on the first part of a pair leaves the second alone.\<close>

lemma wp_first_any: "(\<And>x v. Q x (v, l)) \<Longrightarrow> (\<And>e v. E e (v, l)) \<Longrightarrow> wp (on_first m) Q E (w, l)"
  by (simp add: wp_on_first wp_any)

section \<open>Lemmas on strings\<close>

lemma is_digit_digit_char [simp]: "d < 10 \<Longrightarrow> is_digit (digit_char d)"
  by (simp add: is_digit_def digit_char_def)

lemma digit_val_digit_char [simp]: "d < 10 \<Longrightarrow> digit_val (digit_char d) = d"
  by (simp add: digit_val_def digit_char_def)

lemma nat_str_not_Nil [simp]: "nat_str n \<noteq> []"
  by (subst nat_str.simps) simp

lemma nat_str_digits: "list_all is_digit (nat_str n)"
proof (induction n rule: nat_str.induct)
  case (1 n)
  then show ?case by (subst nat_str.simps) simp
qed

lemma foldl_nat_str: "foldl (\<lambda>n c. 10 * n + digit_val c) 0 (nat_str n) = n"
proof (induction n rule: nat_str.induct)
  case (1 n)
  then show ?case by (subst nat_str.simps) simp
qed

text \<open>\<open>int(str(n)) == n\<close>.\<close>

lemma parse_nat_str [simp]: "parse_nat (nat_str n) = Some n"
  by (simp add: parse_nat_def nat_str_digits foldl_nat_str)

lemma nat_str_inj [simp]: "nat_str m = nat_str n \<longleftrightarrow> m = n"
  by (metis option.inject parse_nat_str)

lemma digit_not_in_nat_str: "\<not> is_digit c \<Longrightarrow> c \<notin> set (nat_str n)"
  using nat_str_digits [of n] by (auto simp: list_all_iff)

lemma parse_int_nat_str [simp]: "parse_int (nat_str n) = Some (int n)"
proof -
  obtain c cs where c: "nat_str n = c # cs" by (cases "nat_str n") simp_all
  have "is_digit c" using nat_str_digits [of n] c by simp
  then have "c \<noteq> CHR ''-''" by (auto simp: is_digit_def)
  then show ?thesis using parse_nat_str [of n] c by (simp add: parse_int_def)
qed

lemma split_on_not_Nil [simp]: "split_on c s \<noteq> []"
  by (cases s) auto

lemma split_on_code [code]:
  "split_on c [] = [[]]"
  "split_on c (x # xs) = (let ws = split_on c xs in if x = c then [] # ws else (x # hd ws) # tl ws)"
  by (simp_all add: Let_def)

lemma split_on_no_sep: "c \<notin> set s \<Longrightarrow> split_on c s = [s]"
  by (induction s) auto

lemma split_on_append_sep: "split_on c (s @ c # t) = split_on c s @ split_on c t"
  by (induction s) auto

lemma last_split_on: "c \<notin> set t \<Longrightarrow> last (split_on c (s @ c # t)) = t"
  by (simp add: split_on_append_sep split_on_no_sep)

lemma split_on_join: "ws \<noteq> [] \<Longrightarrow> \<forall>w\<in>set ws. c \<notin> set w \<Longrightarrow> split_on c (join_with [c] ws) = ws"
  by (induction "[c]" ws rule: join_with.induct) (auto simp: split_on_no_sep split_on_append_sep)

end
