(* ===== verification/State_Provider.thy ===== *)
theory State_Provider
  imports Prelude
begin

text \<open>
  The interface of the worker's shared state (worker/src/agentrl/worker/environment/state/_base.py):
  the record of operations that \<open>StateProvider\<close> declares, the lock context manager
  \<open>with_lock\<close> that it implements, the abstract registry that the container and session
  operations promise to maintain, and the two contracts every provider is measured against,
  \<open>container_registry\<close> (allocations, use counters, session data) and \<open>lock_service\<close>
  (exclusive locks). The providers interpret these locales in their own theories; the
  environment controllers rely on them.
\<close>

section \<open>The operations\<close>

record ('s, 'j) provider =
  acquire_lock :: "string \<Rightarrow> string option \<Rightarrow> nat \<Rightarrow> ('s, bool) proc"
  release_lock :: "string \<Rightarrow> string option \<Rightarrow> ('s, unit) proc"
  allocate_container :: "string \<Rightarrow> string \<Rightarrow> ('s, unit) proc"
  renew_container :: "string \<Rightarrow> string \<Rightarrow> ('s, unit) proc"
  container_is_allocated :: "string \<Rightarrow> ('s, bool) proc"
  container_current_uses :: "string \<Rightarrow> ('s, nat) proc"
  container_total_uses :: "string \<Rightarrow> ('s, nat) proc"
  containers_total_uses_gte :: "nat \<Rightarrow> ('s, string list) proc"
  release_container :: "string \<Rightarrow> string \<Rightarrow> ('s, unit) proc"
  remove_container :: "string \<Rightarrow> ('s, unit) proc"
  generate_session_id :: "('s, string) proc"
  store_session :: "string \<Rightarrow> 'j \<Rightarrow> ('s, unit) proc"
  renew_session :: "string \<Rightarrow> ('s, unit) proc"
  get_session :: "string \<Rightarrow> ('s, 'j option) proc"
  delete_session :: "string \<Rightarrow> ('s, unit) proc"
  asyncio_sleep :: "('s, unit) proc"

text \<open>
  \<open>with_lock\<close>: the acquisition loop sleeps between attempts, and while it sleeps the other
  clients of the shared state run. \<open>asyncio_sleep\<close> is that change of the state; it is a
  parameter of the model. The fuel is the number of attempts.
\<close>

fun acquire_loop :: "('s, 'j) provider \<Rightarrow> nat \<Rightarrow> string \<Rightarrow> string option \<Rightarrow> nat \<Rightarrow> ('s, unit) proc" where
  "acquire_loop P 0 name client timeout = raise StillRunning"
| "acquire_loop P (Suc fuel) name client timeout =
     bnd (acquire_lock P name client timeout) (\<lambda>got.
       if got then ret ()
       else andthen (asyncio_sleep P) (acquire_loop P fuel name client timeout))"

definition with_lock ::
    "('s, 'j) provider \<Rightarrow> nat \<Rightarrow> string \<Rightarrow> string option \<Rightarrow> nat \<Rightarrow> ('s, 'a) proc \<Rightarrow> ('s, 'a) proc" where
  "with_lock P fuel name client timeout body =
     andthen (acquire_loop P fuel name client timeout)
       (finally_do body (release_lock P name client))"

section \<open>The abstract registry\<close>

text \<open>
  What the container and session operations are meant to maintain: the set of sessions each
  container is allocated to, the number of allocations each container has seen since it was
  created, and the data stored for each session.
\<close>

record 'j registry =
  r_alloc :: "string \<Rightarrow> string set"
  r_uses :: "string \<Rightarrow> nat"
  r_sess :: "string \<Rightarrow> 'j option"

definition reg_allocate :: "string \<Rightarrow> string \<Rightarrow> 'j registry \<Rightarrow> 'j registry" where
  "reg_allocate c x r =
     r\<lparr>r_alloc := (r_alloc r)(c := insert x (r_alloc r c)),
       r_uses := (r_uses r)(c := Suc (r_uses r c))\<rparr>"

definition reg_release :: "string \<Rightarrow> string \<Rightarrow> 'j registry \<Rightarrow> 'j registry" where
  "reg_release c x r = r\<lparr>r_alloc := (r_alloc r)(c := r_alloc r c - {x})\<rparr>"

definition reg_remove :: "string \<Rightarrow> 'j registry \<Rightarrow> 'j registry" where
  "reg_remove c r = r\<lparr>r_alloc := (r_alloc r)(c := {}), r_uses := (r_uses r)(c := 0)\<rparr>"

definition reg_store :: "string \<Rightarrow> 'j \<Rightarrow> 'j registry \<Rightarrow> 'j registry" where
  "reg_store x d r = r\<lparr>r_sess := (r_sess r)(x := Some d)\<rparr>"

text \<open>
  Deleting a session removes its data. A provider may also drop the allocations of that
  session (the lease and session based stores do), never those of another.
\<close>

definition reg_deleted :: "string \<Rightarrow> 'j registry \<Rightarrow> 'j registry \<Rightarrow> bool" where
  "reg_deleted x r r' \<longleftrightarrow>
     r_sess r' = (r_sess r)(x := None) \<and> r_uses r' = r_uses r \<and>
     (\<forall>c. r_alloc r c - {x} \<subseteq> r_alloc r' c \<and> r_alloc r' c \<subseteq> r_alloc r c)"

text \<open>The container operations as data, run on a provider and on the abstract registry.\<close>

datatype container_op = Allocate string string | Release string string | Remove string

fun exec_op :: "('s, 'j) provider \<Rightarrow> container_op \<Rightarrow> ('s, unit) proc" where
  "exec_op P (Allocate c x) = allocate_container P c x"
| "exec_op P (Release c x) = release_container P c x"
| "exec_op P (Remove c) = remove_container P c"

fun reg_exec :: "container_op \<Rightarrow> 'j registry \<Rightarrow> 'j registry" where
  "reg_exec (Allocate c x) = reg_allocate c x"
| "reg_exec (Release c x) = reg_release c x"
| "reg_exec (Remove c) = reg_remove c"

fun op_ids :: "container_op \<Rightarrow> string" where
  "op_ids (Allocate c x) = c"
| "op_ids (Release c x) = c"
| "op_ids (Remove c) = c"

fun op_sessions :: "container_op \<Rightarrow> string set" where
  "op_sessions (Allocate c x) = {x}"
| "op_sessions (Release c x) = {x}"
| "op_sessions (Remove c) = {}"

section \<open>The contracts\<close>

locale container_registry =
  fixes P :: "('s, 'j) provider"
    and ok :: "'s \<Rightarrow> bool"
    and valid :: "string \<Rightarrow> bool"
    and live :: "'s \<Rightarrow> string \<Rightarrow> bool"
    and abs :: "'s \<Rightarrow> 'j registry"
  assumes finite_alloc: "ok s \<Longrightarrow> finite (r_alloc (abs s) c)"
    and allocate: "ok s \<Longrightarrow> valid c \<Longrightarrow> live s x \<Longrightarrow>
      wp (allocate_container P c x)
        (\<lambda>_ t. ok t \<and> abs t = reg_allocate c x (abs s) \<and> (\<forall>y. live s y \<longrightarrow> live t y))
        (\<lambda>_ _. False) s"
    and release: "ok s \<Longrightarrow> valid c \<Longrightarrow> live s x \<Longrightarrow>
      wp (release_container P c x)
        (\<lambda>_ t. ok t \<and> abs t = reg_release c x (abs s) \<and> (\<forall>y. live s y \<longrightarrow> live t y))
        (\<lambda>_ _. False) s"
    and remove: "ok s \<Longrightarrow> valid c \<Longrightarrow>
      wp (remove_container P c)
        (\<lambda>_ t. ok t \<and> abs t = reg_remove c (abs s) \<and> (\<forall>y. live s y \<longrightarrow> live t y))
        (\<lambda>_ _. False) s"
    and current_uses: "ok s \<Longrightarrow> valid c \<Longrightarrow>
      wp (container_current_uses P c)
        (\<lambda>n t. n = card (r_alloc (abs s) c) \<and> ok t \<and> abs t = abs s \<and> (\<forall>y. live s y \<longrightarrow> live t y))
        (\<lambda>_ _. False) s"
    and total_uses: "ok s \<Longrightarrow> valid c \<Longrightarrow>
      wp (container_total_uses P c)
        (\<lambda>n t. n = r_uses (abs s) c \<and> ok t \<and> abs t = abs s \<and> (\<forall>y. live s y \<longrightarrow> live t y))
        (\<lambda>_ _. False) s"
    and is_allocated: "ok s \<Longrightarrow> valid c \<Longrightarrow>
      wp (container_is_allocated P c)
        (\<lambda>n t. n = (r_alloc (abs s) c \<noteq> {}) \<and> ok t \<and> abs t = abs s \<and> (\<forall>y. live s y \<longrightarrow> live t y))
        (\<lambda>_ _. False) s"
    and store: "ok s \<Longrightarrow> live s x \<Longrightarrow>
      wp (store_session P x d)
        (\<lambda>_ t. ok t \<and> abs t = reg_store x d (abs s) \<and> (\<forall>y. live s y \<longrightarrow> live t y))
        (\<lambda>_ _. False) s"
    and get: "ok s \<Longrightarrow> live s x \<Longrightarrow>
      wp (get_session P x)
        (\<lambda>d t. d = r_sess (abs s) x \<and> ok t \<and> abs t = abs s \<and> (\<forall>y. live s y \<longrightarrow> live t y))
        (\<lambda>_ _. False) s"
    and delete: "ok s \<Longrightarrow> live s x \<Longrightarrow>
      wp (delete_session P x)
        (\<lambda>_ t. ok t \<and> reg_deleted x (abs s) (abs t) \<and> (\<forall>y. y \<noteq> x \<longrightarrow> live s y \<longrightarrow> live t y))
        (\<lambda>_ _. False) s"

locale lock_service =
  fixes P :: "('s, 'j) provider"
    and ok :: "'s \<Rightarrow> bool"
    and me :: "'s \<Rightarrow> string option \<Rightarrow> string"
    and holder :: "'s \<Rightarrow> string \<Rightarrow> string option"
  assumes acquire: "ok s \<Longrightarrow>
      wp (acquire_lock P name client timeout)
        (\<lambda>got t. ok t \<and> me t = me s \<and>
           got = (holder s name = None \<or> holder s name = Some (me s client)) \<and>
           holder t = (if got then (holder s)(name \<mapsto> me s client) else holder s))
        (\<lambda>_ _. False) s"
    and unlock: "ok s \<Longrightarrow>
      wp (release_lock P name client)
        (\<lambda>_ t. ok t \<and> me t = me s \<and>
           holder t = (if holder s name = Some (me s client) then (holder s)(name := None)
                       else holder s))
        (\<lambda>_ _. False) s"

section \<open>What follows from the contracts\<close>

lemmas reg_defs = reg_allocate_def reg_release_def reg_remove_def reg_store_def

lemma reg_alloc_simps [simp]:
  "r_alloc (reg_allocate c x r) c' = (if c' = c then insert x (r_alloc r c) else r_alloc r c')"
  "r_alloc (reg_release c x r) c' = (if c' = c then r_alloc r c - {x} else r_alloc r c')"
  "r_alloc (reg_remove c r) c' = (if c' = c then {} else r_alloc r c')"
  "r_alloc (reg_store x d r) = r_alloc r"
  by (simp_all add: reg_defs)

lemma reg_uses_simps [simp]:
  "r_uses (reg_allocate c x r) c' = (if c' = c then Suc (r_uses r c) else r_uses r c')"
  "r_uses (reg_release c x r) = r_uses r"
  "r_uses (reg_remove c r) c' = (if c' = c then 0 else r_uses r c')"
  "r_uses (reg_store x d r) = r_uses r"
  by (simp_all add: reg_defs)

lemma reg_sess_simps [simp]:
  "r_sess (reg_allocate c x r) = r_sess r"
  "r_sess (reg_release c x r) = r_sess r"
  "r_sess (reg_remove c r) = r_sess r"
  "r_sess (reg_store x d r) y = (if y = x then Some d else r_sess r y)"
  by (simp_all add: reg_defs)

lemma reg_release_allocate:
  "x \<notin> r_alloc r c \<Longrightarrow> r_alloc (reg_release c x (reg_allocate c x r)) = r_alloc r"
  by (rule ext) simp

context container_registry
begin

text \<open>The reading operations return the registry's values and leave the registry as it is.\<close>

lemma wp_current_uses:
  assumes "ok s" and "valid c"
    and "\<And>t. ok t \<Longrightarrow> abs t = abs s \<Longrightarrow> (\<And>y. live s y \<Longrightarrow> live t y) \<Longrightarrow> Q (card (r_alloc (abs s) c)) t"
  shows "wp (container_current_uses P c) Q E s"
  using current_uses [OF assms(1-2)] by (rule wp_mono) (auto intro: assms(3))

lemma wp_total_uses:
  assumes "ok s" and "valid c"
    and "\<And>t. ok t \<Longrightarrow> abs t = abs s \<Longrightarrow> (\<And>y. live s y \<Longrightarrow> live t y) \<Longrightarrow> Q (r_uses (abs s) c) t"
  shows "wp (container_total_uses P c) Q E s"
  using total_uses [OF assms(1-2)] by (rule wp_mono) (auto intro: assms(3))

lemma wp_is_allocated:
  assumes "ok s" and "valid c"
    and "\<And>t. ok t \<Longrightarrow> abs t = abs s \<Longrightarrow> (\<And>y. live s y \<Longrightarrow> live t y) \<Longrightarrow> Q (r_alloc (abs s) c \<noteq> {}) t"
  shows "wp (container_is_allocated P c) Q E s"
  using is_allocated [OF assms(1-2)] by (rule wp_mono) (auto intro: assms(3))

lemma wp_get:
  assumes "ok s" and "live s x"
    and "\<And>t. ok t \<Longrightarrow> abs t = abs s \<Longrightarrow> (\<And>y. live s y \<Longrightarrow> live t y) \<Longrightarrow> Q (r_sess (abs s) x) t"
  shows "wp (get_session P x) Q E s"
  using get [OF assms(1-2)] by (rule wp_mono) (auto intro: assms(3))

lemma wp_allocate:
  assumes "ok s" and "valid c" and "live s x"
    and "\<And>t. ok t \<Longrightarrow> abs t = reg_allocate c x (abs s) \<Longrightarrow> (\<And>y. live s y \<Longrightarrow> live t y) \<Longrightarrow> Q () t"
  shows "wp (allocate_container P c x) Q E s"
  using allocate [OF assms(1-3)] by (rule wp_mono) (auto intro: assms(4))

lemma wp_release:
  assumes "ok s" and "valid c" and "live s x"
    and "\<And>t. ok t \<Longrightarrow> abs t = reg_release c x (abs s) \<Longrightarrow> (\<And>y. live s y \<Longrightarrow> live t y) \<Longrightarrow> Q () t"
  shows "wp (release_container P c x) Q E s"
  using release [OF assms(1-3)] by (rule wp_mono) (auto intro: assms(4))

lemma wp_remove:
  assumes "ok s" and "valid c"
    and "\<And>t. ok t \<Longrightarrow> abs t = reg_remove c (abs s) \<Longrightarrow> (\<And>y. live s y \<Longrightarrow> live t y) \<Longrightarrow> Q () t"
  shows "wp (remove_container P c) Q E s"
  using remove [OF assms(1-2)] by (rule wp_mono) (auto intro: assms(3))

lemma wp_store:
  assumes "ok s" and "live s x"
    and "\<And>t. ok t \<Longrightarrow> abs t = reg_store x d (abs s) \<Longrightarrow> (\<And>y. live s y \<Longrightarrow> live t y) \<Longrightarrow> Q () t"
  shows "wp (store_session P x d) Q E s"
  using store [OF assms(1-2)] by (rule wp_mono) (auto intro: assms(3))

lemma wp_delete:
  assumes "ok s" and "live s x"
    and "\<And>t. ok t \<Longrightarrow> reg_deleted x (abs s) (abs t) \<Longrightarrow> Q () t"
  shows "wp (delete_session P x) Q E s"
  using delete [OF assms(1-2)] by (rule wp_mono) (auto intro: assms(3))

text \<open>
  An allocation followed by the release of the same session gives the container back, and its
  use is still counted.
\<close>

lemma allocate_release:
  assumes "ok s" and "valid c" and "live s x" and "x \<notin> r_alloc (abs s) c"
  shows "wp (andthen (allocate_container P c x) (release_container P c x))
           (\<lambda>_ t. ok t \<and> r_alloc (abs t) = r_alloc (abs s) \<and>
                  r_uses (abs t) = (r_uses (abs s))(c := Suc (r_uses (abs s) c)))
           (\<lambda>_ _. False) s"
  using assms by (auto intro!: wp_allocate wp_release simp: reg_release_allocate fun_eq_iff)

text \<open>Any sequence of container operations refines the abstract registry.\<close>

lemma exec_op_refines:
  assumes "ok s" and "valid (op_ids p)" and "\<forall>x \<in> op_sessions p. live s x"
  shows "wp (exec_op P p)
           (\<lambda>_ t. ok t \<and> abs t = reg_exec p (abs s) \<and> (\<forall>y. live s y \<longrightarrow> live t y)) (\<lambda>_ _. False) s"
  using assms by (cases p) (simp_all add: allocate release remove)

lemma run_refines:
  assumes "ok s" and "\<forall>p \<in> set ps. valid (op_ids p) \<and> (\<forall>x \<in> op_sessions p. live s x)"
  shows "wp (each (exec_op P) ps) (\<lambda>_ t. ok t \<and> abs t = fold reg_exec ps (abs s)) (\<lambda>_ _. False) s"
  using assms
proof (induction ps arbitrary: s)
  case Nil
  then show ?case by simp
next
  case (Cons p ps)
  have "wp (exec_op P p)
          (\<lambda>_ t. ok t \<and> abs t = reg_exec p (abs s) \<and> (\<forall>y. live s y \<longrightarrow> live t y)) (\<lambda>_ _. False) s"
    by (rule exec_op_refines) (use Cons.prems in auto)
  then show ?case
    unfolding each.simps wp_andthen
  proof (rule wp_mono)
    fix u :: unit and t
    assume t: "ok t \<and> abs t = reg_exec p (abs s) \<and> (\<forall>y. live s y \<longrightarrow> live t y)"
    have "wp (each (exec_op P) ps) (\<lambda>_ v. ok v \<and> abs v = fold reg_exec ps (abs t)) (\<lambda>_ _. False) t"
      by (rule Cons.IH) (use t Cons.prems(2) in auto)
    then show "wp (each (exec_op P) ps) (\<lambda>_ v. ok v \<and> abs v = fold reg_exec (p # ps) (abs s)) (\<lambda>_ _. False) t"
      using t by simp
  qed
qed

lemma run_refines_ex:
  assumes "ok s" and "\<forall>p \<in> set ps. valid (op_ids p) \<and> (\<forall>x \<in> op_sessions p. live s x)"
  shows "\<exists>t. each (exec_op P) ps s = (Inr (), t) \<and> ok t \<and> abs t = fold reg_exec ps (abs s)"
  using run_refines [OF assms] by (cases "each (exec_op P) ps s") (auto simp: wp_def split: sum.splits)

text \<open>
  Reading a container's counters after the run gives the counters of the abstract registry.
\<close>

lemma run_current_uses:
  assumes "ok s" and "\<forall>p \<in> set ps. valid (op_ids p) \<and> (\<forall>x \<in> op_sessions p. live s x)" and "valid c"
  shows "fst (andthen (each (exec_op P) ps) (container_current_uses P c) s) =
         Inr (card (r_alloc (fold reg_exec ps (abs s)) c))"
proof -
  obtain t where t: "each (exec_op P) ps s = (Inr (), t)" "ok t" "abs t = fold reg_exec ps (abs s)"
    using run_refines_ex [OF assms(1,2)] by blast
  show ?thesis using current_uses [OF t(2) assms(3)] t
    by (auto simp: andthen_def wp_def split: prod.splits sum.splits)
qed

lemma run_total_uses:
  assumes "ok s" and "\<forall>p \<in> set ps. valid (op_ids p) \<and> (\<forall>x \<in> op_sessions p. live s x)" and "valid c"
  shows "fst (andthen (each (exec_op P) ps) (container_total_uses P c) s) =
         Inr (r_uses (fold reg_exec ps (abs s)) c)"
proof -
  obtain t where t: "each (exec_op P) ps s = (Inr (), t)" "ok t" "abs t = fold reg_exec ps (abs s)"
    using run_refines_ex [OF assms(1,2)] by blast
  show ?thesis using total_uses [OF t(2) assms(3)] t
    by (auto simp: andthen_def wp_def split: prod.splits sum.splits)
qed

end

context lock_service
begin

text \<open>A client that is refused leaves the lock with its holder.\<close>

lemma refused_unchanged:
  assumes "ok s" and "acquire_lock P name client timeout s = (Inr False, t)"
  shows "holder t = holder s \<and> holder s name \<noteq> None \<and> holder s name \<noteq> Some (me s client)"
  using wp_Inr [OF acquire [OF assms(1)] assms(2)] by auto

text \<open>A client that is admitted holds the lock; two clients never hold it together.\<close>

lemma granted_holds:
  assumes "ok s" and "acquire_lock P name client timeout s = (Inr True, t)"
  shows "holder t name = Some (me s client)"
  using wp_Inr [OF acquire [OF assms(1)] assms(2)] by auto

text \<open>A second client is refused while the first holds the lock.\<close>

lemma exclusive:
  assumes "ok s" and "acquire_lock P name a timeout s = (Inr True, t)" and "me s a \<noteq> me s b"
  shows "fst (acquire_lock P name b timeout t) = Inr False"
proof -
  have t: "ok t \<and> me t = me s \<and> holder t name = Some (me s a)"
    using wp_Inr [OF acquire [OF assms(1)] assms(2)] by auto
  with acquire [of t name b timeout] assms(3) show ?thesis
    by (auto simp: wp_def split: prod.splits sum.splits)
qed

text \<open>
  A free lock is taken at the first attempt: the body runs once, and whatever it returns or
  raises, the lock is released.
\<close>

lemma acquire_loop_free:
  assumes "ok s" and "0 < fuel" and "holder s name = None \<or> holder s name = Some (me s client)"
  shows "wp (acquire_loop P fuel name client timeout)
           (\<lambda>_ t. ok t \<and> me t = me s \<and> holder t = (holder s)(name \<mapsto> me s client)) (\<lambda>_ _. False) s"
proof -
  obtain n where "fuel = Suc n" using assms(2) by (cases fuel) auto
  then show ?thesis using assms(3)
    by (simp del: wp_if) (rule wp_mono [OF acquire [OF assms(1)]], auto)
qed

lemma with_lock_free:
  assumes "ok s" and "0 < fuel" and "holder s name = None"
    and body: "\<And>t. ok t \<Longrightarrow> me t = me s \<Longrightarrow> holder t = (holder s)(name \<mapsto> me s client) \<Longrightarrow>
      wp body (\<lambda>x u. ok u \<and> me u = me t \<and> holder u = holder t \<and> Q x)
              (\<lambda>e u. ok u \<and> me u = me t \<and> holder u = holder t \<and> e \<noteq> StillRunning \<and> R e) t"
  shows "wp (with_lock P fuel name client timeout body)
           (\<lambda>x u. ok u \<and> holder u = holder s \<and> Q x) (\<lambda>e u. ok u \<and> holder u = holder s \<and> R e) s"
proof -
  have unlk: "wp (release_lock P name client) (\<lambda>_ v. ok v \<and> holder v = holder s) (\<lambda>_ _. False) u"
    if "ok u" "me u = me s" "holder u = (holder s)(name \<mapsto> me s client)" for u
    by (rule wp_mono [OF unlock [OF that(1)]]) (use that assms(3) in auto)
  show ?thesis
    unfolding with_lock_def wp_andthen wp_finally
    apply (rule wp_mono [OF acquire_loop_free [OF assms(1,2)]])
      apply (use assms(3) in simp)
     apply (elim conjE)
     apply (rule wp_mono [OF body], assumption+)
      apply (elim conjE, rule wp_mono [OF unlk], simp_all)
    apply (elim conjE, rule wp_mono [OF unlk], simp_all)
    done
qed

end

end
