(* ===== verification/State_Local.thy ===== *)
theory State_Local
  imports State_Provider
begin

text \<open>
  The in-memory provider (worker/src/agentrl/worker/environment/state/local.py): three
  dictionaries and the operations on them, statement by statement. It interprets
  \<open>container_registry\<close>; it does not implement locking (every acquisition succeeds), which is
  stated as it is.
\<close>

section \<open>State and operations\<close>

record 'j local_state =
  containers :: "(string, string set) dict"
  container_uses :: "(string, nat) dict"
  sessions :: "(string, 'j) dict"
  uuids :: uuid_src

definition local_init :: "uuid_src \<Rightarrow> 'j local_state" where
  "local_init u = \<lparr>containers = [], container_uses = [], sessions = [], uuids = u\<rparr>"

definition local_acquire_lock :: "string \<Rightarrow> string option \<Rightarrow> nat \<Rightarrow> ('j local_state, bool) proc" where
  "local_acquire_lock name client timeout = ret True"

definition local_release_lock :: "string \<Rightarrow> string option \<Rightarrow> ('j local_state, unit) proc" where
  "local_release_lock name client = ret ()"

definition local_allocate_container :: "string \<Rightarrow> string \<Rightarrow> ('j local_state, unit) proc" where
  "local_allocate_container c x s =
     (let s1 = (if c \<notin> set (dict_keys (container_uses s))
                then s\<lparr>containers := dict_set c {} (containers s)\<rparr> else s)
      in case dict_get (containers s1) c of
           None \<Rightarrow> (Inl KeyError, s1)
         | Some xs \<Rightarrow>
             (let s2 = s1\<lparr>containers := dict_set c (insert x xs) (containers s1)\<rparr>;
                  s3 = (if c \<notin> set (dict_keys (container_uses s2))
                        then s2\<lparr>container_uses := dict_set c 0 (container_uses s2)\<rparr> else s2)
              in (Inr (), s3\<lparr>container_uses :=
                    dict_set c (dict_get_or (container_uses s3) c 0 + 1) (container_uses s3)\<rparr>)))"

definition local_renew_container :: "string \<Rightarrow> string \<Rightarrow> ('j local_state, unit) proc" where
  "local_renew_container c x = ret ()"

definition local_container_is_allocated :: "string \<Rightarrow> ('j local_state, bool) proc" where
  "local_container_is_allocated c = gets (\<lambda>s.
     (case dict_get (containers s) c of None \<Rightarrow> False | Some xs \<Rightarrow> 0 < card xs))"

definition local_release_container :: "string \<Rightarrow> string \<Rightarrow> ('j local_state, unit) proc" where
  "local_release_container c x s =
     (case dict_get (containers s) c of
        None \<Rightarrow> (Inr (), s)
      | Some xs \<Rightarrow> (Inr (), s\<lparr>containers := dict_set c (xs - {x}) (containers s)\<rparr>))"

definition local_container_current_uses :: "string \<Rightarrow> ('j local_state, nat) proc" where
  "local_container_current_uses c = gets (\<lambda>s. card (dict_get_or (containers s) c {}))"

definition local_container_total_uses :: "string \<Rightarrow> ('j local_state, nat) proc" where
  "local_container_total_uses c = gets (\<lambda>s. dict_get_or (container_uses s) c 0)"

definition local_containers_total_uses_gte :: "nat \<Rightarrow> ('j local_state, string list) proc" where
  "local_containers_total_uses_gte min_uses = gets (\<lambda>s.
     [c. (c, uses) \<leftarrow> container_uses s, min_uses \<le> uses])"

definition local_store_session :: "string \<Rightarrow> 'j \<Rightarrow> ('j local_state, unit) proc" where
  "local_store_session x d = modify (\<lambda>s. s\<lparr>sessions := dict_set x d (sessions s)\<rparr>)"

definition local_renew_session :: "string \<Rightarrow> ('j local_state, unit) proc" where
  "local_renew_session x = ret ()"

definition local_get_session :: "string \<Rightarrow> ('j local_state, 'j option) proc" where
  "local_get_session x = gets (\<lambda>s. dict_get (sessions s) x)"

definition local_delete_session :: "string \<Rightarrow> ('j local_state, unit) proc" where
  "local_delete_session x s =
     (if x \<in> set (dict_keys (sessions s))
      then (Inr (), s\<lparr>sessions := dict_del x (sessions s)\<rparr>) else (Inr (), s))"

definition local_remove_container :: "string \<Rightarrow> ('j local_state, unit) proc" where
  "local_remove_container c s =
     (let s1 = (if c \<in> set (dict_keys (containers s))
                then s\<lparr>containers := dict_del c (containers s)\<rparr> else s);
          s2 = (if c \<in> set (dict_keys (container_uses s1))
                then s1\<lparr>container_uses := dict_del c (container_uses s1)\<rparr> else s1)
      in (Inr (), s2))"

text \<open>Inherited from the base class.\<close>

definition local_generate_session_id :: "('j local_state, string) proc" where
  "local_generate_session_id s =
     (case uuid4 (uuids s) of (x, u) \<Rightarrow> (Inr x, s\<lparr>uuids := u\<rparr>))"

definition local_provider :: "('j local_state, 'j) provider" where
  "local_provider =
     \<lparr>acquire_lock = local_acquire_lock,
      release_lock = local_release_lock,
      allocate_container = local_allocate_container,
      renew_container = local_renew_container,
      container_is_allocated = local_container_is_allocated,
      container_current_uses = local_container_current_uses,
      container_total_uses = local_container_total_uses,
      containers_total_uses_gte = local_containers_total_uses_gte,
      release_container = local_release_container,
      remove_container = local_remove_container,
      generate_session_id = local_generate_session_id,
      store_session = local_store_session,
      renew_session = local_renew_session,
      get_session = local_get_session,
      delete_session = local_delete_session,
      asyncio_sleep = ret ()\<rparr>"

section \<open>The invariant and the abstraction\<close>

text \<open>The two container dictionaries have the same keys, each once, and the sets are finite.\<close>

definition local_ok :: "'j local_state \<Rightarrow> bool" where
  "local_ok s \<longleftrightarrow>
     set (dict_keys (containers s)) = set (dict_keys (container_uses s)) \<and>
     distinct (dict_keys (container_uses s)) \<and>
     (\<forall>c xs. dict_get (containers s) c = Some xs \<longrightarrow> finite xs)"

definition local_abs :: "'j local_state \<Rightarrow> 'j registry" where
  "local_abs s =
     \<lparr>r_alloc = (\<lambda>c. dict_get_or (containers s) c {}),
      r_uses = (\<lambda>c. dict_get_or (container_uses s) c 0),
      r_sess = dict_get (sessions s)\<rparr>"

section \<open>Correctness\<close>

lemmas local_ops =
  local_allocate_container_def local_release_container_def local_remove_container_def
  local_container_current_uses_def local_container_total_uses_def
  local_container_is_allocated_def local_store_session_def local_get_session_def
  local_delete_session_def

lemma dict_get_None: "dict_get d k = None \<longleftrightarrow> k \<notin> set (dict_keys d)"
  by (simp add: map_of_eq_None_iff)

lemma dict_get_or_absent: "k \<notin> set (dict_keys d) \<Longrightarrow> dict_get_or d k v = v"
  by (simp add: dict_get_or_def dict_get_None [THEN iffD2] del: map_of_eq_None_iff)

lemma local_alloc_finite: "local_ok s \<Longrightarrow> finite (r_alloc (local_abs s) c)"
  by (auto simp: local_ok_def local_abs_def dict_get_or_def split: option.splits)

lemma local_allocate_spec:
  assumes "local_ok s"
  shows "\<exists>t. local_allocate_container c x s = (Inr (), t) \<and> local_ok t \<and>
             local_abs t = reg_allocate c x (local_abs s)"
proof (cases "dict_get (containers s) c")
  case None
  then have "c \<notin> set (dict_keys (container_uses s))"
    using assms by (simp add: local_ok_def dict_get_None)
  with None assms show ?thesis
    by (auto simp: local_ops Let_def local_ok_def local_abs_def reg_allocate_def fun_eq_iff
        dict_get_or_absent simp del: map_of_eq_None_iff)
next
  case (Some xs)
  then have "c \<in> set (dict_keys (container_uses s))"
    using assms dict_get_None [of "containers s" c] by (simp add: local_ok_def)
  with Some assms show ?thesis
    by (auto simp: local_ops Let_def local_ok_def local_abs_def reg_allocate_def fun_eq_iff
        dict_get_or_def)
qed

lemma local_release_spec:
  assumes "local_ok s"
  shows "\<exists>t. local_release_container c x s = (Inr (), t) \<and> local_ok t \<and>
             local_abs t = reg_release c x (local_abs s)"
proof (cases "dict_get (containers s) c")
  case None
  with assms show ?thesis
    by (auto simp: local_ops local_abs_def reg_release_def dict_get_or_def fun_eq_iff)
next
  case (Some xs)
  then have "c \<in> set (dict_keys (container_uses s))"
    using assms dict_get_None [of "containers s" c] by (simp add: local_ok_def)
  with Some assms show ?thesis
    by (auto simp: local_ops local_ok_def local_abs_def reg_release_def dict_get_or_def
        fun_eq_iff)
qed

lemma local_remove_spec:
  assumes "local_ok s"
  shows "\<exists>t. local_remove_container c s = (Inr (), t) \<and> local_ok t \<and>
             local_abs t = reg_remove c (local_abs s)"
  using assms
  by (auto simp: local_ops Let_def local_ok_def local_abs_def reg_remove_def fun_eq_iff
      dict_get_or_absent split: if_splits)

interpretation local: container_registry local_provider local_ok "\<lambda>_. True" "\<lambda>_ _. True" local_abs
proof
  show "local_ok s \<Longrightarrow> finite (r_alloc (local_abs s) c)" for s :: "'j local_state" and c
    by (rule local_alloc_finite)
next
  fix s :: "'j local_state" and c x assume ok: "local_ok s"
  show "wp (allocate_container local_provider c x)
          (\<lambda>_ t. local_ok t \<and> local_abs t = reg_allocate c x (local_abs s) \<and> (\<forall>y. True \<longrightarrow> True))
          (\<lambda>_ _. False) s"
    using local_allocate_spec [OF ok, of c x] by (auto simp: local_provider_def wp_def)
  show "wp (release_container local_provider c x)
          (\<lambda>_ t. local_ok t \<and> local_abs t = reg_release c x (local_abs s) \<and> (\<forall>y. True \<longrightarrow> True))
          (\<lambda>_ _. False) s"
    using local_release_spec [OF ok, of c x] by (auto simp: local_provider_def wp_def)
  show "wp (remove_container local_provider c)
          (\<lambda>_ t. local_ok t \<and> local_abs t = reg_remove c (local_abs s) \<and> (\<forall>y. True \<longrightarrow> True))
          (\<lambda>_ _. False) s"
    using local_remove_spec [OF ok, of c] by (auto simp: local_provider_def wp_def)
  show "wp (container_current_uses local_provider c)
          (\<lambda>n t. n = card (r_alloc (local_abs s) c) \<and> local_ok t \<and> local_abs t = local_abs s \<and>
                 (\<forall>y. True \<longrightarrow> True)) (\<lambda>_ _. False) s"
    using ok by (simp add: local_provider_def local_ops) (simp add: local_abs_def)
  show "wp (container_total_uses local_provider c)
          (\<lambda>n t. n = r_uses (local_abs s) c \<and> local_ok t \<and> local_abs t = local_abs s \<and>
                 (\<forall>y. True \<longrightarrow> True)) (\<lambda>_ _. False) s"
    using ok by (simp add: local_provider_def local_ops) (simp add: local_abs_def)
  show "wp (container_is_allocated local_provider c)
          (\<lambda>n t. n = (r_alloc (local_abs s) c \<noteq> {}) \<and> local_ok t \<and> local_abs t = local_abs s \<and>
                 (\<forall>y. True \<longrightarrow> True)) (\<lambda>_ _. False) s"
    using ok local_alloc_finite [OF ok, of c]
    by (auto simp: local_provider_def local_ops local_abs_def dict_get_or_def
        card_gt_0_iff split: option.splits)
  show "wp (store_session local_provider x d)
          (\<lambda>_ t. local_ok t \<and> local_abs t = reg_store x d (local_abs s) \<and> (\<forall>y. True \<longrightarrow> True))
          (\<lambda>_ _. False) s" for d
    using ok
    by (auto simp: local_provider_def local_ops wp_def local_ok_def local_abs_def reg_store_def
        proc_simps fun_eq_iff)
  show "wp (get_session local_provider x)
          (\<lambda>d t. d = r_sess (local_abs s) x \<and> local_ok t \<and> local_abs t = local_abs s \<and>
                 (\<forall>y. True \<longrightarrow> True)) (\<lambda>_ _. False) s"
    using ok by (simp add: local_provider_def local_ops) (simp add: local_abs_def)
  show "wp (delete_session local_provider x)
          (\<lambda>_ t. local_ok t \<and> reg_deleted x (local_abs s) (local_abs t) \<and>
                 (\<forall>y. y \<noteq> x \<longrightarrow> True \<longrightarrow> True))
          (\<lambda>_ _. False) s"
    using ok
    by (auto simp: local_provider_def local_ops wp_def local_ok_def local_abs_def reg_deleted_def
        fun_eq_iff dict_get_None [THEN iffD2] simp del: map_of_eq_None_iff)
qed

lemma local_init_ok: "local_ok (local_init u)"
  by (simp add: local_ok_def local_init_def)

section \<open>Runs of operations\<close>

text \<open>
  C1: the in-memory provider refines the abstract registry. Any sequence of allocations,
  releases and removals, started on a fresh provider, returns without an exception, and the
  allocated sets and the use counters it leaves are those of the abstract registry.
\<close>

theorem local_runs_refine_registry:
  "\<exists>t. each (exec_op local_provider) ps (local_init u) = (Inr (), t) \<and>
       (local_abs t :: 'j registry) = fold reg_exec ps \<lparr>r_alloc = (\<lambda>_. {}), r_uses = (\<lambda>_. 0), r_sess = (\<lambda>_. None)\<rparr>"
proof -
  have "(local_abs (local_init u) :: 'j registry) = \<lparr>r_alloc = (\<lambda>_. {}), r_uses = (\<lambda>_. 0), r_sess = (\<lambda>_. None)\<rparr>"
    by (auto simp: local_abs_def local_init_def dict_get_or_def)
  then show ?thesis using local.run_refines_ex [OF local_init_ok, of ps u] by auto
qed

end
