(* ===== verification/State_Redis.thy ===== *)
theory State_Redis
  imports State_Provider
begin

text \<open>
  The Redis provider (worker/src/agentrl/worker/environment/state/redis.py): the key scheme, the
  five Lua scripts and the operations. The Redis server is not part of the repository; it is the
  parameter \<open>srv\<close>, a record of the commands the code sends, and the locale \<open>redis_server\<close> states
  what the commands are documented to do to the keys, their values and their expiry times.
  Under that contract the provider meets \<open>container_registry\<close> and \<open>lock_service\<close>.
\<close>

section \<open>The server's commands\<close>

text \<open>
  \<open>SET key value [NX] EX n\<close>, \<open>GET\<close>, \<open>EXPIRE\<close>, \<open>DEL\<close>, \<open>INCR\<close>, \<open>KEYS\<close>, what the script
  interpreter does when a script reads a global variable that nobody assigned, and the passage
  of time.
\<close>

record 's redis_srv =
  r_set :: "string \<Rightarrow> string \<Rightarrow> bool \<Rightarrow> nat \<Rightarrow> ('s, bool) proc"
  r_get :: "string \<Rightarrow> ('s, string option) proc"
  r_expire :: "string \<Rightarrow> nat \<Rightarrow> ('s, bool) proc"
  r_del :: "string \<Rightarrow> ('s, unit) proc"
  r_incr :: "string \<Rightarrow> ('s, int) proc"
  r_keys :: "string \<Rightarrow> ('s, string list) proc"
  r_unassigned_global :: "string \<Rightarrow> ('s, string list) proc"
  r_elapse :: "nat \<Rightarrow> 's \<Rightarrow> 's"

section \<open>The provider's state and its client\<close>

datatype redis_param = PInt int | PBool bool | PText string | PRetry int int int | PErrors "string list"

datatype redis_client =
    Direct "(string, redis_param) dict"
  | SentinelMaster string "(string \<times> nat) list" "(string, redis_param) dict"

record 's redis_state =
  server :: 's
  rclient :: "redis_client option"
  rclient_id :: string
  connection_params :: "(string, redis_param) dict"
  sentinel :: "(string \<times> nat) list option"
  rprefix :: string
  session_expiry :: nat
  ruuids :: uuid_src

definition redis_init ::
    "'s \<Rightarrow> uuid_src \<Rightarrow> (string, redis_param) dict \<Rightarrow> string \<Rightarrow> (string \<times> nat) list option \<Rightarrow> 's redis_state" where
  "redis_init srv0 u connection pfx sent =
     (case uuid4 u of (cid, u') \<Rightarrow>
        \<lparr>server = srv0, rclient = None, rclient_id = cid, connection_params = connection,
         sentinel = sent, rprefix = (if pfx \<noteq> [] then pfx @ '':'' else pfx),
         session_expiry = 600, ruuids = u'\<rparr>)"

definition setdefault :: "'k \<Rightarrow> 'v \<Rightarrow> ('k, 'v) dict \<Rightarrow> ('k, 'v) dict" where
  "setdefault k v d = (if k \<in> set (dict_keys d) then d else dict_set k v d)"

definition redis_get_client :: "('s redis_state, unit) proc" where
  "redis_get_client = modify (\<lambda>s.
     if rclient s = None then
       let params = setdefault ''retry_on_error''
                      (PErrors [''ConnectionError'', ''TimeoutError'', ''BusyLoadingError''])
                      (setdefault ''retry'' (PRetry 1000 100 2)
                        (setdefault ''socket_timeout'' (PInt 5)
                          (setdefault ''socket_keepalive'' (PBool True) (connection_params s))))
       in s\<lparr>rclient := Some (case sentinel s of
              Some hosts \<Rightarrow> SentinelMaster ''mymaster'' hosts params
            | None \<Rightarrow> Direct params)\<rparr>
     else s)"

definition on_server :: "('s, 'a) proc \<Rightarrow> ('s redis_state, 'a) proc" where
  "on_server m = andthen redis_get_client (zoom server (\<lambda>t s. s\<lparr>server := t\<rparr>) m)"

section \<open>Keys\<close>

definition lock_key :: "string \<Rightarrow> string \<Rightarrow> string" where
  "lock_key p name = p @ ''lock:'' @ name"

definition container_key_prefix :: "string \<Rightarrow> string \<Rightarrow> string" where
  "container_key_prefix p c = p @ ''container:'' @ c @ '':''"

definition container_allocation_key_prefix :: "string \<Rightarrow> string \<Rightarrow> string" where
  "container_allocation_key_prefix p c = container_key_prefix p c @ ''allocation:''"

definition container_allocation_key :: "string \<Rightarrow> string \<Rightarrow> string \<Rightarrow> string" where
  "container_allocation_key p c x = container_allocation_key_prefix p c @ x"

definition container_uses_key :: "string \<Rightarrow> string \<Rightarrow> string" where
  "container_uses_key p c = container_key_prefix p c @ ''uses''"

definition session_key :: "string \<Rightarrow> string \<Rightarrow> string" where
  "session_key p x = p @ ''session:'' @ x"

section \<open>Scripts\<close>

definition acquire_lock_script :: "'s redis_srv \<Rightarrow> string \<Rightarrow> string \<Rightarrow> nat \<Rightarrow> ('s, bool) proc" where
  "acquire_lock_script srv key client timeout =
     bnd (r_set srv key client True timeout) (\<lambda>was_set.
       if was_set then ret True
       else bnd (r_get srv key) (\<lambda>v.
         if v = Some client then r_expire srv key timeout else ret False))"

definition release_lock_script :: "'s redis_srv \<Rightarrow> string \<Rightarrow> string \<Rightarrow> ('s, unit) proc" where
  "release_lock_script srv key client =
     bnd (r_get srv key) (\<lambda>v. if v = Some client then r_del srv key else ret ())"

definition count_keys_script :: "'s redis_srv \<Rightarrow> string \<Rightarrow> ('s, nat) proc" where
  "count_keys_script srv pattern = bnd (r_keys srv pattern) (\<lambda>ks. ret (length ks))"

fun values_gte :: "'s redis_srv \<Rightarrow> int \<Rightarrow> string list \<Rightarrow> ('s, string list) proc" where
  "values_gte srv threshold [] = ret []"
| "values_gte srv threshold (k # ks) =
     bnd (r_get srv k) (\<lambda>v.
     bnd (values_gte srv threshold ks) (\<lambda>rest.
       ret (case Option.bind v parse_int of
              Some n \<Rightarrow> if threshold \<le> n then k # rest else rest
            | None \<Rightarrow> rest)))"

text \<open>The script collects its answer in \<open>result\<close> and returns \<open>res\<close>.\<close>

definition keys_value_gte_script :: "'s redis_srv \<Rightarrow> string \<Rightarrow> int \<Rightarrow> ('s, string list) proc" where
  "keys_value_gte_script srv pattern threshold =
     bnd (r_keys srv pattern) (\<lambda>ks.
     bnd (values_gte srv threshold ks) (\<lambda>result.
       r_unassigned_global srv ''res''))"

definition delete_keys_script :: "'s redis_srv \<Rightarrow> string \<Rightarrow> ('s, nat) proc" where
  "delete_keys_script srv pattern =
     bnd (r_keys srv pattern) (\<lambda>ks. andthen (each (r_del srv) ks) (ret (length ks)))"

section \<open>Operations\<close>

definition lock_owner :: "'s redis_state \<Rightarrow> string option \<Rightarrow> string" where
  "lock_owner s client = (case client of Some v \<Rightarrow> v | None \<Rightarrow> rclient_id s)"

definition redis_acquire_lock :: "'s redis_srv \<Rightarrow> string \<Rightarrow> string option \<Rightarrow> nat \<Rightarrow> ('s redis_state, bool) proc" where
  "redis_acquire_lock srv name client timeout s =
     on_server (acquire_lock_script srv (lock_key (rprefix s) name) (lock_owner s client) timeout) s"

definition redis_release_lock :: "'s redis_srv \<Rightarrow> string \<Rightarrow> string option \<Rightarrow> ('s redis_state, unit) proc" where
  "redis_release_lock srv name client s =
     on_server (release_lock_script srv (lock_key (rprefix s) name) (lock_owner s client)) s"

definition redis_allocate_container :: "'s redis_srv \<Rightarrow> string \<Rightarrow> string \<Rightarrow> ('s redis_state, unit) proc" where
  "redis_allocate_container srv c x s =
     on_server
       (bnd (r_set srv (container_allocation_key (rprefix s) c x) ''1'' False (session_expiry s)) (\<lambda>_.
        bnd (r_incr srv (container_uses_key (rprefix s) c)) (\<lambda>_. ret ()))) s"

definition redis_renew_container :: "'s redis_srv \<Rightarrow> string \<Rightarrow> string \<Rightarrow> ('s redis_state, unit) proc" where
  "redis_renew_container srv c x s =
     on_server
       (bnd (r_expire srv (container_allocation_key (rprefix s) c x) (session_expiry s)) (\<lambda>_. ret ())) s"

definition redis_container_current_uses :: "'s redis_srv \<Rightarrow> string \<Rightarrow> ('s redis_state, nat) proc" where
  "redis_container_current_uses srv c s =
     on_server (count_keys_script srv (container_allocation_key_prefix (rprefix s) c @ ''*'')) s"

definition redis_container_is_allocated :: "'s redis_srv \<Rightarrow> string \<Rightarrow> ('s redis_state, bool) proc" where
  "redis_container_is_allocated srv c =
     bnd (redis_container_current_uses srv c) (\<lambda>n. ret (0 < n))"

text \<open>\<open>int(await client.get(key) or 0)\<close>.\<close>

definition redis_container_total_uses :: "'s redis_srv \<Rightarrow> string \<Rightarrow> ('s redis_state, nat) proc" where
  "redis_container_total_uses srv c s =
     on_server
       (bnd (r_get srv (container_uses_key (rprefix s) c)) (\<lambda>v.
          case v of
            None \<Rightarrow> ret 0
          | Some w \<Rightarrow> (if w = [] then ret 0
                       else case parse_int w of
                              Some i \<Rightarrow> ret (nat i)
                            | None \<Rightarrow> raise ValueError))) s"

definition redis_containers_total_uses_gte :: "'s redis_srv \<Rightarrow> nat \<Rightarrow> ('s redis_state, string list) proc" where
  "redis_containers_total_uses_gte srv threshold s =
     on_server
       (bnd (keys_value_gte_script srv (container_uses_key (rprefix s) ''*'') (int threshold)) (\<lambda>ks.
          collect (\<lambda>key. let parts = split_on (CHR '':'') key in
                     if 2 \<le> length parts then ret (parts ! (length parts - 2))
                     else raise IndexError) ks)) s"

definition redis_release_container :: "'s redis_srv \<Rightarrow> string \<Rightarrow> string \<Rightarrow> ('s redis_state, unit) proc" where
  "redis_release_container srv c x s =
     on_server (r_del srv (container_allocation_key (rprefix s) c x)) s"

definition redis_remove_container :: "'s redis_srv \<Rightarrow> string \<Rightarrow> ('s redis_state, unit) proc" where
  "redis_remove_container srv c s =
     on_server (bnd (delete_keys_script srv (container_key_prefix (rprefix s) c @ ''*'')) (\<lambda>_. ret ())) s"

definition redis_generate_session_id :: "('s redis_state, string) proc" where
  "redis_generate_session_id s =
     (case uuid4 (ruuids s) of (x, u) \<Rightarrow> (Inr x, s\<lparr>ruuids := u\<rparr>))"

text \<open>\<open>dumps\<close> and \<open>loads\<close> are \<open>json.dumps\<close> and \<open>json.loads\<close>; \<open>loads\<close> is None where it raises.\<close>

definition redis_store_session ::
    "'s redis_srv \<Rightarrow> ('j \<Rightarrow> string) \<Rightarrow> string \<Rightarrow> 'j \<Rightarrow> ('s redis_state, unit) proc" where
  "redis_store_session srv dumps x d s =
     on_server
       (bnd (r_set srv (session_key (rprefix s) x) (dumps d) False (session_expiry s)) (\<lambda>_. ret ())) s"

definition redis_get_session ::
    "'s redis_srv \<Rightarrow> (string \<Rightarrow> 'j option) \<Rightarrow> string \<Rightarrow> ('s redis_state, 'j option) proc" where
  "redis_get_session srv loads x s =
     andthen redis_get_client
       (catch
          (bnd (on_server (r_get srv (session_key (rprefix s) x))) (\<lambda>v.
             case v of
               None \<Rightarrow> raise TypeError
             | Some w \<Rightarrow> (case loads w of Some d \<Rightarrow> ret (Some d) | None \<Rightarrow> raise ValueError)))
          (\<lambda>_. ret None)) s"

definition redis_renew_session :: "'s redis_srv \<Rightarrow> string \<Rightarrow> ('s redis_state, unit) proc" where
  "redis_renew_session srv x s =
     on_server (bnd (r_expire srv (session_key (rprefix s) x) (session_expiry s)) (\<lambda>_. ret ())) s"

definition redis_delete_session :: "'s redis_srv \<Rightarrow> string \<Rightarrow> ('s redis_state, unit) proc" where
  "redis_delete_session srv x s = on_server (r_del srv (session_key (rprefix s) x)) s"

definition redis_close :: "('s redis_state, unit) proc" where
  "redis_close = modify (\<lambda>s. if rclient s \<noteq> None then s\<lparr>rclient := None\<rparr> else s)"

definition redis_provider ::
    "'s redis_srv \<Rightarrow> ('j \<Rightarrow> string) \<Rightarrow> (string \<Rightarrow> 'j option) \<Rightarrow> ('s redis_state, unit) proc \<Rightarrow>
     ('s redis_state, 'j) provider" where
  "redis_provider srv dumps loads sleep =
     \<lparr>acquire_lock = redis_acquire_lock srv,
      release_lock = redis_release_lock srv,
      allocate_container = redis_allocate_container srv,
      renew_container = redis_renew_container srv,
      container_is_allocated = redis_container_is_allocated srv,
      container_current_uses = redis_container_current_uses srv,
      container_total_uses = redis_container_total_uses srv,
      containers_total_uses_gte = redis_containers_total_uses_gte srv,
      release_container = redis_release_container srv,
      remove_container = redis_remove_container srv,
      generate_session_id = redis_generate_session_id,
      store_session = redis_store_session srv dumps,
      renew_session = redis_renew_session srv,
      get_session = redis_get_session srv loads,
      delete_session = redis_delete_session srv,
      asyncio_sleep = sleep\<rparr>"

section \<open>The server's contract\<close>

text \<open>
  What the commands are documented to do, over a view of the server that gives each live key
  its value and its remaining lifetime (None for a key without expiry). The pattern language of
  \<open>KEYS\<close> is used in one shape only: literal text followed by a star.
\<close>

definition plain :: "string \<Rightarrow> bool" where
  "plain s \<longleftrightarrow> set s \<inter> {CHR ''*'', CHR ''?'', CHR ''['', CHR 0x5C} = {}"

definition plain_id :: "string \<Rightarrow> bool" where
  "plain_id c \<longleftrightarrow> plain c \<and> CHR '':'' \<notin> set c"

locale redis_server =
  fixes srv :: "'s redis_srv"
    and view :: "'s \<Rightarrow> string \<Rightarrow> (string \<times> nat option) option"
    and glob :: "string \<Rightarrow> string \<Rightarrow> bool"
  assumes set_cmd: "wp (r_set srv k v nx n)
        (\<lambda>done t. done = (\<not> nx \<or> view s k = None) \<and>
           view t = (if done then (view s)(k \<mapsto> (v, Some n)) else view s)) (\<lambda>_ _. False) s"
    and get_cmd: "r_get srv k s = (Inr (map_option fst (view s k)), s)"
    and expire_cmd: "wp (r_expire srv k n)
        (\<lambda>done t. done = (view s k \<noteq> None) \<and>
           view t = (case view s k of None \<Rightarrow> view s | Some r \<Rightarrow> (view s)(k \<mapsto> (fst r, Some n))))
        (\<lambda>_ _. False) s"
    and del_cmd: "wp (r_del srv k) (\<lambda>_ t. view t = (view s)(k := None)) (\<lambda>_ _. False) s"
    and incr_cmd: "view s k = None \<or> (\<exists>ttl. view s k = Some (nat_str m, ttl)) \<Longrightarrow>
      wp (r_incr srv k)
        (\<lambda>_ t. view t = (view s)(k \<mapsto>
           (case view s k of None \<Rightarrow> (nat_str 1, None) | Some r \<Rightarrow> (nat_str (Suc m), snd r))))
        (\<lambda>_ _. False) s"
    and keys_cmd: "\<exists>ks. r_keys srv pat s = (Inr ks, s) \<and> distinct ks \<and>
        set ks = {k. view s k \<noteq> None \<and> glob pat k}"
    and glob_star: "plain p \<Longrightarrow> glob (p @ ''*'') k = prefix p k"
    and global_unassigned: "r_unassigned_global srv g s = (Inl ScriptError, s)"
    and elapse: "view (r_elapse srv d s) k =
        (case view s k of
           Some (v, Some n) \<Rightarrow> (if n \<le> d then None else Some (v, Some (n - d)))
         | other \<Rightarrow> other)"

section \<open>Keys do not collide\<close>

lemma sep_unique:
  "c \<notin> set a \<Longrightarrow> c \<notin> set b \<Longrightarrow> a @ c # r = b @ c # r' \<longleftrightarrow> a = b \<and> r = r'"
proof (induction a arbitrary: b)
  case Nil
  then show ?case by (cases b) auto
next
  case (Cons x a)
  then show ?case by (cases b) auto
qed

lemmas key_defs = lock_key_def container_key_prefix_def container_allocation_key_prefix_def
  container_allocation_key_def container_uses_key_def session_key_def

lemma container_prefix_unique:
  assumes "plain_id c" and "plain_id c'"
  shows "container_key_prefix p c @ r = container_key_prefix p c' @ r' \<longleftrightarrow> c = c' \<and> r = r'"
  using assms sep_unique [of "CHR '':''" c c' r r'] by (simp add: key_defs plain_id_def)

lemma allocation_key_eq [simp]:
  "plain_id c \<Longrightarrow> plain_id c' \<Longrightarrow>
     container_allocation_key p c x = container_allocation_key p c' x' \<longleftrightarrow> c = c' \<and> x = x'"
  using container_prefix_unique [of c c' p "''allocation:'' @ x" "''allocation:'' @ x'"]
  by (simp add: container_allocation_key_def container_allocation_key_prefix_def)

lemma uses_key_eq [simp]:
  "plain_id c \<Longrightarrow> plain_id c' \<Longrightarrow> container_uses_key p c = container_uses_key p c' \<longleftrightarrow> c = c'"
  using container_prefix_unique [of c c' p "''uses''" "''uses''"]
  by (simp add: container_uses_key_def)

lemma allocation_uses_differ [simp]:
  assumes "plain_id c" and "plain_id c'"
  shows "container_allocation_key p c x \<noteq> container_uses_key p c'"
    and "container_uses_key p c' \<noteq> container_allocation_key p c x"
proof -
  show 1: "container_allocation_key p c x \<noteq> container_uses_key p c'"
    using container_prefix_unique [OF assms, of p "''allocation:'' @ x" "''uses''"]
    by (simp add: container_allocation_key_def container_allocation_key_prefix_def
        container_uses_key_def)
  show "container_uses_key p c' \<noteq> container_allocation_key p c x"
    using 1 by (rule not_sym)
qed

lemma session_key_eq [simp]: "session_key p x = session_key p y \<longleftrightarrow> x = y"
  by (simp add: session_key_def)

lemma lock_key_eq [simp]: "lock_key p x = lock_key p y \<longleftrightarrow> x = y"
  by (simp add: lock_key_def)

lemma key_kinds_differ [simp]:
  "session_key p x \<noteq> container_allocation_key p c y"
  "container_allocation_key p c y \<noteq> session_key p x"
  "session_key p x \<noteq> container_uses_key p c"
  "container_uses_key p c \<noteq> session_key p x"
  "\<not> prefix (container_key_prefix p c) (session_key p x)"
  by (simp_all add: key_defs)

lemma prefix_container_key:
  assumes "plain_id c" and "plain_id c'"
  shows "prefix (container_key_prefix p c) (container_allocation_key p c' x) \<longleftrightarrow> c = c'"
    and "prefix (container_key_prefix p c) (container_uses_key p c') \<longleftrightarrow> c = c'"
proof -
  have "prefix (container_key_prefix p c) (container_key_prefix p c' @ r) \<longleftrightarrow> c = c'" for r
    using container_prefix_unique [OF assms(2,1), of p r] by (auto simp: prefix_def)
  then show "prefix (container_key_prefix p c) (container_allocation_key p c' x) \<longleftrightarrow> c = c'"
    and "prefix (container_key_prefix p c) (container_uses_key p c') \<longleftrightarrow> c = c'"
    by (simp_all add: container_allocation_key_def container_allocation_key_prefix_def
        container_uses_key_def)
qed

lemma plain_append [simp]: "plain (a @ b) \<longleftrightarrow> plain a \<and> plain b"
  by (auto simp: plain_def)

lemma plain_key_prefixes:
  assumes "plain p" and "plain_id c"
  shows "plain (container_key_prefix p c)" and "plain (container_allocation_key_prefix p c)"
  using assms by (auto simp: key_defs plain_id_def) (auto simp: plain_def)

section \<open>The provider's invariant and abstraction\<close>

text \<open>
  The key prefix holds no pattern character, and every use counter is a number.
\<close>

definition redis_ok :: "('s \<Rightarrow> string \<Rightarrow> (string \<times> nat option) option) \<Rightarrow> 's redis_state \<Rightarrow> bool" where
  "redis_ok view s \<longleftrightarrow>
     plain (rprefix s) \<and>
     (\<forall>c r. plain_id c \<longrightarrow> view (server s) (container_uses_key (rprefix s) c) = Some r \<longrightarrow>
        (\<exists>n. fst r = nat_str n))"

definition counter :: "(string \<times> nat option) option \<Rightarrow> nat" where
  "counter r = (case r of None \<Rightarrow> 0 | Some r \<Rightarrow> nat (the (parse_int (fst r))))"

definition redis_abs ::
    "('s \<Rightarrow> string \<Rightarrow> (string \<times> nat option) option) \<Rightarrow> (string \<Rightarrow> 'j option) \<Rightarrow>
     's redis_state \<Rightarrow> 'j registry" where
  "redis_abs view loads s =
     \<lparr>r_alloc = (\<lambda>c. if plain_id c
        then {x. view (server s) (container_allocation_key (rprefix s) c x) \<noteq> None} else {}),
      r_uses = (\<lambda>c. if plain_id c
        then counter (view (server s) (container_uses_key (rprefix s) c)) else 0),
      r_sess = (\<lambda>x. Option.bind (view (server s) (session_key (rprefix s) x)) (\<lambda>r. loads (fst r)))\<rparr>"

definition connected :: "'s redis_state \<Rightarrow> 's redis_state" where
  "connected s = snd (redis_get_client s)"

lemma connected_simps [simp]:
  "server (connected s) = server s" "rprefix (connected s) = rprefix s"
  "rclient_id (connected s) = rclient_id s" "session_expiry (connected s) = session_expiry s"
  "lock_owner (connected s) = lock_owner s"
  by (auto simp: connected_def redis_get_client_def modify_def Let_def lock_owner_def fun_eq_iff
      split: option.splits)

lemma get_client_apply: "redis_get_client s = (Inr (), connected s)"
  by (simp add: connected_def redis_get_client_def modify_def)

lemma wp_on_server [simp]:
  "wp (on_server m) Q E s =
     wp m (\<lambda>x t. Q x ((connected s)\<lparr>server := t\<rparr>)) (\<lambda>e t. E e ((connected s)\<lparr>server := t\<rparr>)) (server s)"
  by (simp add: on_server_def wp_def [of redis_get_client] get_client_apply)

lemma lock_owner_update [simp]: "lock_owner (s\<lparr>server := t\<rparr>) = lock_owner s"
  by (auto simp: lock_owner_def fun_eq_iff split: option.splits)

lemma redis_ok_update:
  "redis_ok view ((connected s)\<lparr>server := t\<rparr>) \<longleftrightarrow>
     plain (rprefix s) \<and>
     (\<forall>c r. plain_id c \<longrightarrow> view t (container_uses_key (rprefix s) c) = Some r \<longrightarrow> (\<exists>n. fst r = nat_str n))"
  by (simp add: redis_ok_def)

section \<open>The provider meets its contracts\<close>

context redis_server
begin

lemma wp_set:
  assumes "\<And>t. view t = (view s)(k \<mapsto> (v, Some n)) \<Longrightarrow> Q True t"
  shows "wp (r_set srv k v False n) Q E s"
  by (rule wp_mono [OF set_cmd]) (auto intro: assms)

lemma wp_set_nx:
  assumes "\<And>t. view s k = None \<Longrightarrow> view t = (view s)(k \<mapsto> (v, Some n)) \<Longrightarrow> Q True t"
    and "\<And>t. view s k \<noteq> None \<Longrightarrow> view t = view s \<Longrightarrow> Q False t"
  shows "wp (r_set srv k v True n) Q E s"
proof (cases "view s k")
  case None
  show ?thesis by (rule wp_mono [OF set_cmd]) (use None assms in auto)
next
  case (Some r)
  show ?thesis by (rule wp_mono [OF set_cmd]) (use Some assms in auto)
qed

lemma wp_get_cmd [simp]: "wp (r_get srv k) Q E s = Q (map_option fst (view s k)) s"
  by (simp add: wp_def get_cmd)

lemma wp_expire:
  assumes "\<And>t. view s k = None \<Longrightarrow> view t = view s \<Longrightarrow> Q False t"
    and "\<And>t r. view s k = Some r \<Longrightarrow> view t = (view s)(k \<mapsto> (fst r, Some n)) \<Longrightarrow> Q True t"
  shows "wp (r_expire srv k n) Q E s"
  by (rule wp_mono [OF expire_cmd]) (auto intro: assms split: option.splits)

lemma wp_del:
  assumes "\<And>t. view t = (view s)(k := None) \<Longrightarrow> Q () t"
  shows "wp (r_del srv k) Q E s"
  by (rule wp_mono [OF del_cmd]) (auto intro: assms)

lemma wp_del_all:
  assumes "\<And>t. view t = (\<lambda>k. if k \<in> set ks then None else view s k) \<Longrightarrow> Q () t"
  shows "wp (each (r_del srv) ks) Q E s"
  using assms
proof (induction ks arbitrary: s)
  case Nil
  then show ?case by simp
next
  case (Cons k ks)
  show ?case unfolding each.simps wp_andthen
  proof (rule wp_del)
    fix t assume t: "view t = (view s)(k := None)"
    show "wp (each (r_del srv) ks) Q E t"
      by (rule Cons.IH, rule Cons.prems) (use t in \<open>auto simp: fun_eq_iff\<close>)
  qed
qed

lemma wp_incr:
  assumes "view s k = None \<or> (\<exists>r m. view s k = Some r \<and> fst r = nat_str m)"
    and "\<And>t ttl. view t = (view s)(k \<mapsto> (nat_str (Suc (counter (view s k))), ttl)) \<Longrightarrow> Q t"
  shows "wp (r_incr srv k) (\<lambda>_. Q) E s"
proof -
  from assms(1) obtain m where m: "view s k = None \<or> (\<exists>ttl. view s k = Some (nat_str m, ttl))"
    by (metis prod.collapse)
  show ?thesis
  proof (rule wp_mono [OF incr_cmd [OF m]])
    fix i t
    assume "view t = (view s)(k \<mapsto> (case view s k of None \<Rightarrow> (nat_str 1, None)
      | Some r \<Rightarrow> (nat_str (Suc m), snd r)))"
    with m show "Q t"
      using assms(2) [of t None] assms(2) [of t "snd (the (view s k))"] by (auto simp: counter_def)
  qed simp
qed

lemma redis_allocate_wp:
  assumes ok: "redis_ok view s" and c: "plain_id c"
  shows "wp (redis_allocate_container srv c x)
           (\<lambda>_ t. redis_ok view t \<and> redis_abs view loads t = reg_allocate c x (redis_abs view loads s))
           (\<lambda>_ _. False) s"
proof -
  let ?a = "container_allocation_key (rprefix s) c x" and ?u = "container_uses_key (rprefix s) c"
  have num: "view (server s) ?u = None \<or> (\<exists>r m. view (server s) ?u = Some r \<and> fst r = nat_str m)"
    using ok c by (cases "view (server s) ?u") (auto simp: redis_ok_def)
  have u: "redis_ok view ((connected s)\<lparr>server := t\<rparr>) \<and>
      redis_abs view loads ((connected s)\<lparr>server := t\<rparr>) = reg_allocate c x (redis_abs view loads s)"
    if "view t = (view (server s))(?a \<mapsto> v, ?u \<mapsto> (nat_str (Suc (counter (view (server s) ?u))), ttl))"
    for t v ttl
    using that ok c
    by (auto simp: redis_ok_def redis_abs_def reg_allocate_def fun_eq_iff counter_def)
  have "wp (redis_allocate_container srv c x) Q E s =
        wp (on_server (bnd (r_set srv ?a ''1'' False (session_expiry s)) (\<lambda>_.
              bnd (r_incr srv ?u) (\<lambda>_. ret ())))) Q E s" for Q E
    by (simp only: wp_def redis_allocate_container_def)
  then show ?thesis
    apply simp
    apply (rule wp_set)
    apply (rule wp_incr)
    subgoal for t using num c by auto
    subgoal for t t' ttl using u [of t' "(''1'', Some (session_expiry s))" ttl] c by simp
    done
qed

lemma redis_release_wp:
  assumes ok: "redis_ok view s" and c: "plain_id c"
  shows "wp (redis_release_container srv c x)
           (\<lambda>_ t. redis_ok view t \<and> redis_abs view loads t = reg_release c x (redis_abs view loads s))
           (\<lambda>_ _. False) s"
proof -
  have "wp (redis_release_container srv c x) Q E s =
        wp (on_server (r_del srv (container_allocation_key (rprefix s) c x))) Q E s" for Q E
    by (simp only: wp_def redis_release_container_def)
  then show ?thesis
    apply simp
    apply (rule wp_del)
    using ok c by (auto simp: redis_ok_def redis_abs_def reg_release_def fun_eq_iff)
qed

lemma keys_with_prefix:
  assumes "plain p"
  obtains ks where "r_keys srv (p @ ''*'') s = (Inr ks, s)" "distinct ks"
    "set ks = {k. view s k \<noteq> None \<and> prefix p k}"
  using keys_cmd [of "p @ ''*''" s] by (auto simp: glob_star [OF assms])

lemma redis_remove_wp:
  assumes ok: "redis_ok view s" and c: "plain_id c"
  shows "wp (redis_remove_container srv c)
           (\<lambda>_ t. redis_ok view t \<and> redis_abs view loads t = reg_remove c (redis_abs view loads s))
           (\<lambda>_ _. False) s"
proof -
  let ?p = "container_key_prefix (rprefix s) c"
  have "plain ?p" using ok c by (simp add: redis_ok_def plain_key_prefixes)
  then obtain ks where ks: "r_keys srv (?p @ ''*'') (server s) = (Inr ks, server s)"
    "set ks = {k. view (server s) k \<noteq> None \<and> prefix ?p k}"
    by (rule keys_with_prefix)
  have step: "wp (redis_remove_container srv c) Q E s =
        wp (each (r_del srv) ks) (\<lambda>_ t. Q () ((connected s)\<lparr>server := t\<rparr>))
          (\<lambda>e t. E e ((connected s)\<lparr>server := t\<rparr>)) (server s)" for Q E
  proof -
    have "wp (redis_remove_container srv c) Q E s =
          wp (on_server (bnd (delete_keys_script srv (?p @ ''*'')) (\<lambda>_. ret ()))) Q E s"
      by (simp only: wp_def redis_remove_container_def)
    then show ?thesis
      by (simp add: delete_keys_script_def wp_def [of "r_keys srv (?p @ ''*'')"] ks(1))
  qed
  show ?thesis
    unfolding step
  proof (rule wp_del_all)
    fix t assume t: "view t = (\<lambda>k. if k \<in> set ks then None else view (server s) k)"
    have "view t = (\<lambda>k. if prefix ?p k then None else view (server s) k)"
    proof (rule ext)
      fix k show "view t k = (if prefix ?p k then None else view (server s) k)"
        by (cases "view (server s) k") (simp_all add: t ks(2))
    qed
    then show "redis_ok view ((connected s)\<lparr>server := t\<rparr>) \<and>
        redis_abs view loads ((connected s)\<lparr>server := t\<rparr>) = reg_remove c (redis_abs view loads s)"
      using ok c
      by (auto simp: redis_ok_def redis_abs_def reg_remove_def fun_eq_iff counter_def
          prefix_container_key split: if_splits)
  qed
qed

lemma redis_finite_alloc:
  assumes ok: "redis_ok view s"
  shows "finite (r_alloc (redis_abs view loads s) c)"
proof (cases "plain_id c")
  case True
  let ?p = "container_allocation_key_prefix (rprefix s) c"
  have "plain ?p" using ok True by (simp add: redis_ok_def plain_key_prefixes)
  then obtain ks where ks: "set ks = {k. view (server s) k \<noteq> None \<and> prefix ?p k}"
    by (rule keys_with_prefix)
  have "(@) ?p ` r_alloc (redis_abs view loads s) c \<subseteq> set ks"
    using True ks by (auto simp: redis_abs_def container_allocation_key_def)
  then have "finite ((@) ?p ` r_alloc (redis_abs view loads s) c)"
    by (rule finite_subset) simp
  then show ?thesis by (rule finite_imageD) (simp add: inj_on_def)
next
  case False
  then show ?thesis by (simp add: redis_abs_def)
qed

lemma redis_current_uses_wp:
  assumes ok: "redis_ok view s" and c: "plain_id c"
  shows "redis_container_current_uses srv c s =
         (Inr (card (r_alloc (redis_abs view loads s) c)), connected s)"
proof -
  let ?p = "container_allocation_key_prefix (rprefix s) c"
  have "plain ?p" using ok c by (simp add: redis_ok_def plain_key_prefixes)
  then obtain ks where ks: "r_keys srv (?p @ ''*'') (server s) = (Inr ks, server s)" "distinct ks"
    "set ks = {k. view (server s) k \<noteq> None \<and> prefix ?p k}"
    by (rule keys_with_prefix)
  have "set ks = (@) ?p ` r_alloc (redis_abs view loads s) c"
    using c by (auto simp: ks(3) redis_abs_def container_allocation_key_def prefix_def)
  then have "length ks = card (r_alloc (redis_abs view loads s) c)"
    using ks(2) by (simp add: distinct_card [symmetric] card_image inj_on_def)
  then show ?thesis
    by (simp add: redis_container_current_uses_def on_server_def andthen_def get_client_apply
        zoom_apply count_keys_script_def bnd_def [of "r_keys srv (?p @ ''*'')"] ks(1) proc_simps)
qed

lemma redis_total_uses_wp:
  assumes ok: "redis_ok view s" and c: "plain_id c"
  shows "redis_container_total_uses srv c s =
         (Inr (r_uses (redis_abs view loads s) c), connected s)"
proof -
  let ?k = "container_uses_key (rprefix s) c"
  have run: "redis_container_total_uses srv c s =
    (case map_option fst (view (server s) ?k) of
       None \<Rightarrow> (Inr 0, connected s)
     | Some w \<Rightarrow> (if w = [] then (Inr 0, connected s)
                  else case parse_int w of Some i \<Rightarrow> (Inr (nat i), connected s)
                       | None \<Rightarrow> (Inl ValueError, connected s)))"
    by (simp add: redis_container_total_uses_def on_server_def andthen_def get_client_apply
        zoom_apply bnd_def get_cmd proc_simps split: option.splits)
  show ?thesis
  proof (cases "view (server s) ?k")
    case None
    then show ?thesis using run c by (simp add: redis_abs_def counter_def)
  next
    case (Some r)
    with ok c have "\<exists>n. fst r = nat_str n" unfolding redis_ok_def by blast
    then obtain n where "fst r = nat_str n" ..
    then show ?thesis using run c Some by (simp add: redis_abs_def counter_def)
  qed
qed

end

section \<open>Interpretation of the contracts\<close>

locale redis_store = redis_server srv view glob
    for srv :: "'s redis_srv" and view and glob +
  fixes dumps :: "'j \<Rightarrow> string" and loads :: "string \<Rightarrow> 'j option"
    and sleep :: "('s redis_state, unit) proc"
  assumes json_round_trip: "loads (dumps d) = Some d"
begin

lemma redis_store_wp:
  assumes ok: "redis_ok view s"
  shows "wp (redis_store_session srv dumps x d)
           (\<lambda>_ t. redis_ok view t \<and> redis_abs view loads t = reg_store x d (redis_abs view loads s))
           (\<lambda>_ _. False) s"
proof -
  have "wp (redis_store_session srv dumps x d) Q E s =
        wp (on_server (bnd (r_set srv (session_key (rprefix s) x) (dumps d) False (session_expiry s))
              (\<lambda>_. ret ()))) Q E s" for Q E
    by (simp only: wp_def redis_store_session_def)
  then show ?thesis
    apply simp
    apply (rule wp_set)
    using ok by (auto simp: redis_ok_def redis_abs_def reg_store_def fun_eq_iff json_round_trip)
qed

lemma redis_get_wp:
  "wp (redis_get_session srv loads x)
     (\<lambda>d t. d = r_sess (redis_abs view loads s) x \<and> redis_ok view t = redis_ok view s \<and>
            redis_abs view loads t = redis_abs view loads s) (\<lambda>_ _. False) s"
proof -
  have "wp (redis_get_session srv loads x) Q E s =
        wp (andthen redis_get_client
       (catch
          (bnd (on_server (r_get srv (session_key (rprefix s) x))) (\<lambda>v.
             case v of
               None \<Rightarrow> raise TypeError
             | Some w \<Rightarrow> (case loads w of Some d \<Rightarrow> ret (Some d) | None \<Rightarrow> raise ValueError)))
          (\<lambda>_. ret None))) Q E s" for Q E
    by (simp only: wp_def redis_get_session_def)
  then show ?thesis
    by (auto simp: wp_def [of redis_get_client] get_client_apply redis_abs_def redis_ok_def
        fun_eq_iff split: option.splits)
qed

lemma redis_delete_wp:
  assumes ok: "redis_ok view s"
  shows "wp (redis_delete_session srv x)
           (\<lambda>_ t. redis_ok view t \<and> reg_deleted x (redis_abs view loads s) (redis_abs view loads t))
           (\<lambda>_ _. False) s"
proof -
  have "wp (redis_delete_session srv x) Q E s =
        wp (on_server (r_del srv (session_key (rprefix s) x))) Q E s" for Q E
    by (simp only: wp_def redis_delete_session_def)
  then show ?thesis
    apply simp
    apply (rule wp_del)
    using ok by (auto simp: redis_ok_def redis_abs_def reg_deleted_def fun_eq_iff)
qed

end

lemma connected_same [simp]:
  "redis_ok view (connected s) = redis_ok view s"
  "redis_abs view loads (connected s) = redis_abs view loads s"
  by (simp_all add: redis_ok_def redis_abs_def fun_eq_iff)

lemmas redis_provider_simps = redis_provider_def provider.simps

sublocale redis_store \<subseteq> registry: container_registry
  "redis_provider srv dumps loads sleep" "redis_ok view" plain_id "\<lambda>_ _. True"
  "redis_abs view loads"
proof
  fix s :: "'s redis_state" and c x :: string and d :: 'j assume ok: "redis_ok view s"
  show "finite (r_alloc (redis_abs view loads s) c)" by (rule redis_finite_alloc [OF ok])
  show "wp (store_session (redis_provider srv dumps loads sleep) x d)
     (\<lambda>_ t. redis_ok view t \<and> redis_abs view loads t = reg_store x d (redis_abs view loads s) \<and>
            (\<forall>y. True \<longrightarrow> True)) (\<lambda>_ _. False) s"
    using redis_store_wp [OF ok] by (simp add: redis_provider_simps)
  show "wp (get_session (redis_provider srv dumps loads sleep) x)
     (\<lambda>d t. d = r_sess (redis_abs view loads s) x \<and> redis_ok view t \<and>
            redis_abs view loads t = redis_abs view loads s \<and> (\<forall>y. True \<longrightarrow> True)) (\<lambda>_ _. False) s"
    using redis_get_wp [of x s] ok by (simp add: redis_provider_simps)
  show "wp (delete_session (redis_provider srv dumps loads sleep) x)
     (\<lambda>_ t. redis_ok view t \<and> reg_deleted x (redis_abs view loads s) (redis_abs view loads t) \<and>
            (\<forall>y. y \<noteq> x \<longrightarrow> True \<longrightarrow> True)) (\<lambda>_ _. False) s"
    using redis_delete_wp [OF ok] by (simp add: redis_provider_simps)
  assume c: "plain_id c"
  show "wp (allocate_container (redis_provider srv dumps loads sleep) c x)
     (\<lambda>_ t. redis_ok view t \<and> redis_abs view loads t = reg_allocate c x (redis_abs view loads s) \<and>
            (\<forall>y. True \<longrightarrow> True)) (\<lambda>_ _. False) s"
    using redis_allocate_wp [OF ok c] by (simp add: redis_provider_simps)
  show "wp (release_container (redis_provider srv dumps loads sleep) c x)
     (\<lambda>_ t. redis_ok view t \<and> redis_abs view loads t = reg_release c x (redis_abs view loads s) \<and>
            (\<forall>y. True \<longrightarrow> True)) (\<lambda>_ _. False) s"
    using redis_release_wp [OF ok c] by (simp add: redis_provider_simps)
  show "wp (remove_container (redis_provider srv dumps loads sleep) c)
     (\<lambda>_ t. redis_ok view t \<and> redis_abs view loads t = reg_remove c (redis_abs view loads s) \<and>
            (\<forall>y. True \<longrightarrow> True)) (\<lambda>_ _. False) s"
    using redis_remove_wp [OF ok c] by (simp add: redis_provider_simps)
  have cur: "redis_container_current_uses srv c s =
      (Inr (card (r_alloc (redis_abs view loads s) c)), connected s)"
    by (rule redis_current_uses_wp [OF ok c])
  then show "wp (container_current_uses (redis_provider srv dumps loads sleep) c)
     (\<lambda>n t. n = card (r_alloc (redis_abs view loads s) c) \<and> redis_ok view t \<and>
            redis_abs view loads t = redis_abs view loads s \<and> (\<forall>y. True \<longrightarrow> True)) (\<lambda>_ _. False) s"
    using ok by (simp add: redis_provider_simps wp_def)
  show "wp (container_total_uses (redis_provider srv dumps loads sleep) c)
     (\<lambda>n t. n = r_uses (redis_abs view loads s) c \<and> redis_ok view t \<and>
            redis_abs view loads t = redis_abs view loads s \<and> (\<forall>y. True \<longrightarrow> True)) (\<lambda>_ _. False) s"
    using redis_total_uses_wp [OF ok c, of loads] ok by (simp add: redis_provider_simps wp_def)
  show "wp (container_is_allocated (redis_provider srv dumps loads sleep) c)
     (\<lambda>n t. n = (r_alloc (redis_abs view loads s) c \<noteq> {}) \<and> redis_ok view t \<and>
            redis_abs view loads t = redis_abs view loads s \<and> (\<forall>y. True \<longrightarrow> True)) (\<lambda>_ _. False) s"
    using cur ok redis_finite_alloc [OF ok, of loads c]
    by (simp add: redis_provider_simps redis_container_is_allocated_def wp_def bnd_def ret_def
        card_gt_0_iff)
qed

sublocale redis_store \<subseteq> locks: lock_service
  "redis_provider srv dumps loads sleep" "\<lambda>_. True" lock_owner
  "\<lambda>s name. map_option fst (view (server s) (lock_key (rprefix s) name))"
proof
  fix s :: "'s redis_state" and name client timeout
  let ?k = "lock_key (rprefix s) name" and ?v = "lock_owner s client"
  have a: "wp (redis_acquire_lock srv name client timeout) Q E s =
        wp (on_server (acquire_lock_script srv ?k ?v timeout)) Q E s" for Q E
    by (simp only: wp_def redis_acquire_lock_def)
  show "wp (acquire_lock (redis_provider srv dumps loads sleep) name client timeout)
     (\<lambda>got t. True \<and> lock_owner t = lock_owner s \<and>
        got = (map_option fst (view (server s) ?k) = None \<or>
               map_option fst (view (server s) ?k) = Some ?v) \<and>
        (\<lambda>n. map_option fst (view (server t) (lock_key (rprefix t) n))) =
          (if got then (\<lambda>n. map_option fst (view (server s) (lock_key (rprefix s) n)))(name \<mapsto> ?v)
           else (\<lambda>n. map_option fst (view (server s) (lock_key (rprefix s) n)))))
     (\<lambda>_ _. False) s"
    by (auto simp: redis_provider_simps a acquire_lock_script_def fun_eq_iff
        intro!: wp_set_nx wp_expire)
  have r: "wp (redis_release_lock srv name client) Q E s =
        wp (on_server (release_lock_script srv ?k ?v)) Q E s" for Q E
    by (simp only: wp_def redis_release_lock_def)
  show "wp (release_lock (redis_provider srv dumps loads sleep) name client)
     (\<lambda>_ t. True \<and> lock_owner t = lock_owner s \<and>
        (\<lambda>n. map_option fst (view (server t) (lock_key (rprefix t) n))) =
          (if map_option fst (view (server s) ?k) = Some ?v
           then (\<lambda>n. map_option fst (view (server s) (lock_key (rprefix s) n)))(name := None)
           else (\<lambda>n. map_option fst (view (server s) (lock_key (rprefix s) n)))))
     (\<lambda>_ _. False) s"
    by (auto simp: redis_provider_simps r release_lock_script_def fun_eq_iff intro!: wp_del)
qed

section \<open>Facts over the provider\<close>

definition redis_wait :: "'s redis_srv \<Rightarrow> nat \<Rightarrow> 's redis_state \<Rightarrow> 's redis_state" where
  "redis_wait srv d s = s\<lparr>server := r_elapse srv d (server s)\<rparr>"

text \<open>A client that renews its allocation after each of a list of pauses.\<close>

fun renew_after :: "'s redis_srv \<Rightarrow> string \<Rightarrow> string \<Rightarrow> nat list \<Rightarrow> ('s redis_state, unit) proc" where
  "renew_after srv c x [] = ret ()"
| "renew_after srv c x (d # ds) =
     andthen (modify (redis_wait srv d))
       (andthen (redis_renew_container srv c x) (renew_after srv c x ds))"

context redis_store
begin

lemma redis_run_current_uses:
  assumes "redis_ok view s" and "\<forall>p \<in> set ps. plain_id (op_ids p)" and "plain_id c"
  shows "fst (andthen (each (exec_op (redis_provider srv dumps loads sleep)) ps)
                      (container_current_uses (redis_provider srv dumps loads sleep) c) s) =
         Inr (card (r_alloc (fold reg_exec ps (redis_abs view loads s)) c))"
  by (rule registry.run_current_uses) (use assms in auto)

end

context redis_server
begin

lemma redis_acquire_wp:
  "wp (redis_acquire_lock srv name client timeout)
     (\<lambda>got t. rprefix t = rprefix s \<and> lock_owner t = lock_owner s \<and>
        got = (view (server s) (lock_key (rprefix s) name) = None \<or>
               (\<exists>ttl. view (server s) (lock_key (rprefix s) name) = Some (lock_owner s client, ttl))) \<and>
        (got \<longrightarrow> view (server t) (lock_key (rprefix s) name) = Some (lock_owner s client, Some timeout)))
     (\<lambda>_ _. False) s"
proof -
  have "wp (redis_acquire_lock srv name client timeout) Q E s =
        wp (on_server (acquire_lock_script srv (lock_key (rprefix s) name) (lock_owner s client) timeout))
          Q E s" for Q E
    by (simp only: wp_def redis_acquire_lock_def)
  then show ?thesis
    by (auto simp: acquire_lock_script_def intro!: wp_set_nx wp_expire)
qed

lemma lock_until_timeout:
  assumes "redis_acquire_lock srv name a timeout s = (Inr True, t)"
    and "lock_owner s a \<noteq> lock_owner s b"
  shows "fst (redis_acquire_lock srv name b timeout' (redis_wait srv d t)) = Inr (timeout \<le> d)"
proof -
  have t: "rprefix t = rprefix s" "lock_owner t = lock_owner s"
    "view (server t) (lock_key (rprefix s) name) = Some (lock_owner s a, Some timeout)"
    using wp_Inr [OF redis_acquire_wp assms(1)] by auto
  have w: "lock_owner (redis_wait srv d t) = lock_owner s" "rprefix (redis_wait srv d t) = rprefix s"
    using t by (simp_all add: redis_wait_def)
  have "view (server (redis_wait srv d t)) (lock_key (rprefix s) name) =
      (if timeout \<le> d then None else Some (lock_owner s a, Some (timeout - d)))"
    using t(3) by (simp add: redis_wait_def elapse)
  then show ?thesis
    using redis_acquire_wp [of name b timeout' "redis_wait srv d t"] w assms(2)
    by (auto simp: wp_def split: prod.splits sum.splits if_splits)
qed

lemma values_gte_ok: "\<exists>ks. values_gte srv n keys s = (Inr ks, s)"
  by (induction keys) (auto simp: ret_def bnd_def get_cmd)

lemma total_uses_gte_fails: "fst (redis_containers_total_uses_gte srv n s) = Inl ScriptError"
proof -
  obtain ks where "r_keys srv (container_uses_key (rprefix s) ''*'') (server s) = (Inr ks, server s)"
    using keys_cmd by blast
  moreover obtain rs where "values_gte srv (int n) ks (server s) = (Inr rs, server s)"
    using values_gte_ok by blast
  ultimately show ?thesis
    by (simp add: redis_containers_total_uses_gte_def on_server_def andthen_def get_client_apply
        zoom_apply keys_value_gte_script_def bnd_def global_unassigned)
qed

text \<open>Renewals that come before the expiry keep an allocation.\<close>

lemma renew_wp:
  assumes "view (server s) (container_allocation_key (rprefix s) c x) = Some r"
  shows "wp (redis_renew_container srv c x)
     (\<lambda>_ t. rprefix t = rprefix s \<and> session_expiry t = session_expiry s \<and>
        view (server t) = (view (server s))
          (container_allocation_key (rprefix s) c x \<mapsto> (fst r, Some (session_expiry s)))) (\<lambda>_ _. False) s"
proof -
  have "wp (redis_renew_container srv c x) Q E s =
    wp (on_server (bnd (r_expire srv (container_allocation_key (rprefix s) c x) (session_expiry s))
       (\<lambda>_. ret ()))) Q E s" for Q E
    by (simp only: wp_def redis_renew_container_def)
  then show ?thesis using assms by (auto intro!: wp_expire)
qed

lemma renew_after_keeps:
  assumes "view (server s) (container_allocation_key (rprefix s) c x) = Some (v, Some (session_expiry s))"
    and "\<forall>d \<in> set ds. d < session_expiry s"
  shows "wp (renew_after srv c x ds)
     (\<lambda>_ t. rprefix t = rprefix s \<and> session_expiry t = session_expiry s \<and>
        view (server t) (container_allocation_key (rprefix t) c x) = Some (v, Some (session_expiry s)))
     (\<lambda>_ _. False) s"
  using assms
proof (induction ds arbitrary: s)
  case Nil
  then show ?case by simp
next
  case (Cons d ds)
  let ?s = "redis_wait srv d s"
  have s: "view (server ?s) (container_allocation_key (rprefix ?s) c x) =
      Some (v, Some (session_expiry s - d))"
    using Cons.prems by (simp add: redis_wait_def elapse)
  show ?case
    unfolding renew_after.simps wp_andthen wp_modify
    apply (rule wp_mono [OF renew_wp [OF s]])
     apply (rule wp_mono [OF Cons.IH])
    using Cons.prems by (auto simp: redis_wait_def)
qed

lemma allocate_view:
  assumes ok: "redis_ok view s" and c: "plain_id c"
  shows "wp (redis_allocate_container srv c x)
     (\<lambda>_ t. rprefix t = rprefix s \<and> session_expiry t = session_expiry s \<and>
        view (server t) (container_allocation_key (rprefix s) c x) = Some (''1'', Some (session_expiry s)))
     (\<lambda>_ _. False) s"
proof -
  let ?a = "container_allocation_key (rprefix s) c x" and ?u = "container_uses_key (rprefix s) c"
  have num: "view (server s) ?u = None \<or> (\<exists>r m. view (server s) ?u = Some r \<and> fst r = nat_str m)"
    using ok c by (cases "view (server s) ?u") (auto simp: redis_ok_def)
  have "wp (redis_allocate_container srv c x) Q E s =
        wp (on_server (bnd (r_set srv ?a ''1'' False (session_expiry s)) (\<lambda>_.
              bnd (r_incr srv ?u) (\<lambda>_. ret ())))) Q E s" for Q E
    by (simp only: wp_def redis_allocate_container_def)
  then show ?thesis
    apply simp
    apply (rule wp_set)
    apply (rule wp_incr)
    subgoal for t using num c by auto
    subgoal for t t' ttl using c by auto
    done
qed

lemma allocation_lifetime:
  assumes "redis_ok view s" and c: "plain_id c" and ds: "\<forall>d \<in> set ds. d < session_expiry s"
  shows "wp (andthen (redis_allocate_container srv c x)
              (andthen (renew_after srv c x ds) (modify (redis_wait srv d))))
     (\<lambda>_ t. (x \<in> r_alloc (redis_abs view loads t) c) = (d < session_expiry s)) (\<lambda>_ _. False) s"
  unfolding wp_andthen
  apply (rule wp_mono [OF allocate_view [OF assms(1,2)]])
   apply (rule wp_mono [OF renew_after_keeps])
  using ds c by (auto simp: redis_wait_def redis_abs_def elapse split: if_splits)

text \<open>The use counter has no expiry: waiting never changes it.\<close>

lemma uses_survive:
  assumes "\<And>k r. view (server s) (container_uses_key (rprefix s) k) = Some r \<Longrightarrow> snd r = None"
  shows "r_uses (redis_abs view loads (redis_wait srv d s)) = r_uses (redis_abs view loads s)"
proof (rule ext)
  fix k
  show "r_uses (redis_abs view loads (redis_wait srv d s)) k = r_uses (redis_abs view loads s) k"
    using assms [of k]
    by (cases "view (server s) (container_uses_key (rprefix s) k)")
       (auto simp: redis_wait_def redis_abs_def elapse)
qed

end

section \<open>An in-memory server\<close>

text \<open>
  A server that meets the contract, on which the hypotheses of the properties below are
  discharged. A dead key keeps an entry with no value.
\<close>

type_synonym mem = "(string, (string \<times> nat option) option) dict"

definition mem_view :: "mem \<Rightarrow> string \<Rightarrow> (string \<times> nat option) option" where
  "mem_view s k = Option.bind (dict_get s k) id"

fun mem_glob :: "string \<Rightarrow> string \<Rightarrow> bool" where
  "mem_glob [] k = (k = [])"
| "mem_glob (c # p) [] = (c = CHR ''*'' \<and> mem_glob p [])"
| "mem_glob (c # p) (d # k) =
     (if c = CHR ''*'' then mem_glob p (d # k) \<or> mem_glob (c # p) k
      else (c = CHR ''?'' \<or> c = d) \<and> mem_glob p k)"

definition mem_elapse :: "nat \<Rightarrow> mem \<Rightarrow> mem" where
  "mem_elapse d = dict_map (\<lambda>r. case r of
     Some (v, Some n) \<Rightarrow> (if n \<le> d then None else Some (v, Some (n - d))) | other \<Rightarrow> other)"

definition mem_srv :: "mem redis_srv" where
  "mem_srv =
     \<lparr>r_set = (\<lambda>k v nx n s. if nx \<and> mem_view s k \<noteq> None then (Inr False, s)
                 else (Inr True, dict_set k (Some (v, Some n)) s)),
      r_get = (\<lambda>k s. (Inr (map_option fst (mem_view s k)), s)),
      r_expire = (\<lambda>k n s. case mem_view s k of None \<Rightarrow> (Inr False, s)
                 | Some r \<Rightarrow> (Inr True, dict_set k (Some (fst r, Some n)) s)),
      r_del = (\<lambda>k s. (Inr (), dict_set k None s)),
      r_incr = (\<lambda>k s. case mem_view s k of
                   None \<Rightarrow> (Inr 1, dict_set k (Some (nat_str 1, None)) s)
                 | Some r \<Rightarrow>
                     (case parse_nat (fst r) of
                        Some m \<Rightarrow> (Inr (int (Suc m)), dict_set k (Some (nat_str (Suc m), snd r)) s)
                      | None \<Rightarrow> (Inl ScriptError, s))),
      r_keys = (\<lambda>pat s. (Inr (remdups (filter (\<lambda>k. mem_view s k \<noteq> None \<and> mem_glob pat k)
                 (dict_keys s))), s)),
      r_unassigned_global = (\<lambda>g s. (Inl ScriptError, s)),
      r_elapse = mem_elapse\<rparr>"

lemma mem_view_set [simp]: "mem_view (dict_set k r s) = (mem_view s)(k := r)"
  by (auto simp: mem_view_def fun_eq_iff)

lemma mem_view_key: "mem_view s k \<noteq> None \<Longrightarrow> k \<in> fst ` set s"
  by (auto simp: mem_view_def bind_eq_Some_conv dest!: map_of_SomeD intro: rev_image_eqI)

lemma mem_glob_star: "plain p \<Longrightarrow> mem_glob (p @ ''*'') k = prefix p k"
proof (induction p arbitrary: k)
  case Nil
  have "mem_glob ''*'' k" by (induction k) auto
  then show ?case by simp
next
  case (Cons c p)
  then have "plain p" and "c \<noteq> CHR ''*''" and "c \<noteq> CHR ''?''" by (auto simp: plain_def)
  with Cons.IH show ?case by (cases k) auto
qed

lemma mem_elapse_view:
  "mem_view (mem_elapse d s) k =
     (case mem_view s k of
        Some (v, Some n) \<Rightarrow> (if n \<le> d then None else Some (v, Some (n - d)))
      | other \<Rightarrow> other)"
  by (cases "dict_get s k")
     (auto simp: mem_view_def mem_elapse_def split: option.splits prod.splits)

interpretation mem: redis_store mem_srv mem_view mem_glob id Some "ret ()"
proof
  fix s :: mem and k v g pat p :: string and nx n m d
  show "wp (r_set mem_srv k v nx n)
     (\<lambda>done t. done = (\<not> nx \<or> mem_view s k = None) \<and>
        mem_view t = (if done then (mem_view s)(k \<mapsto> (v, Some n)) else mem_view s)) (\<lambda>_ _. False) s"
    by (cases "mem_view s k") (auto simp: mem_srv_def wp_def)
  show "r_get mem_srv k s = (Inr (map_option fst (mem_view s k)), s)"
    by (simp add: mem_srv_def)
  show "wp (r_expire mem_srv k n)
     (\<lambda>done t. done = (mem_view s k \<noteq> None) \<and>
        mem_view t = (case mem_view s k of None \<Rightarrow> mem_view s
                      | Some r \<Rightarrow> (mem_view s)(k \<mapsto> (fst r, Some n)))) (\<lambda>_ _. False) s"
    by (auto simp: mem_srv_def wp_def split: option.splits)
  show "wp (r_del mem_srv k) (\<lambda>_ t. mem_view t = (mem_view s)(k := None)) (\<lambda>_ _. False) s"
    by (simp add: mem_srv_def wp_def)
  show "wp (r_incr mem_srv k)
     (\<lambda>_ t. mem_view t = (mem_view s)(k \<mapsto>
        (case mem_view s k of None \<Rightarrow> (nat_str 1, None) | Some r \<Rightarrow> (nat_str (Suc m), snd r))))
     (\<lambda>_ _. False) s"
    if "mem_view s k = None \<or> (\<exists>ttl. mem_view s k = Some (nat_str m, ttl))"
    using that by (auto simp: mem_srv_def wp_def)
  have "set (filter (\<lambda>k. mem_view s k \<noteq> None \<and> mem_glob pat k) (dict_keys s)) =
        {k. mem_view s k \<noteq> None \<and> mem_glob pat k}"
    using mem_view_key [of s] by auto
  then show "\<exists>ks. r_keys mem_srv pat s = (Inr ks, s) \<and> distinct ks \<and>
      set ks = {k. mem_view s k \<noteq> None \<and> mem_glob pat k}"
    by (simp add: mem_srv_def)
  show "plain p \<Longrightarrow> mem_glob (p @ ''*'') k = prefix p k" by (rule mem_glob_star)
  show "r_unassigned_global mem_srv g s = (Inl ScriptError, s)" by (simp add: mem_srv_def)
  show "mem_view (r_elapse mem_srv d s) k =
        (case mem_view s k of
           Some (v, Some n) \<Rightarrow> (if n \<le> d then None else Some (v, Some (n - d)))
         | other \<Rightarrow> other)"
    by (simp add: mem_srv_def mem_elapse_view)
  show "Some (id d) = Some d" for d :: string by simp
qed

section \<open>Properties\<close>

text \<open>
  C13: the Redis provider implements the registry. After any sequence of allocations, releases
  and removals of containers whose identifiers contain neither a colon nor a pattern character,
  the number of current uses the provider reports for a container is the number of sessions the
  abstract registry holds for it. The key scheme, the pattern count and the pattern delete are
  covered: a removal takes the keys of its container and no others.
\<close>

theorem redis_reports_registry:
  assumes "redis_store srv view glob dumps loads" and "redis_ok view s"
    and "\<forall>p \<in> set ps. plain_id (op_ids p)" and "plain_id c"
  shows "fst (andthen (each (exec_op (redis_provider srv dumps loads sleep)) ps)
                      (container_current_uses (redis_provider srv dumps loads sleep) c) s) =
         Inr (card (r_alloc (fold reg_exec ps (redis_abs view loads s)) c))"
  by (rule redis_store.redis_run_current_uses [OF assms])

definition mem_start :: "mem redis_state" where
  "mem_start = redis_init [] (\<lambda>n. ''u'' @ nat_str n, 0) [] ''agentrl'' None"

lemma mem_start_ok: "redis_ok mem_view mem_start"
  by (auto simp: redis_ok_def mem_start_def redis_init_def uuid4_def plain_def mem_view_def)

theorem redis_reports_registry_witness:
  "fst (andthen (each (exec_op (redis_provider mem_srv id Some (ret ())))
          [Allocate ''c1'' ''s1'', Allocate ''c1'' ''s2'', Allocate ''c10'' ''s3'', Remove ''c10'',
           Release ''c1'' ''s1''])
        (container_current_uses (redis_provider mem_srv id Some (ret ())) ''c1'') mem_start) = Inr 1"
proof -
  let ?ops = "[Allocate ''c1'' ''s1'', Allocate ''c1'' ''s2'', Allocate ''c10'' ''s3'', Remove ''c10'',
           Release ''c1'' ''s1'']"
  have "r_alloc (fold reg_exec ?ops (redis_abs mem_view Some mem_start)) ''c1'' = {''s2''}"
    by (auto simp: redis_abs_def mem_start_def mem_view_def redis_init_def uuid4_def)
  moreover have "\<forall>p \<in> set ?ops. plain_id (op_ids p)" and "plain_id ''c1''"
    by (simp_all add: plain_id_def plain_def)
  ultimately show ?thesis
    using redis_reports_registry
      [OF mem.redis_store_axioms mem_start_ok, of ?ops "''c1''" "ret ()"] by simp
qed

text \<open>
  The lock scripts give mutual exclusion until the lock expires. Once one owner has acquired
  a lock with a timeout, an acquisition by any other owner, made after some time and with no
  other command in between, succeeds exactly when that time has reached the timeout.
\<close>

lemma redis_lock_until_timeout:
  assumes "redis_server srv view glob"
    and "redis_acquire_lock srv name a timeout s = (Inr True, t)"
    and "lock_owner s a \<noteq> lock_owner s b"
  shows "fst (redis_acquire_lock srv name b timeout' (redis_wait srv d t)) = Inr (timeout \<le> d)"
  by (rule redis_server.lock_until_timeout [OF assms])

theorem redis_lock_until_timeout_witness:
  "fst (redis_acquire_lock mem_srv ''background'' (Some ''other'') 5
     (redis_wait mem_srv 7 (snd (redis_acquire_lock mem_srv ''background'' None 120 mem_start)))) =
   Inr False"
proof -
  have "redis_acquire_lock mem_srv ''background'' None 120 mem_start =
        (Inr True, snd (redis_acquire_lock mem_srv ''background'' None 120 mem_start))"
    by (simp add: redis_acquire_lock_def on_server_def andthen_def get_client_apply zoom_apply
        acquire_lock_script_def bnd_def ret_def mem_srv_def mem_start_def redis_init_def
        uuid4_def mem_view_def)
  moreover have "lock_owner mem_start None \<noteq> lock_owner mem_start (Some ''other'')"
    by (simp add: lock_owner_def mem_start_def redis_init_def uuid4_def)
  ultimately show ?thesis
    using redis_lock_until_timeout [OF mem.redis_server_axioms] by simp
qed

text \<open>
  The listing of containers by use count never answers. Its script collects the keys in
  \<open>result\<close> and returns \<open>res\<close>, a name that is assigned nowhere, so every call raises the
  script error, whatever the threshold and the keys.
\<close>

lemma redis_total_uses_gte_raises:
  assumes "redis_server srv view glob"
  shows "fst (redis_containers_total_uses_gte srv threshold s) = Inl ScriptError"
  by (rule redis_server.total_uses_gte_fails [OF assms])

theorem redis_total_uses_gte_raises_witness:
  "fst (redis_containers_total_uses_gte mem_srv 3 mem_start) = Inl ScriptError"
  by (rule redis_total_uses_gte_raises [OF mem.redis_server_axioms])

text \<open>
  An allocation lives as long as it is renewed. A container that is allocated and then
  renewed after each of any number of pauses, each shorter than the session expiry, still counts
  the session; after the last renewal it is counted exactly while less than the expiry has
  passed.
\<close>

lemma redis_allocation_lifetime:
  assumes "redis_server srv view glob" and "redis_ok view s" and "plain_id c"
    and "\<forall>d \<in> set ds. d < session_expiry s"
  shows "wp (andthen (redis_allocate_container srv c x)
              (andthen (renew_after srv c x ds) (modify (redis_wait srv d))))
     (\<lambda>_ t. (x \<in> r_alloc (redis_abs view loads t) c) = (d < session_expiry s)) (\<lambda>_ _. False) s"
  by (rule redis_server.allocation_lifetime [OF assms])

theorem redis_allocation_lifetime_witness:
  "wp (andthen (redis_allocate_container mem_srv ''c1'' ''s1'')
        (andthen (renew_after mem_srv ''c1'' ''s1'' [300, 599]) (modify (redis_wait mem_srv 600))))
     (\<lambda>_ t. (''s1'' \<in> r_alloc (redis_abs mem_view Some t) ''c1'') = (600 < session_expiry mem_start))
     (\<lambda>_ _. False) mem_start"
  by (rule redis_allocation_lifetime [OF mem.redis_server_axioms mem_start_ok])
     (simp_all add: plain_id_def plain_def mem_start_def redis_init_def uuid4_def)

end
