(* ===== verification/Encoding.thy ===== *)
theory Encoding
  imports Prelude
begin

text \<open>
  Values on the wire that several components read and write: JSON documents and base64. Byte
  strings are character lists, one character per byte.
\<close>

section \<open>JSON\<close>

datatype json =
    JNull
  | JBool bool
  | JInt int
  | JStr string
  | JList "json list"
  | JObj "(string \<times> json) list"

text \<open>Python truth of a decoded document.\<close>

fun json_truth :: "json \<Rightarrow> bool" where
  "json_truth JNull = False"
| "json_truth (JBool b) = b"
| "json_truth (JInt i) = (i \<noteq> 0)"
| "json_truth (JStr s) = (s \<noteq> [])"
| "json_truth (JList js) = (js \<noteq> [])"
| "json_truth (JObj d) = (d \<noteq> [])"

text \<open>\<open>d[k]\<close>: a missing key raises KeyError, anything but an object TypeError.\<close>

fun json_item :: "json \<Rightarrow> string \<Rightarrow> json res" where
  "json_item (JObj d) k = (case dict_get d k of None \<Rightarrow> Inl KeyError | Some v \<Rightarrow> Inr v)"
| "json_item _ k = Inl TypeError"

section \<open>Base64\<close>

definition b64_char :: "nat \<Rightarrow> char" where
  "b64_char n =
     (if n < 26 then char_of (65 + n)
      else if n < 52 then char_of (97 + (n - 26))
      else if n < 62 then char_of (48 + (n - 52))
      else if n = 62 then CHR ''+'' else CHR ''/'')"

definition b64_val :: "char \<Rightarrow> nat option" where
  "b64_val c =
     (let n = (of_char c :: nat)
      in if 65 \<le> n \<and> n \<le> 90 then Some (n - 65)
         else if 97 \<le> n \<and> n \<le> 122 then Some (n - 97 + 26)
         else if 48 \<le> n \<and> n \<le> 57 then Some (n - 48 + 52)
         else if c = CHR ''+'' then Some 62
         else if c = CHR ''/'' then Some 63
         else None)"

abbreviation byte_of :: "char \<Rightarrow> nat" where "byte_of c \<equiv> of_char c"

fun b64encode :: "string \<Rightarrow> string" where
  "b64encode [] = []"
| "b64encode [a] =
     [b64_char (byte_of a div 4), b64_char (byte_of a mod 4 * 16), CHR ''='', CHR ''='']"
| "b64encode [a, b] =
     [b64_char (byte_of a div 4), b64_char (byte_of a mod 4 * 16 + byte_of b div 16),
      b64_char (byte_of b mod 16 * 4), CHR ''='']"
| "b64encode (a # b # c # rest) =
     b64_char (byte_of a div 4) # b64_char (byte_of a mod 4 * 16 + byte_of b div 16) #
     b64_char (byte_of b mod 16 * 4 + byte_of c div 64) # b64_char (byte_of c mod 64) #
     b64encode rest"

fun b64decode :: "string \<Rightarrow> string option" where
  "b64decode [] = Some []"
| "b64decode (w # x # y # z # rest) =
     (case (b64_val w, b64_val x) of
        (Some i, Some j) \<Rightarrow>
          if y = CHR ''='' then
            (if z = CHR ''='' \<and> rest = [] then Some [char_of (i * 4 + j div 16)] else None)
          else
            (case b64_val y of
               None \<Rightarrow> None
             | Some k \<Rightarrow>
                 if z = CHR ''='' then
                   (if rest = [] then Some [char_of (i * 4 + j div 16), char_of (j mod 16 * 16 + k div 4)]
                    else None)
                 else
                   (case (b64_val z, b64decode rest) of
                      (Some l, Some bs) \<Rightarrow>
                        Some (char_of (i * 4 + j div 16) # char_of (j mod 16 * 16 + k div 4) #
                              char_of (k mod 4 * 64 + l) # bs)
                    | _ \<Rightarrow> None))
      | _ \<Rightarrow> None)"
| "b64decode _ = None"

lemma byte_less [simp]: "byte_of c < 256"
  by (rule nat_of_char_less_256)

lemma b64_val_char [simp]: "n < 64 \<Longrightarrow> b64_val (b64_char n) = Some n"
  by (auto simp: b64_char_def b64_val_def Let_def)

lemma b64_char_not_pad [simp]: "n < 64 \<Longrightarrow> b64_char n \<noteq> CHR ''=''"
proof
  assume "n < 64" and "b64_char n = CHR ''=''"
  then have "b64_val (CHR ''='') = Some n" using b64_val_char [of n] by simp
  then show False by (simp add: b64_val_def Let_def)
qed

lemma byte_parts [simp]:
  "byte_of a div 4 < 64" "byte_of a mod 4 * 16 < 64" "byte_of a mod 4 * 16 + byte_of b div 16 < 64"
  "byte_of b mod 16 * 4 < 64" "byte_of b mod 16 * 4 + byte_of c div 64 < 64" "byte_of c mod 64 < 64"
  using byte_less [of a] byte_less [of b] byte_less [of c] by linarith+

lemma byte_join [simp]:
  "byte_of b div 16 div 16 = 0" "byte_of c div 64 div 4 = 0"
  "byte_of b div 16 mod 16 * 16 + byte_of b mod 16 = byte_of b"
  "byte_of c div 64 mod 4 * 64 + byte_of c mod 64 = byte_of c"
proof -
  have b: "byte_of b div 16 < 16" and c: "byte_of c div 64 < 4"
    using byte_less [of b] byte_less [of c] by linarith+
  then show "byte_of b div 16 div 16 = 0" "byte_of c div 64 div 4 = 0"
    "byte_of b div 16 mod 16 * 16 + byte_of b mod 16 = byte_of b"
    "byte_of c div 64 mod 4 * 64 + byte_of c mod 64 = byte_of c"
    by simp_all
qed

lemma b64_roundtrip [simp]: "b64decode (b64encode bs) = Some bs"
  by (induction bs rule: b64encode.induct) simp_all

end
