(* ===== verification/Worker_Utils.thy ===== *)
theory Worker_Utils
  imports Complex_Main Prelude
begin

text \<open>
  Durations (worker/src/agentrl/worker/utils.py). A decimal number is an exact rational here;
  the code computes with floating point numbers.
\<close>

definition duration_units :: "(string, nat) dict" where
  "duration_units =
     [(''ns'', 1), (''us'', 1000), ([CHR 0xB5, CHR ''s''], 1000), (''ms'', 1000000),
      (''s'', 1000000000), (''m'', 60 * 1000000000), (''h'', 3600 * 1000000000)]"

definition is_letter :: "char \<Rightarrow> bool" where
  "is_letter c \<longleftrightarrow> (65 \<le> (of_char c :: nat) \<and> (of_char c :: nat) \<le> 90) \<or>
     (97 \<le> (of_char c :: nat) \<and> (of_char c :: nat) \<le> 122) \<or> c = CHR 0xB5"

text \<open>The regular expression: digits, an optional fraction, letters, between spaces.\<close>

definition match_duration :: "string \<Rightarrow> (rat \<times> string) option" where
  "match_duration s =
     (let s = dropWhile is_space s;
          whole = takeWhile is_digit s;
          rest = dropWhile is_digit s;
          frac = (case rest of c # cs \<Rightarrow> if c = CHR ''.'' then takeWhile is_digit cs else [] | [] \<Rightarrow> []);
          rest = (if frac = [] then rest else drop (Suc (length frac)) rest);
          unit = takeWhile is_letter rest;
          tail = dropWhile is_letter rest
      in if whole = [] \<or> \<not> list_all is_space tail then None
         else case parse_nat (whole @ frac) of
                None \<Rightarrow> None
              | Some n \<Rightarrow> Some (of_nat n / 10 ^ length frac, unit))"

definition duration_ns :: "string \<Rightarrow> string \<Rightarrow> rat res" where
  "duration_ns s default_unit =
     (if default_unit \<notin> set (dict_keys duration_units) then Inl ValueError
      else case match_duration s of
             None \<Rightarrow> Inl ValueError
           | Some (value, unit) \<Rightarrow>
               (case dict_get duration_units (if unit = [] then default_unit else unit) of
                  None \<Rightarrow> Inl ValueError
                | Some m \<Rightarrow> Inr (value * of_nat m)))"

text \<open>\<open>parse_duration\<close> and \<open>parse_duration(..., return_seconds=True)\<close>.\<close>

definition parse_duration :: "string \<Rightarrow> string \<Rightarrow> int res" where
  "parse_duration s default_unit =
     (case duration_ns s default_unit of Inl e \<Rightarrow> Inl e | Inr ns \<Rightarrow> Inr \<lfloor>ns\<rfloor>)"

definition parse_duration_seconds :: "string \<Rightarrow> string \<Rightarrow> rat res" where
  "parse_duration_seconds s default_unit =
     (case duration_ns s default_unit of Inl e \<Rightarrow> Inl e | Inr ns \<Rightarrow> Inr (ns / 1000000000))"

section \<open>Durations with a unit\<close>

lemma takeWhile_digits [simp]:
  "\<not> is_digit (hd (u @ ''x'')) \<Longrightarrow> takeWhile is_digit (nat_str n @ u) = nat_str n"
  "\<not> is_digit (hd (u @ ''x'')) \<Longrightarrow> dropWhile is_digit (nat_str n @ u) = u"
  using nat_str_digits [of n]
  by (cases u; simp add: takeWhile_append dropWhile_append list_all_iff)+

lemma nat_str_no_space: "dropWhile is_space (nat_str n @ u) = nat_str n @ u"
proof -
  obtain c cs where c: "nat_str n = c # cs" using nat_str_not_Nil by (cases "nat_str n") auto
  have "is_digit c" using nat_str_digits [of n] by (simp add: c)
  then have "\<not> is_space c" by (auto simp: is_digit_def is_space_def)
  then show ?thesis by (simp add: c)
qed

lemma duration_units_ok:
  "list_all (\<lambda>(u, m). takeWhile is_letter u = u \<and> dropWhile is_letter u = [] \<and>
     \<not> is_digit (hd (u @ ''x'')) \<and> u \<noteq> [] \<and> hd u \<noteq> CHR ''.'' \<and>
     dict_get duration_units u = Some m) duration_units"
  by (simp add: duration_units_def is_letter_def is_digit_def)

lemma match_unit:
  assumes "(u, m) \<in> set duration_units"
  shows "duration_ns (nat_str n @ u) d =
        (if d \<in> fst ` set duration_units then Inr (of_nat (n * m)) else Inl ValueError)"
    and "duration_ns (nat_str n) u = Inr (of_nat (n * m))"
proof -
  have unit: "takeWhile is_letter u = u \<and> dropWhile is_letter u = [] \<and> \<not> is_digit (hd (u @ ''x'')) \<and>
      u \<noteq> [] \<and> hd u \<noteq> CHR ''.'' \<and> dict_get duration_units u = Some m"
    using assms duration_units_ok by (auto simp: list_all_iff)
  then have "match_duration (nat_str n @ u) = Some (of_nat n, u)"
    by (cases u) (simp_all add: match_duration_def nat_str_no_space Let_def)
  moreover have whole: "takeWhile is_digit (nat_str n) = nat_str n" "dropWhile is_digit (nat_str n) = []"
    using takeWhile_digits [of "[]" n] by (simp_all add: is_digit_def)
  moreover have "match_duration (nat_str n) = Some (of_nat n, [])"
    using nat_str_no_space [of n "[]"] by (simp add: match_duration_def Let_def whole)
  ultimately show "duration_ns (nat_str n @ u) d =
        (if d \<in> fst ` set duration_units then Inr (of_nat (n * m)) else Inl ValueError)"
      and "duration_ns (nat_str n) u = Inr (of_nat (n * m))"
    using unit imageI [OF assms, of fst] by (simp_all add: duration_ns_def)
qed

lemma seconds_of_duration: "parse_duration_seconds (nat_str n @ ''s'') ''s'' = Inr (of_nat n)"
proof -
  have "(''s'', 1000000000) \<in> set duration_units" by (simp add: duration_units_def)
  from match_unit(1) [OF this, of n "''s''"] show ?thesis
    by (simp add: parse_duration_seconds_def duration_units_def)
qed

text \<open>
  A whole number followed by one of the known units is read as that many of the units,
  whatever the default unit is; without a unit the default counts.
\<close>

lemma parse_duration_units:
  assumes "(u, m) \<in> set duration_units"
  shows "parse_duration (nat_str n @ u) d =
           (if d \<in> fst ` set duration_units then Inr (int (n * m)) else Inl ValueError) \<and>
         parse_duration (nat_str n) u = Inr (int (n * m))"
  using match_unit [OF assms] by (simp add: parse_duration_def del: of_nat_mult)

lemma parse_duration_units_witness: "parse_duration ''15m'' ''s'' = Inr 900000000000"
proof -
  have "nat_str 15 = ''15''" by code_simp
  then show ?thesis
    using parse_duration_units [of "''m''" "60 * 1000000000" 15 "''s''"]
    by (simp add: duration_units_def)
qed

end
