(* ===== verification/State_Consul.thy ===== *)
theory State_Consul
  imports State_Provider Encoding Worker_Utils
begin

text \<open>
  The Consul provider (worker/src/agentrl/worker/environment/state/consul.py): the HTTP client
  with its one reconnection, the key-value and session calls, and the operations on them. The
  Consul agent is the parameter \<open>srv\<close>: one call that answers a request, one that closes the
  client, and the clock.
\<close>

section \<open>Requests\<close>

datatype http_method = GET | PUT | DELETE

record response =
  status_code :: int
  body :: json

record 'c consul_api =
  c_request :: "http_method \<Rightarrow> string \<Rightarrow> (string, string) dict \<Rightarrow> json \<Rightarrow> ('c, response) proc"
  c_aclose :: "('c, unit) proc"
  c_now :: "'c \<Rightarrow> rat"
  c_sleep :: "('c, unit) proc"

text \<open>The client is present or not; the settings it is created with do not change.\<close>

record 'c consul_state =
  cserver :: 'c
  cclient :: bool
  client_session :: "string option"
  expires_at :: "rat option"
  base_url :: string
  ctoken :: "string option"
  datacenter :: "string option"
  namespace :: "string option"
  cprefix :: string
  csession_expiry :: nat

fun rstrip_char :: "char \<Rightarrow> string \<Rightarrow> string" where
  "rstrip_char c s = rev (dropWhile (\<lambda>x. x = c) (rev s))"

definition consul_init ::
    "'c \<Rightarrow> string \<Rightarrow> string option \<Rightarrow> string option \<Rightarrow> string option \<Rightarrow> string \<Rightarrow> 'c consul_state" where
  "consul_init srv0 connection token dc ns pfx =
     \<lparr>cserver = srv0, cclient = False, client_session = None, expires_at = None,
      base_url = rstrip_char (CHR ''/'') connection, ctoken = token, datacenter = dc,
      namespace = ns, cprefix = (if pfx \<noteq> [] then pfx @ ''/'' else ''''), csession_expiry = 600\<rparr>"

definition on_consul :: "('c, 'a) proc \<Rightarrow> ('c consul_state, 'a) proc" where
  "on_consul = zoom cserver (\<lambda>t s. s\<lparr>cserver := t\<rparr>)"

definition consul_get_client :: "('c consul_state, unit) proc" where
  "consul_get_client = modify (\<lambda>s. s\<lparr>cclient := True\<rparr>)"

definition consul_reset_client :: "'c consul_api \<Rightarrow> ('c consul_state, unit) proc" where
  "consul_reset_client srv =
     bnd (gets cclient) (\<lambda>open_client.
       if open_client then andthen (on_consul (c_aclose srv)) (modify (\<lambda>s. s\<lparr>cclient := False\<rparr>))
       else ret ())"

text \<open>One reconnection after a transport error or a timeout.\<close>

definition consul_request ::
    "'c consul_api \<Rightarrow> http_method \<Rightarrow> string \<Rightarrow> (string, string) dict \<Rightarrow> json \<Rightarrow>
     ('c consul_state, response) proc" where
  "consul_request srv method url params content =
     andthen consul_get_client
       (catch (on_consul (c_request srv method url params content)) (\<lambda>e.
          if e = TransportError \<or> e = TimeoutError then
            andthen (consul_reset_client srv)
              (andthen consul_get_client (on_consul (c_request srv method url params content)))
          else raise e))"

definition raise_for_status :: "response \<Rightarrow> ('w, unit) proc" where
  "raise_for_status r =
     (if 200 \<le> status_code r \<and> status_code r < 300 then ret () else raise (ApiError (status_code r)))"

section \<open>Key-value and session calls\<close>

text \<open>
  \<open>_kv_get\<close> returns None, the object of a list with one object, or the list itself.
\<close>

datatype kv_result = KvNone | KvOne json | KvMany "json list"

definition unwrap_kv :: "json \<Rightarrow> kv_result" where
  "unwrap_kv data =
     (case data of
        JList (d # ds) \<Rightarrow>
          (case (d, ds) of (JObj o1, []) \<Rightarrow> KvOne (JObj o1) | _ \<Rightarrow> KvMany (d # ds))
      | _ \<Rightarrow> KvNone)"

definition kv_url :: "string \<Rightarrow> string" where
  "kv_url key = ''/v1/kv/'' @ key"

definition kv_get ::
    "'c consul_api \<Rightarrow> string \<Rightarrow> (string, string) dict \<Rightarrow> ('c consul_state, kv_result) proc" where
  "kv_get srv key params =
     bnd (consul_request srv GET (kv_url key) params JNull) (\<lambda>r.
       if status_code r = 404 then ret KvNone
       else andthen (raise_for_status r) (ret (unwrap_kv (body r))))"

definition kv_put ::
    "'c consul_api \<Rightarrow> string \<Rightarrow> string \<Rightarrow> (string, string) dict \<Rightarrow> ('c consul_state, bool) proc" where
  "kv_put srv key content params =
     bnd (consul_request srv PUT (kv_url key) params (JStr content)) (\<lambda>r.
       andthen (raise_for_status r) (ret (body r = JBool True)))"

definition kv_delete ::
    "'c consul_api \<Rightarrow> string \<Rightarrow> (string, string) dict \<Rightarrow> ('c consul_state, unit) proc" where
  "kv_delete srv key params =
     bnd (consul_request srv DELETE (kv_url key) params JNull) raise_for_status"

definition json_string :: "json \<Rightarrow> string res" where
  "json_string j = (case j of JStr s \<Rightarrow> Inr s | _ \<Rightarrow> Inl TypeError)"

definition session_create ::
    "'c consul_api \<Rightarrow> json \<Rightarrow> ('c consul_state, string) proc" where
  "session_create srv payload =
     bnd (consul_request srv PUT ''/v1/session/create'' [] payload) (\<lambda>r.
       andthen (raise_for_status r)
         (lift_res (case json_item (body r) ''ID'' of Inl e \<Rightarrow> Inl e | Inr j \<Rightarrow> json_string j)))"

definition session_renew ::
    "'c consul_api \<Rightarrow> string \<Rightarrow> ('c consul_state, rat option) proc" where
  "session_renew srv x =
     bnd (consul_request srv PUT (''/v1/session/renew/'' @ x) [] JNull) (\<lambda>r.
       if status_code r = 404 then ret None
       else andthen (raise_for_status r)
              (case body r of
                 JList (d # ds) \<Rightarrow>
                   (case json_item d ''TTL'' of
                      Inl e \<Rightarrow> raise e
                    | Inr (JStr ttl) \<Rightarrow>
                        lift_res (map_sum id Some (parse_duration_seconds ttl ''s''))
                    | Inr (JInt n) \<Rightarrow>
                        lift_res (map_sum id Some (parse_duration_seconds (int_str n) ''s''))
                    | Inr _ \<Rightarrow> raise ValueError)
               | _ \<Rightarrow> ret None))"

definition session_destroy :: "'c consul_api \<Rightarrow> string \<Rightarrow> ('c consul_state, unit) proc" where
  "session_destroy srv x =
     bnd (consul_request srv PUT (''/v1/session/destroy/'' @ x) [] JNull) raise_for_status"

text \<open>
  The session of this client, created, kept or renewed so that it lives for the timeout. A session
  that has gone is created anew.
\<close>

definition new_client_session :: "'c consul_api \<Rightarrow> nat \<Rightarrow> ('c consul_state, string option) proc" where
  "new_client_session srv timeout =
     bnd (gets cprefix) (\<lambda>p.
     bnd (session_create srv (JObj
            [(''LockDelay'', JStr ''2s''), (''Name'', JStr (p @ ''client'')),
             (''Behavior'', JStr ''delete''), (''TTL'', JStr (nat_str (max 10 timeout) @ ''s''))])) (\<lambda>x.
     andthen (modify (\<lambda>s. s\<lparr>client_session := Some x\<rparr>))
    (andthen (modify (\<lambda>s. s\<lparr>expires_at := Some (c_now srv (cserver s) + of_nat (max 10 timeout))\<rparr>))
       (gets client_session))))"

definition get_client_session :: "'c consul_api \<Rightarrow> nat \<Rightarrow> ('c consul_state, string option) proc" where
  "get_client_session srv timeout =
     bnd (gets (\<lambda>s. (client_session s,
            case (client_session s, expires_at s) of
              (Some _, Some t) \<Rightarrow> t - c_now srv (cserver s)
            | _ \<Rightarrow> 0))) (\<lambda>(session, remaining).
       if remaining \<le> 0 then new_client_session srv timeout
       else if remaining < of_nat timeout - 2 then
         (case session of
            None \<Rightarrow> raise TypeError
          | Some x \<Rightarrow>
              bnd (session_renew srv x) (\<lambda>expiry.
                case expiry of
                  None \<Rightarrow>
                    andthen (modify (\<lambda>s. s\<lparr>client_session := None, expires_at := None\<rparr>))
                      (new_client_session srv timeout)
                | Some d \<Rightarrow>
                    andthen (modify (\<lambda>s. s\<lparr>expires_at := Some (c_now srv (cserver s) + d)\<rparr>))
                      (gets client_session)))
       else ret session)"

section \<open>Keys\<close>

definition consul_lock_key :: "string \<Rightarrow> string \<Rightarrow> string" where
  "consul_lock_key p name = p @ ''lock/'' @ name"

definition consul_container_key_prefix :: "string \<Rightarrow> string \<Rightarrow> string" where
  "consul_container_key_prefix p c = p @ ''container/'' @ c @ ''/''"

definition consul_allocation_key_prefix :: "string \<Rightarrow> string \<Rightarrow> string" where
  "consul_allocation_key_prefix p c = consul_container_key_prefix p c @ ''allocation/''"

definition consul_allocation_key :: "string \<Rightarrow> string \<Rightarrow> string \<Rightarrow> string" where
  "consul_allocation_key p c x = consul_allocation_key_prefix p c @ x"

definition consul_uses_key :: "string \<Rightarrow> string \<Rightarrow> string" where
  "consul_uses_key p c = p @ ''container-uses/'' @ c"

definition consul_session_key :: "string \<Rightarrow> string \<Rightarrow> string" where
  "consul_session_key p x = p @ ''session/'' @ x"

section \<open>Operations\<close>

definition consul_acquire_lock ::
    "'c consul_api \<Rightarrow> string \<Rightarrow> string option \<Rightarrow> nat \<Rightarrow> ('c consul_state, bool) proc" where
  "consul_acquire_lock srv name client timeout s =
     bnd (case client of None \<Rightarrow> get_client_session srv timeout | Some x \<Rightarrow> ret (Some x)) (\<lambda>session.
       kv_put srv (consul_lock_key (cprefix s) name) ''1''
         (case session of None \<Rightarrow> [] | Some x \<Rightarrow> [(''acquire'', x)])) s"

definition consul_release_lock ::
    "'c consul_api \<Rightarrow> string \<Rightarrow> string option \<Rightarrow> ('c consul_state, unit) proc" where
  "consul_release_lock srv name client s =
     (case (case client of None \<Rightarrow> client_session s | Some x \<Rightarrow> Some x) of
        None \<Rightarrow> (Inr (), s)
      | Some x \<Rightarrow>
          bnd (kv_put srv (consul_lock_key (cprefix s) name) ''0'' [(''release'', x)]) (\<lambda>_. ret ()) s)"

text \<open>\<open>int(base64.b64decode(meta['Value'] or b'0').decode())\<close>.\<close>

definition decode_uses :: "json \<Rightarrow> int res" where
  "decode_uses meta =
     (case json_item meta ''Value'' of
        Inl e \<Rightarrow> Inl e
      | Inr v \<Rightarrow>
          (case (if json_truth v then json_string v else Inr ''0'') of
             Inl e \<Rightarrow> Inl e
           | Inr t \<Rightarrow>
               (case Option.bind (b64decode t) parse_int of None \<Rightarrow> Inl ValueError | Some n \<Rightarrow> Inr n)))"

text \<open>The object that a lookup returned; a list of several has no string keys.\<close>

definition kv_meta :: "kv_result \<Rightarrow> json option" where
  "kv_meta r = (case r of
     KvNone \<Rightarrow> None
   | KvOne d \<Rightarrow> (if json_truth d then Some d else None)
   | KvMany ds \<Rightarrow> Some (JList ds))"

text \<open>The compare-and-swap loop; when the attempts are used up it only logs.\<close>

fun increment_loop :: "'c consul_api \<Rightarrow> nat \<Rightarrow> string \<Rightarrow> ('c consul_state, unit) proc" where
  "increment_loop srv 0 key = ret ()"
| "increment_loop srv (Suc n) key =
     bnd (kv_get srv key []) (\<lambda>r.
       case kv_meta r of
         None \<Rightarrow>
           bnd (kv_put srv key ''1'' [(''cas'', ''0'')]) (\<lambda>done.
             if done then ret ()
             else andthen (on_consul (c_sleep srv)) (increment_loop srv n key))
       | Some meta \<Rightarrow>
           bnd (lift_res (decode_uses meta)) (\<lambda>current.
           bnd (lift_res (json_item meta ''ModifyIndex'')) (\<lambda>index.
           bnd (kv_put srv key (int_str (current + 1))
                  [(''cas'', case index of JInt i \<Rightarrow> int_str i | JStr t \<Rightarrow> t | _ \<Rightarrow> [])]) (\<lambda>done.
             if done then ret ()
             else andthen (on_consul (c_sleep srv)) (increment_loop srv n key)))))"

definition consul_allocate_container ::
    "'c consul_api \<Rightarrow> string \<Rightarrow> string \<Rightarrow> ('c consul_state, unit) proc" where
  "consul_allocate_container srv c x s =
     bnd (kv_put srv (consul_allocation_key (cprefix s) c x) ''1'' [(''acquire'', x)]) (\<lambda>ok.
       if \<not> ok then raise RuntimeError
       else increment_loop srv 16 (consul_uses_key (cprefix s) c)) s"

definition consul_renew_container :: "string \<Rightarrow> string \<Rightarrow> ('c consul_state, unit) proc" where
  "consul_renew_container c x = ret ()"

text \<open>\<open>len(keys or [])\<close>.\<close>

definition kv_length :: "kv_result \<Rightarrow> nat" where
  "kv_length r = (case r of
     KvNone \<Rightarrow> 0 | KvOne (JObj d) \<Rightarrow> length d | KvOne _ \<Rightarrow> 0 | KvMany ds \<Rightarrow> length ds)"

definition consul_container_current_uses :: "'c consul_api \<Rightarrow> string \<Rightarrow> ('c consul_state, nat) proc" where
  "consul_container_current_uses srv c s =
     bnd (kv_get srv (consul_allocation_key_prefix (cprefix s) c) [(''keys'', ''true'')])
       (\<lambda>r. ret (kv_length r)) s"

definition consul_container_is_allocated :: "'c consul_api \<Rightarrow> string \<Rightarrow> ('c consul_state, bool) proc" where
  "consul_container_is_allocated srv c =
     bnd (consul_container_current_uses srv c) (\<lambda>n. ret (0 < n))"

definition consul_container_total_uses :: "'c consul_api \<Rightarrow> string \<Rightarrow> ('c consul_state, nat) proc" where
  "consul_container_total_uses srv c s =
     bnd (kv_get srv (consul_uses_key (cprefix s) c) []) (\<lambda>r.
       case kv_meta r of
         None \<Rightarrow> ret 0
       | Some meta \<Rightarrow> lift_res (map_sum id nat (decode_uses meta))) s"

text \<open>The loop over \<open>metas\<close>; iterating over an object yields its keys, which are strings.\<close>

fun gte_loop :: "int \<Rightarrow> json list \<Rightarrow> string list res" where
  "gte_loop threshold [] = Inr []"
| "gte_loop threshold (meta # metas) =
     (case json_item meta ''Key'' of
        Inl e \<Rightarrow> Inl e
      | Inr k \<Rightarrow>
          (case json_string k of
             Inl e \<Rightarrow> Inl e
           | Inr key \<Rightarrow>
               (case decode_uses meta of
                  Inl e \<Rightarrow> Inl e
                | Inr value \<Rightarrow>
                    (case gte_loop threshold metas of
                       Inl e \<Rightarrow> Inl e
                     | Inr rest \<Rightarrow>
                         Inr (if threshold \<le> value then last (split_on (CHR ''/'') key) # rest
                              else rest)))))"

definition iterated :: "kv_result \<Rightarrow> json list" where
  "iterated r = (case r of
     KvNone \<Rightarrow> [] | KvOne (JObj d) \<Rightarrow> map (JStr \<circ> fst) d | KvOne _ \<Rightarrow> [] | KvMany ds \<Rightarrow> ds)"

definition consul_containers_total_uses_gte ::
    "'c consul_api \<Rightarrow> nat \<Rightarrow> ('c consul_state, string list) proc" where
  "consul_containers_total_uses_gte srv threshold s =
     bnd (kv_get srv (cprefix s @ ''container-uses/'') [(''recurse'', ''true'')]) (\<lambda>metas.
       lift_res (gte_loop (int threshold) (iterated metas))) s"

definition consul_release_container ::
    "'c consul_api \<Rightarrow> string \<Rightarrow> string \<Rightarrow> ('c consul_state, unit) proc" where
  "consul_release_container srv c x s =
     (let key = consul_allocation_key (cprefix s) c x
      in bnd (kv_put srv key ''0'' [(''release'', x)]) (\<lambda>released.
           if released then kv_delete srv key [] else ret ())) s"

definition consul_remove_container :: "'c consul_api \<Rightarrow> string \<Rightarrow> ('c consul_state, unit) proc" where
  "consul_remove_container srv c s =
     andthen (kv_delete srv (consul_container_key_prefix (cprefix s) c) [(''recurse'', ''true'')])
       (kv_delete srv (consul_uses_key (cprefix s) c) []) s"

definition consul_generate_session_id :: "'c consul_api \<Rightarrow> ('c consul_state, string) proc" where
  "consul_generate_session_id srv s =
     session_create srv (JObj
       [(''LockDelay'', JStr ''0s''), (''Name'', JStr (cprefix s @ ''session'')),
        (''Behavior'', JStr ''delete''), (''TTL'', JStr (nat_str (csession_expiry s) @ ''s''))]) s"

text \<open>\<open>dumps\<close> and \<open>loads\<close> are \<open>json.dumps\<close> and \<open>json.loads\<close>; \<open>loads\<close> is None where it raises.\<close>

definition consul_store_session ::
    "'c consul_api \<Rightarrow> ('j \<Rightarrow> string) \<Rightarrow> string \<Rightarrow> 'j \<Rightarrow> ('c consul_state, unit) proc" where
  "consul_store_session srv dumps x d s =
     bnd (kv_put srv (consul_session_key (cprefix s) x) (dumps d) [(''acquire'', x)]) (\<lambda>_. ret ()) s"

definition consul_get_session ::
    "'c consul_api \<Rightarrow> (string \<Rightarrow> 'j option) \<Rightarrow> string \<Rightarrow> ('c consul_state, 'j option) proc" where
  "consul_get_session srv loads x s =
     bnd (kv_get srv (consul_session_key (cprefix s) x) []) (\<lambda>r.
       case kv_meta r of
         None \<Rightarrow> ret None
       | Some meta \<Rightarrow>
           lift_res (case json_item meta ''Value'' of
             Inl e \<Rightarrow> Inl e
           | Inr v \<Rightarrow> (case json_string v of
                        Inl e \<Rightarrow> Inl e | Inr t \<Rightarrow> Inr (Option.bind (b64decode t) loads)))) s"

definition consul_renew_session :: "'c consul_api \<Rightarrow> string \<Rightarrow> ('c consul_state, unit) proc" where
  "consul_renew_session srv x = bnd (session_renew srv x) (\<lambda>_. ret ())"

definition consul_delete_session :: "'c consul_api \<Rightarrow> string \<Rightarrow> ('c consul_state, unit) proc" where
  "consul_delete_session srv x = session_destroy srv x"

definition consul_close :: "'c consul_api \<Rightarrow> ('c consul_state, unit) proc" where
  "consul_close srv = consul_reset_client srv"

section \<open>Use counters\<close>

text \<open>A use counter as the key-value store reports it.\<close>

definition uses_entry :: "string \<Rightarrow> string \<times> nat \<Rightarrow> json" where
  "uses_entry p e =
     JObj [(''Key'', JStr (consul_uses_key p (fst e))), (''Value'', JStr (b64encode (nat_str (snd e)))),
           (''ModifyIndex'', JInt 1)]"

lemma b64encode_empty [simp]: "b64encode bs = [] \<longleftrightarrow> bs = []"
  by (cases bs rule: b64encode.cases) simp_all

lemma decode_uses_entry [simp]: "decode_uses (uses_entry p e) = Inr (int (snd e))"
  by (simp add: decode_uses_def uses_entry_def json_string_def)

lemma gte_loop_entries:
  assumes "\<forall>e \<in> set es. CHR ''/'' \<notin> set (fst e)"
  shows "gte_loop (int m) (map (uses_entry p) es) = Inr (map fst (filter (\<lambda>e. m \<le> snd e) es))"
  using assms
proof (induction es)
  case (Cons e es)
  have "last (split_on (CHR ''/'') (consul_uses_key p (fst e))) = fst e"
    using last_split_on [of "CHR ''/''" "fst e" "p @ ''container-uses''"] Cons.prems
    by (simp add: consul_uses_key_def)
  moreover have "json_item (uses_entry p e) ''Key'' = Inr (JStr (consul_uses_key p (fst e)))"
    by (simp add: uses_entry_def)
  ultimately show ?case using Cons by (simp add: json_string_def)
qed simp

lemma kv_get_answer:
  assumes "c_request srv GET (kv_url key) params JNull (cserver s) = (Inr \<lparr>status_code = 200, body = b\<rparr>, t)"
  shows "kv_get srv key params s = (Inr (unwrap_kv b), s\<lparr>cclient := True, cserver := t\<rparr>)"
  using assms
  by (simp add: kv_get_def consul_request_def bnd_def andthen_def consul_get_client_def modify_def
      catch_def on_consul_def zoom_def raise_for_status_def ret_def)

text \<open>
  What \<open>containers_total_uses_gte\<close> answers when the agent reports the use counters \<open>es\<close>. With
  two counters or more, or none, it returns the containers whose count reaches the threshold, in
  the agent's order. With exactly one counter it raises TypeError whatever the count is: the
  lookup unwraps a list of one object, and the loop then runs over the keys of that object.
\<close>

lemma consul_gte_of_counters:
  assumes "c_request srv GET (kv_url (cprefix s @ ''container-uses/'')) [(''recurse'', ''true'')] JNull
             (cserver s) = (Inr \<lparr>status_code = 200, body = JList (map (uses_entry (cprefix s)) es)\<rparr>, t)"
    and "\<forall>e \<in> set es. CHR ''/'' \<notin> set (fst e)"
  shows "fst (consul_containers_total_uses_gte srv m s) =
           (if length es = 1 then Inl TypeError else Inr (map fst (filter (\<lambda>e. m \<le> snd e) es)))"
proof -
  let ?js = "map (uses_entry (cprefix s)) es"
  have "fst (consul_containers_total_uses_gte srv m s) = gte_loop (int m) (iterated (unwrap_kv (JList ?js)))"
    using kv_get_answer [OF assms(1)] by (simp add: consul_containers_total_uses_gte_def bnd_def lift_res_def ret_def raise_def split: sum.split)
  also have "\<dots> = (if length es = 1 then Inl TypeError else gte_loop (int m) ?js)"
  proof (cases es)
    case Nil
    then show ?thesis by (simp add: unwrap_kv_def iterated_def)
  next
    case (Cons e es')
    then show ?thesis
      by (cases es') (simp_all add: unwrap_kv_def iterated_def uses_entry_def)
  qed
  finally show ?thesis using gte_loop_entries [OF assms(2)] by simp
qed

text \<open>An agent that answers every request with one list of counters.\<close>

definition fixed_consul :: "json \<Rightarrow> unit consul_api" where
  "fixed_consul b = \<lparr>c_request = (\<lambda>m u ps j. ret \<lparr>status_code = 200, body = b\<rparr>), c_aclose = ret (),
                     c_now = (\<lambda>_. 0), c_sleep = ret ()\<rparr>"

lemma consul_gte_of_counters_witness:
  "let s = consul_init () ''http://c/'' None None None ''p''; a = uses_entry ''p/'' (''a'', 3); b = uses_entry ''p/'' (''b'', 5)
   in fst (consul_containers_total_uses_gte (fixed_consul (JList [a])) 4 s) = Inl TypeError \<and>
      fst (consul_containers_total_uses_gte (fixed_consul (JList [a, b])) 4 s) = Inr [''b'']"
proof -
  let ?s = "consul_init () ''http://c/'' None None None ''p''"
  have "cprefix ?s = ''p/''" by (simp add: consul_init_def)
  then show ?thesis
    using consul_gte_of_counters [of "fixed_consul (JList [uses_entry ''p/'' (''a'', 3)])" ?s "[(''a'', 3)]" "()" 4]
      consul_gte_of_counters [of "fixed_consul (JList [uses_entry ''p/'' (''a'', 3), uses_entry ''p/'' (''b'', 5)])"
        ?s "[(''a'', 3), (''b'', 5)]" "()" 4]
    by (simp add: Let_def fixed_consul_def ret_def)
qed

section \<open>The client's lock session\<close>

lemma consul_request_answer:
  assumes "c_request srv m url params j (cserver s) = (Inr r, t)"
  shows "consul_request srv m url params j s = (Inr r, s\<lparr>cclient := True, cserver := t\<rparr>)"
  using assms
  by (simp add: consul_request_def andthen_def bnd_def consul_get_client_def modify_def
      catch_def on_consul_def zoom_def)

text \<open>
  A renewed lock session lives as long as it was first created for, not as long as the lock
  that is asked for. When the session of this client is still alive but too short for the
  timeout, it is renewed, and the time it then has is the TTL the agent reports, which is that
  of its creation; the requested timeout does not enter. So a lock taken for 120 seconds after
  one taken for 10 seconds is held on a session of 10 seconds.
\<close>

lemma consul_renewal_ignores_timeout:
  assumes "client_session s = Some x" and "expires_at s = Some e"
    and "0 < e - c_now srv (cserver s)" and "e - c_now srv (cserver s) < of_nat timeout - 2"
    and "c_request srv PUT (''/v1/session/renew/'' @ x) [] JNull (cserver s) =
           (Inr \<lparr>status_code = 200, body = JList [JObj [(''TTL'', JStr (nat_str ttl @ ''s''))]]\<rparr>, t)"
  shows "\<exists>s'. get_client_session srv timeout s = (Inr (Some x), s') \<and>
              expires_at s' = Some (c_now srv t + of_nat ttl)"
proof -
  have ttl: "parse_duration_seconds (nat_str ttl @ ''s'') ''s'' = Inr (of_nat ttl)"
    by (rule seconds_of_duration)
  have "session_renew srv x s = (Inr (Some (of_nat ttl)), s\<lparr>cclient := True, cserver := t\<rparr>)"
    using consul_request_answer [OF assms(5)]
    by (simp add: session_renew_def bnd_def raise_for_status_def ttl andthen_def ret_def lift_res_def)
  then show ?thesis
    using assms(1-4)
    by (simp add: get_client_session_def bnd_def gets_def andthen_def modify_def)
qed

lemma consul_renewal_ignores_timeout_witness:
  "let s = (consul_init () ''http://c'' None None None [])\<lparr>client_session := Some ''x'', expires_at := Some 10\<rparr>
   in \<exists>s'. get_client_session (fixed_consul (JList [JObj [(''TTL'', JStr ''10s'')]])) 120 s = (Inr (Some ''x''), s') \<and>
           expires_at s' = Some 10"
proof -
  let ?s = "(consul_init () ''http://c'' None None None [])\<lparr>client_session := Some ''x'', expires_at := Some 10\<rparr>"
  let ?a = "fixed_consul (JList [JObj [(''TTL'', JStr ''10s'')]])"
  have ten: "nat_str 10 = ''10''" by code_simp
  have "\<exists>s'. get_client_session ?a 120 ?s = (Inr (Some ''x''), s') \<and> expires_at s' = Some (c_now ?a () + of_nat 10)"
    by (rule consul_renewal_ignores_timeout [where e = 10]) (simp_all add: fixed_consul_def ret_def ten)
  then show ?thesis by (simp add: Let_def fixed_consul_def)
qed

end
