(* ===== verification/State_Etcd.thy ===== *)
theory State_Etcd
  imports State_Provider Encoding
begin

text \<open>
  The etcd provider (worker/src/agentrl/worker/environment/state/etcd.py): the channel with its
  stubs and retries, leases and their keep-alive, the lock transaction, the compare-and-swap
  counter and the key ranges. The etcd server behind the gRPC stubs is the parameter \<open>srv\<close>. Keys
  and values are byte strings.
\<close>

section \<open>The server's calls\<close>

record etcd_kv =
  kv_key :: string
  kv_value :: string
  kv_mod :: nat

datatype etcd_compare = VersionEqual string nat | ModEqual string nat | ValueEqual string string

datatype etcd_request =
    RequestPut string string "int option"
  | RequestRange string string
  | RequestDelete string string

record txn_response =
  succeeded :: bool
  responses :: "etcd_kv list list"

text \<open>
  An empty range end means the single key. \<open>e_keepalive\<close> writes a request to the lease stream and
  reads the answer: None at the end of the stream, or the TTL.
\<close>

record 'e etcd_api =
  e_range :: "string \<Rightarrow> string \<Rightarrow> ('e, etcd_kv list) proc"
  e_put :: "string \<Rightarrow> string \<Rightarrow> int option \<Rightarrow> ('e, unit) proc"
  e_delete :: "string \<Rightarrow> string \<Rightarrow> ('e, unit) proc"
  e_txn :: "etcd_compare list \<Rightarrow> etcd_request list \<Rightarrow> etcd_request list \<Rightarrow> ('e, txn_response) proc"
  e_grant :: "nat \<Rightarrow> ('e, int) proc"
  e_revoke :: "int \<Rightarrow> ('e, unit) proc"
  e_keepalive :: "int \<Rightarrow> ('e, int option) proc"
  e_done_writing :: "('e, unit) proc"
  e_close :: "('e, unit) proc"
  e_sleep :: "('e, unit) proc"

section \<open>State and connection\<close>

record etcd_connection =
  conn_host :: string
  conn_port :: string
  conn_endpoint :: "string option"
  conn_user :: "string option"
  conn_password :: "string option"
  conn_session_expiry :: nat

definition default_connection :: etcd_connection where
  "default_connection =
     \<lparr>conn_host = ''127.0.0.1'', conn_port = ''2379'', conn_endpoint = None, conn_user = None,
      conn_password = None, conn_session_expiry = 600\<rparr>"

text \<open>The channel, the two stubs and the keep-alive stream are present or not.\<close>

record 'e etcd_state =
  eserver :: 'e
  etarget :: string
  emetadata :: "(string \<times> string) list"
  echannel :: bool
  kv_stub :: bool
  lease_stub :: bool
  keepalive_stream :: bool
  session_leases :: "(string, int) dict"
  lock_leases :: "(string, int) dict"
  lock_keys :: "(string \<times> string, string) dict"
  default_lock_client :: string
  eprefix :: string
  esession_expiry :: nat
  euuids :: uuid_src

definition build_metadata :: "etcd_connection \<Rightarrow> (string \<times> string) list" where
  "build_metadata k =
     (case (conn_user k, conn_password k) of
        (Some u, Some p) \<Rightarrow>
          (if u \<noteq> [] \<and> p \<noteq> []
           then [(''authorization'', ''Basic '' @ b64encode (u @ '':'' @ p))] else [])
      | _ \<Rightarrow> [])"

text \<open>The connection is None, an endpoint, or a dictionary of settings.\<close>

datatype connection_arg = NoConnection | Endpoint string | Settings etcd_connection

definition etcd_init :: "'e \<Rightarrow> uuid_src \<Rightarrow> connection_arg \<Rightarrow> string \<Rightarrow> 'e etcd_state" where
  "etcd_init srv0 u arg pfx =
     (let k = (case arg of NoConnection \<Rightarrow> default_connection
               | Endpoint e \<Rightarrow> default_connection\<lparr>conn_endpoint := Some e\<rparr>
               | Settings k \<Rightarrow> k)
      in case uuid4 u of (x, u') \<Rightarrow>
        \<lparr>eserver = srv0,
         etarget = (case conn_endpoint k of
                      Some e \<Rightarrow> if e \<noteq> [] then e else conn_host k @ '':'' @ conn_port k
                    | None \<Rightarrow> conn_host k @ '':'' @ conn_port k),
         emetadata = build_metadata k,
         echannel = False, kv_stub = False, lease_stub = False, keepalive_stream = False,
         session_leases = [], lock_leases = [], lock_keys = [],
         default_lock_client = ''lock-'' @ x,
         eprefix = (if pfx \<noteq> [] then pfx @ '':'' else ''''),
         esession_expiry = conn_session_expiry k, euuids = u'\<rparr>)"

definition on_etcd :: "('e, 'a) proc \<Rightarrow> ('e etcd_state, 'a) proc" where
  "on_etcd = zoom eserver (\<lambda>t s. s\<lparr>eserver := t\<rparr>)"

section \<open>Channel, stubs and retries\<close>

definition etcd_get_channel :: "('e etcd_state, unit) proc" where
  "etcd_get_channel = modify (\<lambda>s. s\<lparr>echannel := True\<rparr>)"

definition etcd_get_kv :: "('e etcd_state, unit) proc" where
  "etcd_get_kv =
     bnd (gets kv_stub) (\<lambda>present. if present then ret ()
       else andthen etcd_get_channel (modify (\<lambda>s. s\<lparr>kv_stub := True\<rparr>)))"

definition etcd_get_lease :: "('e etcd_state, unit) proc" where
  "etcd_get_lease =
     bnd (gets lease_stub) (\<lambda>present. if present then ret ()
       else andthen etcd_get_channel (modify (\<lambda>s. s\<lparr>lease_stub := True\<rparr>)))"

definition reset_keepalive_stream :: "'e etcd_api \<Rightarrow> ('e etcd_state, unit) proc" where
  "reset_keepalive_stream srv =
     bnd (gets keepalive_stream) (\<lambda>present. if present then
       andthen (catch (on_etcd (e_done_writing srv)) (\<lambda>_. ret ()))
         (modify (\<lambda>s. s\<lparr>keepalive_stream := False\<rparr>))
       else ret ())"

definition reset_channel :: "'e etcd_api \<Rightarrow> ('e etcd_state, unit) proc" where
  "reset_channel srv =
     andthen (reset_keepalive_stream srv)
    (andthen (bnd (gets echannel) (\<lambda>present. if present then on_etcd (e_close srv) else ret ()))
       (modify (\<lambda>s. s\<lparr>echannel := False, kv_stub := False, lease_stub := False\<rparr>)))"

definition etcd_close :: "'e etcd_api \<Rightarrow> ('e etcd_state, unit) proc" where
  "etcd_close srv = reset_channel srv"

text \<open>The gRPC status codes UNAVAILABLE, ABORTED, DEADLINE\_EXCEEDED and INTERNAL.\<close>

fun should_retry :: "py_error \<Rightarrow> bool" where
  "should_retry (ApiError n) = (n \<in> {14, 10, 4, 13})"
| "should_retry e = False"

fun kv_attempts :: "'e etcd_api \<Rightarrow> nat \<Rightarrow> ('e, 'a) proc \<Rightarrow> ('e etcd_state, 'a) proc" where
  "kv_attempts srv 0 fn = raise RuntimeError"
| "kv_attempts srv (Suc n) fn =
     andthen etcd_get_kv
       (catch (on_etcd fn) (\<lambda>e.
          if \<not> should_retry e \<or> n = 0 then raise e
          else andthen (reset_channel srv) (kv_attempts srv n fn)))"

definition kv_call :: "'e etcd_api \<Rightarrow> ('e, 'a) proc \<Rightarrow> ('e etcd_state, 'a) proc" where
  "kv_call srv fn = kv_attempts srv 2 fn"

fun lease_attempts :: "'e etcd_api \<Rightarrow> nat \<Rightarrow> ('e, 'a) proc \<Rightarrow> ('e etcd_state, 'a) proc" where
  "lease_attempts srv 0 fn = raise RuntimeError"
| "lease_attempts srv (Suc n) fn =
     andthen etcd_get_lease
       (catch (on_etcd fn) (\<lambda>e.
          if \<not> should_retry e \<or> n = 0 then raise e
          else andthen (reset_channel srv) (lease_attempts srv n fn)))"

definition lease_call :: "'e etcd_api \<Rightarrow> ('e, 'a) proc \<Rightarrow> ('e etcd_state, 'a) proc" where
  "lease_call srv fn = lease_attempts srv 2 fn"

section \<open>Leases\<close>

definition grant_lease :: "'e etcd_api \<Rightarrow> nat \<Rightarrow> ('e etcd_state, int) proc" where
  "grant_lease srv ttl = lease_call srv (e_grant srv ttl)"

definition get_keepalive_stream :: "('e etcd_state, unit) proc" where
  "get_keepalive_stream =
     bnd (gets keepalive_stream) (\<lambda>present. if present then ret ()
       else andthen etcd_get_lease (modify (\<lambda>s. s\<lparr>keepalive_stream := True\<rparr>)))"

text \<open>Three attempts; a lease that cannot be renewed is only logged.\<close>

fun keepalive_attempts :: "'e etcd_api \<Rightarrow> nat \<Rightarrow> int \<Rightarrow> ('e etcd_state, unit) proc" where
  "keepalive_attempts srv 0 lease = ret ()"
| "keepalive_attempts srv (Suc n) lease =
     andthen get_keepalive_stream
       (bnd (catch
               (bnd (on_etcd (e_keepalive srv lease)) (\<lambda>r.
                  if r = None \<or> r = Some 0 then raise RuntimeError else ret True))
               (\<lambda>_. andthen (reset_keepalive_stream srv) (andthen (on_etcd (e_sleep srv)) (ret False))))
          (\<lambda>renewed. if renewed then ret () else keepalive_attempts srv n lease))"

definition keepalive :: "'e etcd_api \<Rightarrow> int \<Rightarrow> ('e etcd_state, unit) proc" where
  "keepalive srv lease = keepalive_attempts srv 3 lease"

definition ensure_lock_lease :: "'e etcd_api \<Rightarrow> string \<Rightarrow> nat \<Rightarrow> ('e etcd_state, int) proc" where
  "ensure_lock_lease srv owner ttl =
     bnd (gets (\<lambda>s. (dict_get (session_leases s) owner, dict_get (lock_leases s) owner))) (\<lambda>(a, b).
       case a of
         Some lease \<Rightarrow> andthen (keepalive srv lease) (ret lease)
       | None \<Rightarrow>
           (case b of
              Some lease \<Rightarrow> andthen (keepalive srv lease) (ret lease)
            | None \<Rightarrow>
                bnd (grant_lease srv (max ttl 5)) (\<lambda>lease.
                  andthen (modify (\<lambda>s. s\<lparr>lock_leases := dict_set owner lease (lock_leases s)\<rparr>))
                    (ret lease))))"

section \<open>Keys and ranges\<close>

definition etcd_lock_key :: "string \<Rightarrow> string \<Rightarrow> string" where
  "etcd_lock_key p name = p @ ''lock:'' @ name"

definition etcd_container_key_prefix :: "string \<Rightarrow> string \<Rightarrow> string" where
  "etcd_container_key_prefix p c = p @ ''container:'' @ c"

definition etcd_allocation_prefix :: "string \<Rightarrow> string \<Rightarrow> string" where
  "etcd_allocation_prefix p c = etcd_container_key_prefix p c @ '':allocation:''"

definition etcd_allocation_key :: "string \<Rightarrow> string \<Rightarrow> string \<Rightarrow> string" where
  "etcd_allocation_key p c x = etcd_allocation_prefix p c @ x"

definition etcd_uses_prefix :: "string \<Rightarrow> string" where
  "etcd_uses_prefix p = p @ ''container-uses:''"

definition etcd_uses_key :: "string \<Rightarrow> string \<Rightarrow> string" where
  "etcd_uses_key p c = etcd_uses_prefix p @ c"

definition etcd_session_key :: "string \<Rightarrow> string \<Rightarrow> string" where
  "etcd_session_key p x = p @ ''session:'' @ x"

text \<open>
  \<open>_range_end\<close>: the loop from the last byte down to the first one that is not 0xFF; on the
  reversed prefix.
\<close>

fun bump_last :: "string \<Rightarrow> string option" where
  "bump_last [] = None"
| "bump_last (b # bs) = (if b \<noteq> CHR 0xFF then Some (char_of (byte_of b + 1) # bs) else bump_last bs)"

definition range_end :: "string \<Rightarrow> string" where
  "range_end pfx =
     (if pfx = [] then [CHR 0x00]
      else case bump_last (rev pfx) of Some bs \<Rightarrow> rev bs | None \<Rightarrow> [CHR 0x00])"

section \<open>Locks\<close>

definition etcd_owner :: "string option \<Rightarrow> 'e etcd_state \<Rightarrow> string" where
  "etcd_owner client s =
     (case client of None \<Rightarrow> default_lock_client s
      | Some c \<Rightarrow> if c \<noteq> [] then c else default_lock_client s)"

definition etcd_acquire_lock ::
    "'e etcd_api \<Rightarrow> string \<Rightarrow> string option \<Rightarrow> nat \<Rightarrow> ('e etcd_state, bool) proc" where
  "etcd_acquire_lock srv name client timeout s =
     (let owner = etcd_owner client s; key = etcd_lock_key (eprefix s) name;
          keep = modify (\<lambda>s. s\<lparr>lock_keys := dict_set (name, owner) key (lock_keys s)\<rparr>)
      in bnd (ensure_lock_lease srv owner timeout) (\<lambda>lease.
         bnd (kv_call srv (e_txn srv [VersionEqual key 0] [RequestPut key owner (Some lease)]
                [RequestRange key []])) (\<lambda>resp.
           if succeeded resp then andthen keep (ret True)
           else case responses resp of
                  (kv # _) # _ \<Rightarrow> if kv_value kv = owner then andthen keep (ret True) else ret False
                | _ \<Rightarrow> ret False)) s)"

definition etcd_release_lock :: "'e etcd_api \<Rightarrow> string \<Rightarrow> string option \<Rightarrow> ('e etcd_state, unit) proc" where
  "etcd_release_lock srv name client s =
     (let owner = etcd_owner client s;
          key = (case dict_get (lock_keys s) (name, owner) of
                   Some k \<Rightarrow> if k \<noteq> [] then k else etcd_lock_key (eprefix s) name
                 | None \<Rightarrow> etcd_lock_key (eprefix s) name)
      in andthen (modify (\<lambda>s. s\<lparr>lock_keys := dict_del (name, owner) (lock_keys s)\<rparr>))
           (bnd (kv_call srv (e_txn srv [ValueEqual key owner] [RequestDelete key []] [])) (\<lambda>_. ret ())) s)"

section \<open>Containers\<close>

text \<open>\<open>int(value or b'0')\<close>.\<close>

definition count_of :: "string \<Rightarrow> int res" where
  "count_of v = (if v = [] then Inr 0 else case parse_int v of None \<Rightarrow> Inl ValueError | Some n \<Rightarrow> Inr n)"

text \<open>The compare-and-swap loop; when the attempts are used up it only logs.\<close>

fun increment_uses :: "'e etcd_api \<Rightarrow> nat \<Rightarrow> string \<Rightarrow> ('e etcd_state, unit) proc" where
  "increment_uses srv 0 key = ret ()"
| "increment_uses srv (Suc n) key =
     bnd (kv_call srv (e_range srv key [])) (\<lambda>kvs.
     bnd (case kvs of
            [] \<Rightarrow> ret (VersionEqual key 0, ''1'')
          | kv # _ \<Rightarrow> bnd (lift_res (count_of (kv_value kv))) (\<lambda>current.
                        ret (ModEqual key (kv_mod kv), int_str (current + 1)))) (\<lambda>(compare, new_value).
     bnd (kv_call srv (e_txn srv [compare] [RequestPut key new_value None] [])) (\<lambda>resp.
       if succeeded resp then ret () else increment_uses srv n key)))"

definition etcd_allocate_container ::
    "'e etcd_api \<Rightarrow> string \<Rightarrow> string \<Rightarrow> ('e etcd_state, unit) proc" where
  "etcd_allocate_container srv c x s =
     (case dict_get (session_leases s) x of
        None \<Rightarrow> (Inl ValueError, s)
      | Some lease \<Rightarrow>
          andthen (kv_call srv (e_put srv (etcd_allocation_key (eprefix s) c x) ''1'' (Some lease)))
            (increment_uses srv 16 (etcd_uses_key (eprefix s) c)) s)"

definition etcd_renew_container :: "string \<Rightarrow> string \<Rightarrow> ('e etcd_state, unit) proc" where
  "etcd_renew_container c x = ret ()"

definition etcd_container_current_uses :: "'e etcd_api \<Rightarrow> string \<Rightarrow> ('e etcd_state, nat) proc" where
  "etcd_container_current_uses srv c s =
     (let key = etcd_allocation_prefix (eprefix s) c
      in bnd (kv_call srv (e_range srv key (range_end key))) (\<lambda>kvs. ret (length kvs)) s)"

definition etcd_container_is_allocated :: "'e etcd_api \<Rightarrow> string \<Rightarrow> ('e etcd_state, bool) proc" where
  "etcd_container_is_allocated srv c = bnd (etcd_container_current_uses srv c) (\<lambda>n. ret (0 < n))"

definition etcd_container_total_uses :: "'e etcd_api \<Rightarrow> string \<Rightarrow> ('e etcd_state, nat) proc" where
  "etcd_container_total_uses srv c s =
     bnd (kv_call srv (e_range srv (etcd_uses_key (eprefix s) c) [])) (\<lambda>kvs.
       case kvs of [] \<Rightarrow> ret 0 | kv # _ \<Rightarrow> lift_res (map_sum id nat (count_of (kv_value kv)))) s"

fun matches_gte :: "int \<Rightarrow> etcd_kv list \<Rightarrow> string list res" where
  "matches_gte m [] = Inr []"
| "matches_gte m (kv # kvs) =
     (case count_of (kv_value kv) of
        Inl e \<Rightarrow> Inl e
      | Inr uses \<Rightarrow>
          (case matches_gte m kvs of
             Inl e \<Rightarrow> Inl e
           | Inr rest \<Rightarrow> Inr (if m \<le> uses then last (split_on (CHR '':'') (kv_key kv)) # rest else rest)))"

definition etcd_containers_total_uses_gte ::
    "'e etcd_api \<Rightarrow> nat \<Rightarrow> ('e etcd_state, string list) proc" where
  "etcd_containers_total_uses_gte srv min_uses s =
     (let pfx = etcd_uses_prefix (eprefix s)
      in bnd (kv_call srv (e_range srv pfx (range_end pfx))) (\<lambda>kvs.
           lift_res (matches_gte (int min_uses) kvs)) s)"

definition etcd_release_container :: "'e etcd_api \<Rightarrow> string \<Rightarrow> string \<Rightarrow> ('e etcd_state, unit) proc" where
  "etcd_release_container srv c x s =
     kv_call srv (e_delete srv (etcd_allocation_key (eprefix s) c x) []) s"

definition etcd_remove_container :: "'e etcd_api \<Rightarrow> string \<Rightarrow> ('e etcd_state, unit) proc" where
  "etcd_remove_container srv c s =
     (let pfx = etcd_container_key_prefix (eprefix s) c
      in andthen (kv_call srv (e_delete srv pfx (range_end pfx)))
           (kv_call srv (e_delete srv (etcd_uses_key (eprefix s) c) [])) s)"

section \<open>Sessions\<close>

definition etcd_generate_session_id :: "'e etcd_api \<Rightarrow> ('e etcd_state, string) proc" where
  "etcd_generate_session_id srv s =
     bnd (grant_lease srv (esession_expiry s)) (\<lambda>lease s.
       case uuid4 (euuids s) of (x, u) \<Rightarrow>
         (Inr x, s\<lparr>euuids := u, session_leases := dict_set x lease (session_leases s),
                  lock_leases := dict_set x lease (lock_leases s)\<rparr>)) s"

definition etcd_store_session ::
    "'e etcd_api \<Rightarrow> ('j \<Rightarrow> string) \<Rightarrow> string \<Rightarrow> 'j \<Rightarrow> ('e etcd_state, unit) proc" where
  "etcd_store_session srv dumps x d s =
     (case dict_get (session_leases s) x of
        None \<Rightarrow> (Inl ValueError, s)
      | Some lease \<Rightarrow> kv_call srv (e_put srv (etcd_session_key (eprefix s) x) (dumps d) (Some lease)) s)"

definition etcd_get_session ::
    "'e etcd_api \<Rightarrow> (string \<Rightarrow> 'j option) \<Rightarrow> string \<Rightarrow> ('e etcd_state, 'j option) proc" where
  "etcd_get_session srv loads x s =
     bnd (kv_call srv (e_range srv (etcd_session_key (eprefix s) x) [])) (\<lambda>kvs.
       ret (case kvs of [] \<Rightarrow> None | kv # _ \<Rightarrow> loads (kv_value kv))) s"

definition etcd_renew_session :: "'e etcd_api \<Rightarrow> string \<Rightarrow> ('e etcd_state, unit) proc" where
  "etcd_renew_session srv x s =
     (case dict_get (session_leases s) x of None \<Rightarrow> (Inr (), s) | Some lease \<Rightarrow> keepalive srv lease s)"

definition etcd_delete_session :: "'e etcd_api \<Rightarrow> string \<Rightarrow> ('e etcd_state, unit) proc" where
  "etcd_delete_session srv x s =
     andthen (kv_call srv (e_delete srv (etcd_session_key (eprefix s) x) []))
    (bnd (gets (\<lambda>s. dict_get (session_leases s) x)) (\<lambda>lease.
     andthen (modify (\<lambda>s. s\<lparr>session_leases := dict_del x (session_leases s)\<rparr>))
    (andthen (case lease of None \<Rightarrow> ret () | Some l \<Rightarrow> lease_call srv (e_revoke srv l))
       (modify (\<lambda>s. s\<lparr>lock_leases := dict_del x (lock_leases s)\<rparr>))))) s"

section \<open>Key ranges\<close>

text \<open>The order of keys, and the keys a request with a range end is documented to address.\<close>

fun key_le :: "string \<Rightarrow> string \<Rightarrow> bool" where
  "key_le [] k = True"
| "key_le (x # xs) [] = False"
| "key_le (x # xs) (y # ys) = (byte_of x < byte_of y \<or> (x = y \<and> key_le xs ys))"

definition in_range :: "string \<Rightarrow> string \<Rightarrow> string \<Rightarrow> bool" where
  "in_range key stop k \<longleftrightarrow>
     (if stop = [] then k = key
      else if stop = [CHR 0x00] then key_le key k
      else key_le key k \<and> \<not> key_le stop k)"

text \<open>The range end from the left: increment the last byte that can be incremented.\<close>

fun bump :: "string \<Rightarrow> string option" where
  "bump [] = None"
| "bump (b # bs) =
     (case bump bs of
        Some r \<Rightarrow> Some (b # r)
      | None \<Rightarrow> if b \<noteq> CHR 0xFF then Some [char_of (byte_of b + 1)] else None)"

lemma bump_last_snoc:
  "bump_last (bs @ [b]) =
     (case bump_last bs of
        Some r \<Rightarrow> Some (r @ [b])
      | None \<Rightarrow> if b \<noteq> CHR 0xFF then Some [char_of (byte_of b + 1)] else None)"
  by (induction bs) auto

lemma bump_last_rev: "bump_last (rev p) = map_option rev (bump p)"
  by (induction p) (auto simp: bump_last_snoc split: option.split)

lemma byte_eq_iff: "byte_of a = byte_of b \<longleftrightarrow> a = b"
  by simp

lemma last_byte: "byte_of c < 255 \<longleftrightarrow> c \<noteq> CHR 0xFF"
proof -
  have "byte_of c = 255 \<longleftrightarrow> c = CHR 0xFF" using byte_eq_iff [of c "CHR 0xFF"] by simp
  moreover have "byte_of c < 256" by (rule byte_less)
  ultimately show ?thesis by linarith
qed

lemma next_byte: "c \<noteq> CHR 0xFF \<Longrightarrow> byte_of (char_of (byte_of c + 1)) = byte_of c + 1"
  using last_byte [of c] by simp

lemma bump_range:
  "case bump p of None \<Rightarrow> key_le p k \<longleftrightarrow> prefix p k
   | Some e \<Rightarrow> (key_le p k \<and> \<not> key_le e k) \<longleftrightarrow> prefix p k"
proof (induction p arbitrary: k)
  case (Cons c p)
  show ?case
  proof (cases k)
    case Nil
    then show ?thesis by (auto split: option.split)
  next
    case (Cons d ks)
    have IH: "case bump p of None \<Rightarrow> key_le p ks \<longleftrightarrow> prefix p ks
       | Some e \<Rightarrow> (key_le p ks \<and> \<not> key_le e ks) \<longleftrightarrow> prefix p ks" by (rule Cons.IH)
    show ?thesis
    proof (cases "bump p")
      case (Some r)
      then show ?thesis using IH Cons by auto
    next
      case None
      note p = None
      show ?thesis
      proof (cases "c = CHR 0xFF")
        case True
        have "\<not> 255 < byte_of d" using byte_less [of d] by linarith
        then show ?thesis using IH Cons p True by auto
      next
        case False
        have "byte_of c + 1 < byte_of d \<or> byte_of c + 1 = byte_of d \<longleftrightarrow> byte_of c < byte_of d" by linarith
        moreover have "char_of (byte_of c + 1) = d \<longleftrightarrow> byte_of c + 1 = byte_of d"
          using next_byte [OF False] byte_eq_iff [of "char_of (byte_of c + 1)" d] by auto
        ultimately have "key_le [char_of (byte_of c + 1)] (d # ks) \<longleftrightarrow> byte_of c < byte_of d"
          by (simp only: key_le.simps next_byte [OF False]) blast
        then show ?thesis using IH Cons p False by auto
      qed
    qed
  qed
qed simp

lemma bump_not_zero: "bump p = Some e \<Longrightarrow> e \<noteq> [] \<and> e \<noteq> [CHR 0x00]"
proof (cases p)
  case (Cons c q)
  assume e: "bump p = Some e"
  show ?thesis
  proof (cases "bump q")
    case None
    then have e: "e = [char_of (byte_of c + 1)]" and c: "c \<noteq> CHR 0xFF"
      using e Cons by (auto split: if_splits)
    have "byte_of (char_of (byte_of c + 1)) \<noteq> byte_of (CHR 0x00)"
      unfolding next_byte [OF c] by simp
    then have "char_of (byte_of c + 1) \<noteq> CHR 0x00" by metis
    then show ?thesis unfolding e by (simp only: list.inject list.distinct simp_thms)
  next
    case (Some r)
    then have "r \<noteq> []" by (cases q) (auto split: option.splits if_splits)
    then show ?thesis using e Cons Some by auto
  qed
qed simp

text \<open>
  The range \<open>[p, _range_end(p))\<close> is exactly the set of keys with the prefix \<open>p\<close>, for every
  byte string \<open>p\<close>: also for the empty one, and for one that ends in or consists of 0xFF bytes.
\<close>

lemma range_end_prefix: "in_range p (range_end p) k \<longleftrightarrow> prefix p k"
proof (cases "bump p")
  case None
  then have "range_end p = [CHR 0x00]" by (simp add: range_end_def bump_last_rev)
  then show ?thesis using bump_range [of p k] None by (simp add: in_range_def)
next
  case (Some e)
  then have "range_end p = e" using bump.simps(1) by (auto simp: range_end_def bump_last_rev)
  then show ?thesis using bump_range [of p k] bump_not_zero [OF Some] Some by (simp add: in_range_def)
qed

section \<open>The contract of the server\<close>

text \<open>
  What a range, a delete and a put are documented to do to the keys: \<open>view\<close> is the current value,
  modification revision and lease of each key.
\<close>

locale etcd_server =
  fixes srv :: "'e etcd_api"
    and view :: "'e \<Rightarrow> string \<Rightarrow> (string \<times> nat \<times> int option) option"
  assumes range: "\<exists>kvs t. e_range srv key stop s = (Inr kvs, t) \<and> view t = view s \<and>
      distinct (map kv_key kvs) \<and>
      set (map kv_key kvs) = {k. in_range key stop k \<and> view s k \<noteq> None} \<and>
      (\<forall>kv \<in> set kvs. \<exists>l. view s (kv_key kv) = Some (kv_value kv, kv_mod kv, l))"
    and delete: "\<exists>t. e_delete srv key stop s = (Inr (), t) \<and>
      view t = (\<lambda>k. if in_range key stop k then None else view s k)"
    and put: "\<exists>t n. e_put srv key v l s = (Inr (), t) \<and> view t = (view s)(key \<mapsto> (v, n, l))"
begin

lemma kv_call_returns:
  assumes "fn (eserver s) = (Inr x, t)"
  shows "\<exists>s'. kv_call srv fn s = (Inr x, s') \<and> eserver s' = t \<and> eprefix s' = eprefix s \<and>
              session_leases s' = session_leases s"
proof -
  obtain s1 where s1: "etcd_get_kv s = (Inr (), s1)" "eserver s1 = eserver s" "eprefix s1 = eprefix s"
      "session_leases s1 = session_leases s"
    by (cases "kv_stub s")
       (simp_all add: etcd_get_kv_def bnd_def gets_def ret_def andthen_def etcd_get_channel_def modify_def)
  then show ?thesis
    using assms
    by (simp add: kv_call_def numeral_2_eq_2 andthen_def bnd_def catch_def on_etcd_def zoom_def)
qed

text \<open>The keys with a prefix are counted, or deleted, whatever else the store holds.\<close>

definition held :: "'e \<Rightarrow> string \<Rightarrow> string set" where
  "held s p = {k. prefix p k \<and> view s k \<noteq> None}"

lemma count_prefix:
  "\<exists>t. kv_call srv (e_range srv p (range_end p)) s = (Inr kvs, t) \<Longrightarrow> length kvs = card (held (eserver s) p)"
proof -
  assume t: "\<exists>t. kv_call srv (e_range srv p (range_end p)) s = (Inr kvs, t)"
  obtain ks u where r: "e_range srv p (range_end p) (eserver s) = (Inr ks, u)" and d: "distinct (map kv_key ks)"
      and k: "set (map kv_key ks) = {k. in_range p (range_end p) k \<and> view (eserver s) k \<noteq> None}"
    using range [of p "range_end p" "eserver s"] by blast
  then have "kvs = ks" using kv_call_returns [of "e_range srv p (range_end p)" s, OF r] t by auto
  moreover have "length ks = card (set (map kv_key ks))" using d by (metis distinct_card length_map)
  ultimately show ?thesis using k by (simp add: held_def range_end_prefix)
qed

lemma current_uses_held:
  "fst (etcd_container_current_uses srv c s) =
     Inr (card (held (eserver s) (etcd_allocation_prefix (eprefix s) c)))"
proof -
  let ?p = "etcd_allocation_prefix (eprefix s) c"
  obtain kvs u where r: "e_range srv ?p (range_end ?p) (eserver s) = (Inr kvs, u)"
    using range [of ?p "range_end ?p" "eserver s"] by blast
  then obtain t where t: "kv_call srv (e_range srv ?p (range_end ?p)) s = (Inr kvs, t)"
    using kv_call_returns [of "e_range srv ?p (range_end ?p)" s, OF r] by blast
  then show ?thesis using count_prefix [of ?p s kvs]
    by (simp add: etcd_container_current_uses_def Let_def bnd_def ret_def)
qed

lemma remove_view:
  "\<exists>t. etcd_remove_container srv c s = (Inr (), t) \<and> eprefix t = eprefix s \<and>
     (\<forall>k. view (eserver t) k =
        (if prefix (etcd_container_key_prefix (eprefix s) c) k \<or> k = etcd_uses_key (eprefix s) c
         then None else view (eserver s) k))"
proof -
  let ?p = "etcd_container_key_prefix (eprefix s) c" and ?u = "etcd_uses_key (eprefix s) c"
  obtain t1 where t1: "e_delete srv ?p (range_end ?p) (eserver s) = (Inr (), t1)"
      "view t1 = (\<lambda>k. if in_range ?p (range_end ?p) k then None else view (eserver s) k)"
    using delete [of ?p "range_end ?p" "eserver s"] by blast
  obtain s1 where s1: "kv_call srv (e_delete srv ?p (range_end ?p)) s = (Inr (), s1)" "eserver s1 = t1"
      "eprefix s1 = eprefix s"
    using kv_call_returns [of "e_delete srv ?p (range_end ?p)" s, OF t1(1)] by blast
  obtain t2 where t2: "e_delete srv ?u [] t1 = (Inr (), t2)"
      "view t2 = (\<lambda>k. if in_range ?u [] k then None else view t1 k)"
    using delete [of ?u "[]" t1] by blast
  obtain s2 where s2: "kv_call srv (e_delete srv ?u []) s1 = (Inr (), s2)" "eserver s2 = t2"
      "eprefix s2 = eprefix s1"
    using kv_call_returns [of "e_delete srv ?u []" s1] t2(1) s1(2) by blast
  then show ?thesis
    using s1 t1(2) t2(2)
    by (simp add: etcd_remove_container_def Let_def andthen_def bnd_def range_end_prefix)
       (auto simp: in_range_def)
qed

lemma remove_then_count:
  assumes "CHR '':'' \<notin> set c"
  shows "fst (andthen (etcd_remove_container srv c) (etcd_container_current_uses srv c') s) =
           (if prefix c c' then Inr 0 else fst (etcd_container_current_uses srv c' s))"
proof -
  let ?p = "eprefix s"
  obtain t where t: "etcd_remove_container srv c s = (Inr (), t)" "eprefix t = ?p"
      "\<And>k. view (eserver t) k = (if prefix (etcd_container_key_prefix ?p c) k \<or> k = etcd_uses_key ?p c
         then None else view (eserver s) k)"
    using remove_view [of c s] by blast
  have hit: "prefix (etcd_container_key_prefix ?p c) (etcd_allocation_prefix ?p c' @ x) \<longleftrightarrow> prefix c c'" for x
  proof -
    have "prefix c (c' @ CHR '':'' # r) \<longleftrightarrow> prefix c c'" for r
      using assms by (auto simp: prefix_def append_eq_append_conv2 Cons_eq_append_conv)
    then show ?thesis by (simp add: etcd_container_key_prefix_def etcd_allocation_prefix_def)
  qed
  have uses: "etcd_allocation_prefix ?p c' @ x \<noteq> etcd_uses_key ?p c" for x
    by (simp add: etcd_allocation_prefix_def etcd_container_key_prefix_def etcd_uses_key_def
        etcd_uses_prefix_def)
  have keys: "(prefix (etcd_container_key_prefix ?p c) k \<longleftrightarrow> prefix c c') \<and> k \<noteq> etcd_uses_key ?p c"
    if "prefix (etcd_allocation_prefix ?p c') k" for k
    using that hit uses by (auto simp only: prefix_def [of "etcd_allocation_prefix ?p c'"])
  have "held (eserver t) (etcd_allocation_prefix ?p c') =
      (if prefix c c' then {} else held (eserver s) (etcd_allocation_prefix ?p c'))"
    using keys by (auto simp: held_def t(3))
  then show ?thesis
    using current_uses_held [of c' t] current_uses_held [of c' s] t(1,2) by (simp add: andthen_def bnd_def)
qed

end

text \<open>A store in memory: the keys, the revision and the last lease.\<close>

type_synonym mem_etcd = "(string, string \<times> nat \<times> int option) dict \<times> nat \<times> int"

definition mem_kvs :: "mem_etcd \<Rightarrow> string \<Rightarrow> string \<Rightarrow> etcd_kv list" where
  "mem_kvs s key stop =
     map (\<lambda>k. \<lparr>kv_key = k, kv_value = fst (the (dict_get (fst s) k)),
                kv_mod = fst (snd (the (dict_get (fst s) k)))\<rparr>)
       (filter (in_range key stop) (remdups (dict_keys (fst s))))"

fun mem_holds :: "mem_etcd \<Rightarrow> etcd_compare \<Rightarrow> bool" where
  "mem_holds s (VersionEqual k n) = ((n = 0) = (dict_get (fst s) k = None))"
| "mem_holds s (ModEqual k n) = (case dict_get (fst s) k of None \<Rightarrow> n = 0 | Some (v, m, l) \<Rightarrow> m = n)"
| "mem_holds s (ValueEqual k w) = (case dict_get (fst s) k of None \<Rightarrow> False | Some (v, m, l) \<Rightarrow> v = w)"

fun mem_perform :: "etcd_request \<Rightarrow> mem_etcd \<Rightarrow> etcd_kv list \<times> mem_etcd" where
  "mem_perform (RequestPut k v l) (d, n, i) = ([], dict_set k (v, n + 1, l) d, n + 1, i)"
| "mem_perform (RequestRange k e) s = (mem_kvs s k e, s)"
| "mem_perform (RequestDelete k e) (d, n, i) = ([], filter (\<lambda>x. \<not> in_range k e (fst x)) d, n + 1, i)"

fun mem_perform_all :: "etcd_request list \<Rightarrow> mem_etcd \<Rightarrow> etcd_kv list list \<times> mem_etcd" where
  "mem_perform_all [] s = ([], s)"
| "mem_perform_all (r # rs) s =
     (case mem_perform r s of (kvs, t) \<Rightarrow> case mem_perform_all rs t of (kvss, u) \<Rightarrow> (kvs # kvss, u))"

definition mem_etcd_api :: "mem_etcd etcd_api" where
  "mem_etcd_api =
     \<lparr>e_range = (\<lambda>k e s. (Inr (mem_kvs s k e), s)),
      e_put = (\<lambda>k v l s. (Inr (), snd (mem_perform (RequestPut k v l) s))),
      e_delete = (\<lambda>k e s. (Inr (), snd (mem_perform (RequestDelete k e) s))),
      e_txn = (\<lambda>cs yes no s. let ok = list_all (mem_holds s) cs in
         case mem_perform_all (if ok then yes else no) s of
           (kvss, t) \<Rightarrow> (Inr \<lparr>succeeded = ok, responses = kvss\<rparr>, t)),
      e_grant = (\<lambda>n (d, r, i). (Inr (i + 1), (d, r, i + 1))),
      e_revoke = (\<lambda>l (d, r, i). (Inr (), (filter (\<lambda>(k, v, m, l'). l' \<noteq> Some l) d, r, i))),
      e_keepalive = (\<lambda>l. ret (Some 600)), e_done_writing = ret (), e_close = ret (), e_sleep = ret ()\<rparr>"

lemma map_of_filter_keys: "map_of (filter (\<lambda>x. Q (fst x)) d) k = (if Q k then map_of d k else None)"
  by (induction d) auto

interpretation mem_etcd: etcd_server mem_etcd_api "\<lambda>s. dict_get (fst s)"
proof
  show "\<exists>kvs t. e_range mem_etcd_api key stop s = (Inr kvs, t) \<and> dict_get (fst t) = dict_get (fst s) \<and>
      distinct (map kv_key kvs) \<and>
      set (map kv_key kvs) = {k. in_range key stop k \<and> dict_get (fst s) k \<noteq> None} \<and>
      (\<forall>kv \<in> set kvs. \<exists>l. dict_get (fst s) (kv_key kv) = Some (kv_value kv, kv_mod kv, l))" for key stop s
  proof -
    have keys: "map kv_key (mem_kvs s key stop) = filter (in_range key stop) (remdups (dict_keys (fst s)))"
      by (simp add: mem_kvs_def comp_def)
    have dom: "dict_get (fst s) k \<noteq> None \<longleftrightarrow> k \<in> fst ` set (fst s)" for k
      by (simp add: map_of_eq_None_iff)
    have "\<exists>l. dict_get (fst s) (kv_key kv) = Some (kv_value kv, kv_mod kv, l)"
      if kv: "kv \<in> set (mem_kvs s key stop)" for kv
    proof -
      obtain k where k: "k \<in> set (filter (in_range key stop) (remdups (dict_keys (fst s))))"
          "kv = \<lparr>kv_key = k, kv_value = fst (the (dict_get (fst s) k)),
          kv_mod = fst (snd (the (dict_get (fst s) k)))\<rparr>"
        using imageE [OF kv [unfolded mem_kvs_def set_map]] by metis
      then have "k \<in> fst ` set (fst s)" by simp
      then obtain a where "dict_get (fst s) k = Some a" using dom by fastforce
      then show ?thesis using k(2) by (cases a) simp
    qed
    moreover have "distinct (map kv_key (mem_kvs s key stop))" by (simp add: keys)
    moreover have "set (map kv_key (mem_kvs s key stop)) = {k. in_range key stop k \<and> dict_get (fst s) k \<noteq> None}"
      unfolding keys dom by auto
    ultimately show ?thesis by (simp add: mem_etcd_api_def)
  qed
  show "\<exists>t. e_delete mem_etcd_api key stop s = (Inr (), t) \<and>
      dict_get (fst t) = (\<lambda>k. if in_range key stop k then None else dict_get (fst s) k)" for key stop s
    by (cases s) (auto simp: mem_etcd_api_def map_of_filter_keys [of "\<lambda>k. \<not> in_range key stop k"] fun_eq_iff)
  show "\<exists>t n. e_put mem_etcd_api key v l s = (Inr (), t) \<and> dict_get (fst t) = (dict_get (fst s))(key \<mapsto> (v, n, l))"
    for key v l s
    by (cases s) (auto simp: mem_etcd_api_def fun_eq_iff)
qed

section \<open>Removing a container\<close>

text \<open>
  Removing a container removes the allocations of every container whose id it is a prefix
  of, and of no other. The deleted range starts with \<open>container:<id>\<close> without a separator behind
  the id, so removing \<open>c1\<close> also drops the sessions of \<open>c10\<close>; with ids of one length only the
  container itself is affected.
\<close>

lemma etcd_remove_drops_extensions:
  assumes "etcd_server srv view" and "CHR '':'' \<notin> set c"
  shows "fst (andthen (etcd_remove_container srv c) (etcd_container_current_uses srv c') s) =
           (if prefix c c' then Inr 0 else fst (etcd_container_current_uses srv c' s))"
  by (rule etcd_server.remove_then_count [OF assms])

lemma etcd_remove_drops_extensions_witness:
  "let s = (etcd_init ([], 0, 0) (\<lambda>n. nat_str n, 0) NoConnection ''p'')\<lparr>session_leases := [(''x'', 1)]\<rparr>;
       t = snd (etcd_allocate_container mem_etcd_api ''c10'' ''x'' s)
   in fst (andthen (etcd_remove_container mem_etcd_api ''c1'')
             (etcd_container_current_uses mem_etcd_api ''c10'') t) = Inr 0"
  using etcd_remove_drops_extensions [OF mem_etcd.etcd_server_axioms, of "''c1''" "''c10''"]
  by (simp add: Let_def)

end
