(* ===== verification/Delegation.thy ===== *)
theory Delegation
  imports Prelude
begin

text \<open>
  Task specific environment configuration (worker/src/agentrl/worker/environment/_delegation.py)
  and the labels of managed containers (_const.py). A delegation is a record of its methods;
  the methods that create containers are programs on the controller's world, since a task may
  call the controller from them. The base class is the value \<open>base_delegation\<close>.
\<close>

section \<open>Container attributes\<close>

text \<open>The part of the Docker API's container attributes that the controller builds.\<close>

record cattrs =
  a_name :: "string option"
  a_env :: "(string, string) dict"
  a_labels :: "(string, string) dict"
  a_image :: "string option"
  a_auto_remove :: bool
  a_init :: bool
  a_network_mode :: string

datatype service_port = NoPort | OnePort int | ManyPorts "int list"

section \<open>Pod specifications\<close>

text \<open>
  The part of a Kubernetes pod specification that the controller builds and changes; a probe is
  an opaque text. A task returns the changed specification, alone or with metadata overrides,
  which must be a dictionary.
\<close>

record k8s_container =
  kc_name :: string
  kc_image :: "string option"
  kc_env :: "(string \<times> string option) list"
  kc_ports :: "int list"
  kc_readiness :: "string option"
  kc_liveness :: "string option"

record pod_spec =
  sp_active_deadline :: "nat option"
  sp_containers :: "k8s_container list"
  sp_restart_policy :: string
  sp_grace_period :: nat
  sp_service_token :: "bool option"
  sp_priority_class :: "string option"

datatype k8s_overrides =
    NoOverrides
  | Overrides "(string, string) dict option" "(string, string) dict option"
  | NotADict

section \<open>The delegation\<close>

record 'w delegation =
  d_name :: string
  d_subtypes :: "string list"
  d_service_port :: "string \<Rightarrow> service_port"
  d_is_exclusive :: "string \<Rightarrow> bool"
  d_supports_reuse :: "string \<Rightarrow> bool"
  d_create_docker_container :: "cattrs \<Rightarrow> string \<Rightarrow> ('w, cattrs) proc"
  d_post_create_docker :: "(string \<Rightarrow> string \<Rightarrow> string \<Rightarrow> ('w, unit) proc) option"
  d_create_k8s_pod :: "pod_spec \<Rightarrow> string \<Rightarrow> ('w, pod_spec \<times> k8s_overrides) proc"
  d_post_create_k8s :: "(string \<Rightarrow> string \<Rightarrow> string option \<Rightarrow> ('w, unit) proc) option"
  d_container_images :: "(string, string) dict res"
  d_has_homepage :: bool
  d_homepage_subtype :: "string res"
  d_homepage_envs :: "(string, string) dict \<Rightarrow> (string, string) dict res"
  d_concurrency_limit :: "string \<Rightarrow> nat"
  d_reuse_limit :: "string \<Rightarrow> nat"
  d_max_execution_time :: "string \<Rightarrow> nat"

text \<open>The limits a task gets when it overrides only the deprecated predicates.\<close>

definition base_concurrency_limit :: "('w, 'm) delegation_scheme \<Rightarrow> string \<Rightarrow> nat" where
  "base_concurrency_limit d subtype = (if d_is_exclusive d subtype then 1 else 0)"

definition base_reuse_limit :: "('w, 'm) delegation_scheme \<Rightarrow> string \<Rightarrow> nat" where
  "base_reuse_limit d subtype =
     (if d_is_exclusive d subtype \<or> \<not> d_supports_reuse d subtype then 1 else 0)"

definition inherit_limits :: "('w, 'm) delegation_scheme \<Rightarrow> ('w, 'm) delegation_scheme" where
  "inherit_limits d =
     d\<lparr>d_concurrency_limit := base_concurrency_limit d, d_reuse_limit := base_reuse_limit d\<rparr>"

definition base_delegation :: "string \<Rightarrow> 'w delegation" where
  "base_delegation name = inherit_limits
     \<lparr>d_name = name,
      d_subtypes = [''default''],
      d_service_port = (\<lambda>_. NoPort),
      d_is_exclusive = (\<lambda>_. False),
      d_supports_reuse = (\<lambda>_. False),
      d_create_docker_container = (\<lambda>_ _. raise NotImplementedError),
      d_post_create_docker = None,
      d_create_k8s_pod = (\<lambda>_ _. raise NotImplementedError),
      d_post_create_k8s = None,
      d_container_images = Inl NotImplementedError,
      d_has_homepage = False,
      d_homepage_subtype = Inl NotImplementedError,
      d_homepage_envs = (\<lambda>_. Inl NotImplementedError),
      d_concurrency_limit = (\<lambda>_. 0),
      d_reuse_limit = (\<lambda>_. 0),
      d_max_execution_time = (\<lambda>_. 4 * 60 * 60)\<rparr>"

section \<open>When an allocation is exclusive\<close>

text \<open>The test both controllers make for each requested subtype.\<close>

definition wants_exclusive :: "nat \<Rightarrow> bool \<Rightarrow> bool" where
  "wants_exclusive usage_limit immutable \<longleftrightarrow> usage_limit = 1 \<or> (usage_limit \<noteq> 0 \<and> \<not> immutable)"

text \<open>The admission test on a shared container, from its two counters.\<close>

definition admissible :: "nat \<Rightarrow> nat \<Rightarrow> nat \<Rightarrow> nat \<Rightarrow> bool" where
  "admissible usage_limit concurrency_limit used current \<longleftrightarrow>
     \<not> (0 < usage_limit \<and> usage_limit \<le> used) \<and>
     \<not> (0 < concurrency_limit \<and> concurrency_limit \<le> current)"

definition ports_str :: "service_port \<Rightarrow> string" where
  "ports_str p = (case p of
     NoPort \<Rightarrow> ''None''
   | OnePort n \<Rightarrow> int_str n
   | ManyPorts ns \<Rightarrow> ''['' @ join_with '', '' (map int_str ns) @ '']'')"

text \<open>\<open>get_container_url\<close> and \<open>get_pod_url\<close> end the same way: the address for a service port.\<close>

definition service_url :: "string \<Rightarrow> service_port \<Rightarrow> string" where
  "service_url ip port =
     (if port = NoPort \<or> port = OnePort 0 \<or> port = ManyPorts [] then ip
      else if port = OnePort 80 then ''http://'' @ ip
      else ''http://'' @ ip @ '':'' @ ports_str port)"

section \<open>Lemmas\<close>

text \<open>
  A task that overrides only the deprecated predicates: exclusive environments serve one session
  once; environments that support reuse are unlimited; all others are used once.
\<close>

lemma inherited_limits:
  "d_is_exclusive d t \<Longrightarrow>
     d_reuse_limit (inherit_limits d) t = 1 \<and> d_concurrency_limit (inherit_limits d) t = 1"
  "\<not> d_is_exclusive d t \<Longrightarrow> d_supports_reuse d t \<Longrightarrow>
     d_reuse_limit (inherit_limits d) t = 0 \<and> d_concurrency_limit (inherit_limits d) t = 0"
  "\<not> d_is_exclusive d t \<Longrightarrow> \<not> d_supports_reuse d t \<Longrightarrow>
     d_reuse_limit (inherit_limits d) t = 1 \<and> d_concurrency_limit (inherit_limits d) t = 0"
  by (simp_all add: inherit_limits_def base_reuse_limit_def base_concurrency_limit_def)

text \<open>A container that nobody has used passes the test of every shared subtype.\<close>

lemma fresh_admissible: "admissible usage_limit concurrency_limit 0 0"
  by (auto simp: admissible_def)

lemma admissible_current:
  "admissible u k used current \<Longrightarrow> 0 < k \<Longrightarrow> Suc current \<le> k"
  by (simp add: admissible_def)

lemma admissible_total: "admissible u k used current \<Longrightarrow> 0 < u \<Longrightarrow> Suc used \<le> u"
  by (simp add: admissible_def)

end
