(* ===== verification/Docker_Controller.thy ===== *)
theory Docker_Controller
  imports Delegation State_Provider
begin

text \<open>
  The Docker environment controller (worker/src/agentrl/worker/environment/docker.py). The Docker
  daemon behind aiodocker is the parameter \<open>api\<close>, a record of the calls the code makes; the
  shared state is any provider. The controller's own state (client, shells, spawned tasks) and the
  two services make up the world. Loops that wait take fuel.
\<close>

section \<open>Containers, filters and the daemon's calls\<close>

text \<open>
  A \<open>DockerContainer\<close>: its id and the parts of its cached JSON that the code reads. A field is
  None where the JSON has no such key.
\<close>

record cont =
  cont_id :: string
  cont_loaded :: bool
  cont_labels :: "(string, string) dict option"
  cont_ips :: "(string, string) dict option"
  cont_env :: "string list option"

record list_filter =
  f_id :: "string list"
  f_label :: "string list"
  f_status :: "string list"
  f_health :: "string list"
  f_network :: "string list"

record create_body =
  b_env :: "string list"
  b_labels :: "(string, string) dict"
  b_image :: string
  b_auto_remove :: bool
  b_init :: bool
  b_network_mode :: string

record 'd docker_api =
  containers_list :: "list_filter \<Rightarrow> ('d, cont list) proc"
  container_show :: "string \<Rightarrow> ('d, cont) proc"
  containers_create :: "create_body \<Rightarrow> string \<Rightarrow> ('d, cont) proc"
  container_start :: "string \<Rightarrow> ('d, unit) proc"
  container_delete :: "string \<Rightarrow> ('d, unit) proc"
  images_pull :: "string \<Rightarrow> ('d, unit) proc"
  exec_create :: "string \<Rightarrow> string list \<Rightarrow> bool \<Rightarrow> ('d, nat) proc"
  exec_read :: "nat \<Rightarrow> ('d, (nat \<times> string) option) proc"
  exec_write :: "nat \<Rightarrow> string \<Rightarrow> ('d, unit) proc"
  exec_close :: "nat \<Rightarrow> ('d, unit) proc"
  exec_exit_code :: "nat \<Rightarrow> ('d, int option) proc"
  prompt_search :: "string \<Rightarrow> bool"
  docker_sleep :: "('d, unit) proc"

text \<open>The stored session: \<open>SessionData\<close>.\<close>

record docker_session =
  sd_containers :: "(string, string) dict"
  sd_exclusive :: "string list"

record ('s, 'd) dworld =
  dk :: 'd
  st :: 's
  dclient :: "bool option"
  shells :: "(string, nat) dict"
  tasks :: "(string \<times> string) list"
  duuids :: uuid_src

record ('s, 'd) dctl =
  api :: "'d docker_api"
  prov :: "('s, docker_session) provider"
  deleg :: "('s, 'd) dworld delegation"
  task_name :: string
  valid_subtypes :: "string list"
  network_name :: string
  shuffle :: "cont list \<Rightarrow> cont list"
  loop_fuel :: nat

definition on_dk :: "('d, 'a) proc \<Rightarrow> (('s, 'd) dworld, 'a) proc" where
  "on_dk = zoom dk (\<lambda>d w. w\<lparr>dk := d\<rparr>)"

definition on_st :: "('s, 'a) proc \<Rightarrow> (('s, 'd) dworld, 'a) proc" where
  "on_st = zoom st (\<lambda>s w. w\<lparr>st := s\<rparr>)"

definition dctl_init ::
    "'d docker_api \<Rightarrow> ('s, docker_session) provider \<Rightarrow> ('s, 'd) dworld delegation \<Rightarrow> string \<Rightarrow>
     (cont list \<Rightarrow> cont list) \<Rightarrow> nat \<Rightarrow> ('s, 'd) dctl" where
  "dctl_init a p d network shuf n =
     \<lparr>api = a, prov = p, deleg = d, task_name = d_name d, valid_subtypes = d_subtypes d,
      network_name = network, shuffle = shuf, loop_fuel = n\<rparr>"

section \<open>Client and retries\<close>

text \<open>The client is None or records whether its HTTP session has been closed.\<close>

definition docker_get_client :: "(('s, 'd) dworld, unit) proc" where
  "docker_get_client = modify (\<lambda>w.
     if dclient w = None \<or> dclient w = Some True then w\<lparr>dclient := Some False\<rparr> else w)"

text \<open>Closing errors are swallowed, for the client as for each stream.\<close>

definition docker_reset_client :: "('s, 'd) dctl \<Rightarrow> (('s, 'd) dworld, unit) proc" where
  "docker_reset_client C =
     andthen (modify (\<lambda>w. w\<lparr>dclient := None\<rparr>))
       (bnd (gets (\<lambda>w. map snd (shells w))) (\<lambda>streams.
          andthen (each (\<lambda>x. catch (on_dk (exec_close (api C) x)) (\<lambda>_. ret ())) streams)
            (modify (\<lambda>w. w\<lparr>shells := []\<rparr>))))"

definition retryable_status :: "int \<Rightarrow> bool" where
  "retryable_status n \<longleftrightarrow> n \<in> {500, 502, 503, 504, 900}"

fun reconnect_error :: "py_error \<Rightarrow> bool" where
  "reconnect_error (ApiError n) = retryable_status n"
| "reconnect_error TransportError = True"
| "reconnect_error TimeoutError = True"
| "reconnect_error e = False"

text \<open>\<open>_docker_call\<close> with the attempts that are left.\<close>

fun docker_attempts ::
    "('s, 'd) dctl \<Rightarrow> nat \<Rightarrow> (('s, 'd) dworld, 'a) proc \<Rightarrow> (('s, 'd) dworld, 'a) proc" where
  "docker_attempts C 0 operation = raise StillRunning"
| "docker_attempts C (Suc n) operation =
     andthen docker_get_client
       (catch operation (\<lambda>e.
          if reconnect_error e \<and> n \<noteq> 0
          then andthen (docker_reset_client C) (docker_attempts C n operation)
          else raise e))"

definition docker_call ::
    "('s, 'd) dctl \<Rightarrow> bool \<Rightarrow> (('s, 'd) dworld, 'a) proc \<Rightarrow> (('s, 'd) dworld, 'a) proc" where
  "docker_call C retry operation = docker_attempts C (if retry then 2 else 1) operation"

text \<open>\<open>container.show()\<close> fetches the JSON again; the object keeps its id.\<close>

definition show_container :: "('s, 'd) dctl \<Rightarrow> string \<Rightarrow> (('s, 'd) dworld, cont) proc" where
  "show_container C i = bnd (on_dk (container_show (api C) i)) (\<lambda>c. ret (c\<lparr>cont_id := i\<rparr>))"

definition load_container :: "('s, 'd) dctl \<Rightarrow> string \<Rightarrow> (('s, 'd) dworld, cont) proc" where
  "load_container C i = docker_call C True (show_container C i)"

section \<open>Labels and listing\<close>

definition label_eq :: "string \<Rightarrow> string \<Rightarrow> string" where
  "label_eq k v = k @ ''='' @ v"

definition managed_by :: "string \<times> string" where
  "managed_by = (''agentrl.managed-by'', ''agentrl'')"

definition label_task_name :: string where "label_task_name = ''agentrl.task-name''"
definition label_subtype_name :: string where "label_subtype_name = ''agentrl.subtype-name''"
definition label_depends_on :: string where "label_depends_on = ''agentrl.depends-on''"
definition label_exclusive :: string where "label_exclusive = ''agentrl.exclusive''"

definition no_filter :: list_filter where
  "no_filter = \<lparr>f_id = [], f_label = [], f_status = [], f_health = [], f_network = []\<rparr>"

definition list_containers :: "('s, 'd) dctl \<Rightarrow> list_filter \<Rightarrow> (('s, 'd) dworld, cont list) proc" where
  "list_containers C f = docker_call C True (on_dk (containers_list (api C) f))"

definition identify_containers ::
    "('s, 'd) dctl \<Rightarrow> string list \<Rightarrow> (('s, 'd) dworld, (string, cont list) dict) proc" where
  "identify_containers C subtypes =
     bnd (collect (\<lambda>subtype.
            bnd (list_containers C (no_filter\<lparr>
              f_label := [label_eq (fst managed_by) (snd managed_by),
                          label_eq label_task_name (task_name C),
                          label_eq label_subtype_name subtype,
                          label_eq label_exclusive (bool_str False)],
              f_status := [''running''],
              f_health := [''starting'', ''healthy'', ''none''],
              f_network := [network_name C]\<rparr>)) (\<lambda>cs. ret (subtype, cs)))
          (if subtypes = [] then valid_subtypes C else subtypes))
       (\<lambda>kvs. ret (fold (\<lambda>(k, v). dict_set k v) kvs []))"

fun wait_for_health :: "('s, 'd) dctl \<Rightarrow> nat \<Rightarrow> string list \<Rightarrow> (('s, 'd) dworld, unit) proc" where
  "wait_for_health C 0 ids = raise StillRunning"
| "wait_for_health C (Suc n) ids =
     bnd (list_containers C (no_filter\<lparr>f_id := ids, f_status := [''created''],
                                       f_network := [network_name C]\<rparr>)) (\<lambda>not_started.
       if not_started \<noteq> [] then andthen (on_dk (docker_sleep (api C))) (wait_for_health C n ids)
       else
         bnd (list_containers C (no_filter\<lparr>f_id := ids, f_health := [''starting'', ''unhealthy''],
                                           f_network := [network_name C]\<rparr>)) (\<lambda>unhealthy.
           if unhealthy = [] then ret ()
           else andthen (on_dk (docker_sleep (api C))) (wait_for_health C n ids)))"

section \<open>Addresses\<close>

text \<open>\<open>container['NetworkSettings']['Networks'][network]['IPAddress']\<close>.\<close>

definition container_ip :: "('s, 'd) dctl \<Rightarrow> cont \<Rightarrow> string res" where
  "container_ip C c =
     (case cont_ips c of
        None \<Rightarrow> Inl KeyError
      | Some ips \<Rightarrow> (case dict_get ips (network_name C) of None \<Rightarrow> Inl KeyError | Some ip \<Rightarrow> Inr ip))"

definition container_url :: "('s, 'd) dctl \<Rightarrow> cont \<Rightarrow> string \<Rightarrow> (('s, 'd) dworld, string) proc" where
  "container_url C c subtype =
     bnd (lift_res (container_ip C c)) (\<lambda>ip. ret (service_url ip (d_service_port (deleg C) subtype)))"

datatype url_arg = UrlDict "(string, cont + string) dict" | UrlCont cont | UrlId string

definition get_container_url :: "('s, 'd) dctl \<Rightarrow> url_arg \<Rightarrow> string \<Rightarrow> (('s, 'd) dworld, string) proc" where
  "get_container_url C arg subtype =
     bnd (case arg of
            UrlCont c \<Rightarrow> ret (Inl c)
          | UrlDict d \<Rightarrow> (case dict_get d subtype of None \<Rightarrow> raise KeyError | Some c \<Rightarrow> ret c)
          | UrlId i \<Rightarrow> ret (Inr i)) (\<lambda>c.
     bnd (case c of Inl c \<Rightarrow> ret c | Inr i \<Rightarrow> load_container C i) (\<lambda>c.
       container_url C c subtype))"

section \<open>Creating and deleting containers\<close>

definition container_base_name :: "string \<Rightarrow> string \<Rightarrow> string" where
  "container_base_name subtype hex =
     str_lower (replace_char (CHR ''_'') (CHR ''-'') subtype) @ ''-'' @ take 8 hex"

definition initial_attrs :: "('s, 'd) dctl \<Rightarrow> string \<Rightarrow> string \<Rightarrow> bool \<Rightarrow> cattrs" where
  "initial_attrs C name subtype exclusive =
     \<lparr>a_name = Some name, a_env = [],
      a_labels = [managed_by, (label_task_name, task_name C), (label_subtype_name, subtype),
                  (label_exclusive, bool_str exclusive)],
      a_image = None, a_auto_remove = True, a_init = True, a_network_mode = network_name C\<rparr>"

text \<open>The image default, the extra environment and the list form of the environment.\<close>

definition final_body ::
    "('s, 'd) dctl \<Rightarrow> string \<Rightarrow> (string, string) dict \<Rightarrow> cattrs \<Rightarrow> create_body res" where
  "final_body C subtype extra_envs a =
     (case (case a_image a of
              Some i \<Rightarrow> Inr i
            | None \<Rightarrow> (case d_container_images (deleg C) of
                         Inl e \<Rightarrow> Inl e
                       | Inr imgs \<Rightarrow> (case dict_get imgs subtype of
                                       None \<Rightarrow> Inl KeyError | Some i \<Rightarrow> Inr i))) of
        Inl e \<Rightarrow> Inl e
      | Inr img \<Rightarrow>
          (let env = fold (\<lambda>(k, v). dict_set k v) extra_envs (a_env a)
           in Inr \<lparr>b_env = map (\<lambda>(k, v). k @ ''='' @ v) env, b_labels = a_labels a,
                   b_image = img, b_auto_remove = a_auto_remove a, b_init = a_init a,
                   b_network_mode = a_network_mode a\<rparr>))"

text \<open>
  One attempt to create; if the image is missing, pull it and create once more. A pull that
  times out raises the first error again.
\<close>

definition create_or_pull :: "('s, 'd) dctl \<Rightarrow> create_body \<Rightarrow> string \<Rightarrow> (('s, 'd) dworld, cont) proc" where
  "create_or_pull C body name =
     (let create = docker_call C False (on_dk (containers_create (api C) body name))
      in catch create (\<lambda>e.
           if e = ApiError 404 then
             andthen
               (catch (docker_call C True (on_dk (images_pull (api C) (b_image body))))
                  (\<lambda>e'. if e' = TimeoutError then raise e else raise e'))
               create
           else raise e))"

definition create_container ::
    "('s, 'd) dctl \<Rightarrow> string \<Rightarrow> (string, string) dict \<Rightarrow> bool option \<Rightarrow> (('s, 'd) dworld, cont) proc" where
  "create_container C subtype extra_envs exclusive_arg =
     (let exclusive = (case exclusive_arg of Some b \<Rightarrow> b
                       | None \<Rightarrow> d_reuse_limit (deleg C) subtype = 1)
      in bnd (\<lambda>w. case uuid4 (duuids w) of (x, u) \<Rightarrow> (Inr x, w\<lparr>duuids := u\<rparr>)) (\<lambda>hex.
         let name = container_base_name subtype hex
         in bnd (d_create_docker_container (deleg C) (initial_attrs C name subtype exclusive) subtype) (\<lambda>a.
            bnd (lift_res (final_body C subtype extra_envs a)) (\<lambda>body.
            bnd (create_or_pull C body (case a_name a of Some n \<Rightarrow> n | None \<Rightarrow> name)) (\<lambda>c.
            andthen (on_dk (container_start (api C) (cont_id c)))
              (bnd (show_container C (cont_id c)) (\<lambda>c'.
                 andthen (modify (\<lambda>w. w\<lparr>tasks := tasks w @ [(subtype, cont_id c')]\<rparr>))
                   (ret c'))))))))"

text \<open>The spawned task: only for a delegation that overrides the hook.\<close>

definition post_create_container :: "('s, 'd) dctl \<Rightarrow> string \<Rightarrow> cont \<Rightarrow> (('s, 'd) dworld, unit) proc" where
  "post_create_container C subtype c =
     (case d_post_create_docker (deleg C) of
        None \<Rightarrow> ret ()
      | Some hook \<Rightarrow>
          andthen (wait_for_health C (loop_fuel C) [cont_id c])
            (bnd (get_container_url C (UrlCont c) subtype) (\<lambda>url. hook subtype (cont_id c) url)))"

text \<open>
  \<open>delete_container\<close> takes a container or an id and follows the dependency label; the fuel
  bounds the depth of dependencies.
\<close>

definition resolve_container ::
    "('s, 'd) dctl \<Rightarrow> cont + string \<Rightarrow> (('s, 'd) dworld, string \<times> cont option) proc" where
  "resolve_container C arg =
     (case arg of
        Inl c \<Rightarrow>
          (if cont_loaded c then ret (cont_id c, Some c)
           else catch (bnd (show_container C (cont_id c)) (\<lambda>c'. ret (cont_id c, Some c')))
                  (\<lambda>_. ret (cont_id c, Some c)))
      | Inr i \<Rightarrow>
          catch (bnd (load_container C i) (\<lambda>c. ret (cont_id c, Some c)))
            (\<lambda>e. case e of ApiError _ \<Rightarrow> ret (i, None) | _ \<Rightarrow> raise e))"

definition dependencies :: "cont option \<Rightarrow> string list" where
  "dependencies c =
     (case c of
        None \<Rightarrow> []
      | Some c \<Rightarrow>
          if \<not> cont_loaded c then []
          else case cont_labels c of
                 None \<Rightarrow> []
               | Some labels \<Rightarrow>
                   (case dict_get labels label_depends_on of
                      None \<Rightarrow> []
                    | Some deps \<Rightarrow> filter (\<lambda>d. d \<noteq> []) (map str_strip (split_on (CHR '','') deps))))"

definition close_shell :: "('s, 'd) dctl \<Rightarrow> string \<Rightarrow> (('s, 'd) dworld, unit) proc" where
  "close_shell C i =
     bnd (gets (\<lambda>w. dict_get (shells w) i)) (\<lambda>stream.
     andthen (modify (\<lambda>w. w\<lparr>shells := dict_del i (shells w)\<rparr>))
       (case stream of
          None \<Rightarrow> ret ()
        | Some x \<Rightarrow> catch (on_dk (exec_close (api C) x)) (\<lambda>_. ret ())))"

fun delete_container :: "('s, 'd) dctl \<Rightarrow> nat \<Rightarrow> cont + string \<Rightarrow> (('s, 'd) dworld, unit) proc" where
  "delete_container C 0 arg = raise StillRunning"
| "delete_container C (Suc n) arg =
     bnd (resolve_container C arg) (\<lambda>(i, c).
     andthen (close_shell C i)
    (andthen (each (\<lambda>dep. delete_container C n (Inr dep)) (dependencies c))
    (andthen (catch (docker_call C False (on_dk (container_delete (api C) i)))
                (\<lambda>e. case e of ApiError _ \<Rightarrow> ret () | TransportError \<Rightarrow> ret () | _ \<Rightarrow> raise e))
       (on_st (remove_container (prov C) i)))))"

section \<open>Sessions\<close>

text \<open>
  What a running \<open>start_session\<close> has gathered: the containers by subtype, the exclusive ones
  among them, and the subtypes that are shared.
\<close>

record alloc_acc =
  allocated :: "(string, cont) dict"
  allocated_exclusive :: "(string, cont) dict"
  non_exclusive :: "string list"

definition start_exclusive ::
    "('s, 'd) dctl \<Rightarrow> bool \<Rightarrow> string \<Rightarrow> string \<Rightarrow> alloc_acc \<Rightarrow> (('s, 'd) dworld, alloc_acc) proc" where
  "start_exclusive C immutable x subtype acc =
     (if wants_exclusive (d_reuse_limit (deleg C) subtype) immutable then
        bnd (create_container C subtype [] (Some True)) (\<lambda>c.
        andthen (on_st (allocate_container (prov C) (cont_id c) x))
          (ret (acc\<lparr>allocated := dict_set subtype c (allocated acc),
                    allocated_exclusive := dict_set subtype c (allocated_exclusive acc)\<rparr>)))
      else ret (acc\<lparr>non_exclusive := non_exclusive acc @ [subtype]\<rparr>))"

text \<open>The scan over the candidates, inside the allocation lock.\<close>

fun select_container ::
    "('s, 'j) provider \<Rightarrow> nat \<Rightarrow> nat \<Rightarrow> cont list \<Rightarrow> ('s, cont option) proc" where
  "select_container P usage_limit concurrency_limit [] = ret None"
| "select_container P usage_limit concurrency_limit (c # cs) =
     bnd (if 0 < usage_limit then
            bnd (container_total_uses P (cont_id c)) (\<lambda>n. ret (usage_limit \<le> n))
          else ret False) (\<lambda>used_up.
       if used_up then select_container P usage_limit concurrency_limit cs
       else
         bnd (if 0 < concurrency_limit then
                bnd (container_current_uses P (cont_id c)) (\<lambda>n. ret (concurrency_limit \<le> n))
              else ret False) (\<lambda>full.
           if full then select_container P usage_limit concurrency_limit cs
           else ret (Some c)))"

definition select_and_allocate ::
    "('s, 'j) provider \<Rightarrow> nat \<Rightarrow> nat \<Rightarrow> string \<Rightarrow> cont list \<Rightarrow> ('s, cont option) proc" where
  "select_and_allocate P usage_limit concurrency_limit x cs =
     bnd (select_container P usage_limit concurrency_limit cs) (\<lambda>sel.
       case sel of
         None \<Rightarrow> ret None
       | Some c \<Rightarrow> andthen (allocate_container P (cont_id c) x) (ret (Some c)))"

text \<open>
  The loop for one shared subtype; it returns the container and the grown candidate list. It runs on its
  own: what other sessions allocate while it waits for a container is not interleaved.
\<close>

fun allocate_shared_loop ::
    "('s, 'd) dctl \<Rightarrow> nat \<Rightarrow> string \<Rightarrow> string \<Rightarrow> cont list \<Rightarrow> (('s, 'd) dworld, cont \<times> cont list) proc" where
  "allocate_shared_loop C 0 x subtype existing = raise StillRunning"
| "allocate_shared_loop C (Suc n) x subtype existing =
     bnd (on_st (with_lock (prov C) (loop_fuel C) (''allocation:'' @ subtype) (Some x) 10
            (select_and_allocate (prov C) (d_reuse_limit (deleg C) subtype)
               (d_concurrency_limit (deleg C) subtype) x existing))) (\<lambda>sel.
       case sel of
         Some c \<Rightarrow> ret (c, existing)
       | None \<Rightarrow> bnd (create_container C subtype [] (Some False)) (\<lambda>c.
                   allocate_shared_loop C n x subtype (existing @ [c])))"

text \<open>
  The candidate lists are shared between the iterations: a subtype that is requested twice finds
  the list that the first round has shuffled and extended.
\<close>

definition start_shared ::
    "('s, 'd) dctl \<Rightarrow> string \<Rightarrow> string \<Rightarrow> alloc_acc \<times> (string, cont list) dict \<Rightarrow>
     (('s, 'd) dworld, alloc_acc \<times> (string, cont list) dict) proc" where
  "start_shared C x subtype st0 =
     (case st0 of (acc, candidates) \<Rightarrow>
        bnd (allocate_shared_loop C (loop_fuel C) x subtype
               (shuffle C (dict_get_or candidates subtype []))) (\<lambda>(c, existing).
          ret (acc\<lparr>allocated := dict_set subtype c (allocated acc)\<rparr>,
               (if subtype \<in> set (dict_keys candidates)
                then dict_set subtype existing candidates else candidates))))"

definition urls_of :: "('s, 'd) dctl \<Rightarrow> (string, cont) dict \<Rightarrow> (('s, 'd) dworld, (string, string) dict) proc" where
  "urls_of C cs =
     collect (\<lambda>subtype. bnd (get_container_url C (UrlDict (dict_map Inl cs)) subtype)
                          (\<lambda>url. ret (subtype, url))) (dict_keys cs)"

definition start_homepage ::
    "('s, 'd) dctl \<Rightarrow> string \<Rightarrow> alloc_acc \<Rightarrow> (('s, 'd) dworld, alloc_acc) proc" where
  "start_homepage C x acc =
     (if d_has_homepage (deleg C) then
        bnd (lift_res (d_homepage_subtype (deleg C))) (\<lambda>subtype.
        bnd (urls_of C (allocated acc)) (\<lambda>urls.
        bnd (lift_res (d_homepage_envs (deleg C) urls)) (\<lambda>envs.
        bnd (create_container C subtype envs (Some True)) (\<lambda>c.
        andthen (on_st (allocate_container (prov C) (cont_id c) x))
          (ret (acc\<lparr>allocated := dict_set subtype c (allocated acc),
                    allocated_exclusive := dict_set subtype c (allocated_exclusive acc)\<rparr>))))))
      else ret acc)"

definition session_data :: "alloc_acc \<Rightarrow> docker_session" where
  "session_data acc =
     \<lparr>sd_containers = dict_map cont_id (allocated acc),
      sd_exclusive = map (\<lambda>(k, c). cont_id c) (allocated_exclusive acc)\<rparr>"

definition docker_start_session ::
    "('s, 'd) dctl \<Rightarrow> string list \<Rightarrow> bool \<Rightarrow>
     (('s, 'd) dworld, string \<times> (string, string) dict \<times> (string, string) dict) proc" where
  "docker_start_session C subtypes immutable =
     (if \<not> list_all (\<lambda>s. s \<in> set (valid_subtypes C)) subtypes then raise AssertionError
      else
        bnd (on_st (generate_session_id (prov C))) (\<lambda>x.
        bnd (fold_proc (start_exclusive C immutable x) subtypes
               \<lparr>allocated = [], allocated_exclusive = [], non_exclusive = []\<rparr>) (\<lambda>acc.
        bnd (if non_exclusive acc \<noteq> [] then identify_containers C (non_exclusive acc)
             else ret []) (\<lambda>candidates.
        bnd (fold_proc (start_shared C x) (non_exclusive acc) (acc, candidates)) (\<lambda>(acc, _).
        bnd (start_homepage C x acc) (\<lambda>acc.
        andthen (on_st (store_session (prov C) x (session_data acc)))
       (andthen (wait_for_health C (loop_fuel C) (map (\<lambda>(k, c). cont_id c) (allocated acc)))
         (bnd (urls_of C (allocated acc)) (\<lambda>urls.
            ret (x, dict_map cont_id (allocated acc), urls)))))))))) "

definition docker_renew_session :: "('s, 'd) dctl \<Rightarrow> string \<Rightarrow> (('s, 'd) dworld, unit) proc" where
  "docker_renew_session C x =
     on_st (andthen (renew_session (prov C) x)
       (bnd (get_session (prov C) x) (\<lambda>session.
          case session of
            None \<Rightarrow> ret ()
          | Some d \<Rightarrow> each (\<lambda>(subtype, c). renew_container (prov C) c x) (sd_containers d))))"

definition shared_of :: "docker_session \<Rightarrow> (string \<times> string) list" where
  "shared_of d = filter (\<lambda>(subtype, c). c \<notin> set (sd_exclusive d)) (sd_containers d)"

definition docker_end_session :: "('s, 'd) dctl \<Rightarrow> string \<Rightarrow> (('s, 'd) dworld, unit) proc" where
  "docker_end_session C x =
     bnd (on_st (get_session (prov C) x)) (\<lambda>session.
     andthen
       (case session of
          None \<Rightarrow> ret ()
        | Some d \<Rightarrow>
            andthen
              (each (\<lambda>(subtype, c).
                 on_st (with_lock (prov C) (loop_fuel C) (''allocation:'' @ subtype) (Some x) 10
                          (release_container (prov C) c x))) (shared_of d))
              (each (\<lambda>c. delete_container C (loop_fuel C) (Inr c)) (sd_exclusive d)))
       (on_st (delete_session (prov C) x)))"

section \<open>Cleaning\<close>

definition exclusive_filter :: "('s, 'd) dctl \<Rightarrow> bool \<Rightarrow> list_filter" where
  "exclusive_filter C b = no_filter\<lparr>
     f_label := [label_eq (fst managed_by) (snd managed_by),
                 label_eq label_task_name (task_name C),
                 label_eq label_exclusive (bool_str b)],
     f_network := [network_name C]\<rparr>"

definition delete_if_free :: "('s, 'd) dctl \<Rightarrow> cont \<Rightarrow> (('s, 'd) dworld, unit) proc" where
  "delete_if_free C c =
     bnd (on_st (container_is_allocated (prov C) (cont_id c))) (\<lambda>busy.
       if busy then ret () else delete_container C (loop_fuel C) (Inl c))"

definition delete_if_spent :: "('s, 'd) dctl \<Rightarrow> nat \<Rightarrow> cont \<Rightarrow> (('s, 'd) dworld, unit) proc" where
  "delete_if_spent C usage_limit c =
     bnd (on_st (container_is_allocated (prov C) (cont_id c))) (\<lambda>busy.
       if busy then ret ()
       else bnd (on_st (container_total_uses (prov C) (cont_id c))) (\<lambda>n.
              if n < usage_limit then ret () else delete_container C (loop_fuel C) (Inl c)))"

definition clean_containers :: "('s, 'd) dctl \<Rightarrow> (('s, 'd) dworld, unit) proc" where
  "clean_containers C =
     bnd (list_containers C (exclusive_filter C True)) (\<lambda>cs.
     andthen (each (delete_if_free C) cs)
    (bnd (list_containers C ((exclusive_filter C False)\<lparr>f_health := [''unhealthy'']\<rparr>)) (\<lambda>cs.
     andthen (each (delete_if_free C) cs)
    (bnd (identify_containers C []) (\<lambda>by_subtype.
       each (\<lambda>(subtype, cs).
         let usage_limit = d_reuse_limit (deleg C) subtype
         in if usage_limit = 0 then ret () else each (delete_if_spent C usage_limit) cs) by_subtype)))))"

text \<open>One turn of the background loop; the pause between turns is the caller's.\<close>

definition background_turn :: "('s, 'd) dctl \<Rightarrow> (('s, 'd) dworld, unit) proc" where
  "background_turn C =
     catch
       (bnd (on_st (acquire_lock (prov C) ''background'' None 120)) (\<lambda>got.
          if got then
            andthen (catch (clean_containers C) (\<lambda>_. ret ()))
              (on_st (release_lock (prov C) ''background'' None))
          else ret ()))
       (\<lambda>_. ret ())"

section \<open>Commands, shells and environment variables\<close>

text \<open>
  A stream delivers messages, each with a stream number and its data, and ends with None. The
  count bounds the messages; where the code puts a time limit on the reading
  (\<open>asyncio.wait_for\<close>), it is the number of messages that arrive in time, and running out is the
  timeout.
\<close>

fun read_output ::
    "('s, 'd) dctl \<Rightarrow> nat \<Rightarrow> nat \<Rightarrow> string \<Rightarrow> string \<Rightarrow> (('s, 'd) dworld, string \<times> string) proc" where
  "read_output C 0 x out err = raise StillRunning"
| "read_output C (Suc n) x out err =
     bnd (on_dk (exec_read (api C) x)) (\<lambda>m.
       case m of
         None \<Rightarrow> ret (out, err)
       | Some (stream, bytes) \<Rightarrow>
           if stream = 1 then read_output C n x (out @ bytes) err
           else if stream = 2 then read_output C n x out (err @ bytes)
           else read_output C n x out err)"

definition docker_execute_command ::
    "('s, 'd) dctl \<Rightarrow> string \<Rightarrow> string list \<Rightarrow> (('s, 'd) dworld, int \<times> string \<times> string) proc" where
  "docker_execute_command C i command =
     bnd (docker_call C False (on_dk (exec_create (api C) i command False))) (\<lambda>x.
     bnd (read_output C (loop_fuel C) x [] []) (\<lambda>(out, err).
     bnd (on_dk (exec_exit_code (api C) x)) (\<lambda>code.
       ret (case code of None \<Rightarrow> 0 | Some n \<Rightarrow> n, out, err))))"

fun wait_for_prompt :: "('s, 'd) dctl \<Rightarrow> nat \<Rightarrow> nat \<Rightarrow> (('s, 'd) dworld, unit) proc" where
  "wait_for_prompt C 0 x = raise TimeoutError"
| "wait_for_prompt C (Suc n) x =
     bnd (on_dk (exec_read (api C) x)) (\<lambda>m.
       case m of
         None \<Rightarrow> ret ()
       | Some (stream, bytes) \<Rightarrow>
           if prompt_search (api C) bytes then ret () else wait_for_prompt C n x)"

text \<open>The stream is recorded before the prompt is awaited.\<close>

definition docker_create_shell ::
    "('s, 'd) dctl \<Rightarrow> nat \<Rightarrow> string \<Rightarrow> string list \<Rightarrow> (('s, 'd) dworld, unit) proc" where
  "docker_create_shell C in_time i shell =
     bnd (docker_call C False (on_dk (exec_create (api C) i shell True))) (\<lambda>x.
     andthen (modify (\<lambda>w. w\<lparr>shells := dict_set i x (shells w)\<rparr>))
       (wait_for_prompt C in_time x))"

fun read_until_prompt ::
    "('s, 'd) dctl \<Rightarrow> nat \<Rightarrow> nat \<Rightarrow> bool \<Rightarrow> string \<Rightarrow> (('s, 'd) dworld, string) proc" where
  "read_until_prompt C 0 x ignored_first data = raise TimeoutError"
| "read_until_prompt C (Suc n) x ignored_first data =
     bnd (on_dk (exec_read (api C) x)) (\<lambda>m.
       case m of
         None \<Rightarrow> ret data
       | Some (stream, bytes) \<Rightarrow>
           (let data' = (if ignored_first then data @ bytes else data)
            in if prompt_search (api C) bytes then ret data'
               else read_until_prompt C n x True data'))"

definition docker_execute_shell ::
    "('s, 'd) dctl \<Rightarrow> nat \<Rightarrow> nat \<Rightarrow> string \<Rightarrow> string \<Rightarrow> (('s, 'd) dworld, string) proc" where
  "docker_execute_shell C prompt_in_time in_time i command =
     andthen
       (bnd (gets (\<lambda>w. i \<in> set (dict_keys (shells w)))) (\<lambda>open_shell.
          if open_shell then ret ()
          else docker_create_shell C prompt_in_time i [''/bin/bash'', ''--login'']))
       (bnd (gets (\<lambda>w. dict_get (shells w) i)) (\<lambda>stream.
          case stream of
            None \<Rightarrow> raise KeyError
          | Some x \<Rightarrow>
              andthen (on_dk (exec_write (api C) x (command @ [CHR 0x0A])))
                (read_until_prompt C in_time x False [])))"

text \<open>\<open>key, value = env.split('=', 1)\<close>.\<close>

fun split_once :: "char \<Rightarrow> string \<Rightarrow> (string \<times> string) option" where
  "split_once c [] = None"
| "split_once c (x # xs) =
     (if x = c then Some ([], xs) else map_option (\<lambda>(a, b). (x # a, b)) (split_once c xs))"

fun parse_env :: "string list \<Rightarrow> (string, string) dict \<Rightarrow> (string, string) dict res" where
  "parse_env [] acc = Inr acc"
| "parse_env (e # es) acc =
     (case split_once (CHR ''='') e of
        None \<Rightarrow> Inl ValueError
      | Some (k, v) \<Rightarrow> parse_env es (dict_set k v acc))"

definition docker_get_env_variables ::
    "('s, 'd) dctl \<Rightarrow> string \<Rightarrow> (('s, 'd) dworld, (string, string) dict) proc" where
  "docker_get_env_variables C i =
     bnd (load_container C i) (\<lambda>c.
       if \<not> cont_loaded c then ret []
       else case cont_env c of
              None \<Rightarrow> ret []
            | Some env \<Rightarrow> if env = [] then ret [] else lift_res (parse_env env []))"

end
