(* ===== verification/Docker_Proofs.thy ===== *)
theory Docker_Proofs
  imports Docker_Controller State_Local
begin

text \<open>
  Correctness of the Docker controller: the selection of a shared container, the retry rule, the
  session round trip, and the safety of the cleaning task.
\<close>

section \<open>Selection and admission\<close>

definition admits :: "'j registry \<Rightarrow> nat \<Rightarrow> nat \<Rightarrow> cont \<Rightarrow> bool" where
  "admits r usage_limit concurrency_limit c \<longleftrightarrow>
     admissible usage_limit concurrency_limit (r_uses r (cont_id c)) (card (r_alloc r (cont_id c)))"

context container_registry
begin

lemma select_finds:
  assumes "ok s" and "\<forall>c \<in> set cs. valid (cont_id c)"
  shows "wp (select_container P u k cs)
           (\<lambda>r t. r = find (admits (abs s) u k) cs \<and> ok t \<and> abs t = abs s \<and> (\<forall>y. live s y \<longrightarrow> live t y))
           (\<lambda>_ _. False) s"
  using assms
proof (induction cs arbitrary: s)
  case Nil
  then show ?case by simp
next
  case (Cons c cs)
  have rest: "wp (select_container P u k cs)
      (\<lambda>r v. r = find (admits (abs s) u k) cs \<and> ok v \<and> abs v = abs s \<and> (\<forall>y. live s y \<longrightarrow> live v y))
      (\<lambda>_ _. False) t" if "ok t" "abs t = abs s" "\<And>y. live s y \<Longrightarrow> live t y" for t
    using Cons.IH [OF that(1)] Cons.prems(2) that
    by (auto intro!: wp_mono [OF Cons.IH [OF that(1)]])
  let ?a = "admits (abs s) u k c"
  have yes: "?a" if "\<not> (0 < u \<and> u \<le> r_uses (abs s) (cont_id c))"
      "\<not> (0 < k \<and> k \<le> card (r_alloc (abs s) (cont_id c)))"
    using that by (simp add: admits_def admissible_def)
  have no: "\<not> ?a" if "(0 < u \<and> u \<le> r_uses (abs s) (cont_id c)) \<or>
      (0 < k \<and> k \<le> card (r_alloc (abs s) (cont_id c)))"
    using that by (auto simp: admits_def admissible_def)
  have scan: "wp (if 0 < k then bnd (container_current_uses P (cont_id c)) (\<lambda>n. ret (k \<le> n))
                  else ret False)
      (\<lambda>full. wp (if full then select_container P u k cs else ret (Some c))
        (\<lambda>r v. r = find (admits (abs s) u k) (c # cs) \<and> ok v \<and> abs v = abs s \<and>
               (\<forall>y. live s y \<longrightarrow> live v y)) (\<lambda>_ _. False)) (\<lambda>_ _. False) t"
    if t: "ok t" "abs t = abs s" "\<And>y. live s y \<Longrightarrow> live t y"
      and u: "\<not> (0 < u \<and> u \<le> r_uses (abs s) (cont_id c))" for t
  proof (cases "0 < k")
    case True
    have "wp (container_current_uses P (cont_id c))
       (\<lambda>n v. n = card (r_alloc (abs t) (cont_id c)) \<and> ok v \<and> abs v = abs t \<and>
              (\<forall>y. live t y \<longrightarrow> live v y)) (\<lambda>_ _. False) t"
      by (rule current_uses) (use t Cons.prems in auto)
    then show ?thesis
      using True t yes [OF u] no
      by (cases ?a) (auto elim!: wp_mono intro!: rest)
  next
    case False
    then show ?thesis using t yes [OF u] by auto
  qed
  show ?case
  proof (cases "0 < u")
    case True
    have "wp (container_total_uses P (cont_id c))
       (\<lambda>n v. n = r_uses (abs s) (cont_id c) \<and> ok v \<and> abs v = abs s \<and>
              (\<forall>y. live s y \<longrightarrow> live v y)) (\<lambda>_ _. False) s"
      by (rule total_uses) (use Cons.prems in auto)
    moreover have na_used: "\<not> ?a" if "u \<le> r_uses (abs s) (cont_id c)" using that True no by simp
    ultimately show ?thesis
      unfolding select_container.simps wp_bnd
    proof (cases "u \<le> r_uses (abs s) (cont_id c)")
      case used: True
      assume tot: "wp (container_total_uses P (cont_id c))
       (\<lambda>n v. n = r_uses (abs s) (cont_id c) \<and> ok v \<and> abs v = abs s \<and>
              (\<forall>y. live s y \<longrightarrow> live v y)) (\<lambda>_ _. False) s"
      show "wp (if 0 < u then bnd (container_total_uses P (cont_id c)) (\<lambda>n. ret (u \<le> n)) else ret False)
         (\<lambda>x. wp (if x then select_container P u k cs else
            bnd (if 0 < k then bnd (container_current_uses P (cont_id c)) (\<lambda>n. ret (k \<le> n)) else ret False)
              (\<lambda>full. if full then select_container P u k cs else ret (Some c)))
            (\<lambda>r t. r = find (admits (abs s) u k) (c # cs) \<and> ok t \<and> abs t = abs s \<and>
               (\<forall>y. live s y \<longrightarrow> live t y)) (\<lambda>_ _. False)) (\<lambda>_ _. False) s"
        unfolding if_P [OF True] wp_bnd wp_ret
        by (rule wp_mono [OF tot])
           (use used na_used [OF used] rest in \<open>auto split del: if_split\<close>)
    next
      case False
      assume tot: "wp (container_total_uses P (cont_id c))
       (\<lambda>n v. n = r_uses (abs s) (cont_id c) \<and> ok v \<and> abs v = abs s \<and>
              (\<forall>y. live s y \<longrightarrow> live v y)) (\<lambda>_ _. False) s"
      show "wp (if 0 < u then bnd (container_total_uses P (cont_id c)) (\<lambda>n. ret (u \<le> n)) else ret False)
         (\<lambda>x. wp (if x then select_container P u k cs else
            bnd (if 0 < k then bnd (container_current_uses P (cont_id c)) (\<lambda>n. ret (k \<le> n)) else ret False)
              (\<lambda>full. if full then select_container P u k cs else ret (Some c)))
            (\<lambda>r t. r = find (admits (abs s) u k) (c # cs) \<and> ok t \<and> abs t = abs s \<and>
               (\<forall>y. live s y \<longrightarrow> live t y)) (\<lambda>_ _. False)) (\<lambda>_ _. False) s"
        unfolding if_P [OF True] wp_bnd [of _ "\<lambda>n. ret (u \<le> n)"] wp_ret
        by (rule wp_mono [OF tot])
           (use False scan in \<open>auto simp del: wp_if find.simps split del: if_split\<close>)
    qed
  next
    case False
    have eq: "select_container P u k (c # cs) =
        bnd (if 0 < k then bnd (container_current_uses P (cont_id c)) (\<lambda>n. ret (k \<le> n)) else ret False)
          (\<lambda>full. if full then select_container P u k cs else ret (Some c))"
      by (simp only: select_container.simps if_not_P [OF False] bnd_ret_left if_False)
    show ?thesis unfolding eq wp_bnd [of "if 0 < k then _ else _"]
      by (rule scan) (use Cons.prems False in auto)
  qed
qed

text \<open>Taking the selected container: the registry sees one allocation, within the limits.\<close>

lemma select_and_allocate_spec:
  assumes "ok s" and "\<forall>c \<in> set cs. valid (cont_id c)" and "live s x"
  shows "wp (select_and_allocate P u k x cs)
           (\<lambda>r t. r = find (admits (abs s) u k) cs \<and> ok t \<and>
              abs t = (case r of None \<Rightarrow> abs s | Some c \<Rightarrow> reg_allocate (cont_id c) x (abs s)) \<and>
              (\<forall>y. live s y \<longrightarrow> live t y))
           (\<lambda>_ _. False) s"
  unfolding select_and_allocate_def wp_bnd
proof (rule wp_mono [OF select_finds [OF assms(1,2)]])
  fix r t assume r: "r = find (admits (abs s) u k) cs \<and> ok t \<and> abs t = abs s \<and> (\<forall>y. live s y \<longrightarrow> live t y)"
  then have "valid (cont_id c)" if "r = Some c" for c
    using that assms(2) by (metis find_Some_iff nth_mem)
  with r assms(3) show "wp (case r of None \<Rightarrow> ret None | Some c \<Rightarrow>
      andthen (allocate_container P (cont_id c) x) (ret (Some c)))
      (\<lambda>r t. r = find (admits (abs s) u k) cs \<and> ok t \<and>
         abs t = (case r of None \<Rightarrow> abs s | Some c \<Rightarrow> reg_allocate (cont_id c) x (abs s)) \<and>
         (\<forall>y. live s y \<longrightarrow> live t y)) (\<lambda>_ _. False) t"
    by (auto split: option.split intro!: wp_allocate)
qed simp

end

text \<open>An admitted allocation keeps every container within the two limits.\<close>

definition within_limits :: "nat \<Rightarrow> nat \<Rightarrow> string set \<Rightarrow> 'j registry \<Rightarrow> bool" where
  "within_limits u k ids r \<longleftrightarrow>
     (\<forall>c \<in> ids. (0 < u \<longrightarrow> r_uses r c \<le> u) \<and> (0 < k \<longrightarrow> card (r_alloc r c) \<le> k))"

lemma within_limits_allocate:
  assumes "within_limits u k ids r" and "admits r u k c" and "\<And>c. finite (r_alloc r c)"
  shows "within_limits u k ids (reg_allocate (cont_id c) x r)"
  using assms admissible_current [of u k] admissible_total [of u k]
  by (auto simp: within_limits_def admits_def card_insert_if)

section \<open>The world and the shared state\<close>

text \<open>
  The daemon's calls and the controller's bookkeeping do not touch the shared state: a predicate
  on the shared state survives them, whatever they return or raise.
\<close>

lemma keeps_on_dk: "I (st w) \<Longrightarrow> wp (on_dk m) (\<lambda>_ w. I (st w)) (\<lambda>_ w. I (st w)) w"
  by (simp add: on_dk_def) (rule wp_any; simp)

lemma on_dk_result:
  assumes "I (st w)" and "\<And>d. wp m (\<lambda>x _. G x) (\<lambda>_ _. True) d"
  shows "wp (on_dk m) (\<lambda>x w. I (st w) \<and> G x) (\<lambda>_ w. I (st w)) w"
  using assms(2) [of "dk w"] assms(1) by (auto simp: on_dk_def elim!: wp_mono)

lemma wp_on_st:
  "wp (on_st m) Q E = (\<lambda>w. wp m (\<lambda>x s. Q x (w\<lparr>st := s\<rparr>)) (\<lambda>e s. E e (w\<lparr>st := s\<rparr>)) (st w))"
  by (simp add: on_st_def)

lemma keeps_get_client: "wp docker_get_client Q E w = Q () (snd (docker_get_client w))"
  by (simp add: docker_get_client_def modify_def wp_def)

lemma st_get_client [simp]: "st (snd (docker_get_client w)) = st w"
  by (simp add: docker_get_client_def modify_def)

lemma keeps_reset_client:
  assumes "I (st w)"
  shows "wp (docker_reset_client C) (\<lambda>_ w. I (st w)) (\<lambda>_ w. I (st w)) w"
proof -
  have "wp (each (\<lambda>x. catch (on_dk (exec_close (api C) x)) (\<lambda>_. ret ())) streams)
      (\<lambda>_ w. I (st w)) (\<lambda>_ w. I (st w)) v" if "I (st v)" for streams v
    by (rule wp_each [where P = "\<lambda>w. I (st w)", OF that])
       (auto intro!: wp_mono [OF keeps_on_dk [where I = I]])
  then show ?thesis using assms by (auto simp: docker_reset_client_def elim!: wp_mono)
qed

lemma attempts_result:
  assumes "I (st w)"
    and op: "\<And>w. I (st w) \<Longrightarrow> wp m (\<lambda>x w. I (st w) \<and> G x) (\<lambda>_ w. I (st w)) w"
  shows "wp (docker_attempts C n m) (\<lambda>x w. I (st w) \<and> G x) (\<lambda>_ w. I (st w)) w"
  using assms(1)
proof (induction n arbitrary: w)
  case 0
  then show ?case by simp
next
  case (Suc n)
  have again: "wp (docker_reset_client C)
      (\<lambda>_. wp (docker_attempts C n m) (\<lambda>x w. I (st w) \<and> G x) (\<lambda>_ w. I (st w)))
      (\<lambda>_ w. I (st w)) v" if "I (st v)" for v
    by (rule wp_mono [OF keeps_reset_client [where I = I, OF that]]) (auto intro: Suc.IH)
  show ?case
    unfolding docker_attempts.simps wp_andthen keeps_get_client wp_catch
    by (rule wp_mono [OF op]) (auto simp: Suc.prems intro: again)
qed

lemma call_result:
  assumes "I (st w)" and "\<And>d. wp m (\<lambda>x _. G x) (\<lambda>_ _. True) d"
  shows "wp (docker_call C retry (on_dk m)) (\<lambda>x w. I (st w) \<and> G x) (\<lambda>_ w. I (st w)) w"
  unfolding docker_call_def by (rule attempts_result) (auto intro: assms on_dk_result)

lemma keeps_close_shell:
  assumes "I (st w)" shows "wp (close_shell C i) (\<lambda>_ w. I (st w)) (\<lambda>_ w. I (st w)) w"
  using assms by (auto simp: close_shell_def split: option.split intro!: wp_mono [OF keeps_on_dk [where I = I]])

lemma dependencies_id [simp]: "dependencies (Some (c\<lparr>cont_id := i\<rparr>)) = dependencies (Some c)"
  by (simp add: dependencies_def)

section \<open>What deleting and cleaning take away\<close>

text \<open>
  The provider, the container ids it is given, and the ids \<open>D\<close> that the daemon ever reports
  as dependencies of a container: these are deleted with it, whether a session holds them or not.
\<close>

locale docker_setting = container_registry P ok valid live abs
    for P :: "('s, docker_session) provider" and ok valid live abs +
  fixes C :: "('s, 'd) dctl" and D :: "string set"
  assumes prov: "prov C = P"
    and listed: "wp (containers_list (api C) f)
      (\<lambda>cs _. \<forall>c \<in> set cs. valid (cont_id c) \<and> set (dependencies (Some c)) \<subseteq> D) (\<lambda>_ _. True) d"
    and shown: "wp (container_show (api C) i)
      (\<lambda>c _. set (dependencies (Some c)) \<subseteq> D) (\<lambda>_ _. True) d"
    and deps_valid: "i \<in> D \<Longrightarrow> valid i"
begin

definition spared ::
    "(string \<Rightarrow> string set) \<Rightarrow> (string \<Rightarrow> docker_session option) \<Rightarrow> 's \<Rightarrow> bool" where
  "spared A S s \<longleftrightarrow> ok s \<and> r_sess (abs s) = S \<and>
     (\<forall>i. r_alloc (abs s) i = A i \<or> (i \<in> D \<and> r_alloc (abs s) i = {}))"

lemma spared_dependency: "i \<in> D \<Longrightarrow> spared (A(i := {})) S s \<Longrightarrow> spared A S s"
  by (auto simp: spared_def split: if_splits)

definition good :: "cont \<Rightarrow> bool" where
  "good c \<longleftrightarrow> valid (cont_id c) \<and> set (dependencies (Some c)) \<subseteq> D"

lemma show_result:
  assumes "I (st w)"
  shows "wp (show_container C i)
     (\<lambda>c w. I (st w) \<and> cont_id c = i \<and> set (dependencies (Some c)) \<subseteq> D) (\<lambda>_ w. I (st w)) w"
  unfolding show_container_def wp_bnd
  by (rule wp_mono [OF on_dk_result [where I = I, OF assms shown]]) auto

lemma load_result:
  assumes "I (st w)"
  shows "wp (load_container C i)
     (\<lambda>c w. I (st w) \<and> cont_id c = i \<and> set (dependencies (Some c)) \<subseteq> D) (\<lambda>_ w. I (st w)) w"
  unfolding load_container_def docker_call_def
  by (rule attempts_result [where I = I, OF assms]) (rule show_result)

lemma resolve_result:
  assumes "I (st w)" and "\<And>c. arg = Inl c \<Longrightarrow> set (dependencies (Some c)) \<subseteq> D"
  shows "wp (resolve_container C arg)
     (\<lambda>(i, c) w. I (st w) \<and> i = (case arg of Inl c \<Rightarrow> cont_id c | Inr i \<Rightarrow> i) \<and>
                set (dependencies c) \<subseteq> D) (\<lambda>_ w. I (st w)) w"
proof (cases arg)
  case (Inl c)
  show ?thesis
    unfolding resolve_container_def Inl
    using assms Inl by (auto intro!: wp_mono [OF show_result [where I = I]])
next
  case (Inr i)
  have "wp (case e of ApiError _ \<Rightarrow> ret (i, None) | _ \<Rightarrow> raise e)
      (\<lambda>(i', c) w. I (st w) \<and> i' = i \<and> set (dependencies c) \<subseteq> D) (\<lambda>_ w. I (st w)) v"
    if "I (st v)" for e v
    using that by (auto simp: dependencies_def split: py_error.split)
  then show ?thesis
    unfolding resolve_container_def Inr
    using assms by (auto intro!: wp_mono [OF load_result [where I = I]])
qed

text \<open>
  Deleting a container drops its allocations and, among the others, at most those of dependencies; if
  the deletion raises, only those.
\<close>

lemma delete_removes:
  assumes "spared A S (st w)"
    and arg: "case arg of Inl c \<Rightarrow> good c | Inr i \<Rightarrow> valid i"
  shows "wp (delete_container C n arg)
     (\<lambda>_ w. spared (A((case arg of Inl c \<Rightarrow> cont_id c | Inr i \<Rightarrow> i) := {})) S (st w))
     (\<lambda>_ w. spared A S (st w)) w"
  using assms
proof (induction n arbitrary: arg w)
  case 0
  then show ?case by simp
next
  case (Suc n)
  let ?K = "\<lambda>w :: ('s, 'd) dworld. spared A S (st w)"
  let ?i = "case arg of Inl c \<Rightarrow> cont_id c | Inr i \<Rightarrow> i"
  let ?R = "\<lambda>w :: ('s, 'd) dworld. spared (A(?i := {})) S (st w)"
  have i: "valid ?i" using Suc.prems(2) by (auto simp: good_def split: sum.splits)
  have rem: "wp (on_st (remove_container P ?i)) (\<lambda>_. ?R) (\<lambda>_. ?K) v" if "?K v" for v
    unfolding wp_on_st
    by (rule wp_remove [OF _ i]) (use that in \<open>auto simp: spared_def reg_remove_def split del: sum.split\<close>)
  have del: "wp (catch (docker_call C False (on_dk (container_delete (api C) ?i)))
        (\<lambda>e. case e of ApiError _ \<Rightarrow> ret () | TransportError \<Rightarrow> ret () | _ \<Rightarrow> raise e))
      (\<lambda>_. wp (on_st (remove_container P ?i)) (\<lambda>_. ?R) (\<lambda>_. ?K)) (\<lambda>_. ?K) v" if "?K v" for v
    unfolding wp_catch
    by (rule wp_mono [OF call_result [where I = "spared A S" and G = "\<lambda>_. True"]])
       (auto simp: that rem intro!: wp_any split: py_error.split)
  have one: "wp (delete_container C n (Inr dep)) (\<lambda>_. ?K) (\<lambda>_. ?K) v"
    if "?K v" "dep \<in> D" for dep v
    by (rule wp_mono [OF Suc.IH [OF that(1), of "Inr dep", unfolded sum.case]])
      (rule deps_valid [OF that(2)], erule spared_dependency [OF that(2)])
  have deps: "wp (each (\<lambda>dep. delete_container C n (Inr dep)) ds) (\<lambda>_. ?K) (\<lambda>_. ?K) v"
    if "?K v" "set ds \<subseteq> D" for ds v
    by (rule wp_each [where P = ?K, OF that(1)]) (use that(2) in \<open>auto intro!: one\<close>)
  show ?case
    unfolding delete_container.simps wp_bnd prov
    apply (rule wp_mono [OF resolve_result [where I = "spared A S", OF Suc.prems(1)]])
    subgoal for c using Suc.prems(2) by (simp add: good_def)
    subgoal for r v
      apply (cases r)
      apply (simp only: prod.case wp_andthen)
      apply (elim conjE)
      apply (rule wp_mono [OF keeps_close_shell [where I = "spared A S"]], assumption)
       apply (rule wp_mono [OF deps], assumption+)
        apply (rule del, assumption+)
      done
    by assumption
qed

text \<open>Deleting a container that no session holds takes nothing but from dependencies.\<close>

lemma delete_spares:
  assumes "spared A S (st w)" and "r_alloc (abs (st w)) (cont_id c) = {}" and "good c"
  shows "wp (delete_container C n (Inl c)) (\<lambda>_ w. spared A S (st w)) (\<lambda>_ w. spared A S (st w)) w"
proof -
  have "cont_id c \<in> D \<or> A(cont_id c := {}) = A"
    using assms(1,2) by (auto simp: spared_def fun_eq_iff)
  then have "spared (A(cont_id c := {})) S s \<Longrightarrow> spared A S s" for s
    using spared_dependency by auto
  then show ?thesis
    using assms(3) by (intro wp_mono [OF delete_removes [OF assms(1), of "Inl c" n]]) auto
qed

lemma delete_if_free_spares:
  assumes "spared A S (st w)" and "good c"
  shows "wp (delete_if_free C c) (\<lambda>_ w. spared A S (st w)) (\<lambda>_ w. spared A S (st w)) w"
proof -
  have v: "ok (st w)" "valid (cont_id c)" using assms by (simp_all add: spared_def good_def)
  have "wp (if b then ret () else delete_container C (loop_fuel C) (Inl c))
      (\<lambda>_ w. spared A S (st w)) (\<lambda>_ w. spared A S (st w)) (w\<lparr>st := t\<rparr>)"
    if "b = (r_alloc (abs (st w)) (cont_id c) \<noteq> {})" "ok t" "abs t = abs (st w)" for b t
  proof -
    have "spared A S t" using that assms(1) by (simp add: spared_def)
    then show ?thesis using that assms(2) delete_spares [of A S "w\<lparr>st := t\<rparr>" c] by simp
  qed
  then show ?thesis
    unfolding delete_if_free_def wp_bnd wp_on_st prov
    by (intro wp_is_allocated [OF v]) blast
qed

lemma delete_if_spent_spares:
  assumes "spared A S (st w)" and "good c"
  shows "wp (delete_if_spent C u c) (\<lambda>_ w. spared A S (st w)) (\<lambda>_ w. spared A S (st w)) w"
proof -
  have v: "ok (st w)" "valid (cont_id c)" using assms by (simp_all add: spared_def good_def)
  let ?K = "\<lambda>w :: ('s, 'd) dworld. spared A S (st w)"
  have deleted: "wp (if n < u then ret () else delete_container C (loop_fuel C) (Inl c))
      (\<lambda>_. ?K) (\<lambda>_. ?K) (w\<lparr>st := t\<rparr>)"
    if "r_alloc (abs (st w)) (cont_id c) = {}" "ok t" "abs t = abs (st w)" for n t
  proof -
    have "spared A S t" using that assms(1) by (simp add: spared_def)
    then show ?thesis using that assms(2) delete_spares [of A S "w\<lparr>st := t\<rparr>" c] by simp
  qed
  have "wp (if b then ret () else bnd (on_st (container_total_uses P (cont_id c)))
        (\<lambda>n. if n < u then ret () else delete_container C (loop_fuel C) (Inl c)))
      (\<lambda>_. ?K) (\<lambda>_. ?K) (w\<lparr>st := t\<rparr>)"
    if b: "b = (r_alloc (abs (st w)) (cont_id c) \<noteq> {})" and t: "ok t" "abs t = abs (st w)" for b t
  proof (cases b)
    case True
    then show ?thesis using t assms(1) by (simp add: spared_def)
  next
    case False
    have "wp (on_st (container_total_uses P (cont_id c)))
        (\<lambda>n. wp (if n < u then ret () else delete_container C (loop_fuel C) (Inl c)) (\<lambda>_. ?K) (\<lambda>_. ?K))
        (\<lambda>_. ?K) (w\<lparr>st := t\<rparr>)"
      unfolding wp_on_st
    proof (rule wp_total_uses)
      fix t' assume t': "ok t'" "abs t' = abs (st (w\<lparr>st := t\<rparr>))"
      show "wp (if r_uses (abs (st (w\<lparr>st := t\<rparr>))) (cont_id c) < u then ret () else delete_container C (loop_fuel C) (Inl c))
          (\<lambda>_. ?K) (\<lambda>_. ?K) ((w\<lparr>st := t\<rparr>)\<lparr>st := t'\<rparr>)"
        using deleted [where t = t' and n = "r_uses (abs (st w)) (cont_id c)"] t t' False b by simp
    qed (use t v in simp_all)
    then show ?thesis using False by simp
  qed
  then show ?thesis
    unfolding delete_if_spent_def wp_bnd [of "on_st (container_is_allocated _ _)"] wp_on_st [of "container_is_allocated _ _"] prov
    by (intro wp_is_allocated [OF v]) blast
qed

lemma list_result:
  assumes "I (st w)"
  shows "wp (list_containers C f) (\<lambda>cs w. I (st w) \<and> (\<forall>c \<in> set cs. good c)) (\<lambda>_ w. I (st w)) w"
  unfolding list_containers_def
  by (rule call_result [where I = I]) (use assms listed in \<open>auto simp: good_def\<close>)

lemma fold_dict_set_values:
  "(k, v) \<in> set (fold (\<lambda>(k, v). dict_set k v) kvs d) \<Longrightarrow> (k, v) \<in> set kvs \<or> (k, v) \<in> set d"
proof (induction kvs arbitrary: d)
  case (Cons kv kvs)
  obtain k' v' where kv: "kv = (k', v')" by (cases kv)
  have "(k, v) \<in> set (dict_set k' v' d) \<Longrightarrow> (k, v) = (k', v') \<or> (k, v) \<in> set d"
    by (rule set_dict_set)
  with Cons kv show ?case by fastforce
qed simp

lemma identify_result:
  assumes "I (st w)"
  shows "wp (identify_containers C subtypes)
     (\<lambda>d w. I (st w) \<and> (\<forall>(k, cs) \<in> set d. \<forall>c \<in> set cs. good c)) (\<lambda>_ w. I (st w)) w"
  unfolding identify_containers_def wp_bnd
  apply (rule wp_mono [OF wp_collect [where P = "\<lambda>w. I (st w)" and
            R = "\<lambda>(k, cs). \<forall>c \<in> set cs. good c"]])
     apply (rule assms)
    apply (simp only: wp_bnd wp_ret)
    apply (rule wp_mono [OF list_result [where I = I]], assumption, simp, assumption)
   apply (auto dest!: fold_dict_set_values)
  done

theorem clean_keeps:
  assumes "spared A S (st w)"
  shows "wp (clean_containers C) (\<lambda>_ w. spared A S (st w)) (\<lambda>_ w. spared A S (st w)) w"
proof -
  let ?K = "\<lambda>w :: ('s, 'd) dworld. spared A S (st w)"
  have loop: "wp (each (delete_if_free C) cs) (\<lambda>_. ?K) (\<lambda>_. ?K) v"
    if "?K v" "\<forall>c \<in> set cs. good c" for cs v
    by (rule wp_each [where P = ?K, OF that(1)]) (use that(2) in \<open>auto intro: delete_if_free_spares\<close>)
  have spent: "wp (each (\<lambda>(subtype, cs).
         let usage_limit = d_reuse_limit (deleg C) subtype
         in if usage_limit = 0 then ret () else each (delete_if_spent C usage_limit) cs) d)
      (\<lambda>_. ?K) (\<lambda>_. ?K) v"
    if "?K v" "\<forall>(k, cs) \<in> set d. \<forall>c \<in> set cs. good c" for d v
  proof (rule wp_each [where P = ?K, OF that(1)])
    fix x t assume x: "x \<in> set d" and t: "?K t"
    obtain k cs where kcs: "x = (k, cs)" by (cases x)
    have cs: "\<forall>c \<in> set cs. good c" using that(2) x kcs by blast
    have "wp (each (delete_if_spent C u) cs) (\<lambda>_. ?K) (\<lambda>_. ?K) t" for u
      by (rule wp_each [where P = ?K, OF t]) (use cs in \<open>auto intro: delete_if_spent_spares\<close>)
    with t kcs show "wp (case x of (subtype, cs) \<Rightarrow>
         let usage_limit = d_reuse_limit (deleg C) subtype
         in if usage_limit = 0 then ret () else each (delete_if_spent C usage_limit) cs)
      (\<lambda>_. ?K) (\<lambda>_. ?K) t"
      by (simp add: Let_def)
  qed
  show ?thesis
    unfolding clean_containers_def wp_bnd wp_andthen
    apply (rule wp_mono [OF list_result [where I = "spared A S", OF assms]])
     apply (rule wp_mono [OF loop], blast, blast)
      apply (rule wp_mono [OF list_result [where I = "spared A S"]], assumption)
       apply (rule wp_mono [OF loop], blast, blast)
        apply (rule wp_mono [OF identify_result [where I = "spared A S"]], assumption)
         apply (rule spent; blast)
        apply assumption+
    done
qed

end

end
