(* ===== verification/Docker_Sessions.thy ===== *)
theory Docker_Sessions
  imports Docker_Proofs
begin

text \<open>
  Properties of the Docker controller: cleaning, on every provider that keeps the contract, and, on
  the in-memory provider, admission to shared containers, the allocation loop and the end of a session;
  and the retry rule. An operation runs here on its own: what other sessions do while it waits for
  the daemon is not interleaved with it. The witnesses run the controller on a small in-memory daemon.
\<close>

section \<open>An in-memory daemon\<close>

text \<open>
  The containers of the daemon: id, subtype, exclusive. It fills in the labels that
  \<open>initial_attrs\<close> asks for; images are always present and containers healthy at once.
\<close>

type_synonym mem_daemon = "(string \<times> string \<times> bool) list"

fun mem_cont :: "string \<times> string \<times> bool \<Rightarrow> cont" where
  "mem_cont (i, subtype, exclusive) =
     \<lparr>cont_id = i, cont_loaded = True,
      cont_labels = Some [managed_by, (label_subtype_name, subtype), (label_exclusive, bool_str exclusive)],
      cont_ips = Some [(''agentrl'', ''10.0.0.1'')], cont_env = Some []\<rparr>"

definition mem_matches :: "list_filter \<Rightarrow> string \<times> string \<times> bool \<Rightarrow> bool" where
  "mem_matches f c \<longleftrightarrow>
     (case c of (i, subtype, exclusive) \<Rightarrow>
        (f_id f = [] \<or> i \<in> set (f_id f)) \<and>
        (label_eq label_subtype_name subtype \<in> set (f_label f) \<or>
           (\<forall>l \<in> set (f_label f). \<not> prefix label_subtype_name l)) \<and>
        (label_eq label_exclusive (bool_str exclusive) \<in> set (f_label f) \<or>
           (\<forall>l \<in> set (f_label f). \<not> prefix label_exclusive l)) \<and>
        f_status f \<noteq> [''created''] \<and> hd (f_health f @ [[]]) \<noteq> ''unhealthy'' \<and>
        f_health f \<noteq> [''starting'', ''unhealthy''])"

definition mem_api :: "mem_daemon docker_api" where
  "mem_api =
     \<lparr>containers_list = (\<lambda>f. gets (\<lambda>d. map mem_cont (filter (mem_matches f) d))),
      container_show = (\<lambda>i d. case map_of d i of
          None \<Rightarrow> (Inl (ApiError 404), d) | Some a \<Rightarrow> (Inr (mem_cont (i, a)), d)),
      containers_create = (\<lambda>b name d.
          (Inr (mem_cont (name, b_image b, False)),
           d @ [(name, b_image b, dict_get (b_labels b) label_exclusive = Some ''true'')])),
      container_start = (\<lambda>i. ret ()),
      container_delete = (\<lambda>i. modify (filter (\<lambda>c. fst c \<noteq> i))),
      images_pull = (\<lambda>i. ret ()),
      exec_create = (\<lambda>i cmd tty. ret 0),
      exec_read = (\<lambda>x. ret None),
      exec_write = (\<lambda>x s. ret ()),
      exec_close = (\<lambda>x. ret ()),
      exec_exit_code = (\<lambda>x. ret (Some 0)),
      prompt_search = (\<lambda>s. True),
      docker_sleep = ret ()\<rparr>"

text \<open>A task with the subtypes \<open>db\<close> (two sessions at a time, three in all) and \<open>os\<close> (one use).\<close>

definition mem_delegation :: "('j local_state, mem_daemon) dworld delegation" where
  "mem_delegation = (base_delegation ''t'')
     \<lparr>d_subtypes := [''db'', ''os''],
      d_create_docker_container := (\<lambda>a subtype. ret (a\<lparr>a_image := Some subtype\<rparr>)),
      d_concurrency_limit := (\<lambda>s. if s = ''db'' then 2 else 1),
      d_reuse_limit := (\<lambda>s. if s = ''db'' then 3 else 1)\<rparr>"

definition mem_dctl :: "(docker_session local_state, mem_daemon) dctl" where
  "mem_dctl = dctl_init mem_api local_provider mem_delegation ''agentrl'' id 4"

definition mem_world :: "mem_daemon \<Rightarrow> (docker_session local_state, mem_daemon) dworld" where
  "mem_world d =
     \<lparr>dk = d, st = local_init (\<lambda>n. ''s'' @ nat_str n, 0), dclient = None, shells = [], tasks = [],
      duuids = (\<lambda>n. nat_str n @ ''-hexhexhex'', 0)\<rparr>"

lemma mem_dctl_parts:
  "prov mem_dctl = local_provider" "api mem_dctl = mem_api" "loop_fuel mem_dctl = 4"
  "deleg mem_dctl = mem_delegation"
  by (simp_all add: mem_dctl_def dctl_init_def)

section \<open>What the daemon is relied on for\<close>

text \<open>
  Listing and inspecting report containers whose dependencies are among the ids \<open>D\<close>: the
  containers that a task's delegation has started beside its own. With all ids for \<open>D\<close> every
  daemon does.
\<close>

definition reports_dependencies :: "'d docker_api \<Rightarrow> string set \<Rightarrow> bool" where
  "reports_dependencies a D \<longleftrightarrow>
     (\<forall>f d. wp (containers_list a f)
        (\<lambda>cs _. \<forall>c \<in> set cs. set (dependencies (Some c)) \<subseteq> D) (\<lambda>_ _. True) d) \<and>
     (\<forall>i d. wp (container_show a i) (\<lambda>c _. set (dependencies (Some c)) \<subseteq> D) (\<lambda>_ _. True) d)"

lemma mem_cont_dependencies: "dependencies (Some (mem_cont c)) = []"
  by (cases c) (auto simp: dependencies_def managed_by_def label_subtype_name_def
      label_exclusive_def label_depends_on_def)

lemma mem_reports: "reports_dependencies mem_api {}"
  by (auto simp: reports_dependencies_def mem_api_def mem_cont_dependencies wp_def split: option.splits)

lemma local_docker_setting:
  fixes C :: "(docker_session local_state, 'd) dctl"
  assumes "prov C = local_provider" and "reports_dependencies (api C) D"
  shows "docker_setting local_provider local_ok (\<lambda>_. True) (\<lambda>_ _. True) local_abs C D"
  by (intro docker_setting.intro local.container_registry_axioms docker_setting_axioms.intro)
     (use assms in \<open>auto simp: reports_dependencies_def\<close>)

interpretation mem_docker:
  docker_setting local_provider local_ok "\<lambda>_. True" "\<lambda>_ _. True" local_abs mem_dctl "{}"
  by (rule local_docker_setting) (simp_all add: mem_dctl_def dctl_init_def mem_reports)

section \<open>Cleaning\<close>

text \<open>
  C14: the cleaning task takes no container away from a session, except with a container that
  depends on it. On every provider that keeps the contract of a registry, whatever the daemon answers or
  raises, and however the cleaning ends: after a cleaning that no other operation interleaves with, the
  stored sessions are those from before, and every container is allocated to the sessions it was
  allocated to, or it is one of the containers \<open>D\<close> that the daemon reports as dependencies of others
  and has lost all of them.
\<close>

theorem cleaning_keeps_allocations:
  fixes C :: "('s, 'd) dctl"
  assumes "docker_setting P ok valid live reg C D" and "ok (st w)"
  shows "r_sess (reg (st (snd (clean_containers C w)))) = r_sess (reg (st w)) \<and>
    (r_alloc (reg (st (snd (clean_containers C w)))) i = r_alloc (reg (st w)) i \<or>
     (i \<in> D \<and> r_alloc (reg (st (snd (clean_containers C w)))) i = {}))"
proof -
  note spared = docker_setting.spared_def [OF assms(1)]
  have "wp (clean_containers C)
      (\<lambda>_ v. docker_setting.spared ok reg D (r_alloc (reg (st w))) (r_sess (reg (st w))) (st v))
      (\<lambda>_ v. docker_setting.spared ok reg D (r_alloc (reg (st w))) (r_sess (reg (st w))) (st v)) w"
    by (rule docker_setting.clean_keeps [OF assms(1)]) (use assms(2) in \<open>simp add: spared\<close>)
  from wp_inv [OF this] show ?thesis unfolding spared by blast
qed

text \<open>Two containers, the exclusive one held by a session, and the cleaning run on them.\<close>

lemma cleaning_keeps_allocations_witness:
  "let w = mem_world [(''a'', ''db'', False), (''b'', ''os'', True), (''c'', ''os'', True)];
       v = w\<lparr>st := snd (local_allocate_container ''b'' ''s0'' (st w))\<rparr>
   in r_alloc (local_abs (st (snd (clean_containers mem_dctl v)))) = r_alloc (local_abs (st v)) \<and>
      r_alloc (local_abs (st v)) ''b'' = {''s0''}"
proof -
  let ?w = "mem_world [(''a'', ''db'', False), (''b'', ''os'', True), (''c'', ''os'', True)]"
  let ?v = "?w\<lparr>st := snd (local_allocate_container ''b'' ''s0'' (st ?w))\<rparr>"
  obtain t where t: "local_allocate_container ''b'' ''s0'' (st ?w) = (Inr (), t)" "local_ok t"
      "local_abs t = reg_allocate ''b'' ''s0'' (local_abs (st ?w))"
    using local_allocate_spec [of "st ?w" "''b''" "''s0''"] local_init_ok by (auto simp: mem_world_def)
  then have "r_alloc (local_abs (st ?v)) ''b'' = {''s0''}"
    by (simp add: reg_allocate_def mem_world_def local_abs_def local_init_def dict_get_or_def)
  with cleaning_keeps_allocations [OF mem_docker.docker_setting_axioms, of ?v] t(1,2) show ?thesis
    by (auto simp: Let_def fun_eq_iff)
qed

text \<open>
  The exception is needed. A daemon that lists an exclusive container \<open>c\<close>, held by no session, with a
  label that it depends on \<open>b\<close>: the cleaning deletes \<open>b\<close> with it, and the session of \<open>b\<close> has lost it.
\<close>

definition dependent_cont :: cont where
  "dependent_cont = \<lparr>cont_id = ''c'', cont_loaded = True,
     cont_labels = Some [managed_by, (label_depends_on, ''b'')], cont_ips = Some [], cont_env = Some []\<rparr>"

definition dependent_dctl :: "(docker_session local_state, mem_daemon) dctl" where
  "dependent_dctl = mem_dctl\<lparr>api := mem_api\<lparr>containers_list := (\<lambda>f. ret
     (if label_eq label_exclusive ''true'' \<in> set (f_label f) then [dependent_cont] else []))\<rparr>\<rparr>"

lemma cleaning_strikes_dependencies:
  "let w = mem_world [(''b'', ''os'', True)]; v = w\<lparr>st := snd (local_allocate_container ''b'' ''s0'' (st w))\<rparr>
   in dict_get (containers (st v)) ''b'' = Some {''s0''} \<and>
      fst (clean_containers dependent_dctl v) = Inr () \<and>
      dict_get_or (containers (st (snd (clean_containers dependent_dctl v)))) ''b'' {} = {}"
  by code_simp

section \<open>Sharing containers\<close>

lemma with_lock_local:
  fixes body :: "('j local_state, 'a) proc"
  shows "0 < n \<Longrightarrow> with_lock (local_provider :: ('j local_state, 'j) provider) n name client timeout body = body"
proof -
  assume "0 < n"
  then obtain m where n: "n = Suc m" by (cases n) auto
  have "acquire_loop (local_provider :: ('j local_state, 'j) provider) n name client timeout = ret ()"
    by (simp add: n local_provider_def local_acquire_lock_def)
  moreover have "finally_do body (local_release_lock name client) = body"
    by (rule ext) (simp add: finally_do_def local_release_lock_def ret_def split: prod.splits)
  moreover have "release_lock (local_provider :: ('j local_state, 'j) provider) = local_release_lock" by (simp add: local_provider_def)
  ultimately show ?thesis by (simp add: with_lock_def andthen_def)
qed

lemma local_select_and_allocate:
  assumes "local_ok s"
  shows "wp (select_and_allocate local_provider u k x cs)
     (\<lambda>r t. r = find (admits (local_abs s) u k) cs \<and> local_ok t \<and>
        local_abs t = (case r of None \<Rightarrow> local_abs s | Some c \<Rightarrow> reg_allocate (cont_id c) x (local_abs s)))
     (\<lambda>_ _. False) s"
  by (rule wp_mono [OF local.select_and_allocate_spec [OF assms]]) auto

text \<open>
  C5: sharing respects the limits. From a state in which every container is within its reuse
  and concurrency limits, the step inside the allocation lock returns without an exception the
  first candidate that admits one more session (None if there is none), and every container is
  still within its limits.
\<close>

theorem sharing_within_limits:
  assumes "local_ok s" and "within_limits u k ids (local_abs s)"
  shows "\<exists>t. select_and_allocate local_provider u k x cs s =
               (Inr (find (admits (local_abs s) u k) cs), t) \<and>
             within_limits u k ids (local_abs t)"
proof -
  obtain r t where r: "select_and_allocate local_provider u k x cs s = (r, t)"
    by (cases "select_and_allocate local_provider u k x cs s")
  let ?r = "find (admits (local_abs s) u k) cs"
  have t: "r = Inr ?r" and
    abs: "local_abs t = (case ?r of None \<Rightarrow> local_abs s | Some c \<Rightarrow> reg_allocate (cont_id c) x (local_abs s))"
    using local_select_and_allocate [OF assms(1), of u k x cs] r by (auto simp: wp_def split: sum.splits)
  have "within_limits u k ids (local_abs t)"
  proof (cases ?r)
    case None
    then show ?thesis using abs assms(2) by simp
  next
    case (Some c)
    then have "admits (local_abs s) u k c" by (auto simp: find_Some_iff)
    then show ?thesis
      using within_limits_allocate [OF assms(2)] local_alloc_finite [OF assms(1)] abs Some by simp
  qed
  with t r show ?thesis by blast
qed

lemma sharing_within_limits_witness:
  "let s = local_init (\<lambda>n. nat_str n, 0) :: docker_session local_state;
       c = mem_cont (''a'', ''db'', False)
   in \<exists>t. select_and_allocate local_provider 3 2 ''x'' [c] s = (Inr (Some c), t) \<and>
          within_limits 3 2 UNIV (local_abs t)"
proof -
  let ?s = "local_init (\<lambda>n. nat_str n, 0) :: docker_session local_state"
  have "within_limits 3 2 UNIV (local_abs ?s)"
    by (simp add: within_limits_def local_abs_def local_init_def dict_get_or_def)
  from sharing_within_limits [OF local_init_ok this, of "''x''" "[mem_cont (''a'', ''db'', False)]"]
  show ?thesis
    by (simp add: Let_def admits_def admissible_def local_abs_def local_init_def dict_get_or_def)
qed

text \<open>Creating a container asks the daemon for an id and does not touch the shared state.\<close>

lemma create_or_pull_result:
  assumes "I (st w)" and "\<And>b n d. wp (containers_create (api C) b n) (\<lambda>c _. G c) (\<lambda>_ _. True) d"
  shows "wp (create_or_pull C body name) (\<lambda>c w. I (st w) \<and> G c) (\<lambda>_ w. I (st w)) w"
proof -
  have create: "wp (docker_call C False (on_dk (containers_create (api C) body name)))
      (\<lambda>c w. I (st w) \<and> G c) (\<lambda>_ w. I (st w)) v" if "I (st v)" for v
    by (rule call_result [where I = I, OF that assms(2)])
  have pull: "wp (docker_call C True (on_dk (images_pull (api C) i)))
      (\<lambda>_ w. I (st w)) (\<lambda>_ w. I (st w)) v" if "I (st v)" for v i
    by (rule wp_mono [OF call_result [where I = I and G = "\<lambda>_. True", OF that]]) (auto intro: wp_any)
  show ?thesis
    unfolding create_or_pull_def Let_def wp_catch
    apply (rule wp_mono [OF create [OF assms(1)]], assumption)
    apply (simp add: wp_andthen wp_catch split del: if_split)
    apply (auto intro!: wp_mono [OF pull] create)
    done
qed

definition leaves_state :: "('s, 'd) dctl \<Rightarrow> bool" where
  "leaves_state C \<longleftrightarrow> (\<forall>a s w. st (snd (d_create_docker_container (deleg C) a s w)) = st w)"

lemma wp_leaves: "st (snd (m w)) = st w \<Longrightarrow> I (st w) \<Longrightarrow> wp m (\<lambda>_ w. I (st w)) (\<lambda>_ w. I (st w)) w"
  by (auto simp: wp_def split: prod.splits sum.splits)

lemma create_container_result:
  assumes "I (st w)" and "leaves_state C"
    and "\<And>b n d. wp (containers_create (api C) b n) (\<lambda>c _. G (cont_id c)) (\<lambda>_ _. True) d"
  shows "wp (create_container C subtype envs ex) (\<lambda>c w. I (st w) \<and> G (cont_id c)) (\<lambda>_ w. I (st w)) w"
proof -
  have show_st: "wp (show_container C i) (\<lambda>c w. I (st w) \<and> cont_id c = i) (\<lambda>_ w. I (st w)) v"
    if "I (st v)" for i v
    unfolding show_container_def wp_bnd
    by (rule wp_mono [OF on_dk_result [where I = I and G = "\<lambda>_. True", OF that]]) (auto intro: wp_any)
  have start: "wp (on_dk (container_start (api C) i)) (\<lambda>_ w. I (st w)) (\<lambda>_ w. I (st w)) v"
    if "I (st v)" for i v
    by (rule keeps_on_dk [where I = I, OF that])
  have id: "wp (\<lambda>w. case uuid4 (duuids w) of (x, u) \<Rightarrow> (Inr x, w\<lparr>duuids := u\<rparr>)) Q E v =
      Q (fst (uuid4 (duuids v))) (v\<lparr>duuids := snd (uuid4 (duuids v))\<rparr>)" for Q E and v :: "('a, 'b) dworld"
    by (simp add: wp_def split: prod.splits)
  show ?thesis
    unfolding create_container_def Let_def wp_bnd id
    apply (rule wp_mono [OF wp_leaves [where I = I]])
        apply (use assms(2) in \<open>simp add: leaves_state_def\<close>)
       apply (use assms(1) in simp)
     apply (simp add: wp_lift_res split: sum.split)
     apply (intro allI impI)
     apply (rule wp_mono [OF create_or_pull_result [where I = I and G = "\<lambda>c. G (cont_id c)"]])
         apply assumption
        apply (rule assms(3))
      apply (elim conjE, rule wp_mono [OF start], assumption)
       apply (rule wp_mono [OF show_st], assumption)
        apply simp_all
    done
qed

text \<open>The ids that a registry knows of: counted or allocated.\<close>

definition known_ids :: "'j registry \<Rightarrow> string set" where
  "known_ids r = {i. r_uses r i \<noteq> 0 \<or> r_alloc r i \<noteq> {}}"

definition issues_new_ids :: "'d docker_api \<Rightarrow> string set \<Rightarrow> bool" where
  "issues_new_ids a known \<longleftrightarrow>
     (\<forall>b n d. wp (containers_create a b n) (\<lambda>c _. cont_id c \<notin> known) (\<lambda>_ _. True) d)"

lemma new_id_admitted: "cont_id c \<notin> known_ids r \<Longrightarrow> admits r u k c"
  using fresh_admissible by (simp add: known_ids_def admits_def)

lemma local_select_on_st:
  fixes C :: "(docker_session local_state, 'd) dctl"
  assumes "prov C = local_provider" and "0 < loop_fuel C" and "local_ok (st w)"
  shows "wp (on_st (with_lock (prov C) (loop_fuel C) name client timeout
               (select_and_allocate (prov C) u k x cs)))
     (\<lambda>r v. r = find (admits (local_abs (st w)) u k) cs \<and> local_ok (st v) \<and>
        local_abs (st v) = (case r of None \<Rightarrow> local_abs (st w)
                            | Some c \<Rightarrow> reg_allocate (cont_id c) x (local_abs (st w))))
     (\<lambda>_ _. False) w"
  unfolding wp_on_st assms(1) with_lock_local [OF assms(2)]
  by (rule wp_mono [OF local_select_and_allocate [OF assms(3)]]) auto

text \<open>
  Without other sessions in between, the allocation loop of a shared subtype ends within two rounds
  on the in-memory provider. With any fuel of at least two it either returns a container that admitted the session in the state it started from, with
  exactly one allocation added to the registry, or it fails with an exception that creating a
  container raised; it never runs out of rounds by itself.
\<close>

lemma shared_allocation_two_rounds:
  fixes C :: "(docker_session local_state, 'd) dctl"
  assumes "prov C = local_provider" and "0 < loop_fuel C" and "local_ok (st w)"
    and "leaves_state C" and "issues_new_ids (api C) (known_ids (local_abs (st w)))"
  shows "wp (allocate_shared_loop C (Suc (Suc n)) x subtype cs)
     (\<lambda>(c, cs') v. admits (local_abs (st w)) (d_reuse_limit (deleg C) subtype)
                      (d_concurrency_limit (deleg C) subtype) c \<and>
        local_abs (st v) = reg_allocate (cont_id c) x (local_abs (st w)))
     (\<lambda>e v. \<exists>w'. fst (create_container C subtype [] (Some False) w') = Inl e) w"
proof -
  let ?u = "d_reuse_limit (deleg C) subtype" and ?k = "d_concurrency_limit (deleg C) subtype"
  let ?Q = "\<lambda>(c :: cont, cs' :: cont list) v :: (docker_session local_state, 'd) dworld.
      admits (local_abs (st w)) ?u ?k c \<and>
      local_abs (st v) = reg_allocate (cont_id c) x (local_abs (st w))"
  let ?E = "\<lambda>e v :: (docker_session local_state, 'd) dworld. \<exists>w'. fst (create_container C subtype [] (Some False) w') = Inl e"
  let ?I = "\<lambda>s. local_ok s \<and> local_abs s = local_abs (st w)"
  have create: "wp (create_container C subtype [] (Some False))
      (\<lambda>c v. ?I (st v) \<and> cont_id c \<notin> known_ids (local_abs (st w))) ?E v" if "?I (st v)" for v
  proof -
    have "wp (create_container C subtype [] (Some False))
      (\<lambda>c v. ?I (st v) \<and> cont_id c \<notin> known_ids (local_abs (st w))) (\<lambda>_ v. ?I (st v)) v"
      by (rule create_container_result [where I = ?I, OF that assms(4)])
         (use assms(5) in \<open>simp add: issues_new_ids_def\<close>)
    then show ?thesis
      by (cases "create_container C subtype [] (Some False) v")
         (auto simp: wp_def split: sum.splits intro!: exI [of _ v])
  qed
  have second: "wp (allocate_shared_loop C (Suc n) x subtype (cs @ [c])) ?Q ?E v"
    if v: "?I (st v)" and c: "cont_id c \<notin> known_ids (local_abs (st w))" for v c
  proof -
    have "find (admits (local_abs (st w)) ?u ?k) (cs @ [c]) \<noteq> None"
      using new_id_admitted [OF c] by (simp add: find_None_iff) blast
    then obtain c' where c': "find (admits (local_abs (st w)) ?u ?k) (cs @ [c]) = Some c'" by blast
    then have "admits (local_abs (st w)) ?u ?k c'" by (auto simp: find_Some_iff)
    with v c' show ?thesis
      unfolding allocate_shared_loop.simps wp_bnd
      by (auto intro!: wp_mono [OF local_select_on_st [OF assms(1,2)]])
  qed
  show ?thesis
    unfolding allocate_shared_loop.simps(2) [of C "Suc n"] wp_bnd
    apply (rule wp_mono [OF local_select_on_st [OF assms(1,2,3)]])
     apply (simp split: option.splits del: allocate_shared_loop.simps)
      apply (rule wp_mono [OF create], simp)
       apply (rule second; simp)
      apply assumption
     apply (auto simp: find_Some_iff)
    done
qed

lemma mem_dctl_facts:
  "prov mem_dctl = local_provider" "0 < loop_fuel mem_dctl" "leaves_state mem_dctl"
  "issues_new_ids (api mem_dctl) {}"
  "d_reuse_limit (deleg mem_dctl) ''db'' = 3" "d_concurrency_limit (deleg mem_dctl) ''db'' = 2"
  by (simp_all add: mem_dctl_parts leaves_state_def mem_delegation_def ret_def issues_new_ids_def
      wp_def mem_api_def split_def)

lemma shared_allocation_two_rounds_witness:
  "wp (allocate_shared_loop mem_dctl 2 ''x'' ''db'' [])
     (\<lambda>(c, cs) v. admits (local_abs (st (mem_world []))) 3 2 c \<and>
        local_abs (st v) = reg_allocate (cont_id c) ''x'' (local_abs (st (mem_world []))))
     (\<lambda>e v. \<exists>w'. fst (create_container mem_dctl ''db'' [] (Some False) w') = Inl e) (mem_world [])"
proof -
  have known: "known_ids (local_abs (st (mem_world []))) = {}" and ok: "local_ok (st (mem_world []))"
    by (simp_all add: known_ids_def mem_world_def local_abs_def local_init_def dict_get_or_def
        local_ok_def)
  show ?thesis
    using shared_allocation_two_rounds [OF mem_dctl_facts(1,2) ok mem_dctl_facts(3), of 0 "''x''" "''db''" "[]"]
    by (simp only: known mem_dctl_facts simp_thms numeral_2_eq_2 One_nat_def)
qed

section \<open>Ending a session\<close>

definition local_calm ::
    "(string \<Rightarrow> string set) \<Rightarrow> (string \<Rightarrow> docker_session option) \<Rightarrow> docker_session local_state \<Rightarrow> bool" where
  "local_calm A S s \<longleftrightarrow> local_ok s \<and> r_alloc (local_abs s) = A \<and> r_sess (local_abs s) = S"

lemma release_all:
  fixes C :: "(docker_session local_state, 'd) dctl"
  assumes "prov C = local_provider" and "0 < loop_fuel C" and "local_calm A S (st w)"
  shows "wp (each (\<lambda>(subtype, c). on_st (with_lock (prov C) (loop_fuel C) (''allocation:'' @ subtype) (Some x) 10
            (release_container (prov C) c x))) xs)
     (\<lambda>_ v. local_calm (\<lambda>c. if c \<in> snd ` set xs then A c - {x} else A c) S (st v)) (\<lambda>_ _. False) w"
  using assms(3)
proof (induction xs arbitrary: w A)
  case Nil
  then show ?case by simp
next
  case (Cons y ys)
  obtain k c where y: "y = (k, c)" by (cases y)
  let ?A = "A(c := A c - {x})"
  have next_state: "local_calm ?A S (st (w\<lparr>st := t\<rparr>))"
    if "local_ok t" "local_abs t = reg_release c x (local_abs (st w))" for t
    using that Cons.prems by (auto simp: local_calm_def reg_release_def)
  have eq: "(\<lambda>e. if e \<in> snd ` set ys then ?A e - {x} else ?A e) =
      (\<lambda>e. if e \<in> snd ` set (y # ys) then A e - {x} else A e)"
    by (auto simp: y fun_eq_iff)
  show ?case
    unfolding each.simps wp_andthen y prod.case wp_on_st assms(1) with_lock_local [OF assms(2)]
    apply (rule local.wp_release)
       apply (use Cons.prems in \<open>simp_all add: local_calm_def\<close>)[3]
    apply (rule wp_mono [OF Cons.IH [where A = ?A, unfolded assms(1) with_lock_local [OF assms(2)]]])
      apply (rule next_state; assumption)
     apply (simp only: eq y)
    apply simp
    done
qed

lemma delete_all:
  fixes C :: "(docker_session local_state, 'd) dctl"
  assumes setting: "docker_setting local_provider local_ok (\<lambda>_. True) (\<lambda>_ _. True) local_abs C D"
    and "docker_setting.spared local_ok local_abs D A S (st w)"
  shows "wp (each (\<lambda>c. delete_container C n (Inr c)) es)
     (\<lambda>_ v. docker_setting.spared local_ok local_abs D (\<lambda>c. if c \<in> set es then {} else A c) S (st v))
     (\<lambda>_ v. \<exists>F \<subseteq> set es. docker_setting.spared local_ok local_abs D (\<lambda>c. if c \<in> F then {} else A c) S (st v)) w"
  using assms(2)
proof (induction es arbitrary: w A)
  case Nil
  then show ?case by simp
next
  case (Cons e es)
  have one: "wp (delete_container C n (Inr e)) (\<lambda>_ v. docker_setting.spared local_ok local_abs D (A(e := {})) S (st v))
      (\<lambda>_ v. docker_setting.spared local_ok local_abs D A S (st v)) w"
    using docker_setting.delete_removes [OF setting Cons.prems, of "Inr e" n] by simp
  have eq: "(\<lambda>c. if c \<in> F then {} else (A(e := {})) c) = (\<lambda>c. if c \<in> insert e F then {} else A c)" for F
    by (auto simp: fun_eq_iff)
  show ?case
    unfolding each.simps wp_andthen
  proof (rule wp_mono [OF one])
    fix v :: "(docker_session local_state, 'd) dworld"
    assume "docker_setting.spared local_ok local_abs D (A(e := {})) S (st v)"
    from Cons.IH [OF this, unfolded eq] show "wp (each (\<lambda>c. delete_container C n (Inr c)) es)
     (\<lambda>_ v. docker_setting.spared local_ok local_abs D (\<lambda>c. if c \<in> set (e # es) then {} else A c) S (st v))
     (\<lambda>_ v. \<exists>F \<subseteq> set (e # es). docker_setting.spared local_ok local_abs D (\<lambda>c. if c \<in> F then {} else A c) S (st v)) v"
      by (rule wp_mono) (auto intro: exI [of _ "insert e _"])
  next
    fix v :: "(docker_session local_state, 'd) dworld"
    assume "docker_setting.spared local_ok local_abs D A S (st v)"
    then show "\<exists>F \<subseteq> set (e # es). docker_setting.spared local_ok local_abs D (\<lambda>c. if c \<in> F then {} else A c) S (st v)"
      by (intro exI [of _ "{}"]) simp
  qed
qed

text \<open>The second half of \<open>end_session\<close>: the exclusive containers are deleted, then the session.\<close>

lemma delete_rest:
  fixes C :: "(docker_session local_state, 'd) dctl"
  assumes "prov C = local_provider" and "reports_dependencies (api C) D" and "local_calm A S (st v)"
  shows "wp (each (\<lambda>c. delete_container C n (Inr c)) es)
     (\<lambda>_. wp (on_st (delete_session (prov C) x))
       (\<lambda>_ v. r_sess (local_abs (st v)) = S(x := None) \<and>
         (\<forall>c. if c \<in> set es then r_alloc (local_abs (st v)) c = {}
              else r_alloc (local_abs (st v)) c = A c \<or> (c \<in> D \<and> r_alloc (local_abs (st v)) c = {}))) E)
     (\<lambda>_ v. r_sess (local_abs (st v)) = S \<and>
         (\<forall>c. r_alloc (local_abs (st v)) c = A c \<or> (c \<in> set es \<union> D \<and> r_alloc (local_abs (st v)) c = {}))) v"
proof -
  note setting = local_docker_setting [OF assms(1,2)]
  note spared = docker_setting.spared_def [OF setting]
  have del: "wp (on_st (delete_session (prov C) x)) (\<lambda>_ v. r_sess (local_abs (st v)) = S(x := None) \<and>
        r_alloc (local_abs (st v)) = r_alloc (local_abs (st u))) E u"
    if "r_sess (local_abs (st u)) = S" for u :: "(docker_session local_state, 'd) dworld"
    using that unfolding wp_on_st assms(1)
    by (auto simp: local_provider_def local_delete_session_def wp_def local_abs_def
        fun_eq_iff) (metis map_of_eq_None_iff)
  have "docker_setting.spared local_ok local_abs D A S (st v)"
    using assms(3) by (simp add: spared local_calm_def)
  from delete_all [OF setting this] show ?thesis
  proof (rule wp_mono)
    fix u :: "(docker_session local_state, 'd) dworld"
    assume u: "docker_setting.spared local_ok local_abs D (\<lambda>c. if c \<in> set es then {} else A c) S (st u)"
    then have "r_sess (local_abs (st u)) = S" by (simp add: spared)
    from del [OF this] show "wp (on_st (delete_session (prov C) x))
       (\<lambda>_ v. r_sess (local_abs (st v)) = S(x := None) \<and>
         (\<forall>c. if c \<in> set es then r_alloc (local_abs (st v)) c = {}
              else r_alloc (local_abs (st v)) c = A c \<or> (c \<in> D \<and> r_alloc (local_abs (st v)) c = {}))) E u"
      by (rule wp_mono) (use u in \<open>auto simp: spared split: if_splits\<close>)
  qed (auto simp: spared split: if_splits)
qed

text \<open>
  C26: what ending a session gives back, on the in-memory provider and not interleaved with other
  operations. When \<open>end_session\<close> returns, the session and no other is gone, and its exclusive containers
  are allocated to nobody; if it raises, all sessions are still stored, so that ending it can be repeated.
  Either way the session is struck from every shared container it used, and the allocations of every
  other container are as before; except that containers which the daemon reports as dependencies
  of others (\<open>D\<close>) may have lost all their allocations.
\<close>

theorem end_session_gives_back:
  fixes C :: "(docker_session local_state, 'd) dctl"
  assumes "prov C = local_provider" and "0 < loop_fuel C" and "reports_dependencies (api C) D"
    and "local_ok (st w)" and "r_sess (local_abs (st w)) x = Some d"
  shows "let struck = (\<lambda>c. if c \<in> snd ` set (shared_of d) then r_alloc (local_abs (st w)) c - {x}
       else r_alloc (local_abs (st w)) c)
   in wp (docker_end_session C x)
     (\<lambda>_ v. r_sess (local_abs (st v)) = (r_sess (local_abs (st w)))(x := None) \<and>
        (\<forall>c. if c \<in> set (sd_exclusive d) then r_alloc (local_abs (st v)) c = {}
             else r_alloc (local_abs (st v)) c = struck c \<or> (c \<in> D \<and> r_alloc (local_abs (st v)) c = {})))
     (\<lambda>_ v. r_sess (local_abs (st v)) = r_sess (local_abs (st w)) \<and>
        (\<forall>c. r_alloc (local_abs (st v)) c = struck c \<or>
             (c \<in> set (sd_exclusive d) \<union> D \<and> r_alloc (local_abs (st v)) c = {}))) w"
proof -
  let ?A = "r_alloc (local_abs (st w))" and ?S = "r_sess (local_abs (st w))"
  have calm: "local_calm ?A ?S (st w)" using assms(4) by (simp add: local_calm_def)
  have get: "wp (on_st (get_session (prov C) x)) Q E v =
      Q (r_sess (local_abs (st v)) x) v" for Q E v
    by (simp add: assms(1) wp_on_st local_provider_def local_get_session_def local_abs_def)
  show ?thesis
    unfolding Let_def docker_end_session_def wp_bnd get assms(5) option.case wp_andthen
    by (rule wp_mono [OF release_all [OF assms(1,2) calm]])
      (erule delete_rest [OF assms(1,3)], simp)
qed

text \<open>A session that shares \<open>a\<close> with another one and holds \<open>b\<close> alone.\<close>

lemma end_session_gives_back_witness:
  "let d = \<lparr>sd_containers = [(''db'', ''a''), (''os'', ''b'')], sd_exclusive = [''b'']\<rparr>;
       s = \<lparr>containers = [(''a'', {''x'', ''y''}), (''b'', {''x''})],
            container_uses = [(''a'', 2), (''b'', 1)], sessions = [(''x'', d)],
            uuids = (\<lambda>n. nat_str n, 0)\<rparr>;
       w = (mem_world [(''a'', ''db'', False), (''b'', ''os'', True)])\<lparr>st := s\<rparr>
   in wp (docker_end_session mem_dctl ''x'')
        (\<lambda>_ v. r_sess (local_abs (st v)) ''x'' = None \<and> r_alloc (local_abs (st v)) ''a'' = {''y''} \<and>
              r_alloc (local_abs (st v)) ''b'' = {})
        (\<lambda>_ v. r_sess (local_abs (st v)) ''x'' = Some d \<and> r_alloc (local_abs (st v)) ''a'' = {''y''}) w"
proof -
  let ?d = "\<lparr>sd_containers = [(''db'', ''a''), (''os'', ''b'')], sd_exclusive = [''b'']\<rparr>"
  let ?s = "\<lparr>containers = [(''a'', {''x'', ''y''}), (''b'', {''x''})],
            container_uses = [(''a'', 2), (''b'', 1)], sessions = [(''x'', ?d)],
            uuids = (\<lambda>n. nat_str n, 0)\<rparr>"
  let ?w = "(mem_world [(''a'', ''db'', False), (''b'', ''os'', True)])\<lparr>st := ?s\<rparr>"
  have ok: "local_ok (st ?w)" by (auto simp: local_ok_def)
  have d: "r_sess (local_abs (st ?w)) ''x'' = Some ?d" by (simp add: local_abs_def)
  have a: "r_alloc (local_abs (st ?w)) ''a'' = {''x'', ''y''}" by (simp add: local_abs_def dict_get_or_def)
  have shared: "shared_of ?d = [(''db'', ''a'')]" by (simp add: shared_of_def)
  have reports: "reports_dependencies (api mem_dctl) {}" by (simp add: mem_dctl_parts mem_reports)
  show ?thesis
    unfolding Let_def
  proof (rule wp_mono [OF end_session_gives_back [OF mem_dctl_facts(1,2) reports ok d, unfolded Let_def shared]], goal_cases)
    case (1 _ v)
    from 1 [THEN conjunct2, THEN spec, of "''a''"] 1 [THEN conjunct2, THEN spec, of "''b''"] 1 [THEN conjunct1]
    show ?case using a by auto
  next
    case (2 _ v)
    from 2 [THEN conjunct2, THEN spec, of "''a''"] 2 [THEN conjunct1] show ?case using a d by auto
  qed
qed

section \<open>Retries\<close>

text \<open>
  What a call to the daemon does about connection errors. The operation runs on a client
  that is open; only if the call may be retried and the error is one of a broken connection, the
  client and all shells are dropped and the operation runs once more, and the second result
  stands. A call that changes the daemon (\<open>retry=False\<close>) is sent once.
\<close>

lemma docker_call_retries_once:
  "docker_call C retry operation w =
     (case andthen docker_get_client operation w of
        (Inr x, v) \<Rightarrow> (Inr x, v)
      | (Inl e, v) \<Rightarrow>
          if retry \<and> reconnect_error e
          then andthen (docker_reset_client C) (andthen docker_get_client operation) v
          else (Inl e, v))"
proof -
  have once: "docker_attempts C (Suc 0) operation = andthen docker_get_client operation"
    by (auto simp: fun_eq_iff andthen_def catch_def raise_def bnd_def split: prod.splits sum.splits)
  have twice: "docker_attempts C 2 operation v =
      andthen docker_get_client (catch operation (\<lambda>e. if reconnect_error e
        then andthen (docker_reset_client C) (andthen docker_get_client operation) else raise e)) v" for v
    unfolding numeral_2_eq_2 docker_attempts.simps(2) [of C "Suc 0"] once by simp
  have client: "docker_get_client w = (Inr (), snd (docker_get_client w))"
    by (simp add: docker_get_client_def modify_def)
  show ?thesis
    by (auto simp: docker_call_def once twice andthen_def bnd_Inr [of docker_get_client w, OF client] catch_def raise_def
        split: prod.splits sum.splits)
qed

end
