(* ===== verification/K8s_Controller.thy ===== *)
theory K8s_Controller
  imports Delegation State_Provider
begin

text \<open>
  The Kubernetes environment controller (worker/src/agentrl/worker/environment/k8s.py). The API
  server behind kubernetes\_asyncio is the parameter \<open>kapi\<close>, a record of the calls the code makes;
  the shared state is any provider. The controller's own state (the two clients, shells, the pod
  cache with its resource version, the watch task, spawned tasks) and the two services make up
  the world. Loops that wait take fuel.
\<close>

section \<open>Pods and the API server\<close>

record pod_metadata =
  m_name :: string
  m_labels :: "(string, string) dict option"
  m_annotations :: "(string, string) dict option"
  m_deleting :: bool
  m_resource_version :: "string option"
  m_uid :: "string option"

text \<open>A container's state: waiting with reason and message, terminated with a reason.\<close>

record container_state =
  cs_waiting :: "(string option \<times> string option) option"
  cs_terminated :: "string option option"

record pod_status =
  ps_phase :: "string option"
  ps_ip :: "string option"
  ps_conditions :: "(string \<times> string) list"
  ps_containers :: "container_state option list"

record pod =
  p_meta :: "pod_metadata option"
  p_spec :: pod_spec
  p_status :: "pod_status option"

datatype ws_message = WsClose | WsError | WsData string | WsOther

datatype watch_event = WatchError | WatchBookmark "pod option" | WatchDeleted "pod option" | WatchChanged "pod option"

text \<open>
  Calls of \<open>CoreV1Api\<close>, the websocket of an exec, the watch stream and the client objects.
  \<open>ws_receive\<close> raises TimeoutError when nothing arrives in time; \<open>ws_next\<close> is None at the end of the
  stream.
\<close>

record 'k k8s_api =
  read_pod :: "string \<Rightarrow> ('k, pod) proc"
  create_pod_call :: "pod_metadata \<Rightarrow> pod_spec \<Rightarrow> ('k, pod) proc"
  delete_pod_call :: "string \<Rightarrow> ('k, unit) proc"
  patch_owner :: "string \<Rightarrow> string \<Rightarrow> string option \<Rightarrow> ('k, unit) proc"
  list_pods :: "string \<Rightarrow> ('k, pod list \<times> string option) proc"
  read_service :: "string \<Rightarrow> ('k, string) proc"
  exec_connect :: "string \<Rightarrow> string list \<Rightarrow> bool \<Rightarrow> ('k, nat) proc"
  ws_next :: "nat \<Rightarrow> ('k, ws_message option) proc"
  ws_receive :: "nat \<Rightarrow> ('k, ws_message) proc"
  ws_send :: "nat \<Rightarrow> string \<Rightarrow> ('k, unit) proc"
  ws_ping :: "nat \<Rightarrow> ('k, unit) proc"
  ws_close :: "nat \<Rightarrow> ('k, unit) proc"
  ws_closed :: "nat \<Rightarrow> 'k \<Rightarrow> bool"
  parse_error_data :: "string \<Rightarrow> int res"
  prompt_match :: "string \<Rightarrow> bool"
  watch_open :: "string \<Rightarrow> string option \<Rightarrow> ('k, unit) proc"
  watch_next :: "('k, watch_event option) proc"
  load_config :: "('k, unit) proc"
  client_pool_closed :: "'k \<Rightarrow> bool"
  client_close :: "('k, unit) proc"
  ws_client_pool_closed :: "'k \<Rightarrow> bool"
  ws_client_close :: "('k, unit) proc"
  k8s_sleep :: "nat \<Rightarrow> ('k, unit) proc"

record k8s_session =
  ks_pods :: "(string, string) dict"
  ks_exclusive :: "string list"

datatype watch_task = NoWatch | WatchRunning | WatchDone

record ('s, 'k) kworld =
  kk :: 'k
  kst :: 's
  kclient :: bool
  kws_client :: bool
  kshells :: "(string, nat) dict"
  pod_cache :: "(string, (string, pod) dict) dict"
  cache_initialized :: bool
  cache_version :: "string option"
  watch_task :: watch_task
  ktasks :: "(string \<times> pod) list"
  kuuids :: uuid_src

record ('s, 'k) kctl =
  kapi :: "'k k8s_api"
  kprov :: "('s, k8s_session) provider"
  kdeleg :: "('s, 'k) kworld delegation"
  ktask_name :: string
  kvalid_subtypes :: "string list"
  kshuffle :: "pod list \<Rightarrow> pod list"
  kfuel :: nat

definition kctl_init ::
    "'k k8s_api \<Rightarrow> ('s, k8s_session) provider \<Rightarrow> ('s, 'k) kworld delegation \<Rightarrow>
     (pod list \<Rightarrow> pod list) \<Rightarrow> nat \<Rightarrow> ('s, 'k) kctl" where
  "kctl_init a p d shuf n =
     \<lparr>kapi = a, kprov = p, kdeleg = d, ktask_name = d_name d, kvalid_subtypes = d_subtypes d,
      kshuffle = shuf, kfuel = n\<rparr>"

definition kworld_init :: "'k \<Rightarrow> 's \<Rightarrow> uuid_src \<Rightarrow> ('s, 'k) kworld" where
  "kworld_init k s u =
     \<lparr>kk = k, kst = s, kclient = False, kws_client = False, kshells = [], pod_cache = [],
      cache_initialized = False, cache_version = None, watch_task = NoWatch, ktasks = [], kuuids = u\<rparr>"

definition on_k8s :: "('k, 'a) proc \<Rightarrow> (('s, 'k) kworld, 'a) proc" where
  "on_k8s = zoom kk (\<lambda>k w. w\<lparr>kk := k\<rparr>)"

definition on_kst :: "('s, 'a) proc \<Rightarrow> (('s, 'k) kworld, 'a) proc" where
  "on_kst = zoom kst (\<lambda>s w. w\<lparr>kst := s\<rparr>)"

section \<open>Clients and retries\<close>

definition k8s_get_client :: "('s, 'k) kctl \<Rightarrow> (('s, 'k) kworld, unit) proc" where
  "k8s_get_client C =
     andthen
       (bnd (gets (\<lambda>w. kclient w \<and> client_pool_closed (kapi C) (kk w))) (\<lambda>stale.
          if stale then andthen (on_k8s (client_close (kapi C))) (modify (\<lambda>w. w\<lparr>kclient := False\<rparr>))
          else ret ()))
       (bnd (gets kclient) (\<lambda>present.
          if present then ret ()
          else andthen (on_k8s (load_config (kapi C))) (modify (\<lambda>w. w\<lparr>kclient := True\<rparr>))))"

definition k8s_get_ws_client :: "('s, 'k) kctl \<Rightarrow> (('s, 'k) kworld, unit) proc" where
  "k8s_get_ws_client C =
     andthen
       (bnd (gets (\<lambda>w. kws_client w \<and> ws_client_pool_closed (kapi C) (kk w))) (\<lambda>stale.
          if stale then andthen (on_k8s (ws_client_close (kapi C))) (modify (\<lambda>w. w\<lparr>kws_client := False\<rparr>))
          else ret ()))
       (bnd (gets kws_client) (\<lambda>present.
          if present then ret ()
          else andthen (on_k8s (load_config (kapi C))) (modify (\<lambda>w. w\<lparr>kws_client := True\<rparr>))))"

definition k8s_reset_ws_client :: "('s, 'k) kctl \<Rightarrow> (('s, 'k) kworld, unit) proc" where
  "k8s_reset_ws_client C =
     bnd (gets kws_client) (\<lambda>present.
       if present then
         andthen (catch (on_k8s (ws_client_close (kapi C))) (\<lambda>_. ret ()))
           (modify (\<lambda>w. w\<lparr>kws_client := False\<rparr>))
       else ret ())"

definition k8s_reset_client :: "('s, 'k) kctl \<Rightarrow> (('s, 'k) kworld, unit) proc" where
  "k8s_reset_client C =
     andthen
       (bnd (gets kclient) (\<lambda>present.
          if present then
            andthen (catch (on_k8s (client_close (kapi C))) (\<lambda>_. ret ()))
              (modify (\<lambda>w. w\<lparr>kclient := False\<rparr>))
          else ret ()))
       (k8s_reset_ws_client C)"

fun k8s_reconnect_error :: "py_error \<Rightarrow> bool" where
  "k8s_reconnect_error (ApiError n) = (n \<in> {0, 500, 502, 503, 504})"
| "k8s_reconnect_error TransportError = True"
| "k8s_reconnect_error TimeoutError = True"
| "k8s_reconnect_error e = False"

text \<open>\<open>_api_call\<close> and \<open>_ws_call\<close> with the attempts that are left.\<close>

fun k8s_attempts ::
    "('s, 'k) kctl \<Rightarrow> nat \<Rightarrow> (('s, 'k) kworld, 'a) proc \<Rightarrow> (('s, 'k) kworld, 'a) proc" where
  "k8s_attempts C 0 operation = raise StillRunning"
| "k8s_attempts C (Suc n) operation =
     andthen (k8s_get_client C)
       (catch operation (\<lambda>e.
          if k8s_reconnect_error e \<and> n \<noteq> 0
          then andthen (k8s_reset_client C) (k8s_attempts C n operation)
          else raise e))"

definition api_call ::
    "('s, 'k) kctl \<Rightarrow> bool \<Rightarrow> (('s, 'k) kworld, 'a) proc \<Rightarrow> (('s, 'k) kworld, 'a) proc" where
  "api_call C retry operation = k8s_attempts C (if retry then 2 else 1) operation"

fun ws_attempts ::
    "('s, 'k) kctl \<Rightarrow> nat \<Rightarrow> (('s, 'k) kworld, 'a) proc \<Rightarrow> (('s, 'k) kworld, 'a) proc" where
  "ws_attempts C 0 operation = raise StillRunning"
| "ws_attempts C (Suc n) operation =
     andthen (k8s_get_ws_client C)
       (catch operation (\<lambda>e.
          if k8s_reconnect_error e \<and> n \<noteq> 0
          then andthen (k8s_reset_ws_client C) (ws_attempts C n operation)
          else raise e))"

definition ws_call ::
    "('s, 'k) kctl \<Rightarrow> bool \<Rightarrow> (('s, 'k) kworld, 'a) proc \<Rightarrow> (('s, 'k) kworld, 'a) proc" where
  "ws_call C retry operation = ws_attempts C (if retry then 2 else 1) operation"

text \<open>\<open>_api\<close>: one call of the API, by either client.\<close>

definition kube ::
    "('s, 'k) kctl \<Rightarrow> bool \<Rightarrow> bool \<Rightarrow> ('k, 'a) proc \<Rightarrow> (('s, 'k) kworld, 'a) proc" where
  "kube C use_ws retry m = (if use_ws then ws_call C retry (on_k8s m) else api_call C retry (on_k8s m))"

definition read_pod_named :: "('s, 'k) kctl \<Rightarrow> string \<Rightarrow> (('s, 'k) kworld, pod) proc" where
  "read_pod_named C name = kube C False True (read_pod (kapi C) name)"

section \<open>Labels\<close>

definition k8s_role :: string where "k8s_role = ''agentrl.live/role''"
definition k8s_task_type :: string where "k8s_task_type = ''agentrl.live/task-type''"
definition k8s_subtype :: string where "k8s_subtype = ''agentrl.live/subtype-name''"
definition k8s_exclusive :: string where "k8s_exclusive = ''agentrl.live/exclusive''"
definition k8s_depends_on :: string where "k8s_depends_on = ''agentrl.live/depends-on''"

definition label_selector :: "('s, 'k) kctl \<Rightarrow> bool option \<Rightarrow> string option \<Rightarrow> string" where
  "label_selector C exclusive subtype =
     (let labels = [(k8s_role, ''environment''), (k8s_task_type, ktask_name C)];
          labels = (case exclusive of None \<Rightarrow> labels | Some b \<Rightarrow> dict_set k8s_exclusive (bool_str b) labels);
          labels = (case subtype of
                      None \<Rightarrow> labels
                    | Some t \<Rightarrow> if t = [] then labels else dict_set k8s_subtype t labels)
      in join_with '','' (map (\<lambda>(k, v). k @ ''='' @ v) labels))"

text \<open>\<open>pod.metadata.name\<close>.\<close>

definition pod_name :: "pod \<Rightarrow> string res" where
  "pod_name p = (case p_meta p of None \<Rightarrow> Inl AttributeError | Some m \<Rightarrow> Inr (m_name m))"

definition name_of :: "pod \<Rightarrow> ('w, string) proc" where
  "name_of p = lift_res (pod_name p)"

definition labels_of :: "pod_metadata \<Rightarrow> (string, string) dict" where
  "labels_of m = (case m_labels m of None \<Rightarrow> [] | Some ls \<Rightarrow> ls)"

definition marked_shared :: "(string, string) dict \<Rightarrow> bool" where
  "marked_shared labels \<longleftrightarrow> str_lower (dict_get_or labels k8s_exclusive []) = bool_str False"

section \<open>The pod cache\<close>

text \<open>Only shared pods with a subtype label enter the cache; a missing subtype is created.\<close>

definition record_pod_cache :: "pod \<Rightarrow> ('s, 'k) kworld \<Rightarrow> ('s, 'k) kworld" where
  "record_pod_cache p w =
     (case p_meta p of
        None \<Rightarrow> w
      | Some m \<Rightarrow>
          (let labels = labels_of m in
           if labels = [] \<or> \<not> marked_shared labels then w
           else case dict_get labels k8s_subtype of
                  None \<Rightarrow> w
                | Some t \<Rightarrow>
                    if t = [] then w
                    else w\<lparr>pod_cache :=
                           dict_set t (dict_set (m_name m) p (dict_get_or (pod_cache w) t [])) (pod_cache w)\<rparr>))"

text \<open>A pod with a subtype label leaves that subtype's cache; one without leaves every cache.\<close>

definition evict_pod :: "pod \<Rightarrow> ('s, 'k) kworld \<Rightarrow> ('s, 'k) kworld" where
  "evict_pod p w =
     (case p_meta p of
        None \<Rightarrow> w
      | Some m \<Rightarrow>
          (let subtype = dict_get_or (labels_of m) k8s_subtype [] in
           if subtype = [] then w\<lparr>pod_cache := dict_map (dict_del (m_name m)) (pod_cache w)\<rparr>
           else case dict_get (pod_cache w) subtype of
                  None \<Rightarrow> w
                | Some cache \<Rightarrow>
                    w\<lparr>pod_cache := dict_set subtype (dict_del (m_name m) cache) (pod_cache w)\<rparr>))"

definition refresh_pod_cache :: "('s, 'k) kctl \<Rightarrow> (('s, 'k) kworld, unit) proc" where
  "refresh_pod_cache C =
     bnd (kube C False True (list_pods (kapi C) (label_selector C (Some False) None))) (\<lambda>(items, version).
       modify (\<lambda>w.
         (fold record_pod_cache items (w\<lparr>pod_cache := []\<rparr>))
           \<lparr>cache_initialized := True, cache_version := version\<rparr>))"

definition ensure_pod_watch_started :: "(('s, 'k) kworld, unit) proc" where
  "ensure_pod_watch_started = modify (\<lambda>w.
     if watch_task w = WatchRunning then w else w\<lparr>watch_task := WatchRunning\<rparr>)"

text \<open>The pods of a subtype that can take a session: shared, not going away, not finished.\<close>

definition usable_pod :: "pod \<Rightarrow> bool" where
  "usable_pod p \<longleftrightarrow>
     (case p_meta p of
        None \<Rightarrow> False
      | Some m \<Rightarrow>
          \<not> m_deleting m \<and> marked_shared (labels_of m) \<and>
          (let phase = (case p_status p of
                          None \<Rightarrow> []
                        | Some st \<Rightarrow> (case ps_phase st of None \<Rightarrow> [] | Some ph \<Rightarrow> str_lower ph))
           in phase \<notin> {''failed'', ''unknown'', ''succeeded''}))"

definition identify_pods ::
    "('s, 'k) kctl \<Rightarrow> string list \<Rightarrow> (('s, 'k) kworld, (string, pod list) dict) proc" where
  "identify_pods C subtypes =
     andthen
       (bnd (gets cache_initialized) (\<lambda>ready.
          if ready then ret () else andthen (refresh_pod_cache C) ensure_pod_watch_started))
       (gets (\<lambda>w.
          fold (\<lambda>subtype. dict_set subtype
                  (filter usable_pod (map snd (dict_get_or (pod_cache w) subtype []))))
            (if subtypes = [] then kvalid_subtypes C else subtypes) []))"

text \<open>
  One connection of the watch: the events that arrive before the stream ends. An error event
  makes the next turn list again.
\<close>

fun watch_events :: "('s, 'k) kctl \<Rightarrow> nat \<Rightarrow> (('s, 'k) kworld, unit) proc" where
  "watch_events C 0 = raise StillRunning"
| "watch_events C (Suc n) =
     bnd (on_k8s (watch_next (kapi C))) (\<lambda>event.
       case event of
         None \<Rightarrow> ret ()
       | Some WatchError \<Rightarrow>
           modify (\<lambda>w. w\<lparr>cache_initialized := False, cache_version := None\<rparr>)
       | Some e \<Rightarrow>
           (let obj = (case e of WatchBookmark x \<Rightarrow> x | WatchDeleted x \<Rightarrow> x | WatchChanged x \<Rightarrow> x | WatchError \<Rightarrow> None)
            in case obj of
                 None \<Rightarrow> watch_events C n
               | Some p \<Rightarrow>
                   andthen
                     (modify (\<lambda>w. case Option.bind (p_meta p) m_resource_version of
                        None \<Rightarrow> w
                      | Some v \<Rightarrow> if v = [] then w else w\<lparr>cache_version := Some v\<rparr>))
                  (andthen
                     (modify (\<lambda>w. case e of
                        WatchBookmark _ \<Rightarrow> w
                      | WatchDeleted _ \<Rightarrow> evict_pod p w
                      | _ \<Rightarrow> record_pod_cache p w))
                     (watch_events C n))))"

definition watch_connection :: "('s, 'k) kctl \<Rightarrow> (('s, 'k) kworld, unit) proc" where
  "watch_connection C =
     andthen (k8s_get_client C)
    (andthen
       (bnd (gets cache_initialized) (\<lambda>ready. if ready then ret () else refresh_pod_cache C))
       (bnd (gets cache_version) (\<lambda>version.
          andthen
            (on_k8s (watch_open (kapi C) (label_selector C (Some False) None)
               (case version of Some v \<Rightarrow> if v = [] then None else Some v | None \<Rightarrow> None)))
            (watch_events C (kfuel C)))))"

text \<open>
  One turn of \<open>_watch_pods\<close>: the backoff for the next turn. The task is ended by cancellation,
  which is not modelled.
\<close>

definition watch_turn :: "('s, 'k) kctl \<Rightarrow> nat \<Rightarrow> (('s, 'k) kworld, nat) proc" where
  "watch_turn C backoff =
     catch (andthen (watch_connection C) (ret 1)) (\<lambda>e.
       andthen
         (if e = ApiError 410
          then modify (\<lambda>w. w\<lparr>cache_initialized := False, cache_version := None\<rparr>) else ret ())
      (andthen (k8s_reset_client C)
      (andthen (on_k8s (k8s_sleep (kapi C) backoff))
         (ret (min (backoff * 2) 30)))))"

fun watch_pods :: "('s, 'k) kctl \<Rightarrow> nat \<Rightarrow> nat \<Rightarrow> (('s, 'k) kworld, unit) proc" where
  "watch_pods C 0 backoff = raise StillRunning"
| "watch_pods C (Suc n) backoff = bnd (watch_turn C backoff) (watch_pods C n)"

section \<open>Addresses\<close>

datatype pod_arg = PodDict "(string, pod + string) dict" | PodObj pod | PodId string

text \<open>
  \<open>get_pod_url\<close>: a pod without an address is read again. The result is None for a pod without
  address and port; with a port a missing address is printed as \<open>None\<close>.
\<close>

definition pod_service_url :: "string option \<Rightarrow> service_port \<Rightarrow> string option" where
  "pod_service_url ip port =
     (if port = NoPort \<or> port = OnePort 0 \<or> port = ManyPorts [] then ip
      else Some (service_url (case ip of Some i \<Rightarrow> i | None \<Rightarrow> ''None'') port))"

definition get_pod_url :: "('s, 'k) kctl \<Rightarrow> pod_arg \<Rightarrow> string \<Rightarrow> (('s, 'k) kworld, string option) proc" where
  "get_pod_url C arg subtype =
     bnd (case arg of
            PodObj p \<Rightarrow> ret (Inl p)
          | PodDict d \<Rightarrow> (case dict_get d subtype of None \<Rightarrow> raise KeyError | Some p \<Rightarrow> ret p)
          | PodId i \<Rightarrow> ret (Inr i)) (\<lambda>p.
     bnd (case p of
            Inl p \<Rightarrow>
              (let name = (case p_meta p of None \<Rightarrow> [] | Some m \<Rightarrow> m_name m);
                   no_ip = (case p_status p of
                              None \<Rightarrow> True
                            | Some st \<Rightarrow> (case ps_ip st of None \<Rightarrow> True | Some i \<Rightarrow> i = []))
               in if no_ip \<and> name \<noteq> [] then read_pod_named C name else ret p)
          | Inr i \<Rightarrow> read_pod_named C i) (\<lambda>p.
       ret (pod_service_url (Option.bind (p_status p) ps_ip) (d_service_port (kdeleg C) subtype))))"

definition resolve_service_ip :: "('s, 'k) kctl \<Rightarrow> string \<Rightarrow> (('s, 'k) kworld, string) proc" where
  "resolve_service_ip C service = kube C False True (read_service (kapi C) service)"

section \<open>Health\<close>

definition failure_reasons :: "string list" where
  "failure_reasons = [''CrashLoopBackOff'', ''ErrImagePull'', ''ImagePullBackOff'', ''RunContainerError'']"

datatype health = Healthy | Starting | Unhealthy

text \<open>The loop over the container statuses.\<close>

fun containers_health :: "container_state option list \<Rightarrow> health" where
  "containers_health [] = Healthy"
| "containers_health (None # css) = containers_health css"
| "containers_health (Some cs # css) =
     (case cs_waiting cs of
        Some (reason, message) \<Rightarrow>
          (let r = str_strip (case reason of None \<Rightarrow> [] | Some r \<Rightarrow> r)
           in if r \<in> set failure_reasons then Unhealthy else Starting)
      | None \<Rightarrow>
          (case cs_terminated cs of
             Some (Some r) \<Rightarrow> if r \<noteq> [] \<and> r \<noteq> ''Completed'' then Unhealthy else containers_health css
           | _ \<Rightarrow> containers_health css))"

definition phase_of :: "pod \<Rightarrow> string" where
  "phase_of p = (case p_status p of
     None \<Rightarrow> []
   | Some st \<Rightarrow> (case ps_phase st of None \<Rightarrow> [] | Some ph \<Rightarrow> str_lower ph))"

text \<open>
  One round over the pods: whether to wait. A failing readiness condition asks for a wait and goes
  on to the next pod; the other reasons to wait end the round.
\<close>

fun health_round :: "('s, 'k) kctl \<Rightarrow> bool \<Rightarrow> string list \<Rightarrow> (('s, 'k) kworld, bool) proc" where
  "health_round C wait_needed [] = ret wait_needed"
| "health_round C wait_needed (name # names) =
     bnd (catch (bnd (read_pod_named C name) (\<lambda>p. ret (Some p)))
            (\<lambda>e. if e = ApiError 404 then ret None else raise e)) (\<lambda>found.
       case found of
         None \<Rightarrow> ret True
       | Some p \<Rightarrow>
           if (case p_meta p of None \<Rightarrow> False | Some m \<Rightarrow> m_deleting m) then health_round C wait_needed names
           else if phase_of p \<in> {''failed'', ''succeeded''} then health_round C wait_needed names
           else if phase_of p \<in> {''pending'', ''unknown'', ''''} then ret True
           else (case p_status p of
                   None \<Rightarrow> raise AttributeError
                 | Some st \<Rightarrow>
                     (let wait' = (wait_needed \<or> (''Ready'', ''False'') \<in> set (ps_conditions st))
                      in if ps_containers st = [] then ret True
                         else case containers_health (ps_containers st) of
                                Unhealthy \<Rightarrow> raise RuntimeError
                              | Starting \<Rightarrow> ret True
                              | Healthy \<Rightarrow> health_round C wait' names)))"

fun health_loop :: "('s, 'k) kctl \<Rightarrow> nat \<Rightarrow> string list \<Rightarrow> (('s, 'k) kworld, unit) proc" where
  "health_loop C 0 names = raise StillRunning"
| "health_loop C (Suc n) names =
     bnd (health_round C False names) (\<lambda>wait_needed.
       if \<not> wait_needed then ret ()
       else andthen (on_k8s (k8s_sleep (kapi C) 1)) (health_loop C n names))"

definition pods_wait_for_health :: "('s, 'k) kctl \<Rightarrow> (pod + string) list \<Rightarrow> (('s, 'k) kworld, unit) proc" where
  "pods_wait_for_health C pods =
     (let names = concat (map (\<lambda>p. case p of
            Inl p \<Rightarrow> (case p_meta p of None \<Rightarrow> [] | Some m \<Rightarrow> if m_name m = [] then [] else [m_name m])
          | Inr i \<Rightarrow> [i]) pods)
      in if names = [] then ret () else health_loop C (kfuel C) names)"

section \<open>Creating pods\<close>

definition pod_base_name :: "string \<Rightarrow> string \<Rightarrow> string" where
  "pod_base_name subtype hex =
     str_lower (replace_char (CHR ''_'') (CHR ''-'') subtype) @ ''-'' @ take 8 hex"

definition port_list :: "service_port \<Rightarrow> int list" where
  "port_list p = (case p of
     NoPort \<Rightarrow> [] | OnePort n \<Rightarrow> (if n = 0 then [] else [n]) | ManyPorts ns \<Rightarrow> ns)"

definition initial_spec :: "('s, 'k) kctl \<Rightarrow> string \<Rightarrow> bool \<Rightarrow> pod_spec" where
  "initial_spec C subtype exclusive =
     \<lparr>sp_active_deadline = (if exclusive then Some (d_max_execution_time (kdeleg C) subtype) else None),
      sp_containers = [\<lparr>kc_name = ''main'', kc_image = None, kc_env = [],
                        kc_ports = port_list (d_service_port (kdeleg C) subtype),
                        kc_readiness = None, kc_liveness = None\<rparr>],
      sp_restart_policy = ''Never'', sp_grace_period = 0, sp_service_token = None,
      sp_priority_class = None\<rparr>"

text \<open>A container without a readiness probe is probed for readiness by its liveness probe.\<close>

definition move_probe :: "k8s_container \<Rightarrow> k8s_container" where
  "move_probe c =
     (if kc_readiness c = None \<and> kc_liveness c \<noteq> None
      then c\<lparr>kc_readiness := kc_liveness c, kc_liveness := None\<rparr> else c)"

fun update_first :: "('a \<Rightarrow> bool) \<Rightarrow> ('a \<Rightarrow> 'a) \<Rightarrow> 'a list \<Rightarrow> 'a list" where
  "update_first P f [] = []"
| "update_first P f (x # xs) = (if P x then f x # xs else x # update_first P f xs)"

text \<open>The container named \<open>main\<close>, or else the first one; a pod without containers has none.\<close>

definition primary_container :: "k8s_container list \<Rightarrow> k8s_container option" where
  "primary_container cs =
     (case cs of
        [] \<Rightarrow> None
      | c # _ \<Rightarrow> (case find (\<lambda>c. kc_name c = ''main'') cs of Some m \<Rightarrow> Some m | None \<Rightarrow> Some c))"

definition update_primary :: "(k8s_container \<Rightarrow> k8s_container) \<Rightarrow> k8s_container list \<Rightarrow> k8s_container list" where
  "update_primary f cs =
     (if \<exists>c \<in> set cs. kc_name c = ''main'' then update_first (\<lambda>c. kc_name c = ''main'') f cs
      else update_first (\<lambda>_. True) f cs)"

definition merge_env ::
    "(string, string) dict \<Rightarrow> (string \<times> string option) list \<Rightarrow> (string \<times> string option) list" where
  "merge_env extra env =
     fold (\<lambda>(k, v). dict_set k (Some v)) extra
       (fold (\<lambda>(k, v). if k = [] then id else dict_set k v) env [])"

text \<open>\<open>get_container_images()[subtype]\<close>.\<close>

definition subtype_image :: "('s, 'k) kctl \<Rightarrow> string \<Rightarrow> string res" where
  "subtype_image C subtype =
     (case d_container_images (kdeleg C) of
        Inl e \<Rightarrow> Inl e
      | Inr images \<Rightarrow> (case dict_get images subtype of None \<Rightarrow> Inl KeyError | Some i \<Rightarrow> Inr i))"

definition final_spec ::
    "('s, 'k) kctl \<Rightarrow> string \<Rightarrow> (string, string) dict \<Rightarrow> pod_spec \<Rightarrow> pod_spec res" where
  "final_spec C subtype extra_envs spec =
     (let cs = map move_probe (sp_containers spec);
          image =
            (case primary_container cs of
               None \<Rightarrow> (case subtype_image C subtype of Inl e \<Rightarrow> Inl e | Inr i \<Rightarrow> Inl AttributeError)
             | Some c \<Rightarrow> (case kc_image c of
                           None \<Rightarrow> subtype_image C subtype
                         | Some i \<Rightarrow> if i = [] then subtype_image C subtype else Inr i));
          set_main = (\<lambda>i c. c\<lparr>kc_image := Some i,
             kc_env := (if extra_envs = [] then kc_env c else merge_env extra_envs (kc_env c))\<rparr>)
      in case image of
           Inl e \<Rightarrow> Inl e
         | Inr i \<Rightarrow> Inr (spec\<lparr>sp_containers := update_primary (set_main i) cs,
                             sp_restart_policy := ''Never'', sp_service_token := Some False,
                             sp_priority_class := Some ''agentrl-environment''\<rparr>))"

definition initial_metadata :: "('s, 'k) kctl \<Rightarrow> string \<Rightarrow> string \<Rightarrow> bool \<Rightarrow> pod_metadata" where
  "initial_metadata C name subtype exclusive =
     \<lparr>m_name = name,
      m_labels = Some [(k8s_role, ''environment''), (k8s_task_type, ktask_name C),
                       (k8s_subtype, subtype), (k8s_exclusive, bool_str exclusive)],
      m_annotations = None, m_deleting = False, m_resource_version = None, m_uid = None\<rparr>"

definition merged :: "(string, string) dict option \<Rightarrow> (string, string) dict \<Rightarrow> (string, string) dict" where
  "merged base over = fold (\<lambda>(k, v). dict_set k v) over (case base of None \<Rightarrow> [] | Some d \<Rightarrow> d)"

definition override_metadata :: "k8s_overrides \<Rightarrow> pod_metadata \<Rightarrow> pod_metadata res" where
  "override_metadata over m =
     (case over of
        NoOverrides \<Rightarrow> Inr m
      | NotADict \<Rightarrow> Inl TypeError
      | Overrides labels annotations \<Rightarrow>
          (let m = (case labels of None \<Rightarrow> m | Some ls \<Rightarrow> m\<lparr>m_labels := Some (merged (m_labels m) ls)\<rparr>)
           in Inr (case annotations of None \<Rightarrow> m
                   | Some as \<Rightarrow> m\<lparr>m_annotations := Some (merged (m_annotations m) as)\<rparr>)))"

text \<open>
  The owner reference for each name in the dependency annotation. When the pod has annotations but
  not this one, the text to split is empty, and one patch with the empty name is sent.
\<close>

definition patch_dependencies :: "('s, 'k) kctl \<Rightarrow> pod \<Rightarrow> (('s, 'k) kworld, unit) proc" where
  "patch_dependencies C p =
     (case p_meta p of
        None \<Rightarrow> ret ()
      | Some m \<Rightarrow>
          (case m_annotations m of
             None \<Rightarrow> ret ()
           | Some annotations \<Rightarrow>
               if annotations = [] then ret ()
               else each (\<lambda>dep.
                      catch (kube C False True (patch_owner (kapi C) dep (m_name m) (m_uid m)))
                        (\<lambda>e. case e of ApiError n \<Rightarrow> ret () | _ \<Rightarrow> raise e))
                      (split_on (CHR '','') (dict_get_or annotations k8s_depends_on []))))"

definition create_pod ::
    "('s, 'k) kctl \<Rightarrow> string \<Rightarrow> (string, string) dict \<Rightarrow> bool option \<Rightarrow> (('s, 'k) kworld, pod) proc" where
  "create_pod C subtype extra_envs exclusive_arg =
     (let exclusive = (case exclusive_arg of Some b \<Rightarrow> b
                       | None \<Rightarrow> d_reuse_limit (kdeleg C) subtype = 1)
      in bnd (\<lambda>w. case uuid4 (kuuids w) of (x, u) \<Rightarrow> (Inr x, w\<lparr>kuuids := u\<rparr>)) (\<lambda>hex.
         let name = pod_base_name subtype hex
         in bnd (d_create_k8s_pod (kdeleg C) (initial_spec C subtype exclusive) subtype) (\<lambda>(spec, over).
            bnd (if over = NotADict then raise TypeError else ret ()) (\<lambda>_.
            bnd (lift_res (final_spec C subtype extra_envs spec)) (\<lambda>spec.
            bnd (lift_res (override_metadata over (initial_metadata C name subtype exclusive))) (\<lambda>m.
            bnd (kube C False False (create_pod_call (kapi C) m spec)) (\<lambda>p.
            andthen (patch_dependencies C p)
           (andthen (modify (\<lambda>w. w\<lparr>ktasks := ktasks w @ [(subtype, p)]\<rparr>))
           (andthen (modify (record_pod_cache p))
              (ret p)))))))))) "

text \<open>The spawned task: only for a delegation that overrides the hook.\<close>

definition post_create_pod :: "('s, 'k) kctl \<Rightarrow> string \<Rightarrow> pod \<Rightarrow> (('s, 'k) kworld, unit) proc" where
  "post_create_pod C subtype p =
     (case d_post_create_k8s (kdeleg C) of
        None \<Rightarrow> ret ()
      | Some hook \<Rightarrow>
          andthen (pods_wait_for_health C [Inl p])
            (bnd (name_of p) (\<lambda>name.
             bnd (get_pod_url C (PodObj p) subtype) (\<lambda>url. hook subtype name url))))"

section \<open>Deleting pods\<close>

definition drop_shell :: "('s, 'k) kctl \<Rightarrow> string \<Rightarrow> (('s, 'k) kworld, unit) proc" where
  "drop_shell C name =
     bnd (gets (\<lambda>w. dict_get (kshells w) name)) (\<lambda>shell.
     andthen (modify (\<lambda>w. w\<lparr>kshells := dict_del name (kshells w)\<rparr>))
       (case shell of
          None \<Rightarrow> ret ()
        | Some x \<Rightarrow>
            bnd (gets (\<lambda>w. ws_closed (kapi C) x (kk w))) (\<lambda>closed.
              if closed then ret () else catch (on_k8s (ws_close (kapi C) x)) (\<lambda>_. ret ()))))"

text \<open>A pod that could not be deleted stays in the cache and in the shared state.\<close>

definition delete_pod :: "('s, 'k) kctl \<Rightarrow> pod \<Rightarrow> (('s, 'k) kworld, unit) proc" where
  "delete_pod C p =
     andthen
       (case p_meta p of
          None \<Rightarrow> ret ()
        | Some m \<Rightarrow> if m_name m = [] then ret () else drop_shell C (m_name m))
       (bnd (name_of p) (\<lambda>name.
        bnd (catch (andthen (kube C False True (delete_pod_call (kapi C) name)) (ret True))
               (\<lambda>_. ret False)) (\<lambda>deleted.
          if \<not> deleted then ret ()
          else andthen (modify (evict_pod p)) (on_kst (remove_container (kprov C) name)))))"

section \<open>Sessions\<close>

record pod_acc =
  pods_allocated :: "(string, pod) dict"
  pods_exclusive :: "(string, pod) dict"
  pods_non_exclusive :: "string list"

definition start_exclusive_pod ::
    "('s, 'k) kctl \<Rightarrow> bool \<Rightarrow> string \<Rightarrow> string \<Rightarrow> pod_acc \<Rightarrow> (('s, 'k) kworld, pod_acc) proc" where
  "start_exclusive_pod C immutable x subtype acc =
     (if wants_exclusive (d_reuse_limit (kdeleg C) subtype) immutable then
        bnd (create_pod C subtype [] (Some True)) (\<lambda>p.
        bnd (name_of p) (\<lambda>name.
        andthen (on_kst (allocate_container (kprov C) name x))
          (ret (acc\<lparr>pods_allocated := dict_set subtype p (pods_allocated acc),
                    pods_exclusive := dict_set subtype p (pods_exclusive acc)\<rparr>))))
      else ret (acc\<lparr>pods_non_exclusive := pods_non_exclusive acc @ [subtype]\<rparr>))"

text \<open>The scan over the candidates, inside the allocation lock.\<close>

fun select_pod ::
    "('s, 'j) provider \<Rightarrow> nat \<Rightarrow> nat \<Rightarrow> pod list \<Rightarrow> ('s, pod option) proc" where
  "select_pod P usage_limit concurrency_limit [] = ret None"
| "select_pod P usage_limit concurrency_limit (p # ps) =
     bnd (name_of p) (\<lambda>name.
     bnd (if 0 < usage_limit then
            bnd (container_total_uses P name) (\<lambda>n. ret (usage_limit \<le> n))
          else ret False) (\<lambda>used_up.
       if used_up then select_pod P usage_limit concurrency_limit ps
       else
         bnd (if 0 < concurrency_limit then
                bnd (container_current_uses P name) (\<lambda>n. ret (concurrency_limit \<le> n))
              else ret False) (\<lambda>full.
           if full then select_pod P usage_limit concurrency_limit ps
           else ret (Some p))))"

definition select_and_allocate_pod ::
    "('s, 'j) provider \<Rightarrow> nat \<Rightarrow> nat \<Rightarrow> string \<Rightarrow> pod list \<Rightarrow> ('s, pod option) proc" where
  "select_and_allocate_pod P usage_limit concurrency_limit x ps =
     bnd (select_pod P usage_limit concurrency_limit ps) (\<lambda>sel.
       case sel of
         None \<Rightarrow> ret None
       | Some p \<Rightarrow> bnd (name_of p) (\<lambda>name. andthen (allocate_container P name x) (ret (Some p))))"

fun allocate_pod_loop ::
    "('s, 'k) kctl \<Rightarrow> nat \<Rightarrow> string \<Rightarrow> string \<Rightarrow> pod list \<Rightarrow> (('s, 'k) kworld, pod \<times> pod list) proc" where
  "allocate_pod_loop C 0 x subtype existing = raise StillRunning"
| "allocate_pod_loop C (Suc n) x subtype existing =
     bnd (on_kst (with_lock (kprov C) (kfuel C) (''allocation:'' @ subtype) (Some x) 10
            (select_and_allocate_pod (kprov C) (d_reuse_limit (kdeleg C) subtype)
               (d_concurrency_limit (kdeleg C) subtype) x existing))) (\<lambda>sel.
       case sel of
         Some p \<Rightarrow> ret (p, existing)
       | None \<Rightarrow> bnd (create_pod C subtype [] (Some False)) (\<lambda>p.
                   allocate_pod_loop C n x subtype (existing @ [p])))"

definition start_shared_pod ::
    "('s, 'k) kctl \<Rightarrow> string \<Rightarrow> string \<Rightarrow> pod_acc \<times> (string, pod list) dict \<Rightarrow>
     (('s, 'k) kworld, pod_acc \<times> (string, pod list) dict) proc" where
  "start_shared_pod C x subtype st0 =
     (case st0 of (acc, candidates) \<Rightarrow>
        bnd (allocate_pod_loop C (kfuel C) x subtype
               (kshuffle C (dict_get_or candidates subtype []))) (\<lambda>(p, existing).
          ret (acc\<lparr>pods_allocated := dict_set subtype p (pods_allocated acc)\<rparr>,
               (if subtype \<in> set (dict_keys candidates)
                then dict_set subtype existing candidates else candidates))))"

definition pod_urls :: "('s, 'k) kctl \<Rightarrow> (string, pod) dict \<Rightarrow> (('s, 'k) kworld, (string, string option) dict) proc" where
  "pod_urls C ps =
     collect (\<lambda>subtype. bnd (get_pod_url C (PodDict (dict_map Inl ps)) subtype)
                          (\<lambda>url. ret (subtype, url))) (dict_keys ps)"

definition pod_names :: "(string, pod) dict \<Rightarrow> ('w, (string, string) dict) proc" where
  "pod_names ps = collect (\<lambda>(subtype, p). bnd (name_of p) (\<lambda>name. ret (subtype, name))) ps"

text \<open>The homepage gets the addresses as texts.\<close>

definition start_homepage_pod :: "('s, 'k) kctl \<Rightarrow> string \<Rightarrow> pod_acc \<Rightarrow> (('s, 'k) kworld, pod_acc) proc" where
  "start_homepage_pod C x acc =
     (if d_has_homepage (kdeleg C) then
        bnd (lift_res (d_homepage_subtype (kdeleg C))) (\<lambda>subtype.
        bnd (pod_urls C (pods_allocated acc)) (\<lambda>urls.
        bnd (lift_res (d_homepage_envs (kdeleg C)
               (map (\<lambda>(k, u). (k, case u of None \<Rightarrow> ''None'' | Some v \<Rightarrow> v)) urls))) (\<lambda>envs.
        bnd (create_pod C subtype envs (Some True)) (\<lambda>p.
        bnd (name_of p) (\<lambda>name.
        andthen (on_kst (allocate_container (kprov C) name x))
          (ret (acc\<lparr>pods_allocated := dict_set subtype p (pods_allocated acc),
                    pods_exclusive := dict_set subtype p (pods_exclusive acc)\<rparr>)))))))
      else ret acc)"

definition k8s_start_session ::
    "('s, 'k) kctl \<Rightarrow> string list \<Rightarrow> bool \<Rightarrow>
     (('s, 'k) kworld, string \<times> (string, string) dict \<times> (string, string option) dict) proc" where
  "k8s_start_session C subtypes immutable =
     (if \<not> list_all (\<lambda>s. s \<in> set (kvalid_subtypes C)) subtypes then raise AssertionError
      else
        bnd (on_kst (generate_session_id (kprov C))) (\<lambda>x.
        bnd (fold_proc (start_exclusive_pod C immutable x) subtypes
               \<lparr>pods_allocated = [], pods_exclusive = [], pods_non_exclusive = []\<rparr>) (\<lambda>acc.
        bnd (if pods_non_exclusive acc \<noteq> [] then identify_pods C (pods_non_exclusive acc)
             else ret []) (\<lambda>candidates.
        bnd (fold_proc (start_shared_pod C x) (pods_non_exclusive acc) (acc, candidates)) (\<lambda>(acc, _).
        bnd (start_homepage_pod C x acc) (\<lambda>acc.
        bnd (pod_names (pods_allocated acc)) (\<lambda>names.
        bnd (pod_names (pods_exclusive acc)) (\<lambda>exclusive.
        andthen (on_kst (store_session (kprov C) x \<lparr>ks_pods = names, ks_exclusive = map snd exclusive\<rparr>))
       (andthen (pods_wait_for_health C (map (Inl \<circ> snd) (pods_allocated acc)))
         (bnd (pod_urls C (pods_allocated acc)) (\<lambda>urls. ret (x, names, urls))))))))))))"

definition k8s_renew_session :: "('s, 'k) kctl \<Rightarrow> string \<Rightarrow> (('s, 'k) kworld, unit) proc" where
  "k8s_renew_session C x =
     on_kst (andthen (renew_session (kprov C) x)
       (bnd (get_session (kprov C) x) (\<lambda>session.
          case session of
            None \<Rightarrow> ret ()
          | Some d \<Rightarrow> each (\<lambda>(subtype, i). renew_container (kprov C) i x) (ks_pods d))))"

definition shared_pods :: "k8s_session \<Rightarrow> (string \<times> string) list" where
  "shared_pods d = filter (\<lambda>(subtype, i). i \<notin> set (ks_exclusive d)) (ks_pods d)"

text \<open>An exclusive pod is read before it is deleted; one that cannot be read is skipped.\<close>

definition end_exclusive_pod :: "('s, 'k) kctl \<Rightarrow> string \<Rightarrow> (('s, 'k) kworld, unit) proc" where
  "end_exclusive_pod C i =
     bnd (catch (bnd (read_pod_named C i) (\<lambda>p. ret (Some p)))
            (\<lambda>e. case e of ApiError n \<Rightarrow> ret None | _ \<Rightarrow> raise e)) (\<lambda>found.
       case found of None \<Rightarrow> ret () | Some p \<Rightarrow> delete_pod C p)"

definition k8s_end_session :: "('s, 'k) kctl \<Rightarrow> string \<Rightarrow> (('s, 'k) kworld, unit) proc" where
  "k8s_end_session C x =
     bnd (on_kst (get_session (kprov C) x)) (\<lambda>session.
     andthen
       (case session of
          None \<Rightarrow> ret ()
        | Some d \<Rightarrow>
            andthen
              (each (\<lambda>(subtype, i).
                 on_kst (with_lock (kprov C) (kfuel C) (''allocation:'' @ subtype) (Some x) 10
                           (release_container (kprov C) i x))) (shared_pods d))
              (each (end_exclusive_pod C) (ks_exclusive d)))
       (on_kst (delete_session (kprov C) x)))"

section \<open>Cleaning\<close>

definition delete_pod_if_free :: "('s, 'k) kctl \<Rightarrow> pod \<Rightarrow> (('s, 'k) kworld, unit) proc" where
  "delete_pod_if_free C p =
     bnd (name_of p) (\<lambda>name.
     bnd (on_kst (container_is_allocated (kprov C) name)) (\<lambda>busy.
       if busy then ret () else delete_pod C p))"

text \<open>Whether a shared pod is broken: going away, finished, or with a container that is not running.\<close>

definition broken_pod :: "pod \<Rightarrow> bool" where
  "broken_pod p \<longleftrightarrow>
     (case p_meta p of None \<Rightarrow> False | Some m \<Rightarrow> m_deleting m) \<or>
     (case p_status p of
        None \<Rightarrow> False
      | Some st \<Rightarrow>
          (case ps_phase st of None \<Rightarrow> [] | Some ph \<Rightarrow> str_lower ph) \<in> {'''', ''failed'', ''unknown'', ''succeeded''} \<or>
          list_ex (\<lambda>cs. case cs of None \<Rightarrow> False
             | Some c \<Rightarrow> cs_waiting c \<noteq> None \<or> cs_terminated c \<noteq> None) (ps_containers st))"

definition delete_pod_if_broken :: "('s, 'k) kctl \<Rightarrow> pod \<Rightarrow> (('s, 'k) kworld, unit) proc" where
  "delete_pod_if_broken C p =
     bnd (name_of p) (\<lambda>name.
     bnd (on_kst (container_is_allocated (kprov C) name)) (\<lambda>busy.
       if busy then ret () else if broken_pod p then delete_pod C p else ret ()))"

definition delete_pod_if_spent :: "('s, 'k) kctl \<Rightarrow> nat \<Rightarrow> pod \<Rightarrow> (('s, 'k) kworld, unit) proc" where
  "delete_pod_if_spent C usage_limit p =
     bnd (name_of p) (\<lambda>name.
     bnd (on_kst (container_is_allocated (kprov C) name)) (\<lambda>busy.
       if busy then ret ()
       else bnd (on_kst (container_total_uses (kprov C) name)) (\<lambda>n.
              if n < usage_limit then ret () else delete_pod C p)))"

definition clean_pods :: "('s, 'k) kctl \<Rightarrow> (('s, 'k) kworld, unit) proc" where
  "clean_pods C =
     bnd (kube C False True (list_pods (kapi C) (label_selector C (Some True) None))) (\<lambda>(ps, _).
     andthen (each (delete_pod_if_free C) ps)
    (bnd (kube C False True (list_pods (kapi C) (label_selector C (Some False) None))) (\<lambda>(ps, _).
     andthen (each (delete_pod_if_broken C) ps)
    (bnd (identify_pods C []) (\<lambda>by_subtype.
       each (\<lambda>(subtype, ps).
         let usage_limit = d_reuse_limit (kdeleg C) subtype
         in if usage_limit = 0 then ret () else each (delete_pod_if_spent C usage_limit) ps) by_subtype)))))"

text \<open>One turn of the background loop; the pause between turns is the caller's.\<close>

definition k8s_background_turn :: "('s, 'k) kctl \<Rightarrow> (('s, 'k) kworld, unit) proc" where
  "k8s_background_turn C =
     catch
       (bnd (on_kst (acquire_lock (kprov C) ''background'' None 120)) (\<lambda>got.
          if got then
            andthen (catch (clean_pods C) (\<lambda>_. ret ()))
              (on_kst (release_lock (kprov C) ''background'' None))
          else ret ()))
       (\<lambda>_. ret ())"

section \<open>Commands, shells and environment variables\<close>

text \<open>The channel byte of a message: 0 input, 1 output, 2 errors, 3 the exit status.\<close>

definition stdin_channel :: char where "stdin_channel = CHR 0x00"
definition stdout_channel :: char where "stdout_channel = CHR 0x01"
definition stderr_channel :: char where "stderr_channel = CHR 0x02"
definition error_channel :: char where "error_channel = CHR 0x03"

text \<open>
  The messages of a command: output, errors and exit code. The count is the number of messages
  that arrive within the time limit; running out is the timeout.
\<close>

fun consume ::
    "('s, 'k) kctl \<Rightarrow> nat \<Rightarrow> nat \<Rightarrow> string \<Rightarrow> string \<Rightarrow> (('s, 'k) kworld, int \<times> string \<times> string) proc" where
  "consume C 0 ws out err = raise TimeoutError"
| "consume C (Suc n) ws out err =
     bnd (on_k8s (ws_next (kapi C) ws)) (\<lambda>m.
       case m of
         None \<Rightarrow> ret (0, out, err)
       | Some WsClose \<Rightarrow> ret (0, out, err)
       | Some WsError \<Rightarrow> raise RuntimeError
       | Some WsOther \<Rightarrow> consume C n ws out err
       | Some (WsData []) \<Rightarrow> consume C n ws out err
       | Some (WsData (channel # payload)) \<Rightarrow>
           if channel = stdout_channel then consume C n ws (out @ payload) err
           else if channel = stderr_channel then consume C n ws out (err @ payload)
           else if channel = error_channel then
             ret (case parse_error_data (kapi C) payload of Inr code \<Rightarrow> code | Inl _ \<Rightarrow> 1, out, err)
           else consume C n ws out err)"

datatype command_arg = CommandText string | CommandList "string list"

definition k8s_execute_command ::
    "('s, 'k) kctl \<Rightarrow> nat \<Rightarrow> string \<Rightarrow> command_arg \<Rightarrow> (('s, 'k) kworld, int \<times> string \<times> string) proc" where
  "k8s_execute_command C in_time i command =
     bnd (kube C True False (exec_connect (kapi C) i
            (case command of CommandList cs \<Rightarrow> cs | CommandText t \<Rightarrow> [''/bin/sh'', ''-c'', t]) False)) (\<lambda>ws.
       finally_do (consume C in_time ws [] []) (on_k8s (ws_close (kapi C) ws)))"

text \<open>\<open>ws.receive()\<close> with its own time limit, as it is read in a shell.\<close>

definition shell_receive :: "('s, 'k) kctl \<Rightarrow> nat \<Rightarrow> (('s, 'k) kworld, ws_message) proc" where
  "shell_receive C ws =
     catch (on_k8s (ws_receive (kapi C) ws)) (\<lambda>e. if e = TimeoutError then raise RuntimeError else raise e)"

text \<open>The text of a message on an output channel; other messages are None, closing ones raise.\<close>

definition shell_output :: "('s, 'k) kctl \<Rightarrow> ws_message \<Rightarrow> string option res" where
  "shell_output C m =
     (case m of
        WsClose \<Rightarrow> Inl RuntimeError
      | WsError \<Rightarrow> Inl RuntimeError
      | WsOther \<Rightarrow> Inr None
      | WsData raw \<Rightarrow>
          (case raw of
             [] \<Rightarrow> Inr None
           | channel # payload \<Rightarrow>
               if channel = error_channel then
                 (case parse_error_data (kapi C) payload of Inl e \<Rightarrow> Inl e | Inr _ \<Rightarrow> Inl RuntimeError)
               else if channel = stdout_channel \<or> channel = stderr_channel then Inr (Some payload)
               else Inr None))"

fun await_prompt :: "('s, 'k) kctl \<Rightarrow> nat \<Rightarrow> nat \<Rightarrow> (('s, 'k) kworld, unit) proc" where
  "await_prompt C 0 ws = raise TimeoutError"
| "await_prompt C (Suc n) ws =
     bnd (shell_receive C ws) (\<lambda>m.
     bnd (lift_res (shell_output C m)) (\<lambda>out.
       case out of
         None \<Rightarrow> await_prompt C n ws
       | Some payload \<Rightarrow> if prompt_match (kapi C) payload then ret () else await_prompt C n ws))"

definition k8s_create_shell ::
    "('s, 'k) kctl \<Rightarrow> nat \<Rightarrow> string \<Rightarrow> string list \<Rightarrow> (('s, 'k) kworld, unit) proc" where
  "k8s_create_shell C in_time i shell_command =
     bnd (gets (\<lambda>w. case dict_get (kshells w) i of
                  None \<Rightarrow> (None, False) | Some x \<Rightarrow> (Some x, ws_closed (kapi C) x (kk w)))) (\<lambda>(existing, closed).
       if existing \<noteq> None \<and> \<not> closed then ret ()
       else
         andthen
           (case existing of
              None \<Rightarrow> ret ()
            | Some x \<Rightarrow>
                andthen (modify (\<lambda>w. w\<lparr>kshells := dict_del i (kshells w)\<rparr>))
                  (catch (on_k8s (ws_close (kapi C) x)) (\<lambda>_. ret ())))
           (bnd (kube C True False (exec_connect (kapi C) i shell_command True)) (\<lambda>ws.
            andthen (catch (await_prompt C in_time ws) (\<lambda>e. andthen (on_k8s (ws_close (kapi C) ws)) (raise e)))
              (modify (\<lambda>w. w\<lparr>kshells := dict_set i ws (kshells w)\<rparr>)))))"

text \<open>One shell's keep-alive task: a ping per interval until the socket is closed or a ping fails.\<close>

fun shell_keepalive :: "('s, 'k) kctl \<Rightarrow> nat \<Rightarrow> nat \<Rightarrow> (('s, 'k) kworld, unit) proc" where
  "shell_keepalive C 0 ws = raise StillRunning"
| "shell_keepalive C (Suc n) ws =
     bnd (gets (\<lambda>w. ws_closed (kapi C) ws (kk w))) (\<lambda>closed.
       if closed then ret ()
       else
         andthen (on_k8s (k8s_sleep (kapi C) 25))
           (bnd (gets (\<lambda>w. ws_closed (kapi C) ws (kk w))) (\<lambda>closed.
              if closed then ret ()
              else bnd (catch (andthen (on_k8s (ws_ping (kapi C) ws)) (ret True)) (\<lambda>_. ret False)) (\<lambda>ok.
                     if ok then shell_keepalive C n ws else ret ()))))"

text \<open>
  The answer of a shell: the first chunk echoes the command and is dropped, whatever it holds; the
  prompt is looked for in the later ones.
\<close>

fun read_answer ::
    "('s, 'k) kctl \<Rightarrow> nat \<Rightarrow> nat \<Rightarrow> bool \<Rightarrow> string \<Rightarrow> (('s, 'k) kworld, string) proc" where
  "read_answer C 0 ws ignored_first data = raise TimeoutError"
| "read_answer C (Suc n) ws ignored_first data =
     bnd (shell_receive C ws) (\<lambda>m.
     bnd (lift_res (shell_output C m)) (\<lambda>out.
       case out of
         None \<Rightarrow> read_answer C n ws ignored_first data
       | Some chunk \<Rightarrow>
           if \<not> ignored_first then read_answer C n ws True data
           else if prompt_match (kapi C) chunk then ret (data @ chunk)
           else read_answer C n ws True (data @ chunk)))"

text \<open>After a failed write or read the shell is forgotten and its socket closed; the error stays.\<close>

definition forget_shell :: "('s, 'k) kctl \<Rightarrow> string \<Rightarrow> nat \<Rightarrow> py_error \<Rightarrow> (('s, 'k) kworld, 'a) proc" where
  "forget_shell C i ws e =
     andthen (modify (\<lambda>w. w\<lparr>kshells := dict_del i (kshells w)\<rparr>))
    (andthen (catch (on_k8s (ws_close (kapi C) ws)) (\<lambda>_. ret ()))
       (raise e))"

definition k8s_execute_shell ::
    "('s, 'k) kctl \<Rightarrow> nat \<Rightarrow> nat \<Rightarrow> string \<Rightarrow> string \<Rightarrow> (('s, 'k) kworld, string) proc" where
  "k8s_execute_shell C prompt_in_time in_time i command =
     andthen
       (bnd (gets (\<lambda>w. case dict_get (kshells w) i of
                   None \<Rightarrow> True | Some x \<Rightarrow> ws_closed (kapi C) x (kk w))) (\<lambda>missing.
          if missing then k8s_create_shell C prompt_in_time i [''/bin/bash'', ''--login''] else ret ()))
       (bnd (gets (\<lambda>w. dict_get (kshells w) i)) (\<lambda>shell.
          case shell of
            None \<Rightarrow> raise RuntimeError
          | Some ws \<Rightarrow>
              andthen
                (catch (on_k8s (ws_send (kapi C) ws (stdin_channel # command @ [CHR 0x0A])))
                   (\<lambda>e. forget_shell C i ws e))
                (catch (read_answer C in_time ws False []) (\<lambda>e. forget_shell C i ws e))))"

definition add_env :: "k8s_container \<Rightarrow> (string, string) dict \<Rightarrow> (string, string) dict" where
  "add_env c envs = fold (\<lambda>(k, v). case v of None \<Rightarrow> id | Some t \<Rightarrow> dict_set k t) (kc_env c) envs"

text \<open>All containers first, then \<open>main\<close> again: the first container of that name that has variables.\<close>

definition pod_env :: "k8s_container list \<Rightarrow> (string, string) dict" where
  "pod_env cs =
     (let envs = fold add_env cs []
      in case find (\<lambda>c. kc_name c = ''main'' \<and> kc_env c \<noteq> []) cs of
           None \<Rightarrow> envs | Some c \<Rightarrow> add_env c envs)"

definition k8s_get_env_variables :: "('s, 'k) kctl \<Rightarrow> string \<Rightarrow> (('s, 'k) kworld, (string, string) dict) proc" where
  "k8s_get_env_variables C i =
     bnd (read_pod_named C i) (\<lambda>p. ret (pod_env (sp_containers (p_spec p))))"

end
