(* ===== verification/K8s_Proofs.thy ===== *)
theory K8s_Proofs
  imports K8s_Controller State_Local
begin

text \<open>
  Correctness of the Kubernetes controller: the pod cache holds only shared pods under their own
  subtype, the candidates it gives are usable, cleaning never takes an allocated pod, a pod whose
  deletion fails stays known, and the precedence of environment variables.
\<close>

section \<open>What the calls leave alone\<close>

text \<open>
  The calls of the API server do not touch the shared state or the pod cache, whatever they return
  or raise.
\<close>

definition kept :: "('s \<Rightarrow> (string, (string, pod) dict) dict \<Rightarrow> bool) \<Rightarrow> ('s, 'k) kworld \<Rightarrow> bool" where
  "kept I w \<longleftrightarrow> I (kst w) (pod_cache w)"

lemma kept_update [simp]:
  "kept I (w\<lparr>kk := a\<rparr>) = kept I w" "kept I (w\<lparr>kclient := b\<rparr>) = kept I w"
  "kept I (w\<lparr>kws_client := b\<rparr>) = kept I w" "kept I (w\<lparr>kshells := c\<rparr>) = kept I w"
  "kept I (w\<lparr>cache_initialized := b\<rparr>) = kept I w" "kept I (w\<lparr>cache_version := d\<rparr>) = kept I w"
  "kept I (w\<lparr>watch_task := e\<rparr>) = kept I w" "kept I (w\<lparr>ktasks := f\<rparr>) = kept I w"
  "kept I (w\<lparr>kuuids := g\<rparr>) = kept I w"
  by (simp_all add: kept_def)

definition keeps :: "('s \<Rightarrow> (string, (string, pod) dict) dict \<Rightarrow> bool) \<Rightarrow> (('s, 'k) kworld, 'a) proc \<Rightarrow> bool" where
  "keeps I m \<longleftrightarrow> (\<forall>w. kept I w \<longrightarrow> wp m (\<lambda>_. kept I) (\<lambda>_. kept I) w)"

lemma keepsD: "keeps I m \<Longrightarrow> kept I w \<Longrightarrow> wp m (\<lambda>_. kept I) (\<lambda>_. kept I) w"
  by (simp add: keeps_def)

lemma keepsI: "(\<And>w. kept I w \<Longrightarrow> wp m (\<lambda>_. kept I) (\<lambda>_. kept I) w) \<Longrightarrow> keeps I m"
  by (simp add: keeps_def)

lemma keeps_ret [simp]: "keeps I (ret x)"
  by (simp add: keeps_def)

lemma keeps_raise [simp]: "keeps I (raise e)"
  by (simp add: keeps_def)

lemma keeps_gets [simp]: "keeps I (gets f)"
  by (simp add: keeps_def)

lemma keeps_modify: "(\<And>w. kept I w \<Longrightarrow> kept I (f w)) \<Longrightarrow> keeps I (modify f)"
  by (simp add: keeps_def)

lemma keeps_bnd: "keeps I m \<Longrightarrow> (\<And>x. keeps I (f x)) \<Longrightarrow> keeps I (bnd m f)"
  by (auto simp: keeps_def elim!: wp_mono)

lemma keeps_andthen: "keeps I m \<Longrightarrow> keeps I k \<Longrightarrow> keeps I (andthen m k)"
  by (simp add: andthen_def keeps_bnd)

lemma keeps_catch: "keeps I m \<Longrightarrow> (\<And>e. keeps I (h e)) \<Longrightarrow> keeps I (catch m h)"
  by (auto simp: keeps_def elim!: wp_mono)

lemma keeps_each: "(\<And>x. x \<in> set xs \<Longrightarrow> keeps I (f x)) \<Longrightarrow> keeps I (each f xs)"
  by (induction xs) (auto intro: keeps_andthen)

lemma keeps_lift_res [simp]: "keeps I (lift_res r)"
  by (cases r) (simp_all add: lift_res_def)

lemma keeps_name_of [simp]: "keeps I (name_of p)"
  by (simp add: name_of_def)

lemma keeps_on_k8s [simp]: "keeps I (on_k8s m)"
  by (rule keepsI) (simp add: on_k8s_def, rule wp_any; simp)

lemma keeps_if: "keeps I m \<Longrightarrow> keeps I k \<Longrightarrow> keeps I (if b then m else k)"
  by simp

lemmas keeps_intros =
  keeps_bnd keeps_andthen keeps_catch keeps_each keeps_modify keeps_if

lemma keeps_pod_client [simp]: "keeps I (k8s_get_client C)"
  unfolding k8s_get_client_def by (intro keeps_intros) simp_all

lemma keeps_get_ws_client [simp]: "keeps I (k8s_get_ws_client C)"
  unfolding k8s_get_ws_client_def by (intro keeps_intros) simp_all

lemma keeps_reset_ws_client [simp]: "keeps I (k8s_reset_ws_client C)"
  unfolding k8s_reset_ws_client_def by (intro keeps_intros) simp_all

lemma keeps_reset_pod_client [simp]: "keeps I (k8s_reset_client C)"
  unfolding k8s_reset_client_def by (intro keeps_intros) simp_all

lemma keeps_attempts: "keeps I m \<Longrightarrow> keeps I (k8s_attempts C n m)"
  by (induction n) (auto intro!: keeps_intros)

lemma keeps_ws_attempts: "keeps I m \<Longrightarrow> keeps I (ws_attempts C n m)"
  by (induction n) (auto intro!: keeps_intros)

lemma keeps_kube [simp]: "keeps I (kube C use_ws retry m)"
  by (simp add: kube_def ws_call_def api_call_def keeps_attempts keeps_ws_attempts)

lemma keeps_read_pod [simp]: "keeps I (read_pod_named C i)"
  by (simp add: read_pod_named_def)

section \<open>The pod cache\<close>

definition cached_as :: "string \<Rightarrow> string \<Rightarrow> pod \<Rightarrow> bool" where
  "cached_as subtype name p \<longleftrightarrow>
     (\<exists>m. p_meta p = Some m \<and> m_name m = name \<and> dict_get (labels_of m) k8s_subtype = Some subtype \<and>
          marked_shared (labels_of m))"

definition cache_ok :: "(string, (string, pod) dict) dict \<Rightarrow> bool" where
  "cache_ok cache \<longleftrightarrow>
     (\<forall>t ps. dict_get cache t = Some ps \<longrightarrow> (\<forall>(name, p) \<in> set ps. cached_as t name p))"

abbreviation sound :: "('s, 'k) kworld \<Rightarrow> bool" where
  "sound \<equiv> kept (\<lambda>_. cache_ok)"

lemma record_sound: "sound w \<Longrightarrow> sound (record_pod_cache p w)"
proof -
  assume w: "sound w"
  have old: "\<forall>(name, q) \<in> set (dict_get_or (pod_cache w) t []). cached_as t name q" for t
    using w by (cases "dict_get (pod_cache w) t") (simp_all add: kept_def cache_ok_def dict_get_or_def)
  have "cache_ok (dict_set t (dict_set (m_name m) p (dict_get_or (pod_cache w) t [])) (pod_cache w))"
    if m: "p_meta p = Some m" "marked_shared (labels_of m)" "dict_get (labels_of m) k8s_subtype = Some t" for m t
  proof -
    have "cached_as t (m_name m) p" using m by (simp add: cached_as_def)
    moreover have "(name, q) = (m_name m, p) \<or> (name, q) \<in> set (dict_get_or (pod_cache w) t [])"
      if "(name, q) \<in> set (dict_set (m_name m) p (dict_get_or (pod_cache w) t []))" for name q
      using set_dict_set [OF that] .
    ultimately show ?thesis using w old [of t]
      by (fastforce simp: kept_def cache_ok_def)
  qed
  then show "sound (record_pod_cache p w)" using w
    by (auto simp: record_pod_cache_def kept_def Let_def split: option.split)
qed

lemma evict_sound: "sound w \<Longrightarrow> sound (evict_pod p w)"
proof -
  assume w: "sound w"
  have all: "cache_ok (dict_map (dict_del n) (pod_cache w))" for n
    using w set_dict_del by (fastforce simp: kept_def cache_ok_def)
  have one: "cache_ok (dict_set t (dict_del n ps) (pod_cache w))" if "dict_get (pod_cache w) t = Some ps" for t n ps
    using w that set_dict_del by (fastforce simp: kept_def cache_ok_def)
  show "sound (evict_pod p w)" using w all one
    by (auto simp: evict_pod_def kept_def Let_def split: option.split)
qed

lemma fold_record_sound: "sound w \<Longrightarrow> sound (fold record_pod_cache ps w)"
  by (induction ps arbitrary: w) (auto intro: record_sound)

lemma fresh_cache: "sound (fold record_pod_cache ps (w\<lparr>pod_cache := []\<rparr>))"
  by (rule fold_record_sound) (simp add: kept_def cache_ok_def)

lemma refresh_sound: "keeps (\<lambda>_. cache_ok) (refresh_pod_cache C)"
  unfolding refresh_pod_cache_def
  by (intro keeps_intros keeps_kube)
     (auto intro!: keeps_modify fresh_cache)

lemma watch_events_sound: "keeps (\<lambda>_. cache_ok) (watch_events C n)"
proof (induction n)
  case (Suc n)
  show ?case
    unfolding watch_events.simps
    by (auto intro!: keeps_intros Suc.IH record_sound evict_sound simp: Let_def
        split: option.split watch_event.split)
qed simp

text \<open>
  C20: the pod cache is sound. Whatever the API server answers and whichever events the watch
  delivers, in any number of turns, with errors, relists and reconnections between them, every
  pod in the cache of a subtype is labelled as a shared pod of that subtype and is stored under
  its own name, provided this was so at the start.
\<close>

theorem watch_keeps_cache_sound:
  assumes "cache_ok (pod_cache w)"
  shows "cache_ok (pod_cache (snd (watch_pods C n backoff w)))"
proof -
  have connection: "keeps (\<lambda>_. cache_ok) (watch_connection C)"
    unfolding watch_connection_def
    by (auto intro!: keeps_intros refresh_sound watch_events_sound)
  have turn: "keeps (\<lambda>_. cache_ok) (watch_turn C b)" for b
    unfolding watch_turn_def by (auto intro!: keeps_intros connection)
  have "keeps (\<lambda>_. cache_ok) (watch_pods C n backoff)"
    by (induction n arbitrary: backoff) (auto intro!: keeps_bnd turn)
  from keepsD [OF this, of w] assms show ?thesis
    using wp_inv [of "watch_pods C n backoff" "kept (\<lambda>_. cache_ok)" w] by (simp add: kept_def)
qed

section \<open>A cluster in memory\<close>

text \<open>The pods of the cluster and the events still to be delivered by the watch.\<close>

type_synonym mem_cluster = "pod list \<times> watch_event list"

definition named :: "string \<Rightarrow> pod \<Rightarrow> bool" where
  "named i p \<longleftrightarrow> pod_name p = Inr i"

definition mem_kapi :: "mem_cluster k8s_api" where
  "mem_kapi =
     \<lparr>read_pod = (\<lambda>i s. case find (named i) (fst s) of
          None \<Rightarrow> (Inl (ApiError 404), s) | Some p \<Rightarrow> (Inr p, s)),
      create_pod_call = (\<lambda>m sp (ps, es).
        let p = \<lparr>p_meta = Some m, p_spec = sp, p_status = None\<rparr> in (Inr p, (ps @ [p], es))),
      delete_pod_call = (\<lambda>i (ps, es).
        if list_ex (named i) ps then (Inr (), (filter (\<lambda>p. \<not> named i p) ps, es))
        else (Inl (ApiError 404), (ps, es))),
      patch_owner = (\<lambda>d n u. ret ()),
      list_pods = (\<lambda>sel s. (Inr (fst s, Some ''1''), s)),
      read_service = (\<lambda>i. raise (ApiError 404)),
      exec_connect = (\<lambda>i cmd tty. ret 0),
      ws_next = (\<lambda>x. ret None), ws_receive = (\<lambda>x. raise TimeoutError), ws_send = (\<lambda>x b. ret ()),
      ws_ping = (\<lambda>x. ret ()), ws_close = (\<lambda>x. ret ()), ws_closed = (\<lambda>x k. False),
      parse_error_data = (\<lambda>s. Inr 0), prompt_match = (\<lambda>s. True),
      watch_open = (\<lambda>sel v. ret ()),
      watch_next = (\<lambda>(ps, es). case es of [] \<Rightarrow> (Inr None, (ps, es)) | e # es' \<Rightarrow> (Inr (Some e), (ps, es'))),
      load_config = ret (), client_pool_closed = (\<lambda>k. False), client_close = ret (),
      ws_client_pool_closed = (\<lambda>k. False), ws_client_close = ret (), k8s_sleep = (\<lambda>n. ret ())\<rparr>"

definition mem_kctl :: "(k8s_session local_state, mem_cluster) kctl" where
  "mem_kctl = kctl_init mem_kapi local_provider
     ((base_delegation ''t'')\<lparr>d_create_k8s_pod := (\<lambda>sp t. ret (sp, NoOverrides)),
        d_concurrency_limit := (\<lambda>_. 2), d_reuse_limit := (\<lambda>_. 3)\<rparr>) id 4"

definition mem_pod :: "string \<Rightarrow> string \<Rightarrow> bool \<Rightarrow> pod" where
  "mem_pod name subtype exclusive =
     \<lparr>p_meta = Some \<lparr>m_name = name, m_labels = Some [(k8s_subtype, subtype), (k8s_exclusive, bool_str exclusive)],
        m_annotations = None, m_deleting = False, m_resource_version = Some ''7'', m_uid = None\<rparr>,
      p_spec = \<lparr>sp_active_deadline = None, sp_containers = [], sp_restart_policy = ''Never'',
        sp_grace_period = 0, sp_service_token = None, sp_priority_class = None\<rparr>,
      p_status = Some \<lparr>ps_phase = Some ''Running'', ps_ip = Some ''10.0.0.1'', ps_conditions = [],
        ps_containers = []\<rparr>\<rparr>"

definition mem_kworld :: "pod list \<Rightarrow> watch_event list \<Rightarrow> (k8s_session local_state, mem_cluster) kworld" where
  "mem_kworld ps es = kworld_init (ps, es) (local_init (\<lambda>n. nat_str n, 0)) (\<lambda>n. nat_str n, 0)"

lemma watch_keeps_cache_sound_witness:
  "cache_ok (pod_cache (snd (watch_pods mem_kctl 3 1
     (mem_kworld [mem_pod ''a'' ''default'' False]
        [WatchChanged (Some (mem_pod ''b'' ''default'' False)), WatchError]))))"
  by (rule watch_keeps_cache_sound) (simp add: mem_kworld_def kworld_init_def cache_ok_def)

section \<open>Candidates\<close>

text \<open>
  The candidates for sharing. From a sound cache \<open>_identify_pods\<close> returns, for each subtype,
  only pods of that subtype that are marked as shared, are not being deleted and have not failed,
  succeeded or become unknown, and it leaves the cache sound, also when it raises.
\<close>

lemma candidates_are_usable:
  assumes "cache_ok (pod_cache w)"
  shows "wp (identify_pods C subtypes)
     (\<lambda>d v. cache_ok (pod_cache v) \<and>
        (\<forall>(t, ps) \<in> set d. \<forall>p \<in> set ps. usable_pod p \<and> (\<exists>name. cached_as t name p)))
     (\<lambda>_ v. cache_ok (pod_cache v)) w"
proof -
  have fold_in: "(t, ps) \<in> set (fold (\<lambda>s. dict_set s (f s)) ss d) \<Longrightarrow> ps = f t \<or> (t, ps) \<in> set d"
    for t ps ss and f :: "string \<Rightarrow> pod list" and d
  proof (induction ss arbitrary: d)
    case (Cons s ss)
    then show ?case using set_dict_set [of "(t, ps)" s "f s" d] by fastforce
  qed simp
  have good: "usable_pod p \<and> (\<exists>name. cached_as t name p)"
    if "cache_ok cache" "p \<in> set (filter usable_pod (map snd (dict_get_or cache t [])))" for cache t p
  proof (cases "dict_get cache t")
    case None
    then show ?thesis using that by (simp add: dict_get_or_def)
  next
    case (Some ps)
    then show ?thesis using that by (fastforce simp: dict_get_or_def cache_ok_def)
  qed
  have result: "\<forall>(t, ps) \<in> set (fold (\<lambda>s. dict_set s (filter usable_pod (map snd (dict_get_or cache s [])))) ss []).
      \<forall>p \<in> set ps. usable_pod p \<and> (\<exists>name. cached_as t name p)" if "cache_ok cache" for cache ss
  proof (clarify)
    fix t ps p
    assume "(t, ps) \<in> set (fold (\<lambda>s. dict_set s (filter usable_pod (map snd (dict_get_or cache s [])))) ss [])"
      and p: "p \<in> set ps"
    then have "ps = filter usable_pod (map snd (dict_get_or cache t []))" using fold_in by fastforce
    with p good [OF that] show "usable_pod p \<and> (\<exists>name. cached_as t name p)" by blast
  qed
  have start: "keeps (\<lambda>_. cache_ok) (bnd (gets cache_initialized) (\<lambda>ready.
      if ready then ret () else andthen (refresh_pod_cache C) ensure_pod_watch_started))"
    by (auto intro!: keeps_intros refresh_sound simp: ensure_pod_watch_started_def)
  show ?thesis
    unfolding identify_pods_def wp_andthen
    apply (rule wp_mono [OF keepsD [OF start, of w]])
      apply (use assms in \<open>simp add: kept_def\<close>)
     apply (simp only: wp_gets kept_def)
     apply (rule conjI, simp)
     apply (rule result, assumption)
    apply (simp add: kept_def)
    done
qed

lemma candidates_are_usable_witness:
  "wp (identify_pods mem_kctl [''default''])
     (\<lambda>d v. cache_ok (pod_cache v) \<and>
        (\<forall>(t, ps) \<in> set d. \<forall>p \<in> set ps. usable_pod p \<and> (\<exists>name. cached_as t name p)))
     (\<lambda>_ v. cache_ok (pod_cache v)) (mem_kworld [mem_pod ''a'' ''default'' False] [])"
  by (rule candidates_are_usable) (simp add: mem_kworld_def kworld_init_def cache_ok_def)

section \<open>Deleting and cleaning\<close>

text \<open>On the in-memory provider: allocations and session data.\<close>

definition kcalm ::
    "(string \<Rightarrow> string set) \<Rightarrow> (string \<Rightarrow> k8s_session option) \<Rightarrow> k8s_session local_state \<Rightarrow> bool" where
  "kcalm A S s \<longleftrightarrow> local_ok s \<and> r_alloc (local_abs s) = A \<and> r_sess (local_abs s) = S"

lemma wp_on_kst:
  "wp (on_kst m) Q E = (\<lambda>w. wp m (\<lambda>x s. Q x (w\<lparr>kst := s\<rparr>)) (\<lambda>e s. E e (w\<lparr>kst := s\<rparr>)) (kst w))"
  by (simp add: on_kst_def)

lemma evict_kst [simp]: "kst (evict_pod p w) = kst w"
  by (simp add: evict_pod_def Let_def split: option.split)

lemma record_kst [simp]: "kst (record_pod_cache p w) = kst w"
  by (simp add: record_pod_cache_def Let_def split: option.split)

lemma keeps_drop_shell [simp]: "keeps I (drop_shell C name)"
  unfolding drop_shell_def by (auto intro!: keeps_intros split: option.split)

abbreviation state_only :: "('s \<Rightarrow> bool) \<Rightarrow> 's \<Rightarrow> (string, (string, pod) dict) dict \<Rightarrow> bool" where
  "state_only J \<equiv> (\<lambda>s _. J s)"

lemma fold_record_kst [simp]: "kst (fold record_pod_cache ps w) = kst w"
  by (induction ps arbitrary: w) simp_all

lemma keeps_refresh_state: "keeps (state_only J) (refresh_pod_cache C)"
  unfolding refresh_pod_cache_def by (auto intro!: keeps_intros simp: kept_def)

lemma keeps_identify_state: "keeps (state_only J) (identify_pods C subtypes)"
  unfolding identify_pods_def
  by (auto intro!: keeps_intros keeps_refresh_state simp: ensure_pod_watch_started_def)

lemma delete_pod_keeps:
  fixes C :: "(k8s_session local_state, 'k) kctl"
  assumes "kprov C = local_provider" and "\<And>name. pod_name p = Inr name \<Longrightarrow> A name = {}"
  shows "keeps (state_only (kcalm A S)) (delete_pod C p)"
proof -
  have remove: "keeps (state_only (kcalm A S))
      (on_kst (remove_container (kprov C) name) :: ((_, 'k) kworld, unit) proc)" if "A name = {}" for name
    unfolding assms(1)
    by (rule keepsI)
       (use that in \<open>auto simp: wp_on_kst kept_def kcalm_def reg_remove_def fun_eq_iff
          intro!: local.wp_remove split: if_splits\<close>)
  have "keeps (state_only (kcalm A S))
     (bnd (lift_res (pod_name p)) (\<lambda>name.
        bnd (catch (andthen (kube C False True (delete_pod_call (kapi C) name)) (ret True)) (\<lambda>_. ret False))
          (\<lambda>deleted. if \<not> deleted then ret ()
             else andthen (modify (evict_pod p)) (on_kst (remove_container (kprov C) name)))))"
  proof (cases "pod_name p")
    case (Inr name)
    have "A name = {}" by (rule assms(2) [OF Inr])
    then show ?thesis
      unfolding Inr lift_res_def sum.case bnd_ret_left
      by (intro keeps_intros remove) (simp_all add: kept_def)
  qed (simp add: lift_res_def)
  then show ?thesis
    unfolding delete_pod_def name_of_def
    by (auto intro!: keeps_andthen split: option.split)
qed

text \<open>The test whether a pod is allocated, before it is deleted.\<close>

lemma if_busy_keeps:
  fixes C :: "(k8s_session local_state, 'k) kctl"
  assumes "kprov C = local_provider"
    and "\<And>name. pod_name p = Inr name \<Longrightarrow> A name = {} \<Longrightarrow> keeps (state_only (kcalm A S)) (k name)"
  shows "keeps (state_only (kcalm A S))
     (bnd (name_of p) (\<lambda>name.
        bnd (on_kst (container_is_allocated (kprov C) name)) (\<lambda>busy. if busy then ret () else k name))
      :: ((_, 'k) kworld, unit) proc)"
proof (rule keepsI)
  fix w :: "(k8s_session local_state, 'k) kworld"
  assume w: "kept (state_only (kcalm A S)) w"
  show "wp (bnd (name_of p) (\<lambda>name.
        bnd (on_kst (container_is_allocated (kprov C) name)) (\<lambda>busy. if busy then ret () else k name)))
      (\<lambda>_. kept (state_only (kcalm A S))) (\<lambda>_. kept (state_only (kcalm A S))) w"
  proof (cases "pod_name p")
    case (Inl e)
    then show ?thesis using w by (simp add: name_of_def)
  next
    case (Inr name)
    have ok: "local_ok (kst w)" using w by (simp add: kept_def kcalm_def)
    show ?thesis
      unfolding name_of_def Inr wp_bnd wp_lift_res sum.case wp_on_kst assms(1)
    proof (rule local.wp_is_allocated [OF ok])
      fix t assume t: "local_ok t" "local_abs t = local_abs (kst w)"
      then have v: "kept (state_only (kcalm A S)) (w\<lparr>kst := t\<rparr>)" using w by (simp add: kept_def kcalm_def)
      show "wp (if r_alloc (local_abs (kst w)) name \<noteq> {} then ret () else k name)
          (\<lambda>_. kept (state_only (kcalm A S))) (\<lambda>_. kept (state_only (kcalm A S))) (w\<lparr>kst := t\<rparr>)"
        using v keepsD [OF assms(2) [OF Inr] v] w by (auto simp: kept_def kcalm_def)
    qed simp
  qed
qed

lemma keeps_total_uses:
  fixes C :: "(k8s_session local_state, 'k) kctl"
  assumes "kprov C = local_provider"
  shows "keeps (state_only (kcalm A S)) (on_kst (container_total_uses (kprov C) name) :: ((_, 'k) kworld, nat) proc)"
  unfolding assms
  by (rule keepsI) (auto simp: wp_on_kst kept_def kcalm_def intro!: local.wp_total_uses)

text \<open>
  The cleaning task never takes a pod away from a session. Whatever the API server returns or
  raises, and however the cleaning ends, every pod is allocated to the same sessions after it as
  before, and the stored sessions are the same.
\<close>

lemma pod_cleaning_keeps_allocations:
  fixes C :: "(k8s_session local_state, 'k) kctl"
  assumes "kprov C = local_provider" and "local_ok (kst w)"
  shows "r_alloc (local_abs (kst (snd (clean_pods C w)))) = r_alloc (local_abs (kst w))"
proof -
  let ?A = "r_alloc (local_abs (kst w))" and ?S = "r_sess (local_abs (kst w))"
  note del = delete_pod_keeps [OF assms(1), of _ ?A ?S]
  have free: "keeps (state_only (kcalm ?A ?S)) (delete_pod_if_free C p)" for p
    unfolding delete_pod_if_free_def by (rule if_busy_keeps [OF assms(1)], rule del) simp
  have broken: "keeps (state_only (kcalm ?A ?S)) (delete_pod_if_broken C p)" for p
    unfolding delete_pod_if_broken_def
    by (rule if_busy_keeps [OF assms(1)], rule keeps_if, rule del) simp_all
  have spent: "keeps (state_only (kcalm ?A ?S)) (delete_pod_if_spent C u p)" for u p
    unfolding delete_pod_if_spent_def
    by (rule if_busy_keeps [OF assms(1)], rule keeps_bnd [OF keeps_total_uses [OF assms(1)]],
        rule keeps_if, simp, rule del) simp
  have "keeps (state_only (kcalm ?A ?S)) (clean_pods C)"
    unfolding clean_pods_def
    by (auto intro!: keeps_bnd keeps_andthen keeps_each keeps_identify_state free broken spent simp: Let_def)
  from wp_inv [OF keepsD [OF this, of w]] assms(2) show ?thesis by (simp add: kept_def kcalm_def)
qed

lemma pod_cleaning_keeps_allocations_witness:
  "let w = mem_kworld [mem_pod ''a'' ''default'' True, mem_pod ''b'' ''default'' True] [];
       v = w\<lparr>kst := snd (local_allocate_container ''b'' ''s0'' (kst w))\<rparr>
   in r_alloc (local_abs (kst (snd (clean_pods mem_kctl v)))) ''b'' = {''s0''}"
proof -
  let ?w = "mem_kworld [mem_pod ''a'' ''default'' True, mem_pod ''b'' ''default'' True] []"
  let ?v = "?w\<lparr>kst := snd (local_allocate_container ''b'' ''s0'' (kst ?w))\<rparr>"
  obtain t where t: "local_allocate_container ''b'' ''s0'' (kst ?w) = (Inr (), t)" "local_ok t"
      "local_abs t = reg_allocate ''b'' ''s0'' (local_abs (kst ?w))"
    using local_allocate_spec [of "kst ?w" "''b''" "''s0''"] local_init_ok
    by (auto simp: mem_kworld_def kworld_init_def)
  then have "r_alloc (local_abs (kst ?v)) ''b'' = {''s0''}"
    by (simp add: reg_allocate_def mem_kworld_def kworld_init_def local_abs_def local_init_def dict_get_or_def)
  with pod_cleaning_keeps_allocations [of mem_kctl ?v] t(1,2) show ?thesis
    by (simp add: Let_def mem_kctl_def kctl_init_def)
qed

text \<open>
  A pod that is already gone stays registered. When the API server answers the deletion with
  404, \<open>delete_pod\<close> returns without an exception, but neither the pod cache nor the shared state
  forgets the pod: its allocations and its use counter remain.
\<close>

lemma deleting_a_gone_pod_keeps_it:
  assumes "pod_name p = Inr name" and "dict_get (kshells w) name = None" and "kclient w"
    and "\<not> client_pool_closed (kapi C) (kk w)"
    and "delete_pod_call (kapi C) name (kk w) = (Inl (ApiError 404), k')"
  shows "\<exists>w'. delete_pod C p w = (Inr (), w') \<and> kst w' = kst w \<and> pod_cache w' = pod_cache w"
proof -
  let ?w = "w\<lparr>kshells := dict_del name (kshells w)\<rparr>"
  have client: "k8s_get_client C v = (Inr (), v)"
    if "kclient v" "\<not> client_pool_closed (kapi C) (kk v)" for v
    using that by (simp add: k8s_get_client_def andthen_def bnd_def gets_def ret_def)
  have call: "kube C False True (delete_pod_call (kapi C) name) v = (Inl (ApiError 404), v\<lparr>kk := k'\<rparr>)"
    if "kclient v" "kk v = kk w" for v
    using client [of v] that assms(4,5)
    by (simp add: kube_def api_call_def numeral_2_eq_2 andthen_def bnd_def catch_def on_k8s_def zoom_def raise_def)
  obtain m where m: "p_meta p = Some m" "m_name m = name"
    using assms(1) by (auto simp: pod_name_def split: option.splits)
  obtain v where v: "(case p_meta p of None \<Rightarrow> ret () | Some m \<Rightarrow>
        if m_name m = [] then ret () else drop_shell C (m_name m)) w = (Inr (), v)"
      "kclient v" "kk v = kk w" "kst v = kst w" "pod_cache v = pod_cache w"
    using assms(2,3) m
    by (cases "name = []") (simp_all add: drop_shell_def bnd_def gets_def andthen_def modify_def ret_def)
  show ?thesis
    using v(1) call [OF v(2,3)] v(4,5)
    by (simp add: delete_pod_def name_of_def assms(1) lift_res_def andthen_def)
       (simp add: bnd_def catch_def ret_def)
qed

lemma deleting_a_gone_pod_keeps_it_witness:
  "let w = (mem_kworld [] [])\<lparr>kclient := True\<rparr>
   in \<exists>w'. delete_pod mem_kctl (mem_pod ''a'' ''default'' False) w = (Inr (), w') \<and> kst w' = kst w \<and>
           pod_cache w' = pod_cache w"
proof -
  let ?w = "(mem_kworld [] [])\<lparr>kclient := True\<rparr>"
  have "\<exists>w'. delete_pod mem_kctl (mem_pod ''a'' ''default'' False) ?w = (Inr (), w') \<and> kst w' = kst ?w \<and>
           pod_cache w' = pod_cache ?w"
    by (rule deleting_a_gone_pod_keeps_it [where name = "''a''" and k' = "([], [])"])
       (simp_all add: pod_name_def mem_pod_def mem_kworld_def kworld_init_def mem_kctl_def kctl_init_def mem_kapi_def)
  then show ?thesis by (simp add: Let_def)
qed

section \<open>Environment variables\<close>

text \<open>The value a container gives a variable directly: the last one listed.\<close>

definition own_value :: "k8s_container \<Rightarrow> string \<Rightarrow> string option" where
  "own_value c k = Option.bind (find (\<lambda>(n, v). n = k \<and> v \<noteq> None) (rev (kc_env c))) snd"

fun first_some :: "'a option list \<Rightarrow> 'a option" where
  "first_some [] = None"
| "first_some (None # xs) = first_some xs"
| "first_some (Some x # xs) = Some x"

lemma first_some_append:
  "first_some (xs @ ys) = (case first_some xs of None \<Rightarrow> first_some ys | Some x \<Rightarrow> Some x)"
  by (induction xs rule: first_some.induct) simp_all

lemma add_env_value:
  "dict_get (add_env c envs) k = (case own_value c k of None \<Rightarrow> dict_get envs k | Some v \<Rightarrow> Some v)"
proof -
  have "dict_get (fold (\<lambda>(k, v). case v of None \<Rightarrow> id | Some t \<Rightarrow> dict_set k t) es envs) k =
      (case Option.bind (find (\<lambda>(n, v). n = k \<and> v \<noteq> None) (rev es)) snd of
         None \<Rightarrow> dict_get envs k | Some v \<Rightarrow> Some v)" for es
  proof (induction es rule: rev_induct)
    case (snoc e es)
    obtain n v where e: "e = (n, v)" by (cases e)
    show ?case using snoc by (cases v) (auto simp: e)
  qed simp
  then show ?thesis by (simp add: add_env_def own_value_def)
qed

lemma fold_add_env_value:
  "dict_get (fold add_env cs envs) k =
     (case first_some (map (\<lambda>c. own_value c k) (rev cs)) of None \<Rightarrow> dict_get envs k | Some v \<Rightarrow> Some v)"
  by (induction cs arbitrary: envs)
     (auto simp: add_env_value first_some_append split: option.split)

text \<open>
  The precedence of environment variables in a pod. A variable has the value that the first
  container named \<open>main\<close> with variables gives it; if it gives none, the value of the last container
  that gives one; variables without a direct value count as absent.
\<close>

lemma env_precedence:
  "dict_get (pod_env cs) k =
     first_some (map (\<lambda>c. own_value c k)
       (take 1 (filter (\<lambda>c. kc_name c = ''main'' \<and> kc_env c \<noteq> []) cs) @ rev cs))"
proof (cases "find (\<lambda>c. kc_name c = ''main'' \<and> kc_env c \<noteq> []) cs")
  case None
  then have "filter (\<lambda>c. kc_name c = ''main'' \<and> kc_env c \<noteq> []) cs = []"
    by (auto simp: find_None_iff filter_empty_conv)
  then show ?thesis using None
    by (simp add: pod_env_def fold_add_env_value Let_def split: option.split)
next
  case (Some c)
  have "\<exists>ds. filter P cs = c # ds" if "find P cs = Some c" for P
    using that by (induction cs) (auto split: if_splits)
  from this [OF Some] obtain ds where "filter (\<lambda>c. kc_name c = ''main'' \<and> kc_env c \<noteq> []) cs = c # ds" by blast
  then show ?thesis using Some
    by (cases "own_value c k")
       (simp_all add: pod_env_def fold_add_env_value add_env_value Let_def split: option.split)
qed

section \<open>Dependencies\<close>

text \<open>
  A pod with annotations of which none names dependencies is treated as if it depended on a
  pod without a name: one patch is sent, and it addresses the empty name. A pod without
  annotations sends none.
\<close>

lemma missing_annotation_patches_empty_name:
  assumes "p_meta p = Some m"
    and "\<forall>as. m_annotations m = Some as \<longrightarrow> dict_get as k8s_depends_on = None"
  shows "patch_dependencies C p =
     (if m_annotations m = None \<or> m_annotations m = Some [] then ret ()
      else andthen
        (catch (kube C False True (patch_owner (kapi C) [] (m_name m) (m_uid m)))
           (\<lambda>e. case e of ApiError n \<Rightarrow> ret () | _ \<Rightarrow> raise e)) (ret ()))"
  using assms by (cases "m_annotations m") (auto simp: patch_dependencies_def dict_get_or_def)

lemma missing_annotation_patches_empty_name_witness:
  "let p = (mem_pod ''a'' ''default'' False)\<lparr>p_meta := Some \<lparr>m_name = ''a'', m_labels = None,
         m_annotations = Some [(''note'', ''x'')], m_deleting = False, m_resource_version = None, m_uid = None\<rparr>\<rparr>
   in patch_dependencies mem_kctl p =
        andthen (catch (kube mem_kctl False True (patch_owner (kapi mem_kctl) [] ''a'' None))
           (\<lambda>e. case e of ApiError n \<Rightarrow> ret () | _ \<Rightarrow> raise e)) (ret ())"
proof -
  let ?m = "\<lparr>m_name = ''a'', m_labels = None, m_annotations = Some [(''note'', ''x'')], m_deleting = False,
      m_resource_version = None, m_uid = None\<rparr>"
  show ?thesis
    using missing_annotation_patches_empty_name
      [of "(mem_pod ''a'' ''default'' False)\<lparr>p_meta := Some ?m\<rparr>" ?m mem_kctl]
    by (simp add: Let_def k8s_depends_on_def)
qed

end
