(* ===== verification/RWLock.thy ===== *)
theory RWLock
  imports Prelude
begin

text \<open>
  The writer-preferring lock (trainer/src/agentrl/trainer/utils/aio\_rwlock.py). Between two awaits
  a coroutine of one event loop is not interrupted, and the internal lock is free at every await, so
  each method is a sequence of atomic steps; \<open>cond.wait()\<close> is the boundary between them. A task
  that waits is either asleep on the condition or has been notified; a cancelled reader leaves its
  block through \<open>__aexit__\<close>.
\<close>

section \<open>State\<close>

datatype phase =
    Idle
  | ReaderAsleep | ReaderWoken | Reading | ReadingCancelled
  | WriterAsleep | WriterWoken | Writing

record rwlock =
  readers :: int
  writer_active :: bool
  waiting_writers :: int
  active_readers :: "nat set"
  phases :: "nat \<Rightarrow> phase"

definition rw_init :: rwlock where
  "rw_init = \<lparr>readers = 0, writer_active = False, waiting_writers = 0, active_readers = {},
              phases = (\<lambda>_. Idle)\<rparr>"

definition set_phase :: "nat \<Rightarrow> phase \<Rightarrow> rwlock \<Rightarrow> rwlock" where
  "set_phase t p s = s\<lparr>phases := (phases s)(t := p)\<rparr>"

text \<open>\<open>cond.notify_all()\<close>.\<close>

definition notify_all :: "rwlock \<Rightarrow> rwlock" where
  "notify_all s = s\<lparr>phases := (\<lambda>t. case phases s t of
     ReaderAsleep \<Rightarrow> ReaderWoken | WriterAsleep \<Rightarrow> WriterWoken | p \<Rightarrow> p)\<rparr>"

section \<open>The methods\<close>

text \<open>From the start of \<open>acquire_reader\<close>, or from a wake-up, to the next wait or to the end.\<close>

definition try_reader :: "nat \<Rightarrow> rwlock \<Rightarrow> rwlock" where
  "try_reader t s =
     (if writer_active s \<or> waiting_writers s > 0 then set_phase t ReaderAsleep s
      else set_phase t Reading (s\<lparr>readers := readers s + 1, active_readers := insert t (active_readers s)\<rparr>))"

definition release_reader :: "nat \<Rightarrow> rwlock \<Rightarrow> rwlock" where
  "release_reader t s =
     (let s1 = s\<lparr>readers := readers s - 1, active_readers := active_readers s - {t}\<rparr>;
          s2 = (if readers s1 = 0 then notify_all s1 else s1)
      in set_phase t Idle s2)"

text \<open>The loop of \<open>acquire_writer\<close>; when it ends, the \<open>finally\<close> block has run.\<close>

definition try_writer :: "nat \<Rightarrow> rwlock \<Rightarrow> rwlock" where
  "try_writer t s =
     (if writer_active s \<or> readers s > 0 then set_phase t WriterAsleep s
      else set_phase t Writing (s\<lparr>writer_active := True, waiting_writers := waiting_writers s - 1\<rparr>))"

text \<open>The start of \<open>acquire_writer\<close>: it announces the writer and cancels the active readers.\<close>

definition cancel_readers :: "rwlock \<Rightarrow> rwlock" where
  "cancel_readers s = s\<lparr>phases := (\<lambda>t.
     if t \<in> active_readers s \<and> phases s t = Reading then ReadingCancelled else phases s t)\<rparr>"

definition start_writer :: "nat \<Rightarrow> rwlock \<Rightarrow> rwlock" where
  "start_writer t s =
     try_writer t (cancel_readers (s\<lparr>waiting_writers := waiting_writers s + 1\<rparr>))"

text \<open>A writer that is cancelled while it waits: the \<open>finally\<close> block, and nobody is notified.\<close>

definition abandon_writer :: "nat \<Rightarrow> rwlock \<Rightarrow> rwlock" where
  "abandon_writer t s = set_phase t Idle (s\<lparr>waiting_writers := waiting_writers s - 1\<rparr>)"

definition release_writer :: "nat \<Rightarrow> rwlock \<Rightarrow> rwlock" where
  "release_writer t s = set_phase t Idle (notify_all (s\<lparr>writer_active := False\<rparr>))"

section \<open>Steps\<close>

text \<open>What a task does next; cancelling a wait is the task's own step.\<close>

datatype rw_label =
    AcquireReader nat | LeaveReader nat | CancelReader nat
  | BeginWriter nat | RetryWriter nat | CancelWriter nat | LeaveWriter nat

inductive rw_step :: "rwlock \<Rightarrow> rw_label \<Rightarrow> rwlock \<Rightarrow> bool" where
  acquire_reader: "phases s t = Idle \<or> phases s t = ReaderWoken \<Longrightarrow> rw_step s (AcquireReader t) (try_reader t s)"
| leave_reader: "phases s t = Reading \<or> phases s t = ReadingCancelled \<Longrightarrow> rw_step s (LeaveReader t) (release_reader t s)"
| cancel_reader: "phases s t = ReaderAsleep \<or> phases s t = ReaderWoken \<Longrightarrow> rw_step s (CancelReader t) (set_phase t Idle s)"
| begin_writer: "phases s t = Idle \<Longrightarrow> rw_step s (BeginWriter t) (start_writer t s)"
| retry_writer: "phases s t = WriterWoken \<Longrightarrow> rw_step s (RetryWriter t) (try_writer t s)"
| cancel_writer: "phases s t = WriterAsleep \<or> phases s t = WriterWoken \<Longrightarrow> rw_step s (CancelWriter t) (abandon_writer t s)"
| leave_writer: "phases s t = Writing \<Longrightarrow> rw_step s (LeaveWriter t) (release_writer t s)"

inductive rw_path :: "rwlock \<Rightarrow> rw_label list \<Rightarrow> rwlock \<Rightarrow> bool" where
  nil: "rw_path s [] s"
| snoc: "rw_path s ls t \<Longrightarrow> rw_step t l u \<Longrightarrow> rw_path s (ls @ [l]) u"

inductive_cases rw_stepE: "rw_step s l t"

section \<open>The invariant\<close>

definition reading :: "rwlock \<Rightarrow> nat set" where
  "reading s = {t. phases s t = Reading \<or> phases s t = ReadingCancelled}"

definition writing :: "rwlock \<Rightarrow> nat set" where
  "writing s = {t. phases s t = Writing}"

definition queued :: "rwlock \<Rightarrow> nat set" where
  "queued s = {t. phases s t = WriterAsleep \<or> phases s t = WriterWoken}"

text \<open>The counters are what they count, and the lock is held by readers or by one writer.\<close>

definition rw_inv :: "rwlock \<Rightarrow> bool" where
  "rw_inv s \<longleftrightarrow>
     finite (reading s) \<and> readers s = int (card (reading s)) \<and> active_readers s = reading s \<and>
     finite (queued s) \<and> waiting_writers s = int (card (queued s)) \<and>
     (if writer_active s then (\<exists>t. writing s = {t}) \<and> reading s = {} else writing s = {})"

lemma set_phase_sel [simp]:
  "readers (set_phase t p s) = readers s" "writer_active (set_phase t p s) = writer_active s"
  "waiting_writers (set_phase t p s) = waiting_writers s"
  "active_readers (set_phase t p s) = active_readers s"
  "phases (set_phase t p s) = (phases s)(t := p)"
  by (simp_all add: set_phase_def)

lemma notify_sel [simp]:
  "readers (notify_all s) = readers s" "writer_active (notify_all s) = writer_active s"
  "waiting_writers (notify_all s) = waiting_writers s" "active_readers (notify_all s) = active_readers s"
  by (simp_all add: notify_all_def)

lemma notify_phase:
  "phases (notify_all s) t = Idle \<longleftrightarrow> phases s t = Idle"
  "phases (notify_all s) t = Reading \<longleftrightarrow> phases s t = Reading"
  "phases (notify_all s) t = ReadingCancelled \<longleftrightarrow> phases s t = ReadingCancelled"
  "phases (notify_all s) t = Writing \<longleftrightarrow> phases s t = Writing"
  "phases (notify_all s) t \<noteq> ReaderAsleep" "phases (notify_all s) t \<noteq> WriterAsleep"
  "phases (notify_all s) t = WriterWoken \<longleftrightarrow> phases s t = WriterWoken \<or> phases s t = WriterAsleep"
  by (auto simp: notify_all_def split: phase.splits)

lemma reading_set_phase:
  "reading (set_phase t p s) =
     (if p = Reading \<or> p = ReadingCancelled then insert t (reading s) else reading s - {t})"
  by (auto simp: reading_def)

lemma writing_set_phase:
  "writing (set_phase t p s) = (if p = Writing then insert t (writing s) else writing s - {t})"
  by (auto simp: writing_def)

lemma queued_set_phase:
  "queued (set_phase t p s) =
     (if p = WriterAsleep \<or> p = WriterWoken then insert t (queued s) else queued s - {t})"
  by (auto simp: queued_def)

lemma notify_sets [simp]:
  "reading (notify_all s) = reading s" "writing (notify_all s) = writing s" "queued (notify_all s) = queued s"
  by (auto simp: reading_def writing_def queued_def notify_phase)

lemma cancel_sets [simp]:
  "reading (cancel_readers s) = reading s" "writing (cancel_readers s) = writing s"
  "queued (cancel_readers s) = queued s"
  "readers (cancel_readers s) = readers s" "writer_active (cancel_readers s) = writer_active s"
  "waiting_writers (cancel_readers s) = waiting_writers s" "active_readers (cancel_readers s) = active_readers s"
  by (auto simp: reading_def writing_def queued_def cancel_readers_def)

lemma update_sets [simp]:
  "reading (s\<lparr>readers := a\<rparr>) = reading s" "writing (s\<lparr>readers := a\<rparr>) = writing s" "queued (s\<lparr>readers := a\<rparr>) = queued s"
  "reading (s\<lparr>active_readers := b\<rparr>) = reading s" "writing (s\<lparr>active_readers := b\<rparr>) = writing s"
  "queued (s\<lparr>active_readers := b\<rparr>) = queued s"
  "reading (s\<lparr>waiting_writers := c\<rparr>) = reading s" "writing (s\<lparr>waiting_writers := c\<rparr>) = writing s"
  "queued (s\<lparr>waiting_writers := c\<rparr>) = queued s"
  "reading (s\<lparr>writer_active := d\<rparr>) = reading s" "writing (s\<lparr>writer_active := d\<rparr>) = writing s"
  "queued (s\<lparr>writer_active := d\<rparr>) = queued s"
  by (simp_all add: reading_def writing_def queued_def)

lemmas rw_sets = reading_set_phase writing_set_phase queued_set_phase

lemma phase_sets:
  "phases s t = Idle \<or> phases s t = ReaderWoken \<or> phases s t = ReaderAsleep \<Longrightarrow>
     t \<notin> reading s \<and> t \<notin> writing s \<and> t \<notin> queued s"
  "phases s t = Reading \<or> phases s t = ReadingCancelled \<Longrightarrow> t \<in> reading s \<and> t \<notin> writing s \<and> t \<notin> queued s"
  "phases s t = WriterAsleep \<or> phases s t = WriterWoken \<Longrightarrow> t \<in> queued s \<and> t \<notin> reading s \<and> t \<notin> writing s"
  "phases s t = Writing \<Longrightarrow> t \<in> writing s \<and> t \<notin> reading s \<and> t \<notin> queued s"
  by (auto simp: reading_def writing_def queued_def)

lemma card_pos: "finite A \<Longrightarrow> t \<in> A \<Longrightarrow> int (card (A - {t})) = int (card A) - 1"
  using card_Suc_Diff1 [of A t] by linarith

lemma rw_inv_step:
  assumes "rw_inv s" and "rw_step s l t"
  shows "rw_inv t"
  using assms(2)
proof (cases rule: rw_step.cases)
  case (acquire_reader u)
  have u: "u \<notin> reading s" "u \<notin> writing s" "u \<notin> queued s"
    using phase_sets(1) [of s u] acquire_reader(3) by auto
  have "\<not> writer_active s \<Longrightarrow> rw_inv (set_phase u Reading (s\<lparr>readers := readers s + 1, active_readers := insert u (active_readers s)\<rparr>))"
    using assms(1) u by (simp add: rw_inv_def rw_sets)
  moreover have "rw_inv (set_phase u ReaderAsleep s)"
    using assms(1) u by (simp add: rw_inv_def rw_sets)
  ultimately show ?thesis using acquire_reader(2) by (simp add: try_reader_def)
next
  case (leave_reader u)
  have u: "u \<in> reading s" "u \<notin> writing s" "u \<notin> queued s"
    using phase_sets(2) [of s u] leave_reader(3) by auto
  have c: "int (card (reading s - {u})) = int (card (reading s)) - 1"
    using card_pos [of "reading s" u] u assms(1) by (simp add: rw_inv_def)
  then have "rw_inv (set_phase u Idle (s\<lparr>readers := readers s - 1, active_readers := active_readers s - {u}\<rparr>))"
    using assms(1) u by (auto simp: rw_inv_def rw_sets split: if_splits)
  moreover have "rw_inv (set_phase u Idle (notify_all (s\<lparr>readers := readers s - 1, active_readers := active_readers s - {u}\<rparr>)))"
    using assms(1) u c by (auto simp: rw_inv_def rw_sets split: if_splits)
  ultimately show ?thesis using leave_reader(2)
    by (cases "readers s = 1") (simp_all add: release_reader_def Let_def)
next
  case (cancel_reader u)
  have u: "u \<notin> reading s" "u \<notin> writing s" "u \<notin> queued s"
    using phase_sets(1) [of s u] cancel_reader(3) by auto
  then show ?thesis using assms(1) cancel_reader(2) by (simp add: rw_inv_def rw_sets)
next
  case (begin_writer u)
  have u: "u \<notin> reading s" "u \<notin> writing s" "u \<notin> queued s"
    using phase_sets(1) [of s u] begin_writer(3) by auto
  then show ?thesis using assms(1) begin_writer(2)
    by (auto simp: rw_inv_def start_writer_def try_writer_def rw_sets)
next
  case (retry_writer u)
  have u: "u \<in> queued s" "u \<notin> reading s" "u \<notin> writing s" using phase_sets(3) [of s u] retry_writer(3) by auto
  have c: "int (card (queued s - {u})) = int (card (queued s)) - 1"
    using card_pos [of "queued s" u] u assms(1) by (simp add: rw_inv_def)
  show ?thesis using assms(1) u c retry_writer(2)
    by (auto simp: rw_inv_def try_writer_def rw_sets insert_absorb)
next
  case (cancel_writer u)
  have u: "u \<in> queued s" "u \<notin> reading s" "u \<notin> writing s" using phase_sets(3) [of s u] cancel_writer(3) by auto
  have c: "int (card (queued s - {u})) = int (card (queued s)) - 1"
    using card_pos [of "queued s" u] u assms(1) by (simp add: rw_inv_def)
  show ?thesis using assms(1) u c cancel_writer(2) by (simp add: rw_inv_def abandon_writer_def rw_sets)
next
  case (leave_writer u)
  have u: "u \<in> writing s" "u \<notin> reading s" "u \<notin> queued s" using phase_sets(4) [of s u] leave_writer(3) by auto
  show ?thesis using assms(1) u leave_writer(2)
    by (auto simp: rw_inv_def release_writer_def rw_sets split: if_splits)
qed

lemma rw_inv_init: "rw_inv rw_init"
  by (simp add: rw_inv_def rw_init_def reading_def writing_def queued_def)

lemma rw_inv_path: "rw_path s ls t \<Longrightarrow> rw_inv s \<Longrightarrow> rw_inv t"
  by (induction rule: rw_path.induct) (auto intro: rw_inv_step)

section \<open>Exclusion\<close>

lemma rw_path_one: "rw_step s l t \<Longrightarrow> rw_path s [l] t"
  using rw_path.snoc [OF rw_path.nil] by fastforce

text \<open>
  C4: the lock counts and excludes. On every path of steps from the fresh lock, with tasks that are
  cancelled or not, the reader count is the number of tasks that read, the set of active readers
  holds exactly these tasks, the count of waiting writers is the number of writers that wait, the
  writer flag is set exactly when some task writes, at most one task writes, and no task reads while
  one writes.
\<close>

theorem rwlock_excludes:
  assumes "rw_path rw_init ls s"
  shows "readers s = int (card (reading s)) \<and> finite (reading s) \<and> active_readers s = reading s \<and>
    waiting_writers s = int (card (queued s)) \<and> finite (queued s) \<and>
    (writer_active s \<longleftrightarrow> writing s \<noteq> {}) \<and> card (writing s) \<le> 1 \<and>
    (writing s = {} \<or> reading s = {})"
  using rw_inv_path [OF assms rw_inv_init] by (auto simp: rw_inv_def split: if_splits)

lemma rwlock_excludes_witness:
  "\<exists>s. rw_path rw_init [AcquireReader 4, AcquireReader 7, BeginWriter 3] s \<and> readers s = 2 \<and>
     reading s = {4, 7} \<and> queued s = {3} \<and> waiting_writers s = 1 \<and> writing s = {}"
proof -
  let ?a = "try_reader 4 rw_init"
  let ?b = "try_reader 7 ?a"
  let ?s = "start_writer 3 ?b"
  note run = try_reader_def start_writer_def try_writer_def cancel_readers_def rw_init_def
  have "rw_path rw_init [AcquireReader 4] ?a"
    by (rule rw_path_one, rule rw_step.acquire_reader) (simp add: rw_init_def)
  then have "rw_path rw_init ([AcquireReader 4] @ [AcquireReader 7]) ?b"
    by (rule rw_path.snoc) (rule rw_step.acquire_reader, simp add: run)
  then have "rw_path rw_init (([AcquireReader 4] @ [AcquireReader 7]) @ [BeginWriter 3]) ?s"
    by (rule rw_path.snoc) (rule rw_step.begin_writer, simp add: run)
  then have p: "rw_path rw_init [AcquireReader 4, AcquireReader 7, BeginWriter 3] ?s"
    by simp
  have r: "reading ?s = {4, 7}" by (auto simp: reading_def run)
  have q: "queued ?s = {3}" by (auto simp: queued_def run)
  have "readers ?s = 2 \<and> waiting_writers ?s = 1 \<and> writing ?s = {}"
    using rwlock_excludes [OF p] unfolding r q by auto
  with p r q show ?thesis by blast
qed

section \<open>Wake-ups\<close>

text \<open>Whoever sleeps has a task before it that holds the lock, or is a notified writer.\<close>

definition served :: "rwlock \<Rightarrow> bool" where
  "served s \<longleftrightarrow>
     (\<forall>t. phases s t = ReaderAsleep \<or> phases s t = WriterAsleep \<longrightarrow>
        (\<exists>u. phases s u \<in> {Reading, ReadingCancelled, Writing, WriterWoken}))"

lemma served_try_writer:
  assumes "rw_inv s'" and "phases s' t \<noteq> Reading" "phases s' t \<noteq> ReadingCancelled" "phases s' t \<noteq> Writing"
    and "readers s = readers s'" "writer_active s = writer_active s'"
    and "\<And>u. phases s u = phases s' u \<or> (phases s' u = Reading \<and> phases s u = ReadingCancelled)"
  shows "served (try_writer t s)"
proof (cases "writer_active s \<or> readers s > 0")
  case True
  then obtain u where "phases s' u \<in> {Reading, ReadingCancelled, Writing}"
    using assms(1,5,6) by (auto simp: rw_inv_def reading_def writing_def card_gt_0_iff split: if_splits)
  moreover from this have "u \<noteq> t" using assms(2-4) by auto
  moreover have "phases s u \<in> {Reading, ReadingCancelled, Writing}" using calculation(1) assms(7) [of u] by auto
  ultimately show ?thesis using True
    by (auto simp: served_def try_writer_def intro!: exI [of _ u])
next
  case False
  then show ?thesis by (auto simp: served_def try_writer_def intro!: exI [of _ t])
qed

lemma served_step:
  assumes "rw_inv s" and "served s" and "rw_step s l s'" and "\<And>t. l \<noteq> CancelWriter t"
  shows "served s'"
  using assms(3)
proof (cases rule: rw_step.cases)
  case (acquire_reader t)
  show ?thesis
  proof (cases "writer_active s \<or> waiting_writers s > 0")
    case True
    then obtain u where "phases s u \<in> {Writing, WriterAsleep, WriterWoken}"
      using assms(1) by (auto simp: rw_inv_def writing_def queued_def card_gt_0_iff split: if_splits)
    then obtain v where v: "phases s v \<in> {Reading, ReadingCancelled, Writing, WriterWoken}"
      using assms(2) unfolding served_def by blast
    then have "v \<noteq> t" using acquire_reader(3) by auto
    then show ?thesis using v True acquire_reader(2)
      by (auto simp: served_def try_reader_def intro!: exI [of _ v])
  next
    case False
    then show ?thesis using acquire_reader(2) by (auto simp: served_def try_reader_def intro!: exI [of _ t])
  qed
next
  case (leave_reader t)
  show ?thesis
  proof (cases "readers s = 1")
    case True
    then show ?thesis using leave_reader(2)
      by (auto simp: served_def release_reader_def Let_def notify_phase)
  next
    case False
    have fin: "finite (reading s)" and cnt: "readers s = int (card (reading s))"
      using assms(1) by (simp_all add: rw_inv_def)
    have t: "t \<in> reading s" using leave_reader(3) by (simp add: reading_def)
    have "int (card (reading s - {t})) = int (card (reading s)) - 1" by (rule card_pos [OF fin t])
    then have "card (reading s - {t}) \<noteq> 0" using False cnt by simp
    then obtain u where "u \<in> reading s" "u \<noteq> t" by (auto simp: card_eq_0_iff)
    then show ?thesis using False leave_reader(2)
      by (auto simp: served_def release_reader_def Let_def reading_def intro!: exI [of _ u])
  qed
next
  case (cancel_reader t)
  have other: "u \<noteq> t" if "phases s u \<in> {Reading, ReadingCancelled, Writing, WriterWoken}" for u
    using that cancel_reader(3) by auto
  show ?thesis
    unfolding served_def
  proof (intro allI impI)
    fix v assume "phases s' v = ReaderAsleep \<or> phases s' v = WriterAsleep"
    then have "phases s v = ReaderAsleep \<or> phases s v = WriterAsleep"
      using cancel_reader(2) by (auto split: if_splits)
    then obtain u where "phases s u \<in> {Reading, ReadingCancelled, Writing, WriterWoken}"
      using assms(2) by (auto simp: served_def)
    with other [OF this] show "\<exists>u. phases s' u \<in> {Reading, ReadingCancelled, Writing, WriterWoken}"
      using cancel_reader(2) by (intro exI [of _ u]) simp
  qed
next
  case (begin_writer t)
  have "served (try_writer t (cancel_readers (s\<lparr>waiting_writers := waiting_writers s + 1\<rparr>)))"
    by (rule served_try_writer [OF assms(1)]) (use begin_writer(3) in \<open>auto simp: cancel_readers_def\<close>)
  then show ?thesis using begin_writer(2) by (simp add: start_writer_def)
next
  case (retry_writer t)
  have "served (try_writer t s)"
    by (rule served_try_writer [OF assms(1)]) (use retry_writer(3) in auto)
  then show ?thesis using retry_writer(2) by simp
next
  case (cancel_writer t)
  then show ?thesis using assms(4) by simp
next
  case (leave_writer t)
  then show ?thesis by (auto simp: served_def release_writer_def notify_phase)
qed

text \<open>
  C27: as long as no writer is cancelled while it waits, no wake-up is lost. On every such path of
  steps, whenever a reader or a writer sleeps on the condition, some task is inside the lock, and
  will notify when it leaves, or a notified writer is about to try again.
\<close>

theorem rwlock_sleepers_are_served:
  assumes "rw_path rw_init ls s" and "\<forall>t. CancelWriter t \<notin> set ls"
    and "phases s t = ReaderAsleep \<or> phases s t = WriterAsleep"
  shows "\<exists>u. phases s u \<in> {Reading, ReadingCancelled, Writing, WriterWoken}"
proof -
  have "served s \<and> rw_inv s" if "rw_path s0 ls s" "rw_inv s0" "served s0" "\<forall>t. CancelWriter t \<notin> set ls" for s0
    using that
  proof (induction rule: rw_path.induct)
    case (snoc s ls t l u)
    then have "served t \<and> rw_inv t" by simp
    then show ?case using served_step [of t l u] rw_inv_step [of t l u] snoc.hyps snoc.prems by auto
  qed simp
  from this [OF assms(1) rw_inv_init _ assms(2)] assms(3) show ?thesis
    by (auto simp: served_def rw_init_def)
qed

lemma rwlock_sleepers_are_served_witness:
  "\<exists>s. rw_path rw_init [AcquireReader 0, BeginWriter 1] s \<and> phases s 1 = WriterAsleep \<and>
       (\<exists>u. phases s u \<in> {Reading, ReadingCancelled, Writing, WriterWoken})"
proof -
  let ?a = "try_reader 0 rw_init" and ?s = "start_writer 1 (try_reader 0 rw_init)"
  have "rw_path rw_init ([AcquireReader 0] @ [BeginWriter 1]) ?s"
    by (rule rw_path.snoc [OF rw_path_one], rule rw_step.acquire_reader, simp add: rw_init_def,
        rule rw_step.begin_writer) (simp add: try_reader_def rw_init_def)
  moreover have "phases ?s 1 = WriterAsleep"
    by (simp add: start_writer_def try_writer_def cancel_readers_def try_reader_def rw_init_def)
  ultimately show ?thesis
    using rwlock_sleepers_are_served [of "[AcquireReader 0] @ [BeginWriter 1]" ?s 1] by auto
qed

text \<open>
  A writer that is cancelled while it waits can leave a reader asleep for good. There is a path
  on which a reader comes in after the writer was notified and before it runs; when the writer is
  then cancelled, nobody notifies, and in the end the reader sleeps although the lock is free and
  no other task is in it or waits for it.
\<close>

lemma rwlock_cancelled_writer_strands_reader:
  "\<exists>s. rw_path rw_init [AcquireReader 0, BeginWriter 1, LeaveReader 0, AcquireReader 2, CancelWriter 1] s \<and>
       phases s = (\<lambda>_. Idle)(2 := ReaderAsleep) \<and> \<not> writer_active s \<and> readers s = 0 \<and> waiting_writers s = 0"
proof -
  let ?a = "try_reader 0 rw_init"
  let ?b = "start_writer 1 ?a"
  let ?c = "release_reader 0 ?b"
  let ?d = "try_reader 2 ?c"
  let ?e = "abandon_writer 1 ?d"
  note defs = try_reader_def start_writer_def try_writer_def cancel_readers_def release_reader_def
    abandon_writer_def notify_all_def rw_init_def Let_def
  have "rw_path rw_init [AcquireReader 0] ?a"
    by (rule rw_path_one, rule rw_step.acquire_reader) (simp add: rw_init_def)
  then have "rw_path rw_init ([AcquireReader 0] @ [BeginWriter 1]) ?b"
    by (rule rw_path.snoc, intro rw_step.begin_writer) (simp add: defs)
  then have "rw_path rw_init (([AcquireReader 0] @ [BeginWriter 1]) @ [LeaveReader 0]) ?c"
    by (rule rw_path.snoc, intro rw_step.leave_reader) (simp add: defs)
  then have "rw_path rw_init ((([AcquireReader 0] @ [BeginWriter 1]) @ [LeaveReader 0]) @ [AcquireReader 2]) ?d"
    by (rule rw_path.snoc, intro rw_step.acquire_reader) (simp add: defs)
  then have "rw_path rw_init (((([AcquireReader 0] @ [BeginWriter 1]) @ [LeaveReader 0]) @ [AcquireReader 2]) @ [CancelWriter 1]) ?e"
    by (rule rw_path.snoc, intro rw_step.cancel_writer) (simp add: defs)
  moreover have "phases ?e = (\<lambda>_. Idle)(2 := ReaderAsleep) \<and> \<not> writer_active ?e \<and> readers ?e = 0 \<and> waiting_writers ?e = 0"
    by (auto simp: defs fun_eq_iff)
  ultimately show ?thesis by auto
qed

end
