(* ===== verification/Task_Buffer.thy ===== *)
theory Task_Buffer
  imports Encoding "HOL-Library.Multiset"
begin

text \<open>
  The rollout buffer and the task managers (trainer/src/agentrl/trainer/components/buffer.py and
  task\_manager.py). A coroutine is not interrupted between two awaits; so \<open>add\<close> and \<open>get\<close> are
  atomic attempts, and waiting on a signal is the boundary between two of them. A schedule is the
  list of the tasks that run, one attempt each.
\<close>

section \<open>Items and the buffer\<close>

type_synonym item = "(string, json) dict"

record buffer =
  max_size :: nat
  strict_group :: bool
  group_size :: nat
  groups :: "(json, item list) dict"
  put_signal :: bool
  get_signal :: bool
  queue :: "item list"

definition buffer_init :: "nat \<Rightarrow> nat \<Rightarrow> buffer" where
  "buffer_init cap grp =
     \<lparr>max_size = cap, strict_group = (1 < grp), group_size = grp, groups = [],
      put_signal = False, get_signal = False, queue = []\<rparr>"

text \<open>The part of \<open>add\<close> behind its loop: into the group, and the complete group into the queue.\<close>

definition enter :: "item \<Rightarrow> buffer \<Rightarrow> buffer res" where
  "enter x b =
     (if strict_group b then
        (case dict_get x ''group_id'' of
           None \<Rightarrow> Inl KeyError
         | Some g \<Rightarrow>
             (let members = dict_get_or (groups b) g [] @ [x]
              in if group_size b \<le> length members
                 then Inr (b\<lparr>queue := queue b @ members, put_signal := True, groups := dict_del g (groups b)\<rparr>)
                 else Inr (b\<lparr>groups := dict_set g members (groups b)\<rparr>)))
      else Inr (b\<lparr>queue := queue b @ [x], put_signal := True\<rparr>))"

definition effective_multiple :: "buffer \<Rightarrow> nat \<Rightarrow> nat" where
  "effective_multiple b multiple = (if strict_group b then lcm (group_size b) multiple else multiple)"

definition available :: "buffer \<Rightarrow> nat \<Rightarrow> nat" where
  "available b multiple = length (queue b) div multiple * multiple"

section \<open>Tasks\<close>

datatype task =
    Adding item | AddAsleep item | AddWoken item | Added item
  | Getting nat nat | GetAsleep nat nat | GetWoken nat nat | Got nat nat "item list"
  | Failed py_error

record world =
  buf :: buffer
  tasks :: "task list"

text \<open>Setting a signal wakes every task that waits on it.\<close>

definition wake_adders :: "task list \<Rightarrow> task list" where
  "wake_adders = map (\<lambda>t. case t of AddAsleep x \<Rightarrow> AddWoken x | t \<Rightarrow> t)"

definition wake_getters :: "task list \<Rightarrow> task list" where
  "wake_getters = map (\<lambda>t. case t of GetAsleep m k \<Rightarrow> GetWoken m k | t \<Rightarrow> t)"

text \<open>
  One attempt of \<open>add\<close>. When the buffer is full the task waits; a signal that is still set is
  cleared first, and the test repeated.
\<close>

definition try_add :: "nat \<Rightarrow> item \<Rightarrow> world \<Rightarrow> world" where
  "try_add i x w =
     (if max_size (buf w) \<le> length (queue (buf w))
      then w\<lparr>buf := (buf w)\<lparr>get_signal := False\<rparr>, tasks := (tasks w)[i := AddAsleep x]\<rparr>
      else case enter x (buf w) of
             Inl e \<Rightarrow> w\<lparr>tasks := (tasks w)[i := Failed e]\<rparr>
           | Inr b \<Rightarrow>
               w\<lparr>buf := b,
                 tasks := (if queue b \<noteq> queue (buf w) then wake_getters (tasks w) else tasks w)[i := Added x]\<rparr>)"

definition try_get :: "nat \<Rightarrow> nat \<Rightarrow> nat \<Rightarrow> world \<Rightarrow> world" where
  "try_get i m k w =
     (let k' = effective_multiple (buf w) k in
      if k' = 0 then w\<lparr>tasks := (tasks w)[i := Failed ZeroDivisionError]\<rparr>
      else
        let n = available (buf w) k' in
        if m \<le> n
        then w\<lparr>buf := (buf w)\<lparr>queue := drop n (queue (buf w)), get_signal := True\<rparr>,
               tasks := (wake_adders (tasks w))[i := Got m k (take n (queue (buf w)))]\<rparr>
        else w\<lparr>buf := (buf w)\<lparr>put_signal := False\<rparr>, tasks := (tasks w)[i := GetAsleep m k]\<rparr>)"

text \<open>The next attempt of task \<open>i\<close>; a woken task clears the signal it waited for.\<close>

definition run_task :: "nat \<Rightarrow> world \<Rightarrow> world" where
  "run_task i w =
     (if i < length (tasks w) then
        (case tasks w ! i of
           Adding x \<Rightarrow> try_add i x w
         | AddWoken x \<Rightarrow> try_add i x (w\<lparr>buf := (buf w)\<lparr>get_signal := False\<rparr>\<rparr>)
         | Getting m k \<Rightarrow> try_get i m k w
         | GetWoken m k \<Rightarrow> try_get i m k (w\<lparr>buf := (buf w)\<lparr>put_signal := False\<rparr>\<rparr>)
         | _ \<Rightarrow> w)
      else w)"

definition run_schedule :: "nat list \<Rightarrow> world \<Rightarrow> world" where
  "run_schedule = fold run_task"

definition fresh :: "task \<Rightarrow> bool" where
  "fresh t \<longleftrightarrow> (case t of Adding x \<Rightarrow> True | Getting m k \<Rightarrow> True | _ \<Rightarrow> False)"

definition start_world :: "nat \<Rightarrow> nat \<Rightarrow> task list \<Rightarrow> world" where
  "start_world cap grp ts = \<lparr>buf = buffer_init cap grp, tasks = ts\<rparr>"

section \<open>The invariant\<close>

text \<open>In strict mode the queue is a sequence of whole groups.\<close>

definition whole_group :: "nat \<Rightarrow> item list \<Rightarrow> bool" where
  "whole_group n xs \<longleftrightarrow> length xs = n \<and> (\<exists>g. \<forall>x \<in> set xs. dict_get x ''group_id'' = Some g)"

definition grouped :: "nat \<Rightarrow> item list \<Rightarrow> bool" where
  "grouped n xs \<longleftrightarrow> (\<exists>gs. xs = concat gs \<and> (\<forall>g \<in> set gs. whole_group n g))"

definition partial_groups :: "buffer \<Rightarrow> bool" where
  "partial_groups b \<longleftrightarrow>
     distinct (dict_keys (groups b)) \<and>
     (\<forall>(g, xs) \<in> set (groups b). length xs < group_size b \<and> (\<forall>x \<in> set xs. dict_get x ''group_id'' = Some g))"

definition buffer_inv :: "nat \<Rightarrow> nat \<Rightarrow> buffer \<Rightarrow> bool" where
  "buffer_inv cap grp b \<longleftrightarrow>
     max_size b = cap \<and> group_size b = grp \<and> strict_group b = (1 < grp) \<and>
     length (queue b) \<le> cap - 1 + max 1 grp \<and> partial_groups b \<and>
     (strict_group b \<longrightarrow> grouped grp (queue b))"

text \<open>Nobody sleeps on an open guard, and what getters hold is what they asked for.\<close>

definition task_ok :: "buffer \<Rightarrow> task \<Rightarrow> bool" where
  "task_ok b t \<longleftrightarrow>
     (case t of
        AddAsleep x \<Rightarrow> max_size b \<le> length (queue b)
      | GetAsleep m k \<Rightarrow> available b (effective_multiple b k) < m
      | Got m k xs \<Rightarrow> m \<le> length xs \<and> length xs \<le> max_size b - 1 + max 1 (group_size b) \<and>
                     effective_multiple b k dvd length xs \<and>
                     (strict_group b \<longrightarrow> grouped (group_size b) xs)
      | _ \<Rightarrow> True)"

definition world_inv :: "nat \<Rightarrow> nat \<Rightarrow> world \<Rightarrow> bool" where
  "world_inv cap grp w \<longleftrightarrow>
     buffer_inv cap grp (buf w) \<and> (\<forall>t \<in> set (tasks w). task_ok (buf w) t)"

lemma grouped_Nil [simp]: "grouped n []"
  by (auto simp: grouped_def intro!: exI [of _ "[]"])

lemma grouped_append: "grouped n xs \<Longrightarrow> grouped n ys \<Longrightarrow> grouped n (xs @ ys)"
  unfolding grouped_def by (metis Un_iff concat_append set_append)

lemma grouped_whole: "whole_group n xs \<Longrightarrow> grouped n xs"
  by (auto simp: grouped_def intro!: exI [of _ "[xs]"])

lemma grouped_split:
  assumes "grouped n xs" and "n dvd k" and "k \<le> length xs"
  shows "grouped n (take k xs) \<and> grouped n (drop k xs)"
proof -
  obtain gs where gs: "xs = concat gs" "\<forall>g \<in> set gs. whole_group n g" using assms(1) by (auto simp: grouped_def)
  obtain j where j: "k = n * j" using assms(2) by (auto simp: dvd_def)
  have "take (n * j) (concat gs) = concat (take j gs) \<and> drop (n * j) (concat gs) = concat (drop j gs)"
    if "\<forall>g \<in> set gs. length g = n" for gs :: "item list list" and j
    using that
  proof (induction gs arbitrary: j)
    case (Cons g gs)
    then show ?case by (cases j) simp_all
  qed simp
  from this [of gs j] gs(2) have "take k xs = concat (take j gs)" "drop k xs = concat (drop j gs)"
    by (simp_all add: gs(1) j whole_group_def)
  moreover have "\<forall>g \<in> set (take j gs). whole_group n g" "\<forall>g \<in> set (drop j gs). whole_group n g"
    using gs(2) by (auto dest: in_set_takeD in_set_dropD)
  ultimately show ?thesis unfolding grouped_def by blast
qed

lemma partial_groups_update [simp]:
  "partial_groups (b\<lparr>queue := q\<rparr>) = partial_groups b"
  "partial_groups (b\<lparr>put_signal := p\<rparr>) = partial_groups b"
  "partial_groups (b\<lparr>get_signal := p\<rparr>) = partial_groups b"
  by (simp_all add: partial_groups_def)

lemma dict_get_in: "dict_get d k = Some v \<Longrightarrow> (k, v) \<in> set d"
  by (rule map_of_SomeD)

lemma enter_queue: "enter x b = Inr b' \<Longrightarrow> \<exists>ys. queue b' = queue b @ ys"
  by (auto simp: enter_def Let_def split: if_splits option.splits)

lemma enter_same:
  "enter x b = Inr b' \<Longrightarrow> max_size b' = max_size b \<and> group_size b' = group_size b \<and> strict_group b' = strict_group b"
  by (auto simp: enter_def Let_def split: if_splits option.splits)

lemma enter_inv:
  assumes "buffer_inv cap grp b" and "length (queue b) < max_size b" and "enter x b = Inr b'"
  shows "buffer_inv cap grp b'"
proof (cases "strict_group b")
  case False
  then show ?thesis using assms by (auto simp: enter_def buffer_inv_def)
next
  case True
  then obtain g where g: "dict_get x ''group_id'' = Some g"
    using assms(3) by (auto simp: enter_def split: option.splits)
  let ?old = "dict_get_or (groups b) g []"
  have gs: "group_size b = grp" "1 < grp" and part: "partial_groups b"
    using assms(1) True by (auto simp: buffer_inv_def)
  have "length ?old < grp \<and> (\<forall>y \<in> set ?old. dict_get y ''group_id'' = Some g)"
  proof (cases "dict_get (groups b) g")
    case None
    then show ?thesis using gs by (simp add: dict_get_or_def)
  next
    case (Some xs)
    from dict_get_in [OF Some] part gs show ?thesis
      unfolding partial_groups_def by (simp add: dict_get_or_def Some) blast
  qed
  then have old: "length ?old < grp" "\<forall>y \<in> set ?old. dict_get y ''group_id'' = Some g" by simp_all
  show ?thesis
  proof (cases "grp \<le> length (?old @ [x])")
    case full: True
    have b': "b' = b\<lparr>queue := queue b @ (?old @ [x]), put_signal := True, groups := dict_del g (groups b)\<rparr>"
      using assms(3) True g full gs by (simp add: enter_def Let_def)
    have len: "length (?old @ [x]) = grp" using full old(1) by simp
    then have "whole_group grp (?old @ [x])" using old(2) g by (auto simp: whole_group_def)
    then have "grouped grp (?old @ [x])" by (rule grouped_whole)
    moreover have "grouped grp (queue b)" using assms(1) True by (simp add: buffer_inv_def)
    ultimately have "grouped grp (queue b @ (?old @ [x]))" using grouped_append by blast
    moreover have "partial_groups b'"
    proof -
      have "length xs < group_size b \<and> (\<forall>y \<in> set xs. dict_get y ''group_id'' = Some h)"
        if "(h, xs) \<in> set (dict_del g (groups b))" for h xs
        using set_dict_del [OF that] part unfolding partial_groups_def by blast
      then show ?thesis using part unfolding b' partial_groups_def by auto
    qed
    ultimately show ?thesis using assms(1,2) len gs unfolding b' by (auto simp: buffer_inv_def)
  next
    case False
    have b': "b' = b\<lparr>groups := dict_set g (?old @ [x]) (groups b)\<rparr>"
      using assms(3) True g False gs by (simp add: enter_def Let_def)
    have "partial_groups b'"
    proof -
      have "length xs < group_size b \<and> (\<forall>y \<in> set xs. dict_get y ''group_id'' = Some h)"
        if "(h, xs) \<in> set (dict_set g (?old @ [x]) (groups b))" for h xs
        using set_dict_set [OF that]
      proof
        assume "(h, xs) = (g, ?old @ [x])"
        then show ?thesis using False gs old(2) g by auto
      next
        assume "(h, xs) \<in> set (groups b)"
        then show ?thesis using part unfolding partial_groups_def by blast
      qed
      then show ?thesis using part unfolding b' partial_groups_def by auto
    qed
    then show ?thesis using assms(1) unfolding b' by (simp add: buffer_inv_def)
  qed
qed

lemma div_mult_mono: "(a :: nat) \<le> b \<Longrightarrow> a div k * k \<le> b div k * k"
  by (simp add: div_le_mono)

lemma task_ok_update:
  assumes "\<forall>t \<in> set ts. task_ok b t" and "task_ok b u"
  shows "\<forall>t \<in> set (ts[i := u]). task_ok b t"
  using assms set_update_subset_insert by fastforce

lemma try_add_inv:
  assumes "world_inv cap grp w"
  shows "world_inv cap grp (try_add i x w)"
proof (cases "max_size (buf w) \<le> length (queue (buf w))")
  case True
  let ?b = "(buf w)\<lparr>get_signal := False\<rparr>"
  have "\<forall>t \<in> set (tasks w). task_ok ?b t"
    using assms by (auto simp: world_inv_def task_ok_def available_def effective_multiple_def split: task.splits)
  then have "\<forall>t \<in> set ((tasks w)[i := AddAsleep x]). task_ok ?b t"
    by (rule task_ok_update) (use True in \<open>simp add: task_ok_def\<close>)
  then show ?thesis using assms True by (simp add: try_add_def world_inv_def buffer_inv_def)
next
  case False
  show ?thesis
  proof (cases "enter x (buf w)")
    case (Inl e)
    have "\<forall>t \<in> set ((tasks w)[i := Failed e]). task_ok (buf w) t"
      by (rule task_ok_update) (use assms in \<open>simp_all add: world_inv_def task_ok_def\<close>)
    then show ?thesis using assms False Inl by (simp add: try_add_def world_inv_def)
  next
    case (Inr b)
    have inv: "buffer_inv cap grp b" using enter_inv [OF _ _ Inr] assms False by (simp add: world_inv_def)
    obtain ys where ys: "queue b = queue (buf w) @ ys" using enter_queue [OF Inr] by blast
    note same = enter_same [OF Inr]
    have eff: "effective_multiple b k = effective_multiple (buf w) k" for k
      using same by (simp add: effective_multiple_def)
    have "\<forall>t \<in> set (if queue b \<noteq> queue (buf w) then wake_getters (tasks w) else tasks w). task_ok b t"
    proof (cases "queue b = queue (buf w)")
      case True
      then show ?thesis using assms same
        by (auto simp: world_inv_def task_ok_def available_def eff split: task.splits)
    next
      case grown: False
      have "task_ok b (case t of GetAsleep m k \<Rightarrow> GetWoken m k | t \<Rightarrow> t)" if "t \<in> set (tasks w)" for t
      proof -
        have "task_ok (buf w) t" using assms that by (simp add: world_inv_def)
        then show ?thesis using same ys by (cases t) (auto simp: task_ok_def eff)
      qed
      then show ?thesis using grown by (auto simp: wake_getters_def)
    qed
    then have "\<forall>t \<in> set ((if queue b \<noteq> queue (buf w) then wake_getters (tasks w) else tasks w)[i := Added x]). task_ok b t"
      by (rule task_ok_update) (simp add: task_ok_def)
    then show ?thesis using inv False Inr by (simp add: try_add_def world_inv_def)
  qed
qed

lemma try_get_inv:
  assumes "world_inv cap grp w"
  shows "world_inv cap grp (try_get i m k w)"
proof -
  let ?b = "buf w" and ?k = "effective_multiple (buf w) k"
  let ?n = "available ?b ?k"
  have inv: "buffer_inv cap grp ?b" and ts: "\<forall>t \<in> set (tasks w). task_ok ?b t"
    using assms by (simp_all add: world_inv_def)
  show ?thesis
  proof (cases "?k = 0")
    case True
    have "\<forall>t \<in> set ((tasks w)[i := Failed ZeroDivisionError]). task_ok ?b t"
      by (rule task_ok_update [OF ts]) (simp add: task_ok_def)
    then show ?thesis using inv True by (simp add: try_get_def world_inv_def)
  next
    case k: False
    show ?thesis
    proof (cases "m \<le> ?n")
      case True
      let ?c = "?b\<lparr>queue := drop ?n (queue ?b), get_signal := True\<rparr>"
      have n: "?n \<le> length (queue ?b)" by (simp add: available_def)
      have eff: "effective_multiple ?c j = effective_multiple ?b j" for j
        by (simp add: effective_multiple_def)
      have dvd: "strict_group ?b \<Longrightarrow> grp dvd ?n"
        using inv by (simp add: available_def effective_multiple_def buffer_inv_def)
      have split: "grouped grp (take ?n (queue ?b)) \<and> grouped grp (drop ?n (queue ?b))" if "strict_group ?b"
        using inv that dvd n by (intro grouped_split) (simp_all add: buffer_inv_def)
      have "length (drop ?n (queue ?b)) \<le> length (queue ?b)" by simp
      then have "buffer_inv cap grp ?c"
        using inv split unfolding buffer_inv_def by auto
      moreover have "\<forall>t \<in> set (wake_adders (tasks w)). task_ok ?c t"
      proof -
        have "task_ok ?c (case t of AddAsleep x \<Rightarrow> AddWoken x | t \<Rightarrow> t)" if "t \<in> set (tasks w)" for t
        proof (cases t)
          case (GetAsleep m' k')
          let ?k' = "effective_multiple ?b k'"
          have "available ?b ?k' < m'" using ts that GetAsleep by (auto simp: task_ok_def)
          moreover have "available ?c ?k' \<le> available ?b ?k'"
            by (simp add: available_def div_le_mono)
          ultimately show ?thesis using GetAsleep by (simp add: task_ok_def eff)
        next
          case (Got m' k' xs)
          then have "task_ok ?b (Got m' k' xs)" using ts that by blast
          then show ?thesis using Got by (simp add: task_ok_def eff)
        qed (simp_all add: task_ok_def)
        then show ?thesis by (auto simp: wake_adders_def)
      qed
      moreover have "task_ok ?c (Got m k (take ?n (queue ?b)))"
      proof -
        have "length (take ?n (queue ?b)) = ?n" using n by simp
        moreover have "?n \<le> max_size ?b - 1 + max 1 (group_size ?b)" using n inv unfolding buffer_inv_def by linarith
        moreover have "?k dvd ?n" by (simp add: available_def)
        ultimately show ?thesis using True split inv unfolding task_ok_def by (simp add: eff buffer_inv_def)
      qed
      ultimately have "buffer_inv cap grp ?c \<and>
          (\<forall>t \<in> set ((wake_adders (tasks w))[i := Got m k (take ?n (queue ?b))]). task_ok ?c t)"
        by (intro conjI task_ok_update)
      then show ?thesis using k True by (simp add: try_get_def world_inv_def Let_def)
    next
      case False
      let ?c = "?b\<lparr>put_signal := False\<rparr>"
      have "\<forall>t \<in> set (tasks w). task_ok ?c t"
        using ts by (auto simp: task_ok_def available_def effective_multiple_def split: task.splits)
      moreover have "task_ok ?c (GetAsleep m k)"
        using False by (simp add: task_ok_def available_def effective_multiple_def not_le split: if_splits)
      ultimately have "\<forall>t \<in> set ((tasks w)[i := GetAsleep m k]). task_ok ?c t" by (rule task_ok_update)
      then show ?thesis using k False inv
        by (simp add: try_get_def world_inv_def Let_def buffer_inv_def)
    qed
  qed
qed

lemma world_inv_signals:
  assumes "world_inv cap grp w"
  shows "world_inv cap grp (w\<lparr>buf := (buf w)\<lparr>get_signal := a\<rparr>\<rparr>)"
    and "world_inv cap grp (w\<lparr>buf := (buf w)\<lparr>put_signal := a\<rparr>\<rparr>)"
  using assms
  by (auto simp: world_inv_def buffer_inv_def task_ok_def available_def
      effective_multiple_def split: task.splits)

lemma run_task_inv: "world_inv cap grp w \<Longrightarrow> world_inv cap grp (run_task i w)"
  by (auto simp: run_task_def intro!: try_add_inv try_get_inv world_inv_signals split: task.split)

lemma run_schedule_inv: "world_inv cap grp w \<Longrightarrow> world_inv cap grp (run_schedule is w)"
  by (induction "is" arbitrary: w) (simp_all add: run_schedule_def run_task_inv)

lemma start_inv:
  assumes "list_all fresh ts"
  shows "world_inv cap grp (start_world cap grp ts)"
proof -
  have "task_ok b t" if "fresh t" for b t using that by (cases t) (simp_all add: fresh_def task_ok_def)
  then show ?thesis using assms
    by (auto simp: world_inv_def start_world_def buffer_init_def buffer_inv_def partial_groups_def list_all_iff)
qed

text \<open>
  The buffer is bounded. Whatever tasks add and get, in whatever order they run, the queue
  never holds more than its size less one plus one group, so a \<open>get\<close> whose minimum is larger than
  that never returns: no task holds such a result.
\<close>

lemma buffer_bounded:
  assumes "list_all fresh ts"
  shows "length (queue (buf (run_schedule is (start_world cap grp ts)))) \<le> cap - 1 + max 1 grp \<and>
         (\<forall>m k xs. Got m k xs \<in> set (tasks (run_schedule is (start_world cap grp ts))) \<longrightarrow>
            m \<le> cap - 1 + max 1 grp)"
  using run_schedule_inv [OF start_inv [OF assms], of cap grp "is"]
  by (force simp: world_inv_def buffer_inv_def task_ok_def)

lemma buffer_bounded_witness:
  "let x = [(''group_id'', JInt 1)];
       w = run_schedule [0, 1, 2] (start_world 2 1 [Adding x, Adding x, Adding x])
   in length (queue (buf w)) \<le> 2 \<and> tasks w = [Added x, Added x, AddAsleep x]"
  using buffer_bounded [of "[Adding [(''group_id'', JInt 1)], Adding [(''group_id'', JInt 1)], Adding [(''group_id'', JInt 1)]]"
      "[0, 1, 2]" 2 1]
  by (simp add: fresh_def Let_def run_schedule_def run_task_def start_world_def buffer_init_def try_add_def
      enter_def wake_getters_def)

text \<open>
  C28: no wake-up is lost. Whatever tasks add and get, in whatever order they run, a task sleeps on
  a signal only while it could not go on: the queue is full for one that adds, and has too few
  items in whole multiples for one that gets.
\<close>

theorem no_sleeper_is_enabled:
  assumes "list_all fresh ts" and "t \<in> set (tasks (run_schedule is (start_world cap grp ts)))"
  shows "case t of
     AddAsleep x \<Rightarrow> cap \<le> length (queue (buf (run_schedule is (start_world cap grp ts))))
   | GetAsleep m k \<Rightarrow>
       available (buf (run_schedule is (start_world cap grp ts))) (if 1 < grp then lcm grp k else k) < m
   | _ \<Rightarrow> True"
  using run_schedule_inv [OF start_inv [OF assms(1)], of cap grp "is"] assms(2)
  by (force simp: world_inv_def buffer_inv_def task_ok_def effective_multiple_def split: task.splits)

lemma no_sleeper_is_enabled_witness:
  "let x = [(''group_id'', JInt 1)];
       w = run_schedule [0, 1] (start_world 4 1 [Getting 2 1, Adding x])
   in tasks w = [GetWoken 2 1, Added x] \<and>
      (case Getting 2 1 of AddAsleep x \<Rightarrow> False | GetAsleep m k \<Rightarrow> False | _ \<Rightarrow> True) \<and>
      available (buf (run_schedule [0] (start_world 4 1 [Getting 2 1, Adding x]))) 1 < 2"
proof -
  let ?x = "[(''group_id'', JInt 1)]"
  note defs = fresh_def run_schedule_def run_task_def start_world_def buffer_init_def try_add_def
      try_get_def enter_def wake_getters_def available_def effective_multiple_def Let_def
  have "GetAsleep 2 1 \<in> set (tasks (run_schedule [0] (start_world 4 1 [Getting 2 1, Adding ?x])))"
    by (simp add: defs)
  from no_sleeper_is_enabled [OF _ this] show ?thesis by (simp add: defs)
qed

text \<open>
  Whole groups come out. What \<open>get\<close> returns has at least the minimum length, is a multiple of
  the multiple that was asked for, and with groups of more than one it is a sequence of complete
  groups, each of the group size and of one group id.
\<close>

lemma got_whole_groups:
  assumes "list_all fresh ts" and "Got m k xs \<in> set (tasks (run_schedule is (start_world cap grp ts)))"
  shows "m \<le> length xs \<and> k dvd length xs \<and> (1 < grp \<longrightarrow> grouped grp xs)"
proof -
  have "task_ok (buf (run_schedule is (start_world cap grp ts))) (Got m k xs)"
    and "buffer_inv cap grp (buf (run_schedule is (start_world cap grp ts)))"
    using run_schedule_inv [OF start_inv [OF assms(1)], of cap grp "is"] assms(2) by (auto simp: world_inv_def)
  then show ?thesis
    by (auto simp: task_ok_def buffer_inv_def effective_multiple_def split: if_splits)
qed

lemma got_whole_groups_witness:
  "let x = [(''group_id'', JInt 1)]; y = [(''group_id'', JInt 2)];
       w = run_schedule [0, 1, 2, 3] (start_world 4 2 [Adding x, Adding y, Adding x, Getting 1 1])
   in tasks w = [Added x, Added y, Added x, Got 1 1 [x, x]] \<and> grouped 2 [x, x]"
proof -
  let ?x = "[(''group_id'', JInt 1)]" and ?y = "[(''group_id'', JInt 2)]"
  have t: "tasks (run_schedule [0, 1, 2, 3] (start_world 4 2 [Adding ?x, Adding ?y, Adding ?x, Getting 1 1])) =
      [Added ?x, Added ?y, Added ?x, Got 1 1 [?x, ?x]]"
    by code_simp
  then show ?thesis
    using got_whole_groups [of "[Adding ?x, Adding ?y, Adding ?x, Getting 1 1]" 1 1 "[?x, ?x]" "[0, 1, 2, 3]" 4 2]
    by (simp add: fresh_def Let_def)
qed

section \<open>Conservation\<close>

definition results :: "task \<Rightarrow> item list" where
  "results t = (case t of Got m k xs \<Rightarrow> xs | _ \<Rightarrow> [])"

definition inputs :: "task \<Rightarrow> item list" where
  "inputs t = (case t of Added x \<Rightarrow> [x] | _ \<Rightarrow> [])"

definition held :: "buffer \<Rightarrow> item multiset" where
  "held b = mset (queue b) + mset (concat (map snd (groups b)))"

definition conserved :: "world \<Rightarrow> bool" where
  "conserved w \<longleftrightarrow>
     mset (concat (map inputs (tasks w))) = mset (concat (map results (tasks w))) + held (buf w)"

lemma mset_concat_update:
  "i < length ts \<Longrightarrow> f (ts ! i) = [] \<Longrightarrow>
     mset (concat (map f (ts[i := u]))) = mset (concat (map f ts)) + mset (f u)"
  by (induction ts arbitrary: i) (auto simp: nth_Cons split: nat.splits)

lemma mset_dict_set:
  "mset (concat (map snd (dict_set g (dict_get_or d g [] @ [x]) d))) = mset (concat (map snd d)) + {#x#}"
  by (induction d) (auto simp: dict_get_or_def)

lemma mset_dict_del:
  "distinct (dict_keys d) \<Longrightarrow>
     mset (concat (map snd (dict_del g d))) + mset (dict_get_or d g []) = mset (concat (map snd d))"
proof (induction d)
  case (Cons e d)
  have "g \<notin> fst ` set d \<Longrightarrow> dict_del g d = d" by (induction d) auto
  with Cons show ?case by (auto simp: dict_get_or_def)
qed (simp add: dict_get_or_def)

lemma enter_held:
  assumes "enter x b = Inr b'" and "distinct (dict_keys (groups b))"
  shows "held b' = held b + {#x#}"
proof -
  have "mset (dict_get_or (groups b) g []) + mset (concat (map snd (dict_del g (groups b)))) =
      mset (concat (map snd (groups b)))" for g
    using mset_dict_del [OF assms(2), of g] by (simp add: add.commute)
  then show ?thesis using assms(1)
    by (auto simp: enter_def held_def Let_def mset_dict_set split: if_splits option.splits)
qed

lemma wake_results [simp]:
  "concat (map results (wake_getters ts)) = concat (map results ts)"
  "concat (map inputs (wake_getters ts)) = concat (map inputs ts)"
  "concat (map results (wake_adders ts)) = concat (map results ts)"
  "concat (map inputs (wake_adders ts)) = concat (map inputs ts)"
  by (induction ts) (auto simp: wake_getters_def wake_adders_def results_def inputs_def split: task.splits)

lemma wake_unfinished:
  "i < length ts \<Longrightarrow> results (ts ! i) = [] \<Longrightarrow> results (wake_getters ts ! i) = [] \<and> results (wake_adders ts ! i) = []"
  "i < length ts \<Longrightarrow> inputs (ts ! i) = [] \<Longrightarrow> inputs (wake_getters ts ! i) = [] \<and> inputs (wake_adders ts ! i) = []"
  by (auto simp: wake_getters_def wake_adders_def results_def inputs_def split: task.splits)

lemma length_wake [simp]: "length (wake_getters ts) = length ts" "length (wake_adders ts) = length ts"
  by (simp_all add: wake_getters_def wake_adders_def)

lemma conserved_update:
  assumes "conserved w" and "i < length (tasks w)" and "results (tasks w ! i) = []" and "inputs (tasks w ! i) = []"
    and "held b + mset (results u) = held (buf w) + mset (inputs u)"
    and "ts \<in> {tasks w, wake_getters (tasks w), wake_adders (tasks w)}"
  shows "conserved (w\<lparr>buf := b, tasks := ts[i := u]\<rparr>)"
proof -
  have "i < length ts" "results (ts ! i) = []" "inputs (ts ! i) = []"
    and same: "concat (map results ts) = concat (map results (tasks w))"
      "concat (map inputs ts) = concat (map inputs (tasks w))"
    using assms(2-4,6) wake_unfinished [OF assms(2)] by auto
  then show ?thesis
    using assms(1,5)
    by (simp add: conserved_def mset_concat_update same) (metis add.assoc add.commute)
qed

lemma run_task_conserved:
  assumes c: "conserved w" and inv: "world_inv cap grp w"
  shows "conserved (run_task i w)"
proof -
  have dist: "distinct (dict_keys (groups (buf w)))"
    using inv by (simp add: world_inv_def buffer_inv_def partial_groups_def)
  have add: "conserved (try_add i x v)"
    if v: "conserved v" "i < length (tasks v)" "results (tasks v ! i) = []" "inputs (tasks v ! i) = []"
      "distinct (dict_keys (groups (buf v)))" for v x
  proof (cases "max_size (buf v) \<le> length (queue (buf v))")
    case True
    then show ?thesis
      using conserved_update [OF v(1-4), of "(buf v)\<lparr>get_signal := False\<rparr>" "AddAsleep x" "tasks v"]
      by (simp add: try_add_def held_def results_def inputs_def)
  next
    case False
    show ?thesis
    proof (cases "enter x (buf v)")
      case (Inl e)
      then show ?thesis using False conserved_update [OF v(1-4), of "buf v" "Failed e" "tasks v"]
        by (simp add: try_add_def results_def inputs_def)
    next
      case (Inr b)
      have "held b + mset (results (Added x)) = held (buf v) + mset (inputs (Added x))"
        using enter_held [OF Inr v(5)] by (simp add: results_def inputs_def)
      from conserved_update [OF v(1-4) this] show ?thesis using False Inr by (simp add: try_add_def)
    qed
  qed
  have get: "conserved (try_get i m k v)"
    if v: "conserved v" "i < length (tasks v)" "results (tasks v ! i) = []" "inputs (tasks v ! i) = []" for v m k
  proof -
    let ?n = "available (buf v) (effective_multiple (buf v) k)"
    have "mset (drop ?n (queue (buf v))) + mset (take ?n (queue (buf v))) = mset (queue (buf v))"
      by (metis add.commute append_take_drop_id mset_append)
    then have "held ((buf v)\<lparr>queue := drop ?n (queue (buf v)), get_signal := True\<rparr>) +
        mset (results (Got m k (take ?n (queue (buf v))))) = held (buf v) + mset (inputs (Got m k (take ?n (queue (buf v)))))"
      by (simp add: held_def results_def inputs_def)
    from conserved_update [OF v this, of "wake_adders (tasks v)"]
      conserved_update [OF v, of "buf v" "Failed ZeroDivisionError" "tasks v"]
      conserved_update [OF v, of "(buf v)\<lparr>put_signal := False\<rparr>" "GetAsleep m k" "tasks v"]
    show ?thesis by (simp add: try_get_def Let_def held_def results_def inputs_def)
  qed
  have sig: "conserved (w\<lparr>buf := (buf w)\<lparr>get_signal := a\<rparr>\<rparr>)" "conserved (w\<lparr>buf := (buf w)\<lparr>put_signal := a\<rparr>\<rparr>)" for a
    using c by (simp_all add: conserved_def held_def)
  show ?thesis
    using c sig dist
    by (auto simp: run_task_def results_def inputs_def split: task.split intro!: add get)
qed

text \<open>
  C10: nothing is lost or doubled. Whatever tasks add and get, in whatever order they run, the items
  whose \<open>add\<close> has returned are, with their multiplicity, the items that calls of \<open>get\<close> have
  returned together with those still in the queue or in an incomplete group.
\<close>

theorem buffer_conserves_items:
  assumes "list_all fresh ts"
  shows "conserved (run_schedule is (start_world cap grp ts))"
proof -
  have "conserved (run_schedule is w)" if "conserved w" "world_inv cap grp w" for w
    using that by (induction "is" arbitrary: w) (simp_all add: run_schedule_def run_task_conserved run_task_inv)
  moreover have "conserved (start_world cap grp ts)"
    using assms
    by (induction ts) (auto simp: conserved_def start_world_def held_def buffer_init_def results_def
        inputs_def fresh_def split: task.splits)
  ultimately show ?thesis using start_inv [OF assms] by blast
qed

lemma buffer_conserves_items_witness:
  "conserved (run_schedule [0, 1] (start_world 4 1 [Adding [(''group_id'', JInt 1)], Getting 1 1]))"
  by (rule buffer_conserves_items) (simp add: fresh_def)

end
