(* ===== verification/Task_Manager.thy ===== *)
theory Task_Manager
  imports Task_Buffer
begin

text \<open>
  The task managers (trainer/src/agentrl/trainer/components/task\_manager.py): an input queue, a
  number of workers that apply the task function to its items, and the buffer of
  \<open>Task_Buffer\<close> for what comes out. A schedule is a list of events; each is the part of a
  coroutine between two awaits, or a shorter part of it, and an event whose coroutine cannot go on
  changes nothing. The result of the task function is part of the event.
\<close>

section \<open>State\<close>

text \<open>\<open>Storing y n\<close>: the worker awaits the \<open>add\<close> of \<open>y\<close>, which is task \<open>n\<close> of the buffer.\<close>

datatype worker = Fresh | Waiting | Calling item | Storing item nat | Ended

record manager =
  putters :: "item list"
  todo :: "item list"
  todo_max :: nat
  world :: world
  workers :: "worker list"
  num_workers :: nat
  started :: bool
  stop_signal :: bool
  pending :: int
  failed :: "item list"
  lost :: "item list"
  returned :: "nat set"
  drains :: "nat set"

text \<open>
  \<open>putters\<close> are the calls of \<open>put\<close> that wait for room, \<open>failed\<close> the items whose task raised or
  returned None, \<open>lost\<close> those that left by an exception, \<open>drains\<close> the calls of \<open>get_all\<close> and
  \<open>returned\<close> the calls of \<open>get\<close> that have returned, both by their number as tasks of the buffer.
\<close>

definition manager_init :: "nat \<Rightarrow> nat \<Rightarrow> nat \<Rightarrow> nat \<Rightarrow> manager" where
  "manager_init qmax cap grp n =
     \<lparr>putters = [], todo = [], todo_max = qmax, world = start_world cap grp [], workers = [],
      num_workers = n, started = False, stop_signal = False, pending = 0, failed = [], lost = [],
      returned = {}, drains = {}\<rparr>"

definition todo_full :: "manager \<Rightarrow> bool" where
  "todo_full m \<longleftrightarrow> 0 < todo_max m \<and> todo_max m \<le> length (todo m)"

type_synonym outcome = "py_error + item option"

datatype event =
    Put item | AdmitPut | PutNowait item
  | Start | Step nat | Take nat | Finish nat outcome | Stored nat
  | RunBuffer nat
  | CallGet nat nat | CallGetAll | Return nat
  | CallStop | ReturnStop

definition set_worker :: "nat \<Rightarrow> worker \<Rightarrow> manager \<Rightarrow> manager" where
  "set_worker i u m = m\<lparr>workers := (workers m)[i := u]\<rparr>"

definition worker_at :: "manager \<Rightarrow> nat \<Rightarrow> worker" where
  "worker_at m i = (if i < length (workers m) then workers m ! i else Ended)"

text \<open>A call on the buffer is a new task of it.\<close>

definition call_buffer :: "task \<Rightarrow> manager \<Rightarrow> manager" where
  "call_buffer t m = m\<lparr>world := (world m)\<lparr>tasks := tasks (world m) @ [t]\<rparr>\<rparr>"

definition calls_made :: "manager \<Rightarrow> nat" where
  "calls_made m = length (tasks (world m))"

definition run_buffer :: "nat \<Rightarrow> manager \<Rightarrow> manager" where
  "run_buffer i m = m\<lparr>world := run_task i (world m)\<rparr>"

primrec dict_update :: "item \<Rightarrow> item \<Rightarrow> item" where
  "dict_update [] d = d"
| "dict_update (e # es) d = dict_update es (dict_set (fst e) (snd e) d)"

definition take_item :: "nat \<Rightarrow> manager \<Rightarrow> manager" where
  "take_item i m =
     (case (worker_at m i, todo m) of
        (Waiting, x # xs) \<Rightarrow> set_worker i (Calling x) (m\<lparr>todo := xs\<rparr>)
      | _ \<Rightarrow> m)"

definition store :: "nat \<Rightarrow> item \<Rightarrow> manager \<Rightarrow> manager" where
  "store i y m = set_worker i (Storing y (calls_made m)) (call_buffer (Adding y) m)"

text \<open>The length of the result of task \<open>n\<close>, when it is a \<open>get\<close> that is done.\<close>

definition got_length :: "manager \<Rightarrow> nat \<Rightarrow> nat option" where
  "got_length m n =
     (if n < calls_made m
      then (case tasks (world m) ! n of Got k j xs \<Rightarrow> Some (length xs) | _ \<Rightarrow> None)
      else None)"

section \<open>The manager of one process\<close>

text \<open>The test at the head of the loop of a worker.\<close>

definition local_loop :: "nat \<Rightarrow> manager \<Rightarrow> manager" where
  "local_loop i m = set_worker i (if stop_signal m then Ended else Waiting) m"

definition local_start :: "manager \<Rightarrow> manager" where
  "local_start m =
     (if started m then m
      else m\<lparr>stop_signal := False, workers := workers m @ replicate (num_workers m) Fresh, started := True\<rparr>)"

definition local_finish :: "nat \<Rightarrow> outcome \<Rightarrow> manager \<Rightarrow> manager" where
  "local_finish i r m =
     (case worker_at m i of
        Calling x \<Rightarrow>
          (case r of
             Inr (Some y) \<Rightarrow> store i (dict_update y x) m
           | _ \<Rightarrow> local_loop i (m\<lparr>pending := pending m - 1, failed := failed m @ [x]\<rparr>))
      | _ \<Rightarrow> m)"

text \<open>When \<open>add\<close> raises, the exception ends the worker.\<close>

definition local_stored :: "nat \<Rightarrow> manager \<Rightarrow> manager" where
  "local_stored i m =
     (case worker_at m i of
        Storing y n \<Rightarrow>
          (case tasks (world m) ! n of
             Added _ \<Rightarrow> local_loop i (m\<lparr>pending := pending m - 1\<rparr>)
           | Failed _ \<Rightarrow> set_worker i Ended (m\<lparr>lost := lost m @ [y]\<rparr>)
           | _ \<Rightarrow> m)
      | _ \<Rightarrow> m)"

definition local_put :: "item \<Rightarrow> manager \<Rightarrow> manager" where
  "local_put x m = m\<lparr>pending := pending m + 1, putters := putters m @ [x]\<rparr>"

definition local_admit :: "manager \<Rightarrow> manager" where
  "local_admit m =
     (case putters m of
        x # xs \<Rightarrow> if todo_full m then m else m\<lparr>putters := xs, todo := todo m @ [x]\<rparr>
      | [] \<Rightarrow> m)"

text \<open>A full queue raises \<open>QueueFull\<close>, with the count already raised.\<close>

definition local_put_nowait :: "item \<Rightarrow> manager \<Rightarrow> manager" where
  "local_put_nowait x m =
     (let m1 = m\<lparr>pending := pending m + 1\<rparr>
      in if todo_full m1 then m1\<lparr>lost := lost m1 @ [x]\<rparr> else m1\<lparr>todo := todo m1 @ [x]\<rparr>)"

definition call_get :: "nat \<Rightarrow> nat \<Rightarrow> manager \<Rightarrow> manager" where
  "call_get k j m = call_buffer (Getting k j) m"

definition call_get_all :: "manager \<Rightarrow> manager" where
  "call_get_all m =
     (call_buffer (Getting (nat (pending m)) 1) m)\<lparr>drains := insert (calls_made m) (drains m)\<rparr>"

definition local_return :: "nat \<Rightarrow> manager \<Rightarrow> manager" where
  "local_return n m =
     (case got_length m n of
        None \<Rightarrow> m
      | Some l \<Rightarrow>
          if n \<in> drains m \<or> n \<in> returned m then m
          else m\<lparr>pending := pending m - int l, returned := insert n (returned m)\<rparr>)"

text \<open>\<open>stop\<close> sets the signal and then waits for all workers.\<close>

definition local_call_stop :: "manager \<Rightarrow> manager" where
  "local_call_stop m = m\<lparr>stop_signal := True\<rparr>"

definition local_return_stop :: "manager \<Rightarrow> manager" where
  "local_return_stop m =
     (if stop_signal m \<and> list_all (\<lambda>u. u = Ended) (workers m)
      then m\<lparr>workers := [], started := False\<rparr> else m)"

primrec local_act :: "event \<Rightarrow> manager \<Rightarrow> manager" where
  "local_act (Put x) m = local_put x m"
| "local_act AdmitPut m = local_admit m"
| "local_act (PutNowait x) m = local_put_nowait x m"
| "local_act Start m = local_start m"
| "local_act (Step i) m = (if worker_at m i = Fresh then local_loop i m else m)"
| "local_act (Take i) m = take_item i m"
| "local_act (Finish i r) m = local_finish i r m"
| "local_act (Stored i) m = local_stored i m"
| "local_act (RunBuffer i) m = run_buffer i m"
| "local_act (CallGet k j) m = call_get k j m"
| "local_act CallGetAll m = call_get_all m"
| "local_act (Return n) m = local_return n m"
| "local_act CallStop m = local_call_stop m"
| "local_act ReturnStop m = local_return_stop m"

definition local_run :: "event list \<Rightarrow> manager \<Rightarrow> manager" where
  "local_run = fold local_act"

section \<open>The manager with remote workers\<close>

definition dist_start :: "manager \<Rightarrow> manager" where
  "dist_start m =
     (if started m then m
      else m\<lparr>workers := workers m @ replicate (num_workers m) Waiting, started := True\<rparr>)"

text \<open>A remote worker knows nothing of the count of its manager.\<close>

definition dist_finish :: "nat \<Rightarrow> outcome \<Rightarrow> manager \<Rightarrow> manager" where
  "dist_finish i r m =
     (case worker_at m i of
        Calling x \<Rightarrow>
          (case r of
             Inr (Some y) \<Rightarrow> store i (dict_update y x) m
           | _ \<Rightarrow> set_worker i Waiting (m\<lparr>failed := failed m @ [x]\<rparr>))
      | _ \<Rightarrow> m)"

definition dist_stored :: "nat \<Rightarrow> manager \<Rightarrow> manager" where
  "dist_stored i m =
     (case worker_at m i of
        Storing y n \<Rightarrow>
          (case tasks (world m) ! n of
             Added _ \<Rightarrow> set_worker i Waiting m
           | Failed _ \<Rightarrow> set_worker i Waiting m
           | _ \<Rightarrow> m)
      | _ \<Rightarrow> m)"

text \<open>
  Both \<open>put\<close> and \<open>put_nowait\<close> call the blocking \<open>put\<close> of the remote queue: nothing else of this
  process runs before there is room.
\<close>

definition dist_put :: "item \<Rightarrow> manager \<Rightarrow> manager" where
  "dist_put x m =
     (if todo_full m then m else m\<lparr>pending := pending m + 1, todo := todo m @ [x]\<rparr>)"

definition dist_return :: "nat \<Rightarrow> manager \<Rightarrow> manager" where
  "dist_return n m =
     (case got_length m n of
        None \<Rightarrow> m
      | Some l \<Rightarrow>
          if n \<in> returned m then m
          else m\<lparr>pending := (if n \<in> drains m then 0 else pending m - int l), returned := insert n (returned m)\<rparr>)"

text \<open>\<open>stop\<close> only forgets the workers; they go on.\<close>

primrec dist_act :: "event \<Rightarrow> manager \<Rightarrow> manager" where
  "dist_act (Put x) m = dist_put x m"
| "dist_act AdmitPut m = m"
| "dist_act (PutNowait x) m = dist_put x m"
| "dist_act Start m = dist_start m"
| "dist_act (Step i) m = m"
| "dist_act (Take i) m = take_item i m"
| "dist_act (Finish i r) m = dist_finish i r m"
| "dist_act (Stored i) m = dist_stored i m"
| "dist_act (RunBuffer i) m = run_buffer i m"
| "dist_act (CallGet k j) m = call_get k j m"
| "dist_act CallGetAll m = call_get_all m"
| "dist_act (Return n) m = dist_return n m"
| "dist_act CallStop m = m\<lparr>started := False\<rparr>"
| "dist_act ReturnStop m = m"

definition dist_run :: "event list \<Rightarrow> manager \<Rightarrow> manager" where
  "dist_run = fold dist_act"


section \<open>How the calls on the buffer go on\<close>

definition evolves :: "task \<Rightarrow> task \<Rightarrow> bool" where
  "evolves t u \<longleftrightarrow> t = u \<or>
     (case t of
        Adding x \<Rightarrow> u \<in> {AddAsleep x, AddWoken x, Added x, Failed KeyError}
      | AddAsleep x \<Rightarrow> u \<in> {AddWoken x, Added x, Failed KeyError}
      | AddWoken x \<Rightarrow> u \<in> {AddAsleep x, Added x, Failed KeyError}
      | Getting k j \<Rightarrow> u \<in> {GetAsleep k j, GetWoken k j, Failed ZeroDivisionError} \<union> range (Got k j)
      | GetAsleep k j \<Rightarrow> u \<in> {GetWoken k j, Failed ZeroDivisionError} \<union> range (Got k j)
      | GetWoken k j \<Rightarrow> u \<in> {GetAsleep k j, Failed ZeroDivisionError} \<union> range (Got k j)
      | _ \<Rightarrow> False)"

lemma evolves_refl [simp]: "evolves t t"
  by (simp add: evolves_def)

lemma evolves_wake:
  "list_all2 evolves ts (wake_getters ts)" "list_all2 evolves ts (wake_adders ts)"
  by (auto simp: wake_getters_def wake_adders_def list_all2_conv_all_nth evolves_def split: task.splits)

lemma evolves_update:
  assumes "list_all2 evolves ts us" and "i < length ts \<Longrightarrow> evolves (ts ! i) u"
  shows "list_all2 evolves ts (us[i := u])"
  using assms by (auto simp: list_all2_conv_all_nth) (metis nth_list_update_eq nth_list_update_neq)

lemma run_task_evolves: "list_all2 evolves (tasks w) (tasks (run_task i w))"
proof -
  have refl: "list_all2 evolves ts ts" for ts by (simp add: list_all2_refl)
  have raised: "enter x b = Inl e \<Longrightarrow> e = KeyError" for x b e
    by (auto simp: enter_def Let_def split: if_splits option.splits)
  have add: "list_all2 evolves (tasks w) (tasks (try_add i x (w\<lparr>buf := b\<rparr>)))"
    if "tasks w ! i = Adding x \<or> tasks w ! i = AddWoken x" for x b
    unfolding try_add_def using that
    by (auto simp: evolves_def intro!: evolves_update evolves_wake refl dest: raised split: sum.split)
  have get: "list_all2 evolves (tasks w) (tasks (try_get i k j (w\<lparr>buf := b\<rparr>)))"
    if "tasks w ! i = Getting k j \<or> tasks w ! i = GetWoken k j" for k j b
    unfolding try_get_def using that
    by (auto simp: evolves_def Let_def intro!: evolves_update evolves_wake refl)
  show ?thesis
    using add [where b = "buf w"] add [where b = "(buf w)\<lparr>get_signal := False\<rparr>"]
      get [where b = "buf w"] get [where b = "(buf w)\<lparr>put_signal := False\<rparr>"]
    by (auto simp: run_task_def refl split: task.split)
qed

lemma length_run_task [simp]: "length (tasks (run_task i w)) = length (tasks w)"
  using run_task_evolves by (metis list_all2_lengthD)

lemma got_stays:
  assumes "tasks w ! n = Got k j xs" and "n < length (tasks w)"
  shows "tasks (run_task i w) ! n = Got k j xs"
  using list_all2_nthD [OF run_task_evolves assms(2), of i] assms(1) by (simp add: evolves_def)

lemma got_length_run_buffer:
  "got_length m n = Some l \<Longrightarrow> got_length (run_buffer i m) n = Some l"
  by (auto simp: got_length_def calls_made_def run_buffer_def got_stays split: if_splits task.splits)

lemma got_length_call:
  "got_length m n = Some l \<Longrightarrow> got_length (call_buffer t m) n = Some l"
  by (auto simp: got_length_def calls_made_def call_buffer_def nth_append split: if_splits)

section \<open>The count of the local manager\<close>

definition busy :: "worker \<Rightarrow> nat" where
  "busy u = (case u of Calling x \<Rightarrow> 1 | Storing y n \<Rightarrow> 1 | _ \<Rightarrow> 0)"

definition in_flight :: "manager \<Rightarrow> nat" where
  "in_flight m = length (putters m) + length (todo m) + sum_list (map busy (workers m)) + length (lost m)"

definition handed_out :: "manager \<Rightarrow> nat" where
  "handed_out m = (\<Sum>n \<in> returned m. case got_length m n of Some l \<Rightarrow> l | None \<Rightarrow> 0)"

definition returned_ok :: "manager \<Rightarrow> bool" where
  "returned_ok m \<longleftrightarrow> finite (returned m) \<and> (\<forall>n \<in> returned m. \<exists>l. got_length m n = Some l)"

definition local_inv :: "manager \<Rightarrow> bool" where
  "local_inv m \<longleftrightarrow> returned_ok m \<and> pending m = int (in_flight m) - int (handed_out m)"

lemma sum_list_update_worker:
  "i < length us \<Longrightarrow>
     sum_list (map f (us[i := u])) + f (us ! i) = sum_list (map f us) + (f u :: nat)"
  by (induction us arbitrary: i) (auto simp: nth_Cons split: nat.splits)

text \<open>What is handed out depends only on the results that are known.\<close>

lemma handed_out_mono:
  assumes "returned_ok m" and "returned m' = returned m"
    and "\<And>n l. got_length m n = Some l \<Longrightarrow> got_length m' n = Some l"
  shows "handed_out m' = handed_out m \<and> returned_ok m'"
proof -
  have "got_length m' n = got_length m n" if "n \<in> returned m" for n
    using assms(1,3) that unfolding returned_ok_def by fastforce
  then show ?thesis using assms(1,2) by (simp add: handed_out_def returned_ok_def)
qed

lemma local_inv_same:
  assumes "local_inv m" and "returned m' = returned m"
    and "\<And>n l. got_length m n = Some l \<Longrightarrow> got_length m' n = Some l"
    and "pending m' - int (in_flight m') = pending m - int (in_flight m)"
  shows "local_inv m'"
  using handed_out_mono [of m m'] assms by (simp add: local_inv_def)

lemma worker_atD: "worker_at m i = u \<Longrightarrow> u \<noteq> Ended \<Longrightarrow> i < length (workers m) \<and> workers m ! i = u"
  by (auto simp: worker_at_def split: if_splits)

lemma in_flight_set_worker:
  assumes "i < length (workers m)"
  shows "in_flight (set_worker i u m) + busy (workers m ! i) = in_flight m + busy u"
  using sum_list_update_worker [OF assms, of busy u] by (simp add: in_flight_def set_worker_def)

lemma got_length_set [simp]:
  "got_length (set_worker i u m) n = got_length m n"
  "got_length (m\<lparr>todo := q\<rparr>) n = got_length m n"
  "got_length (m\<lparr>pending := p\<rparr>) n = got_length m n"
  "got_length (m\<lparr>putters := q\<rparr>) n = got_length m n"
  "got_length (m\<lparr>lost := q\<rparr>) n = got_length m n"
  "got_length (m\<lparr>failed := q\<rparr>) n = got_length m n"
  "got_length (m\<lparr>returned := r\<rparr>) n = got_length m n"
  "got_length (m\<lparr>drains := r\<rparr>) n = got_length m n"
  "got_length (m\<lparr>workers := us\<rparr>) n = got_length m n"
  "got_length (m\<lparr>started := b\<rparr>) n = got_length m n"
  "got_length (m\<lparr>stop_signal := b\<rparr>) n = got_length m n"
  by (simp_all add: got_length_def calls_made_def set_worker_def)

lemma worker_frame [simp]:
  "pending (set_worker i u m) = pending m" "returned (set_worker i u m) = returned m"
  "todo (set_worker i u m) = todo m" "putters (set_worker i u m) = putters m"
  "lost (set_worker i u m) = lost m" "failed (set_worker i u m) = failed m"
  "world (set_worker i u m) = world m" "drains (set_worker i u m) = drains m"
  by (simp_all add: set_worker_def)

lemma call_frame [simp]:
  "pending (call_buffer t m) = pending m" "returned (call_buffer t m) = returned m"
  "todo (call_buffer t m) = todo m" "putters (call_buffer t m) = putters m"
  "lost (call_buffer t m) = lost m" "failed (call_buffer t m) = failed m"
  "workers (call_buffer t m) = workers m" "in_flight (call_buffer t m) = in_flight m"
  "drains (call_buffer t m) = drains m"
  by (simp_all add: call_buffer_def in_flight_def)

text \<open>A worker goes from one phase to another, and the rest of the count follows.\<close>

lemma local_inv_worker:
  assumes "local_inv m" and "worker_at m i = v" and "v \<noteq> Ended"
    and "workers m' = workers m" and "returned m' = returned m"
    and "\<And>n l. got_length m n = Some l \<Longrightarrow> got_length m' n = Some l"
    and "pending m' + int (busy v) - int (length (putters m') + length (todo m') + length (lost m') + busy u) =
         pending m - int (length (putters m) + length (todo m) + length (lost m))"
  shows "local_inv (set_worker i u m')"
proof (rule local_inv_same [OF assms(1)])
  have i: "i < length (workers m')" "workers m' ! i = v" using worker_atD [OF assms(2,3)] assms(4) by simp_all
  have "int (in_flight (set_worker i u m')) = int (in_flight m') + int (busy u) - int (busy v)"
    using in_flight_set_worker [OF i(1), of u] i(2) by simp
  then show "pending (set_worker i u m') - int (in_flight (set_worker i u m')) = pending m - int (in_flight m)"
    using assms(4,7) by (simp add: in_flight_def)
qed (use assms in simp_all)

lemma busy_simps [simp]:
  "busy Fresh = 0" "busy Waiting = 0" "busy Ended = 0" "busy (Calling x) = 1" "busy (Storing y n) = 1"
  by (simp_all add: busy_def)

lemma handed_out_insert:
  assumes "returned_ok m" and "n \<notin> returned m" and "got_length m n = Some l"
  shows "handed_out (m\<lparr>pending := p, returned := insert n (returned m)\<rparr>) = handed_out m + l"
    and "returned_ok (m\<lparr>pending := p, returned := insert n (returned m)\<rparr>)"
  using assms by (auto simp: handed_out_def returned_ok_def)

lemma local_inv_loop:
  assumes "local_inv m" and "worker_at m i = v" and "v \<noteq> Ended"
    and "pending m' + int (busy v) = pending m" and "m' = m\<lparr>pending := p, failed := f\<rparr>"
  shows "local_inv (local_loop i m')"
  unfolding local_loop_def using assms
  by (intro local_inv_worker [OF assms(1-3)]) simp_all

lemma local_act_inv:
  assumes "local_inv m"
  shows "local_inv (local_act e m)"
proof (cases e)
  case (Put x)
  show ?thesis unfolding Put by (rule local_inv_same [OF assms]) (simp_all add: local_put_def in_flight_def)
next
  case AdmitPut
  show ?thesis unfolding AdmitPut
    by (rule local_inv_same [OF assms]) (simp_all add: local_admit_def in_flight_def split: list.split)
next
  case (PutNowait x)
  show ?thesis unfolding PutNowait
    by (rule local_inv_same [OF assms]) (simp_all add: local_put_nowait_def in_flight_def Let_def todo_full_def)
next
  case Start
  show ?thesis unfolding Start
    by (rule local_inv_same [OF assms]) (simp_all add: local_start_def in_flight_def sum_list_replicate)
next
  case (Step i)
  then show ?thesis using assms local_inv_loop [OF assms, of i Fresh m "failed m" "pending m"] by simp
next
  case (Take i)
  show ?thesis
  proof (cases "worker_at m i = Waiting \<and> todo m \<noteq> []")
    case True
    then obtain x xs where "todo m = x # xs" by (cases "todo m") auto
    then show ?thesis unfolding Take using True
      by (simp add: take_item_def local_inv_worker [OF assms, of i Waiting])
  next
    case False
    then have "take_item i m = m" by (auto simp: take_item_def split: worker.split list.split)
    then show ?thesis using assms Take by simp
  qed
next
  case (Finish i r)
  show ?thesis
  proof (cases "worker_at m i")
    case (Calling x)
    have "local_inv (store i y m)" for y
      unfolding store_def using Calling
      by (intro local_inv_worker [OF assms Calling]) (simp_all add: got_length_call)
    moreover have "local_inv (local_loop i (m\<lparr>pending := pending m - 1, failed := failed m @ [x]\<rparr>))"
      using Calling by (intro local_inv_loop [OF assms Calling]) simp_all
    ultimately show ?thesis unfolding Finish using Calling
      by (simp add: local_finish_def split: sum.split option.split)
  qed (use assms Finish in \<open>simp_all add: local_finish_def\<close>)
next
  case (Stored i)
  show ?thesis
  proof (cases "worker_at m i")
    case (Storing y n)
    have "local_inv (local_loop i (m\<lparr>pending := pending m - 1\<rparr>))"
      by (rule local_inv_loop [OF assms Storing, where p = "pending m - 1" and f = "failed m"]) simp_all
    moreover have "local_inv (set_worker i Ended (m\<lparr>lost := lost m @ [y]\<rparr>))"
      by (rule local_inv_worker [OF assms Storing]) simp_all
    ultimately show ?thesis unfolding Stored using Storing assms
      by (simp add: local_stored_def split: task.split)
  qed (use assms Stored in \<open>simp_all add: local_stored_def\<close>)
next
  case (RunBuffer i)
  show ?thesis unfolding RunBuffer
    by (rule local_inv_same [OF assms])
      (simp_all add: got_length_run_buffer, simp_all add: run_buffer_def in_flight_def)
next
  case (CallGet k j)
  show ?thesis unfolding CallGet
    by (rule local_inv_same [OF assms]) (simp_all add: call_get_def got_length_call)
next
  case CallGetAll
  have "in_flight (call_get_all m) = in_flight m"
    by (simp add: call_get_all_def in_flight_def)
  then show ?thesis unfolding CallGetAll
    by (intro local_inv_same [OF assms]) (simp_all add: call_get_all_def got_length_call)
next
  case (Return n)
  show ?thesis
  proof (cases "got_length m n")
    case (Some l)
    have "in_flight (m\<lparr>pending := p, returned := R\<rparr>) = in_flight m" for p R
      by (simp add: in_flight_def)
    then show ?thesis unfolding Return
      using Some assms handed_out_insert [of m n l] by (simp add: local_return_def local_inv_def)
  qed (use assms Return in \<open>simp add: local_return_def\<close>)
next
  case CallStop
  show ?thesis unfolding CallStop
    by (rule local_inv_same [OF assms]) (simp_all add: local_call_stop_def in_flight_def)
next
  case ReturnStop
  have "sum_list (map busy (workers m)) = 0" if "list_all (\<lambda>u. u = Ended) (workers m)"
    using that by (induction "workers m" arbitrary: m rule: list.induct) (auto simp: list_all_iff)
  then show ?thesis unfolding ReturnStop
    by (intro local_inv_same [OF assms]) (auto simp: local_return_stop_def in_flight_def)
qed

text \<open>
  What the count of the local manager counts. After any events the count of pending items is
  the number of items that a worker still has to store (waiting for room, queued, in a worker, or
  gone by an exception) less the number of items that calls of \<open>get\<close> have returned.
\<close>

lemma local_pending_count:
  "let m = local_run es (manager_init qmax cap grp n)
   in pending m = int (in_flight m) - int (handed_out m)"
proof -
  have "local_inv (local_run es m)" if "local_inv m" for m
    using that by (induction es arbitrary: m) (simp_all add: local_run_def local_act_inv)
  moreover have "local_inv (manager_init qmax cap grp n)"
    by (simp add: local_inv_def manager_init_def returned_ok_def in_flight_def handed_out_def)
  ultimately show ?thesis by (simp add: local_inv_def Let_def)
qed

section \<open>Stopping the local manager\<close>

definition no_puts :: "event list \<Rightarrow> bool" where
  "no_puts es \<longleftrightarrow> (\<forall>e \<in> set es. case e of Put x \<Rightarrow> False | PutNowait x \<Rightarrow> False | _ \<Rightarrow> True)"

definition starved :: "nat \<Rightarrow> manager \<Rightarrow> bool" where
  "starved i m \<longleftrightarrow> worker_at m i = Waiting \<and> todo m = [] \<and> putters m = [] \<and> started m"

lemma starved_set_worker:
  "starved i m \<Longrightarrow> worker_at m j \<noteq> Waiting \<Longrightarrow> starved i (set_worker j u m)"
  by (auto simp: starved_def set_worker_def worker_at_def nth_list_update split: if_splits)

lemma starved_stays:
  assumes "starved i m" and "no_puts [e]"
  shows "starved i (local_act e m)"
proof -
  have upd: "starved i m'" if "workers m' = workers m" "todo m' = todo m" "putters m' = putters m" "started m' = started m" for m'
    using assms(1) that by (auto simp: starved_def worker_at_def split: if_splits)
  have at: "worker_at m' j = worker_at m j" if "workers m' = workers m" for m' j
    using that by (simp add: worker_at_def)
  have set: "starved i (set_worker j u m')"
    if "worker_at m j \<noteq> Waiting" "workers m' = workers m" "todo m' = todo m" "putters m' = putters m" "started m' = started m" for j m' u
    using starved_set_worker [OF upd [OF that(2-5)]] at [OF that(2)] that(1) by simp
  have loop: "starved i (local_loop j m')"
    if "worker_at m j \<noteq> Waiting" "workers m' = workers m" "todo m' = todo m" "putters m' = putters m" "started m' = started m" for j m'
    unfolding local_loop_def using set [OF that] .
  have not_all: "\<not> list_all (\<lambda>u. u = Ended) (workers m)"
    using assms(1) by (auto simp: starved_def list_all_length worker_at_def split: if_splits)
  show ?thesis
  proof (cases e)
    case (Finish j r)
    then show ?thesis using assms(1)
      by (auto simp: local_finish_def store_def intro!: loop set call_frame split: worker.split sum.split option.split)
        (simp_all add: call_buffer_def)
  next
    case (Stored j)
    then show ?thesis using assms(1)
      by (auto simp: local_stored_def intro!: loop set split: worker.split task.split)
  qed (use assms upd loop not_all in
    \<open>auto simp: starved_def no_puts_def local_admit_def local_start_def take_item_def run_buffer_def call_get_def
      call_get_all_def call_buffer_def local_return_def local_call_stop_def local_return_stop_def
      split: worker.split option.split\<close>)
qed

text \<open>
  \<open>stop\<close> needs an item for every idle worker. While a worker of a started local manager waits
  at the empty queue and nobody puts anything, a call of \<open>stop\<close> does not return, whatever else
  happens: the worker goes on waiting and the manager stays started.
\<close>

lemma stop_waits_for_idle_workers:
  assumes "worker_at m i = Waiting" and "todo m = []" and "putters m = []" and "started m" and "no_puts es"
  shows "started (local_run (CallStop # es) m) \<and> worker_at (local_run (CallStop # es) m) i = Waiting"
proof -
  have "starved i (local_run es m)" if "starved i m" "no_puts es" for m
    using that
    by (induction es arbitrary: m) (simp_all add: local_run_def no_puts_def starved_stays)
  moreover have "no_puts (CallStop # es)" using assms(5) by (simp add: no_puts_def)
  moreover have "starved i m" using assms(1-4) by (simp add: starved_def)
  moreover have "starved i (local_act CallStop m)"
    using starved_stays [OF calculation(3), of CallStop] by (simp add: no_puts_def)
  ultimately have "starved i (local_run es (local_act CallStop m))" using assms(5) by blast
  then show ?thesis by (simp add: starved_def local_run_def)
qed

lemma stop_waits_for_idle_workers_witness:
  "started (local_run [CallStop, ReturnStop] (local_run [Start, Step 0] (manager_init 10 10 1 1)))"
  using stop_waits_for_idle_workers [of "local_run [Start, Step 0] (manager_init 10 10 1 1)" 0 "[ReturnStop]"]
  by (simp add: local_run_def manager_init_def local_start_def local_loop_def set_worker_def worker_at_def no_puts_def)

section \<open>Draining the distributed manager\<close>

definition is_add :: "task \<Rightarrow> bool" where
  "is_add t \<longleftrightarrow>
     (case t of Adding x \<Rightarrow> True | AddAsleep x \<Rightarrow> True | AddWoken x \<Rightarrow> True | Added x \<Rightarrow> True
      | Failed e \<Rightarrow> e = KeyError | _ \<Rightarrow> False)"

definition adds :: "task list \<Rightarrow> nat" where
  "adds ts = length (filter is_add ts)"

definition calling :: "worker \<Rightarrow> nat" where
  "calling u = (case u of Calling x \<Rightarrow> 1 | _ \<Rightarrow> 0)"

definition account :: "manager \<Rightarrow> nat" where
  "account m =
     length (todo m) + sum_list (map calling (workers m)) + length (failed m) + adds (tasks (world m))"

lemma calling_simps [simp]:
  "calling Fresh = 0" "calling Waiting = 0" "calling Ended = 0" "calling (Calling x) = 1" "calling (Storing y n) = 0"
  by (simp_all add: calling_def)

lemma evolves_is_add: "evolves t u \<Longrightarrow> is_add u = is_add t"
  by (auto simp: evolves_def is_add_def split: task.splits)

lemma adds_evolve: "list_all2 evolves ts us \<Longrightarrow> adds us = adds ts"
  unfolding adds_def by (induction rule: list_all2_induct) (simp_all add: evolves_is_add)

lemma adds_append [simp]: "adds (ts @ [t]) = adds ts + (if is_add t then 1 else 0)"
  by (simp add: adds_def)

lemma is_add_simps [simp]: "is_add (Adding x)" "\<not> is_add (Getting k j)"
  by (simp_all add: is_add_def)

lemma account_set_worker:
  assumes "worker_at m i = v" and "v \<noteq> Ended" and "workers m' = workers m"
  shows "account (set_worker i u m') + calling v = account m' + calling u"
proof -
  have i: "i < length (workers m')" "workers m' ! i = v" using worker_atD [OF assms(1,2)] assms(3) by simp_all
  show ?thesis
    using sum_list_update_worker [OF i(1), of calling u] i(2) by (simp add: account_def set_worker_def)
qed

definition dist_inv :: "nat \<Rightarrow> nat \<Rightarrow> manager \<Rightarrow> bool" where
  "dist_inv cap grp m \<longleftrightarrow> conserved (world m) \<and> world_inv cap grp (world m) \<and> returned_ok m"

lemma call_buffer_inv:
  assumes "dist_inv cap grp m" and "fresh t"
  shows "dist_inv cap grp (call_buffer t m)"
proof -
  have "returned_ok (call_buffer t m)"
    using assms(1) got_length_call [of m _ _ t] unfolding dist_inv_def returned_ok_def by fastforce
  moreover have "results t = []" "inputs t = []" "task_ok b t" for b
    using assms(2) by (simp_all add: fresh_def results_def inputs_def task_ok_def split: task.splits)
  ultimately show ?thesis using assms(1)
    by (auto simp: dist_inv_def call_buffer_def conserved_def world_inv_def)
qed

lemma fresh_simps [simp]: "fresh (Adding x)" "fresh (Getting k j)"
  by (simp_all add: fresh_def)

lemma dist_inv_same:
  assumes "dist_inv cap grp m" and "world m' = world m" and "returned m' = returned m"
  shows "dist_inv cap grp m'"
proof -
  have "got_length m' n = got_length m n" for n using assms(2) by (simp add: got_length_def calls_made_def)
  then show ?thesis using assms by (simp add: dist_inv_def returned_ok_def)
qed

lemma dist_act_inv:
  assumes "dist_inv cap grp m"
  shows "dist_inv cap grp (dist_act e m)"
proof (cases e)
  case (RunBuffer i)
  have "returned_ok (run_buffer i m)"
    using handed_out_mono [of m "run_buffer i m"] assms
    by (simp add: dist_inv_def got_length_run_buffer) (simp add: run_buffer_def)
  then show ?thesis unfolding RunBuffer using assms run_task_conserved [of "world m" cap grp]
    by (simp add: dist_inv_def run_buffer_def run_task_inv)
next
  case (Return n)
  show ?thesis
  proof (cases "got_length m n")
    case (Some l)
    then have "returned_ok (m\<lparr>pending := p, returned := insert n (returned m)\<rparr>)" for p
      using assms by (auto simp: dist_inv_def returned_ok_def)
    then show ?thesis unfolding Return using assms Some by (simp add: dist_return_def dist_inv_def)
  qed (use assms Return in \<open>simp add: dist_return_def\<close>)
next
  case (Finish i r)
  have "dist_inv cap grp (store i y m)" for y
    using dist_inv_same [OF call_buffer_inv [OF assms, of "Adding y"]] by (simp add: store_def)
  then show ?thesis unfolding Finish using assms
    by (auto simp: dist_finish_def intro: dist_inv_same [OF assms] split: worker.split sum.split option.split)
next
  case CallGetAll
  show ?thesis unfolding CallGetAll
    using dist_inv_same [OF call_buffer_inv [OF assms, of "Getting (nat (pending m)) 1"]]
    by (simp add: call_get_all_def)
qed (use assms call_buffer_inv in
    \<open>auto simp: dist_put_def dist_start_def take_item_def dist_stored_def call_get_def
      intro: dist_inv_same [OF assms] split: worker.split list.split task.split\<close>)

text \<open>Only \<open>put\<close> changes the account.\<close>

lemma dist_act_account:
  assumes "no_puts [e]"
  shows "account (dist_act e m) = account m"
proof (cases e)
  case (RunBuffer i)
  then show ?thesis using adds_evolve [OF run_task_evolves] by (simp add: account_def run_buffer_def)
next
  case (Take i)
  show ?thesis
  proof (cases "worker_at m i = Waiting \<and> todo m \<noteq> []")
    case True
    then obtain x xs where "todo m = x # xs" by (cases "todo m") auto
    then show ?thesis using True Take account_set_worker [of m i Waiting "m\<lparr>todo := xs\<rparr>" "Calling x"]
      by (simp add: take_item_def account_def)
  next
    case False
    then have "take_item i m = m" by (auto simp: take_item_def split: worker.split list.split)
    then show ?thesis using Take by simp
  qed
next
  case (Finish i r)
  show ?thesis
  proof (cases "worker_at m i")
    case (Calling x)
    have "account (store i y m) = account m" for y
      using account_set_worker [OF Calling, of "call_buffer (Adding y) m" "Storing y (calls_made m)"]
      by (simp add: store_def) (simp add: account_def call_buffer_def)
    moreover have "account (set_worker i Waiting (m\<lparr>failed := failed m @ [x]\<rparr>)) = account m"
      using account_set_worker [OF Calling, of "m\<lparr>failed := failed m @ [x]\<rparr>" Waiting] by simp (simp add: account_def)
    ultimately show ?thesis using Finish Calling by (simp add: dist_finish_def split: sum.split option.split)
  qed (use Finish in \<open>simp_all add: dist_finish_def\<close>)
next
  case (Stored i)
  show ?thesis
  proof (cases "worker_at m i")
    case (Storing y n)
    then show ?thesis using Stored account_set_worker [OF Storing, of m Waiting]
      by (simp add: dist_stored_def split: task.split)
  qed (use Stored in \<open>simp_all add: dist_stored_def\<close>)
qed (use assms in
    \<open>auto simp: no_puts_def account_def dist_start_def sum_list_replicate call_get_def call_get_all_def call_buffer_def
      dist_return_def split: option.split\<close>)

text \<open>As long as no call of \<open>get_all\<close> was made, the count is the account less what was handed out.\<close>

definition counted :: "manager \<Rightarrow> bool" where
  "counted m \<longleftrightarrow> drains m = {} \<and> int (account m) = pending m + int (handed_out m)"

lemma dist_act_drains [simp]:
  "e \<noteq> CallGetAll \<Longrightarrow> drains (dist_act e m) = drains m"
  by (cases e) (auto simp: dist_put_def dist_start_def take_item_def dist_finish_def store_def dist_stored_def
      run_buffer_def call_get_def call_buffer_def dist_return_def
      split: worker.split list.split sum.split option.split task.split)

lemma dist_act_returned:
  "(\<And>n. e \<noteq> Return n) \<Longrightarrow> returned (dist_act e m) = returned m"
  by (cases e) (auto simp: dist_put_def dist_start_def take_item_def dist_finish_def store_def dist_stored_def
      run_buffer_def call_get_def call_get_all_def call_buffer_def
      split: worker.split list.split sum.split option.split task.split)

lemma dist_act_got:
  assumes "got_length m n = Some l"
  shows "got_length (dist_act e m) n = Some l"
  using assms
  by (cases e) (auto simp: dist_put_def dist_start_def take_item_def dist_finish_def store_def dist_stored_def
      got_length_run_buffer call_get_def call_get_all_def dist_return_def intro: got_length_call
      split: worker.split list.split sum.split option.split task.split)

lemma dist_act_pending:
  assumes "\<And>x. e \<noteq> Put x" and "\<And>x. e \<noteq> PutNowait x" and "\<And>n. e \<noteq> Return n"
  shows "pending (dist_act e m) = pending m"
  using assms
  by (cases e) (auto simp: dist_start_def take_item_def dist_finish_def store_def dist_stored_def
      run_buffer_def call_get_def call_get_all_def
      split: worker.split list.split sum.split option.split task.split)

lemma handed_out_act:
  assumes "returned_ok m" and "\<And>n. e \<noteq> Return n"
  shows "handed_out (dist_act e m) = handed_out m"
  using handed_out_mono [of m "dist_act e m"] assms dist_act_returned [OF assms(2)] dist_act_got by metis

lemma dist_act_counted:
  assumes "counted m" and "returned_ok m" and "e \<noteq> CallGetAll"
  shows "counted (dist_act e m)"
proof (cases "\<exists>n. e = Return n")
  case True
  then obtain n where e: "e = Return n" by blast
  have "account (dist_return n m) = account m"
    using dist_act_account [of e m] e by (simp add: no_puts_def)
  then show ?thesis
    using assms(1) handed_out_insert [OF assms(2)] unfolding e
    by (auto simp: counted_def dist_return_def split: option.split)
next
  case False
  then have handed: "handed_out (dist_act e m) = handed_out m" using assms(2) by (intro handed_out_act) auto
  have "int (account (dist_act e m)) - pending (dist_act e m) = int (account m) - pending m"
  proof (cases "no_puts [e]")
    case np: True
    then have "pending (dist_act e m) = pending m"
      using False by (intro dist_act_pending) (auto simp: no_puts_def)
    then show ?thesis using dist_act_account [OF np] by simp
  next
    case np: False
    then obtain x where "e = Put x \<or> e = PutNowait x" by (cases e) (auto simp: no_puts_def)
    then have "dist_act e m = dist_put x m" by auto
    then show ?thesis by (simp add: dist_put_def account_def)
  qed
  then show ?thesis using assms handed by (simp add: counted_def)
qed

lemma dist_run_counted:
  assumes "CallGetAll \<notin> set es" and "counted m" and "dist_inv cap grp m"
  shows "counted (dist_run es m) \<and> dist_inv cap grp (dist_run es m)"
  using assms
proof (induction es arbitrary: m)
  case (Cons e es)
  then have "counted (dist_act e m)" "dist_inv cap grp (dist_act e m)"
    using dist_act_counted [of m e] dist_act_inv by (auto simp: dist_inv_def)
  then show ?case using Cons by (simp add: dist_run_def)
qed (simp add: dist_run_def)

lemma dist_start_state: "counted (manager_init qmax cap grp n) \<and> dist_inv cap grp (manager_init qmax cap grp n)"
  using start_inv [of "[]" cap grp]
  by (simp add: counted_def dist_inv_def manager_init_def account_def handed_out_def adds_def
      returned_ok_def conserved_def start_world_def held_def buffer_init_def)

text \<open>A call of \<open>get\<close> keeps the minimum it was made with.\<close>

definition asks :: "nat \<Rightarrow> task \<Rightarrow> bool" where
  "asks k t \<longleftrightarrow>
     (case t of
        Getting k' j \<Rightarrow> k' = k | GetAsleep k' j \<Rightarrow> k' = k | GetWoken k' j \<Rightarrow> k' = k
      | Got k' j xs \<Rightarrow> k' = k | Failed e \<Rightarrow> True | _ \<Rightarrow> False)"

definition asked :: "nat \<Rightarrow> nat \<Rightarrow> manager \<Rightarrow> bool" where
  "asked n k m \<longleftrightarrow> n < calls_made m \<and> asks k (tasks (world m) ! n)"

lemma evolves_asks: "evolves t u \<Longrightarrow> asks k t \<Longrightarrow> asks k u"
  by (auto simp: evolves_def asks_def split: task.splits)

lemma asked_run_buffer:
  assumes "asked n k m"
  shows "asked n k (run_buffer i m)"
proof -
  have n: "n < length (tasks (world m))" using assms by (simp add: asked_def calls_made_def)
  from list_all2_nthD [OF run_task_evolves n, of i] show ?thesis
    using assms evolves_asks by (simp add: asked_def calls_made_def run_buffer_def)
qed

lemma asked_call: "asked n k m \<Longrightarrow> asked n k (call_buffer t m)"
  by (auto simp: asked_def calls_made_def call_buffer_def nth_append)

lemma asked_same: "asked n k m \<Longrightarrow> world m' = world m \<Longrightarrow> asked n k m'"
  by (simp add: asked_def calls_made_def)

lemma dist_act_asked:
  assumes "asked n k m"
  shows "asked n k (dist_act e m)"
  using assms
  by (cases e) (auto simp: dist_put_def dist_start_def take_item_def dist_finish_def store_def dist_stored_def
      asked_run_buffer call_get_def call_get_all_def dist_return_def
      intro: asked_call asked_same [OF asked_call] asked_same [OF assms]
      split: worker.split list.split sum.split option.split task.split)

lemma results_bound:
  assumes "conserved (world m)" and "finite S"
    and "\<And>n. n \<in> S \<Longrightarrow> \<exists>l. got_length m n = Some l"
  shows "(\<Sum>n \<in> S. case got_length m n of Some l \<Rightarrow> l | None \<Rightarrow> 0) \<le> adds (tasks (world m))"
proof -
  let ?ts = "tasks (world m)"
  have sub: "S \<subseteq> {0..<length ?ts}"
    using assms(3) by (force simp: got_length_def calls_made_def split: if_splits)
  have "(case got_length m n of Some l \<Rightarrow> l | None \<Rightarrow> 0) = length (results (?ts ! n))" if "n \<in> S" for n
    using assms(3) [OF that] by (auto simp: got_length_def calls_made_def results_def split: if_splits task.splits)
  then have "(\<Sum>n \<in> S. case got_length m n of Some l \<Rightarrow> l | None \<Rightarrow> 0) = (\<Sum>n \<in> S. length (results (?ts ! n)))"
    by simp
  also have "\<dots> \<le> (\<Sum>n \<in> {0..<length ?ts}. length (results (?ts ! n)))"
    by (rule sum_mono2) (use sub in auto)
  also have "\<dots> = length (concat (map results ?ts))"
    by (simp add: length_concat sum_list_sum_nth o_def)
  also have "\<dots> \<le> length (concat (map inputs ?ts))"
  proof -
    have "size (mset (concat (map inputs ?ts))) = size (mset (concat (map results ?ts)) + held (buf (world m)))"
      using assms(1) by (simp add: conserved_def)
    then show ?thesis by (simp only: size_mset size_union)
  qed
  also have "length (concat (map inputs ts)) \<le> adds ts" for ts
    by (induction ts) (auto simp: adds_def inputs_def is_add_def split: task.splits)
  finally show ?thesis .
qed

lemma asked_result:
  assumes "dist_inv cap grp m" and "asked n k m" and "got_length m n = Some l"
  shows "k \<le> l"
proof -
  have "tasks (world m) ! n \<in> set (tasks (world m))" using assms(2) by (simp add: asked_def calls_made_def)
  then have "task_ok (buf (world m)) (tasks (world m) ! n)" using assms(1) by (simp add: dist_inv_def world_inv_def)
  then show ?thesis using assms(2,3)
    by (auto simp: asked_def asks_def got_length_def task_ok_def split: if_splits task.splits)
qed

lemma dist_run_frame:
  assumes "no_puts es" and "dist_inv cap grp m" and "asked n k m"
  shows "dist_inv cap grp (dist_run es m) \<and> account (dist_run es m) = account m \<and> asked n k (dist_run es m)
     \<and> length (failed m) \<le> length (failed (dist_run es m))
     \<and> (\<forall>j l. got_length m j = Some l \<longrightarrow> got_length (dist_run es m) j = Some l)"
  using assms
proof (induction es arbitrary: m)
  case (Cons e es)
  have "length (failed m) \<le> length (failed (dist_act e m))"
    by (cases e) (auto simp: dist_put_def dist_start_def take_item_def dist_finish_def store_def dist_stored_def
        run_buffer_def call_get_def call_get_all_def dist_return_def
        split: worker.split list.split sum.split option.split task.split)
  moreover have "no_puts [e]" "no_puts es" using Cons.prems(1) by (simp_all add: no_puts_def)
  ultimately show ?case
    using Cons.IH [of "dist_act e m"] dist_act_inv [OF Cons.prems(2), of e] dist_act_account [of e m]
      dist_act_asked [OF Cons.prems(3), of e] dist_act_got [of m _ _ e]
    by (fastforce simp: dist_run_def)
qed (simp add: dist_run_def)

text \<open>
  One failed item and \<open>get_all\<close> of the distributed manager never returns. When, after any
  events without \<open>get_all\<close>, the task function has raised or returned None for some item, then
  a call of \<open>get_all\<close> has no result after any further events without a \<open>put\<close>: the count it waits
  for includes the item that failed.
\<close>

lemma distributed_get_all_hangs:
  assumes "CallGetAll \<notin> set es" and "no_puts fs"
    and "m = dist_run es (manager_init qmax cap grp n)" and "failed m \<noteq> []"
  shows "got_length (dist_run (CallGetAll # fs) m) (calls_made m) = None"
proof (rule ccontr)
  let ?m1 = "call_get_all m" and ?c = "calls_made m"
  let ?m2 = "dist_run fs ?m1"
  assume "got_length (dist_run (CallGetAll # fs) m) ?c \<noteq> None"
  then obtain l where l: "got_length ?m2 ?c = Some l" by (auto simp: dist_run_def)
  have start: "counted m" "dist_inv cap grp m"
    using dist_run_counted [OF assms(1)] dist_start_state assms(3) by blast+
  have "dist_inv cap grp ?m1" using dist_act_inv [OF start(2), of CallGetAll] by simp
  moreover have "asked ?c (nat (pending m)) ?m1"
    by (simp add: asked_def asks_def call_get_all_def call_buffer_def calls_made_def)
  ultimately have run: "dist_inv cap grp ?m2" "account ?m2 = account ?m1" "asked ?c (nat (pending m)) ?m2"
      "length (failed ?m1) \<le> length (failed ?m2)" "\<And>j l. got_length ?m1 j = Some l \<Longrightarrow> got_length ?m2 j = Some l"
    using dist_run_frame [OF assms(2)] by blast+
  have one: "account ?m1 = account m" "failed ?m1 = failed m"
    using dist_act_account [of CallGetAll m] by (simp_all add: no_puts_def) (simp add: call_get_all_def)
  let ?len = "\<lambda>m n. case got_length m n of Some l \<Rightarrow> l | None \<Rightarrow> 0"
  have known: "got_length ?m2 j = got_length m j \<and> got_length m j \<noteq> None" if "j \<in> returned m" for j
    using that start(2) dist_act_got [of m j _ CallGetAll] run(5) by (fastforce simp: dist_inv_def returned_ok_def)
  have new: "?c \<notin> returned m"
    using known [of ?c] by (auto simp: got_length_def)
  have "nat (pending m) \<le> l"
    by (rule asked_result [OF run(1,3) l])
  moreover have "(\<Sum>j \<in> insert ?c (returned m). ?len ?m2 j) \<le> adds (tasks (world ?m2))"
    using run(1) start(2) l known by (intro results_bound) (auto simp: dist_inv_def returned_ok_def)
  moreover have "(\<Sum>j \<in> insert ?c (returned m). ?len ?m2 j) = l + handed_out m"
    using start(2) new l known by (simp add: handed_out_def dist_inv_def returned_ok_def)
  moreover have "adds (tasks (world ?m2)) + length (failed ?m2) \<le> account m"
    using run(2) one(1) unfolding account_def by linarith
  moreover have "0 < length (failed ?m2)" using run(4) one(2) assms(4) by (cases "failed m") auto
  moreover have "int (account m) = pending m + int (handed_out m)" using start(1) by (simp add: counted_def)
  ultimately show False by linarith
qed

lemma distributed_get_all_hangs_witness:
  "let m = dist_run [Start, Put [(''a'', JInt 1)], Put [(''a'', JInt 2)], Take 0, Finish 0 (Inl RuntimeError), Take 0,
             Finish 0 (Inr (Some [])), RunBuffer 0, Stored 0] (manager_init 10 10 1 1)
   in pending m = 2 \<and> length (queue (buf (world m))) = 1 \<and>
      got_length (dist_run [CallGetAll, RunBuffer 1, RunBuffer 1] m) 1 = None"
proof -
  let ?es = "[Start, Put [(''a'', JInt 1)], Put [(''a'', JInt 2)], Take 0, Finish 0 (Inl RuntimeError), Take 0,
             Finish 0 (Inr (Some [])), RunBuffer 0, Stored 0]"
  let ?m = "dist_run ?es (manager_init 10 10 1 1)"
  have "pending ?m = 2 \<and> length (queue (buf (world ?m))) = 1 \<and> calls_made ?m = 1 \<and> failed ?m \<noteq> []"
    by (simp add: dist_run_def manager_init_def start_world_def buffer_init_def dist_start_def dist_put_def todo_full_def
        take_item_def worker_at_def set_worker_def dist_finish_def store_def call_buffer_def calls_made_def
        run_buffer_def run_task_def try_add_def enter_def wake_getters_def dist_stored_def)
  moreover have "no_puts [RunBuffer 1, RunBuffer 1]" by (simp add: no_puts_def)
  ultimately show ?thesis
    using distributed_get_all_hangs [of ?es "[RunBuffer 1, RunBuffer 1]" ?m 10 10 1 1] by (simp add: Let_def)
qed

end
