(* ===== verification/Task_Worker.thy ===== *)
theory Task_Worker
  imports Complex_Main Encoding
begin

text \<open>
  The task worker (worker/src/agentrl/worker/task\_worker.py, task.py and typings.py): the
  hand-over between an agent and an environment that runs as a task, and the requests by which
  samples are started, continued and cancelled. The steps are the parts of the coroutines between
  two awaits; what the environment's own code does next is an event of the schedule. Tools,
  logging and the transport are left out.
\<close>

section \<open>Histories and outputs\<close>

datatype history_item = Chat json | RewardItem rat "(string, json) dict"

datatype sample_status =
    RUNNING | COMPLETED | AGENT_CONTEXT_LIMIT | AGENT_VALIDATION_FAILED | AGENT_INVALID_ACTION
  | TASK_LIMIT_REACHED | UNKNOWN | TASK_ERROR | CANCELLED

datatype agent_output = Normal "json list" | AgentCancelled

datatype sample_index = IntIndex int | StrIndex string

text \<open>A reward item adds its score to its metrics, unless they have one.\<close>

definition reward_item :: "rat \<Rightarrow> json option \<Rightarrow> (string, json) dict \<Rightarrow> history_item" where
  "reward_item r score metrics =
     RewardItem r
       (case score of
          Some s \<Rightarrow> if dict_get metrics ''score'' = None then dict_set ''score'' s metrics else metrics
        | None \<Rightarrow> metrics)"

definition is_reward :: "history_item \<Rightarrow> bool" where
  "is_reward x = (case x of RewardItem r m \<Rightarrow> True | Chat j \<Rightarrow> False)"

definition split_history :: "history_item list \<Rightarrow> history_item list \<times> history_item list" where
  "split_history xs = (filter (\<lambda>x. \<not> is_reward x) xs, filter is_reward xs)"

record response =
  messages :: "history_item list"
  status :: sample_status
  finish :: bool
  reward :: rat
  metric :: "(string, json) dict"

section \<open>The session\<close>

record session =
  history :: "history_item list"
  out_history :: "history_item list"
  out_ptr :: nat
  out_status :: sample_status
  env_input :: "agent_output option"
  agent_signal :: nat
  env_signal :: nat
  full_history :: bool
  agent_lock :: bool
  env_lock :: bool

definition new_session :: session where
  "new_session =
     \<lparr>history = [], out_history = [], out_ptr = 0, out_status = RUNNING, env_input = None,
      agent_signal = 0, env_signal = 0, full_history = False, agent_lock = False, env_lock = False\<rparr>"

definition response_content :: "session \<Rightarrow> response" where
  "response_content s =
     (let (chat, rewards) = split_history (drop (out_ptr s) (out_history s));
          (r, m) = (case rewards of
                      [] \<Rightarrow> (0, [])
                    | _ \<Rightarrow> (case last rewards of RewardItem r m \<Rightarrow> (r, m) | Chat j \<Rightarrow> (0, [])))
      in \<lparr>messages = chat, status = out_status s, finish = (out_status s \<noteq> RUNNING), reward = r, metric = m\<rparr>)"

text \<open>\<open>agent_pull\<close> up to its wait, and from the wake-up.\<close>

definition agent_pull :: "agent_output option \<Rightarrow> session \<Rightarrow> session" where
  "agent_pull inp s =
     (let s1 = s\<lparr>agent_lock := True\<rparr>
      in case inp of
           None \<Rightarrow> s1
         | Some a \<Rightarrow> s1\<lparr>env_input := Some a, env_signal := env_signal s1 + 1\<rparr>)"

definition agent_pulled :: "session \<Rightarrow> session" where
  "agent_pulled s = s\<lparr>agent_signal := agent_signal s - 1, agent_lock := False\<rparr>"

definition next_ptr :: "session \<Rightarrow> nat" where
  "next_ptr s = (if full_history s then 0 else length (out_history s))"

definition env_pull :: "history_item list \<Rightarrow> session \<Rightarrow> session" where
  "env_pull h s =
     s\<lparr>env_lock := True, out_ptr := next_ptr s, out_history := h, agent_signal := agent_signal s + 1\<rparr>"

definition env_pulled :: "session \<Rightarrow> session" where
  "env_pulled s = s\<lparr>env_signal := env_signal s - 1, env_lock := False\<rparr>"

definition env_finish :: "sample_status \<Rightarrow> history_item list \<Rightarrow> session \<Rightarrow> session" where
  "env_finish st h s =
     s\<lparr>env_lock := False, out_ptr := next_ptr s, out_history := h, out_status := st,
       agent_signal := agent_signal s + 1\<rparr>"

datatype injection = Nothing | One history_item | Many "injection list"

fun inject :: "injection \<Rightarrow> session \<Rightarrow> session" where
  "inject Nothing s = s"
| "inject (One x) s = s\<lparr>history := history s @ [x]\<rparr>"
| "inject (Many []) s = s"
| "inject (Many (x # xs)) s = inject (Many xs) (inject x s)"

definition clear :: "session \<Rightarrow> session" where
  "clear s = s\<lparr>history := []\<rparr>"

definition cover :: "history_item list \<Rightarrow> session \<Rightarrow> session" where
  "cover xs s = s\<lparr>history := xs\<rparr>"

definition set_full_history :: "bool \<Rightarrow> session \<Rightarrow> session" where
  "set_full_history b s = s\<lparr>full_history := b\<rparr>"

text \<open>\<open>action\<close> up to its wait; from the wake-up it returns the messages, or raises.\<close>

definition action :: "injection list \<Rightarrow> session \<Rightarrow> session" where
  "action xs s = (let s1 = inject (Many xs) s in env_pull (history s1) s1)"

definition action_done :: "session \<Rightarrow> json list option \<times> session" where
  "action_done s =
     (let s1 = env_pulled s
      in case env_input s of
           Some (Normal ms) \<Rightarrow>
             (let h = history s1 @ map Chat ms in (Some ms, s1\<lparr>history := h, out_history := h\<rparr>))
         | _ \<Rightarrow> (None, s1))"

section \<open>The worker\<close>

text \<open>
  \<open>told\<close>: the environment has been told of the cancellation by the exception of \<open>action\<close>.
  \<open>killed\<close>: \<open>cancel\<close> was called on its task. \<open>said\<close> logs what passed between the worker and
  the agent, in order: the responses that were returned, and the messages of the requests.
\<close>

datatype phase = Active | Ended | Crashed

record running =
  index :: sample_index
  session_id :: int
  session :: session
  phase :: phase
  cancelling :: bool
  told :: bool
  killed :: bool
  replies :: "response list"
  said :: "(response + json list) list"

record tworker =
  concurrency :: nat
  full_async :: bool
  samples :: "running list"
  session_map :: "(int, nat) dict"
  cancel_tasks :: "(nat \<times> bool) list"
  notices :: "int list"

definition worker_init :: "nat \<Rightarrow> bool \<Rightarrow> tworker" where
  "worker_init n fa =
     \<lparr>concurrency = n, full_async = fa, samples = [], session_map = [], cancel_tasks = [], notices = []\<rparr>"

definition on_sample :: "nat \<Rightarrow> (running \<Rightarrow> running) \<Rightarrow> tworker \<Rightarrow> tworker" where
  "on_sample i f w = w\<lparr>samples := (samples w)[i := f (samples w ! i)]\<rparr>"

definition on_session :: "nat \<Rightarrow> (session \<Rightarrow> session) \<Rightarrow> tworker \<Rightarrow> tworker" where
  "on_session i f = on_sample i (\<lambda>r. r\<lparr>session := f (session r)\<rparr>)"

definition pop_session :: "int \<Rightarrow> tworker \<Rightarrow> tworker" where
  "pop_session k w = w\<lparr>session_map := dict_del k (session_map w)\<rparr>"

text \<open>A request is refused with a status code; otherwise it goes on to its wait.\<close>

definition start_sample :: "int \<Rightarrow> sample_index \<Rightarrow> tworker \<Rightarrow> (nat + unit) \<times> tworker" where
  "start_sample k ix w =
     (if dict_get (session_map w) k \<noteq> None then (Inl 400, w)
      else if concurrency w \<le> length (session_map w) then (Inl 406, w)
      else
        let r = \<lparr>index = ix, session_id = k, session = agent_pull None new_session, phase = Active,
                 cancelling = False, told = False, killed = False, replies = [], said = []\<rparr>
        in (Inr (), w\<lparr>samples := samples w @ [r],
                      session_map := dict_set k (length (samples w)) (session_map w)\<rparr>))"

text \<open>An agent output without messages does not validate: the request ends in an internal error.\<close>

definition interact :: "int \<Rightarrow> json list \<Rightarrow> tworker \<Rightarrow> (nat + unit) \<times> tworker" where
  "interact k ms w =
     (case dict_get (session_map w) k of
        None \<Rightarrow> (Inl 400, w)
      | Some i \<Rightarrow>
          let r = samples w ! i in
          if agent_lock (session r) \<or> cancelling r then (Inl 400, w)
          else if ms = [] then (Inl 500, w)
          else (Inr (), on_sample i (\<lambda>r. r\<lparr>session := agent_pull (Some (Normal ms)) (session r),
                                           said := said r @ [Inr ms]\<rparr>) w))"

text \<open>The end of \<open>start_sample\<close> and of \<open>interact\<close>, once the environment has signalled.\<close>

definition reply :: "nat \<Rightarrow> tworker \<Rightarrow> tworker" where
  "reply i w =
     (let s = session (samples w ! i) in
      if i < length (samples w) \<and> agent_lock s \<and> 0 < agent_signal s
      then (let content = response_content s
            in on_sample i (\<lambda>r. r\<lparr>session := agent_pulled s, replies := replies r @ [content],
                                   said := said r @ [Inl content]\<rparr>) w)
      else w)"

definition cancel :: "int \<Rightarrow> bool \<Rightarrow> tworker \<Rightarrow> (nat + unit) \<times> tworker" where
  "cancel k with_notice w =
     (case dict_get (session_map w) k of
        None \<Rightarrow> (Inl 400, w)
      | Some i \<Rightarrow>
          (Inr (),
           (on_sample i (\<lambda>r. r\<lparr>cancelling := True,
              session := (session r)\<lparr>env_input := Some AgentCancelled, env_signal := env_signal (session r) + 1\<rparr>\<rparr>) w)
             \<lparr>cancel_tasks := cancel_tasks w @ [(i, with_notice)]\<rparr>))"

text \<open>
  The inner \<open>cancel_task\<close>. A task that may be cancelled directly is, and is not waited for.
  Otherwise it is waited for; its own exception is raised here, unless it is a cancellation.
\<close>

definition end_cancel :: "nat \<Rightarrow> tworker \<Rightarrow> tworker" where
  "end_cancel j w =
     (let (i, with_notice) = cancel_tasks w ! j;
          k = session_id (samples w ! i);
          w1 = pop_session k w
      in if with_notice then w1\<lparr>notices := notices w1 @ [k]\<rparr> else w1)"

definition drop_cancel :: "nat \<Rightarrow> tworker \<Rightarrow> tworker" where
  "drop_cancel j w = w\<lparr>cancel_tasks := take j (cancel_tasks w) @ drop (Suc j) (cancel_tasks w)\<rparr>"

definition cancel_task :: "nat \<Rightarrow> tworker \<Rightarrow> tworker" where
  "cancel_task j w =
     (if j < length (cancel_tasks w) then
        let i = fst (cancel_tasks w ! j) in
        if full_async w
        then drop_cancel j (end_cancel j (on_sample i (\<lambda>r. r\<lparr>killed := (phase r = Active)\<rparr>) w))
        else (case phase (samples w ! i) of
                Active \<Rightarrow> w
              | Ended \<Rightarrow> drop_cancel j (end_cancel j w)
              | Crashed \<Rightarrow> drop_cancel j w)
      else w)"

definition cancel_all :: "bool \<Rightarrow> tworker \<Rightarrow> tworker" where
  "cancel_all with_notice w = fold (\<lambda>k. snd \<circ> cancel k with_notice) (dict_keys (session_map w)) w"

definition worker_status :: "tworker \<Rightarrow> nat \<times> nat" where
  "worker_status w = (concurrency w, length (session_map w))"

definition get_sessions :: "tworker \<Rightarrow> (int, sample_index) dict" where
  "get_sessions w = dict_map (\<lambda>i. index (samples w ! i)) (session_map w)"

definition sample_status_of :: "int \<Rightarrow> tworker \<Rightarrow> nat + (sample_index \<times> bool \<times> bool)" where
  "sample_status_of k w =
     (case dict_get (session_map w) k of
        None \<Rightarrow> Inl 400
      | Some i \<Rightarrow>
          let r = samples w ! i in Inr (index r, agent_lock (session r), env_lock (session r)))"

text \<open>How the code of the environment ends, and what \<open>task_start_sample_wrapper\<close> makes of it.\<close>

datatype ending = Returns sample_status | ReturnsNothing | Raises | RaisesCancelled | RaisesAgentCancelled

definition task_wrapper_end :: "nat \<Rightarrow> ending \<Rightarrow> tworker \<Rightarrow> tworker" where
  "task_wrapper_end i e w =
     (let finish = (\<lambda>st. on_sample i (\<lambda>r. r\<lparr>phase := Ended, session := env_finish st (history (session r)) (session r)\<rparr>)
                           (pop_session (session_id (samples w ! i)) w))
      in case e of
           Returns st \<Rightarrow> finish st
         | ReturnsNothing \<Rightarrow> finish TASK_ERROR
         | Raises \<Rightarrow> finish TASK_ERROR
         | RaisesCancelled \<Rightarrow> finish CANCELLED
         | RaisesAgentCancelled \<Rightarrow> on_sample i (\<lambda>r. r\<lparr>phase := Crashed\<rparr>) w)"

section \<open>Events\<close>

datatype event =
    StartSample int sample_index | Interact int "json list" | Reply nat
  | Cancel int bool | CancelAll bool | RunCancel nat
  | Inject nat injection | Clear nat | Cover nat "history_item list" | SetFullHistory nat bool
  | Action nat "injection list" | ActionDone nat | End nat ending

text \<open>The environment's code runs: its task is active and not inside \<open>action\<close>.\<close>

definition env_runs :: "nat \<Rightarrow> tworker \<Rightarrow> bool" where
  "env_runs i w \<longleftrightarrow>
     i < length (samples w) \<and> phase (samples w ! i) = Active \<and> \<not> env_lock (session (samples w ! i))"

definition action_return :: "nat \<Rightarrow> tworker \<Rightarrow> tworker" where
  "action_return i w =
     (let r = samples w ! i in
      if i < length (samples w) \<and> phase r = Active \<and> env_lock (session r) \<and> 0 < env_signal (session r)
      then (case action_done (session r) of
              (Some ms, s) \<Rightarrow> on_sample i (\<lambda>r. r\<lparr>session := s\<rparr>) w
            | (None, s) \<Rightarrow> on_sample i (\<lambda>r. r\<lparr>session := s, told := True\<rparr>) w)
      else w)"

definition may_end :: "nat \<Rightarrow> ending \<Rightarrow> tworker \<Rightarrow> bool" where
  "may_end i e w \<longleftrightarrow>
     (case e of
        RaisesCancelled \<Rightarrow> i < length (samples w) \<and> phase (samples w ! i) = Active \<and> killed (samples w ! i)
      | RaisesAgentCancelled \<Rightarrow> env_runs i w \<and> told (samples w ! i)
      | _ \<Rightarrow> env_runs i w)"

primrec act :: "event \<Rightarrow> tworker \<Rightarrow> tworker" where
  "act (StartSample k ix) w = snd (start_sample k ix w)"
| "act (Interact k ms) w = snd (interact k ms w)"
| "act (Reply i) w = reply i w"
| "act (Cancel k n) w = snd (cancel k n w)"
| "act (CancelAll n) w = cancel_all n w"
| "act (RunCancel j) w = cancel_task j w"
| "act (Inject i x) w = (if env_runs i w then on_session i (inject x) w else w)"
| "act (Clear i) w = (if env_runs i w then on_session i clear w else w)"
| "act (Cover i xs) w = (if env_runs i w then on_session i (cover xs) w else w)"
| "act (SetFullHistory i b) w = (if env_runs i w then on_session i (set_full_history b) w else w)"
| "act (Action i xs) w = (if env_runs i w then on_session i (action xs) w else w)"
| "act (ActionDone i) w = action_return i w"
| "act (End i e) w = (if may_end i e w then task_wrapper_end i e w else w)"

definition run_events :: "event list \<Rightarrow> tworker \<Rightarrow> tworker" where
  "run_events = fold act"

end
