(* ===== verification/Task_Worker_Proofs.thy ===== *)
theory Task_Worker_Proofs
  imports Task_Worker
begin

text \<open>
  The invariants of the task worker: what the session map holds, when a sample keeps its slot, and
  what the agent of a session gets to see of its history.
\<close>

section \<open>Updates of one sample\<close>

lemma on_sample_sel [simp]:
  "session_map (on_sample i f w) = session_map w" "concurrency (on_sample i f w) = concurrency w"
  "full_async (on_sample i f w) = full_async w" "cancel_tasks (on_sample i f w) = cancel_tasks w"
  "length (samples (on_sample i f w)) = length (samples w)" "notices (on_sample i f w) = notices w"
  by (simp_all add: on_sample_def)

lemma on_sample_nth [simp]:
  "j < length (samples w) \<Longrightarrow>
     samples (on_sample i f w) ! j = (if j = i then f (samples w ! j) else samples w ! j)"
  by (auto simp: on_sample_def)

lemma pop_session_sel [simp]:
  "samples (pop_session k w) = samples w" "concurrency (pop_session k w) = concurrency w"
  "full_async (pop_session k w) = full_async w" "cancel_tasks (pop_session k w) = cancel_tasks w"
  "session_map (pop_session k w) = dict_del k (session_map w)"
  by (simp_all add: pop_session_def)

lemma drop_cancel_sel [simp]:
  "samples (drop_cancel j w) = samples w" "concurrency (drop_cancel j w) = concurrency w"
  "full_async (drop_cancel j w) = full_async w" "session_map (drop_cancel j w) = session_map w"
  by (simp_all add: drop_cancel_def)

lemma set_drop_cancel: "c \<in> set (cancel_tasks (drop_cancel j w)) \<Longrightarrow> c \<in> set (cancel_tasks w)"
  by (auto simp: drop_cancel_def dest: in_set_takeD in_set_dropD)

lemma end_cancel_sel [simp]:
  "samples (end_cancel j w) = samples w" "concurrency (end_cancel j w) = concurrency w"
  "full_async (end_cancel j w) = full_async w" "cancel_tasks (end_cancel j w) = cancel_tasks w"
  "session_map (end_cancel j w) = dict_del (session_id (samples w ! fst (cancel_tasks w ! j))) (session_map w)"
  by (simp_all add: end_cancel_def Let_def split: prod.split)

lemma inject_sel [simp]:
  "out_history (inject x s) = out_history s" "agent_lock (inject x s) = agent_lock s"
  "env_lock (inject x s) = env_lock s" "agent_signal (inject x s) = agent_signal s"
  "env_signal (inject x s) = env_signal s" "full_history (inject x s) = full_history s"
  "env_input (inject x s) = env_input s" "out_ptr (inject x s) = out_ptr s"
  by (induction x s rule: inject.induct) simp_all

lemma inject_extends: "\<exists>xs. history (inject x s) = history s @ xs"
  by (induction x s rule: inject.induct) auto

section \<open>The session map\<close>

definition points_to :: "tworker \<Rightarrow> int \<Rightarrow> nat \<Rightarrow> bool" where
  "points_to w k i \<longleftrightarrow> i < length (samples w) \<and> session_id (samples w ! i) = k \<and> phase (samples w ! i) \<noteq> Ended"

definition is_cancelling :: "tworker \<Rightarrow> nat \<Rightarrow> bool" where
  "is_cancelling w i \<longleftrightarrow> i < length (samples w) \<and> cancelling (samples w ! i)"

definition map_ok :: "tworker \<Rightarrow> bool" where
  "map_ok w \<longleftrightarrow>
     length (session_map w) \<le> concurrency w \<and> distinct (dict_keys (session_map w)) \<and>
     (\<forall>k i. dict_get (session_map w) k = Some i \<longrightarrow> points_to w k i) \<and>
     (\<forall>c \<in> set (cancel_tasks w). is_cancelling w (fst c)) \<and>
     (\<forall>i < length (samples w). killed (samples w ! i) \<longrightarrow> is_cancelling w i)"

lemma map_ok_points: "map_ok w \<Longrightarrow> dict_get (session_map w) k = Some i \<Longrightarrow> points_to w k i"
  and map_ok_cancelling: "map_ok w \<Longrightarrow> c \<in> set (cancel_tasks w) \<Longrightarrow> is_cancelling w (fst c)"
  and map_ok_killed: "map_ok w \<Longrightarrow> i < length (samples w) \<Longrightarrow> killed (samples w ! i) \<Longrightarrow> is_cancelling w i"
  by (simp_all add: map_ok_def)

text \<open>Steps that keep the map and the ids, end nobody and take no cancellation back.\<close>

lemma map_ok_update:
  assumes "map_ok w" and "session_map w' = session_map w" and "concurrency w' = concurrency w"
    and "\<And>k i. points_to w k i \<Longrightarrow> points_to w' k i" and "\<And>i. is_cancelling w i \<Longrightarrow> is_cancelling w' i"
    and "\<And>c. c \<in> set (cancel_tasks w') \<Longrightarrow> c \<in> set (cancel_tasks w) \<or> is_cancelling w' (fst c)"
    and "\<And>i. i < length (samples w') \<Longrightarrow> killed (samples w' ! i) \<Longrightarrow> is_cancelling w' i"
  shows "map_ok w'"
  using assms unfolding map_ok_def by metis

definition keeps_sample :: "running \<Rightarrow> running \<Rightarrow> bool" where
  "keeps_sample r r' \<longleftrightarrow>
     session_id r' = session_id r \<and> (phase r' = Ended \<longrightarrow> phase r = Ended) \<and> (cancelling r \<longrightarrow> cancelling r') \<and>
     (killed r' \<longrightarrow> killed r \<or> cancelling r')"

lemma on_sample_points:
  assumes "i < length (samples w) \<Longrightarrow> keeps_sample (samples w ! i) (f (samples w ! i))"
  shows "points_to w k j \<Longrightarrow> points_to (on_sample i f w) k j"
    and "is_cancelling w j \<Longrightarrow> is_cancelling (on_sample i f w) j"
  using assms by (auto simp: points_to_def is_cancelling_def keeps_sample_def)

lemma map_ok_sample:
  assumes "map_ok w" and keeps: "i < length (samples w) \<Longrightarrow> keeps_sample (samples w ! i) (f (samples w ! i))"
  shows "map_ok (on_sample i f w)"
proof (rule map_ok_update [OF assms(1)])
  fix j assume j: "j < length (samples (on_sample i f w))" "killed (samples (on_sample i f w) ! j)"
  show "is_cancelling (on_sample i f w) j"
  proof (cases "j = i \<and> \<not> killed (samples w ! i)")
    case True
    then show ?thesis using j keeps by (auto simp: keeps_sample_def is_cancelling_def)
  next
    case False
    then have "killed (samples w ! j)" using j by (auto split: if_splits)
    then show ?thesis using on_sample_points(2) [of i w f] keeps map_ok_killed [OF assms(1)] j(1) by simp
  qed
qed (use on_sample_points [of i w f] keeps in auto)

lemma map_ok_cancels:
  assumes "map_ok w" and "samples w' = samples w" and "session_map w' = session_map w" and "concurrency w' = concurrency w"
    and "\<And>c. c \<in> set (cancel_tasks w') \<Longrightarrow> c \<in> set (cancel_tasks w) \<or> is_cancelling w (fst c)"
  shows "map_ok w'"
proof -
  have same: "points_to w' = points_to w" "is_cancelling w' = is_cancelling w"
    by (simp_all add: points_to_def is_cancelling_def assms(2) fun_eq_iff)
  show ?thesis
  proof (rule map_ok_update [OF assms(1,3,4)])
    show "is_cancelling w' i" if "i < length (samples w')" "killed (samples w' ! i)" for i
      using map_ok_killed [OF assms(1), of i] that by (simp only: same assms(2))
  qed (simp_all only: same assms(5))
qed

lemma length_dict_del: "length (dict_del k d) \<le> length d"
  by (induction d) auto

lemma length_dict_set: "dict_get d k = None \<Longrightarrow> length (dict_set k v d) = Suc (length d)"
  by (induction d) (auto split: if_splits)

lemma map_ok_pop:
  assumes "map_ok w"
  shows "map_ok (pop_session k w)"
proof -
  have same: "points_to (pop_session k w) = points_to w" "is_cancelling (pop_session k w) = is_cancelling w"
    by (simp_all add: points_to_def is_cancelling_def fun_eq_iff)
  have "length (dict_del k (session_map w)) \<le> concurrency w"
    using length_dict_del [of k "session_map w"] assms by (simp add: map_ok_def)
  then show ?thesis using assms unfolding map_ok_def same by (simp split: if_splits)
qed

lemma map_ok_wrapper:
  assumes "map_ok w" and "i < length (samples w)"
  shows "map_ok (task_wrapper_end i e w)"
proof -
  let ?k = "session_id (samples w ! i)"
  have "map_ok (on_sample i (\<lambda>r. r\<lparr>phase := Ended, session := g r\<rparr>) (pop_session ?k w))" for g
  proof -
    let ?f = "\<lambda>r. r\<lparr>phase := Ended, session := g r\<rparr>"
    let ?w = "pop_session ?k w"
    have "points_to (on_sample i ?f ?w) k j" if "dict_get (session_map ?w) k = Some j" for k j
      using that map_ok_points [OF assms(1), of k j] by (auto simp: points_to_def split: if_splits)
    moreover have "is_cancelling (on_sample i ?f ?w) j" if "is_cancelling ?w j" for j
      using that by (auto simp: is_cancelling_def)
    moreover have "killed (samples ?w ! j)" if "killed (samples (on_sample i ?f ?w) ! j)" "j < length (samples w)" for j
      using that by (auto split: if_splits)
    ultimately show ?thesis using map_ok_pop [OF assms(1), of ?k] by (simp add: map_ok_def)
  qed
  moreover have "map_ok (on_sample i (\<lambda>r. r\<lparr>phase := Crashed\<rparr>) w)"
    by (rule map_ok_sample [OF assms(1)]) (simp add: keeps_sample_def)
  ultimately show ?thesis by (simp add: task_wrapper_end_def Let_def split: ending.split)
qed

lemma map_ok_cancel:
  assumes "map_ok w"
  shows "map_ok (snd (cancel k n w))"
proof (cases "dict_get (session_map w) k")
  case (Some i)
  let ?f = "\<lambda>r. r\<lparr>cancelling := True,
      session := (session r)\<lparr>env_input := Some AgentCancelled, env_signal := env_signal (session r) + 1\<rparr>\<rparr>"
  have i: "i < length (samples w)" using map_ok_points [OF assms Some] by (simp add: points_to_def)
  have "map_ok (on_sample i ?f w)" by (rule map_ok_sample [OF assms]) (simp add: keeps_sample_def)
  then have "map_ok ((on_sample i ?f w)\<lparr>cancel_tasks := cancel_tasks w @ [(i, n)]\<rparr>)"
  proof (rule map_ok_cancels)
    fix c assume "c \<in> set (cancel_tasks ((on_sample i ?f w)\<lparr>cancel_tasks := cancel_tasks w @ [(i, n)]\<rparr>))"
    moreover have "is_cancelling (on_sample i ?f w) i" using i by (simp add: is_cancelling_def)
    ultimately show "c \<in> set (cancel_tasks (on_sample i ?f w)) \<or> is_cancelling (on_sample i ?f w) (fst c)"
      by auto
  qed simp_all
  then show ?thesis using Some by (simp add: cancel_def)
qed (use assms in \<open>simp add: cancel_def\<close>)

lemma map_ok_cancel_task:
  assumes "map_ok w"
  shows "map_ok (cancel_task j w)"
proof (cases "j < length (cancel_tasks w)")
  case True
  then have cancelling: "is_cancelling w (fst (cancel_tasks w ! j))"
    using map_ok_cancelling [OF assms] by simp
  have ended: "map_ok (drop_cancel j (end_cancel j v))" if "map_ok v" for v
    by (rule map_ok_cancels [OF map_ok_pop [OF that]]) (use set_drop_cancel in force)+
  have "map_ok (on_sample (fst (cancel_tasks w ! j)) (\<lambda>r. r\<lparr>killed := (phase r = Active)\<rparr>) w)"
    by (rule map_ok_sample [OF assms]) (use cancelling in \<open>simp add: keeps_sample_def is_cancelling_def\<close>)
  moreover have "map_ok (drop_cancel j w)"
    by (rule map_ok_cancels [OF assms]) (use set_drop_cancel in force)+
  ultimately show ?thesis using ended assms by (auto simp: cancel_task_def Let_def split: phase.split)
qed (use assms in \<open>simp add: cancel_task_def\<close>)

lemma map_ok_start:
  assumes "map_ok w"
  shows "map_ok (snd (start_sample k ix w))"
proof (cases "dict_get (session_map w) k = None \<and> length (session_map w) < concurrency w")
  case True
  let ?w = "snd (start_sample k ix w)"
  obtain r where w: "?w = w\<lparr>samples := samples w @ [r], session_map := dict_set k (length (samples w)) (session_map w)\<rparr>"
    and r: "session_id r = k" "phase r = Active" "\<not> killed r"
    using True by (force simp: start_sample_def Let_def)
  have "points_to ?w k' i" if "dict_get (session_map ?w) k' = Some i" for k' i
    using that map_ok_points [OF assms, of k' i] r by (auto simp: w points_to_def nth_append split: if_splits)
  moreover have "is_cancelling w i \<Longrightarrow> is_cancelling ?w i" for i
    by (auto simp: w is_cancelling_def nth_append)
  moreover have "killed (samples ?w ! i) \<Longrightarrow> i < length (samples ?w) \<Longrightarrow> i < length (samples w) \<and> killed (samples w ! i)" for i
    using r by (auto simp: w nth_append less_Suc_eq split: if_splits)
  ultimately show ?thesis
    using assms True length_dict_set [of "session_map w" k] unfolding map_ok_def by (simp add: w)
next
  case False
  then show ?thesis using assms by (auto simp: start_sample_def)
qed

lemma map_ok_act:
  assumes "map_ok w"
  shows "map_ok (act e w)"
proof -
  have session: "map_ok (on_session i f w)" for i f
    unfolding on_session_def by (rule map_ok_sample [OF assms]) (simp add: keeps_sample_def)
  show ?thesis
  proof (cases e)
    case (Interact k ms)
    show ?thesis unfolding Interact
      by (auto simp: interact_def Let_def assms keeps_sample_def intro!: map_ok_sample split: option.split)
  next
    case (Reply i)
    show ?thesis unfolding Reply by (auto simp: reply_def Let_def assms keeps_sample_def intro!: map_ok_sample)
  next
    case (CancelAll n)
    have "map_ok (fold (\<lambda>k. snd \<circ> cancel k n) ks v)" if "map_ok v" for ks v
      using that by (induction ks arbitrary: v) (simp_all add: map_ok_cancel)
    then show ?thesis unfolding CancelAll using assms by (simp add: cancel_all_def)
  next
    case (ActionDone i)
    show ?thesis unfolding ActionDone
      by (auto simp: action_return_def Let_def assms keeps_sample_def intro!: map_ok_sample split: prod.split option.split)
  next
    case (End i x)
    then show ?thesis using assms
      by (auto simp: may_end_def env_runs_def intro!: map_ok_wrapper split: ending.splits)
  qed (simp_all add: assms session map_ok_start map_ok_cancel map_ok_cancel_task)
qed

section \<open>Slots\<close>

text \<open>
  The controller numbers its sessions, so no id is started twice. Then, with tasks that must not be
  cancelled directly, every sample that has not come to its end occupies its slot.
\<close>

definition start_ids :: "event list \<Rightarrow> int list" where
  "start_ids es = concat (map (\<lambda>e. case e of StartSample k ix \<Rightarrow> [k] | _ \<Rightarrow> []) es)"

definition ids :: "tworker \<Rightarrow> int list" where
  "ids w = map session_id (samples w)"

definition slots_ok :: "tworker \<Rightarrow> bool" where
  "slots_ok w \<longleftrightarrow> \<not> full_async w \<and> distinct (ids w) \<and>
     (\<forall>i < length (samples w). phase (samples w ! i) \<noteq> Ended \<longrightarrow>
        dict_get (session_map w) (session_id (samples w ! i)) = Some i)"

lemma slots_okD:
  assumes "slots_ok w" and "i < length (samples w)"
  shows "phase (samples w ! i) \<noteq> Ended \<Longrightarrow> dict_get (session_map w) (session_id (samples w ! i)) = Some i"
    and "j < length (samples w) \<Longrightarrow> session_id (samples w ! j) = session_id (samples w ! i) \<Longrightarrow> j = i"
  using assms by (auto simp: slots_ok_def ids_def distinct_conv_nth)

definition same_phase :: "running \<Rightarrow> running \<Rightarrow> bool" where
  "same_phase r r' \<longleftrightarrow>
     session_id r' = session_id r \<and> (phase r' = phase r \<or> phase r = Active \<and> phase r' = Crashed)"

lemma ids_on_sample:
  assumes "i < length (samples w) \<Longrightarrow> session_id (f (samples w ! i)) = session_id (samples w ! i)"
  shows "ids (on_sample i f w) = ids w"
proof (rule nth_equalityI)
  fix j assume "j < length (ids (on_sample i f w))"
  then show "ids (on_sample i f w) ! j = ids w ! j" using assms by (cases "j = i") (simp_all add: ids_def)
qed (simp add: ids_def)

lemma slots_ok_sample:
  assumes "slots_ok w" and "i < length (samples w) \<Longrightarrow> same_phase (samples w ! i) (f (samples w ! i))"
  shows "slots_ok (on_sample i f w)"
proof -
  have "ids (on_sample i f w) = ids w" by (rule ids_on_sample) (use assms(2) in \<open>simp add: same_phase_def\<close>)
  then show ?thesis using assms by (auto simp: slots_ok_def same_phase_def)
qed

lemma slots_ok_same:
  assumes "slots_ok w" and "samples w' = samples w" and "session_map w' = session_map w" and "full_async w' = full_async w"
  shows "slots_ok w'"
  using assms(1) unfolding slots_ok_def ids_def assms(2-4) .

lemma slots_ok_pop:
  assumes "slots_ok w" and "i < length (samples w)" and "phase (samples w ! i) = Ended"
    and "samples w' = samples w" and "full_async w' = full_async w"
    and "session_map w' = dict_del (session_id (samples w ! i)) (session_map w)"
  shows "slots_ok w'"
proof -
  have "session_id (samples w ! j) \<noteq> session_id (samples w ! i)"
    if "j < length (samples w)" "phase (samples w ! j) \<noteq> Ended" for j
    using slots_okD(2) [OF assms(1,2) that(1)] that(2) assms(3) by auto
  then show ?thesis using assms(1) by (simp add: slots_ok_def ids_def assms(4-6))
qed

lemma slots_ok_wrapper:
  assumes "slots_ok w" and "i < length (samples w)" and "phase (samples w ! i) = Active"
  shows "slots_ok (task_wrapper_end i e w)"
proof -
  let ?k = "session_id (samples w ! i)"
  have "slots_ok (on_sample i (\<lambda>r. r\<lparr>phase := Ended, session := g r\<rparr>) (pop_session ?k w))" for g
  proof -
    let ?w = "on_sample i (\<lambda>r. r\<lparr>phase := Ended, session := g r\<rparr>) (pop_session ?k w)"
    have "ids ?w = ids w" using ids_on_sample [of i "pop_session ?k w"] by (simp add: ids_def)
    moreover have "dict_get (session_map ?w) (session_id (samples ?w ! j)) = Some j"
      if "j < length (samples ?w)" "phase (samples ?w ! j) \<noteq> Ended" for j
      using that slots_okD [OF assms(1), of j] slots_okD(2) [OF assms(1,2), of j] by (auto split: if_splits)
    ultimately show ?thesis using assms(1) by (simp add: slots_ok_def)
  qed
  moreover have "slots_ok (on_sample i (\<lambda>r. r\<lparr>phase := Crashed\<rparr>) w)"
    by (rule slots_ok_sample [OF assms(1)]) (simp add: same_phase_def assms(3))
  ultimately show ?thesis by (simp add: task_wrapper_end_def Let_def split: ending.split)
qed

lemma slots_ok_cancel:
  assumes "slots_ok w"
  shows "slots_ok (snd (cancel k n w))"
proof -
  have "slots_ok (v\<lparr>cancel_tasks := c\<rparr>)" if "slots_ok v" for v c
    by (rule slots_ok_same [OF that]) simp_all
  moreover have "slots_ok (on_sample i (\<lambda>r. r\<lparr>cancelling := b, session := g r\<rparr>) w)" for i b g
    by (rule slots_ok_sample [OF assms]) (simp add: same_phase_def)
  ultimately show ?thesis using assms by (simp add: cancel_def split: option.split)
qed

lemma slots_ok_cancel_task:
  assumes "slots_ok w" and "map_ok w"
  shows "slots_ok (cancel_task j w)"
proof (cases "j < length (cancel_tasks w)")
  case True
  let ?i = "fst (cancel_tasks w ! j)"
  have "is_cancelling w ?i" using True map_ok_cancelling [OF assms(2)] by simp
  then have i: "?i < length (samples w)" by (simp add: is_cancelling_def)
  have "slots_ok (drop_cancel j (end_cancel j w))" if "phase (samples w ! ?i) = Ended"
    by (rule slots_ok_pop [OF assms(1) i that]) simp_all
  moreover have "slots_ok (drop_cancel j w)" by (rule slots_ok_same [OF assms(1)]) simp_all
  ultimately show ?thesis using assms(1) by (auto simp: cancel_task_def Let_def slots_ok_def split: phase.split)
qed (use assms in \<open>simp add: cancel_task_def\<close>)

lemma slots_ok_start:
  assumes "slots_ok w" and "k \<notin> set (ids w)"
  shows "slots_ok (snd (start_sample k ix w))"
proof (cases "dict_get (session_map w) k = None \<and> length (session_map w) < concurrency w")
  case True
  let ?w = "snd (start_sample k ix w)"
  obtain r where w: "?w = w\<lparr>samples := samples w @ [r], session_map := dict_set k (length (samples w)) (session_map w)\<rparr>"
    and r: "session_id r = k"
    using True by (force simp: start_sample_def Let_def)
  have "session_id (samples w ! i) \<noteq> k" if "i < length (samples w)" for i
    using assms(2) that by (auto simp: ids_def)
  then show ?thesis using assms r unfolding w
    by (auto simp: slots_ok_def ids_def nth_append less_Suc_eq)
next
  case False
  then show ?thesis using assms by (auto simp: start_sample_def)
qed

lemma slots_ok_act:
  assumes "slots_ok w" and "map_ok w" and "\<And>k. k \<in> set (start_ids [e]) \<Longrightarrow> k \<notin> set (ids w)"
  shows "slots_ok (act e w)"
proof -
  have session: "slots_ok (on_session i f w)" for i f
    unfolding on_session_def by (rule slots_ok_sample [OF assms(1)]) (simp add: same_phase_def)
  show ?thesis
  proof (cases e)
    case (StartSample k ix)
    then show ?thesis using slots_ok_start [OF assms(1)] assms(3) by (simp add: start_ids_def)
  next
    case (Interact k ms)
    show ?thesis unfolding Interact
      by (auto simp: interact_def Let_def assms(1) same_phase_def intro!: slots_ok_sample split: option.split)
  next
    case (Reply i)
    show ?thesis unfolding Reply by (auto simp: reply_def Let_def assms(1) same_phase_def intro!: slots_ok_sample)
  next
    case (CancelAll n)
    have "slots_ok (fold (\<lambda>k. snd \<circ> cancel k n) ks v)" if "slots_ok v" for ks v
      using that by (induction ks arbitrary: v) (simp_all add: slots_ok_cancel)
    then show ?thesis unfolding CancelAll using assms by (simp add: cancel_all_def)
  next
    case (ActionDone i)
    show ?thesis unfolding ActionDone
      by (auto simp: action_return_def Let_def assms(1) same_phase_def intro!: slots_ok_sample split: prod.split option.split)
  next
    case (End i x)
    then show ?thesis using assms(1)
      by (auto simp: may_end_def env_runs_def intro!: slots_ok_wrapper split: ending.splits)
  qed (simp_all add: assms(1,2) session slots_ok_cancel slots_ok_cancel_task)
qed

lemma act_concurrency [simp]: "concurrency (act e w) = concurrency w"
proof -
  have "concurrency (snd (cancel k n v)) = concurrency v" for k n v
    by (simp add: cancel_def split: option.split)
  moreover from this have "concurrency (fold (\<lambda>k. snd \<circ> cancel k n) ks v) = concurrency v" for n ks v
    by (induction ks arbitrary: v) simp_all
  ultimately show ?thesis
    by (cases e) (auto simp: start_sample_def interact_def reply_def cancel_all_def cancel_task_def Let_def on_session_def
        action_return_def task_wrapper_end_def split: option.split phase.split prod.split ending.split)
qed

lemma ids_act: "ids (act e w) = ids w \<or> (\<exists>k \<in> set (start_ids [e]). ids (act e w) = ids w @ [k])"
proof -
  have keep: "ids (on_sample i f v) = ids v" if "\<And>r. session_id (f r) = session_id r" for i f v
    by (rule ids_on_sample) (simp add: that)
  have frame: "ids (pop_session k v) = ids v" "ids (drop_cancel j v) = ids v" "ids (end_cancel j v) = ids v"
    "ids (v\<lparr>cancel_tasks := c\<rparr>) = ids v" for k j v c
    by (simp_all add: ids_def)
  have cancel: "ids (snd (cancel k n v)) = ids v" for k n v
    by (simp add: cancel_def frame keep split: option.split)
  have "ids (fold (\<lambda>k. snd \<circ> cancel k n) ks v) = ids v" for n ks v
    by (induction ks arbitrary: v) (simp_all add: cancel)
  note fold = this
  show ?thesis
  proof (cases e)
    case (StartSample k ix)
    then show ?thesis by (simp add: start_sample_def start_ids_def Let_def ids_def)
  next
    case (End i x)
    then show ?thesis using keep frame by (simp add: task_wrapper_end_def Let_def split: ending.split)
  qed (simp_all add: cancel fold interact_def reply_def cancel_all_def cancel_task_def Let_def on_session_def
      action_return_def keep frame split: option.split phase.split prod.split)
qed

lemma run_slots:
  assumes "map_ok w" and "slots_ok w" and "distinct (ids w @ start_ids es)"
  shows "map_ok (run_events es w) \<and> slots_ok (run_events es w) \<and> concurrency (run_events es w) = concurrency w
     \<and> set (ids (run_events es w)) \<subseteq> set (ids w) \<union> set (start_ids es)"
  using assms
proof (induction es arbitrary: w)
  case (Cons e es)
  have ids: "start_ids (e # es) = start_ids [e] @ start_ids es" by (simp add: start_ids_def)
  have one: "start_ids [e] = [] \<or> (\<exists>k. start_ids [e] = [k])" by (cases e) (simp_all add: start_ids_def)
  have "slots_ok (act e w)"
    using Cons.prems(3) unfolding ids by (intro slots_ok_act [OF Cons.prems(2,1)]) auto
  moreover have "distinct (ids (act e w) @ start_ids es)"
    using ids_act [of e w] Cons.prems(3) one unfolding ids by auto
  ultimately have "map_ok (run_events es (act e w)) \<and> slots_ok (run_events es (act e w)) \<and>
      concurrency (run_events es (act e w)) = concurrency (act e w) \<and>
      set (ids (run_events es (act e w))) \<subseteq> set (ids (act e w)) \<union> set (start_ids es)"
    using Cons.IH [of "act e w"] map_ok_act [OF Cons.prems(1)] by blast
  moreover have "set (ids (act e w)) \<subseteq> set (ids w) \<union> set (start_ids [e])" using ids_act [of e w] by auto
  ultimately show ?case unfolding ids by (auto simp: run_events_def)
qed (simp add: run_events_def)

lemma worker_start: "map_ok (worker_init n fa)" "slots_ok (worker_init n False)"
  by (simp_all add: map_ok_def slots_ok_def worker_init_def ids_def)

text \<open>Unfinished samples have different keys in the map, so there are no more of them than of those.\<close>

lemma unfinished_bound:
  assumes "map_ok w" and "slots_ok w"
  shows "length (filter (\<lambda>r. phase r \<noteq> Ended) (samples w)) \<le> concurrency w"
proof -
  let ?S = "{i. i < length (samples w) \<and> phase (samples w ! i) \<noteq> Ended}"
  let ?f = "\<lambda>i. session_id (samples w ! i)"
  have "inj_on ?f ?S" using slots_okD(2) [OF assms(2)] by (auto simp: inj_on_def)
  moreover have "?f ` ?S \<subseteq> set (dict_keys (session_map w))"
    using slots_okD(1) [OF assms(2)] by (force dest: map_of_SomeD)
  ultimately have "card ?S \<le> card (set (dict_keys (session_map w)))"
    using card_inj_on_le [of ?f ?S] by simp
  also have "\<dots> \<le> length (session_map w)"
    using card_length [of "dict_keys (session_map w)"] by simp
  also have "\<dots> \<le> concurrency w" using assms(1) by (simp add: map_ok_def)
  finally show ?thesis by (simp add: length_filter_conv_card)
qed

text \<open>
  The worker keeps within its concurrency. With tasks that must not be cancelled directly and
  ids that are not used twice, after any events no more samples are unfinished than the
  concurrency of the worker allows.
\<close>

lemma samples_within_concurrency:
  assumes "distinct (start_ids es)"
  shows "length (filter (\<lambda>r. phase r \<noteq> Ended) (samples (run_events es (worker_init n False)))) \<le> n"
proof -
  have start: "distinct (ids (worker_init n False) @ start_ids es)" using assms by (simp add: worker_init_def ids_def)
  let ?w = "run_events es (worker_init n False)"
  have "map_ok ?w" "slots_ok ?w" "concurrency ?w = n"
    using run_slots [OF worker_start start] by (simp_all add: worker_init_def)
  then show ?thesis using unfinished_bound [of ?w] by simp
qed

lemma samples_within_concurrency_witness:
  "let w = run_events [StartSample 1 (IntIndex 0), StartSample 2 (IntIndex 1), StartSample 3 (IntIndex 2)] (worker_init 2 False)
   in length (filter (\<lambda>r. phase r \<noteq> Ended) (samples w)) \<le> 2 \<and> dict_keys (session_map w) = [1, 2]"
  using samples_within_concurrency [of "[StartSample 1 (IntIndex 0), StartSample 2 (IntIndex 1), StartSample 3 (IntIndex 2)]" 2]
  by (simp add: start_ids_def Let_def run_events_def worker_init_def start_sample_def)

text \<open>A crash is final.\<close>

lemma crash_stays:
  assumes "i < length (samples w)" and "phase (samples w ! i) = Crashed"
  shows "i < length (samples (act e w)) \<and> phase (samples (act e w) ! i) = Crashed \<and>
     session_id (samples (act e w) ! i) = session_id (samples w ! i)"
proof -
  let ?P = "\<lambda>v. i < length (samples v) \<and> phase (samples v ! i) = Crashed \<and> session_id (samples v ! i) = session_id (samples w ! i)"
  have keep: "?P (on_sample j f v)" if "?P v" "\<And>r. phase (f r) = phase r \<and> session_id (f r) = session_id r" for j f v
    using that by (cases "j = i") simp_all
  have P: "?P w" using assms by simp
  have cancel: "?P (snd (cancel k n v))" if "?P v" for k n v
    using that by (simp add: cancel_def split: option.split)
  have "?P (fold (\<lambda>k. snd \<circ> cancel k n) ks v)" if "?P v" for n ks v
    using that
  proof (induction ks arbitrary: v)
    case (Cons k ks)
    show ?case using Cons.IH [OF cancel [OF Cons.prems]] by simp
  qed simp
  moreover have "?P (task_wrapper_end j x w)" if "may_end j x w" for j x
    using that P by (cases "j = i") (auto simp: may_end_def env_runs_def task_wrapper_end_def Let_def split: ending.splits)
  ultimately show ?thesis
    using P cancel
    by (cases e) (auto simp: start_sample_def interact_def reply_def cancel_all_def cancel_task_def Let_def
        on_session_def action_return_def nth_append split: option.split phase.split prod.split)
qed

text \<open>
  A cancellation that the environment lets through costs a slot for good. The exception of a
  cancelled \<open>action\<close> is no \<open>Exception\<close>: neither the wrapper of the task nor \<open>cancel\<close> catches it. So
  when it ends the task, then with ids that are not used twice the session stays in the map after
  any further events, cancellations included.
\<close>

lemma crashed_session_keeps_slot:
  assumes "distinct (start_ids (es @ fs))" and "w = run_events es (worker_init n False)"
    and "i < length (samples w)" and "phase (samples w ! i) = Crashed"
  shows "dict_get (session_map (run_events fs w)) (session_id (samples w ! i)) = Some i"
proof -
  have "start_ids (es @ fs) = start_ids es @ start_ids fs" by (simp add: start_ids_def)
  moreover have "ids (worker_init n False) = []" by (simp add: ids_def worker_init_def)
  ultimately have start: "distinct (ids (worker_init n False) @ start_ids (es @ fs))" using assms(1) by simp
  have slots: "slots_ok (run_events fs w)"
    using run_slots [OF worker_start start] by (simp add: assms(2) run_events_def)
  have "i < length (samples (run_events fs w)) \<and> phase (samples (run_events fs w) ! i) = Crashed \<and>
      session_id (samples (run_events fs w) ! i) = session_id (samples w ! i)"
    if "i < length (samples w)" "phase (samples w ! i) = Crashed" for w
    using that
  proof (induction fs arbitrary: w)
    case (Cons f fs)
    then show ?case using crash_stays [OF Cons.prems, of f] Cons.IH [of "act f w"] by (simp add: run_events_def)
  qed (simp add: run_events_def)
  from this [OF assms(3,4)] show ?thesis using slots_okD(1) [OF slots, of i] by simp
qed

lemma crashed_session_keeps_slot_witness:
  "let w = run_events [StartSample 7 (IntIndex 0), Action 0 [One (Chat (JStr ''hello''))], Reply 0, Cancel 7 False,
             ActionDone 0, End 0 RaisesAgentCancelled] (worker_init 1 False)
   in phase (samples w ! 0) = Crashed \<and>
      dict_get (session_map (run_events [RunCancel 0, Cancel 7 True, RunCancel 0, StartSample 8 (IntIndex 1)] w)) 7 = Some 0 \<and>
      fst (start_sample 8 (IntIndex 1) w) = Inl 406"
proof -
  let ?es = "[StartSample 7 (IntIndex 0), Action 0 [One (Chat (JStr ''hello''))], Reply 0, Cancel 7 False,
             ActionDone 0, End 0 RaisesAgentCancelled]"
  let ?fs = "[RunCancel 0, Cancel 7 True, RunCancel 0, StartSample 8 (IntIndex 1)]"
  let ?w = "run_events ?es (worker_init 1 False)"
  have "phase (samples ?w ! 0) = Crashed \<and> length (samples ?w) = 1 \<and> session_id (samples ?w ! 0) = 7 \<and>
      fst (start_sample 8 (IntIndex 1) ?w) = Inl 406"
    by (simp add: run_events_def worker_init_def start_sample_def on_session_def on_sample_def env_runs_def agent_pull_def
        new_session_def action_def env_pull_def next_ptr_def reply_def agent_pulled_def cancel_def action_return_def
        action_done_def env_pulled_def may_end_def task_wrapper_end_def Let_def)
  moreover have "distinct (start_ids (?es @ ?fs))" by (simp add: start_ids_def)
  ultimately show ?thesis
    using crashed_session_keeps_slot [of ?es ?fs ?w 1 0] by (simp add: Let_def)
qed

section \<open>What the agent sees\<close>

definition no_rewrite :: "event list \<Rightarrow> bool" where
  "no_rewrite es \<longleftrightarrow>
     (\<forall>e \<in> set es. case e of Clear i \<Rightarrow> False | Cover i xs \<Rightarrow> False | SetFullHistory i b \<Rightarrow> False | _ \<Rightarrow> True)"

text \<open>
  What an exchange tells the agent of a part of the history: the messages it sent itself, or a response
  with the part's messages in order and the value and the metrics of its last reward, if there is one.
\<close>

definition tells :: "response + json list \<Rightarrow> history_item list \<Rightarrow> bool" where
  "tells x part \<longleftrightarrow>
     (case x of
        Inr ms \<Rightarrow> part = map Chat ms
      | Inl p \<Rightarrow> messages p = filter (\<lambda>y. \<not> is_reward y) part \<and>
          (case rev (filter is_reward part) of
             [] \<Rightarrow> reward p = 0 \<and> metric p = []
           | y # ys \<Rightarrow> y = RewardItem (reward p) (metric p)))"

definition told_history :: "running \<Rightarrow> history_item list \<Rightarrow> bool" where
  "told_history r h \<longleftrightarrow> (\<exists>parts. list_all2 tells (said r) parts \<and> h = concat parts)"

lemma tells_response: "tells (Inl (response_content s)) (drop (out_ptr s) (out_history s))"
proof -
  let ?part = "drop (out_ptr s) (out_history s)"
  show ?thesis
  proof (cases "filter is_reward ?part" rule: rev_cases)
    case Nil
    then show ?thesis by (simp add: tells_def response_content_def split_history_def)
  next
    case (snoc ys y)
    then have "y \<in> set (filter is_reward ?part)" by simp
    then have "is_reward y" by (simp only: set_filter mem_Collect_eq)
    then obtain v m where "y = RewardItem v m" by (cases y) (simp_all add: is_reward_def)
    then show ?thesis using snoc
      by (cases ys) (simp_all add: tells_def response_content_def split_history_def)
  qed
qed

lemma told_history_snoc:
  assumes "told_history r h" and "said r' = said r @ [x]" and "tells x part"
  shows "told_history r' (h @ part)"
proof -
  from assms(1) obtain parts where "list_all2 tells (said r) parts" "h = concat parts"
    by (auto simp: told_history_def)
  then have "list_all2 tells (said r') (parts @ [part])" "h @ part = concat (parts @ [part])"
    using assms(2,3) by (simp_all add: list_all2_appendI)
  then show ?thesis unfolding told_history_def by blast
qed

lemma told_nothing [simp]: "said r = [] \<Longrightarrow> told_history r []"
  by (simp add: told_history_def)

lemma tells_request: "tells (Inr ms) (map Chat ms)"
  by (simp add: tells_def)

lemma told_history_same: "said r' = said r \<Longrightarrow> told_history r' = told_history r"
  by (simp add: told_history_def fun_eq_iff)

lemma told_history_updates [simp]:
  "told_history (r\<lparr>session := s\<rparr>) = told_history r" "told_history (r\<lparr>phase := p\<rparr>) = told_history r"
  "told_history (r\<lparr>killed := b\<rparr>) = told_history r" "told_history (r\<lparr>replies := rs\<rparr>) = told_history r"
  by (rule told_history_same, simp)+

text \<open>
  The phases of the hand-over: the environment runs and the agent waits; the environment waits and
  the agent has yet to be told, has its reply, or has sent its messages; the environment has ended.
\<close>

definition untold :: "running \<Rightarrow> bool" where
  "untold r \<longleftrightarrow> agent_lock (session r) \<and> agent_signal (session r) = 1 \<and> env_signal (session r) = 0 \<and>
     (\<exists>h. told_history r h \<and> h @ drop (out_ptr (session r)) (out_history (session r)) = out_history (session r))"

definition replied :: "running \<Rightarrow> bool" where
  "replied r \<longleftrightarrow> \<not> agent_lock (session r) \<and> agent_signal (session r) = 0 \<and> env_signal (session r) = 0 \<and>
     told_history r (out_history (session r))"

definition sent :: "running \<Rightarrow> bool" where
  "sent r \<longleftrightarrow> agent_lock (session r) \<and> agent_signal (session r) = 0 \<and> env_signal (session r) = 1 \<and>
     (\<exists>ms. env_input (session r) = Some (Normal ms) \<and> told_history r (out_history (session r) @ map Chat ms))"

definition env_busy :: "running \<Rightarrow> bool" where
  "env_busy r \<longleftrightarrow> agent_lock (session r) \<and> agent_signal (session r) = 0 \<and> env_signal (session r) = 0 \<and>
     told_history r (out_history (session r)) \<and> (\<exists>xs. history (session r) = out_history (session r) @ xs)"

definition view :: "running \<Rightarrow> bool" where
  "view r \<longleftrightarrow> \<not> told r \<and> \<not> full_history (session r) \<and>
     (case phase r of
        Active \<Rightarrow> if env_lock (session r)
                  then out_history (session r) = history (session r) \<and> (untold r \<or> replied r \<or> sent r)
                  else env_busy r
      | Ended \<Rightarrow> \<not> env_lock (session r) \<and> out_history (session r) = history (session r) \<and> (untold r \<or> replied r)
      | Crashed \<Rightarrow> False)"

definition views :: "tworker \<Rightarrow> bool" where
  "views w \<longleftrightarrow> (\<forall>r \<in> set (samples w). cancelling r \<or> view r)"

lemma views_sample:
  assumes "views w"
    and "i < length (samples w) \<Longrightarrow> cancelling (samples w ! i) \<or> view (samples w ! i) \<Longrightarrow>
           cancelling (f (samples w ! i)) \<or> view (f (samples w ! i))"
  shows "views (on_sample i f w)"
proof (cases "i < length (samples w)")
  case True
  then have "samples w ! i \<in> set (samples w)" by simp
  then show ?thesis using assms True set_update_subset_insert [of "samples w" i]
    by (fastforce simp: views_def on_sample_def)
next
  case False
  then show ?thesis using assms(1) by (simp add: views_def on_sample_def list_update_beyond)
qed

lemma views_same: "views w \<Longrightarrow> samples w' = samples w \<Longrightarrow> views w'"
  by (simp add: views_def)

lemmas view_defs = view_def untold_def replied_def sent_def env_busy_def

lemma view_inject:
  assumes "view r" and "phase r = Active" and "\<not> env_lock (session r)"
  shows "view (r\<lparr>session := inject x (session r)\<rparr>)"
  using assms inject_extends [of x "session r"] by (auto simp: view_defs)

lemma view_action:
  assumes "view r" and "phase r = Active" and "\<not> env_lock (session r)"
  shows "view (r\<lparr>session := action xs (session r)\<rparr>)"
  using assms inject_extends [of "Many xs" "session r"]
  by (auto simp: view_defs action_def env_pull_def next_ptr_def Let_def)

lemma view_finish:
  assumes "view r" and "phase r = Active" and "\<not> env_lock (session r)"
  shows "view (r\<lparr>phase := Ended, session := env_finish st (history (session r)) (session r)\<rparr>)"
  using assms by (auto simp: view_defs env_finish_def next_ptr_def)

lemma view_action_done:
  assumes "view r" and "phase r = Active" and "env_lock (session r)" and "0 < env_signal (session r)"
    and "action_done (session r) = (out, s)"
  shows "out \<noteq> None \<and> view (r\<lparr>session := s\<rparr>)"
  using assms by (auto simp: view_defs action_done_def env_pulled_def Let_def)

lemma view_reply:
  assumes "view r" and "agent_lock (session r)" and "0 < agent_signal (session r)"
  shows "view (r\<lparr>session := agent_pulled (session r), replies := rs,
                 said := said r @ [Inl (response_content (session r))]\<rparr>)"
proof -
  let ?r = "r\<lparr>session := agent_pulled (session r), replies := rs, said := said r @ [Inl (response_content (session r))]\<rparr>"
  have "untold r" using assms by (auto simp: view_defs split: phase.splits if_splits)
  then obtain h where h: "told_history r h"
    "h @ drop (out_ptr (session r)) (out_history (session r)) = out_history (session r)"
    by (auto simp: untold_def)
  have "told_history ?r (h @ drop (out_ptr (session r)) (out_history (session r)))"
    by (rule told_history_snoc [OF h(1) _ tells_response]) simp
  then have "replied ?r"
    using \<open>untold r\<close> unfolding h(2) by (simp add: replied_def untold_def agent_pulled_def)
  then show ?thesis
    using assms \<open>untold r\<close> by (auto simp: view_def untold_def env_busy_def agent_pulled_def split: phase.splits if_splits)
qed

lemma view_interact:
  assumes "view r" and "phase r \<noteq> Ended" and "\<not> agent_lock (session r)"
  shows "view (r\<lparr>session := agent_pull (Some (Normal ms)) (session r), said := said r @ [Inr ms]\<rparr>)"
proof -
  let ?r = "r\<lparr>session := agent_pull (Some (Normal ms)) (session r), said := said r @ [Inr ms]\<rparr>"
  have r: "phase r = Active" "env_lock (session r)" "replied r"
    using assms by (auto simp: view_defs split: phase.splits if_splits)
  then have "told_history ?r (out_history (session r) @ map Chat ms)"
    by (intro told_history_snoc [OF _ _ tells_request]) (simp_all add: replied_def)
  then have "sent ?r" using r(3) by (simp add: sent_def replied_def agent_pull_def)
  then show ?thesis using assms(1) r by (simp add: view_def agent_pull_def)
qed

lemma views_cancel: "views w \<Longrightarrow> views (snd (cancel k n w))"
proof -
  assume w: "views w"
  have "views (v\<lparr>cancel_tasks := c\<rparr>)" if "views v" for v c
    by (rule views_same [OF that]) simp
  moreover have "views (on_sample i (\<lambda>r. r\<lparr>cancelling := True, session := g r\<rparr>) w)" for i g
    by (rule views_sample [OF w]) simp
  ultimately show ?thesis using w by (simp add: cancel_def split: option.split)
qed

lemma view_killed [simp]: "view (r\<lparr>killed := b\<rparr>) = view r"
  by (cases "phase r") (simp_all add: view_defs)

lemma views_act:
  assumes "views w" and "map_ok w" and "no_rewrite [e]"
  shows "views (act e w)"
proof (cases e)
  case (StartSample k ix)
  then show ?thesis using assms(1)
    by (auto simp: views_def start_sample_def Let_def view_defs agent_pull_def new_session_def)
next
  case (Interact k ms)
  have "views (on_sample i (\<lambda>r. r\<lparr>session := agent_pull (Some (Normal ms)) (session r), said := said r @ [Inr ms]\<rparr>) w)"
    if "dict_get (session_map w) k = Some i" "\<not> agent_lock (session (samples w ! i))" for i
    using map_ok_points [OF assms(2) that(1)] that(2)
    by (intro views_sample [OF assms(1)]) (auto simp: points_to_def intro: view_interact)
  then show ?thesis unfolding Interact by (simp add: interact_def Let_def assms(1) split: option.split)
next
  case (Reply i)
  then show ?thesis using assms(1)
    by (auto simp: reply_def Let_def intro!: views_sample intro: view_reply)
next
  case (CancelAll n)
  have "views (fold (\<lambda>k. snd \<circ> cancel k n) ks v)" if "views v" for ks v
    using that by (induction ks arbitrary: v) (simp_all add: views_cancel)
  then show ?thesis unfolding CancelAll using assms(1) by (simp add: cancel_all_def)
next
  case (RunCancel j)
  have "views (on_sample i (\<lambda>r. r\<lparr>killed := b r\<rparr>) w)" for i b
    by (rule views_sample [OF assms(1)]) simp
  moreover have "views (drop_cancel j (end_cancel j v)) = views v" "views (drop_cancel j v) = views v" for v
    by (simp_all add: views_def)
  ultimately show ?thesis unfolding RunCancel using assms(1)
    by (simp add: cancel_task_def Let_def split: phase.split)
next
  case (Inject i x)
  then show ?thesis using assms(1)
    by (auto simp: env_runs_def on_session_def intro!: views_sample intro: view_inject)
next
  case (Action i xs)
  then show ?thesis using assms(1)
    by (auto simp: env_runs_def on_session_def intro!: views_sample intro: view_action)
next
  case (ActionDone i)
  have "views (on_sample i (\<lambda>r. r\<lparr>session := s\<rparr>) w)" "out = None \<Longrightarrow> views (on_sample i (\<lambda>r. r\<lparr>session := s, told := True\<rparr>) w)"
    if "action_done (session (samples w ! i)) = (out, s)" "phase (samples w ! i) = Active" "env_lock (session (samples w ! i))"
      "0 < env_signal (session (samples w ! i))" for out s
    using view_action_done [OF _ that(2-4,1)]
    by (auto intro!: views_sample [OF assms(1)])
  then show ?thesis unfolding ActionDone
    by (auto simp: action_return_def Let_def assms(1) split: prod.split option.split)
next
  case (End i x)
  have killed: "i < length (samples w) \<Longrightarrow> killed (samples w ! i) \<Longrightarrow> cancelling (samples w ! i)"
    using map_ok_killed [OF assms(2), of i] by (simp add: is_cancelling_def)
  have frame: "views (pop_session k w)" for k by (rule views_same [OF assms(1)]) simp
  have "views (on_sample i (\<lambda>r. r\<lparr>phase := Ended, session := env_finish st (history (session r)) (session r)\<rparr>) (pop_session k w))"
    if "cancelling (samples w ! i) \<or> env_runs i w" for st k
    by (rule views_sample [OF frame]) (use that in \<open>auto simp: env_runs_def intro: view_finish\<close>)
  moreover have "views (on_sample i (\<lambda>r. r\<lparr>phase := Crashed\<rparr>) w)" if "told (samples w ! i)"
    by (rule views_sample [OF assms(1)]) (use that in \<open>auto simp: view_def\<close>)
  ultimately show ?thesis unfolding End
    using killed assms(1) by (auto simp: may_end_def task_wrapper_end_def Let_def split: ending.split)
qed (use assms views_cancel in \<open>simp_all add: no_rewrite_def\<close>)

text \<open>
  C15: the agent is told the history once and in order. After any events in which the environment does
  not rewrite its history or ask for all of it to be sent again: when a session is not being cancelled
  and its agent does not wait for a reply, the responses that were returned and the messages that were
  sent in between divide the history of the session into consecutive parts. A response carries exactly
  the messages of its part, and the value and the metrics of the part's last reward; so the messages of all
  responses and requests together are those of the history.
\<close>

theorem agent_sees_history:
  assumes "no_rewrite es" and "r \<in> set (samples (run_events es (worker_init n fa)))"
    and "\<not> cancelling r" and "\<not> agent_lock (session r)"
  shows "\<exists>parts. history (session r) = concat parts \<and> list_all2 tells (said r) parts"
proof -
  have "views (run_events es w) \<and> map_ok (run_events es w)" if "views w" "map_ok w" "no_rewrite es" for w
    using that
  proof (induction es arbitrary: w)
    case (Cons e es)
    have "no_rewrite [e]" "no_rewrite es" using Cons.prems(3) by (simp_all add: no_rewrite_def)
    then show ?case using Cons.IH [of "act e w"] views_act [of w e] map_ok_act [of w e] Cons.prems
      by (simp add: run_events_def)
  qed (simp add: run_events_def)
  moreover have "views (worker_init n fa)" by (simp add: views_def worker_init_def)
  ultimately have "view r" using assms worker_start(1) by (auto simp: views_def)
  then have "told_history r (history (session r))"
    using assms(4) by (auto simp: view_defs split: phase.splits if_splits)
  then show ?thesis by (auto simp: told_history_def)
qed

lemma agent_sees_history_witness:
  "let es = [StartSample 7 (IntIndex 0), Inject 0 (One (Chat (JStr ''system''))), Action 0 [One (Chat (JStr ''go''))], Reply 0,
             Interact 7 [JStr ''done''], ActionDone 0, Inject 0 (One (RewardItem 1 [])), End 0 (Returns COMPLETED), Reply 0];
       r = samples (run_events es (worker_init 1 False)) ! 0
   in \<exists>p q parts. said r = [Inl p, Inr [JStr ''done''], Inl q] \<and> list_all2 tells [Inl p, Inr [JStr ''done''], Inl q] parts \<and>
        concat parts = [Chat (JStr ''system''), Chat (JStr ''go''), Chat (JStr ''done''), RewardItem 1 []] \<and>
        messages p = [Chat (JStr ''system''), Chat (JStr ''go'')] \<and> messages q = [] \<and> reward q = 1 \<and> finish q"
proof -
  let ?es = "[StartSample 7 (IntIndex 0), Inject 0 (One (Chat (JStr ''system''))), Action 0 [One (Chat (JStr ''go''))], Reply 0,
             Interact 7 [JStr ''done''], ActionDone 0, Inject 0 (One (RewardItem 1 [])), End 0 (Returns COMPLETED), Reply 0]"
  let ?w = "run_events ?es (worker_init 1 False)"
  let ?p = "\<lparr>messages = [Chat (JStr ''system''), Chat (JStr ''go'')], status = RUNNING, finish = False, reward = 0, metric = []\<rparr>"
  let ?q = "\<lparr>messages = [], status = COMPLETED, finish = True, reward = 1, metric = []\<rparr>"
  have w: "samples ?w \<noteq> [] \<and> \<not> cancelling (samples ?w ! 0) \<and> \<not> agent_lock (session (samples ?w ! 0)) \<and>
     history (session (samples ?w ! 0)) = [Chat (JStr ''system''), Chat (JStr ''go''), Chat (JStr ''done''), RewardItem 1 []] \<and>
     said (samples ?w ! 0) = [Inl ?p, Inr [JStr ''done''], Inl ?q]"
    by (simp add: run_events_def worker_init_def start_sample_def on_session_def on_sample_def env_runs_def agent_pull_def
        new_session_def action_def env_pull_def next_ptr_def reply_def agent_pulled_def interact_def action_return_def
        action_done_def env_pulled_def may_end_def task_wrapper_end_def Let_def env_finish_def response_content_def
        split_history_def is_reward_def pop_session_def)
  moreover have "no_rewrite ?es" by (simp add: no_rewrite_def)
  moreover have "samples ?w ! 0 \<in> set (samples ?w)" using w by simp
  ultimately obtain parts where "history (session (samples ?w ! 0)) = concat parts"
    "list_all2 tells (said (samples ?w ! 0)) parts"
    using agent_sees_history [of ?es "samples ?w ! 0" 1 False] by blast
  with w show ?thesis unfolding Let_def
    by (intro exI [of _ ?p] exI [of _ ?q] exI [of _ parts]) simp
qed

end
