(* ===== verification/Advantages.thy ===== *)
theory Advantages
  imports Complex_Main Prelude
begin

text \<open>
  The policy optimisation core (trainer/src/agentrl/trainer/algorithms/core\_algos.py, advantage.py
  and the masked reductions of utils/torch\_functional.py). A tensor is a list of reals, a batch a
  list of rows, and arithmetic on tensors is elementwise on operands of the same shape; rounding is
  left out, and a quotient of tensors by zero, which is infinite or not a number there, is 0. What the code asks
  of the tensor library beyond that is the record \<open>torch\<close>, with its laws as the locale
  \<open>reductions\<close>.
\<close>

section \<open>Tensors\<close>

type_synonym row = "real list"
type_synonym batch = "row list"

record torch =
  t_sum :: "row \<Rightarrow> real"
  t_mean :: "row \<Rightarrow> real"
  t_std :: "row \<Rightarrow> real"
  t_rsqrt :: "real \<Rightarrow> real"
  t_exp :: "real \<Rightarrow> real"
  t_topk2 :: "row \<Rightarrow> (real \<times> nat) \<times> (real \<times> nat)"

text \<open>A row of one entry is multiplied with every entry of the other.\<close>

definition vmul :: "row \<Rightarrow> row \<Rightarrow> row" where
  "vmul a b =
     (if length a = 1 then map ((*) (hd a)) b
      else if length b = 1 then map (\<lambda>x. x * hd b) a
      else map2 (*) a b)"

definition vadd :: "row \<Rightarrow> row \<Rightarrow> row" where
  "vadd = map2 (+)"

definition vsub :: "row \<Rightarrow> row \<Rightarrow> row" where
  "vsub = map2 (-)"

definition scale :: "real \<Rightarrow> row \<Rightarrow> row" where
  "scale c = map ((*) c)"

definition shift :: "real \<Rightarrow> row \<Rightarrow> row" where
  "shift c = map (\<lambda>x. x - c)"

section \<open>Masked reductions\<close>

definition masked_sum :: "torch \<Rightarrow> row \<Rightarrow> row \<Rightarrow> real" where
  "masked_sum T xs m = t_sum T (vmul xs m)"

definition masked_mean :: "torch \<Rightarrow> row \<Rightarrow> row \<Rightarrow> real" where
  "masked_mean T xs m = t_sum T (vmul xs m) / max (t_sum T m) (1 / 10 ^ 8)"

definition masked_var :: "torch \<Rightarrow> row \<Rightarrow> row \<Rightarrow> real res" where
  "masked_var T xs m =
     (let mean = masked_mean T xs m;
          variance = masked_mean T (map (\<lambda>x. (x - mean) ^ 2) xs) m;
          n = t_sum T m
      in if n = 0 then Inl ValueError
         else if n = 1 then Inl ValueError
         else Inr (variance * (n / (n - 1))))"

definition masked_whiten :: "torch \<Rightarrow> row \<Rightarrow> row \<Rightarrow> bool \<Rightarrow> row res" where
  "masked_whiten T xs m shift_mean =
     (let mean = masked_mean T xs m
      in case masked_var T xs m of
           Inl e \<Rightarrow> Inl e
         | Inr var \<Rightarrow>
             (let w = scale (t_rsqrt T (var + 1 / 10 ^ 8)) (shift mean xs)
              in Inr (if shift_mean then w else map (\<lambda>x. x + mean) w)))"

text \<open>The reductions of a batch run over all its rows.\<close>

primrec split_rows :: "nat list \<Rightarrow> row \<Rightarrow> batch" where
  "split_rows [] xs = []"
| "split_rows (n # ns) xs = take n xs # split_rows ns (drop n xs)"

definition whiten_batch :: "torch \<Rightarrow> batch \<Rightarrow> batch \<Rightarrow> batch res" where
  "whiten_batch T xss mss =
     (case masked_whiten T (concat xss) (concat mss) True of
        Inl e \<Rightarrow> Inl e
      | Inr xs \<Rightarrow> Inr (split_rows (map length xss) xs))"

section \<open>Controllers of the KL coefficient\<close>

datatype kl_controller = AdaptiveKL real real real | FixedKL real

definition clip :: "real \<Rightarrow> real \<Rightarrow> real \<Rightarrow> real" where
  "clip x lo hi = min (max x lo) hi"

definition kl_update :: "kl_controller \<Rightarrow> real \<Rightarrow> real \<Rightarrow> kl_controller res" where
  "kl_update c current_kl n_steps =
     (case c of
        AdaptiveKL v target horizon \<Rightarrow>
          (if target = 0 \<or> horizon = 0 then Inl ZeroDivisionError else
           let err = clip (current_kl / target - 1) (- 2 / 10) (2 / 10);
               mult = 1 + err * n_steps / horizon
           in Inr (AdaptiveKL (v * mult) target horizon))
      | FixedKL v \<Rightarrow> Inr (FixedKL v))"

definition kl_value :: "kl_controller \<Rightarrow> real" where
  "kl_value c = (case c of AdaptiveKL v t h \<Rightarrow> v | FixedKL v \<Rightarrow> v)"

definition get_kl_controller :: "string \<Rightarrow> real \<Rightarrow> real \<Rightarrow> real \<Rightarrow> kl_controller res" where
  "get_kl_controller ty coef target horizon =
     (if ty = ''fixed'' then Inr (FixedKL coef)
      else if ty = ''adaptive'' then
        (if 0 < horizon then Inr (AdaptiveKL coef target horizon) else Inl AssertionError)
      else Inl NotImplementedError)"

section \<open>Estimators of a batch\<close>

text \<open>The loop over a row, from its end; the result is built in order.\<close>

fun gae_loop :: "real \<Rightarrow> real \<Rightarrow> row \<Rightarrow> row \<Rightarrow> nat \<Rightarrow> real \<Rightarrow> row \<Rightarrow> row" where
  "gae_loop gamma lam r v 0 lastgaelam acc = acc"
| "gae_loop gamma lam r v (Suc t) lastgaelam acc =
     (let nextvalue = (if t < length r - 1 then v ! (t + 1) else 0);
          delta = r ! t + gamma * nextvalue - v ! t;
          lastgaelam' = delta + gamma * lam * lastgaelam
      in gae_loop gamma lam r v t lastgaelam' (lastgaelam' # acc))"

definition gae_row :: "real \<Rightarrow> real \<Rightarrow> row \<Rightarrow> row \<Rightarrow> row" where
  "gae_row gamma lam r v = gae_loop gamma lam r v (length r) 0 []"

definition compute_gae_advantage_return ::
    "torch \<Rightarrow> batch \<Rightarrow> batch \<Rightarrow> batch \<Rightarrow> real \<Rightarrow> real \<Rightarrow> (batch \<times> batch) res" where
  "compute_gae_advantage_return T rewards vals masks gamma lam =
     (let advantages = map2 (gae_row gamma lam) rewards vals;
          returns = map2 vadd advantages vals
      in case whiten_batch T advantages masks of
           Inl e \<Rightarrow> Inl e
         | Inr white \<Rightarrow> Inr (white, returns))"

fun discounted_loop :: "real \<Rightarrow> row \<Rightarrow> row \<Rightarrow> nat \<Rightarrow> real \<Rightarrow> row \<Rightarrow> row" where
  "discounted_loop gamma r m 0 running acc = acc"
| "discounted_loop gamma r m (Suc t) running acc =
     (let running' = r ! t + gamma * running
      in discounted_loop gamma r m t (running' * m ! t) (running' # acc))"

definition compute_reinforce_plus_plus_outcome_advantage ::
    "torch \<Rightarrow> batch \<Rightarrow> batch \<Rightarrow> real \<Rightarrow> (batch \<times> batch) res" where
  "compute_reinforce_plus_plus_outcome_advantage T rewards masks gamma =
     (let returns = map2 (\<lambda>r m. discounted_loop gamma r m (length r) 0 []) rewards masks
      in case whiten_batch T returns masks of
           Inl e \<Rightarrow> Inl e
         | Inr white \<Rightarrow> Inr (map2 vmul white masks, returns))"

primrec cumsum_from :: "real \<Rightarrow> row \<Rightarrow> row" where
  "cumsum_from s [] = []"
| "cumsum_from s (x # xs) = (s + x) # cumsum_from (s + x) xs"

definition compute_remax_outcome_advantage :: "batch \<Rightarrow> real list \<Rightarrow> batch \<Rightarrow> batch \<times> batch" where
  "compute_remax_outcome_advantage rewards baselines masks =
     (let returns = map2 (\<lambda>r m. rev (cumsum_from 0 (rev (vmul r m)))) rewards masks;
          advantages = map2 vsub returns (map2 scale baselines masks)
      in (advantages, returns))"

section \<open>Estimators of a group\<close>

definition group_scores :: "torch \<Rightarrow> batch \<Rightarrow> row" where
  "group_scores T rewards = map (t_sum T) rewards"

definition masked_copies :: "row \<Rightarrow> batch \<Rightarrow> batch" where
  "masked_copies adv masks = map2 scale adv masks"

definition compute_grpo_outcome_advantage ::
    "torch \<Rightarrow> batch \<Rightarrow> batch \<Rightarrow> real \<Rightarrow> bool \<Rightarrow> batch \<times> batch" where
  "compute_grpo_outcome_advantage T rewards masks epsilon by_std =
     (let scores = group_scores T rewards;
          mean = (if length scores = 1 then 0 else t_mean T scores);
          std = (if length scores = 1 then 1 else t_std T scores);
          adv = (if by_std then map (\<lambda>x. x / (std + epsilon)) (shift mean scores) else shift mean scores);
          advantages = masked_copies adv masks
      in (advantages, advantages))"

definition compute_grpo_passk_outcome_advantage ::
    "torch \<Rightarrow> batch \<Rightarrow> batch \<Rightarrow> real \<Rightarrow> bool \<Rightarrow> (batch \<times> batch) res" where
  "compute_grpo_passk_outcome_advantage T rewards masks epsilon by_std =
     (let scores = group_scores T rewards
      in if length scores < 2 then Inl ValueError
         else
           let ((best, i), (second, j)) = t_topk2 T scores;
               advantage = best - second;
               advantage' = (if by_std then advantage / (t_std T scores + epsilon) else advantage);
               advantages = (map (map (\<lambda>_. 0)) masks)[i := scale advantage' (masks ! i)]
           in Inr (advantages, advantages))"

definition compute_reinforce_plus_plus_baseline_outcome_advantage ::
    "torch \<Rightarrow> batch \<Rightarrow> batch \<Rightarrow> (batch \<times> batch) res" where
  "compute_reinforce_plus_plus_baseline_outcome_advantage T rewards masks =
     (let response_length = length (hd masks);
          scores = group_scores T rewards;
          mean = (if length scores = 1 then 0 else t_mean T scores);
          adv = map (\<lambda>x. replicate response_length x) (shift mean scores)
      in case whiten_batch T adv masks of
           Inl e \<Rightarrow> Inl e
         | Inr white \<Rightarrow> (let advantages = map2 vmul white masks in Inr (advantages, advantages)))"

definition compute_rloo_outcome_advantage :: "torch \<Rightarrow> batch \<Rightarrow> batch \<Rightarrow> batch \<times> batch" where
  "compute_rloo_outcome_advantage T rewards masks =
     (let scores = group_scores T rewards;
          mean = (if length scores = 1 then 0 else t_mean T scores);
          n = real (length scores);
          adv = (if 1 < length scores
                 then map (\<lambda>x. x * n / (n - 1) - mean * n / (n - 1)) scores else scores);
          advantages = masked_copies adv masks
      in (advantages, advantages))"

section \<open>Losses\<close>

definition compute_rewards :: "batch \<Rightarrow> batch \<Rightarrow> batch \<Rightarrow> real \<Rightarrow> batch" where
  "compute_rewards scores old_log_prob ref_log_prob kl_ratio =
     map2 vsub scores (map (scale kl_ratio) (map2 vsub old_log_prob ref_log_prob))"

definition agg_loss :: "torch \<Rightarrow> batch \<Rightarrow> batch \<Rightarrow> string \<Rightarrow> real res" where
  "agg_loss T loss masks mode =
     (let seq_losses = map2 (\<lambda>l m. t_sum T (vmul l m)) loss masks
      in if mode = ''token-mean'' then Inr (masked_mean T (concat loss) (concat masks))
         else if mode = ''seq-mean-token-sum'' then Inr (t_mean T seq_losses)
         else if mode = ''seq-mean-token-mean''
           then Inr (t_mean T (map2 (\<lambda>l m. t_sum T (vmul l m) / t_sum T m) loss masks))
         else if mode = ''seq-mean-token-sum-norm''
           then Inr (t_sum T seq_losses / real (length (hd masks)))
         else Inl ValueError)"

text \<open>The loss of one token, by the ratio of its probabilities and its advantage.\<close>

definition clip_pg_loss1 :: "real \<Rightarrow> real \<Rightarrow> real \<Rightarrow> real \<Rightarrow> real" where
  "clip_pg_loss1 low high ratio a = max (- a * ratio) (- a * clip ratio (1 - low) (1 + high))"

definition token_loss :: "real \<Rightarrow> real \<Rightarrow> real \<Rightarrow> real \<Rightarrow> real \<Rightarrow> real" where
  "token_loss low high c ratio a =
     (if a < 0 then min (- a * c) (clip_pg_loss1 low high ratio a) else clip_pg_loss1 low high ratio a)"

definition of_test :: "bool \<Rightarrow> real" where
  "of_test b = (if b then 1 else 0)"

text \<open>\<open>cliprange_low\<close> and \<open>cliprange_high\<close> default to \<open>cliprange\<close>, which then must be given.\<close>

definition compute_policy_loss ::
    "torch \<Rightarrow> batch \<Rightarrow> batch \<Rightarrow> batch \<Rightarrow> batch \<Rightarrow> real option \<Rightarrow> real option \<Rightarrow> real option \<Rightarrow> real \<Rightarrow> string
      \<Rightarrow> (real \<times> real \<times> real \<times> real) res" where
  "compute_policy_loss T old_log_prob log_prob adv masks cliprange cliprange_low cliprange_high c mode =
     (if \<not> 1 < c then Inl AssertionError
      else
        let kl = map2 vsub log_prob old_log_prob;
            ratio = concat (map (map (t_exp T)) kl);
            a = concat adv;
            m = concat masks;
            ppo_kl = masked_mean T (map uminus (concat kl)) m
        in case (if cliprange_low = None then cliprange else cliprange_low,
                 if cliprange_high = None then cliprange else cliprange_high) of
             (Some low, Some high) \<Rightarrow>
               (let losses1 = map2 (\<lambda>r a. - a * r) ratio a;
                    losses2 = map2 (\<lambda>r a. - a * clip r (1 - low) (1 + high)) ratio a;
                    clip1 = map2 (clip_pg_loss1 low high) ratio a;
                    clipfrac = masked_mean T (map2 (\<lambda>l2 l1. of_test (l1 < l2)) losses2 losses1) m;
                    clipfrac_lower = masked_mean T (map2 (\<lambda>l a. of_test (- a * c < l) * of_test (a < 0)) clip1 a) m;
                    losses = map2 (\<lambda>kls as. map2 (\<lambda>k a. token_loss low high c (t_exp T k) a) kls as) kl adv
                in case agg_loss T losses masks mode of
                     Inl e \<Rightarrow> Inl e
                   | Inr pg_loss \<Rightarrow> Inr (pg_loss, clipfrac, ppo_kl, clipfrac_lower))
           | _ \<Rightarrow> Inl TypeError)"

definition clip_by_value :: "real \<Rightarrow> real \<Rightarrow> real \<Rightarrow> real" where
  "clip_by_value x lo hi = max (min x hi) lo"

definition value_token_loss :: "real \<Rightarrow> real \<Rightarrow> real \<Rightarrow> real \<Rightarrow> real \<times> real" where
  "value_token_loss cliprange vpred out val =
     ((vpred - out) ^ 2, (clip_by_value vpred (val - cliprange) (val + cliprange) - out) ^ 2)"

definition compute_value_loss ::
    "torch \<Rightarrow> batch \<Rightarrow> batch \<Rightarrow> batch \<Rightarrow> batch \<Rightarrow> real \<Rightarrow> string \<Rightarrow> (real \<times> real) res" where
  "compute_value_loss T vpreds returns vals masks cliprange mode =
     (let pairs = map2 (\<lambda>ps rvs. map2 (\<lambda>p rv. value_token_loss cliprange p (fst rv) (snd rv)) ps rvs)
                    vpreds (map2 zip returns vals);
          losses = map (map (\<lambda>(l1, l2). max l1 l2)) pairs
      in case agg_loss T losses masks mode of
           Inl e \<Rightarrow> Inl e
         | Inr loss \<Rightarrow>
             Inr (loss, masked_mean T (concat (map (map (\<lambda>(l1, l2). of_test (l1 < l2))) pairs)) (concat masks)))"

definition kl_token :: "torch \<Rightarrow> string \<Rightarrow> real \<Rightarrow> real \<Rightarrow> real res" where
  "kl_token T kind logprob ref_logprob =
     (if kind = ''kl'' \<or> kind = ''k1'' then Inr (logprob - ref_logprob)
      else if kind = ''abs'' then Inr \<bar>logprob - ref_logprob\<bar>
      else if kind = ''mse'' \<or> kind = ''k2'' then Inr (1 / 2 * (logprob - ref_logprob) ^ 2)
      else if kind = ''low_var_kl'' \<or> kind = ''k3'' then
        (let kl = ref_logprob - logprob in Inr (clip (t_exp T kl - kl - 1) (- 10) 10))
      else Inl NotImplementedError)"

text \<open>
  The clipped loss of one token is linear in the ratio up to two bounds. For an advantage that
  is not negative the ratio counts up to 1 + high; for a negative one it counts from 1 - low on and
  never beyond c, so that the loss stays below c times the size of the advantage.
\<close>

lemma token_loss_dual_clip:
  assumes "- low \<le> high"
  shows "token_loss low high c ratio a =
    (if a < 0 then - a * min c (max ratio (1 - low)) else - a * min ratio (1 + high))"
proof -
  have neg: "max (- a * x) (- a * y) = - a * max x y" "min (- a * x) (- a * y) = - a * min x y" if "a < 0" for x y
    using that by (simp_all add: max_mult_distrib_left min_mult_distrib_left)
  have pos: "max (- a * x) (- a * y) = - a * min x y" if "0 \<le> a" for x y
    using that by (simp add: max_mult_distrib_left min_mult_distrib_left)
  have "max ratio (clip ratio (1 - low) (1 + high)) = max ratio (1 - low)"
    "min ratio (clip ratio (1 - low) (1 + high)) = min ratio (1 + high)"
    using assms by (auto simp: clip_def min_def max_def)
  then show ?thesis
    by (simp add: token_loss_def clip_pg_loss1_def neg pos del: mult_minus_left)
qed

lemma token_loss_dual_clip_witness:
  "token_loss (1 / 5) (1 / 5) 3 7 (- 2) = 6 \<and> token_loss (1 / 5) (1 / 5) 3 7 2 = - 12 / 5"
  using token_loss_dual_clip [of "1 / 5" "1 / 5" 3 7 "- 2"] token_loss_dual_clip [of "1 / 5" "1 / 5" 3 7 2] by simp

section \<open>Grouping\<close>

record sample =
  group_id :: string
  token_level_rewards :: row
  sample_values :: "row option"
  reward_baselines :: "real option"
  loss_mask :: row

datatype estimator = GAE | GRPO | REINFORCE_PLUS_PLUS | REINFORCE_PLUS_PLUS_BASELINE | REMAX | RLOO | GRPO_PASSK

type_synonym estimate = "row \<times> row"

definition is_group_algo :: "estimator \<Rightarrow> bool" where
  "is_group_algo e \<longleftrightarrow> e \<in> {GRPO, GRPO_PASSK, REINFORCE_PLUS_PLUS_BASELINE, RLOO}"

text \<open>The groups in the order of their first members, each with the positions of its members.\<close>

primrec group_by_id :: "(nat \<times> sample) list \<Rightarrow> (string, (nat \<times> sample) list) dict \<Rightarrow> (string, (nat \<times> sample) list) dict" where
  "group_by_id [] d = d"
| "group_by_id (x # xs) d =
     group_by_id xs (dict_set (group_id (snd x)) (dict_get_or d (group_id (snd x)) [] @ [x]) d)"

definition group_estimate :: "torch \<Rightarrow> estimator \<Rightarrow> bool \<Rightarrow> sample list \<Rightarrow> (batch \<times> batch) res" where
  "group_estimate T e by_std items =
     (let rewards = map token_level_rewards items; masks = map loss_mask items
      in case e of
           GRPO \<Rightarrow> Inr (compute_grpo_outcome_advantage T rewards masks (1 / 10 ^ 6) by_std)
         | GRPO_PASSK \<Rightarrow> compute_grpo_passk_outcome_advantage T rewards masks (1 / 10 ^ 6) by_std
         | REINFORCE_PLUS_PLUS_BASELINE \<Rightarrow> compute_reinforce_plus_plus_baseline_outcome_advantage T rewards masks
         | RLOO \<Rightarrow> Inr (compute_rloo_outcome_advantage T rewards masks)
         | _ \<Rightarrow> Inl NotImplementedError)"

primrec place :: "(nat \<times> estimate) list \<Rightarrow> estimate option list \<Rightarrow> estimate option list" where
  "place [] out = out"
| "place (p # ps) out = place ps (out[fst p := Some (snd p)])"

primrec place_groups ::
    "torch \<Rightarrow> estimator \<Rightarrow> bool \<Rightarrow> (nat \<times> sample) list list \<Rightarrow> estimate option list \<Rightarrow> (estimate option list) res" where
  "place_groups T e by_std [] out = Inr out"
| "place_groups T e by_std (g # gs) out =
     (case group_estimate T e by_std (map snd g) of
        Inl err \<Rightarrow> Inl err
      | Inr (adv, rets) \<Rightarrow> place_groups T e by_std gs (place (zip (map fst g) (zip adv rets)) out))"

text \<open>
  The estimators of single items. Each item is a batch of one row; the tensors of an item have the
  rows as their first dimension.
\<close>

definition single :: "(batch \<times> batch) res \<Rightarrow> estimate res" where
  "single r = (case r of Inl e \<Rightarrow> Inl e | Inr (adv, rets) \<Rightarrow> Inr (hd adv, hd rets))"

definition item_estimate :: "torch \<Rightarrow> estimator \<Rightarrow> real \<Rightarrow> real \<Rightarrow> sample \<Rightarrow> estimate res" where
  "item_estimate T e gamma lam x =
     (case e of
        GAE \<Rightarrow> (case sample_values x of
                  None \<Rightarrow> Inl KeyError
                | Some v \<Rightarrow> single (compute_gae_advantage_return T [token_level_rewards x] [v] [loss_mask x] gamma lam))
      | REINFORCE_PLUS_PLUS \<Rightarrow>
          single (compute_reinforce_plus_plus_outcome_advantage T [token_level_rewards x] [loss_mask x] gamma)
      | REMAX \<Rightarrow> (case reward_baselines x of
                    None \<Rightarrow> Inl KeyError
                  | Some b \<Rightarrow> single (Inr (compute_remax_outcome_advantage [token_level_rewards x] [b] [loss_mask x])))
      | _ \<Rightarrow> Inl NotImplementedError)"

primrec append_items ::
    "torch \<Rightarrow> estimator \<Rightarrow> real \<Rightarrow> real \<Rightarrow> sample list \<Rightarrow> estimate option list \<Rightarrow> (estimate option list) res" where
  "append_items T e gamma lam [] out = Inr out"
| "append_items T e gamma lam (x # xs) out =
     (case item_estimate T e gamma lam x of
        Inl err \<Rightarrow> Inl err
      | Inr y \<Rightarrow> append_items T e gamma lam xs (out @ [Some y]))"

definition compute_advantage ::
    "torch \<Rightarrow> estimator \<Rightarrow> real \<Rightarrow> real \<Rightarrow> bool \<Rightarrow> sample list \<Rightarrow> (estimate option list) res" where
  "compute_advantage T e gamma lam by_std data =
     (let out = replicate (length data) None
      in if is_group_algo e
         then place_groups T e by_std (map snd (group_by_id (zip [0..<length data] data) [])) out
         else append_items T e gamma lam data out)"

section \<open>Generalised advantages\<close>

definition value_after :: "row \<Rightarrow> row \<Rightarrow> nat \<Rightarrow> real" where
  "value_after r v j = (if j < length r then v ! j else 0)"

definition td_error :: "real \<Rightarrow> row \<Rightarrow> row \<Rightarrow> nat \<Rightarrow> real" where
  "td_error gamma r v j = r ! j + gamma * value_after r v (j + 1) - v ! j"

text \<open>The loop that runs backwards over a row leaves the weighted sums of the errors.\<close>

lemma gae_loop_sums:
  "gae_loop gamma lam r v n later acc =
     map (\<lambda>t. (\<Sum>j = t..<n. (gamma * lam) ^ (j - t) * td_error gamma r v j) + (gamma * lam) ^ (n - t) * later) [0..<n] @ acc"
proof (induction n arbitrary: later acc)
  case (Suc n)
  let ?c = "gamma * lam" and ?d = "td_error gamma r v"
  have d: "r ! n + gamma * (if n < length r - 1 then v ! (n + 1) else 0) - v ! n = ?d n"
    by (auto simp: td_error_def value_after_def)
  have "(\<Sum>j = t..<n. ?c ^ (j - t) * ?d j) + ?c ^ (n - t) * (?d n + ?c * later) =
      (\<Sum>j = t..<Suc n. ?c ^ (j - t) * ?d j) + ?c ^ (Suc n - t) * later" if "t < n" for t
    using that by (simp add: Suc_diff_le algebra_simps)
  then show ?case using d by (simp add: Suc.IH Let_def mult.assoc)
qed simp

lemma td_errors_telescope:
  assumes "t \<le> n" and "n \<le> length r"
  shows "(\<Sum>j = t..<n. gamma ^ (j - t) * td_error gamma r v j) =
         (\<Sum>j = t..<n. gamma ^ (j - t) * r ! j) + gamma ^ (n - t) * value_after r v n - value_after r v t"
  using assms
proof (induction n rule: dec_induct)
  case (step n)
  then have "value_after r v n = v ! n" by (simp add: value_after_def)
  with step show ?case by (simp add: td_error_def Suc_diff_le algebra_simps)
qed simp

text \<open>
  C18: the advantages of a row are the sums of the temporal difference errors from each position
  on, weighted by powers of gamma times lambda. With lambda one, an advantage and the value it is
  relative to add up to the discounted rewards from there on, whatever the values are.
\<close>

theorem gae_closed_form:
  assumes "length v = length r" and "t < length r"
  shows "gae_row gamma lam r v ! t =
           (\<Sum>j = t..<length r. (gamma * lam) ^ (j - t) * td_error gamma r v j) \<and>
         gae_row gamma 1 r v ! t + v ! t = (\<Sum>j = t..<length r. gamma ^ (j - t) * r ! j)"
proof -
  have "gae_row gamma l r v ! t = (\<Sum>j = t..<length r. (gamma * l) ^ (j - t) * td_error gamma r v j)" for l
    using assms(2) by (simp add: gae_row_def gae_loop_sums nth_append)
  moreover have "value_after r v t = v ! t" "value_after r v (length r) = 0"
    using assms(2) by (simp_all add: value_after_def)
  ultimately show ?thesis
    using td_errors_telescope [of t "length r" r gamma v] assms(2) by simp
qed

lemma gae_closed_form_witness:
  "gae_row (1 / 2) 1 [0, 0, 4] [1, 2, 3] = [0, 0, 1] \<and>
   gae_row (1 / 2) 1 [0, 0, 4] [1, 2, 3] ! 0 + [1, 2, 3] ! 0 = (\<Sum>j = 0..<3. (1 / 2) ^ (j - 0) * [0, 0, 4] ! j)"
  using gae_closed_form [of "[1, 2, 3]" "[0, 0, 4]" 0 "1 / 2" 1]
  by (simp add: gae_row_def eval_nat_numeral Let_def)

section \<open>Reductions\<close>

locale reductions =
  fixes T :: torch
  assumes sum_law: "t_sum T xs = sum_list xs"
    and mean_law: "t_mean T xs = sum_list xs / real (length xs)"
begin

lemma scores: "group_scores T rewards = map sum_list rewards"
  by (simp add: group_scores_def sum_law)

lemma rloo_others:
  assumes "1 < length rewards" and "i < length rewards" and "length masks = length rewards"
  shows "fst (compute_rloo_outcome_advantage T rewards masks) ! i =
     scale (sum_list (rewards ! i) -
            (\<Sum>j \<in> {0..<length rewards} - {i}. sum_list (rewards ! j)) / (real (length rewards) - 1)) (masks ! i)"
proof -
  let ?s = "map sum_list rewards" and ?n = "real (length rewards)"
  have "(\<Sum>j \<in> {0..<length rewards} - {i}. sum_list (rewards ! j)) = sum_list ?s - sum_list (rewards ! i)"
    using assms(2) by (simp add: sum_list_sum_nth sum_diff1)
  moreover have "s * n / (n - 1) - S / n * n / (n - 1) = s - (S - s) / (n - 1)" if "1 < n" for s S n :: real
  proof -
    have "s = s * (n - 1) / (n - 1)" "S / n * n = S" using that by simp_all
    then have "s - (S - s) / (n - 1) = (s * (n - 1) - (S - s)) / (n - 1)" "s * n / (n - 1) - S / n * n / (n - 1) = (s * n - S) / (n - 1)"
      by (simp_all add: diff_divide_distrib)
    then show ?thesis by (simp add: algebra_simps)
  qed
  ultimately have "?s ! i * ?n / (?n - 1) - sum_list ?s / ?n * ?n / (?n - 1) =
      sum_list (rewards ! i) - (\<Sum>j \<in> {0..<length rewards} - {i}. sum_list (rewards ! j)) / (?n - 1)"
    using assms(1,2) by simp
  then show ?thesis
    using assms by (simp add: compute_rloo_outcome_advantage_def scores mean_law masked_copies_def Let_def)
qed

lemma grpo_sums_to_zero:
  assumes "1 < length rewards"
  shows "sum_list (shift (t_mean T (group_scores T rewards)) (group_scores T rewards)) = 0"
proof -
  have "sum_list (shift c xs) = sum_list xs - real (length xs) * c" for c xs
    by (induction xs) (simp_all add: shift_def algebra_simps)
  then show ?thesis using assms by (simp add: scores mean_law)
qed

end

text \<open>The operations on lists.\<close>

definition sample_std :: "row \<Rightarrow> real" where
  "sample_std xs =
     (let mean = sum_list xs / real (length xs)
      in sqrt (sum_list (map (\<lambda>x. (x - mean) ^ 2) xs) / (real (length xs) - 1)))"

fun top2_from :: "nat \<Rightarrow> row \<Rightarrow> (real \<times> nat) \<times> (real \<times> nat) \<Rightarrow> (real \<times> nat) \<times> (real \<times> nat)" where
  "top2_from k [] best = best"
| "top2_from k (x # xs) (a, b) =
     top2_from (Suc k) xs (if fst a < x then ((x, k), a) else if fst b < x then (a, (x, k)) else (a, b))"

definition list_torch :: torch where
  "list_torch =
     \<lparr>t_sum = sum_list, t_mean = (\<lambda>xs. sum_list xs / real (length xs)), t_std = sample_std,
      t_rsqrt = (\<lambda>x. 1 / sqrt x), t_exp = exp,
      t_topk2 = (\<lambda>xs. case xs of
         x # y # zs \<Rightarrow> top2_from 2 zs (if x < y then ((y, 1), (x, 0)) else ((x, 0), (y, 1)))
       | _ \<Rightarrow> ((0, 0), (0, 0)))\<rparr>"

interpretation on_lists: reductions list_torch
  by unfold_locales (simp_all add: list_torch_def)

text \<open>
  C17: leave one out. In a group of more than one sample, the advantage of a sample is its score
  less the mean score of the other samples, spread over its mask.
\<close>

theorem rloo_leaves_one_out:
  assumes "\<And>xs. t_sum T xs = sum_list xs" and "\<And>xs. t_mean T xs = sum_list xs / real (length xs)"
    and "1 < length rewards" and "i < length rewards" and "length masks = length rewards"
  shows "fst (compute_rloo_outcome_advantage T rewards masks) ! i =
     scale (sum_list (rewards ! i) -
            (\<Sum>j \<in> {0..<length rewards} - {i}. sum_list (rewards ! j)) / (real (length rewards) - 1)) (masks ! i)"
  using reductions.rloo_others [OF reductions.intro [OF assms(1,2)] assms(3-5)] .

lemma rloo_leaves_one_out_witness:
  "fst (compute_rloo_outcome_advantage list_torch [[0, 1], [0, 0], [0, 1 / 2]] [[0, 1], [1, 1], [0, 0]]) ! 0 =
     [0, 3 / 4]"
proof -
  have "{0..<length [[0, 1], [0, 0], [0, 1 / 2 :: real]]} - {0} = {1, 2}" by auto
  then show ?thesis
    using rloo_leaves_one_out [of list_torch "[[0, 1], [0, 0], [0, 1 / 2]]" 0 "[[0, 1], [1, 1], [0, 0]]"]
    by (simp add: on_lists.sum_law on_lists.mean_law scale_def)
qed

text \<open>
  The estimators of single items return twice as many entries as there are items. With a GAE,
  REINFORCE++ or ReMax estimator whose estimates all succeed, the result is one None for every
  item, followed by the estimates.
\<close>

lemma per_item_estimates_come_second:
  assumes "\<not> is_group_algo e" and "map (item_estimate T e gamma lam) data = map Inr ys"
  shows "compute_advantage T e gamma lam by_std data = Inr (replicate (length data) None @ map Some ys)"
proof -
  have "append_items T e gamma lam data out = Inr (out @ map Some ys)" for out
    using assms(2)
  proof (induction data arbitrary: ys out)
    case (Cons x xs)
    then obtain y zs where "ys = y # zs" by (cases ys) auto
    with Cons show ?case by simp
  qed simp
  then show ?thesis using assms(1) by (simp add: compute_advantage_def)
qed

lemma per_item_estimates_come_second_witness:
  "let x = \<lparr>group_id = ''g'', token_level_rewards = [0, 1], sample_values = None,
            reward_baselines = Some (1 / 2), loss_mask = [1, 1]\<rparr>
   in compute_advantage list_torch REMAX 1 1 True [x] = Inr [None, Some ([1 / 2, 1 / 2], [1, 1])]"
proof -
  let ?x = "\<lparr>group_id = ''g'', token_level_rewards = [0, 1], sample_values = None,
             reward_baselines = Some (1 / 2), loss_mask = [1, 1]\<rparr>"
  have "map (item_estimate list_torch REMAX 1 1) [?x] = map Inr [([1 / 2, 1 / 2], [1, 1])]"
    by (simp add: item_estimate_def single_def compute_remax_outcome_advantage_def vmul_def vsub_def scale_def)
  from per_item_estimates_come_second [OF _ this] show ?thesis by (simp add: is_group_algo_def)
qed

end
