(* ===== verification/Agent_Loop.thy ===== *)
theory Agent_Loop
  imports Complex_Main Encoding
begin

text \<open>
  The rollout loop of the trainer (trainer/src/agentrl/trainer/agentic/loops.py). The session API,
  the sampling engine, the tokenizer and the parser of tool calls are parameters; the loop keeps
  three sequences in step: the token ids, the mask of the tokens that carry loss, and the
  log probabilities.
\<close>

section \<open>The interfaces\<close>

record started =
  s_messages :: "json list"
  s_tools :: json
  s_sid :: string
  s_metrics :: "(string, rat) dict"

record observed =
  o_messages :: "json list"
  o_finish :: bool
  o_reward :: rat
  o_status :: string
  o_metrics :: "(string, rat) dict"

record tool_call =
  tool_index :: int
  tool_name :: string
  tool_parameters :: string

record 'w agent_env =
  start_fn :: "('w, started) proc"
  gen_fn :: "int list \<Rightarrow> ('w, string \<times> (rat \<times> int) list) proc"
  obs_fn :: "json \<Rightarrow> string \<Rightarrow> ('w, observed) proc"
  end_fn :: "string \<Rightarrow> bool \<Rightarrow> ('w, unit) proc"
  apply_chat_template :: "json list \<Rightarrow> json \<Rightarrow> bool \<Rightarrow> ('w, int list) proc"
  new_parser :: "json \<Rightarrow> ('w, unit) proc"
  parse_non_stream :: "json \<Rightarrow> string \<Rightarrow> ('w, string \<times> tool_call list) proc"

section \<open>The loop\<close>

record rollout =
  ids :: "int list"
  loss_mask :: "nat list"
  log_probs :: "rat list"
  history :: "json list"
  finished :: bool
  reward :: rat
  status :: string
  obs_metrics :: "(string, rat) dict"

record episode =
  seq_len :: nat
  loss_tokens :: nat
  input_ids :: "int list"
  ep_loss_mask :: "nat list"
  position_ids :: "nat list"
  rollout_log_prob :: "rat list"
  ep_reward :: rat
  metrics :: "(string, rat) dict"
  ep_history :: "json list"

primrec collect_metrics :: "(string, rat) dict \<Rightarrow> (string, rat) dict \<Rightarrow> (string, rat) dict" where
  "collect_metrics [] tgt = tgt"
| "collect_metrics (e # src) tgt =
     collect_metrics src
       (if fst e = ''score'' then tgt
        else case dict_get tgt (fst e) of
               None \<Rightarrow> dict_set (fst e) (snd e) tgt
             | Some v \<Rightarrow> dict_set (fst e) (v + snd e) tgt)"

definition tool_call_json :: "tool_call \<Rightarrow> json" where
  "tool_call_json c =
     JObj [(''id'', JStr (int_str (tool_index c))),
           (''function'', JObj [(''name'', JStr (tool_name c)), (''arguments'', JStr (tool_parameters c))])]"

text \<open>The message of a turn; a text that does not parse is a message without tool calls.\<close>

definition agent_message :: "'w agent_env \<Rightarrow> json \<Rightarrow> string \<Rightarrow> ('w, json) proc" where
  "agent_message F tools txt =
     (if json_truth tools then
        bnd (new_parser F tools) (\<lambda>_.
        bnd (catch (parse_non_stream F tools txt) (\<lambda>_. ret (txt, []))) (\<lambda>(normal, calls).
        ret (JObj [(''role'', JStr ''assistant''), (''content'', JStr normal),
                   (''tool_calls'', JList (map tool_call_json calls))])))
      else ret (JObj [(''role'', JStr ''assistant''), (''content'', JStr txt)]))"

text \<open>One turn: the model's tokens, then the tokens by which the environment's answer extends the text.\<close>

definition turn :: "'w agent_env \<Rightarrow> json \<Rightarrow> string \<Rightarrow> rollout \<Rightarrow> ('w, rollout) proc" where
  "turn F tools sid r =
     bnd (gen_fn F (ids r)) (\<lambda>(txt, received).
     (let new_ids = map snd received;
          r1 = r\<lparr>ids := ids r @ new_ids, loss_mask := loss_mask r @ replicate (length new_ids) 1,
                 log_probs := log_probs r @ map fst received\<rparr>
      in bnd (agent_message F tools txt) (\<lambda>message.
         (let h = history r1 @ [message]
          in bnd (obs_fn F message sid) (\<lambda>obs.
             bnd (apply_chat_template F h tools False) (\<lambda>before.
             bnd (apply_chat_template F (h @ o_messages obs) tools True) (\<lambda>now.
             (let diff = drop (length before) now
              in ret (r1\<lparr>ids := ids r1 @ diff, loss_mask := loss_mask r1 @ replicate (length diff) 0,
                         log_probs := log_probs r1 @ replicate (length diff) 0,
                         history := h @ o_messages obs, finished := o_finish obs, reward := o_reward obs,
                         status := o_status obs,
                         obs_metrics := collect_metrics (o_metrics obs) (obs_metrics r1)\<rparr>)))))))))"

primrec turns :: "'w agent_env \<Rightarrow> json \<Rightarrow> string \<Rightarrow> nat \<Rightarrow> nat \<Rightarrow> rollout \<Rightarrow> ('w, rollout) proc" where
  "turns F tools sid max_length 0 r = ret r"
| "turns F tools sid max_length (Suc n) r =
     bnd (turn F tools sid r) (\<lambda>r'.
     if finished r' \<or> max_length \<le> length (ids r') then ret r' else turns F tools sid max_length n r')"

definition episode_of :: "nat \<Rightarrow> rat \<Rightarrow> rollout \<Rightarrow> episode" where
  "episode_of max_length final r =
     \<lparr>seq_len = length (take max_length (ids r)), loss_tokens = sum_list (take max_length (loss_mask r)),
      input_ids = take max_length (ids r), ep_loss_mask = take max_length (loss_mask r),
      position_ids = [0..<min max_length (length (ids r))],
      rollout_log_prob = take max_length (log_probs r), ep_reward = final,
      metrics = dict_set ''pass_rate'' (if reward r = 1 then 1 else 0) (obs_metrics r),
      ep_history = history r\<rparr>"

definition openai_chat_agent_loop ::
    "'w agent_env \<Rightarrow> nat \<Rightarrow> nat \<Rightarrow> rat \<Rightarrow> ('w, episode) proc" where
  "openai_chat_agent_loop F max_turns max_length incomplete_punishment =
     bnd (start_fn F) (\<lambda>start.
     bnd (apply_chat_template F (s_messages start) (s_tools start) True) (\<lambda>prompt.
     bnd (turns F (s_tools start) (s_sid start) max_length max_turns
            \<lparr>ids = prompt, loss_mask = replicate (length prompt) 0, log_probs = replicate (length prompt) 0,
             history = s_messages start, finished = False, reward = 0, status = '''',
             obs_metrics = collect_metrics (s_metrics start) []\<rparr>) (\<lambda>r.
     (let final = (if status r \<noteq> ''completed'' then incomplete_punishment else reward r)
      in bnd (end_fn F (s_sid start) (finished r)) (\<lambda>_.
         if length (ids r) = length (loss_mask r) \<and> length (loss_mask r) = length (log_probs r)
         then ret (episode_of max_length final r)
         else raise AssertionError)))))"

primrec retry_openai_chat_agent_loop ::
    "'w agent_env \<Rightarrow> nat \<Rightarrow> nat \<Rightarrow> rat \<Rightarrow> nat \<Rightarrow> ('w, episode option) proc" where
  "retry_openai_chat_agent_loop F max_turns max_length p 0 = ret None"
| "retry_openai_chat_agent_loop F max_turns max_length p (Suc n) =
     catch (bnd (openai_chat_agent_loop F max_turns max_length p) (\<lambda>e. ret (Some e)))
       (\<lambda>err. if err = RuntimeError \<or> err = NotImplementedError then ret None else retry_openai_chat_agent_loop F max_turns max_length p n)"

section \<open>Recording what the model generates\<close>

text \<open>The same interfaces, with a log of the tokens that the sampling engine returns.\<close>

definition recorded :: "'w agent_env \<Rightarrow> ('w \<times> int list) agent_env" where
  "recorded F =
     \<lparr>start_fn = on_first (start_fn F),
      gen_fn = (\<lambda>xs. bnd (on_first (gen_fn F xs)) (\<lambda>r.
                 andthen (modify (\<lambda>s. (fst s, snd s @ map snd (snd r)))) (ret r))),
      obs_fn = (\<lambda>m sid. on_first (obs_fn F m sid)), end_fn = (\<lambda>sid d. on_first (end_fn F sid d)),
      apply_chat_template = (\<lambda>h ts g. on_first (apply_chat_template F h ts g)),
      new_parser = (\<lambda>ts. on_first (new_parser F ts)),
      parse_non_stream = (\<lambda>ts x. on_first (parse_non_stream F ts x))\<rparr>"

text \<open>The tokens under ones of a mask.\<close>

definition marked :: "'a list \<Rightarrow> nat list \<Rightarrow> 'a list" where
  "marked xs m = map fst (filter (\<lambda>p. snd p = 1) (zip xs m))"

lemma marked_append [simp]:
  "length xs = length m \<Longrightarrow> marked (xs @ ys) (m @ n) = marked xs m @ marked ys n"
  by (simp add: marked_def)

lemma marked_replicate [simp]:
  "marked xs (replicate (length xs) (Suc 0)) = xs" "marked xs (replicate (length xs) 0) = []"
  unfolding marked_def by (induction xs) simp_all

lemma length_marked:
  "length xs = length m \<Longrightarrow> set m \<subseteq> {0, 1} \<Longrightarrow> length (marked xs m) = sum_list m"
  unfolding marked_def by (induction xs m rule: list_induct2) auto

lemma marked_take:
  assumes "length xs = length m" and "set m \<subseteq> {0, 1}"
  shows "marked (take k xs) (take k m) = take (sum_list (take k m)) (marked xs m)"
proof -
  have "marked xs m = marked (take k xs @ drop k xs) (take k m @ drop k m)" by simp
  also have "\<dots> = marked (take k xs) (take k m) @ marked (drop k xs) (drop k m)"
    by (rule marked_append) (simp add: assms(1))
  finally have split: "marked xs m = marked (take k xs) (take k m) @ marked (drop k xs) (drop k m)" .
  have "set (take k m) \<subseteq> {0, 1}" using assms(2) set_take_subset [of k m] by blast
  then have "length (marked (take k xs) (take k m)) = sum_list (take k m)"
    by (intro length_marked) (simp_all add: assms(1))
  then show ?thesis unfolding split by simp
qed

definition aligned :: "rollout \<Rightarrow> int list \<Rightarrow> bool" where
  "aligned r l \<longleftrightarrow>
     length (loss_mask r) = length (ids r) \<and> length (log_probs r) = length (ids r) \<and>
     set (loss_mask r) \<subseteq> {0, 1} \<and> marked (ids r) (loss_mask r) = l \<and>
     (\<forall>(m, p) \<in> set (zip (loss_mask r) (log_probs r)). m = 0 \<longrightarrow> p = 0)"

lemma recorded_sel:
  "start_fn (recorded F) = on_first (start_fn F)" "obs_fn (recorded F) m sid = on_first (obs_fn F m sid)"
  "end_fn (recorded F) sid d = on_first (end_fn F sid d)"
  "apply_chat_template (recorded F) h ts g = on_first (apply_chat_template F h ts g)"
  "new_parser (recorded F) ts = on_first (new_parser F ts)"
  "parse_non_stream (recorded F) ts x = on_first (parse_non_stream F ts x)"
  by (simp_all add: recorded_def)

lemma wp_gen:
  "(\<And>x v. Q x (v, l @ map snd (snd x))) \<Longrightarrow> (\<And>e v. E e (v, l)) \<Longrightarrow> wp (gen_fn (recorded F) xs) Q E (w, l)"
  by (simp add: recorded_def wp_on_first wp_any)

lemma wp_message:
  assumes "\<And>x v. Q x (v, l)" and "\<And>e v. E e (v, l)"
  shows "wp (agent_message (recorded F) tools txt) Q E (w, l)"
  unfolding agent_message_def recorded_sel
  by (auto simp: split_def intro!: wp_first_any assms)

lemma aligned_turn:
  assumes "aligned r l"
  shows "wp (turn (recorded F) tools sid r) (\<lambda>r' s. aligned r' (snd s)) (\<lambda>_ _. True) (w, l)"
proof -
  have step: "aligned
      (r\<lparr>ids := (ids r @ new) @ diff, loss_mask := (loss_mask r @ replicate (length new) 1) @ replicate (length diff) 0,
        log_probs := (log_probs r @ ps) @ replicate (length diff) 0, history := h, finished := f, reward := g,
        status := st, obs_metrics := om\<rparr>) (l @ new)"
    if "length ps = length new" for new diff ps h f g st om
    using assms that by (auto simp: aligned_def dest: in_set_zipE simp: zip_append in_set_replicate)
  have "aligned
      (r\<lparr>ids := ids r @ map snd b @ drop (length x) y,
        loss_mask := loss_mask r @ replicate (length b) (Suc 0) @ replicate (length y - length x) 0,
        log_probs := log_probs r @ map fst b @ replicate (length y - length x) 0, history := h, finished := f,
        reward := g, status := st, obs_metrics := om\<rparr>) (l @ map snd b)" for b x y h f g st om
    using step [where ps = "map fst b" and new = "map snd b" and diff = "drop (length x) y"] by simp
  then show ?thesis
    unfolding turn_def wp_bnd split_def Let_def recorded_sel
    by (intro wp_gen wp_message wp_first_any) (auto intro!: wp_message wp_first_any)
qed

lemma aligned_turns:
  assumes "aligned r l"
  shows "wp (turns (recorded F) tools sid max_length n r) (\<lambda>r' s. aligned r' (snd s)) (\<lambda>_ _. True) (w, l)"
  using assms
proof (induction n arbitrary: r w l)
  case (Suc n)
  show ?case unfolding turns.simps wp_bnd
    by (rule wp_mono [OF aligned_turn [OF Suc.prems]]) (auto simp: Suc.IH)
qed simp

text \<open>
  C3: loss falls on exactly the tokens that the model generated. Whatever the environment, the
  tokenizer and the model do: when the loop returns an episode, its token ids, mask and log
  probabilities have the same length, which is at most the maximum; the mask consists of zeros and
  ones; the tokens under ones are, in order, the tokens the model has generated up to the cut; and
  every token under a zero has the log probability zero.
\<close>

theorem loss_on_generated_tokens:
  assumes "openai_chat_agent_loop (recorded F) max_turns max_length p (w, []) = (Inr e, (w', l))"
  shows "seq_len e = length (input_ids e) \<and> length (ep_loss_mask e) = seq_len e \<and>
         length (rollout_log_prob e) = seq_len e \<and> position_ids e = [0..<seq_len e] \<and> seq_len e \<le> max_length \<and>
         set (ep_loss_mask e) \<subseteq> {0, 1} \<and>
         marked (input_ids e) (ep_loss_mask e) = take (loss_tokens e) l \<and>
         (\<forall>(m, q) \<in> set (zip (ep_loss_mask e) (rollout_log_prob e)). m = 0 \<longrightarrow> q = 0)"
    (is "?P e l")
proof -
  define G where "G e l \<longleftrightarrow> ?P e l" for e l
  have episode: "G (episode_of max_length final r) l" if "aligned r l" for final r l
  proof -
    have "set (take k (loss_mask r)) \<subseteq> {0, 1}" for k
      using that set_take_subset [of k "loss_mask r"] by (auto simp: aligned_def)
    moreover have "marked (take k (ids r)) (take k (loss_mask r)) = take (sum_list (take k (loss_mask r))) l" for k
      using that marked_take [of "ids r" "loss_mask r" k] by (simp add: aligned_def)
    moreover have "\<forall>(m, q) \<in> set (zip (take k (loss_mask r)) (take k (log_probs r))). m = 0 \<longrightarrow> q = 0" for k
      using that set_take_subset [of k "zip (loss_mask r) (log_probs r)"] by (auto simp: aligned_def take_zip)
    ultimately show ?thesis
      using that unfolding G_def by (auto simp: episode_of_def aligned_def min_def)
  qed
  have start: "aligned \<lparr>ids = prompt, loss_mask = replicate (length prompt) 0, log_probs = replicate (length prompt) 0,
             history = h, finished = False, reward = 0, status = [], obs_metrics = om\<rparr> []" for prompt h om
    by (auto simp: aligned_def dest: in_set_zipE)
  have rest: "wp (end_fn (recorded F) sid d) Q E (w, l)" if "\<And>x v. Q x (v, l)" "\<And>e v. E e (v, l)" for Q E sid d w l
    unfolding recorded_sel by (rule wp_first_any) (rule that)+
  have "wp (openai_chat_agent_loop (recorded F) max_turns max_length p) (\<lambda>e s. G e (snd s)) (\<lambda>_ _. True) (w, [])"
    unfolding openai_chat_agent_loop_def wp_bnd recorded_sel(1,4)
  proof (intro wp_first_any TrueI)
    fix st v prompt u
    show "wp (turns (recorded F) (s_tools st) (s_sid st) max_length max_turns
            \<lparr>ids = prompt, loss_mask = replicate (length prompt) 0, log_probs = replicate (length prompt) 0,
             history = s_messages st, finished = False, reward = 0, status = [],
             obs_metrics = collect_metrics (s_metrics st) []\<rparr>)
          (\<lambda>r. wp (let final = if status r \<noteq> ''completed'' then p else reward r
                 in bnd (end_fn (recorded F) (s_sid st) (finished r))
                      (\<lambda>_. if length (ids r) = length (loss_mask r) \<and> length (loss_mask r) = length (log_probs r)
                           then ret (episode_of max_length final r) else raise AssertionError))
                (\<lambda>e s. G e (snd s)) (\<lambda>_ _. True)) (\<lambda>_ _. True) (u, [])"
      by (rule wp_mono [OF aligned_turns [OF start]])
        (auto simp: Let_def episode intro!: rest)
  qed
  then show ?thesis using assms by (simp add: wp_def G_def)
qed

text \<open>An environment with a fixed script: every turn generates its two tokens, the second ends it.\<close>

definition scripted :: "nat agent_env" where
  "scripted =
     \<lparr>start_fn = ret \<lparr>s_messages = [JStr ''hi''], s_tools = JNull, s_sid = ''1'', s_metrics = []\<rparr>,
      gen_fn = (\<lambda>xs. andthen (modify Suc) (ret (''t'', [(- 1, 7), (- 2, 8)]))),
      obs_fn = (\<lambda>m sid. bnd (gets (\<lambda>n. n)) (\<lambda>n.
        ret \<lparr>o_messages = [JStr ''next''], o_finish = (1 < n), o_reward = 1, o_status = ''completed'', o_metrics = []\<rparr>)),
      end_fn = (\<lambda>sid d. ret ()),
      apply_chat_template = (\<lambda>h ts g. ret (replicate (2 * length h) 5)),
      new_parser = (\<lambda>ts. ret ()), parse_non_stream = (\<lambda>ts x. ret (x, []))\<rparr>"

lemma loss_on_generated_tokens_witness:
  "case openai_chat_agent_loop (recorded scripted) 5 7 0 (0, []) of
     (Inr e, (w, l)) \<Rightarrow>
       l = [7, 8, 7, 8] \<and> ep_loss_mask e = [0, 0, 1, 1, 0, 0, 1] \<and>
       marked (input_ids e) (ep_loss_mask e) = take (loss_tokens e) l \<and> loss_tokens e = 3
   | _ \<Rightarrow> False"
proof -
  have run: "\<exists>e. openai_chat_agent_loop (recorded scripted) 5 7 0 (0, []) = (Inr e, (2, [7, 8, 7, 8])) \<and>
      ep_loss_mask e = [0, 0, 1, 1, 0, 0, 1] \<and> loss_tokens e = 3"
    by (simp add: openai_chat_agent_loop_def recorded_def scripted_def on_first_def zoom_def turn_def
        agent_message_def bnd_def andthen_def ret_def modify_def gets_def episode_of_def eval_nat_numeral Let_def)
  then obtain e where e: "openai_chat_agent_loop (recorded scripted) 5 7 0 (0, []) = (Inr e, (2, [7, 8, 7, 8]))"
    "ep_loss_mask e = [0, 0, 1, 1, 0, 0, 1]" "loss_tokens e = 3" by blast
  from loss_on_generated_tokens [OF e(1)] e show ?thesis by simp
qed

end
