(* ===== verification/Eval_Types.thy ===== *)
theory Eval_Types
  imports Complex_Main Encoding
begin

text \<open>
  The values of an evaluation (eval/src/agentrl/eval/session/types.py, metric.py, tokens.py and
  utils/utils.py): statuses, answers of the controller, specifications and results of runs, metrics,
  the counts of tokens, and the formatting of numbers and model names. Floating point numbers are
  exact rationals.
\<close>

section \<open>Statuses\<close>

datatype status =
    UNKNOWN | RUNNING | COMPLETED | VALIDATION_FAILED | INVALID_ACTION | TASK_LIMIT_REACHED
  | TASK_ERROR | CANCELLED | MODEL_ERROR | SERVER_ERROR | WORKFLOW_ERROR

definition status_values :: "(string, status) dict" where
  "status_values =
     [(''unknown'', UNKNOWN), (''running'', RUNNING), (''completed'', COMPLETED),
      (''agent validation failed'', VALIDATION_FAILED), (''agent invalid action'', INVALID_ACTION),
      (''task limit reached'', TASK_LIMIT_REACHED), (''task error'', TASK_ERROR), (''cancelled'', CANCELLED),
      (''model error'', MODEL_ERROR), (''server error'', SERVER_ERROR), (''workflow error'', WORKFLOW_ERROR)]"

definition completed_statuses :: "status set" where
  "completed_statuses = {UNKNOWN, COMPLETED, VALIDATION_FAILED, INVALID_ACTION, TASK_LIMIT_REACHED}"

definition is_completed :: "status \<Rightarrow> bool" where
  "is_completed s \<longleftrightarrow> s \<in> completed_statuses"

definition client_errors :: "status set" where
  "client_errors = {CANCELLED, MODEL_ERROR, SERVER_ERROR, WORKFLOW_ERROR}"

definition is_client_error :: "status \<Rightarrow> bool" where
  "is_client_error s \<longleftrightarrow> s \<in> client_errors"

section \<open>Answers, specifications, results\<close>

datatype task_index = IntIx int | StrIx string

record answer =
  a_finish :: "bool option"
  a_reward :: "rat option"
  a_status :: "status option"
  a_messages :: "json list option"
  a_tools :: "json list option"
  a_metrics :: "(string, json) dict option"
  a_result :: "json option"

text \<open>The validator of \<open>InteractResponse\<close>.\<close>

definition messages_not_empty :: "answer \<Rightarrow> answer res" where
  "messages_not_empty a =
     (if a_finish a = Some True then
        Inr (if a_status a = None then a\<lparr>a_status := Some UNKNOWN\<rparr> else a)
      else case a_messages a of
             None \<Rightarrow> Inl ValueError
           | Some ms \<Rightarrow> if ms = [] then Inl ValueError else Inr a)"

record run_spec =
  sp_model :: string
  sp_run :: nat
  sp_task :: string
  sp_index :: task_index
  sp_custom :: "(string, json) dict option"

definition index_str :: "task_index \<Rightarrow> string" where
  "index_str i = (case i of IntIx n \<Rightarrow> int_str n | StrIx s \<Rightarrow> s)"

definition task_key :: "run_spec \<Rightarrow> string" where
  "task_key s = sp_task s @ '':'' @ index_str (sp_index s)"

definition run_key :: "run_spec \<Rightarrow> string" where
  "run_key s = sp_model s @ '':'' @ sp_task s @ '':'' @ index_str (sp_index s) @ '':'' @ nat_str (sp_run s)"

record run_result =
  r_model :: string
  r_session :: "int option"
  r_run :: nat
  r_task :: string
  r_index :: task_index
  r_status :: status
  r_reward :: "rat option"
  r_score :: "rat option"
  r_metrics :: "(string, json) dict option"
  r_result :: "json option"
  r_task_trace :: "json option"
  r_raw_trace :: "json option"

definition result_spec :: "run_result \<Rightarrow> run_spec" where
  "result_spec r =
     \<lparr>sp_model = r_model r, sp_run = r_run r, sp_task = r_task r, sp_index = r_index r, sp_custom = None\<rparr>"

section \<open>Metrics\<close>

datatype metric_type = REWARD | SCORE | SUCCESS_RATE

datatype metric_result = SUCCESS | PARTIAL_SUCCESS | FAILURE | NO_VERDICT | ERROR

definition metric_value :: "metric_type \<Rightarrow> run_result \<Rightarrow> rat option" where
  "metric_value t r =
     (case t of
        REWARD \<Rightarrow> r_reward r
      | SCORE \<Rightarrow> r_score r
      | SUCCESS_RATE \<Rightarrow> (case r_reward r of None \<Rightarrow> None | Some x \<Rightarrow> Some (if x = 1 then 1 else 0)))"

definition metric_call :: "metric_type \<Rightarrow> run_result \<Rightarrow> rat option \<times> metric_result" where
  "metric_call t r =
     (let v = metric_value t r
      in (v, if \<not> is_completed (r_status r) then ERROR
             else case v of
                    None \<Rightarrow> NO_VERDICT
                  | Some x \<Rightarrow> if x = 1 then SUCCESS else if x = 0 then FAILURE
                             else if 0 < x \<and> x < 1 then PARTIAL_SUCCESS else NO_VERDICT))"

definition metric_all :: "run_result \<Rightarrow> (metric_type, rat option) dict" where
  "metric_all r = map (\<lambda>t. (t, metric_value t r)) [REWARD, SCORE, SUCCESS_RATE]"

section \<open>Formatting\<close>

text \<open>\<open>f'{n:.df}'\<close>: the number is rounded to the nearest, and to the even one of two.\<close>

definition round_even :: "rat \<Rightarrow> int" where
  "round_even x =
     (let f = \<lfloor>x\<rfloor>; d = x - of_int f
      in if d < 1 / 2 then f else if 1 / 2 < d then f + 1 else if even f then f else f + 1)"

definition fixed_str :: "nat \<Rightarrow> rat \<Rightarrow> string" where
  "fixed_str d x =
     (let n = nat (round_even (x * 10 ^ d));
          frac = nat_str (n mod 10 ^ d)
      in if d = 0 then nat_str n
         else nat_str (n div 10 ^ d) @ ''.'' @ replicate (d - length frac) (CHR ''0'') @ frac)"

definition rstrip_char :: "char \<Rightarrow> string \<Rightarrow> string" where
  "rstrip_char c s = rev (dropWhile (\<lambda>x. x = c) (rev s))"

text \<open>The loop over the units: the number and the unit it is given in.\<close>

fun scale_units :: "string list \<Rightarrow> rat \<Rightarrow> rat \<times> string" where
  "scale_units [] x = (x, '''')"
| "scale_units [u] x = (x, u)"
| "scale_units (u # v # us) x = (if 1000 \<le> x then scale_units (v # us) (x / 1000) else (x, u))"

definition units :: "string list" where
  "units = ['''', ''k'', ''m'', ''b'', ''t'']"

definition format_number :: "rat \<Rightarrow> nat \<Rightarrow> string" where
  "format_number n digits =
     (let sign = (if n < 0 then ''-'' else ''''); x = \<bar>n\<bar>
      in if x < 1000 then sign @ fixed_str 0 x
         else let (y, u) = scale_units units x
              in sign @ rstrip_char (CHR ''.'') (rstrip_char (CHR ''0'') (fixed_str digits y)) @ u)"

section \<open>Tokens\<close>

text \<open>
  The usage objects of the client libraries: a count that is missing, None or zero is 0, and
  \<open>legacy_details\<close> says whether there is an attribute with the name \<open>input_token_details\<close>.
\<close>

record details =
  cached_tokens :: nat
  image_tokens :: nat
  reasoning_tokens :: nat

record usage =
  input_tokens :: nat
  prompt_tokens :: nat
  output_tokens :: nat
  completion_tokens :: nat
  cache_read_input_tokens :: nat
  prompt_tokens_details :: "details option"
  input_tokens_details :: "details option"
  completion_tokens_details :: "details option"
  output_tokens_details :: "details option"
  legacy_details :: bool

record token_counter =
  t_input :: nat
  t_cached :: nat
  t_image :: nat
  t_output :: nat
  t_thinking :: nat

definition counter_init :: token_counter where
  "counter_init = \<lparr>t_input = 0, t_cached = 0, t_image = 0, t_output = 0, t_thinking = 0\<rparr>"

definition first_count :: "nat \<Rightarrow> nat \<Rightarrow> nat" where
  "first_count a b = (if a \<noteq> 0 then a else b)"

definition input_details :: "usage \<Rightarrow> details" where
  "input_details u =
     (case prompt_tokens_details u of
        Some d \<Rightarrow> d
      | None \<Rightarrow>
          (case (if legacy_details u then input_tokens_details u else None) of
             Some d \<Rightarrow> d
           | None \<Rightarrow> \<lparr>cached_tokens = cache_read_input_tokens u, image_tokens = 0, reasoning_tokens = 0\<rparr>))"

definition add_from_usage :: "usage \<Rightarrow> token_counter \<Rightarrow> token_counter" where
  "add_from_usage u t =
     t\<lparr>t_input := t_input t + first_count (input_tokens u) (prompt_tokens u),
       t_cached := t_cached t + cached_tokens (input_details u),
       t_image := t_image t + image_tokens (input_details u),
       t_output := t_output t + first_count (output_tokens u) (completion_tokens u),
       t_thinking := t_thinking t +
         (case completion_tokens_details u of
            Some d \<Rightarrow> reasoning_tokens d
          | None \<Rightarrow> (case output_tokens_details u of Some d \<Rightarrow> reasoning_tokens d | None \<Rightarrow> 0))\<rparr>"

definition token_total :: "token_counter \<Rightarrow> (string, nat) dict" where
  "token_total t =
     [(''input_total'', t_input t), (''input_cached'', t_cached t), (''input_image'', t_image t),
      (''output_total'', t_output t), (''output_thinking'', t_thinking t), (''total'', t_input t + t_output t)]"

definition format_count :: "nat \<Rightarrow> string" where
  "format_count n = format_number (of_nat n) 1"

definition optional_count :: "nat \<Rightarrow> string \<Rightarrow> string" where
  "optional_count n label = (if 0 < n then '', '' @ format_count n @ '' '' @ label else '''')"

definition token_summary :: "token_counter \<Rightarrow> string" where
  "token_summary t =
     format_count (t_input t + t_output t) @ '' token'' @ (if t_input t + t_output t \<noteq> 1 then ''s'' else '''') @
     '' used ('' @ format_count (t_input t) @ '' input'' @ optional_count (t_cached t) ''cached'' @
     optional_count (t_image t) ''image'' @ ''; '' @ format_count (t_output t) @ '' output'' @
     optional_count (t_thinking t) ''thinking'' @ '')''"

section \<open>Names of models\<close>

definition global_step :: "string \<Rightarrow> string option" where
  "global_step s =
     (if take 12 s = ''global_step_'' \<and> drop 12 s \<noteq> [] \<and> list_all is_digit (drop 12 s) then Some (drop 12 s) else None)"

text \<open>What may follow the name in a path: nothing, or the step of a checkpoint.\<close>

definition step_behind :: "string list \<Rightarrow> string option option" where
  "step_behind ss =
     (case ss of
        [] \<Rightarrow> Some None
      | [x] \<Rightarrow> map_option Some (global_step x)
      | [x, y] \<Rightarrow> if y = [] then map_option Some (global_step x) else None
      | _ \<Rightarrow> None)"

fun match_name :: "string list \<Rightarrow> (string \<times> string option) option" where
  "match_name [] = None"
| "match_name (s # ss) =
     (case (if s = [] then None else step_behind ss) of
        Some step \<Rightarrow> Some (s, step)
      | None \<Rightarrow> match_name ss)"

definition contains :: "string \<Rightarrow> string \<Rightarrow> bool" where
  "contains t s \<longleftrightarrow> list_ex (\<lambda>u. take (length t) u = t) (suffixes s)"

definition normalize_model_name :: "string \<Rightarrow> bool option \<Rightarrow> string" where
  "normalize_model_name name thinking =
     (let lower = str_lower name;
          bare = (case dropWhile (\<lambda>c. c \<noteq> CHR '':'') lower of [] \<Rightarrow> lower | _ # t \<Rightarrow> t);
          short = (case match_name (split_on (CHR ''/'') bare) of
                     None \<Rightarrow> bare
                   | Some (s, None) \<Rightarrow> s
                   | Some (s, Some step) \<Rightarrow> s @ ''-step'' @ step)
      in if thinking = Some True \<and> \<not> contains ''thinking'' short then short @ ''-thinking'' else short)"

end
