(* ===== verification/Data_Url.thy ===== *)
theory Data_Url
  imports Encoding
begin

text \<open>
  Data URLs (eval/src/agentrl/eval/utils/data\_url.py): reading and writing them, and moving their
  payloads between a document and files. A string is the list of its UTF-8 bytes. The digest, the
  table of file types and its inverse are parameters.
\<close>

section \<open>Base64 as the standard library reads it\<close>

text \<open>
  \<open>b64decode(s, validate=False)\<close>: characters outside the alphabet are skipped, and complete padding
  ends the data. The state is the place in the quadruple, the bits left over, and the padding seen.
\<close>

fun a2b_base64 :: "nat \<Rightarrow> nat \<Rightarrow> nat \<Rightarrow> string \<Rightarrow> string option" where
  "a2b_base64 q l p [] = (if q = 0 then Some [] else None)"
| "a2b_base64 q l p (c # s) =
     (if c = CHR ''='' then
        (if 2 \<le> q then (if 4 \<le> q + Suc p then Some [] else a2b_base64 q l (Suc p) s)
         else a2b_base64 q l p s)
      else case b64_val c of
             None \<Rightarrow> a2b_base64 q l p s
           | Some v \<Rightarrow>
               (if q = 0 then a2b_base64 1 v 0 s
                else if q = 1 then map_option ((#) (char_of (l * 4 + v div 16))) (a2b_base64 2 (v mod 16) 0 s)
                else if q = 2 then map_option ((#) (char_of (l * 16 + v div 4))) (a2b_base64 3 (v mod 4) 0 s)
                else map_option ((#) (char_of (l * 64 + v))) (a2b_base64 0 0 0 s)))"

definition lenient_b64decode :: "string \<Rightarrow> string option" where
  "lenient_b64decode s = (if list_all (\<lambda>c. byte_of c < 128) s then a2b_base64 0 0 0 s else None)"

section \<open>Reading and writing\<close>

definition hex_val :: "char \<Rightarrow> nat option" where
  "hex_val c =
     (let n = byte_of c
      in if 48 \<le> n \<and> n \<le> 57 then Some (n - 48)
         else if 65 \<le> n \<and> n \<le> 70 then Some (n - 55)
         else if 97 \<le> n \<and> n \<le> 102 then Some (n - 87)
         else None)"

fun unquote_to_bytes :: "string \<Rightarrow> string" where
  "unquote_to_bytes (c # h # l # s) =
     (if c = CHR ''%'' then
        (case (hex_val h, hex_val l) of
           (Some i, Some j) \<Rightarrow> char_of (i * 16 + j) # unquote_to_bytes s
         | _ \<Rightarrow> c # unquote_to_bytes (h # l # s))
      else c # unquote_to_bytes (h # l # s))"
| "unquote_to_bytes s = s"

record data_url =
  mime :: string
  params :: "string list"
  payload :: string
  is_base64 :: bool

definition is_data_url :: "string \<Rightarrow> bool" where
  "is_data_url s \<longleftrightarrow> take 5 s = ''data:''"

definition marks_base64 :: "string \<Rightarrow> bool" where
  "marks_base64 p \<longleftrightarrow> str_lower (str_strip p) = ''base64''"

text \<open>The part of \<open>parse\<close> on the header: type and parameters.\<close>

definition parse_meta :: "string \<Rightarrow> string \<times> string list" where
  "parse_meta meta =
     (let ps = filter (\<lambda>p. p \<noteq> []) (map str_strip (split_on (CHR '';'') meta))
      in if meta = [] then (''text/plain'', [])
         else case ps of
                p # rest \<Rightarrow> if CHR ''/'' \<in> set p then (str_lower p, rest) else (''text/plain'', ps)
              | [] \<Rightarrow> (''text/plain'', ps))"

definition parse_data_url :: "string \<Rightarrow> data_url option" where
  "parse_data_url s =
     (if \<not> is_data_url s then None
      else case dropWhile (\<lambda>c. c \<noteq> CHR '','') s of
             [] \<Rightarrow> None
           | _ # data_part \<Rightarrow>
               (let (m, ps) = parse_meta (drop 5 (takeWhile (\<lambda>c. c \<noteq> CHR '','') s));
                    b64 = list_ex marks_base64 ps
                in case (if b64 then lenient_b64decode data_part else Some (unquote_to_bytes data_part)) of
                     None \<Rightarrow> None
                   | Some bytes \<Rightarrow> Some \<lparr>mime = m, params = ps, payload = bytes, is_base64 = b64\<rparr>))"

definition build_data_url :: "string \<Rightarrow> string \<Rightarrow> string list \<Rightarrow> string" where
  "build_data_url m bytes ps =
     (let extras = filter (\<lambda>p. \<not> marks_base64 p) ps @ [''base64''];
          param_section = join_with '';'' extras;
          m' = str_lower m;
          header = (if m' \<noteq> [] \<and> param_section \<noteq> [] then m' @ '';'' @ param_section
                    else if m' \<noteq> [] then m'
                    else if param_section \<noteq> [] then '';'' @ param_section
                    else '''')
      in ''data:'' @ header @ '','' @ b64encode bytes)"

text \<open>\<open>scrub\<close> replaces the URLs of a document by their lengths.\<close>

fun scrub :: "json \<Rightarrow> json" where
  "scrub (JStr s) =
     (if is_data_url s then JStr (''['' @ nat_str (length s) @ '' bytes data url]'') else JStr s)"
| "scrub (JObj d) = JObj (map (\<lambda>e. (fst e, scrub (snd e))) d)"
| "scrub (JList xs) = JList (map scrub xs)"
| "scrub j = j"

section \<open>Files\<close>

definition ext_table :: "(string, string) dict" where
  "ext_table =
     [(''image/jpeg'', ''.jpg''), (''image/jpg'', ''.jpg''), (''image/png'', ''.png''), (''image/gif'', ''.gif''),
      (''image/webp'', ''.webp''), (''image/svg+xml'', ''.svg''), (''application/json'', ''.json''),
      (''text/plain'', ''.txt''), (''application/pdf'', ''.pdf''), (''audio/mpeg'', ''.mp3''),
      (''audio/wav'', ''.wav''), (''video/mp4'', ''.mp4'')]"

record file_types =
  sha256 :: "string \<Rightarrow> string"
  guess_extension :: "string \<Rightarrow> string option"
  guess_file_type :: "string \<Rightarrow> string option"

record extraction =
  seen :: "(string, string) dict"
  next_index :: nat
  files :: "(string, string) dict"

definition mime_to_ext :: "file_types \<Rightarrow> string \<Rightarrow> string" where
  "mime_to_ext F m =
     (let ext = (case dict_get ext_table m of
                   Some e \<Rightarrow> e
                 | None \<Rightarrow> (case guess_extension F m of
                              Some e \<Rightarrow> if e = [] then ''.bin'' else e | None \<Rightarrow> ''.bin''))
      in if ext = ''.jpe'' then ''.jpg'' else ext)"

definition three_digits :: "nat \<Rightarrow> string" where
  "three_digits n = replicate (3 - length (nat_str n)) (CHR ''0'') @ nat_str n"

text \<open>The file of a payload: the one that has it already, or a new one.\<close>

definition ensure_file :: "file_types \<Rightarrow> string \<Rightarrow> string \<Rightarrow> extraction \<Rightarrow> string \<times> extraction" where
  "ensure_file F m bytes x =
     (let h = sha256 F bytes;
          known = dict_get_or (seen x) h []
      in if known = [] then
           (let name = three_digits (next_index x) @ mime_to_ext F m
            in (name, x\<lparr>next_index := next_index x + 1, seen := dict_set h name (seen x),
                        files := dict_set name bytes (files x)\<rparr>))
         else (known, x))"

fun extract_walk :: "file_types \<Rightarrow> json \<Rightarrow> extraction \<Rightarrow> json \<times> extraction"
  and extract_list :: "file_types \<Rightarrow> json list \<Rightarrow> extraction \<Rightarrow> json list \<times> extraction"
  and extract_dict :: "file_types \<Rightarrow> (string \<times> json) list \<Rightarrow> extraction \<Rightarrow> (string \<times> json) list \<times> extraction" where
  "extract_walk F (JStr s) x =
     (case parse_data_url s of
        None \<Rightarrow> (JStr s, x)
      | Some u \<Rightarrow> (let (name, y) = ensure_file F (mime u) (payload u) x in (JStr name, y)))"
| "extract_walk F (JObj d) x = (let (d', y) = extract_dict F d x in (JObj d', y))"
| "extract_walk F (JList js) x = (let (js', y) = extract_list F js x in (JList js', y))"
| "extract_walk F j x = (j, x)"
| "extract_list F [] x = ([], x)"
| "extract_list F (j # js) x =
     (let (j', y) = extract_walk F j x; (js', z) = extract_list F js y in (j' # js', z))"
| "extract_dict F [] x = ([], x)"
| "extract_dict F ((k, j) # d) x =
     (let (j', y) = extract_walk F j x; (d', z) = extract_dict F d y in ((k, j') # d', z))"

text \<open>
  \<open>extract\<close>: with \<open>seen = \_seen or \{\}\<close> the dictionary of the caller is used only if it is not
  empty. The results are the document, the next index, the caller's dictionary, and the files.
\<close>

definition extract_urls ::
    "file_types \<Rightarrow> json \<Rightarrow> nat \<Rightarrow> (string, string) dict option \<Rightarrow> (string, string) dict
      \<Rightarrow> json \<times> nat \<times> (string, string) dict option \<times> (string, string) dict" where
  "extract_urls F obj start shared disk =
     (let used = (case shared of Some d \<Rightarrow> d | None \<Rightarrow> []);
          (obj', x) = extract_walk F obj \<lparr>seen = used, next_index = start, files = disk\<rparr>
      in (obj', next_index x,
          (case shared of Some d \<Rightarrow> Some (if d = [] then d else seen x) | None \<Rightarrow> None), files x))"

section \<open>Rebuilding\<close>

definition is_name_char :: "char \<Rightarrow> bool" where
  "is_name_char c \<longleftrightarrow>
     is_digit c \<or> (65 \<le> byte_of c \<and> byte_of c \<le> 90) \<or> (97 \<le> byte_of c \<and> byte_of c \<le> 122) \<or> c \<in> set ''._+-''"

text \<open>The pattern \<open>\d\{3,\}\.[A-Za-z0-9._+-]+\<close>, where a final newline may follow.\<close>

definition is_file_name :: "string \<Rightarrow> bool" where
  "is_file_name s \<longleftrightarrow>
     (let d = takeWhile is_digit s;
          r = dropWhile is_digit s;
          t = (if r \<noteq> [] \<and> last r = CHR 0x0A then butlast r else r)
      in 3 \<le> length d \<and> (case t of c # e \<Rightarrow> c = CHR ''.'' \<and> e \<noteq> [] \<and> list_all is_name_char e | [] \<Rightarrow> False))"

definition ext_to_mime :: "file_types \<Rightarrow> string \<Rightarrow> string" where
  "ext_to_mime F name =
     (let ext = (if CHR ''.'' \<in> set name then ''.'' @ str_lower (last (split_on (CHR ''.'') name)) else '''')
      in case List.find (\<lambda>e. snd e = ext) ext_table of
           Some e \<Rightarrow> fst e
         | None \<Rightarrow>
             str_lower (case guess_file_type F (''x'' @ ext) of
                          Some m \<Rightarrow> if m = [] then ''application/octet-stream'' else m
                        | None \<Rightarrow> ''application/octet-stream''))"

definition to_data_url :: "file_types \<Rightarrow> (string, string) dict \<Rightarrow> bool \<Rightarrow> string \<Rightarrow> string res" where
  "to_data_url F disk strict name =
     (case dict_get disk name of
        None \<Rightarrow> (if strict then Inl KeyError else Inr name)
      | Some bytes \<Rightarrow> Inr (build_data_url (ext_to_mime F name) bytes []))"

fun rebuild :: "file_types \<Rightarrow> (string, string) dict \<Rightarrow> bool \<Rightarrow> json \<Rightarrow> json res"
  and rebuild_list :: "file_types \<Rightarrow> (string, string) dict \<Rightarrow> bool \<Rightarrow> json list \<Rightarrow> json list res"
  and rebuild_dict :: "file_types \<Rightarrow> (string, string) dict \<Rightarrow> bool \<Rightarrow> (string \<times> json) list \<Rightarrow> (string \<times> json) list res" where
  "rebuild F disk strict (JStr s) =
     (if is_file_name s
      then (case to_data_url F disk strict s of Inl e \<Rightarrow> Inl e | Inr u \<Rightarrow> Inr (JStr u))
      else Inr (JStr s))"
| "rebuild F disk strict (JObj d) =
     (case rebuild_dict F disk strict d of Inl e \<Rightarrow> Inl e | Inr d' \<Rightarrow> Inr (JObj d'))"
| "rebuild F disk strict (JList js) =
     (case rebuild_list F disk strict js of Inl e \<Rightarrow> Inl e | Inr js' \<Rightarrow> Inr (JList js'))"
| "rebuild F disk strict j = Inr j"
| "rebuild_list F disk strict [] = Inr []"
| "rebuild_list F disk strict (j # js) =
     (case rebuild F disk strict j of
        Inl e \<Rightarrow> Inl e
      | Inr j' \<Rightarrow> (case rebuild_list F disk strict js of Inl e \<Rightarrow> Inl e | Inr js' \<Rightarrow> Inr (j' # js')))"
| "rebuild_dict F disk strict [] = Inr []"
| "rebuild_dict F disk strict ((k, j) # d) =
     (case rebuild F disk strict j of
        Inl e \<Rightarrow> Inl e
      | Inr j' \<Rightarrow> (case rebuild_dict F disk strict d of Inl e \<Rightarrow> Inl e | Inr d' \<Rightarrow> Inr ((k, j') # d')))"

section \<open>Reading back what was written\<close>

lemma b64_char_ascii [simp]: "byte_of (b64_char n) < 128"
  by (auto simp: b64_char_def)

lemma a2b_base64_encode [simp]: "a2b_base64 0 l 0 (b64encode bs) = Some bs"
proof (induction bs arbitrary: l rule: b64encode.induct)
  case (4 a b c rest)
  then show ?case by simp
qed simp_all

lemma lenient_b64decode_encode [simp]: "lenient_b64decode (b64encode bs) = Some bs"
proof -
  have "list_all (\<lambda>c. byte_of c < 128) (b64encode bs)"
    by (induction bs rule: b64encode.induct) simp_all
  then show ?thesis by (simp add: lenient_b64decode_def)
qed

text \<open>A word of a header: it can be read back from a list separated by semicolons.\<close>

definition header_word :: "string \<Rightarrow> bool" where
  "header_word p \<longleftrightarrow> p \<noteq> [] \<and> str_strip p = p \<and> CHR '','' \<notin> set p \<and> CHR '';'' \<notin> set p"

lemma set_join_with: "set (join_with [c] ws) \<subseteq> insert c (\<Union>(set ` set ws))"
  by (induction "[c]" ws rule: join_with.induct) auto

lemma marks_base64_base64 [simp]: "marks_base64 ''base64''"
  by (simp add: marks_base64_def str_lower_def lower_char_def str_strip_def is_space_def)

lemma header_word_base64 [simp]: "header_word ''base64''"
  by (simp add: header_word_def str_strip_def is_space_def)

lemma parse_meta_join:
  assumes "header_word m" and "CHR ''/'' \<in> set m" and "\<forall>p \<in> set ps. header_word p"
  shows "parse_meta (join_with '';'' (m # ps)) = (str_lower m, ps)"
proof -
  have words: "\<forall>w \<in> set (m # ps). CHR '';'' \<notin> set w"
    and strip: "map str_strip (m # ps) = m # ps" and full: "filter (\<lambda>p. p \<noteq> []) (m # ps) = m # ps"
    using assms by (auto simp: header_word_def map_idI filter_id_conv)
  have "split_on (CHR '';'') (join_with '';'' (m # ps)) = m # ps"
    by (rule split_on_join) (use words in simp_all)
  moreover have "join_with '';'' (m # ps) \<noteq> []"
    using assms(1) by (cases ps) (auto simp: header_word_def)
  ultimately show ?thesis using strip full assms(2) by (simp add: parse_meta_def)
qed

lemma str_lower_idem [simp]: "str_lower (str_lower s) = str_lower s"
  by (auto simp: str_lower_def lower_char_def)

lemma byte_lower_char: "byte_of (lower_char c) = (if 65 \<le> byte_of c \<and> byte_of c \<le> 90 then byte_of c + 32 else byte_of c)"
  by (auto simp: lower_char_def)

lemma char_eq_byte: "c = d \<longleftrightarrow> byte_of c = byte_of d"
  by (metis char_of_char)

lemma lower_char_iff [simp]:
  "lower_char c = CHR '','' \<longleftrightarrow> c = CHR '',''" "lower_char c = CHR '';'' \<longleftrightarrow> c = CHR '';''"
  "lower_char c = CHR ''/'' \<longleftrightarrow> c = CHR ''/''" "is_space (lower_char c) = is_space c"
  unfolding is_space_def by (auto simp: char_eq_byte byte_lower_char)

lemma in_str_lower [simp]:
  "CHR '','' \<in> set (str_lower s) \<longleftrightarrow> CHR '','' \<in> set s"
  "CHR '';'' \<in> set (str_lower s) \<longleftrightarrow> CHR '';'' \<in> set s"
  "CHR ''/'' \<in> set (str_lower s) \<longleftrightarrow> CHR ''/'' \<in> set s"
  by (induction s) (auto simp: str_lower_def eq_commute [of _ "lower_char _"])

lemma str_lower_Nil [simp]: "str_lower s = [] \<longleftrightarrow> s = []"
  by (simp add: str_lower_def)

lemma str_strip_lower: "str_strip (str_lower s) = str_lower (str_strip s)"
proof -
  have "is_space \<circ> lower_char = is_space" by (simp add: fun_eq_iff)
  then have drop: "dropWhile is_space (map lower_char t) = map lower_char (dropWhile is_space t)" for t
    by (simp add: dropWhile_map)
  show ?thesis by (simp add: str_strip_def str_lower_def drop rev_map)
qed

lemma header_word_lower: "header_word m \<Longrightarrow> header_word (str_lower m)"
  by (simp add: header_word_def str_strip_lower)

lemma join_with_not_Nil: "w \<noteq> [] \<Longrightarrow> join_with sep (ws @ [w]) \<noteq> []"
  by (induction sep ws rule: join_with.induct) auto

text \<open>
  C25: A data URL reads back as it was written: for a type and parameters that a header can hold,
  parsing what \<open>build\<close> wrote gives the payload, the type in lower case, and the parameters with one
  base64 marker, at the end.
\<close>

theorem data_url_roundtrip:
  assumes "header_word m" and "CHR ''/'' \<in> set m" and "\<forall>p \<in> set ps. header_word p"
  shows "parse_data_url (build_data_url m bytes ps) =
    Some \<lparr>mime = str_lower m, params = filter (\<lambda>p. \<not> marks_base64 p) ps @ [''base64''],
          payload = bytes, is_base64 = True\<rparr>"
proof -
  let ?qs = "filter (\<lambda>p. \<not> marks_base64 p) ps @ [''base64'']"
  let ?h = "join_with '';'' (str_lower m # ?qs)"
  have m: "header_word (str_lower m)" "CHR ''/'' \<in> set (str_lower m)"
    using header_word_lower [OF assms(1)] assms(2) by simp_all
  have qs: "\<forall>p \<in> set ?qs. header_word p" using assms(3) by auto
  have "?h = str_lower m @ '';'' @ join_with '';'' ?qs" by (cases ?qs) auto
  moreover have "join_with '';'' ?qs \<noteq> []"
    by (rule join_with_not_Nil) simp
  ultimately have url: "build_data_url m bytes ps = (''data:'' @ ?h) @ CHR '','' # b64encode bytes"
    using m by (auto simp: build_data_url_def Let_def header_word_def)
  have "CHR '','' \<notin> set ?h"
    using set_join_with [of "CHR '';''" "str_lower m # ?qs"] m qs by (auto simp: header_word_def)
  then have no: "\<forall>c \<in> set (''data:'' @ ?h). c \<noteq> CHR '',''" by auto
  have "list_ex marks_base64 ?qs" by simp
  moreover have "parse_meta ?h = (str_lower m, ?qs)"
    using parse_meta_join [OF m qs] by simp
  ultimately show ?thesis
    using no unfolding url parse_data_url_def
    by (simp add: is_data_url_def takeWhile_append dropWhile_append del: join_with.simps)
qed

lemma data_url_roundtrip_witness:
  "parse_data_url (build_data_url ''image/PNG'' ''abcd'' [''x=1'', ''Base64'']) =
     Some \<lparr>mime = ''image/png'', params = [''x=1'', ''base64''], payload = ''abcd'', is_base64 = True\<rparr>"
proof -
  have "parse_data_url (build_data_url ''image/PNG'' ''abcd'' [''x=1'', ''Base64'']) =
     Some \<lparr>mime = str_lower ''image/PNG'',
           params = filter (\<lambda>p. \<not> marks_base64 p) [''x=1'', ''Base64''] @ [''base64''],
           payload = ''abcd'', is_base64 = True\<rparr>"
    by (rule data_url_roundtrip) (simp_all add: header_word_def str_strip_def is_space_def)
  moreover have "str_lower ''image/PNG'' = ''image/png''" by code_simp
  moreover have "filter (\<lambda>p. \<not> marks_base64 p) [''x=1'', ''Base64''] = [''x=1'']" by code_simp
  ultimately show ?thesis by simp
qed

text \<open>
  The dictionary that \<open>store.record\<close> shares between the calls of one result starts empty, so it is
  replaced by a new one in every call and stays empty: equal payloads get a file each.
\<close>

lemma empty_shared_dict_stays_empty:
  "fst (snd (snd (extract_urls F obj start (Some []) disk))) = Some []"
  by (simp add: extract_urls_def Let_def split: prod.split)

end
