(* ===== verification/Eval_Store.thy ===== *)
theory Eval_Store
  imports Eval_Types Data_Url
begin

text \<open>
  The results of an evaluation (eval/src/agentrl/eval/store/store.py and list.py). The table of
  results is a list of rows; the merge of a row by the data frame library is a parameter with the
  contract \<open>merges\<close>. Files of the directory of a session are a dictionary.
\<close>

section \<open>Rows\<close>

record row =
  row_model :: string
  row_run :: nat
  row_task :: string
  row_index :: task_index
  row_session :: "int option"
  row_status :: status
  row_metrics :: "(metric_type, rat option) dict"
  row_task_trace :: "string option"
  row_raw_trace :: "string option"

type_synonym row_key = "string \<times> nat \<times> string \<times> task_index"

definition row_key :: "row \<Rightarrow> row_key" where
  "row_key r = (row_model r, row_run r, row_task r, row_index r)"

definition spec_key :: "run_spec \<Rightarrow> row_key" where
  "spec_key s = (sp_model s, sp_run s, sp_task s, sp_index s)"

definition row_spec :: "row \<Rightarrow> run_spec" where
  "row_spec r =
     \<lparr>sp_model = row_model r, sp_run = row_run r, sp_task = row_task r, sp_index = row_index r, sp_custom = None\<rparr>"

text \<open>
  The result of a completed row: the times are left out, and a float is a rational.
\<close>

definition row_metric :: "row \<Rightarrow> metric_type \<Rightarrow> rat option" where
  "row_metric r t = (case dict_get (row_metrics r) t of Some v \<Rightarrow> v | None \<Rightarrow> None)"

definition row_result :: "row \<Rightarrow> run_result" where
  "row_result r =
     \<lparr>r_model = row_model r, r_session = row_session r, r_run = row_run r, r_task = row_task r, r_index = row_index r,
      r_status = row_status r, r_reward = row_metric r REWARD, r_score = row_metric r SCORE, r_metrics = None,
      r_result = None, r_task_trace = None, r_raw_trace = None\<rparr>"

primrec completed_from :: "row list \<Rightarrow> (string, run_result) dict \<Rightarrow> (string, run_result) dict" where
  "completed_from [] d = d"
| "completed_from (r # rs) d =
     completed_from rs (if is_completed (row_status r) then dict_set (run_key (row_spec r)) (row_result r) d else d)"

definition completed :: "row list \<Rightarrow> (string, run_result) dict" where
  "completed rows = completed_from rows []"

section \<open>Recording a result\<close>

text \<open>The name of the directory of a session; the parts that are None are left out.\<close>

definition session_dir :: "bool \<Rightarrow> bool \<Rightarrow> run_spec \<Rightarrow> int option \<Rightarrow> nat \<Rightarrow> string" where
  "session_dir multi_model multi_task s sid ts =
     replace_char (CHR ''/'') (CHR ''_'')
       (join_with ''-''
          ((if multi_model then [sp_model s] else []) @ (if multi_task then [sp_task s] else []) @
           [index_str (sp_index s), nat_str (sp_run s)] @
           (case sid of None \<Rightarrow> [] | Some i \<Rightarrow> [int_str i]) @ [nat_str ts]))"

record session_files =
  payloads :: "(string, string) dict"
  documents :: "(string, json) dict"

text \<open>
  One trace: its payloads become files, and the document is written. The state is the next index, the
  dictionary shared between the traces, and the files.
\<close>

definition write_trace ::
    "file_types \<Rightarrow> string \<Rightarrow> json option \<Rightarrow> nat \<times> (string, string) dict option \<times> session_files
      \<Rightarrow> nat \<times> (string, string) dict option \<times> session_files" where
  "write_trace F name trace x =
     (case trace of
        None \<Rightarrow> x
      | Some t \<Rightarrow>
          (let (i, seen, fs) = x;
               (t', j, seen', disk) = extract_urls F t i seen (payloads fs)
           in (j, seen', fs\<lparr>payloads := disk, documents := dict_set name t' (documents fs)\<rparr>)))"

definition write_traces :: "file_types \<Rightarrow> run_result \<Rightarrow> session_files \<Rightarrow> session_files" where
  "write_traces F r fs =
     snd (snd (write_trace F ''trace.json'' (r_raw_trace r)
       (write_trace F ''task_trace.json'' (r_task_trace r) (1, Some [], fs))))"

definition result_row :: "string \<Rightarrow> run_result \<Rightarrow> row" where
  "result_row dir r =
     \<lparr>row_model = r_model r, row_run = r_run r, row_task = r_task r, row_index = r_index r, row_session = r_session r,
      row_status = r_status r, row_metrics = metric_all r,
      row_task_trace = map_option (\<lambda>t. dir @ ''/task_trace.json'') (r_task_trace r),
      row_raw_trace = map_option (\<lambda>t. dir @ ''/trace.json'') (r_raw_trace r)\<rparr>"

record store =
  s_rows :: "row list"
  s_files :: "(string, session_files) dict"
  s_saved :: "row list"
  s_last_save :: rat
  s_multi_model :: bool
  s_multi_task :: bool

text \<open>What the data frame library does with a row: it replaces the rows of the same key, or joins them.\<close>

definition merges :: "(row \<Rightarrow> row list \<Rightarrow> row list) \<Rightarrow> bool" where
  "merges merge \<longleftrightarrow>
     (\<forall>r rows. set (merge r rows) = insert r {x \<in> set rows. row_key x \<noteq> row_key r})"

definition store_save :: "bool \<Rightarrow> rat \<Rightarrow> store \<Rightarrow> store" where
  "store_save force now s =
     (if \<not> force \<and> now - s_last_save s < 10 then s
      else s\<lparr>s_saved := s_rows s, s_last_save := now\<rparr>)"

definition no_files :: session_files where
  "no_files = \<lparr>payloads = [], documents = []\<rparr>"

definition store_record ::
    "file_types \<Rightarrow> (row \<Rightarrow> row list \<Rightarrow> row list) \<Rightarrow> rat \<Rightarrow> run_result \<Rightarrow> store \<Rightarrow> store" where
  "store_record F merge now r s =
     (let dir = session_dir (s_multi_model s) (s_multi_task s) (result_spec r) (r_session r) (nat \<lfloor>now\<rfloor>);
          fs = write_traces F r (dict_get_or (s_files s) dir no_files);
          s' = s\<lparr>s_files := (if r_task_trace r = None \<and> r_raw_trace r = None then s_files s
                             else dict_set dir fs (s_files s)),
                 s_rows := merge (result_row dir r) (s_rows s)\<rparr>
      in store_save False now s')"

section \<open>Metrics\<close>

text \<open>
  Completed rows are grouped by model, task and run; the values of a run that are not null are
  counted, added and averaged, and the runs of a model and task are put together. The standard
  deviation is a parameter.
\<close>

record metrics_item =
  mi_model :: string
  mi_task :: string
  mi_valid :: nat
  mi_avg :: rat
  mi_std :: "rat option"
  mi_bon :: "rat option"

definition run_values :: "metric_type \<Rightarrow> row list \<Rightarrow> string \<Rightarrow> string \<Rightarrow> nat \<Rightarrow> rat list" where
  "run_values t rows m k n =
     List.map_filter (\<lambda>r. if is_completed (row_status r) \<and> row_model r = m \<and> row_task r = k \<and> row_run r = n
                         then row_metric r t else None) rows"

definition runs_of :: "row list \<Rightarrow> string \<Rightarrow> string \<Rightarrow> nat list" where
  "runs_of rows m k =
     remdups (map row_run (filter (\<lambda>r. is_completed (row_status r) \<and> row_model r = m \<and> row_task r = k) rows))"

definition mean :: "rat list \<Rightarrow> rat" where
  "mean xs = sum_list xs / of_nat (length xs)"

definition run_averages :: "metric_type \<Rightarrow> row list \<Rightarrow> string \<Rightarrow> string \<Rightarrow> rat list" where
  "run_averages t rows m k =
     map mean (filter (\<lambda>vs. vs \<noteq> []) (map (run_values t rows m k) (runs_of rows m k)))"

definition metrics_of :: "(rat list \<Rightarrow> rat) \<Rightarrow> metric_type \<Rightarrow> row list \<Rightarrow> string \<times> string \<Rightarrow> metrics_item" where
  "metrics_of std t rows mk =
     (let (m, k) = mk;
          values = map (run_values t rows m k) (runs_of rows m k);
          valid = sum_list (map length values);
          total = sum_list (map sum_list values);
          avgs = run_averages t rows m k
      in \<lparr>mi_model = m, mi_task = k, mi_valid = valid, mi_avg = total / of_nat valid,
          mi_std = (if 1 < length avgs then Some (std avgs) else None),
          mi_bon = (if avgs = [] then None else Some (Max (set avgs)))\<rparr>)"

definition store_metrics :: "(rat list \<Rightarrow> rat) \<Rightarrow> metric_type \<Rightarrow> row list \<Rightarrow> metrics_item list" where
  "store_metrics std t rows =
     filter (\<lambda>i. 0 < mi_valid i)
       (map (metrics_of std t rows)
          (remdups (map (\<lambda>r. (row_model r, row_task r)) (filter (\<lambda>r. is_completed (row_status r)) rows))))"

section \<open>The list of results\<close>

definition result_prefix :: "string option \<Rightarrow> string option \<Rightarrow> bool \<Rightarrow> string" where
  "result_prefix model task view_only =
     (let model' = (if \<not> view_only \<and> model = None then Some ''multi-model'' else model);
          task' = (if \<not> view_only \<and> task = None then Some ''multi-task'' else task)
      in case task' of
           None \<Rightarrow> (case model' of None \<Rightarrow> '''' | Some m \<Rightarrow> m @ ''-'')
         | Some k \<Rightarrow> (case model' of None \<Rightarrow> ''multi-model'' | Some m \<Rightarrow> m) @ ''-'' @ k @ ''-'')"

section \<open>Lemmas\<close>

lemma completed_from_keys:
  "fst ` set (completed_from rows d) =
     fst ` set d \<union> {run_key (row_spec r) | r. r \<in> set rows \<and> is_completed (row_status r)}"
  by (induction rows arbitrary: d) auto

text \<open>The runs that count as completed are those of the rows with a completed status.\<close>

lemma completed_keys:
  "fst ` set (completed rows) = {run_key (row_spec r) | r. r \<in> set rows \<and> is_completed (row_status r)}"
  by (simp add: completed_def completed_from_keys)

lemma s_rows_save [simp]: "s_rows (store_save force now s) = s_rows s"
  by (simp add: store_save_def)

lemma rows_after_record:
  assumes "merges merge"
  shows "set (s_rows (store_record F merge now r s)) =
    insert (result_row (session_dir (s_multi_model s) (s_multi_task s) (result_spec r) (r_session r) (nat \<lfloor>now\<rfloor>)) r)
      {x \<in> set (s_rows s). row_key x \<noteq> spec_key (result_spec r)}"
proof -
  have "row_key (result_row d r) = spec_key (result_spec r)" for d
    by (simp add: row_key_def spec_key_def result_row_def result_spec_def)
  then show ?thesis using assms by (simp add: store_record_def merges_def Let_def)
qed

lemma sum_list_mean: "vs \<noteq> [] \<Longrightarrow> sum_list vs = mean vs * of_nat (length vs)"
  by (simp add: mean_def)

lemma nonempty_of_positive: "0 < sum_list (map length vss) \<Longrightarrow> \<exists>vs \<in> set vss. vs \<noteq> []"
  by (induction vss) auto

lemma total_below_best:
  assumes "\<forall>vs \<in> set vss. vs \<noteq> [] \<longrightarrow> mean vs \<le> b"
  shows "sum_list (map sum_list vss) \<le> b * of_nat (sum_list (map length vss))"
  using assms
proof (induction vss)
  case (Cons vs vss)
  have "sum_list vs \<le> b * of_nat (length vs)"
  proof (cases "vs = []")
    case False
    then have "mean vs \<le> b" using Cons.prems by simp
    then have "mean vs * of_nat (length vs) \<le> b * of_nat (length vs)" by (intro mult_right_mono) simp_all
    then show ?thesis using sum_list_mean [OF False] by simp
  qed simp
  moreover have "sum_list (map sum_list vss) \<le> b * of_nat (sum_list (map length vss))"
    using Cons by simp
  ultimately show ?case by (simp add: algebra_simps)
qed simp

text \<open>
  The reported average of a model on a task is at most its best run. The average is taken over
  all values and the best over the averages of the runs, so runs with few values cannot lift one
  above the other.
\<close>

lemma average_at_most_best:
  assumes "i \<in> set (store_metrics std t rows)"
  shows "\<exists>b. mi_bon i = Some b \<and> mi_avg i \<le> b"
proof -
  obtain m k where i: "i = metrics_of std t rows (m, k)" and valid: "0 < mi_valid i"
    using assms by (auto simp: store_metrics_def)
  let ?vss = "map (run_values t rows m k) (runs_of rows m k)"
  have n: "0 < sum_list (map length ?vss)" using valid by (simp add: i metrics_of_def Let_def)
  then obtain vs where vs: "vs \<in> set ?vss" "vs \<noteq> []"
    using nonempty_of_positive by blast
  then have avgs: "run_averages t rows m k \<noteq> []" by (auto simp: run_averages_def filter_empty_conv)
  let ?b = "Max (set (run_averages t rows m k))"
  have "sum_list (map sum_list ?vss) \<le> ?b * of_nat (sum_list (map length ?vss))"
    by (rule total_below_best) (auto simp: run_averages_def intro!: Max_ge)
  moreover have "0 < (of_nat (sum_list (map length ?vss)) :: rat)" using n by (simp only: of_nat_0_less_iff)
  ultimately have "sum_list (map sum_list ?vss) / of_nat (sum_list (map length ?vss)) \<le> ?b"
    by (simp only: pos_divide_le_eq)
  then show ?thesis using avgs by (simp add: i metrics_of_def Let_def)
qed

text \<open>Two runs of one task, the first with one value, the second with two.\<close>

definition two_runs :: "row list" where
  "two_runs =
     (let r = (\<lambda>n i v. \<lparr>row_model = ''m'', row_run = n, row_task = ''t'', row_index = IntIx i, row_session = None,
        row_status = COMPLETED, row_metrics = [(REWARD, Some v)], row_task_trace = None, row_raw_trace = None\<rparr>)
      in [r 0 1 1, r 1 1 0, r 1 2 (1 / 2)])"

lemma average_at_most_best_witness:
  "\<exists>i. store_metrics (\<lambda>_. 0) REWARD two_runs = [i] \<and> mi_avg i = 1 / 2 \<and> (\<exists>b. mi_bon i = Some b \<and> mi_avg i \<le> b)"
proof -
  let ?i = "\<lparr>mi_model = ''m'', mi_task = ''t'', mi_valid = 3, mi_avg = 1 / 2, mi_std = Some 0, mi_bon = Some 1\<rparr>"
  have "store_metrics (\<lambda>_. 0) REWARD two_runs = [?i]" by code_simp
  with average_at_most_best [of ?i "\<lambda>_. 0" REWARD two_runs] show ?thesis by simp
qed

text \<open>
  A payload in both traces is stored twice. For a result whose traces are one data URL, the two
  documents name different files, and both files hold the payload.
\<close>

lemma payload_in_both_traces_stored_twice:
  assumes "parse_data_url s = Some u" and "r_task_trace r = Some (JStr s)" and "r_raw_trace r = Some (JStr s)"
  shows "let fs = write_traces F r no_files; ext = mime_to_ext F (mime u)
    in documents fs = [(''task_trace.json'', JStr (three_digits 1 @ ext)), (''trace.json'', JStr (three_digits 2 @ ext))] \<and>
       payloads fs = [(three_digits 1 @ ext, payload u), (three_digits 2 @ ext, payload u)]"
proof -
  have "three_digits 1 @ ext \<noteq> three_digits 2 @ ext" for ext
    by (simp add: three_digits_def nat_str.simps digit_char_def)
  then show ?thesis
    using assms(1)
    by (simp add: write_traces_def write_trace_def assms(2,3) extract_urls_def ensure_file_def no_files_def
        dict_get_or_def Let_def numeral_2_eq_2)
qed

lemma payload_in_both_traces_stored_twice_witness:
  "let F = \<lparr>sha256 = (\<lambda>s. s), guess_extension = (\<lambda>m. None), guess_file_type = (\<lambda>n. None)\<rparr>;
       r = \<lparr>r_model = ''m'', r_session = None, r_run = 0, r_task = ''t'', r_index = IntIx 0, r_status = COMPLETED,
            r_reward = None, r_score = None, r_metrics = None, r_result = None,
            r_task_trace = Some (JStr ''data:text/plain,x''), r_raw_trace = Some (JStr ''data:text/plain,x'')\<rparr>
   in payloads (write_traces F r no_files) = [(''001.txt'', ''x''), (''002.txt'', ''x'')]"
proof -
  let ?F = "\<lparr>sha256 = (\<lambda>s. s), guess_extension = (\<lambda>m. None), guess_file_type = (\<lambda>n. None)\<rparr>"
  let ?u = "\<lparr>mime = ''text/plain'', params = [], payload = ''x'', is_base64 = False\<rparr>"
  have "parse_data_url ''data:text/plain,x'' = Some ?u" by code_simp
  note stored = payload_in_both_traces_stored_twice [OF this, where F = ?F]
  have "three_digits 1 @ mime_to_ext ?F (mime ?u) = ''001.txt''" "three_digits 2 @ mime_to_ext ?F (mime ?u) = ''002.txt''"
    by code_simp+
  then show ?thesis using stored by (simp add: Let_def)
qed

end
