(* ===== verification/Convert_Messages.thy ===== *)
theory Convert_Messages
  imports Encoding
begin

text \<open>
  Conversion of messages between the APIs of the model providers
  (eval/src/agentrl/eval/convert/messages.py, tools.py and \_base.py). Messages are JSON documents,
  as the code has them; an access that Python refuses is an error. The JSON text of tool arguments
  is read and written by two parameters.
\<close>

section \<open>Results\<close>

definition rbind :: "'a res \<Rightarrow> ('a \<Rightarrow> 'b res) \<Rightarrow> 'b res" where
  "rbind r f = (case r of Inl e \<Rightarrow> Inl e | Inr x \<Rightarrow> f x)"

lemma rbind_simps [simp]: "rbind (Inr x) f = f x" "rbind (Inl e) f = Inl e"
  by (simp_all add: rbind_def)

primrec rmap :: "('a \<Rightarrow> 'b res) \<Rightarrow> 'a list \<Rightarrow> 'b list res" where
  "rmap f [] = Inr []"
| "rmap f (x # xs) = rbind (f x) (\<lambda>y. rbind (rmap f xs) (\<lambda>ys. Inr (y # ys)))"

lemma rmap_Inr: "(\<And>x. x \<in> set xs \<Longrightarrow> f x = Inr (g x)) \<Longrightarrow> rmap f xs = Inr (map g xs)"
  by (induction xs) simp_all

text \<open>\<open>d.get(k, v)\<close>, and iteration over a document.\<close>

fun json_get :: "json \<Rightarrow> string \<Rightarrow> json \<Rightarrow> json res" where
  "json_get (JObj d) k v = Inr (dict_get_or d k v)"
| "json_get _ k v = Inl AttributeError"

fun json_iter :: "json \<Rightarrow> json list res" where
  "json_iter (JList xs) = Inr xs"
| "json_iter (JObj d) = Inr (map (\<lambda>e. JStr (fst e)) d)"
| "json_iter (JStr s) = Inr (map (\<lambda>c. JStr [c]) s)"
| "json_iter _ = Inl TypeError"

text \<open>What the loops over the parts of a content see: nothing, unless it is iterable.\<close>

fun content_parts :: "json \<Rightarrow> json list" where
  "content_parts (JList xs) = xs"
| "content_parts (JObj d) = map (\<lambda>e. JStr (fst e)) d"
| "content_parts _ = []"

text \<open>A document that is true.\<close>

definition get_true :: "json \<Rightarrow> string \<Rightarrow> bool res" where
  "get_true j k = rbind (json_get j k JNull) (\<lambda>v. Inr (json_truth v))"

definition has_type :: "json \<Rightarrow> string \<Rightarrow> bool res" where
  "has_type j t = rbind (json_get j ''type'' JNull) (\<lambda>v. Inr (v = JStr t))"

definition and_then_test :: "bool res \<Rightarrow> bool res \<Rightarrow> bool res" where
  "and_then_test a b = rbind a (\<lambda>x. if x then b else Inr False)"

section \<open>Chat messages to response items\<close>

definition text_part :: "string \<Rightarrow> json \<Rightarrow> json" where
  "text_part ty t = JObj [(''type'', JStr ty), (''text'', t)]"

definition image_url_of :: "json \<Rightarrow> json res" where
  "image_url_of part = rbind (json_get part ''image_url'' (JObj [])) (\<lambda>i. json_get i ''url'' JNull)"

definition is_image :: "json \<Rightarrow> bool res" where
  "is_image part = and_then_test (has_type part ''image_url'') (rbind (image_url_of part) (\<lambda>u. Inr (json_truth u)))"

definition is_text :: "json \<Rightarrow> bool res" where
  "is_text part = and_then_test (has_type part ''text'') (get_true part ''text'')"

text \<open>One part of a content; a part of another kind is dropped.\<close>

definition response_part :: "json \<Rightarrow> json list res" where
  "response_part part =
     rbind (is_text part) (\<lambda>t. if t then rbind (json_item part ''text'') (\<lambda>x. Inr [text_part ''input_text'' x]) else
     rbind (is_image part) (\<lambda>i. if i then
       rbind (json_item part ''image_url'') (\<lambda>u.
       rbind (json_item u ''url'') (\<lambda>url.
       rbind (json_get u ''detail'' (JStr ''auto'')) (\<lambda>detail.
       Inr [JObj [(''type'', JStr ''input_image''), (''image_url'', url), (''detail'', detail)]])))
     else Inr []))"

definition response_parts :: "json \<Rightarrow> json list res" where
  "response_parts content =
     (case content of
        JStr s \<Rightarrow> Inr [text_part ''input_text'' (JStr s)]
      | _ \<Rightarrow> rbind (rmap response_part (content_parts content)) (\<lambda>ps. Inr (concat ps)))"

text \<open>The parts of an assistant are output: \<open>replace('input\_', 'output\_')\<close> on their types.\<close>

definition output_type :: "string \<Rightarrow> string" where
  "output_type t = (if take 6 t = ''input_'' then ''output_'' @ drop 6 t else t)"

fun output_part :: "json \<Rightarrow> json" where
  "output_part (JObj ((k, JStr t) # d)) = JObj ((k, JStr (output_type t)) # d)"
| "output_part j = j"

definition or_empty_object :: "json \<Rightarrow> json" where
  "or_empty_object j = (if json_truth j then j else JStr ''{}'')"

definition call_item :: "json \<Rightarrow> json res" where
  "call_item tool_call =
     rbind (json_get tool_call ''id'' JNull) (\<lambda>call_id.
     rbind (json_get tool_call ''function'' (JObj [])) (\<lambda>f.
     rbind (json_get f ''name'' (JStr '''')) (\<lambda>name.
     rbind (json_get f ''arguments'' JNull) (\<lambda>arguments.
     Inr (JObj [(''type'', JStr ''function_call''), (''call_id'', call_id), (''name'', name),
                (''arguments'', or_empty_object arguments)])))))"

definition tool_calls_of :: "json \<Rightarrow> json list res" where
  "tool_calls_of message =
     rbind (get_true message ''tool_calls'') (\<lambda>b.
     if b then rbind (json_item message ''tool_calls'') json_iter else Inr [])"

definition response_items :: "json \<Rightarrow> json list res" where
  "response_items message =
     rbind (json_item message ''role'') (\<lambda>role.
     rbind (json_item message ''content'') (\<lambda>content.
     rbind (response_parts content) (\<lambda>parts.
     if role = JStr ''tool'' then
       rbind (json_item message ''tool_call_id'') (\<lambda>call_id.
       Inr [JObj [(''type'', JStr ''function_call_output''), (''call_id'', call_id), (''output'', JList parts)]])
     else
       (let parts' = (if role = JStr ''assistant'' then map output_part parts else parts)
        in rbind (tool_calls_of message) (\<lambda>calls.
           rbind (rmap call_item calls) (\<lambda>items.
           Inr (JObj [(''content'', JList parts'), (''role'', role), (''type'', JStr ''message'')] # items)))))))"

definition chat_to_response_input :: "json list \<Rightarrow> json list res" where
  "chat_to_response_input messages = rbind (rmap response_items messages) (\<lambda>xs. Inr (concat xs))"

section \<open>Response items to chat messages\<close>

definition chat_part :: "json \<Rightarrow> json list res" where
  "chat_part part =
     rbind (rbind (has_type part ''input_text'') (\<lambda>b.
            if b then Inr True else and_then_test (has_type part ''output_text'') (get_true part ''text''))) (\<lambda>t.
     if t then rbind (json_item part ''text'') (\<lambda>x. Inr [text_part ''text'' x]) else
     rbind (and_then_test (has_type part ''input_image'') (get_true part ''image_url'')) (\<lambda>i.
     if i then
       rbind (json_item part ''image_url'') (\<lambda>url.
       rbind (json_get part ''detail'' (JStr ''auto'')) (\<lambda>detail.
       Inr [JObj [(''type'', JStr ''image_url''), (''image_url'', JObj [(''url'', url), (''detail'', detail)])]]))
     else Inr []))"

text \<open>A single text part becomes the content itself.\<close>

fun flatten_parts :: "json list \<Rightarrow> json" where
  "flatten_parts [JObj [(k, JStr t), (k', x)]] =
     (if k = ''type'' \<and> t = ''text'' \<and> k' = ''text'' then x else JList [JObj [(k, JStr t), (k', x)]])"
| "flatten_parts ps = JList ps"

definition chat_content :: "json \<Rightarrow> json res" where
  "chat_content content =
     (case content of
        JStr s \<Rightarrow> Inr (JStr s)
      | _ \<Rightarrow> rbind (rmap chat_part (content_parts content)) (\<lambda>ps. Inr (flatten_parts (concat ps))))"

definition with_calls :: "json list \<Rightarrow> (string, json) dict \<Rightarrow> (string, json) dict" where
  "with_calls pending d = (if pending = [] then d else dict_set ''tool_calls'' (JList pending) d)"

definition call_of_item :: "json \<Rightarrow> json res" where
  "call_of_item message =
     rbind (json_item message ''call_id'') (\<lambda>call_id.
     rbind (json_item message ''name'') (\<lambda>name.
     rbind (json_item message ''arguments'') (\<lambda>arguments.
     Inr (JObj [(''id'', call_id), (''type'', JStr ''function''),
                (''function'', JObj [(''name'', name), (''arguments'', arguments)])]))))"

text \<open>The loop over the items: the messages so far, and the calls that wait for a message.\<close>

definition chat_step :: "json \<Rightarrow> (string, json) dict list \<times> json list \<Rightarrow> ((string, json) dict list \<times> json list) res" where
  "chat_step message s =
     (let (done, pending) = s in
      rbind (json_item message ''type'') (\<lambda>ty.
      if ty = JStr ''message'' then
        rbind (json_item message ''content'') (\<lambda>c.
        rbind (chat_content c) (\<lambda>content.
        rbind (json_item message ''role'') (\<lambda>role.
        Inr (done @ [with_calls pending [(''role'', role), (''content'', content)]], []))))
      else if ty = JStr ''function_call_output'' then
        rbind (json_item message ''output'') (\<lambda>c.
        rbind (chat_content c) (\<lambda>content.
        rbind (json_item message ''call_id'') (\<lambda>call_id.
        Inr (done @ [[(''role'', JStr ''tool''), (''tool_call_id'', call_id), (''content'', content)]], pending))))
      else if ty = JStr ''function_call'' then
        rbind (call_of_item message) (\<lambda>c. Inr (done, pending @ [c]))
      else Inr (done, pending)))"

primrec chat_loop :: "json list \<Rightarrow> (string, json) dict list \<times> json list \<Rightarrow> ((string, json) dict list \<times> json list) res" where
  "chat_loop [] s = Inr s"
| "chat_loop (m # ms) s = rbind (chat_step m s) (chat_loop ms)"

definition attach_pending :: "(string, json) dict list \<Rightarrow> json list \<Rightarrow> (string, json) dict list" where
  "attach_pending done pending =
     (if pending = [] then done
      else if done \<noteq> [] \<and> dict_get (last done) ''role'' \<noteq> Some (JStr ''tool'')
      then butlast done @ [with_calls pending (last done)]
      else done @ [with_calls pending [(''role'', JStr ''assistant''), (''content'', JStr '''')]])"

definition response_to_chat_input :: "json list \<Rightarrow> json list res" where
  "response_to_chat_input items =
     rbind (chat_loop items ([], [])) (\<lambda>(done, pending). Inr (map JObj (attach_pending done pending)))"

section \<open>Round trip\<close>

text \<open>Conversations of text: messages, results of tools, and calls of tools as id, name, arguments.\<close>

datatype chat_message = Plain string string | ToolResult string string

type_synonym call = "string \<times> string \<times> string"

fun chat_dict :: "chat_message \<Rightarrow> (string, json) dict" where
  "chat_dict (Plain role txt) = [(''role'', JStr role), (''content'', JStr txt)]"
| "chat_dict (ToolResult i txt) =
     [(''role'', JStr ''tool''), (''tool_call_id'', JStr i), (''content'', JStr txt)]"

fun call_json :: "call \<Rightarrow> json" where
  "call_json (i, name, arguments) =
     JObj [(''id'', JStr i), (''type'', JStr ''function''),
           (''function'', JObj [(''name'', JStr name), (''arguments'', JStr arguments)])]"

definition caller :: "string \<Rightarrow> call list \<Rightarrow> json" where
  "caller txt calls = JObj (with_calls (map call_json calls) (chat_dict (Plain ''assistant'' txt)))"

text \<open>A message that is not the result of a tool does not have its role.\<close>

fun convertible :: "chat_message \<Rightarrow> bool" where
  "convertible (Plain role txt) \<longleftrightarrow> role \<noteq> ''tool''"
| "convertible (ToolResult i txt) \<longleftrightarrow> True"

text \<open>
  What comes back: the empty text of an assistant as a list without parts, empty arguments as those of
  an empty object, and everything else as it was.
\<close>

definition empty_text :: "chat_message \<Rightarrow> bool" where
  "empty_text x \<longleftrightarrow> x = Plain ''assistant'' ''''"

definition back_dict :: "chat_message \<Rightarrow> (string, json) dict" where
  "back_dict x = (if empty_text x then [(''role'', JStr ''assistant''), (''content'', JList [])] else chat_dict x)"

fun back_call :: "call \<Rightarrow> call" where
  "back_call (i, name, arguments) = (i, name, if arguments = '''' then ''{}'' else arguments)"

fun message_item :: "chat_message \<Rightarrow> json" where
  "message_item (Plain role txt) =
     JObj [(''content'', JList [text_part (if role = ''assistant'' then ''output_text'' else ''input_text'') (JStr txt)]),
           (''role'', JStr role), (''type'', JStr ''message'')]"
| "message_item (ToolResult i txt) =
     JObj [(''type'', JStr ''function_call_output''), (''call_id'', JStr i),
           (''output'', JList [text_part ''input_text'' (JStr txt)])]"

fun item_of_call :: "call \<Rightarrow> json" where
  "item_of_call (i, name, arguments) =
     JObj [(''type'', JStr ''function_call''), (''call_id'', JStr i), (''name'', JStr name),
           (''arguments'', JStr arguments)]"

lemma items_of_message: "convertible x \<Longrightarrow> response_items (JObj (chat_dict x)) = Inr [message_item x]"
  by (cases x) (auto simp: response_items_def response_parts_def tool_calls_of_def get_true_def dict_get_or_def
      text_part_def output_type_def)

lemma items_of_caller:
  "response_items (caller txt calls) =
     Inr (message_item (Plain ''assistant'' txt) # map (item_of_call \<circ> back_call) calls)"
proof -
  have "rmap call_item (map call_json calls) = Inr (map (item_of_call \<circ> back_call) calls)"
    by (induction calls) (auto simp: call_item_def dict_get_or_def or_empty_object_def)
  then show ?thesis
    by (simp add: caller_def with_calls_def response_items_def response_parts_def tool_calls_of_def get_true_def
        dict_get_or_def text_part_def output_type_def)
qed

lemma step_of_message:
  "convertible x \<Longrightarrow> chat_step (message_item x) (done, pending) =
     Inr (case x of Plain role txt \<Rightarrow> (done @ [with_calls pending (back_dict x)], [])
          | ToolResult i txt \<Rightarrow> (done @ [back_dict x], pending))"
  by (cases x) (auto simp: chat_step_def chat_content_def chat_part_def has_type_def get_true_def and_then_test_def
      dict_get_or_def text_part_def back_dict_def empty_text_def)

lemma step_of_call: "chat_step (item_of_call c) (done, pending) = Inr (done, pending @ [call_json c])"
  by (cases c) (simp add: chat_step_def call_of_item_def)

declare message_item.simps [simp del] item_of_call.simps [simp del]

lemma loop_append: "chat_loop (xs @ ys) s = rbind (chat_loop xs s) (chat_loop ys)"
  by (induction xs arbitrary: s) (simp_all add: rbind_def split: sum.split)

lemma loop_of_messages:
  "\<forall>x \<in> set xs. convertible x \<Longrightarrow>
     chat_loop (map message_item xs) (done, []) = Inr (done @ map back_dict xs, [])"
proof (induction xs arbitrary: "done")
  case (Cons x xs)
  have "chat_step (message_item x) (done, []) = Inr (done @ [back_dict x], [])"
    using step_of_message [of x "done" "[]"] Cons.prems by (cases x) (simp_all add: with_calls_def)
  with Cons show ?case by simp
qed simp

lemma loop_of_calls:
  "chat_loop (map item_of_call calls) (done, pending) = Inr (done, pending @ map call_json calls)"
  by (induction calls arbitrary: pending) (simp_all add: step_of_call)

lemma back_dict_same: "back_dict x = chat_dict x \<longleftrightarrow> \<not> empty_text x"
  by (auto simp: back_dict_def empty_text_def)

lemma back_call_same: "call_json (back_call c) = call_json c \<longleftrightarrow> snd (snd c) \<noteq> ''''"
  by (cases c) auto

lemma caller_same:
  "JObj (with_calls (map (call_json \<circ> back_call) calls) (back_dict (Plain ''assistant'' txt))) = caller txt calls \<longleftrightarrow>
     txt \<noteq> '''' \<and> (\<forall>c \<in> set calls. snd (snd c) \<noteq> '''')"
proof -
  have "with_calls cs (back_dict (Plain ''assistant'' txt)) = with_calls ds (chat_dict (Plain ''assistant'' txt)) \<longleftrightarrow>
      txt \<noteq> '''' \<and> cs = ds" for cs ds
    by (auto simp: with_calls_def back_dict_def empty_text_def)
  then show ?thesis by (auto simp: caller_def back_call_same)
qed

text \<open>
  C19: what the way through the Responses API does to chat messages. A conversation of texts and tool
  results that ends with an assistant, in which only this last message may call tools, is converted to
  response items and back with its messages and calls in order; an empty text of an assistant becomes
  a content without parts, and empty arguments become \<open>\{\}\<close>. So it comes back as it was exactly if no assistant,
  the last one included, has an empty text and no call has empty arguments.
\<close>

theorem chat_responses_roundtrip:
  assumes "\<forall>x \<in> set xs. convertible x"
  shows "rbind (chat_to_response_input (map (JObj \<circ> chat_dict) xs @ [caller txt calls])) response_to_chat_input =
           Inr (map (JObj \<circ> back_dict) xs @
                [JObj (with_calls (map (call_json \<circ> back_call) calls) (back_dict (Plain ''assistant'' txt)))]) \<and>
    (rbind (chat_to_response_input (map (JObj \<circ> chat_dict) xs @ [caller txt calls])) response_to_chat_input =
       Inr (map (JObj \<circ> chat_dict) xs @ [caller txt calls]) \<longleftrightarrow>
     Plain ''assistant'' '''' \<notin> set xs \<and> txt \<noteq> '''' \<and> '''' \<notin> set (map (\<lambda>c. snd (snd c)) calls))"
proof -
  let ?last = "Plain ''assistant'' txt"
  have "rmap response_items (map (JObj \<circ> chat_dict) xs @ [caller txt calls]) =
      Inr (map (\<lambda>x. [message_item x]) xs @ [message_item ?last # map (item_of_call \<circ> back_call) calls])"
    using assms by (induction xs) (simp_all add: items_of_message items_of_caller)
  then have items: "chat_to_response_input (map (JObj \<circ> chat_dict) xs @ [caller txt calls]) =
      Inr (map message_item (xs @ [?last]) @ map item_of_call (map back_call calls))"
    by (simp add: chat_to_response_input_def)
  have "\<forall>x \<in> set (xs @ [?last]). convertible x" using assms by simp
  from loop_of_messages [OF this, of "[]"]
  have "chat_loop (map message_item (xs @ [?last]) @ map item_of_call (map back_call calls)) ([], []) =
      Inr (map back_dict (xs @ [?last]), map call_json (map back_call calls))"
    by (simp only: loop_append rbind_simps loop_of_calls append_Nil)
  moreover have "dict_get (back_dict ?last) ''role'' = Some (JStr ''assistant'')"
    by (simp add: back_dict_def empty_text_def)
  ultimately have "rbind (chat_to_response_input (map (JObj \<circ> chat_dict) xs @ [caller txt calls])) response_to_chat_input =
      Inr (map (JObj \<circ> back_dict) xs @ [JObj (with_calls (map (call_json \<circ> back_call) calls) (back_dict ?last))])"
    unfolding items by (simp add: response_to_chat_input_def attach_pending_def with_calls_def)
  moreover have "map (JObj \<circ> back_dict) xs = map (JObj \<circ> chat_dict) xs \<longleftrightarrow> Plain ''assistant'' '''' \<notin> set xs"
    by (auto simp: back_dict_same empty_text_def)
  ultimately show ?thesis
    by (simp add: caller_same image_iff) metis
qed

lemma chat_responses_roundtrip_witness:
  "let ms = [JObj [(''role'', JStr ''user''), (''content'', JStr ''add'')], caller ''calling'' [(''c1'', ''sum'', ''{}'')]];
       es = [JObj [(''role'', JStr ''user''), (''content'', JStr ''add'')], caller '''' [(''c1'', ''sum'', '''')]]
   in rbind (chat_to_response_input ms) response_to_chat_input = Inr ms \<and>
      rbind (chat_to_response_input es) response_to_chat_input \<noteq> Inr es"
  using chat_responses_roundtrip [THEN conjunct2, of "[Plain ''user'' ''add'']" "''calling''" "[(''c1'', ''sum'', ''{}'')]"]
    chat_responses_roundtrip [THEN conjunct2, of "[Plain ''user'' ''add'']" "''''" "[(''c1'', ''sum'', '''')]"]
  by (simp del: back_call.simps)

text \<open>
  A call that is answered moves to the message behind the answer: pending calls are attached to the
  next message, whatever its role, and a tool result does not attach them.
\<close>

lemma answered_calls_move:
  assumes "txt \<noteq> ''''" and "arguments \<noteq> ''''"
  shows "rbind (chat_to_response_input
            [caller txt [(i, name, arguments)], JObj (chat_dict (ToolResult i answer)), JObj (chat_dict (Plain ''user'' u))])
          response_to_chat_input =
     Inr [JObj (chat_dict (Plain ''assistant'' txt)), JObj (chat_dict (ToolResult i answer)),
          JObj (with_calls [call_json (i, name, arguments)] (chat_dict (Plain ''user'' u)))]"
proof -
  have steps: "chat_step (message_item (Plain ''assistant'' txt)) ([], []) = Inr ([chat_dict (Plain ''assistant'' txt)], [])"
    using step_of_message [of "Plain ''assistant'' txt" "[]" "[]"] assms(1)
    by (simp add: with_calls_def back_dict_def empty_text_def)
  have same: "back_dict (ToolResult i answer) = chat_dict (ToolResult i answer)" "back_dict (Plain ''user'' u) = chat_dict (Plain ''user'' u)"
    by (simp_all add: back_dict_def empty_text_def)
  show ?thesis
    using assms step_of_message [of "ToolResult i answer"] step_of_message [of "Plain ''user'' u"]
    by (simp add: chat_to_response_input_def items_of_caller items_of_message response_to_chat_input_def steps same
        step_of_call attach_pending_def del: chat_dict.simps call_json.simps)
qed

section \<open>Chat messages to Anthropic messages\<close>

text \<open>\<open>s.split(c, maxsplit=1)\<close>: what is before the first \<open>c\<close>, and what is behind it, if there is one.\<close>

definition before_first :: "char \<Rightarrow> string \<Rightarrow> string" where
  "before_first c s = takeWhile (\<lambda>x. x \<noteq> c) s"

definition behind_first :: "char \<Rightarrow> string \<Rightarrow> string res" where
  "behind_first c s = (case dropWhile (\<lambda>x. x \<noteq> c) s of [] \<Rightarrow> Inl IndexError | _ # t \<Rightarrow> Inr t)"

definition image_types :: "string list" where
  "image_types = [''image/jpeg'', ''image/png'', ''image/gif'', ''image/webp'']"

fun str_of_url :: "json \<Rightarrow> string res" where
  "str_of_url (JStr s) = Inr s"
| "str_of_url _ = Inl AttributeError"

definition image_source :: "string \<Rightarrow> json res" where
  "image_source url =
     (if take 5 url = ''data:'' then
        (let media_type = drop 5 (before_first (CHR '';'') url)
         in if media_type \<notin> set image_types then Inl ConversionError
            else rbind (behind_first (CHR '','') url) (\<lambda>d.
                 Inr (JObj [(''type'', JStr ''base64''), (''media_type'', JStr media_type), (''data'', JStr d)])))
      else Inr (JObj [(''type'', JStr ''url''), (''url'', JStr url)]))"

definition anthropic_part :: "json \<Rightarrow> json list res" where
  "anthropic_part part =
     rbind (is_text part) (\<lambda>t. if t then rbind (json_item part ''text'') (\<lambda>x. Inr [text_part ''text'' x]) else
     rbind (is_image part) (\<lambda>i. if i then
       rbind (json_item part ''image_url'') (\<lambda>u.
       rbind (json_item u ''url'') (\<lambda>url.
       rbind (str_of_url url) (\<lambda>s.
       rbind (image_source s) (\<lambda>source.
       Inr [JObj [(''type'', JStr ''image''), (''source'', source)]]))))
     else Inr []))"

definition anthropic_parts :: "json \<Rightarrow> json list res" where
  "anthropic_parts content =
     (case content of
        JStr s \<Rightarrow> Inr [text_part ''text'' (JStr s)]
      | _ \<Rightarrow> rbind (rmap anthropic_part (content_parts content)) (\<lambda>ps. Inr (concat ps)))"

definition tool_use :: "(json \<Rightarrow> json res) \<Rightarrow> json \<Rightarrow> json res" where
  "tool_use loads tool_call =
     rbind (json_get tool_call ''id'' JNull) (\<lambda>i.
     rbind (json_get tool_call ''function'' (JObj [])) (\<lambda>f.
     rbind (json_get f ''name'' JNull) (\<lambda>name.
     rbind (json_get f ''arguments'' JNull) (\<lambda>arguments.
     rbind (loads (or_empty_object arguments)) (\<lambda>inp.
     Inr (JObj [(''type'', JStr ''tool_use''), (''id'', i), (''name'', name), (''input'', inp)]))))))"

definition anthropic_blocks :: "(json \<Rightarrow> json res) \<Rightarrow> json \<Rightarrow> json \<Rightarrow> json list res" where
  "anthropic_blocks loads role message =
     rbind (json_item message ''content'') (\<lambda>content.
     rbind (anthropic_parts content) (\<lambda>parts.
     if role = JStr ''tool'' then
       rbind (json_item message ''tool_call_id'') (\<lambda>i.
       Inr [JObj [(''type'', JStr ''tool_result''), (''tool_use_id'', i), (''content'', JList parts)]])
     else
       rbind (tool_calls_of message) (\<lambda>calls.
       rbind (rmap (tool_use loads) calls) (\<lambda>uses.
       Inr (parts @ uses)))))"

definition anthropic_role :: "json \<Rightarrow> string" where
  "anthropic_role role = (if role = JStr ''assistant'' then ''assistant'' else ''user'')"

primrec anthropic_loop :: "(json \<Rightarrow> json res) \<Rightarrow> json list \<Rightarrow> string option \<Rightarrow> json list \<Rightarrow> (string option \<times> json list) res" where
  "anthropic_loop loads [] r blocks = Inr (r, blocks)"
| "anthropic_loop loads (message # ms) r blocks =
     rbind (json_item message ''role'') (\<lambda>role.
     if role = JStr ''system'' \<or> role = JStr ''developer'' then Inl ConversionError
     else if r \<noteq> None \<and> r \<noteq> Some (anthropic_role role) then Inl ConversionError
     else rbind (anthropic_blocks loads role message) (\<lambda>bs.
          anthropic_loop loads ms (Some (anthropic_role role)) (blocks @ bs)))"

definition chat_to_anthropic_input :: "(json \<Rightarrow> json res) \<Rightarrow> json list \<Rightarrow> json res" where
  "chat_to_anthropic_input loads messages =
     rbind (anthropic_loop loads messages None []) (\<lambda>(r, blocks).
     case r of
       None \<Rightarrow> Inl ConversionError
     | Some role \<Rightarrow>
         if blocks = [] then Inl ConversionError
         else Inr (JObj [(''role'', JStr role), (''content'', JList blocks)]))"

definition system_part :: "json \<Rightarrow> json list res" where
  "system_part part =
     (case part of
        JObj d \<Rightarrow> (if json_truth (dict_get_or d ''text'' JNull)
                  then Inr [text_part ''text'' (dict_get_or d ''text'' JNull)] else Inr [])
      | _ \<Rightarrow> Inr [])"

definition system_blocks :: "json \<Rightarrow> json list res" where
  "system_blocks message =
     rbind (json_item message ''role'') (\<lambda>role.
     if role = JStr ''system'' \<or> role = JStr ''developer'' then
       rbind (json_item message ''content'') (\<lambda>content.
       case content of
         JStr s \<Rightarrow> Inr [text_part ''text'' (JStr s)]
       | _ \<Rightarrow> rbind (rmap system_part (content_parts content)) (\<lambda>ps. Inr (concat ps)))
     else Inr [])"

definition chat_to_anthropic_system :: "json list \<Rightarrow> json list res" where
  "chat_to_anthropic_system messages =
     rbind (rmap system_blocks messages) (\<lambda>bs.
     if concat bs = [] then Inl ConversionError else Inr (concat bs))"

section \<open>Anthropic messages to chat messages\<close>

text \<open>
  The parts of a block of text or of an image. The URL is formatted from the media type and the
  data; \<open>str_of\<close> is \<open>str\<close> on what is not a string.
\<close>

definition as_string :: "(json \<Rightarrow> string) \<Rightarrow> json \<Rightarrow> string" where
  "as_string str_of j = (case j of JStr s \<Rightarrow> s | _ \<Rightarrow> str_of j)"

definition chat_image :: "(json \<Rightarrow> string) \<Rightarrow> json \<Rightarrow> json list res" where
  "chat_image str_of block =
     rbind (json_item block ''source'') (\<lambda>source.
     rbind (json_item source ''type'') (\<lambda>ty.
     if ty = JStr ''base64'' then
       rbind (json_item source ''media_type'') (\<lambda>media_type.
       rbind (json_item source ''data'') (\<lambda>d.
       Inr [JObj [(''type'', JStr ''image_url''),
                  (''image_url'', JObj [(''url'', JStr (''data:'' @ as_string str_of media_type @ '';base64,'' @ as_string str_of d)),
                                        (''detail'', JStr ''auto'')])]]))
     else if ty = JStr ''url'' then
       rbind (json_item source ''url'') (\<lambda>url.
       Inr [JObj [(''type'', JStr ''image_url''), (''image_url'', JObj [(''url'', url), (''detail'', JStr ''auto'')])]])
     else Inr []))"

definition chat_block :: "(json \<Rightarrow> string) \<Rightarrow> json \<Rightarrow> json list res" where
  "chat_block str_of block =
     rbind (json_item block ''type'') (\<lambda>ty.
     if ty = JStr ''text'' then rbind (json_item block ''text'') (\<lambda>x. Inr [text_part ''text'' x])
     else if ty = JStr ''image'' then chat_image str_of block
     else Inr [])"

record anthropic_state =
  results :: "json list"
  parts :: "json list"
  tool_calls :: "json list"

definition tool_message :: "(json \<Rightarrow> string) \<Rightarrow> json \<Rightarrow> json res" where
  "tool_message str_of block =
     rbind (rbind (json_item block ''content'') json_iter) (\<lambda>subs.
     rbind (rmap (chat_block str_of) subs) (\<lambda>ps.
     rbind (json_item block ''tool_use_id'') (\<lambda>i.
     Inr (JObj [(''role'', JStr ''tool''), (''tool_call_id'', i), (''content'', flatten_parts (concat ps))]))))"

definition anthropic_step :: "(json \<Rightarrow> string) \<Rightarrow> (json \<Rightarrow> string) \<Rightarrow> json \<Rightarrow> json \<Rightarrow> anthropic_state \<Rightarrow> anthropic_state res" where
  "anthropic_step str_of dumps role block s =
     rbind (json_item block ''type'') (\<lambda>ty.
     if ty = JStr ''tool_result'' then
       rbind (tool_message str_of block) (\<lambda>m. Inr (s\<lparr>results := results s @ [m]\<rparr>))
     else if ty = JStr ''text'' \<or> ty = JStr ''image'' then
       rbind (chat_block str_of block) (\<lambda>ps. Inr (s\<lparr>parts := parts s @ ps\<rparr>))
     else if role = JStr ''assistant'' \<and> ty = JStr ''tool_use'' then
       rbind (json_item block ''id'') (\<lambda>i.
       rbind (json_item block ''name'') (\<lambda>name.
       rbind (json_item block ''input'') (\<lambda>inp.
       Inr (s\<lparr>tool_calls := tool_calls s @ [JObj [(''id'', i), (''type'', JStr ''function''),
         (''function'', JObj [(''name'', name), (''arguments'', JStr (dumps inp))])]]\<rparr>))))
     else Inr s)"

primrec anthropic_steps :: "(json \<Rightarrow> string) \<Rightarrow> (json \<Rightarrow> string) \<Rightarrow> json \<Rightarrow> json list \<Rightarrow> anthropic_state \<Rightarrow> anthropic_state res" where
  "anthropic_steps str_of dumps role [] s = Inr s"
| "anthropic_steps str_of dumps role (b # bs) s = rbind (anthropic_step str_of dumps role b s) (anthropic_steps str_of dumps role bs)"

definition anthropic_to_chat_input :: "(json \<Rightarrow> string) \<Rightarrow> (json \<Rightarrow> string) \<Rightarrow> json \<Rightarrow> json list res" where
  "anthropic_to_chat_input str_of dumps content =
     rbind (rbind (json_item content ''content'') json_iter) (\<lambda>blocks.
     rbind (json_item content ''role'') (\<lambda>role.
     rbind (anthropic_steps str_of dumps role blocks \<lparr>results = [], parts = [], tool_calls = []\<rparr>) (\<lambda>s.
     (let flat = flatten_parts (parts s)
      in if role = JStr ''assistant'' then
           Inr (results s @ [JObj [(''role'', JStr ''assistant''),
             (''content'', if json_truth flat \<or> tool_calls s = [] then flat else JNull),
             (''tool_calls'', JList (tool_calls s))]])
         else Inr (results s @ [JObj [(''role'', JStr ''user''), (''content'', flat)]])))))"

definition anthropic_system_to_chat :: "json list \<Rightarrow> json list res" where
  "anthropic_system_to_chat blocks =
     rbind (rmap (\<lambda>b. rbind (json_item b ''text'') (\<lambda>x. Inr (text_part ''text'' x))) blocks) (\<lambda>ps.
     Inr [JObj [(''role'', JStr ''system''), (''content'', JList ps)]])"

definition anthropic_system_to_response :: "json list \<Rightarrow> json list res" where
  "anthropic_system_to_response blocks =
     rbind (rmap (\<lambda>b. rbind (json_item b ''text'') (\<lambda>x. Inr (text_part ''input_text'' x))) blocks) (\<lambda>ps.
     Inr [JObj [(''type'', JStr ''message''), (''role'', JStr ''system''), (''content'', JList ps)]])"

text \<open>
  A message of tool results alone comes back from Anthropic's form with an empty message of the
  user behind it, because the message that collects the other blocks is always added.
\<close>

lemma tool_result_gains_user_message:
  "rbind (chat_to_anthropic_input loads [JObj (chat_dict (ToolResult i txt))]) (anthropic_to_chat_input str_of dumps) =
     Inr [JObj (chat_dict (ToolResult i txt)), JObj [(''role'', JStr ''user''), (''content'', JList [])]]"
  by (simp add: chat_to_anthropic_input_def anthropic_blocks_def anthropic_parts_def anthropic_role_def text_part_def
      anthropic_to_chat_input_def anthropic_step_def tool_message_def chat_block_def)

section \<open>Converting a conversation\<close>

text \<open>\<open>convert\_all\<close>: a record that cannot be converted is skipped, if such errors are to be ignored.\<close>

primrec convert_all :: "('a \<Rightarrow> json list res) \<Rightarrow> bool \<Rightarrow> 'a list \<Rightarrow> json list res" where
  "convert_all f ignore_errors [] = Inr []"
| "convert_all f ignore_errors (x # xs) =
     (case f x of
        Inl e \<Rightarrow> if e = ConversionError \<and> ignore_errors then convert_all f ignore_errors xs else Inl e
      | Inr ys \<Rightarrow> rbind (convert_all f ignore_errors xs) (\<lambda>zs. Inr (ys @ zs)))"

section \<open>Tool definitions\<close>

text \<open>The three forms of a tool: chat completion, response, Anthropic.\<close>

definition response_tool :: "json \<Rightarrow> json \<Rightarrow> json \<Rightarrow> json" where
  "response_tool name ps descr =
     JObj [(''name'', name), (''parameters'', ps), (''strict'', JBool False), (''type'', JStr ''function''),
           (''description'', descr)]"

definition chat_tool :: "json \<Rightarrow> json \<Rightarrow> json \<Rightarrow> json" where
  "chat_tool name ps descr =
     JObj [(''type'', JStr ''function''),
           (''function'', JObj [(''name'', name), (''description'', descr), (''parameters'', ps), (''strict'', JBool False)])]"

definition anthropic_tool :: "json \<Rightarrow> json \<Rightarrow> json \<Rightarrow> json" where
  "anthropic_tool name ps descr =
     JObj [(''input_schema'', ps), (''name'', name), (''description'', descr), (''type'', JStr ''custom'')]"

definition tool_fields :: "string \<Rightarrow> (json \<Rightarrow> json \<Rightarrow> json \<Rightarrow> json) \<Rightarrow> json \<Rightarrow> json res" where
  "tool_fields key build f =
     rbind (json_item f ''name'') (\<lambda>name.
     rbind (json_item f key) (\<lambda>ps.
     rbind (json_get f ''description'' (JStr '''')) (\<lambda>descr.
     Inr (build name ps descr))))"

definition chat_tool_to :: "(json \<Rightarrow> json \<Rightarrow> json \<Rightarrow> json) \<Rightarrow> json \<Rightarrow> json res" where
  "chat_tool_to build content = rbind (json_item content ''function'') (tool_fields ''parameters'' build)"

definition response_tool_to :: "(json \<Rightarrow> json \<Rightarrow> json \<Rightarrow> json) \<Rightarrow> json \<Rightarrow> json res" where
  "response_tool_to = tool_fields ''parameters''"

definition anthropic_tool_to :: "(json \<Rightarrow> json \<Rightarrow> json \<Rightarrow> json) \<Rightarrow> json \<Rightarrow> json res" where
  "anthropic_tool_to = tool_fields ''input_schema''"

text \<open>Name, parameters and description survive every way through the three forms.\<close>

lemma tool_conversions:
  "chat_tool_to response_tool (chat_tool n p d) = Inr (response_tool n p d)"
  "chat_tool_to anthropic_tool (chat_tool n p d) = Inr (anthropic_tool n p d)"
  "response_tool_to chat_tool (response_tool n p d) = Inr (chat_tool n p d)"
  "response_tool_to anthropic_tool (response_tool n p d) = Inr (anthropic_tool n p d)"
  "anthropic_tool_to chat_tool (anthropic_tool n p d) = Inr (chat_tool n p d)"
  "anthropic_tool_to response_tool (anthropic_tool n p d) = Inr (response_tool n p d)"
  by (simp_all add: chat_tool_to_def response_tool_to_def anthropic_tool_to_def tool_fields_def chat_tool_def
      response_tool_def anthropic_tool_def dict_get_or_def)

end
