(* ===== verification/Eval_Workflow.thy ===== *)
theory Eval_Workflow
  imports Eval_Types Convert_Messages
begin

text \<open>
  One sample of an evaluation (eval/src/agentrl/eval/session/controller.py and workflow.py): the
  client of the controller and the workflow that starts a session, lets a model and the environment
  answer each other, and ends it. The HTTP transport, the validation of fields, the models, the
  random choice among them and the texts of exceptions are parameters. A renewal that falls due
  while a model is asked is taken after its answer.
\<close>

section \<open>The controller client\<close>

record http_response =
  failed :: bool
  body :: json
  session_header :: "string option"

record 'w http =
  get_request :: "string \<Rightarrow> (string \<times> string) list \<Rightarrow> ('w, http_response) proc"
  post_request :: "string \<Rightarrow> int option \<Rightarrow> json \<Rightarrow> ('w, http_response) proc"
  validate_answer :: "json \<Rightarrow> answer res"

text \<open>A response with an error status becomes a RuntimeError.\<close>

definition raise_for_status :: "http_response \<Rightarrow> ('w, unit) proc" where
  "raise_for_status r = (if failed r then raise RuntimeError else ret ())"

definition get_indices :: "'w http \<Rightarrow> string \<Rightarrow> ('w, json) proc" where
  "get_indices H task =
     bnd (get_request H ''get_indices'' [(''name'', task)]) (\<lambda>r.
     andthen (raise_for_status r) (ret (body r)))"

definition index_json :: "task_index \<Rightarrow> json" where
  "index_json i = (case i of IntIx n \<Rightarrow> JInt n | StrIx s \<Rightarrow> JStr s)"

definition start_body :: "string \<Rightarrow> task_index \<Rightarrow> (string, json) dict option \<Rightarrow> json res" where
  "start_body task index custom =
     (let fields = (\<lambda>i c. JObj [(''name'', JStr task), (''index'', index_json i), (''custom_task'', c)])
      in if custom \<noteq> None \<and> custom \<noteq> Some [] then
           Inr (fields (IntIx (- 1))
             (JObj (if index \<noteq> IntIx (- 1) then dict_set ''index'' (index_json index) (the custom) else the custom)))
         else if index = IntIx (- 1) then Inl AssertionError
         else Inr (fields index JNull))"

definition answer_of :: "'w http \<Rightarrow> http_response \<Rightarrow> ('w, answer) proc" where
  "answer_of H r = lift_res (rbind (validate_answer H (body r)) messages_not_empty)"

definition client_start_sample ::
    "'w http \<Rightarrow> string \<Rightarrow> task_index \<Rightarrow> (string, json) dict option \<Rightarrow> ('w, int \<times> answer) proc" where
  "client_start_sample H task index custom =
     bnd (lift_res (start_body task index custom)) (\<lambda>j.
     bnd (post_request H ''start_sample'' None j) (\<lambda>r.
     andthen (raise_for_status r)
       (case session_header r of
          None \<Rightarrow> raise KeyError
        | Some h \<Rightarrow>
            (case parse_int h of
               None \<Rightarrow> raise ValueError
             | Some i \<Rightarrow> bnd (answer_of H r) (\<lambda>a. ret (i, a))))))"

definition client_interact :: "'w http \<Rightarrow> int \<Rightarrow> json list \<Rightarrow> ('w, answer) proc" where
  "client_interact H i messages =
     bnd (post_request H ''interact'' (Some i) (JObj [(''messages'', JList messages)])) (\<lambda>r.
     andthen (raise_for_status r) (answer_of H r))"

definition client_renew :: "'w http \<Rightarrow> int \<Rightarrow> ('w, unit) proc" where
  "client_renew H i =
     bnd (client_interact H i [JObj [(''role'', JStr ''assistant''), (''content'', JStr '''')]]) (\<lambda>_. ret ())"

definition client_cancel :: "'w http \<Rightarrow> int \<Rightarrow> ('w, unit) proc" where
  "client_cancel H i = bnd (post_request H ''cancel'' (Some i) JNull) (\<lambda>_. ret ())"

section \<open>The history\<close>

text \<open>A record of the history: chat messages of the environment, or what a model client returned.\<close>

datatype 'm message_record = ChatInput "json list" | ModelOutput 'm

text \<open>
  \<open>_set_messages\<close> appends to the list of the workflow itself, unless it is empty or a system
  message has started a new one; \<open>own\<close> says that the list is still the one of the workflow.
\<close>

record 'm slicing =
  slices :: "'m message_record list"
  current_slice :: "json list"
  own :: bool

definition flush :: "'m slicing \<Rightarrow> 'm message_record list" where
  "flush s = slices s @ (if current_slice s \<noteq> [] then [ChatInput (current_slice s)] else [])"

definition slice_step :: "json \<Rightarrow> ('m slicing, unit) proc" where
  "slice_step message =
     bnd (lift_res (json_item message ''role'')) (\<lambda>role.
     if role = JStr ''system'' \<or> role = JStr ''developer'' then
       modify (\<lambda>s. s\<lparr>slices := [ChatInput [message]], current_slice := [], own := False\<rparr>)
     else if role = JStr ''assistant'' \<or> role = JStr ''tool'' then
       modify (\<lambda>s. s\<lparr>slices := flush s @ [ChatInput [message]], current_slice := []\<rparr>)
     else modify (\<lambda>s. s\<lparr>current_slice := current_slice s @ [message]\<rparr>))"

definition set_messages :: "json list option \<Rightarrow> ('m message_record list, unit) proc" where
  "set_messages messages h =
     (case messages of
        None \<Rightarrow> (Inl TypeError, h)
      | Some ms \<Rightarrow>
          (case each slice_step ms \<lparr>slices = h, current_slice = [], own = (h \<noteq> [])\<rparr> of
             (Inl e, s) \<Rightarrow> (Inl e, if own s then slices s else h)
           | (Inr _, s) \<Rightarrow> (Inr (), flush s)))"

section \<open>The workflow\<close>

record ('w, 'm) flow_env =
  http :: "'w http"
  models :: "('m message_record list \<Rightarrow> json list \<Rightarrow> string \<Rightarrow> ('w, 'm message_record list) proc) list"
  choice :: "nat \<Rightarrow> ('w, nat) proc"
  renewals_due :: "('w, nat) proc"
  started_callback :: "int \<Rightarrow> ('w, unit) proc"
  output_to_chat :: "'m \<Rightarrow> json list res"
  output_dump :: "'m \<Rightarrow> json list"
  score_of :: "json \<Rightarrow> rat res"
  error_text :: "py_error \<Rightarrow> string"
  controller_renew :: bool
  start_only :: bool

record 'm flow =
  session_id :: "int option"
  messages :: "'m message_record list"
  tools :: "json list"

type_synonym ('w, 'm, 'a) flow_proc = "('w \<times> 'm flow, 'a) proc"

definition on_flow :: "('m flow, 'a) proc \<Rightarrow> ('w, 'm, 'a) flow_proc" where
  "on_flow = zoom snd (\<lambda>f s. (fst s, f))"

definition dump_record :: "('m \<Rightarrow> json list) \<Rightarrow> 'm message_record \<Rightarrow> json list" where
  "dump_record f r = (case r of ChatInput ms \<Rightarrow> ms | ModelOutput m \<Rightarrow> f m)"

definition record_to_chat :: "('m \<Rightarrow> json list res) \<Rightarrow> 'm message_record \<Rightarrow> json list res" where
  "record_to_chat f r = (case r of ChatInput ms \<Rightarrow> Inr ms | ModelOutput m \<Rightarrow> f m)"

definition client_complete :: "('w, 'm) flow_env \<Rightarrow> run_spec \<Rightarrow> status \<Rightarrow> string \<Rightarrow> ('w, 'm, run_result) flow_proc" where
  "client_complete E s st message = gets (\<lambda>(w, f).
     \<lparr>r_model = sp_model s, r_session = session_id f, r_run = sp_run s, r_task = sp_task s, r_index = sp_index s,
      r_status = st, r_reward = None, r_score = None, r_metrics = None, r_result = Some (JStr message),
      r_task_trace = None, r_raw_trace = Some (JList (concat (map (dump_record (output_dump E)) (messages f))))\<rparr>)"

text \<open>The score and the trace leave the metrics; a result needs a status.\<close>

definition server_complete :: "('w, 'm) flow_env \<Rightarrow> run_spec \<Rightarrow> answer \<Rightarrow> ('w, 'm, run_result) flow_proc" where
  "server_complete E s a =
     (let metrics = (case a_metrics a of None \<Rightarrow> [] | Some d \<Rightarrow> d);
          score = (case dict_get metrics ''score'' of
                     None \<Rightarrow> Inr None
                   | Some j \<Rightarrow> if j = JNull then Inr None else rbind (score_of E j) (\<lambda>x. Inr (Some x)))
      in bnd (lift_res score) (\<lambda>sc.
         case a_status a of
           None \<Rightarrow> raise ValueError
         | Some st \<Rightarrow> gets (\<lambda>(w, f).
             \<lparr>r_model = sp_model s, r_session = session_id f, r_run = sp_run s, r_task = sp_task s, r_index = sp_index s,
              r_status = st, r_reward = a_reward a, r_score = sc,
              r_metrics = map_option (\<lambda>d. dict_del ''trace'' (dict_del ''score'' d)) (a_metrics a),
              r_result = a_result a, r_task_trace = (if dict_get metrics ''trace'' = Some JNull then None else dict_get metrics ''trace''),
              r_raw_trace = Some (JList (concat (map (dump_record (output_dump E)) (messages f))))\<rparr>)))"

definition flow_cancel :: "('w, 'm) flow_env \<Rightarrow> ('w, 'm, unit) flow_proc" where
  "flow_cancel E =
     bnd (gets (\<lambda>s. session_id (snd s))) (\<lambda>sid.
     case sid of
       None \<Rightarrow> ret ()
     | Some i \<Rightarrow>
         andthen (catch (on_first (client_cancel (http E) i)) (\<lambda>_. ret ()))
           (on_flow (modify (\<lambda>f. f\<lparr>session_id := None\<rparr>))))"

text \<open>Up to ten tries to start, of which only an HTTPStatusError leads to the next.\<close>

primrec start_tries :: "('w, 'm) flow_env \<Rightarrow> run_spec \<Rightarrow> nat \<Rightarrow> ('w, int \<times> answer) proc" where
  "start_tries E s 0 = raise RuntimeError"
| "start_tries E s (Suc n) =
     catch (client_start_sample (http E) (sp_task s) (sp_index s) (sp_custom s))
       (\<lambda>e. if e = HTTPStatusError \<and> n \<noteq> 0 then start_tries E s n else raise e)"

definition set_tools :: "json list option \<Rightarrow> ('m flow, unit) proc" where
  "set_tools ts =
     modify (\<lambda>f. case ts of None \<Rightarrow> f | Some ts \<Rightarrow> if ts = [] then f else f\<lparr>tools := ts\<rparr>)"

definition renew_session :: "('w, 'm) flow_env \<Rightarrow> ('w, 'm, unit) flow_proc" where
  "renew_session E =
     bnd (gets (\<lambda>s. session_id (snd s))) (\<lambda>sid.
     case sid of
       None \<Rightarrow> raise AssertionError
     | Some i \<Rightarrow> bnd (on_first (renewals_due E)) (\<lambda>k. each (\<lambda>_. on_first (client_renew (http E) i)) [0..<k]))"

text \<open>The model of a round, its answer, and the end of the renewal task.\<close>

definition pick_model :: "('w, 'm) flow_env \<Rightarrow> ('w, nat) proc" where
  "pick_model E =
     (if models E = [] then raise IndexError
      else if 1 < length (models E) then
        bnd (choice E (length (models E))) (\<lambda>k. if k < length (models E) then ret k else raise IndexError)
      else ret 0)"

definition ask_model ::
    "('w, 'm) flow_env \<Rightarrow> run_spec \<Rightarrow> nat \<Rightarrow> ('w, 'm, run_result + 'm message_record list) flow_proc" where
  "ask_model E s k =
     finally_do
       (catch
          (bnd (gets snd) (\<lambda>f.
           bnd (on_first ((models E ! k) (messages f) (tools f) (task_key s))) (\<lambda>ms.
           if ms = [] then raise AssertionError else ret (Inr ms))))
          (\<lambda>e. bnd (client_complete E s MODEL_ERROR (error_text E e)) (\<lambda>r. ret (Inl r))))
       (if controller_renew E then renew_session E else ret ())"

definition ask_controller ::
    "('w, 'm) flow_env \<Rightarrow> run_spec \<Rightarrow> 'm message_record list \<Rightarrow> ('w, 'm, run_result + answer) flow_proc" where
  "ask_controller E s ms =
     catch
       (bnd (gets (\<lambda>x. session_id (snd x))) (\<lambda>sid.
        case sid of
          None \<Rightarrow> raise TypeError
        | Some i \<Rightarrow>
            bnd (lift_res (convert_all (record_to_chat (output_to_chat E)) False ms)) (\<lambda>js.
            bnd (on_first (client_interact (http E) i js)) (\<lambda>a. ret (Inr a)))))
       (\<lambda>e. bnd (client_complete E s SERVER_ERROR (error_text E e)) (\<lambda>r. ret (Inl r)))"

text \<open>The interaction; \<open>n\<close> bounds the rounds.\<close>

primrec rounds :: "('w, 'm) flow_env \<Rightarrow> run_spec \<Rightarrow> nat \<Rightarrow> answer \<Rightarrow> ('w, 'm, run_result) flow_proc" where
  "rounds E s 0 a = raise StillRunning"
| "rounds E s (Suc n) a =
     andthen (on_flow (set_tools (a_tools a)))
    (andthen (on_flow (zoom messages (\<lambda>h f. f\<lparr>messages := h\<rparr>) (set_messages (a_messages a))))
      (if a_finish a = Some True then server_complete E s a
       else bnd (on_first (pick_model E)) (\<lambda>k.
            bnd (ask_model E s k) (\<lambda>x.
            case x of
              Inl r \<Rightarrow> ret r
            | Inr ms \<Rightarrow>
                andthen (on_flow (modify (\<lambda>f. f\<lparr>messages := messages f @ ms\<rparr>)))
                  (bnd (ask_controller E s ms) (\<lambda>y.
                   case y of Inl r \<Rightarrow> ret r | Inr a' \<Rightarrow> rounds E s n a'))))))"

definition max_tries :: nat where "max_tries = 10"

definition start_session :: "('w, 'm) flow_env \<Rightarrow> run_spec \<Rightarrow> ('w, 'm, run_result + int \<times> answer) flow_proc" where
  "start_session E s =
     catch
       (bnd (on_first (start_tries E s max_tries)) (\<lambda>x.
        andthen (on_flow (modify (\<lambda>f. f\<lparr>session_id := Some (fst x)\<rparr>))) (ret (Inr x))))
       (\<lambda>e. bnd (client_complete E s SERVER_ERROR (error_text E e)) (\<lambda>r. ret (Inl r)))"

definition run_flow :: "('w, 'm) flow_env \<Rightarrow> run_spec \<Rightarrow> nat \<Rightarrow> ('w, 'm, run_result) flow_proc" where
  "run_flow E s n =
     bnd (start_session E s) (\<lambda>x.
     case x of
       Inl r \<Rightarrow> ret r
     | Inr (i, a) \<Rightarrow>
         andthen (on_first (started_callback E i))
           (if start_only E then
              andthen (flow_cancel E)
                (server_complete E s (a\<lparr>a_finish := Some True, a_status := Some COMPLETED, a_reward := Some 1\<rparr>))
            else rounds E s n a))"

definition workflow_call :: "('w, 'm) flow_env \<Rightarrow> run_spec \<Rightarrow> nat \<Rightarrow> ('w, 'm, run_result) flow_proc" where
  "workflow_call E s n =
     bnd (catch (run_flow E s n) (\<lambda>e. client_complete E s WORKFLOW_ERROR (error_text E e))) (\<lambda>r.
     bnd (gets (\<lambda>x. session_id (snd x))) (\<lambda>sid.
     andthen (if sid \<noteq> None \<and> is_client_error (r_status r) then flow_cancel E else ret ()) (ret r)))"

definition flow_init :: "'m flow" where
  "flow_init = \<lparr>session_id = None, messages = [], tools = []\<rparr>"

section \<open>Slices\<close>

definition has_role :: "json \<Rightarrow> bool" where
  "has_role m \<longleftrightarrow> (case json_item m ''role'' of Inl e \<Rightarrow> False | Inr r \<Rightarrow> True)"

definition role_of :: "json \<Rightarrow> json" where
  "role_of m = (case json_item m ''role'' of Inl e \<Rightarrow> JNull | Inr r \<Rightarrow> r)"

definition is_system :: "json \<Rightarrow> bool" where
  "is_system m \<longleftrightarrow> role_of m \<in> {JStr ''system'', JStr ''developer''}"

definition is_separate :: "json \<Rightarrow> bool" where
  "is_separate m \<longleftrightarrow> role_of m \<in> {JStr ''assistant'', JStr ''tool''}"

lemma item_role: "has_role m \<Longrightarrow> json_item m ''role'' = Inr (role_of m)"
  by (simp add: has_role_def role_of_def split: sum.splits)

text \<open>The messages of a history, one after the other, and what the environment's messages make of them.\<close>

definition flat :: "'m message_record list \<Rightarrow> (json + 'm) list" where
  "flat h = concat (map (\<lambda>r. case r of ChatInput ms \<Rightarrow> map Inl ms | ModelOutput m \<Rightarrow> [Inr m]) h)"

definition heard :: "(json + 'm) list \<Rightarrow> json list \<Rightarrow> (json + 'm) list" where
  "heard = foldl (\<lambda>h m. if is_system m then [Inl m] else h @ [Inl m])"

text \<open>A slice is one message, or messages of users alone.\<close>

definition of_user :: "json \<Rightarrow> bool" where
  "of_user m \<longleftrightarrow> has_role m \<and> \<not> is_system m \<and> \<not> is_separate m"

definition slice :: "json list \<Rightarrow> bool" where
  "slice ms \<longleftrightarrow> (\<exists>m. ms = [m] \<and> has_role m) \<or> (ms \<noteq> [] \<and> list_all of_user ms)"

definition sliced :: "'m message_record list \<Rightarrow> bool" where
  "sliced h \<longleftrightarrow> (\<forall>r \<in> set h. case r of ChatInput ms \<Rightarrow> slice ms | ModelOutput m \<Rightarrow> True)"

definition slicing_ok :: "(json + 'm) list \<Rightarrow> 'm slicing \<Rightarrow> bool" where
  "slicing_ok hs s \<longleftrightarrow> sliced (slices s) \<and> list_all of_user (current_slice s) \<and> flat (flush s) = hs"

lemma flat_simps [simp]:
  "flat [] = []" "flat (h @ g) = flat h @ flat g" "flat [ChatInput ms] = map Inl ms" "flat [ModelOutput m] = [Inr m]"
  by (simp_all add: flat_def)

lemma sliced_append [simp]: "sliced (h @ g) \<longleftrightarrow> sliced h \<and> sliced g"
  by (auto simp: sliced_def)

lemma sliced_one [simp]: "sliced [ChatInput ms] \<longleftrightarrow> slice ms" "sliced []"
  by (simp_all add: sliced_def)

lemma flat_flush: "flat (flush s) = flat (slices s) @ map Inl (current_slice s)"
  by (simp add: flush_def)

lemma slicing_ok_step:
  assumes "slicing_ok hs s" and "has_role m"
  shows "\<exists>t. slice_step m s = (Inr (), t) \<and> slicing_ok (heard hs [m]) t"
proof -
  have alone: "slice [m]" using assms(2) by (simp add: slice_def)
  have rest: "sliced (flush s)" using assms(1) by (auto simp: slicing_ok_def flush_def slice_def)
  consider "is_system m" | "\<not> is_system m" "is_separate m" | "of_user m"
    using assms(2) by (auto simp: of_user_def)
  then show ?thesis
  proof cases
    case 1
    then show ?thesis using alone
      by (simp add: slice_step_def item_role [OF assms(2)] lift_res_def modify_def is_system_def slicing_ok_def
          flat_flush heard_def)
  next
    case 2
    then show ?thesis using alone rest assms(1)
      by (simp add: slice_step_def item_role [OF assms(2)] lift_res_def modify_def is_system_def is_separate_def
          slicing_ok_def flat_flush heard_def)
  next
    case 3
    then show ?thesis using assms(1)
      by (simp add: slice_step_def item_role [OF assms(2)] lift_res_def modify_def is_system_def is_separate_def
          of_user_def slicing_ok_def flat_flush heard_def)
  qed
qed

lemma slicing_ok_each:
  assumes "slicing_ok hs s" and "list_all has_role ms"
  shows "\<exists>t. each slice_step ms s = (Inr (), t) \<and> slicing_ok (heard hs ms) t"
  using assms
proof (induction ms arbitrary: hs s)
  case Nil
  then show ?case by (simp add: heard_def ret_def)
next
  case (Cons m ms)
  then obtain t where t: "slice_step m s = (Inr (), t)" "slicing_ok (heard hs [m]) t"
    using slicing_ok_step by fastforce
  obtain u where "each slice_step ms t = (Inr (), u)" "slicing_ok (heard (heard hs [m]) ms) u"
    using Cons.IH [OF t(2)] Cons.prems(2) by auto
  moreover have "heard (heard hs [m]) ms = heard hs (m # ms)" by (simp add: heard_def)
  ultimately show ?case using t(1) by (simp add: andthen_def)
qed

text \<open>The messages of a slice without a system message have one role in Anthropic's form.\<close>

lemma one_role_loop:
  assumes "list_all has_role ms" and "\<forall>m \<in> set ms. \<not> is_system m \<and> anthropic_role (role_of m) = r"
    and "q = None \<or> q = Some r" and "ms \<noteq> [] \<or> q = Some r"
  shows "anthropic_loop loads ms q blocks =
     rbind (rmap (\<lambda>m. anthropic_blocks loads (role_of m) m) ms) (\<lambda>bs. Inr (Some r, blocks @ concat bs))"
  using assms
proof (induction ms arbitrary: q blocks)
  case (Cons m ms)
  have m: "json_item m ''role'' = Inr (role_of m)" "\<not> is_system m" "anthropic_role (role_of m) = r"
    using Cons.prems by (auto simp: item_role)
  have IH: "anthropic_loop loads ms (Some r) b =
      rbind (rmap (\<lambda>m. anthropic_blocks loads (role_of m) m) ms) (\<lambda>bs. Inr (Some r, b @ concat bs))" for b
    by (rule Cons.IH) (use Cons.prems in auto)
  show ?case
    using m Cons.prems(3)
    by (cases "anthropic_blocks loads (role_of m) m") (auto simp: is_system_def IH rbind_def split: sum.splits)
qed simp

lemma slice_one_role:
  assumes "slice ms" and "\<not> list_ex is_system ms"
  shows "list_all has_role ms \<and> ms \<noteq> [] \<and>
    (\<forall>m \<in> set ms. \<not> is_system m \<and> anthropic_role (role_of m) = anthropic_role (role_of (hd ms)))"
proof -
  have "anthropic_role (role_of m) = ''user''" if "of_user m" for m
    using that by (simp add: of_user_def is_separate_def anthropic_role_def)
  then show ?thesis
    using assms by (cases ms) (auto simp: slice_def list_all_iff list_ex_iff of_user_def)
qed

lemma one_role_from_start:
  assumes "list_all has_role ms" and "\<forall>m \<in> set ms. \<not> is_system m \<and> anthropic_role (role_of m) = r" and "ms \<noteq> []"
  shows "anthropic_loop loads ms None [] =
     rbind (rmap (\<lambda>m. anthropic_blocks loads (role_of m) m) ms) (\<lambda>bs. Inr (Some r, concat bs))"
  using one_role_loop [OF assms(1,2), of None loads "[]"] assms(3) by simp

text \<open>
  The history holds the messages of the environment in the order they came, from the last
  system message on, grouped into slices that each convert to one Anthropic message: the conversion
  never meets two roles in a slice, it yields the blocks of its messages one after the other.
\<close>

lemma history_in_slices:
  assumes "list_all has_role ms" and "sliced h"
  shows "\<exists>h'. set_messages (Some ms) h = (Inr (), h') \<and> flat h' = heard (flat h) ms \<and> sliced h' \<and>
    (\<forall>sl. ChatInput sl \<in> set h' \<longrightarrow> \<not> list_ex is_system sl \<longrightarrow>
       anthropic_loop loads sl None [] =
         rbind (rmap (\<lambda>m. anthropic_blocks loads (role_of m) m) sl)
           (\<lambda>bs. Inr (Some (anthropic_role (role_of (hd sl))), concat bs)))"
proof -
  have "slicing_ok (flat h) \<lparr>slices = h, current_slice = [], own = (h \<noteq> [])\<rparr>"
    using assms(2) by (simp add: slicing_ok_def flat_flush)
  from slicing_ok_each [OF this assms(1)] obtain t where
    t: "each slice_step ms \<lparr>slices = h, current_slice = [], own = (h \<noteq> [])\<rparr> = (Inr (), t)"
    and ok: "slicing_ok (heard (flat h) ms) t" by blast
  have sliced: "sliced (flush t)"
    using ok by (auto simp: slicing_ok_def flush_def slice_def)
  have convert: "anthropic_loop loads sl None [] =
         rbind (rmap (\<lambda>m. anthropic_blocks loads (role_of m) m) sl)
           (\<lambda>bs. Inr (Some (anthropic_role (role_of (hd sl))), concat bs))"
    if "ChatInput sl \<in> set (flush t)" "\<not> list_ex is_system sl" for sl
  proof -
    have "slice sl" using sliced that(1) by (force simp: sliced_def)
    note one = slice_one_role [OF this that(2)]
    show ?thesis
      by (rule one_role_from_start) (use one in blast)+
  qed
  have run: "set_messages (Some ms) h = (Inr (), flush t)" by (simp add: set_messages_def t)
  have heard: "flat (flush t) = heard (flat h) ms" using ok by (simp add: slicing_ok_def)
  show ?thesis
    by (intro exI [of _ "flush t"] conjI allI impI run heard sliced convert) assumption+
qed

lemma history_in_slices_witness:
  "let user = (\<lambda>s. JObj [(''role'', JStr ''user''), (''content'', JStr s)]);
       system = JObj [(''role'', JStr ''system''), (''content'', JStr ''be brief'')]
   in flat (snd (set_messages (Some [system, user ''a'', user ''b'']) ([] :: nat message_record list))) =
        map Inl [system, user ''a'', user ''b'']"
proof -
  let ?user = "\<lambda>s. JObj [(''role'', JStr ''user''), (''content'', JStr s)]"
  let ?system = "JObj [(''role'', JStr ''system''), (''content'', JStr ''be brief'')]"
  have "list_all has_role [?system, ?user ''a'', ?user ''b'']" by (simp add: has_role_def)
  from history_in_slices [OF this sliced_one(2)] obtain h' :: "nat message_record list" where
    "set_messages (Some [?system, ?user ''a'', ?user ''b'']) [] = (Inr (), h')"
    "flat h' = heard (flat []) [?system, ?user ''a'', ?user ''b'']" by blast
  then have "flat (snd (set_messages (Some [?system, ?user ''a'', ?user ''b'']) ([] :: nat message_record list))) =
      heard [] [?system, ?user ''a'', ?user ''b'']"
    by (simp only: snd_conv flat_simps(1))
  then show ?thesis by (simp add: heard_def is_system_def role_of_def)
qed

section \<open>Ending the session\<close>

text \<open>
  The same interfaces, with a log of the requests that are posted: the path, the session in the
  header, and the reply or the error of the request.
\<close>

type_synonym exchange = "string \<times> int option \<times> http_response res"

definition logging_http :: "'w http \<Rightarrow> ('w \<times> exchange list) http" where
  "logging_http H =
     \<lparr>get_request = (\<lambda>p ps. on_first (get_request H p ps)),
      post_request = (\<lambda>p i j (w, tr). let (x, w') = post_request H p i j w in (x, (w', tr @ [(p, i, x)]))),
      validate_answer = validate_answer H\<rparr>"

definition logging :: "('w, 'm) flow_env \<Rightarrow> ('w \<times> exchange list, 'm) flow_env" where
  "logging E =
     \<lparr>http = logging_http (http E), models = map (\<lambda>q h ts k. on_first (q h ts k)) (models E),
      choice = (\<lambda>n. on_first (choice E n)), renewals_due = on_first (renewals_due E),
      started_callback = (\<lambda>i. on_first (started_callback E i)), output_to_chat = output_to_chat E,
      output_dump = output_dump E, score_of = score_of E, error_text = error_text E,
      controller_renew = controller_renew E, start_only = start_only E\<rparr>"

lemma logging_sel [simp]:
  "http (logging E) = logging_http (http E)" "models (logging E) = map (\<lambda>q h ts k. on_first (q h ts k)) (models E)"
  "choice (logging E) n = on_first (choice E n)" "renewals_due (logging E) = on_first (renewals_due E)"
  "started_callback (logging E) i = on_first (started_callback E i)"
  "output_to_chat (logging E) = output_to_chat E" "output_dump (logging E) = output_dump E"
  "score_of (logging E) = score_of E" "error_text (logging E) = error_text E"
  "controller_renew (logging E) = controller_renew E" "start_only (logging E) = start_only E"
  by (simp_all add: logging_def)

text \<open>
  The sessions whose start was accepted: the reply has no error status, names a session, and its
  answer is valid. And the sessions a cancellation was sent for, whatever became of the request.
\<close>

definition accepts :: "'w http \<Rightarrow> http_response \<Rightarrow> int list" where
  "accepts H r =
     (if failed r then []
      else case session_header r of
        None \<Rightarrow> []
      | Some h \<Rightarrow>
          (case parse_int h of
             None \<Rightarrow> []
           | Some i \<Rightarrow> (case rbind (validate_answer H (body r)) messages_not_empty of Inl e \<Rightarrow> [] | Inr a \<Rightarrow> [i])))"

definition accepted :: "'w http \<Rightarrow> exchange list \<Rightarrow> int list" where
  "accepted H tr = concat (map (\<lambda>(p, i, x).
     case x of Inl e \<Rightarrow> [] | Inr r \<Rightarrow> if p = ''start_sample'' then accepts H r else []) tr)"

definition cancels :: "exchange list \<Rightarrow> int option list" where
  "cancels tr = concat (map (\<lambda>(p, i, x). if p = ''cancel'' then [i] else []) tr)"

lemma exchange_simps [simp]:
  "accepted H [] = []" "cancels [] = []"
  "accepted H (tr @ [(p, i, x)]) =
     accepted H tr @ (case x of Inl e \<Rightarrow> [] | Inr r \<Rightarrow> if p = ''start_sample'' then accepts H r else [])"
  "cancels (tr @ [(p, i, x)]) = cancels tr @ (if p = ''cancel'' then [i] else [])"
  by (simp_all add: accepted_def cancels_def)

definition at_log :: "'w http \<Rightarrow> int list \<times> int option list \<Rightarrow> 'w \<times> exchange list \<Rightarrow> bool" where
  "at_log H l s \<longleftrightarrow> accepted H (snd s) = fst l \<and> cancels (snd s) = snd l"

definition stands ::
    "'w http \<Rightarrow> int list \<times> int option list \<Rightarrow> int option \<Rightarrow> ('w \<times> exchange list) \<times> 'm flow \<Rightarrow> bool" where
  "stands H l i s \<longleftrightarrow> at_log H l (fst s) \<and> session_id (snd s) = i"

lemma preserves_logged [preserving]: "preserves (at_log H l) (\<lambda>_. True) (on_first m)"
  by (auto simp: preserves_def at_log_def wp_first_any)

lemma wp_logging_post:
  "wp (post_request (logging_http H) p i j) Q F (w, tr) =
     (case post_request H p i j w of
        (Inl e, w') \<Rightarrow> F e (w', tr @ [(p, i, Inl e)]) | (Inr r, w') \<Rightarrow> Q r (w', tr @ [(p, i, Inr r)]))"
  by (simp add: wp_def logging_http_def split: prod.split sum.split)

lemma preserves_post [preserving]:
  "p \<noteq> ''cancel'' \<Longrightarrow> p \<noteq> ''start_sample'' \<Longrightarrow>
     preserves (at_log H l) (\<lambda>_. True) (post_request (logging_http H) p i j)"
  by (auto simp: preserves_def at_log_def wp_logging_post split: prod.splits sum.splits)

lemma preserves_on_first [preserving]:
  assumes "preserves (at_log H l) N m"
  shows "preserves (stands H l i) N (on_first m)"
proof -
  have "wp m (\<lambda>x v. stands H l i (v, f) \<and> N x) (\<lambda>_ v. stands H l i (v, f)) w" if "stands H l i (w, f)" for w f
    by (rule wp_mono [OF preserves_wp [OF assms]]) (use that in \<open>auto simp: stands_def\<close>)
  then show ?thesis by (auto simp: preserves_def wp_on_first)
qed

lemma wp_on_flow: "wp (on_flow m) Q E (w, f) = wp m (\<lambda>x g. Q x (w, g)) (\<lambda>e g. E e (w, g)) f"
  by (simp add: on_flow_def)

lemma preserves_on_flow [preserving]:
  assumes "\<And>f. wp m (\<lambda>x g. session_id g = session_id f) (\<lambda>_ g. session_id g = session_id f) f"
  shows "preserves (stands H l i) (\<lambda>_. True) (on_flow m)"
proof -
  have "wp m (\<lambda>x g. stands H l i (w, g) \<and> True) (\<lambda>_ g. stands H l i (w, g)) f" if "stands H l i (w, f)" for w f
    by (rule wp_mono [OF assms [of f]]) (use that in \<open>simp_all add: stands_def\<close>)
  then show ?thesis by (auto simp: preserves_def wp_on_flow)
qed

lemma session_of_zoom [simp]:
  "wp (zoom messages (\<lambda>h f. f\<lparr>messages := h\<rparr>) m) (\<lambda>x g. session_id g = i) (\<lambda>_ g. session_id g = i) f \<longleftrightarrow>
     session_id f = i"
  by (cases "session_id f = i") (auto simp: wp_def split: prod.splits sum.splits)

lemma session_of_tools [simp]:
  "wp (set_tools ts) (\<lambda>x g. session_id g = i) (\<lambda>_ g. session_id g = i) f \<longleftrightarrow> session_id f = i"
  by (simp add: set_tools_def split: option.split)

lemma preserves_gets [preserving]: "(\<And>s. P s \<Longrightarrow> N (g s)) \<Longrightarrow> preserves P N (gets g)"
  by (simp add: preserves_def)

section \<open>Requests other than a cancellation\<close>

lemma preserves_status [preserving]: "preserves P (\<lambda>_. True) (raise_for_status r)"
  by (simp add: raise_for_status_def preserving)

lemma preserves_answer [preserving]: "preserves P (\<lambda>_. True) (answer_of H r)"
  by (simp add: answer_of_def preserving)

lemma preserves_client [preserving]:
  "preserves (at_log H l) (\<lambda>_. True) (client_interact (logging_http H) j ms)"
  "preserves (at_log H l) (\<lambda>_. True) (client_renew (logging_http H) j)"
  unfolding client_interact_def client_renew_def
  by (auto intro!: preserving split: option.split)

text \<open>A start that succeeds is accepted, one that fails is not.\<close>

lemma wp_client_start:
  assumes "at_log H (l, c) s"
  shows "wp (client_start_sample (logging_http H) task ix custom)
    (\<lambda>x. at_log H (l @ [fst x], c)) (\<lambda>_. at_log H (l, c)) s"
proof (cases s)
  case (Pair w tr)
  have v: "validate_answer (logging_http H) = validate_answer H" by (simp add: logging_http_def)
  show ?thesis
    using assms unfolding Pair client_start_sample_def wp_bnd wp_lift_res
    by (auto simp: wp_logging_post at_log_def accepts_def raise_for_status_def answer_of_def v
        split: sum.splits prod.splits option.splits)
qed

lemma wp_tries:
  "at_log (http E) (l, c) s \<Longrightarrow> wp (start_tries (logging E) sp n)
     (\<lambda>x. at_log (http E) (l @ [fst x], c)) (\<lambda>_. at_log (http E) (l, c)) s"
proof (induction n arbitrary: s)
  case (Suc n)
  have "wp (if e = HTTPStatusError \<and> n \<noteq> 0 then start_tries (logging E) sp n else raise e)
     (\<lambda>x. at_log (http E) (l @ [fst x], c)) (\<lambda>_. at_log (http E) (l, c)) t" if "at_log (http E) (l, c) t" for e t
    using Suc.IH [OF that] that by simp
  then show ?case
    unfolding start_tries.simps wp_catch logging_sel
    by (intro wp_mono [OF wp_client_start [OF Suc.prems]]) auto
qed simp

text \<open>A result names the session at hand.\<close>

definition names :: "int option \<Rightarrow> run_result \<Rightarrow> bool" where
  "names i r \<longleftrightarrow> r_session r = i"

definition names_early :: "int option \<Rightarrow> run_result + 'a \<Rightarrow> bool" where
  "names_early i x \<longleftrightarrow> (case x of Inl r \<Rightarrow> names i r | Inr y \<Rightarrow> True)"

lemma names_early_simps [simp]: "names_early i (Inl r) = names i r" "names_early i (Inr y)"
  by (simp_all add: names_early_def)

lemma client_complete_names [preserving]: "preserves (stands H l i) (names i) (client_complete E s st msg)"
  by (auto simp: preserves_def client_complete_def stands_def names_def)

lemma server_complete_names [preserving]: "preserves (stands H l i) (names i) (server_complete E s a)"
  unfolding server_complete_def Let_def
  by (rule preserves_bnd_any) (auto intro!: preserving split: option.split simp: stands_def names_def)

lemma early [preserving]:
  "preserves (stands H l i) (names i) m \<Longrightarrow> preserves (stands H l i) (names_early i) (bnd m (\<lambda>r. ret (Inl r)))"
  by (rule preserves_bnd [where M = "names i"]) (auto intro!: preserving)

lemma renewal_keeps [preserving]: "preserves (stands (http E) l i) (\<lambda>_. True) (renew_session (logging E))"
  unfolding renew_session_def by (auto intro!: preserving split: option.split)

lemma ask_model_names [preserving]:
  "k < length (models E) \<Longrightarrow> preserves (stands (http E) l i) (names_early i) (ask_model (logging E) s k)"
  unfolding ask_model_def by (auto intro!: preserving)

lemma ask_controller_names [preserving]:
  "preserves (stands (http E) l i) (names_early i) (ask_controller (logging E) s ms)"
  unfolding ask_controller_def by (auto intro!: preserving split: option.split)

lemma pick_model_below [preserving]:
  "preserves (at_log (http E) l) (\<lambda>k. k < length (models E)) (pick_model (logging E))"
  unfolding pick_model_def
  by (auto intro!: preserving preserves_bnd [where M = "\<lambda>_. True"])

lemma rounds_names [preserving]: "preserves (stands (http E) l i) (names i) (rounds (logging E) s n a)"
proof (induction n arbitrary: a)
  case 0
  then show ?case by (simp add: preserving)
next
  case (Suc n)
  have answer: "preserves (stands (http E) l i) (names i)
      (bnd (ask_controller (logging E) s ms) (\<lambda>y. case y of Inl r \<Rightarrow> ret r | Inr a' \<Rightarrow> rounds (logging E) s n a'))" for ms
    by (rule preserves_bnd [OF ask_controller_names]) (auto intro!: preserving Suc.IH split: sum.split)
  have model: "preserves (stands (http E) l i) (names i)
      (bnd (ask_model (logging E) s k) (\<lambda>x. case x of Inl r \<Rightarrow> ret r | Inr ms \<Rightarrow>
         andthen (on_flow (modify (\<lambda>f. f\<lparr>messages := messages f @ ms\<rparr>)))
           (bnd (ask_controller (logging E) s ms) (\<lambda>y. case y of Inl r \<Rightarrow> ret r | Inr a' \<Rightarrow> rounds (logging E) s n a'))))"
    if "k < length (models E)" for k
    by (rule preserves_bnd [OF ask_model_names [OF that]]) (auto intro!: preserving answer split: sum.split)
  have query: "preserves (stands (http E) l i) (names i)
      (bnd (on_first (pick_model (logging E))) (\<lambda>k.
       bnd (ask_model (logging E) s k) (\<lambda>x. case x of Inl r \<Rightarrow> ret r | Inr ms \<Rightarrow>
         andthen (on_flow (modify (\<lambda>f. f\<lparr>messages := messages f @ ms\<rparr>)))
           (bnd (ask_controller (logging E) s ms) (\<lambda>y. case y of Inl r \<Rightarrow> ret r | Inr a' \<Rightarrow> rounds (logging E) s n a')))))"
    by (rule preserves_bnd [OF preserves_on_first [OF pick_model_below]]) (rule model)
  show ?case
    unfolding rounds.simps
    by (intro preserves_then preserves_if query server_complete_names preserves_on_flow) (auto simp: wp_any)
qed

text \<open>
  Where a run stands before the workflow looks whether it has to cancel: in the session that was
  accepted, if any, and not cancelled; or, after a start only, out of a session that was cancelled.
\<close>

definition in_accepted :: "'w http \<Rightarrow> int option \<Rightarrow> ('w \<times> exchange list) \<times> 'm flow \<Rightarrow> bool" where
  "in_accepted H i t \<longleftrightarrow> stands H (case i of None \<Rightarrow> [] | Some j \<Rightarrow> [j], []) i t"

definition left_again :: "'w http \<Rightarrow> ('w \<times> exchange list) \<times> 'm flow \<Rightarrow> bool" where
  "left_again H t \<longleftrightarrow> (\<exists>j. stands H ([j], [Some j]) None t)"

lemma set_session:
  "at_log H ([i], []) (fst t) \<Longrightarrow>
     wp (on_flow (modify (\<lambda>f. f\<lparr>session_id := Some i\<rparr>))) (\<lambda>_. in_accepted H (Some i)) F t"
  by (cases t) (simp add: wp_on_flow stands_def in_accepted_def)

lemma wp_start_session:
  assumes "in_accepted (http E) None s"
  shows "wp (start_session (logging E) sp)
    (\<lambda>x t. case x of Inl r \<Rightarrow> in_accepted (http E) None t \<and> names None r
       | Inr y \<Rightarrow> in_accepted (http E) (Some (fst y)) t) (\<lambda>_. in_accepted (http E) None) s"
proof -
  have failed: "wp (client_complete (logging E) sp st msg)
      (\<lambda>r t. in_accepted (http E) None t \<and> names None r) (\<lambda>_. in_accepted (http E) None) t"
    if "in_accepted (http E) None t" for st msg t
    by (rule wp_mono [OF preserves_wp [OF client_complete_names that [unfolded in_accepted_def]]])
      (simp_all add: in_accepted_def)
  obtain w f where s: "s = (w, f)" by (cases s)
  have "at_log (http E) ([], []) w" "session_id f = None"
    using assms by (simp_all add: s in_accepted_def stands_def)
  then have "wp (on_first (start_tries (logging E) sp max_tries))
      (\<lambda>x t. at_log (http E) ([fst x], []) (fst t)) (\<lambda>_ t. in_accepted (http E) None t) s"
    unfolding s wp_on_first
    by (intro wp_mono [OF wp_tries [where l = "[]" and c = "[]"]]) (simp_all add: in_accepted_def stands_def)
  then show ?thesis
    unfolding start_session_def wp_catch wp_bnd
    by (rule wp_mono) (auto intro: set_session failed)
qed

lemma wp_flow_cancel:
  assumes "in_accepted (http E) (Some i) s"
  shows "wp (flow_cancel (logging E)) (\<lambda>_. stands (http E) ([i], [Some i]) None) (\<lambda>e _. e = StillRunning) s"
proof -
  obtain w tr f where s: "s = ((w, tr), f)" by (metis prod.collapse)
  have i: "session_id f = Some i" "accepted (http E) tr = [i]" "cancels tr = []"
    using assms by (simp_all add: s in_accepted_def stands_def at_log_def)
  show ?thesis
    unfolding flow_cancel_def s
    by (auto simp: i wp_on_first client_cancel_def wp_logging_post wp_on_flow stands_def at_log_def
        split: prod.split sum.split)
qed

lemma wp_run_flow:
  assumes "in_accepted (http E) None s"
  shows "wp (run_flow (logging E) sp n)
    (\<lambda>r t. (\<exists>i. in_accepted (http E) i t \<and> names i r \<and> (i = None \<or> \<not> start_only E)) \<or>
           (start_only E \<and> left_again (http E) t))
    (\<lambda>e t. e = StillRunning \<or> (\<exists>i. in_accepted (http E) i t) \<or> (start_only E \<and> left_again (http E) t)) s"
    (is "wp _ ?Q ?F s")
proof -
  have played: "wp (rounds (logging E) sp n a) ?Q ?F t" if "in_accepted (http E) i t" "\<not> start_only E" for i a t
    by (rule wp_mono [OF preserves_wp [OF rounds_names that(1) [unfolded in_accepted_def]]])
      (use that(2) in \<open>auto simp: in_accepted_def\<close>)
  have out: "wp (server_complete (logging E) sp a) ?Q ?F t"
    if "stands (http E) ([j], [Some j]) None t" "start_only E" for j a t
    by (rule wp_mono [OF preserves_wp [OF server_complete_names that(1)]])
      (use that(2) in \<open>auto simp: left_again_def\<close>)
  have go: "wp (andthen (on_first (started_callback (logging E) i))
      (if start_only (logging E) then andthen (flow_cancel (logging E)) (server_complete (logging E) sp b)
       else rounds (logging E) sp n a)) ?Q ?F t" if "in_accepted (http E) (Some j) t" for i j a b t
  proof -
    have onward: "wp (if start_only (logging E) then andthen (flow_cancel (logging E)) (server_complete (logging E) sp b)
       else rounds (logging E) sp n a) ?Q ?F u" if "in_accepted (http E) (Some j) u" for u
    proof (cases "start_only E")
      case True
      show ?thesis
        unfolding logging_sel if_P [OF True] wp_andthen
        by (rule wp_mono [OF wp_flow_cancel [OF that]]) (auto intro: out [OF _ True])
    next
      case False
      then show ?thesis using played [OF that] by simp
    qed
    have told: "preserves (in_accepted (http E) (Some j)) (\<lambda>_. True) (on_first (started_callback (logging E) i))"
      unfolding logging_sel in_accepted_def by (intro preserving)
    show ?thesis
      unfolding wp_andthen
      by (rule wp_mono [OF preserves_wp [OF told that]]) (blast intro: onward)+
  qed
  show ?thesis
    unfolding run_flow_def wp_bnd
    by (rule wp_mono [OF wp_start_session [OF assms]])
      (auto split: sum.splits prod.splits intro: go split del: if_split simp del: logging_sel wp_andthen)
qed

text \<open>The last part of the workflow, and what it makes of the log.\<close>

abbreviation last_look :: "('w, 'm) flow_env \<Rightarrow> run_result \<Rightarrow> ('w \<times> exchange list, 'm, run_result) flow_proc" where
  "last_look E r \<equiv> bnd (gets (\<lambda>x. session_id (snd x))) (\<lambda>sid.
     andthen (if sid \<noteq> None \<and> is_client_error (r_status r) then flow_cancel (logging E) else ret ()) (ret r))"

definition settled :: "('w, 'm) flow_env \<Rightarrow> run_result \<Rightarrow> ('w \<times> exchange list) \<times> 'm flow \<Rightarrow> bool" where
  "settled E r t \<longleftrightarrow>
     cancels (snd (fst t)) = (if start_only E \<or> is_client_error (r_status r)
       then map Some (accepted (http E) (snd (fst t))) else []) \<and>
     length (accepted (http E) (snd (fst t))) \<le> 1 \<and>
     (start_only E \<or> accepted (http E) (snd (fst t)) = (case r_session r of None \<Rightarrow> [] | Some i \<Rightarrow> [i]))"

lemmas log_defs = in_accepted_def stands_def at_log_def names_def settled_def

lemma settled_in_accepted:
  assumes "in_accepted (http E) i t" and "names i r" and "i = None \<or> \<not> start_only E \<or> is_client_error (r_status r)"
  shows "wp (last_look E r) (settled E) (\<lambda>_ _. True) t"
proof (cases i)
  case None
  then show ?thesis using assms by (simp add: log_defs)
next
  case (Some j)
  have "wp (flow_cancel (logging E)) (\<lambda>_. settled E r) (\<lambda>_ _. True) t" if "is_client_error (r_status r)"
    by (rule wp_mono [OF wp_flow_cancel [OF assms(1) [unfolded Some]]])
      (use that assms(2) Some in \<open>auto simp: log_defs\<close>)
  moreover have "session_id (snd t) = Some j"
    using assms(1) Some by (simp add: in_accepted_def stands_def)
  moreover have "settled E r t" if "\<not> is_client_error (r_status r)"
    using assms that Some by (simp add: log_defs)
  ultimately show ?thesis by (cases "is_client_error (r_status r)") simp_all
qed

lemma settled_left_again:
  "left_again (http E) t \<Longrightarrow> start_only E \<Longrightarrow> wp (last_look E r) (settled E) (\<lambda>_ _. True) t"
  by (auto simp: left_again_def log_defs)

lemma settled_after_error:
  assumes "(\<exists>i. in_accepted (http E) i t) \<or> (start_only E \<and> left_again (http E) t)"
  shows "wp (client_complete (logging E) sp WORKFLOW_ERROR msg)
    (\<lambda>r. wp (last_look E r) (settled E) (\<lambda>_ _. True)) (\<lambda>_ _. True) t"
proof -
  have sid: "session_id (snd t) = i" if "in_accepted (http E) i t" for i
    using that by (simp add: in_accepted_def stands_def)
  have err: "is_client_error WORKFLOW_ERROR" by (simp add: is_client_error_def client_errors_def)
  have "wp (last_look E r) (settled E) (\<lambda>_ _. True) t"
    if "r_status r = WORKFLOW_ERROR" "names (session_id (snd t)) r" for r
    using assms
  proof (elim disjE exE conjE)
    fix i assume i: "in_accepted (http E) i t"
    show ?thesis by (rule settled_in_accepted [OF i]) (use that err sid [OF i] in simp_all)
  qed (rule settled_left_again)
  moreover have "wp (client_complete (logging E) sp WORKFLOW_ERROR msg)
      (\<lambda>r u. u = t \<and> r_status r = WORKFLOW_ERROR \<and> names (session_id (snd t)) r) (\<lambda>_ _. True) t"
    by (simp add: client_complete_def names_def split: prod.split)
  ultimately show ?thesis by (elim wp_mono) blast+
qed

text \<open>
  C8: no accepted session is left behind. Whatever the controller, the models and the renewals do:
  when the workflow returns a result, it has sent a cancellation exactly if the result is an error of
  the client or the run was only to start the sample, and then one for each session whose start was
  accepted; at most one was, and except after a start only it is the session the result names.
\<close>

theorem failed_sessions_are_cancelled:
  assumes "workflow_call (logging E) sp n ((w, []), flow_init) = (Inr r, ((w', tr), f))"
  shows "cancels tr =
      (if start_only E \<or> is_client_error (r_status r) then map Some (accepted (http E) tr) else []) \<and>
    length (accepted (http E) tr) \<le> 1 \<and>
    (start_only E \<or> accepted (http E) tr = (case r_session r of None \<Rightarrow> [] | Some i \<Rightarrow> [i]))"
proof -
  have returned: "wp (last_look E r) (settled E) (\<lambda>_ _. True) t"
    if "(\<exists>i. in_accepted (http E) i t \<and> names i r \<and> (i = None \<or> \<not> start_only E)) \<or>
        (start_only E \<and> left_again (http E) t)" for r and t :: "('a \<times> exchange list) \<times> 'b flow"
    using that
  proof (elim disjE [where P = "\<exists>i. _ i"] exE conjE)
    fix i assume i: "in_accepted (http E) i t" "names i r" "i = None \<or> \<not> start_only E"
    show ?thesis by (rule settled_in_accepted [OF i(1,2)]) (use i(3) in blast)
  qed (rule settled_left_again)
  have caught: "(if e = StillRunning then \<lambda>_. True
      else wp (client_complete (logging E) sp WORKFLOW_ERROR msg)
        (\<lambda>r. wp (last_look E r) (settled E) (\<lambda>_ _. True)) (\<lambda>_ _. True)) t"
    if "e = StillRunning \<or> (\<exists>i. in_accepted (http E) i t) \<or> (start_only E \<and> left_again (http E) t)"
    for e msg and t :: "('a \<times> exchange list) \<times> 'b flow"
  proof (cases "e = StillRunning")
    case False
    then show ?thesis unfolding if_not_P [OF False] using that by (intro settled_after_error) blast
  qed simp
  have "in_accepted (http E) None ((w, []), flow_init)"
    by (simp add: in_accepted_def stands_def at_log_def flow_init_def)
  then have "wp (workflow_call (logging E) sp n) (settled E) (\<lambda>_ _. True) ((w, []), flow_init)"
    unfolding workflow_call_def wp_bnd [of "catch _ _"] wp_catch
    by (rule wp_mono [OF wp_run_flow]) (erule returned, erule caught)
  then show ?thesis using assms by (simp add: wp_def settled_def)
qed

text \<open>A controller whose session 7 fails at the first interaction.\<close>

definition failing_controller :: "unit http" where
  "failing_controller =
     \<lparr>get_request = (\<lambda>p ps. ret \<lparr>failed = False, body = JNull, session_header = None\<rparr>),
      post_request = (\<lambda>p i j. ret \<lparr>failed = (p = ''interact''), body = JNull, session_header = Some ''7''\<rparr>),
      validate_answer = (\<lambda>j. Inr \<lparr>a_finish = None, a_reward = None, a_status = None,
        a_messages = Some [JObj [(''role'', JStr ''user''), (''content'', JStr ''go'')]],
        a_tools = None, a_metrics = None, a_result = None\<rparr>)\<rparr>"

definition failing_env :: "(unit, nat) flow_env" where
  "failing_env =
     \<lparr>http = failing_controller, models = [\<lambda>h ts k. ret [ModelOutput 1]], choice = (\<lambda>n. ret 0),
      renewals_due = ret 0, started_callback = (\<lambda>i. ret ()), output_to_chat = (\<lambda>m. Inr []),
      output_dump = (\<lambda>m. []), score_of = (\<lambda>j. Inl ValueError), error_text = (\<lambda>e. ''''),
      controller_renew = False, start_only = False\<rparr>"

lemma failed_sessions_are_cancelled_witness:
  "let sp = \<lparr>sp_model = ''m'', sp_run = 0, sp_task = ''t'', sp_index = IntIx 1, sp_custom = None\<rparr>
   in \<exists>r f tr. workflow_call (logging failing_env) sp 3 (((), []), flow_init) = (Inr r, (((), tr), f)) \<and>
        r_status r = SERVER_ERROR \<and> r_session r = Some 7 \<and> accepted failing_controller tr = [7] \<and> cancels tr = [Some 7]"
proof -
  let ?sp = "\<lparr>sp_model = ''m'', sp_run = 0, sp_task = ''t'', sp_index = IntIx 1, sp_custom = None\<rparr>"
  have seven: "parse_int ''7'' = Some 7" by (simp add: parse_int_def parse_nat_def is_digit_def digit_val_def)
  have "\<exists>r c f. workflow_call (logging failing_env) ?sp 3 (((), []), flow_init) = (Inr r, (((), c), f)) \<and>
      r_status r = SERVER_ERROR \<and> r_session r = Some 7"
    by (simp add: workflow_call_def run_flow_def start_session_def max_tries_def client_start_sample_def start_body_def
        failing_env_def failing_controller_def logging_http_def raise_for_status_def answer_of_def messages_not_empty_def
        seven flow_init_def set_messages_def slice_step_def set_tools_def pick_model_def ask_model_def
        ask_controller_def client_interact_def client_complete_def flow_cancel_def client_cancel_def flush_def
        record_to_chat_def is_client_error_def client_errors_def on_first_def on_flow_def zoom_def bnd_def andthen_def
        ret_def raise_def lift_res_def gets_def modify_def catch_def finally_do_def eval_nat_numeral Let_def)
  then obtain r c f where run: "workflow_call (logging failing_env) ?sp 3 (((), []), flow_init) = (Inr r, (((), c), f))"
    and r: "r_status r = SERVER_ERROR" "r_session r = Some 7" by blast
  have "\<not> start_only failing_env" "http failing_env = failing_controller" by (simp_all add: failing_env_def)
  with failed_sessions_are_cancelled [OF run] r have "accepted failing_controller c = [7]" "cancels c = [Some 7]"
    by (simp_all add: is_client_error_def client_errors_def)
  with run r show ?thesis by auto
qed

text \<open>
  A session that the controller has opened, but whose first answer is not valid, is not accepted: the
  number of the session is lost with the answer, the result names none, and nothing is cancelled.
\<close>

definition opening_env :: "(unit, nat) flow_env" where
  "opening_env = failing_env\<lparr>http := failing_controller\<lparr>validate_answer := (\<lambda>j. Inl ValueError)\<rparr>\<rparr>"

lemma invalid_start_is_left_open:
  "let sp = \<lparr>sp_model = ''m'', sp_run = 0, sp_task = ''t'', sp_index = IntIx 1, sp_custom = None\<rparr>
   in \<exists>r f. workflow_call (logging opening_env) sp 3 (((), []), flow_init) =
        (Inr r, (((), [(''start_sample'', None, Inr \<lparr>failed = False, body = JNull, session_header = Some ''7''\<rparr>)]), f)) \<and>
        r_status r = SERVER_ERROR \<and> r_session r = None"
proof -
  have "parse_int ''7'' = Some 7" by (simp add: parse_int_def parse_nat_def is_digit_def digit_val_def)
  then show ?thesis
    by (simp add: workflow_call_def run_flow_def start_session_def max_tries_def client_start_sample_def start_body_def
        opening_env_def failing_env_def failing_controller_def logging_http_def raise_for_status_def answer_of_def
        flow_init_def client_complete_def is_client_error_def client_errors_def on_first_def on_flow_def
        zoom_def bnd_def andthen_def rbind_def
        ret_def raise_def lift_res_def gets_def modify_def catch_def eval_nat_numeral Let_def)
qed

section \<open>Starting a session\<close>

text \<open>
  What is known of the HTTP library: a request raises an HTTPStatusError only if it is asked for the
  status of a response. Nor does the validation of an answer raise it.
\<close>

definition no_status_error :: "'w http \<Rightarrow> bool" where
  "no_status_error H \<longleftrightarrow>
     (\<forall>p i j w. fst (post_request H p i j w) \<noteq> Inl HTTPStatusError) \<and>
     (\<forall>j. validate_answer H j \<noteq> Inl HTTPStatusError)"

lemma start_sample_errors:
  assumes "no_status_error H"
  shows "wp (client_start_sample H task ix custom) (\<lambda>_ _. True) (\<lambda>e _. e \<noteq> HTTPStatusError) w"
proof -
  have post: "wp (post_request H p i j) (\<lambda>_ _. True) (\<lambda>e _. e \<noteq> HTTPStatusError) w" for p i j w
    using assms by (auto simp: no_status_error_def wp_def split: prod.splits sum.splits) (metis fst_conv)
  have answer: "wp (answer_of H r) (\<lambda>_ _. True) (\<lambda>e _. e \<noteq> HTTPStatusError) w" for r w
    using assms
    by (auto simp: answer_of_def no_status_error_def messages_not_empty_def rbind_def split: sum.splits option.splits)
  show ?thesis
    unfolding client_start_sample_def wp_bnd wp_lift_res
    by (auto simp: start_body_def raise_for_status_def Let_def split: sum.splits option.splits
        intro!: wp_mono [OF post] wp_mono [OF answer])
qed

lemma catch_never:
  assumes "wp m (\<lambda>_ _. True) (\<lambda>e _. e \<noteq> x) w"
  shows "catch m (\<lambda>e. if e = x \<and> b then k else raise e) w = m w"
  using assms by (auto simp: catch_def raise_def wp_def split: prod.splits sum.splits)

text \<open>
  Starting a session is not tried again. The client turns an error status into a RuntimeError,
  while the workflow tries again only on an HTTPStatusError, so its up to ten tries are one request.
\<close>

lemma start_is_not_retried:
  assumes "no_status_error (http E)"
  shows "start_tries E sp max_tries = client_start_sample (http E) (sp_task sp) (sp_index sp) (sp_custom sp)"
proof
  fix w
  have tries: "max_tries = Suc 9" by (simp add: max_tries_def)
  show "start_tries E sp max_tries w = client_start_sample (http E) (sp_task sp) (sp_index sp) (sp_custom sp) w"
    using start_sample_errors [OF assms, of "sp_task sp" "sp_index sp" "sp_custom sp" w]
    unfolding tries start_tries.simps by (rule catch_never)
qed

lemma start_is_not_retried_witness:
  "start_tries failing_env \<lparr>sp_model = ''m'', sp_run = 0, sp_task = ''t'', sp_index = IntIx 1, sp_custom = None\<rparr> max_tries =
     client_start_sample failing_controller ''t'' (IntIx 1) None"
proof -
  have "no_status_error (http failing_env)"
    by (simp add: no_status_error_def failing_env_def failing_controller_def ret_def)
  from start_is_not_retried [OF this] show ?thesis by (simp add: failing_env_def)
qed

text \<open>An answer of the model is lost when a renewal has failed: the error of the renewal takes its place.\<close>

lemma failed_renewal_discards_answer:
  assumes "controller_renew E" and "renew_session E t = (Inl e, u)"
    and "catch
          (bnd (gets snd) (\<lambda>f.
           bnd (on_first ((models E ! k) (messages f) (tools f) (task_key sp))) (\<lambda>ms.
           if ms = [] then raise AssertionError else ret (Inr ms))))
          (\<lambda>e. bnd (client_complete E sp MODEL_ERROR (error_text E e)) (\<lambda>r. ret (Inl r))) s = (Inr (Inr ms), t)"
  shows "ask_model E sp k s = (Inl e, u)"
  using assms by (simp add: ask_model_def finally_do_def)

text \<open>An answer that ends the session without messages is valid, but the workflow cannot take it.\<close>

lemma finish_without_messages:
  assumes "a_finish a = Some True" and "a_messages a = None" and "a_status a = Some st"
  shows "messages_not_empty a = Inr a \<and> fst (rounds E sp (Suc n) a s) = Inl TypeError"
  using assms
  by (simp add: messages_not_empty_def andthen_def bnd_def set_tools_def modify_def on_flow_def zoom_def
      set_messages_def split: prod.split)

end
