(* ===== verification/Eval_Runner.thy ===== *)
theory Eval_Runner
  imports Eval_Store Eval_Workflow "HOL-Library.Multiset"
begin

text \<open>
  The evaluation runner (eval/src/agentrl/eval/session/runner.py): which models and which
  specifications are evaluated, and the workers that take specifications from a queue, run the
  workflow on them and record its results. Steps of workers between two awaits are atomic; events for
  the user interface are left out.
\<close>

section \<open>Models\<close>

text \<open>
  The clients are numbers. \<open>client_names\<close> are the names they report, with the option for thinking;
  the state is the dictionary from names to clients, which is empty at first.
\<close>

record runner =
  client_names :: "(string \<times> bool option) list"
  cross_sample :: bool
  start_sample :: bool
  view_only :: bool

type_synonym clients = "(string, nat list) dict"

definition named_clients :: "runner \<Rightarrow> clients" where
  "named_clients R =
     fold (\<lambda>(k, n, thinking). dict_set (normalize_model_name n thinking) [k])
       (zip [0..<length (client_names R)] (client_names R)) []"

definition gather_models :: "runner \<Rightarrow> (clients, string list) proc" where
  "gather_models R =
     (if start_sample R then ret [''start-sample'']
      else if client_names R = [] then ret []
      else andthen (modify (\<lambda>d. if d = [] then named_clients R else d))
        (bnd (gets dict_keys) (\<lambda>model_names.
         if cross_sample R then
           (let joined = join_with ''-'' model_names
            in andthen (modify (dict_set joined [0..<length (client_names R)])) (ret [joined]))
         else ret model_names)))"

section \<open>Specifications\<close>

definition index_of :: "json \<Rightarrow> task_index res" where
  "index_of j = (case j of JInt i \<Rightarrow> Inr (IntIx i) | JStr s \<Rightarrow> Inr (StrIx s) | _ \<Rightarrow> Inl ValueError)"

definition wanted :: "task_index set \<Rightarrow> task_index \<Rightarrow> bool" where
  "wanted only i \<longleftrightarrow> i \<noteq> IntIx (- 1) \<and> (only = {} \<or> i \<in> only)"

definition specs_of_run :: "string list \<Rightarrow> (string, json) dict \<Rightarrow> nat \<Rightarrow> (string \<times> task_index) list \<Rightarrow> run_spec list" where
  "specs_of_run model_names custom n ixs =
     concat (map (\<lambda>(k, i).
       map (\<lambda>m. \<lparr>sp_model = m, sp_run = n, sp_task = k, sp_index = i, sp_custom = Some custom\<rparr>) model_names) ixs)"

text \<open>
  \<open>random.shuffle\<close> works in place: every run shuffles the order of the run before. It is a
  parameter that depends on the run.
\<close>

primrec specs_of_runs ::
    "(nat \<Rightarrow> (string \<times> task_index) list \<Rightarrow> (string \<times> task_index) list) \<Rightarrow> string list \<Rightarrow> (string, json) dict
      \<Rightarrow> nat list \<Rightarrow> (string \<times> task_index) list \<Rightarrow> run_spec list" where
  "specs_of_runs shuffle model_names custom [] ixs = []"
| "specs_of_runs shuffle model_names custom (n # ns) ixs =
     (let ixs' = shuffle n ixs
      in specs_of_run model_names custom n ixs' @ specs_of_runs shuffle model_names custom ns ixs')"

primrec all_indices :: "'w http \<Rightarrow> task_index set \<Rightarrow> string list \<Rightarrow> ('w, (string \<times> task_index) list) proc" where
  "all_indices H only [] = ret []"
| "all_indices H only (k # ks) =
     bnd (get_indices H k) (\<lambda>j.
     bnd (lift_res (rbind (json_iter j) (rmap index_of))) (\<lambda>ixs.
     bnd (all_indices H only ks) (\<lambda>rest.
     ret (map (Pair k) (filter (wanted only) ixs) @ rest))))"

text \<open>Without a controller, a number of runs and tasks there is nothing to gather.\<close>

definition gather_tasks ::
    "runner \<Rightarrow> 'w http option \<Rightarrow> nat option \<Rightarrow> string list option \<Rightarrow> task_index set \<Rightarrow> (string, json) dict
      \<Rightarrow> (nat \<Rightarrow> (string \<times> task_index) list \<Rightarrow> (string \<times> task_index) list) \<Rightarrow> ('w \<times> clients, run_spec list) proc" where
  "gather_tasks R controller runs tasks only custom shuffle =
     (case (controller, runs, tasks) of
        (Some H, Some n, Some ks) \<Rightarrow>
          bnd (zoom snd (\<lambda>d s. (fst s, d)) (gather_models R)) (\<lambda>model_names.
          bnd (on_first (all_indices H only ks)) (\<lambda>ixs.
          ret (specs_of_runs shuffle model_names custom [0..<n] ixs)))
      | _ \<Rightarrow> ret [])"

definition result_list_prefix :: "runner \<Rightarrow> string list option \<Rightarrow> (clients, string) proc" where
  "result_list_prefix R tasks =
     bnd (gather_models R) (\<lambda>model_names.
     ret (result_prefix (if length model_names = 1 then Some (hd model_names) else None)
       (case tasks of Some [k] \<Rightarrow> Some k | _ \<Rightarrow> None) (view_only R)))"

section \<open>Workers\<close>

datatype eval_worker = Taking | Running run_spec | Stopped | Broken | Aborted

record evaluation =
  specs_queue :: "run_spec list"
  workers :: "eval_worker list"
  ev_store :: store
  recorded_specs :: "run_spec list"

definition pending :: "run_spec list \<Rightarrow> row list \<Rightarrow> run_spec list" where
  "pending specs rows = filter (\<lambda>s. run_key s \<notin> fst ` set (completed rows)) specs"

definition evaluation_init :: "nat \<Rightarrow> run_spec list \<Rightarrow> store \<Rightarrow> evaluation" where
  "evaluation_init concurrency specs st =
     \<lparr>specs_queue = pending specs (s_rows st), workers = replicate concurrency Taking, ev_store = st,
      recorded_specs = []\<rparr>"

text \<open>The head of the loop of a worker: the test and the take are one step.\<close>

definition worker_take :: "nat \<Rightarrow> evaluation \<Rightarrow> evaluation" where
  "worker_take i v =
     (if i < length (workers v) \<and> workers v ! i = Taking then
        (case specs_queue v of
           [] \<Rightarrow> v\<lparr>workers := (workers v)[i := Stopped]\<rparr>
         | s # q \<Rightarrow> v\<lparr>specs_queue := q, workers := (workers v)[i := Running s]\<rparr>)
      else v)"

text \<open>The workflow has returned a result for the specification of the worker; it is recorded.\<close>

definition worker_record ::
    "file_types \<Rightarrow> (row \<Rightarrow> row list \<Rightarrow> row list) \<Rightarrow> rat \<Rightarrow> nat \<Rightarrow> run_result \<Rightarrow> evaluation \<Rightarrow> evaluation" where
  "worker_record F merge now i r v =
     (if i < length (workers v) then
        (case workers v ! i of
           Running s \<Rightarrow>
             if spec_key (result_spec r) = spec_key s then
               v\<lparr>workers := (workers v)[i := Taking], ev_store := store_record F merge now r (ev_store v),
                 recorded_specs := recorded_specs v @ [s]\<rparr>
             else v
         | _ \<Rightarrow> v)
      else v)"

text \<open>Recording has raised: the exception leaves the worker, and the other workers are cancelled.\<close>

definition abort :: "eval_worker \<Rightarrow> eval_worker" where
  "abort x = (case x of Taking \<Rightarrow> Aborted | Running s \<Rightarrow> Aborted | _ \<Rightarrow> x)"

definition worker_fail :: "nat \<Rightarrow> evaluation \<Rightarrow> evaluation" where
  "worker_fail i v =
     (if i < length (workers v) then
        (case workers v ! i of
           Running s \<Rightarrow> v\<lparr>workers := map abort ((workers v)[i := Broken])\<rparr>
         | _ \<Rightarrow> v)
      else v)"

datatype eval_event = Take nat | Record rat nat run_result | Fail nat

definition eval_step ::
    "file_types \<Rightarrow> (row \<Rightarrow> row list \<Rightarrow> row list) \<Rightarrow> eval_event \<Rightarrow> evaluation \<Rightarrow> evaluation" where
  "eval_step F merge e v =
     (case e of
        Take i \<Rightarrow> worker_take i v
      | Record now i r \<Rightarrow> worker_record F merge now i r v
      | Fail i \<Rightarrow> worker_fail i v)"

text \<open>The end of \<open>run\<close>: the results are saved in any case.\<close>

definition run_end :: "rat \<Rightarrow> evaluation \<Rightarrow> evaluation" where
  "run_end now v = v\<lparr>ev_store := store_save True now (ev_store v)\<rparr>"

section \<open>Order of evaluation\<close>

lemma mset_concat_map: "mset (concat (map g xs)) = sum_mset (image_mset (\<lambda>x. mset (g x)) (mset xs))"
  by (induction xs) simp_all

lemma specs_of_run_mset:
  assumes "mset ixs' = mset ixs"
  shows "mset (specs_of_run ms custom n ixs') = mset (specs_of_run ms custom n ixs)"
  unfolding specs_of_run_def mset_concat_map assms by (rule refl)

lemma specs_of_run_runs: "map sp_run (specs_of_run ms custom n ixs) = replicate (length ixs * length ms) n"
  unfolding specs_of_run_def
  by (induction ixs) (auto simp: map_replicate_const replicate_add comp_def)

text \<open>
  Every model meets every index once in every run, and a run is complete before the next
  begins: whatever the shuffles do, the specifications are those of the runs in order, each with
  the pairs of indices and models in some order.
\<close>

lemma runs_in_order:
  assumes "\<And>n xs. mset (shuffle n xs) = mset xs"
  shows "map sp_run (specs_of_runs shuffle ms custom ns ixs) =
           concat (map (\<lambda>n. replicate (length ixs * length ms) n) ns) \<and>
         mset (specs_of_runs shuffle ms custom ns ixs) =
           mset (concat (map (\<lambda>n. specs_of_run ms custom n ixs) ns))"
proof (induction ns arbitrary: ixs)
  case (Cons n ns)
  have same: "mset (specs_of_run ms custom k (shuffle n ixs)) = mset (specs_of_run ms custom k ixs)" for k
    by (rule specs_of_run_mset) (rule assms)
  have len: "length (shuffle n ixs) = length ixs" using assms by (metis size_mset)
  have rest: "mset (concat (map (\<lambda>k. specs_of_run ms custom k (shuffle n ixs)) ns)) =
      mset (concat (map (\<lambda>k. specs_of_run ms custom k ixs) ns))"
    by (induction ns) (simp_all add: same)
  show ?case
    using Cons.IH [of "shuffle n ixs"] by (simp add: Let_def len specs_of_run_runs same rest)
qed simp

lemma runs_in_order_witness:
  "map sp_run (specs_of_runs (\<lambda>n. rev) [''m''] [] [0, 1] [(''t'', IntIx 1), (''t'', IntIx 2)]) = [0, 0, 1, 1]"
proof -
  have "map sp_run (specs_of_runs (\<lambda>n. rev) [''m''] [] [0, 1] [(''t'', IntIx 1), (''t'', IntIx 2)]) =
      concat (map (\<lambda>n. replicate (length [(''t'', IntIx 1), (''t'', IntIx 2)] * length [''m'']) n) [0, 1])"
    using runs_in_order [of "\<lambda>n. rev" "[''m'']" "[]" "[0, 1]" "[(''t'', IntIx 1), (''t'', IntIx 2)]"] by simp
  then show ?thesis by (simp add: eval_nat_numeral)
qed

section \<open>Names under cross sampling\<close>

text \<open>
  With cross sampling over several models, the specifications do not carry the name under which
  the results are kept: every call joins the names anew, the joined name of the call before
  included, and the list of results has asked once already.
\<close>

lemma cross_sampling_renames:
  assumes "client_names R \<noteq> []" and "cross_sample R" and "\<not> start_sample R"
    and "join_with ''-'' (dict_keys (named_clients R)) \<notin> set (dict_keys (named_clients R))"
  shows "let first = join_with ''-'' (dict_keys (named_clients R));
             d = snd (gather_models R [])
         in fst (gather_models R []) = Inr [first] \<and>
            fst (gather_models R d) = Inr [join_with ''-'' (dict_keys (named_clients R) @ [first])]"
proof -
  have new: "dict_set k v d = d @ [(k, v)]" if "k \<notin> fst ` set d" for k :: string and v :: "nat list" and d
    using that by (induction d) auto
  let ?d = "named_clients R" and ?first = "join_with ''-'' (dict_keys (named_clients R))"
  have call: "gather_models R d =
      (let names = dict_keys (if d = [] then ?d else d); joined = join_with ''-'' names
       in (Inr [joined], dict_set joined [0..<length (client_names R)] (if d = [] then ?d else d)))" for d
    using assms(1-3)
    by (simp add: gather_models_def andthen_def bnd_def modify_def gets_def ret_def Let_def)
  have d: "dict_set ?first [0..<length (client_names R)] ?d = ?d @ [(?first, [0..<length (client_names R)])]"
    by (rule new) (use assms(4) in simp)
  show ?thesis unfolding call [of "[]"] Let_def by (simp add: d call Let_def)
qed

lemma cross_sampling_renames_witness:
  "let R = \<lparr>client_names = [(''a'', None), (''b'', None)], cross_sample = True, start_sample = False, view_only = False\<rparr>
   in fst (gather_models R []) = Inr [''a-b''] \<and>
      fst (gather_models R (snd (gather_models R []))) = Inr [''a-b-a-b'']"
proof -
  let ?R = "\<lparr>client_names = [(''a'', None), (''b'', None)], cross_sample = True, start_sample = False, view_only = False\<rparr>"
  have keys: "dict_keys (named_clients ?R) = [''a'', ''b'']" by code_simp
  show ?thesis
    using cross_sampling_renames [of ?R] by (simp add: keys Let_def)
qed

section \<open>Every specification is recorded\<close>

definition held_by :: "eval_worker \<Rightarrow> run_spec multiset" where
  "held_by x = (case x of Running s \<Rightarrow> {#s#} | _ \<Rightarrow> {#})"

definition held :: "eval_worker list \<Rightarrow> run_spec multiset" where
  "held ws = sum_list (map held_by ws)"

lemma held_update:
  "i < length ws \<Longrightarrow> held (ws[i := x]) + held_by (ws ! i) = held ws + held_by x"
proof (induction ws arbitrary: i)
  case (Cons w ws)
  then show ?case by (cases i) (simp_all add: held_def ac_simps)
qed simp

definition row_for :: "row list \<Rightarrow> run_spec \<Rightarrow> bool" where
  "row_for rows s \<longleftrightarrow> (\<exists>r \<in> set rows. row_key r = spec_key s)"

text \<open>
  While no worker is broken, the specifications are in the queue, with a worker, or recorded; a
  recorded one has a row; and a worker has stopped only when the queue was empty.
\<close>

definition balanced :: "run_spec list \<Rightarrow> evaluation \<Rightarrow> bool" where
  "balanced specs v \<longleftrightarrow>
     (Broken \<notin> set (workers v) \<longrightarrow>
        mset (specs_queue v) + held (workers v) + mset (recorded_specs v) = mset specs \<and>
        (Stopped \<in> set (workers v) \<longrightarrow> specs_queue v = [])) \<and>
     (\<forall>s \<in> set (recorded_specs v). row_for (s_rows (ev_store v)) s)"

lemma Broken_update:
  "i < length ws \<Longrightarrow> ws ! i \<noteq> Broken \<Longrightarrow> x \<noteq> Broken \<Longrightarrow> Broken \<in> set (ws[i := x]) \<longleftrightarrow> Broken \<in> set ws"
  by (auto simp: in_set_conv_nth nth_list_update split: if_splits)

lemma Stopped_update:
  "i < length ws \<Longrightarrow> x \<noteq> Stopped \<Longrightarrow> Stopped \<in> set (ws[i := x]) \<Longrightarrow> Stopped \<in> set ws"
  using set_update_subset_insert [of ws i x] by auto

lemma balanced_take: "balanced specs v \<Longrightarrow> balanced specs (worker_take i v)"
proof -
  assume v: "balanced specs v"
  show ?thesis
  proof (cases "i < length (workers v) \<and> workers v ! i = Taking")
    case True
    then have upd: "held ((workers v)[i := x]) = held (workers v) + held_by x" for x
      using held_update [of i "workers v" x] by (simp add: held_by_def)
    show ?thesis
    proof (cases "specs_queue v")
      case Nil
      then show ?thesis using v True
        by (simp add: worker_take_def balanced_def Broken_update upd held_by_def)
    next
      case (Cons s q)
      then show ?thesis using v True
        by (auto simp: worker_take_def balanced_def Broken_update upd held_by_def dest: Stopped_update)
    qed
  qed (auto simp: worker_take_def v)
qed

lemma row_for_record:
  assumes "merges merge"
  shows "row_for (s_rows (store_record F merge now r st)) s \<longleftrightarrow>
    spec_key s = spec_key (result_spec r) \<or> row_for (s_rows st) s"
  unfolding row_for_def rows_after_record [OF assms]
  by (auto simp: row_key_def spec_key_def result_row_def result_spec_def)

lemma balanced_record:
  assumes "merges merge" and v: "balanced specs v"
  shows "balanced specs (worker_record F merge now i r v)"
proof (cases "\<exists>s. i < length (workers v) \<and> workers v ! i = Running s \<and> spec_key (result_spec r) = spec_key s")
  case True
  then obtain s where s: "i < length (workers v)" "workers v ! i = Running s" "spec_key (result_spec r) = spec_key s"
    by blast
  have upd: "held (workers v) = add_mset s (held ((workers v)[i := Taking]))"
    using held_update [OF s(1), of Taking] s(2) by (simp add: held_by_def)
  show ?thesis
    using v s upd
    by (auto simp: worker_record_def balanced_def Broken_update row_for_record [OF assms(1)] dest: Stopped_update)
next
  case False
  then have "worker_record F merge now i r v = v"
    by (auto simp: worker_record_def split: eval_worker.split)
  then show ?thesis using v by simp
qed

lemma balanced_fail: "balanced specs v \<Longrightarrow> balanced specs (worker_fail i v)"
  by (auto simp: worker_fail_def balanced_def abort_def set_update_memI image_iff split: eval_worker.splits)

lemma balanced_steps:
  "merges merge \<Longrightarrow> balanced specs v \<Longrightarrow> balanced specs (fold (eval_step F merge) es v)"
  by (induction es arbitrary: v)
    (auto simp: eval_step_def balanced_take balanced_record balanced_fail split: eval_event.split)

text \<open>
  C9: an evaluation leaves nothing out. However its workers interleave and whatever the workflows
  return: when all workers have stopped, the specifications that were not completed before have been
  recorded once each, every specification has a row or was completed before, and the end of the run
  has saved all rows.
\<close>

theorem every_specification_recorded:
  assumes "merges merge"
    and v: "v = fold (eval_step F merge) es (evaluation_init concurrency specs st)"
    and stopped: "set (workers v) = {Stopped}"
  shows "mset (recorded_specs v) = mset (pending specs (s_rows st)) \<and>
    (\<forall>s \<in> set specs. row_for (s_rows (ev_store v)) s \<or> run_key s \<in> fst ` set (completed (s_rows st))) \<and>
    s_saved (ev_store (run_end now v)) = s_rows (ev_store v)"
proof -
  have "held (replicate n Taking) = {#}" for n by (induction n) (simp_all add: held_def held_by_def)
  then have "balanced (pending specs (s_rows st)) (evaluation_init concurrency specs st)"
    by (auto simp: balanced_def evaluation_init_def in_set_replicate)
  then have b: "balanced (pending specs (s_rows st)) v" unfolding v by (rule balanced_steps [OF assms(1)])
  have "held ws = {#}" if "set ws \<subseteq> {Stopped}" for ws
    using that by (induction ws) (auto simp: held_def held_by_def)
  then have all: "mset (recorded_specs v) = mset (pending specs (s_rows st))"
    using b stopped by (auto simp: balanced_def)
  have "row_for (s_rows (ev_store v)) s \<or> run_key s \<in> fst ` set (completed (s_rows st))" if "s \<in> set specs" for s
  proof (cases "run_key s \<in> fst ` set (completed (s_rows st))")
    case False
    then have "s \<in> set (pending specs (s_rows st))" using that by (simp add: pending_def)
    then have "s \<in> set (recorded_specs v)" using mset_eq_setD [OF all] by simp
    then show ?thesis using b by (simp add: balanced_def)
  qed simp
  then show ?thesis using all by (simp add: run_end_def store_save_def)
qed

lemma every_specification_recorded_witness:
  "let s = \<lparr>sp_model = ''m'', sp_run = 0, sp_task = ''t'', sp_index = IntIx 1, sp_custom = None\<rparr>;
       r = \<lparr>r_model = ''m'', r_session = Some 5, r_run = 0, r_task = ''t'', r_index = IntIx 1, r_status = COMPLETED,
            r_reward = Some 1, r_score = None, r_metrics = None, r_result = None, r_task_trace = None, r_raw_trace = None\<rparr>;
       F = \<lparr>sha256 = (\<lambda>s. s), guess_extension = (\<lambda>m. None), guess_file_type = (\<lambda>n. None)\<rparr>;
       merge = (\<lambda>r rows. r # filter (\<lambda>x. row_key x \<noteq> row_key r) rows);
       st = \<lparr>s_rows = [], s_files = [], s_saved = [], s_last_save = 0, s_multi_model = True, s_multi_task = True\<rparr>;
       v = fold (eval_step F merge) [Take 1, Take 0, Record 1 1 r, Take 1] (evaluation_init 2 [s] st)
   in workers v = [Stopped, Stopped] \<and> recorded_specs v = [s]"
proof -
  let ?s = "\<lparr>sp_model = ''m'', sp_run = 0, sp_task = ''t'', sp_index = IntIx 1, sp_custom = None\<rparr>"
  let ?r = "\<lparr>r_model = ''m'', r_session = Some 5, r_run = 0, r_task = ''t'', r_index = IntIx 1, r_status = COMPLETED,
            r_reward = Some 1, r_score = None, r_metrics = None, r_result = None, r_task_trace = None, r_raw_trace = None\<rparr>"
  let ?F = "\<lparr>sha256 = (\<lambda>s. s), guess_extension = (\<lambda>m. None), guess_file_type = (\<lambda>n. None)\<rparr>"
  let ?merge = "\<lambda>r rows. r # filter (\<lambda>x. row_key x \<noteq> row_key r) rows"
  let ?st = "\<lparr>s_rows = [], s_files = [], s_saved = [], s_last_save = 0, s_multi_model = True, s_multi_task = True\<rparr>"
  let ?v = "fold (eval_step ?F ?merge) [Take 1, Take 0, Record 1 1 ?r, Take 1] (evaluation_init 2 [?s] ?st)"
  have merges: "merges ?merge" by (auto simp: merges_def)
  have w: "workers ?v = [Stopped, Stopped]" and pend: "pending [?s] (s_rows ?st) = [?s]"
    by (simp_all add: eval_step_def worker_take_def worker_record_def evaluation_init_def pending_def completed_def
        spec_key_def result_spec_def eval_nat_numeral)
  then have "mset (recorded_specs ?v) = {#?s#}"
    using every_specification_recorded [OF merges refl, of ?F "[Take 1, Take 0, Record 1 1 ?r, Take 1]" 2 "[?s]" ?st]
    by simp
  then show ?thesis using w by (simp add: Let_def)
qed

end
