(* ===== verification/Eval_Images.thy ===== *)
theory Eval_Images
  imports Eval_Types Convert_Messages Data_Url
begin

text \<open>
  Images in the messages to a model (eval/src/agentrl/eval/utils/messages.py): keeping the last ones
  only, and bringing them to a size. Opening, scaling and writing an image is a parameter; factors
  are exact rationals.
\<close>

section \<open>Keeping the last images\<close>

definition is_image_type :: "json \<Rightarrow> bool" where
  "is_image_type t \<longleftrightarrow> t \<in> JStr ` {''image'', ''image_url'', ''input_image'', ''output_image''}"

text \<open>
  The loops run over reversed lists and reverse their results: the last entry comes first. The
  number is that of the images kept so far.
\<close>

primrec from_end :: "('a \<Rightarrow> nat \<Rightarrow> ('b list \<times> nat) res) \<Rightarrow> 'a list \<Rightarrow> nat \<Rightarrow> ('b list \<times> nat) res" where
  "from_end f [] n = Inr ([], n)"
| "from_end f (x # xs) n =
     rbind (from_end f xs n) (\<lambda>(ys, m). rbind (f x m) (\<lambda>(zs, k). Inr (zs @ ys, k)))"

definition keep_image :: "nat \<Rightarrow> json \<Rightarrow> nat \<Rightarrow> json list \<times> nat" where
  "keep_image max_images b n = (if n < max_images then ([b], n + 1) else ([], n))"

definition trim_sub_block :: "nat \<Rightarrow> json \<Rightarrow> nat \<Rightarrow> (json list \<times> nat) res" where
  "trim_sub_block max_images b n =
     rbind (json_get b ''type'' JNull) (\<lambda>t.
     Inr (if is_image_type t then keep_image max_images b n else ([b], n)))"

definition trim_block :: "nat \<Rightarrow> json \<Rightarrow> nat \<Rightarrow> (json list \<times> nat) res" where
  "trim_block max_images b n =
     (case b of
        JObj d \<Rightarrow>
          (case dict_get d ''content'' of
             Some (JList subs) \<Rightarrow>
               rbind (from_end (trim_sub_block max_images) subs n) (\<lambda>(subs', m).
               Inr ([JObj (dict_set ''content'' (JList subs') d)], m))
           | _ \<Rightarrow> Inr (if is_image_type (dict_get_or d ''type'' JNull) then keep_image max_images b n else ([b], n)))
      | _ \<Rightarrow> Inr ([b], n))"

definition trim_key :: "nat \<Rightarrow> string \<Rightarrow> (string, json) dict \<times> nat \<Rightarrow> ((string, json) dict \<times> nat) res" where
  "trim_key max_images k x =
     (let (d, n) = x
      in case dict_get d k of
           Some (JList bs) \<Rightarrow>
             rbind (from_end (trim_block max_images) bs n) (\<lambda>(bs', m). Inr (dict_set k (JList bs') d, m))
         | _ \<Rightarrow> Inr (d, n))"

definition trim_message :: "nat \<Rightarrow> json \<Rightarrow> nat \<Rightarrow> (json list \<times> nat) res" where
  "trim_message max_images message n =
     (case message of
        JObj d \<Rightarrow>
          rbind (trim_key max_images ''content'' (d, n)) (\<lambda>x.
          rbind (trim_key max_images ''input'' x) (\<lambda>y.
          rbind (trim_key max_images ''output'' y) (\<lambda>(d', m).
          Inr ([JObj d'], m))))
      | _ \<Rightarrow> Inr ([message], n))"

definition trim_images :: "nat \<Rightarrow> json list \<Rightarrow> json list res" where
  "trim_images max_images messages =
     rbind (from_end (trim_message max_images) messages 0) (\<lambda>(ms, n). Inr ms)"

section \<open>Sizes\<close>

datatype size_spec = MinSide nat | MaxSide nat | Exact nat nat

text \<open>\<open>512+\<close>, \<open>1024-\<close> or \<open>800x600\<close>.\<close>

definition is_cross :: "char \<Rightarrow> bool" where
  "is_cross c \<longleftrightarrow> c = CHR ''x'' \<or> c = CHR ''X''"

definition positive :: "nat \<Rightarrow> nat res" where
  "positive n = (if n = 0 then Inl ValueError else Inr n)"

definition parse_size :: "string \<Rightarrow> size_spec res" where
  "parse_size image_size =
     (let s = str_strip image_size
      in if s = [] then Inl ValueError
         else case (last s = CHR ''+'', last s = CHR ''-'', parse_nat (butlast s)) of
                (True, _, Some n) \<Rightarrow> rbind (positive n) (\<lambda>n. Inr (MinSide n))
              | (_, True, Some n) \<Rightarrow> rbind (positive n) (\<lambda>n. Inr (MaxSide n))
              | _ \<Rightarrow>
                  (case (parse_nat (takeWhile (\<lambda>c. \<not> is_cross c) s), dropWhile (\<lambda>c. \<not> is_cross c) s) of
                     (Some w, _ # t) \<Rightarrow>
                       (case parse_nat t of
                          Some h \<Rightarrow> rbind (positive w) (\<lambda>w. rbind (positive h) (\<lambda>h. Inr (Exact w h)))
                        | None \<Rightarrow> Inl ValueError)
                   | _ \<Rightarrow> Inl ValueError))"

definition scaled :: "nat \<Rightarrow> nat \<Rightarrow> nat \<times> nat \<Rightarrow> nat \<times> nat" where
  "scaled v current wh =
     (let scale = (of_nat v :: rat) / of_nat current
      in if \<bar>scale - 1\<bar> < 1 / 10 ^ 9 then wh
         else (max 1 (nat (round_even (of_nat (fst wh) * scale))), max 1 (nat (round_even (of_nat (snd wh) * scale)))))"

definition compute_target_size :: "size_spec \<Rightarrow> nat \<times> nat \<Rightarrow> nat \<times> nat" where
  "compute_target_size spec wh =
     (if fst wh = 0 \<or> snd wh = 0 then wh
      else case spec of
             Exact w h \<Rightarrow> (w, h)
           | MinSide v \<Rightarrow> scaled v (min (fst wh) (snd wh)) wh
           | MaxSide v \<Rightarrow> scaled v (max (fst wh) (snd wh)) wh)"

text \<open>The image library: the size of an image, and the image in another size; either may fail.\<close>

record imaging =
  image_size :: "string \<Rightarrow> (nat \<times> nat) option"
  resized_to :: "string \<Rightarrow> string \<Rightarrow> nat \<times> nat \<Rightarrow> string option"

definition resize_payload :: "imaging \<Rightarrow> size_spec \<Rightarrow> string \<Rightarrow> string \<Rightarrow> string option" where
  "resize_payload P spec m bytes =
     (case image_size P bytes of
        None \<Rightarrow> None
      | Some wh \<Rightarrow>
          if compute_target_size spec wh = wh then None
          else resized_to P m bytes (compute_target_size spec wh))"

definition is_image_mime :: "string \<Rightarrow> bool" where
  "is_image_mime m \<longleftrightarrow> take 6 m = ''image/''"

definition resize_string :: "imaging \<Rightarrow> size_spec \<Rightarrow> string \<Rightarrow> string" where
  "resize_string P spec s =
     (case parse_data_url s of
        None \<Rightarrow> s
      | Some u \<Rightarrow>
          if is_image_mime (mime u) then
            (case resize_payload P spec (mime u) (payload u) of
               None \<Rightarrow> s
             | Some bytes \<Rightarrow> build_data_url (mime u) bytes (params u))
          else s)"

text \<open>A source of Anthropic's form: None if it is none.\<close>

definition handle_base64_dict :: "imaging \<Rightarrow> size_spec \<Rightarrow> (string, json) dict \<Rightarrow> (string, json) dict option" where
  "handle_base64_dict P spec d =
     (if dict_get d ''type'' \<noteq> Some (JStr ''base64'') then None
      else Some
        (case (dict_get d ''media_type'', dict_get d ''data'') of
           (Some (JStr m), Some (JStr s)) \<Rightarrow>
             if is_image_mime (str_lower m) then
               (case lenient_b64decode s of
                  None \<Rightarrow> d
                | Some bytes \<Rightarrow>
                    (case resize_payload P spec (str_lower m) bytes of
                       None \<Rightarrow> d
                     | Some new \<Rightarrow> dict_set ''data'' (JStr (b64encode new)) d))
             else d
         | _ \<Rightarrow> d))"

fun maybe_resize :: "imaging \<Rightarrow> size_spec \<Rightarrow> json \<Rightarrow> json" where
  "maybe_resize P spec (JStr s) = JStr (resize_string P spec s)"
| "maybe_resize P spec (JObj d) =
     (case handle_base64_dict P spec d of
        Some d' \<Rightarrow> JObj d'
      | None \<Rightarrow> JObj (map (\<lambda>e. (fst e, maybe_resize P spec (snd e))) d))"
| "maybe_resize P spec (JList xs) = JList (map (maybe_resize P spec) xs)"
| "maybe_resize P spec j = j"

definition resize_images :: "imaging \<Rightarrow> string \<Rightarrow> json list \<Rightarrow> json list res" where
  "resize_images P wanted_size messages =
     rbind (parse_size wanted_size) (\<lambda>spec. Inr (map (maybe_resize P spec) messages))"

section \<open>Which images are kept\<close>

text \<open>The last entries of a list.\<close>

definition lastn :: "nat \<Rightarrow> 'a list \<Rightarrow> 'a list" where
  "lastn n xs = drop (length xs - n) xs"

lemma lastn_simps [simp]: "lastn 0 xs = []" "lastn n [] = []" "length (lastn n xs) = min n (length xs)"
  by (auto simp: lastn_def)

lemma lastn_append: "lastn (n - min n (length ys)) xs @ lastn n ys = lastn n (xs @ ys)"
  by (cases "n \<le> length ys") (auto simp: lastn_def min_def)

lemma lastn_one: "lastn n [x] = (if n = 0 then [] else [x])"
  by (cases n) (simp_all add: lastn_def)

text \<open>
  A step keeps the last of the images of its entry, as many as are left, counts them, and leaves the
  rest of the entry as it is. Then so does the loop.
\<close>

definition keeps_last ::
    "nat \<Rightarrow> ('a \<Rightarrow> 'c list) \<Rightarrow> ('a \<Rightarrow> 'd list) \<Rightarrow> ('a \<Rightarrow> nat \<Rightarrow> ('a list \<times> nat) res) \<Rightarrow> bool" where
  "keeps_last max_images images rest f \<longleftrightarrow>
     (\<forall>x n zs k. f x n = Inr (zs, k) \<longrightarrow>
        concat (map images zs) = lastn (max_images - n) (images x) \<and>
        k = n + min (max_images - n) (length (images x)) \<and> concat (map rest zs) = rest x)"

lemma keeps_last_from_end:
  assumes "keeps_last max_images images rest f" and "from_end f xs n = Inr (zs, k)"
  shows "concat (map images zs) = lastn (max_images - n) (concat (map images xs)) \<and>
    k = n + min (max_images - n) (length (concat (map images xs))) \<and>
    concat (map rest zs) = concat (map rest xs)"
  using assms(2)
proof (induction xs arbitrary: zs k)
  case (Cons x xs)
  then obtain ys m us where ys: "from_end f xs n = Inr (ys, m)" and us: "f x m = Inr (us, k)" and zs: "zs = us @ ys"
    by (auto simp: rbind_def split: sum.splits)
  let ?r = "max_images - n" and ?tail = "concat (map images xs)"
  have IH: "concat (map images ys) = lastn ?r ?tail" "m = n + min ?r (length ?tail)" "concat (map rest ys) = concat (map rest xs)"
    using Cons.IH [OF ys] by simp_all
  have left: "max_images - m = ?r - min ?r (length ?tail)" using IH(2) by simp
  have "concat (map images us) = lastn (max_images - m) (images x)" and k: "k = m + min (max_images - m) (length (images x))"
    and us_rest: "concat (map rest us) = rest x"
    using assms(1) us by (auto simp: keeps_last_def)
  then have "concat (map images zs) = lastn ?r (images x @ ?tail)"
    by (simp only: zs map_append concat_append IH(1) left lastn_append)
  moreover have "k = n + min ?r (length (images x @ ?tail))"
    unfolding k left IH(2) by (auto simp: min_def)
  moreover have "concat (map rest zs) = rest x @ concat (map rest xs)"
    by (simp only: zs map_append concat_append IH(3) us_rest)
  ultimately show ?case by simp
qed simp

text \<open>The images of a block, of the entries of a message and of a message, and the rest of them.\<close>

definition image_of_sub :: "json \<Rightarrow> json list" where
  "image_of_sub b = (case b of JObj d \<Rightarrow> if is_image_type (dict_get_or d ''type'' JNull) then [b] else [] | _ \<Rightarrow> [])"

definition rest_of_sub :: "json \<Rightarrow> json list" where
  "rest_of_sub b = (if image_of_sub b = [] then [b] else [])"

definition images_of_block :: "json \<Rightarrow> json list" where
  "images_of_block b =
     (case b of
        JObj d \<Rightarrow> (case dict_get d ''content'' of
                    Some (JList subs) \<Rightarrow> concat (map image_of_sub subs)
                  | _ \<Rightarrow> image_of_sub b)
      | _ \<Rightarrow> [])"

definition rest_of_block :: "json \<Rightarrow> json list" where
  "rest_of_block b =
     (case b of
        JObj d \<Rightarrow> (case dict_get d ''content'' of
                    Some (JList subs) \<Rightarrow> [JObj (dict_set ''content'' (JList (concat (map rest_of_sub subs))) d)]
                  | _ \<Rightarrow> rest_of_sub b)
      | _ \<Rightarrow> [b])"

lemma keeps_last_sub: "keeps_last max_images image_of_sub rest_of_sub (trim_sub_block max_images)"
  unfolding keeps_last_def
proof (intro allI impI)
  fix b n zs k assume "trim_sub_block max_images b n = Inr (zs, k)"
  then show "concat (map image_of_sub zs) = lastn (max_images - n) (image_of_sub b) \<and>
      k = n + min (max_images - n) (length (image_of_sub b)) \<and> concat (map rest_of_sub zs) = rest_of_sub b"
    by (cases b) (auto simp: trim_sub_block_def keep_image_def image_of_sub_def rest_of_sub_def lastn_one split: if_splits)
qed

lemma dict_set_again: "dict_set k v (dict_set k w d) = dict_set k v d"
  by (induction d) auto

lemma json_cases_list:
  obtains (list) xs where "v = Some (JList xs)" | (other) "\<And>xs. v \<noteq> Some (JList xs)"
  by blast

lemma not_list_case: "(\<And>xs. v \<noteq> Some (JList xs)) \<Longrightarrow> (case v of Some (JList xs) \<Rightarrow> f xs | _ \<Rightarrow> g) = g"
  by (cases v rule: option.exhaust) (auto split: json.split)

lemma keeps_last_block: "keeps_last max_images images_of_block rest_of_block (trim_block max_images)"
  unfolding keeps_last_def
proof (intro allI impI)
  fix b n zs k assume run: "trim_block max_images b n = Inr (zs, k)"
  show "concat (map images_of_block zs) = lastn (max_images - n) (images_of_block b) \<and>
      k = n + min (max_images - n) (length (images_of_block b)) \<and> concat (map rest_of_block zs) = rest_of_block b"
  proof (cases "\<exists>d. b = JObj d")
    case False
    then have "trim_block max_images b n = Inr ([b], n)" "images_of_block b = []" "rest_of_block b = [b]"
      by (cases b; simp add: trim_block_def images_of_block_def rest_of_block_def)+
    moreover from this run have "zs = [b]" "k = n" by simp_all
    ultimately show ?thesis by simp
  next
    case True
    then obtain d where b: "b = JObj d" by blast
    show ?thesis
    proof (cases "dict_get d ''content''" rule: json_cases_list)
      case (list subs)
      with run b obtain subs' where subs: "from_end (trim_sub_block max_images) subs n = Inr (subs', k)"
        and zs: "zs = [JObj (dict_set ''content'' (JList subs') d)]"
        by (auto simp: trim_block_def rbind_def split: sum.splits)
      show ?thesis
        using keeps_last_from_end [OF keeps_last_sub subs] list
        by (simp add: b zs images_of_block_def rest_of_block_def dict_set_again)
    next
      case other
      with run show ?thesis
        by (auto simp: b trim_block_def images_of_block_def rest_of_block_def not_list_case keep_image_def
            image_of_sub_def rest_of_sub_def lastn_one split: if_splits)
    qed
  qed
qed

definition entries :: "(string, json) dict \<Rightarrow> string \<Rightarrow> json list" where
  "entries d k = (case dict_get d k of Some (JList bs) \<Rightarrow> bs | _ \<Rightarrow> [])"

definition content_keys :: "string list" where
  "content_keys = [''content'', ''input'', ''output'']"

definition images_of_message :: "json \<Rightarrow> json list" where
  "images_of_message m =
     (case m of
        JObj d \<Rightarrow> concat (map (\<lambda>k. concat (map images_of_block (entries d k))) (rev content_keys))
      | _ \<Rightarrow> [])"

text \<open>The rest of a message: its keys in order, and what they hold without the images.\<close>

definition rest_at :: "(string, json) dict \<Rightarrow> string \<Rightarrow> json option" where
  "rest_at d k =
     (case dict_get d k of
        Some (JList bs) \<Rightarrow> Some (JList (if k \<in> set content_keys then concat (map rest_of_block bs) else bs))
      | v \<Rightarrow> v)"

definition rest_of_message :: "json \<Rightarrow> (string list \<times> (string \<Rightarrow> json option) + json) list" where
  "rest_of_message m = [case m of JObj d \<Rightarrow> Inl (dict_keys d, rest_at d) | _ \<Rightarrow> Inr m]"

lemma trim_key_result:
  assumes "trim_key max_images k (d, n) = Inr (d', m)" and "k \<in> set content_keys"
  shows "concat (map images_of_block (entries d' k)) =
           lastn (max_images - n) (concat (map images_of_block (entries d k))) \<and>
         m = n + min (max_images - n) (length (concat (map images_of_block (entries d k)))) \<and>
         (\<forall>k'. k' \<noteq> k \<longrightarrow> entries d' k' = entries d k') \<and> dict_keys d' = dict_keys d \<and> rest_at d' = rest_at d"
proof (cases "dict_get d k" rule: json_cases_list)
  case (list bs)
  with assms(1) obtain bs' where bs: "from_end (trim_block max_images) bs n = Inr (bs', m)"
    and d': "d' = dict_set k (JList bs') d"
    by (auto simp: trim_key_def rbind_def split: sum.splits)
  have "k \<in> set (dict_keys d)" using list by (metis domI dom_map_of_conv_image_fst set_map)
  then show ?thesis
    using keeps_last_from_end [OF keeps_last_block bs] list assms(2)
    by (auto simp: d' entries_def rest_at_def AList.update_keys)
next
  case other
  then have "trim_key max_images k (d, n) = Inr (d, n)" "entries d k = []"
    by (simp_all add: trim_key_def entries_def not_list_case)
  with assms(1) show ?thesis by simp
qed

lemma budget_step:
  fixes n :: nat
  assumes "a = n + min (m - n) c" and "b = a + min (m - a) i"
  shows "b = n + min (m - n) (i + c)"
proof (cases "m - n \<le> c")
  case True
  then have "a = n + (m - n)" using assms(1) by simp
  then show ?thesis using True assms(2) by simp
next
  case False
  then have "a = n + c" using assms(1) by simp
  then have "m - a = (m - n) - c" by simp
  then show ?thesis using False assms(2) \<open>a = n + c\<close> by simp
qed

lemma budget:
  fixes n :: nat
  assumes "n1 = n + min (m - n) c" and "n2 = n1 + min (m - n1) i" and "k = n2 + min (m - n2) l"
  shows "k = n + min (m - n) (l + (i + c))"
  by (rule budget_step [OF budget_step [OF assms(1,2)] assms(3)])

lemma keeps_last_message: "keeps_last max_images images_of_message rest_of_message (trim_message max_images)"
  unfolding keeps_last_def
proof (intro allI impI)
  fix j n zs k assume run: "trim_message max_images j n = Inr (zs, k)"
  show "concat (map images_of_message zs) = lastn (max_images - n) (images_of_message j) \<and>
      k = n + min (max_images - n) (length (images_of_message j)) \<and> concat (map rest_of_message zs) = rest_of_message j"
  proof (cases "\<exists>d. j = JObj d")
    case False
    then have "trim_message max_images j n = Inr ([j], n)" "images_of_message j = []"
      by (cases j; simp add: trim_message_def images_of_message_def)+
    with run show ?thesis by auto
  next
    case True
    then obtain d where j: "j = JObj d" by blast
    from run obtain d1 n1 d2 n2 d3 where
      1: "trim_key max_images ''content'' (d, n) = Inr (d1, n1)" and
      2: "trim_key max_images ''input'' (d1, n1) = Inr (d2, n2)" and
      3: "trim_key max_images ''output'' (d2, n2) = Inr (d3, k)" and zs: "zs = [JObj d3]"
      by (auto simp: j trim_message_def rbind_def split: sum.splits prod.splits)
    let ?im = "\<lambda>k. concat (map images_of_block (entries d k))"
    have key: "''content'' \<in> set content_keys" "''input'' \<in> set content_keys" "''output'' \<in> set content_keys"
      by (simp_all add: content_keys_def)
    note r1 = trim_key_result [OF 1 key(1)] and r2 = trim_key_result [OF 2 key(2)] and r3 = trim_key_result [OF 3 key(3)]
    have e: "entries d1 ''input'' = entries d ''input''" "entries d2 ''output'' = entries d ''output''"
      "entries d3 ''content'' = entries d1 ''content''" "entries d3 ''input'' = entries d2 ''input''"
      using r1 r2 r3 by simp_all
    let ?r = "max_images - n" and ?c = "?im ''content''" and ?i = "?im ''input''" and ?o = "?im ''output''"
    have n1_is: "n1 = n + min ?r (length ?c)" using r1 by (elim conjE)
    then have n1: "max_images - n1 = ?r - min ?r (length ?c)" by simp
    have n2_is: "n2 = n1 + min (max_images - n1) (length ?i)" using r2 unfolding e(1) by (elim conjE)
    then have n2: "max_images - n2 = max_images - n1 - min (max_images - n1) (length ?i)" by simp
    let ?of = "\<lambda>d k. concat (map images_of_block (entries d k))"
    have images: "images_of_message (JObj d) = ?of d ''output'' @ ?of d ''input'' @ ?of d ''content''" for d
      by (simp add: images_of_message_def content_keys_def)
    have k_is: "k = n2 + min (max_images - n2) (length ?o)" using r3 unfolding e(2) by (elim conjE)
    have "concat (map images_of_message zs) =
        lastn (max_images - n2) ?o @ lastn (max_images - n1) ?i @ lastn ?r ?c"
      by (simp only: zs list.map concat.simps append_Nil2 images e conjunct1 [OF r1] conjunct1 [OF r2] conjunct1 [OF r3])
    also have "\<dots> = lastn (max_images - n2) ?o @ lastn ?r (?i @ ?c)"
      unfolding n1 by (simp only: lastn_append)
    also have "\<dots> = lastn ?r (?o @ ?i @ ?c)"
    proof -
      have "n2 = n + min ?r (length ?i + length ?c)" by (rule budget_step [OF n1_is n2_is])
      then have "max_images - n2 = ?r - min ?r (length (?i @ ?c))" by simp
      then show ?thesis by (simp only: lastn_append)
    qed
    finally have "concat (map images_of_message zs) = lastn ?r (images_of_message j)"
      by (simp only: j images)
    moreover have "k = n + min ?r (length (images_of_message j))"
      unfolding j images length_append
      by (rule budget [OF n1_is n2_is k_is])
    moreover have "concat (map rest_of_message zs) = rest_of_message j"
      using r1 r2 r3 by (simp add: zs j rest_of_message_def)
    ultimately show ?thesis by blast
  qed
qed

text \<open>
  Of the images in a conversation the last ones are kept, as many as allowed, in their order;
  everything else stays as it is and where it is.
\<close>

lemma last_images_kept:
  assumes "trim_images max_images ms = Inr ms'"
  shows "concat (map images_of_message ms') = lastn max_images (concat (map images_of_message ms)) \<and>
    concat (map rest_of_message ms') = concat (map rest_of_message ms)"
proof -
  from assms obtain k where "from_end (trim_message max_images) ms 0 = Inr (ms', k)"
    by (auto simp: trim_images_def rbind_def split: sum.splits)
  from keeps_last_from_end [OF keeps_last_message this] show ?thesis by simp
qed

lemma last_images_kept_witness:
  "let image = (\<lambda>s. JObj [(''type'', JStr ''image''), (''id'', JStr s)]);
       note = JObj [(''type'', JStr ''text''), (''text'', JStr ''see'')];
       ms = [JObj [(''content'', JList [image ''a'', note, image ''b''])], JObj [(''content'', JList [image ''c''])]]
   in \<exists>ms'. trim_images 2 ms = Inr ms' \<and> concat (map images_of_message ms') = [image ''b'', image ''c'']"
proof -
  let ?image = "\<lambda>s. JObj [(''type'', JStr ''image''), (''id'', JStr s)]"
  let ?note = "JObj [(''type'', JStr ''text''), (''text'', JStr ''see'')]"
  let ?ms = "[JObj [(''content'', JList [?image ''a'', ?note, ?image ''b''])], JObj [(''content'', JList [?image ''c''])]]"
  have "\<exists>ms'. trim_images 2 ?ms = Inr ms'"
    by (simp add: trim_images_def trim_message_def trim_key_def trim_block_def keep_image_def dict_get_or_def
        is_image_type_def)
  then obtain ms' where run: "trim_images 2 ?ms = Inr ms'" by blast
  have all: "concat (map images_of_message ?ms) = [?image ''a'', ?image ''b'', ?image ''c'']"
    by (simp add: images_of_message_def content_keys_def entries_def images_of_block_def image_of_sub_def
        dict_get_or_def is_image_type_def)
  have "concat (map images_of_message ms') = lastn 2 [?image ''a'', ?image ''b'', ?image ''c'']"
    using last_images_kept [OF run] unfolding all by (rule conjunct1)
  with run show ?thesis by (auto simp: lastn_def Let_def)
qed

section \<open>The size of a resized image\<close>

lemma round_even_of_int [simp]: "round_even (of_int n) = n"
  by (simp add: round_even_def Let_def)

lemma round_even_of_nat [simp]: "round_even (of_nat n) = int n"
  using round_even_of_int [of "int n"] by simp

lemma round_even_floor: "\<lfloor>x\<rfloor> \<le> round_even x" "round_even x \<le> \<lfloor>x\<rfloor> + 1"
  by (auto simp: round_even_def Let_def)

lemma round_even_ge: "of_nat v \<le> x \<Longrightarrow> int v \<le> round_even x"
  using round_even_floor(1) [of x] le_floor_iff [of "int v" x] by simp

lemma round_even_le: "x \<le> of_nat v \<Longrightarrow> round_even x \<le> int v"
proof (cases "x = of_nat v")
  case False
  assume "x \<le> of_nat v"
  with False have "x < of_int (int v)" by simp
  then have "\<lfloor>x\<rfloor> < int v" by (simp only: floor_less_iff)
  then show ?thesis using round_even_floor(2) [of x] by simp
qed simp

lemma near_one:
  assumes "0 < c" and "c < 10 ^ 9" and "\<bar>(of_nat v :: rat) / of_nat c - 1\<bar> < 1 / 10 ^ 9"
  shows "v = c"
proof -
  have c: "0 < (of_nat c :: rat)" "(of_nat c :: rat) \<le> 10 ^ 9" using assms(1,2) by (simp_all flip: of_nat_power)
  have "\<bar>(of_nat v :: rat) - of_nat c\<bar> = \<bar>of_nat v / of_nat c - 1\<bar> * of_nat c"
    using c by (simp add: abs_mult_pos left_diff_distrib)
  also have "\<dots> < 1 / 10 ^ 9 * of_nat c" using assms(3) c(1) by (intro mult_strict_right_mono)
  also have "\<dots> \<le> 1" using c(2) by simp
  finally have "\<bar>(of_nat v :: rat) - of_nat c\<bar> < 1" .
  then have "\<bar>of_int (int v - int c) :: rat\<bar> < 1" by simp
  then have "\<bar>int v - int c\<bar> < 1" by (simp only: of_int_abs [symmetric] of_int_less_1_iff)
  then show ?thesis by simp
qed

text \<open>
  An image gets the side that was asked for. For a positive side and an image with positive
  sides, the shorter side of the result is the one asked for under \<open>v+\<close>, and the longer side under
  \<open>v-\<close>, however the other side is rounded.
\<close>

lemma resized_to_side:
  assumes "0 < v" and "0 < w" and "0 < h" and "max w h < 10 ^ 9"
  shows "(let (w', h') = compute_target_size (MinSide v) (w, h) in min w' h' = v) \<and>
         (let (w', h') = compute_target_size (MaxSide v) (w, h) in max w' h' = v)"
proof -
  have exact: "(of_nat c :: rat) * (of_nat v / of_nat c) = of_nat v" if "0 < c" for c
    using that by simp
  have above: "int v \<le> round_even (of_nat x * (of_nat v / of_nat c))" if "0 < c" "c \<le> x" for c x
  proof (rule round_even_ge)
    have "(of_nat c :: rat) * (of_nat v / of_nat c) \<le> of_nat x * (of_nat v / of_nat c)"
      using that by (intro mult_right_mono) simp_all
    then show "of_nat v \<le> (of_nat x :: rat) * (of_nat v / of_nat c)" using exact [OF that(1)] by simp
  qed
  have below: "round_even (of_nat x * (of_nat v / of_nat c)) \<le> int v" if "0 < c" "x \<le> c" for c x
  proof (rule round_even_le)
    have "(of_nat x :: rat) * (of_nat v / of_nat c) \<le> of_nat c * (of_nat v / of_nat c)"
      using that by (intro mult_right_mono) simp_all
    then show "(of_nat x :: rat) * (of_nat v / of_nat c) \<le> of_nat v" using exact [OF that(1)] by simp
  qed
  have side: "round_even (of_nat c * (of_nat v / of_nat c)) = int v" if "0 < c" for c
    unfolding exact [OF that] by simp
  have min: "(case scaled v (min w h) (w, h) of (w', h') \<Rightarrow> min w' h' = v)"
  proof (cases "\<bar>(of_nat v :: rat) / of_nat (min w h) - 1\<bar> < 1 / 10 ^ 9")
    case True
    then have "v = min w h" using near_one [of "min w h" v] assms by (simp add: min_def split: if_splits)
    then show ?thesis using True by (simp add: scaled_def)
  next
    case False
    then show ?thesis using side [of w] side [of h] nat_mono [OF above [of w h]] nat_mono [OF above [of h w]] assms
      by (auto simp: scaled_def min_def split: if_splits)
  qed
  have max: "(case scaled v (max w h) (w, h) of (w', h') \<Rightarrow> max w' h' = v)"
  proof (cases "\<bar>(of_nat v :: rat) / of_nat (max w h) - 1\<bar> < 1 / 10 ^ 9")
    case True
    then have "v = max w h" using near_one [of "max w h" v] assms by (simp add: max_def split: if_splits)
    then show ?thesis using True by (simp add: scaled_def)
  next
    case False
    then show ?thesis using side [of w] side [of h] below [of w h] below [of h w] assms
      by (auto simp: scaled_def max_def split: if_splits)
  qed
  show ?thesis using min max assms by (simp add: compute_target_size_def)
qed

lemma resized_to_side_witness:
  "compute_target_size (MinSide 512) (1024, 2000) = (512, 1000) \<and>
   (let (w', h') = compute_target_size (MinSide 512) (1024, 2000) in min w' h' = 512)"
proof -
  have "compute_target_size (MinSide 512) (1024, 2000) = (512, 1000)"
    by (simp add: compute_target_size_def scaled_def round_even_def Let_def)
  then show ?thesis using resized_to_side [of 512 1024 2000] by simp
qed

end
