(* ===== verification/Config_Loader.thy ===== *)
theory Config_Loader
  imports Complex_Main Encoding
begin

text \<open>
  Configuration files of the worker (worker/src/agentrl/worker/config/loader.py and consul.py).
  Files import other files, give defaults and overwriting values to the entries of a section, and are
  overridden by a file, by Consul and by environment variables. A document is what the
  parsers return; texts are ASCII. The loader's dictionary of loaded files shares the object it
  returns, which is modelled by naming the entry a configuration is (\<open>cached\<close>).
\<close>

section \<open>Documents\<close>

text \<open>
  A floating-point number has the exact value of its decimals: rounding and the limits of the range are
  left out, as are the dates and the sets of YAML.
\<close>

datatype floating = Finite rat | Infinite bool | NotANumber

datatype document =
    YNull
  | YBool bool
  | YInt int
  | YFloat floating
  | YStr string
  | YList "document list"
  | YObj "(string \<times> document) list"

fun doc_truth :: "document \<Rightarrow> bool" where
  "doc_truth YNull = False"
| "doc_truth (YBool b) = b"
| "doc_truth (YInt i) = (i \<noteq> 0)"
| "doc_truth (YFloat x) = (x \<noteq> Finite 0)"
| "doc_truth (YStr s) = (s \<noteq> [])"
| "doc_truth (YList vs) = (vs \<noteq> [])"
| "doc_truth (YObj d) = (d \<noteq> [])"

fun doc_item :: "document \<Rightarrow> string \<Rightarrow> document res" where
  "doc_item (YObj d) k = (case dict_get d k of None \<Rightarrow> Inl KeyError | Some v \<Rightarrow> Inr v)"
| "doc_item _ k = Inl TypeError"

section \<open>The world of the loader\<close>

text \<open>
  Regular files by their real path, the parsers (\<open>None\<close> is an exception), the environment
  variables, the HTTP client (\<open>None\<close> is an exception, else status and body), and the decoding of bytes.
\<close>

record config_env =
  cf_files :: "(string, string) dict"
  cf_realpath :: "string \<Rightarrow> string"
  cf_yaml :: "string \<Rightarrow> document option"
  cf_json :: "string \<Rightarrow> document option"
  cf_environ :: "(string, string) dict"
  cf_consul :: "string option"
  cf_token :: "string option"
  cf_get :: "string \<Rightarrow> (string, string) dict \<Rightarrow> (nat \<times> string) option"
  cf_decode :: "string \<Rightarrow> string option"

record loader =
  loading :: "string list"
  loaded :: "(string, document) dict"

definition new_loader :: loader where
  "new_loader = \<lparr>loading = [], loaded = []\<rparr>"

text \<open>\<open>os.path.dirname\<close>, \<open>os.path.join\<close> and \<open>str.endswith\<close>.\<close>

definition dirname :: "string \<Rightarrow> string" where
  "dirname p =
     (let head = rev (dropWhile (\<lambda>c. c \<noteq> CHR ''/'') (rev p))
      in if list_all (\<lambda>c. c = CHR ''/'') head then head
         else rev (dropWhile (\<lambda>c. c = CHR ''/'') (rev head)))"

definition path_join :: "string \<Rightarrow> string \<Rightarrow> string" where
  "path_join a b =
     (if take 1 b = ''/'' then b
      else if a = [] \<or> last a = CHR ''/'' then a @ b
      else a @ ''/'' @ b)"

definition ends_with :: "string \<Rightarrow> string \<Rightarrow> bool" where
  "ends_with p s \<longleftrightarrow> drop (length p - length s) p = s"

section \<open>Merging, defaults and environment variables\<close>

fun deep_merge :: "document \<Rightarrow> document \<Rightarrow> document"
and merge_items :: "(string \<times> document) list \<Rightarrow> (string \<times> document) list \<Rightarrow> (string \<times> document) list" where
  "deep_merge (YObj a) (YObj b) = YObj (merge_items a b)"
| "deep_merge a b = b"
| "merge_items a [] = a"
| "merge_items a ((k, v) # b) =
     (case dict_get a k of
        Some w \<Rightarrow> merge_items (dict_set k (deep_merge w v) a) b
      | None \<Rightarrow> merge_items (dict_set k v a) b)"

text \<open>
  The values of \<open>overwrite\<close> and \<open>default\<close> are parsed like any other and leave the section; what
  remains is merged with both, entry by entry.
\<close>

definition with_both :: "document option \<Rightarrow> document option \<Rightarrow> document \<Rightarrow> document" where
  "with_both overwrite dflt v =
     (let v1 = (case overwrite of Some r \<Rightarrow> deep_merge v r | None \<Rightarrow> v)
      in case dflt of Some d \<Rightarrow> deep_merge d v1 | None \<Rightarrow> v1)"

fun parse_default_and_overwrite :: "document \<Rightarrow> document"
and parse_entries :: "(string \<times> document) list \<Rightarrow> (string \<times> document) list" where
  "parse_default_and_overwrite (YObj d) =
     (let parsed = parse_entries d
      in YObj (dict_map (with_both (dict_get parsed ''overwrite'') (dict_get parsed ''default''))
                 (dict_del ''default'' (dict_del ''overwrite'' parsed))))"
| "parse_default_and_overwrite v = v"
| "parse_entries [] = []"
| "parse_entries ((k, v) # d) = (k, parse_default_and_overwrite v) # parse_entries d"

definition upper_char :: "char \<Rightarrow> char" where
  "upper_char c =
     (if 97 \<le> (of_char c :: nat) \<and> (of_char c :: nat) \<le> 122 then char_of ((of_char c :: nat) - 32)
      else c)"

definition env_key :: "string \<Rightarrow> string \<Rightarrow> string" where
  "env_key pre k = map upper_char (replace_char (CHR ''-'') (CHR ''_'') (pre @ k))"

text \<open>\<open>int(s)\<close>: white space around, a sign, single underscores between digits, at most 4300 digits.\<close>

definition int_digits :: "string \<Rightarrow> nat option" where
  "int_digits s =
     (let ws = split_on (CHR ''_'') s
      in if list_all (\<lambda>w. w \<noteq> [] \<and> list_all is_digit w) ws \<and> length (concat ws) \<le> 4300
         then parse_nat (concat ws) else None)"

definition py_int :: "string \<Rightarrow> int option" where
  "py_int s =
     (case str_strip s of
        [] \<Rightarrow> None
      | c # cs \<Rightarrow>
          if c = CHR ''-'' then map_option (\<lambda>n. - int n) (int_digits cs)
          else if c = CHR ''+'' then map_option int (int_digits cs)
          else map_option int (int_digits (c # cs)))"

text \<open>
  \<open>float(s)\<close>: white space around, a sign, then infinity or no number by name, or digits with a point
  and an exponent, where single underscores may stand between digits.
\<close>

definition digit_group :: "string \<Rightarrow> (nat \<times> nat) option" where
  "digit_group s =
     (let ws = split_on (CHR ''_'') s
      in if s = [] then Some (0, 0)
         else if list_all (\<lambda>w. w \<noteq> [] \<and> list_all is_digit w) ws
         then map_option (\<lambda>n. (n, length (concat ws))) (parse_nat (concat ws)) else None)"

definition mantissa :: "string \<Rightarrow> rat option" where
  "mantissa s =
     (let (a, b) = (case split_on (CHR ''.'') s of [a] \<Rightarrow> (a, Some []) | [a, b] \<Rightarrow> (a, Some b) | _ \<Rightarrow> ([], None))
      in case b of
           None \<Rightarrow> None
         | Some b \<Rightarrow>
             if a = [] \<and> b = [] then None
             else (case (digit_group a, digit_group b) of
                (Some (n, _), Some (k, l)) \<Rightarrow> Some (of_nat n + of_nat k / 10 ^ l)
              | _ \<Rightarrow> None))"

definition signed :: "('a \<Rightarrow> 'a) \<Rightarrow> (string \<Rightarrow> 'a option) \<Rightarrow> string \<Rightarrow> 'a option" where
  "signed negate f s =
     (case s of
        [] \<Rightarrow> None
      | c # cs \<Rightarrow>
          if c = CHR ''-'' then map_option negate (f cs)
          else if c = CHR ''+'' then f cs
          else f (c # cs))"

definition power_of_ten :: "string \<Rightarrow> rat option" where
  "power_of_ten s =
     signed inverse (\<lambda>cs. if cs = [] then None else map_option (\<lambda>(n, _). 10 ^ n) (digit_group cs)) s"

definition decimal :: "string \<Rightarrow> rat option" where
  "decimal s =
     (case split_on (CHR ''e'') s of
        [m] \<Rightarrow> mantissa m
      | [m, x] \<Rightarrow> (case (mantissa m, power_of_ten x) of (Some a, Some b) \<Rightarrow> Some (a * b) | _ \<Rightarrow> None)
      | _ \<Rightarrow> None)"

definition py_float :: "string \<Rightarrow> floating option" where
  "py_float s =
     signed (\<lambda>x. case x of Finite r \<Rightarrow> Finite (- r) | Infinite up \<Rightarrow> Infinite (\<not> up) | NotANumber \<Rightarrow> NotANumber)
       (\<lambda>cs. if cs = ''inf'' \<or> cs = ''infinity'' then Some (Infinite True)
             else if cs = ''nan'' then Some NotANumber
             else map_option Finite (decimal cs))
       (str_lower (str_strip s))"

text \<open>\<open>type(v)(s)\<close>; \<open>None\<close> is an exception.\<close>

fun retype :: "document \<Rightarrow> string \<Rightarrow> document option" where
  "retype YNull s = None"
| "retype (YBool b) s = Some (YBool (s \<noteq> []))"
| "retype (YInt i) s = map_option YInt (py_int s)"
| "retype (YFloat x) s = map_option YFloat (py_float s)"
| "retype (YStr t) s = Some (YStr s)"
| "retype (YList js) s = Some (YList (map (\<lambda>c. YStr [c]) s))"
| "retype (YObj d) s = (if s = [] then Some (YObj []) else None)"

definition override_value :: "document \<Rightarrow> string \<Rightarrow> document" where
  "override_value v s =
     (case v of
        YBool b \<Rightarrow> YBool (str_lower s \<in> {''true'', ''1'', ''yes''})
      | _ \<Rightarrow> (case retype v s of Some w \<Rightarrow> w | None \<Rightarrow> YStr s))"

fun deep_override_from_env :: "(string, string) dict \<Rightarrow> string \<Rightarrow> document \<Rightarrow> document"
and override_items :: "(string, string) dict \<Rightarrow> string \<Rightarrow> (string \<times> document) list \<Rightarrow> (string \<times> document) list" where
  "deep_override_from_env env pre (YObj d) = YObj (override_items env pre d)"
| "deep_override_from_env env pre v = v"
| "override_items env pre [] = []"
| "override_items env pre ((k, v) # d) =
     (k, case dict_get env (env_key pre k) of
           Some s \<Rightarrow> override_value v s
         | None \<Rightarrow> deep_override_from_env env (env_key pre k @ ''_'') v)
     # override_items env pre d"

section \<open>Loading\<close>

text \<open>
  \<open>parse_imports\<close>, for what \<open>load_from\<close> does; the entry \<open>import\<close> leaves the section. The message of
  an unknown import prints the value, which is left out.
\<close>

definition import_one :: "(string \<Rightarrow> ('s, document) proc) \<Rightarrow> string \<Rightarrow> document \<Rightarrow> string \<Rightarrow> ('s, document) proc" where
  "import_one load dir r p = bnd (load (path_join dir p)) (\<lambda>config. ret (deep_merge r config))"

definition imported :: "(string \<Rightarrow> ('s, document) proc) \<Rightarrow> string \<Rightarrow> document option \<Rightarrow> ('s, document) proc" where
  "imported load dir v =
     (case v of
        None \<Rightarrow> ret (YObj [])
      | Some (YStr p) \<Rightarrow> import_one load dir (YObj []) p
      | Some (YList vs) \<Rightarrow>
          fold_proc (\<lambda>w r. case w of YStr p \<Rightarrow> import_one load dir r p | _ \<Rightarrow> raise AssertionError)
            vs (YObj [])
      | Some _ \<Rightarrow> raise (PlainException ''Unknown import value: ''))"

fun parse_imports :: "(string \<Rightarrow> ('s, document) proc) \<Rightarrow> string \<Rightarrow> document \<Rightarrow> ('s, document) proc"
and import_items ::
  "(string \<Rightarrow> ('s, document) proc) \<Rightarrow> string \<Rightarrow> (string \<times> document) list \<Rightarrow> ('s, (string \<times> document) list) proc"
and import_list :: "(string \<Rightarrow> ('s, document) proc) \<Rightarrow> string \<Rightarrow> document list \<Rightarrow> ('s, document list) proc" where
  "parse_imports load dir (YObj d) =
     bnd (imported load dir (dict_get d ''import'')) (\<lambda>r.
     bnd (import_items load dir d) (\<lambda>items.
     ret (deep_merge r (YObj items))))"
| "parse_imports load dir (YList vs) = bnd (import_list load dir vs) (\<lambda>ws. ret (YList ws))"
| "parse_imports load dir v = ret v"
| "import_items load dir [] = ret []"
| "import_items load dir ((k, v) # d) =
     (if k = ''import'' then import_items load dir d
      else bnd (parse_imports load dir v) (\<lambda>w. bnd (import_items load dir d) (\<lambda>r. ret ((k, w) # r))))"
| "import_list load dir [] = ret []"
| "import_list load dir (v # vs) =
     bnd (parse_imports load dir v) (\<lambda>w. bnd (import_list load dir vs) (\<lambda>r. ret (w # r)))"

text \<open>\<open>set.add\<close> and \<open>set.remove\<close> on the paths being loaded.\<close>

definition loading_add :: "string \<Rightarrow> (loader, unit) proc" where
  "loading_add path = modify (\<lambda>l. l\<lparr>loading := List.insert path (loading l)\<rparr>)"

definition loading_remove :: "string \<Rightarrow> (loader, unit) proc" where
  "loading_remove path =
     bnd (gets loading) (\<lambda>ps.
     if path \<in> set ps then modify (\<lambda>l. l\<lparr>loading := removeAll path ps\<rparr>) else raise KeyError)"

definition parse_text :: "config_env \<Rightarrow> string \<Rightarrow> string \<Rightarrow> document res" where
  "parse_text E path text =
     (if ends_with path ''.yaml'' \<or> ends_with path ''.yml''
      then (case cf_yaml E text of Some c \<Rightarrow> Inr c | None \<Rightarrow> Inl ValueError)
      else if ends_with path ''.json''
      then (case cf_json E text of Some c \<Rightarrow> Inr c | None \<Rightarrow> Inl ValueError)
      else Inl (PlainException (''Unknown file type: '' @ path)))"

text \<open>
  \<open>_load_file\<close>. The second part of the result names the entry of \<open>loaded\<close> that is the very object
  returned; a file loaded before is copied.
\<close>

definition load_file ::
  "config_env \<Rightarrow> (string \<Rightarrow> (loader, document) proc) \<Rightarrow> string \<Rightarrow> (loader, document \<times> string option) proc" where
  "load_file E load path0 =
     (let path = cf_realpath E path0 in
      bnd (gets id) (\<lambda>l.
      if path \<in> set (loading l) then raise (PlainException (''Circular import detected: '' @ path))
      else case dict_get (loaded l) path of
        Some config \<Rightarrow> ret (config, None)
      | None \<Rightarrow>
          (case dict_get (cf_files E) path of
             None \<Rightarrow> raise (PlainException (''File not found: '' @ path))
           | Some text \<Rightarrow>
               bnd (lift_res (parse_text E path text)) (\<lambda>raw.
               andthen (loading_add path)
               (bnd (catch (parse_imports load (dirname path) raw)
                           (\<lambda>e. andthen (loading_remove path) (raise e)))
               (\<lambda>parsed.
                 let config = parse_default_and_overwrite parsed in
                 andthen (loading_remove path)
                 (andthen (modify (\<lambda>l. l\<lparr>loaded := dict_set path config (loaded l)\<rparr>))
                 (ret (config, Some path)))))))))"

text \<open>\<open>ConsulConfigLoader.get_config\<close>: every exception is logged and gives \<open>None\<close>.\<close>

definition consul_value :: "config_env \<Rightarrow> nat \<times> string \<Rightarrow> string option" where
  "consul_value E response =
     (if fst response < 200 \<or> 300 \<le> fst response then None
      else case cf_json E (snd response) of
        Some (YList (entry # _)) \<Rightarrow>
          (case doc_item entry ''Value'' of
             Inr (YStr v) \<Rightarrow> (case b64decode v of Some bs \<Rightarrow> cf_decode E bs | None \<Rightarrow> None)
           | _ \<Rightarrow> None)
      | _ \<Rightarrow> None)"

definition get_config :: "config_env \<Rightarrow> string \<Rightarrow> document option" where
  "get_config E name =
     (case cf_consul E of
        None \<Rightarrow> None
      | Some base \<Rightarrow>
          if base = [] then None
          else
            (let headers =
                   (case cf_token E of
                      Some t \<Rightarrow> if t \<noteq> [] then [(''X-Consul-Token'', t)] else []
                    | None \<Rightarrow> [])
             in case cf_get E (base @ ''/v1/kv/agentrl/config/'' @ name) headers of
                  None \<Rightarrow> None
                | Some response \<Rightarrow>
                    (case consul_value E response of
                       None \<Rightarrow> None
                     | Some raw \<Rightarrow>
                         (case cf_json E raw of Some c \<Rightarrow> Some c | None \<Rightarrow> cf_yaml E raw))))"

text \<open>The assignment \<open>config[name] = ...\<close> writes to the cached object when \<open>config\<close> is one.\<close>

definition consul_override ::
  "config_env \<Rightarrow> string \<Rightarrow> document \<Rightarrow> string option \<Rightarrow> (loader, document) proc" where
  "consul_override E name config cached =
     (case get_config E name of
        None \<Rightarrow> ret config
      | Some new \<Rightarrow>
          if \<not> doc_truth new then ret config
          else
            (case config of
               YObj d \<Rightarrow>
                 (let v = dict_get_or d name YNull;
                      config' = YObj (dict_set name (deep_merge (if doc_truth v then v else YObj []) new) d)
                  in andthen
                       (case cached of
                          Some path \<Rightarrow> modify (\<lambda>l. l\<lparr>loaded := dict_set path config' (loaded l)\<rparr>)
                        | None \<Rightarrow> ret ())
                       (ret config'))
             | _ \<Rightarrow> raise AttributeError))"

text \<open>
  The file named by the environment. A merge of two sections is a new object, any other merge is
  the object of the override.
\<close>

definition file_override ::
  "config_env \<Rightarrow> (string \<Rightarrow> (loader, document \<times> string option) proc) \<Rightarrow> document \<times> string option
   \<Rightarrow> (loader, document \<times> string option) proc" where
  "file_override E file base =
     (let override_path = dict_get_or (cf_environ E) ''AGENTRL_CONFIG_OVERRIDE'' [] in
      if override_path = [] then ret base
      else bnd (file override_path) (\<lambda>(new, cached).
        ret (deep_merge (fst base) new,
             case (fst base, new) of (YObj _, YObj _) \<Rightarrow> None | _ \<Rightarrow> cached)))"

text \<open>\<open>load_from\<close>; the number bounds the depth of imports.\<close>

primrec load_from :: "config_env \<Rightarrow> nat \<Rightarrow> string \<Rightarrow> string option \<Rightarrow> (loader, document) proc" where
  "load_from E 0 path name = raise StillRunning"
| "load_from E (Suc n) path name =
     (let file = load_file E (\<lambda>p. load_from E n p None) in
      bnd (file path) (\<lambda>base.
      bnd (file_override E file base) (\<lambda>(config, cached).
      bnd (case name of
             None \<Rightarrow> ret config
           | Some nm \<Rightarrow> consul_override E nm config cached) (\<lambda>config.
      ret (deep_override_from_env (cf_environ E) [] config)))))"

end
