(* ===== verification/Config_Proofs.thy ===== *)
theory Config_Proofs
  imports Config_Loader
begin

text \<open>
  Correctness of the configuration loader: what a merge contains, which of default, own and overwriting
  value an entry ends up with, that loading ends and leaves the set of paths being loaded as it was,
  and the two places where the override mechanisms do not work as intended.
\<close>

section \<open>Documents and paths in them\<close>

fun wf_doc :: "document \<Rightarrow> bool" where
  "wf_doc (YObj d) \<longleftrightarrow> distinct (dict_keys d) \<and> list_all (\<lambda>(k, v). wf_doc v) d"
| "wf_doc (YList vs) \<longleftrightarrow> list_all wf_doc vs"
| "wf_doc _ \<longleftrightarrow> True"

fun is_obj :: "document \<Rightarrow> bool" where
  "is_obj (YObj _) = True"
| "is_obj _ = False"

fun at_path :: "document \<Rightarrow> string list \<Rightarrow> document option" where
  "at_path v [] = Some v"
| "at_path (YObj d) (k # p) = (case dict_get d k of Some v \<Rightarrow> at_path v p | None \<Rightarrow> None)"
| "at_path _ (_ # _) = None"

text \<open>A document says nothing about a path when a section on the way lacks the next key.\<close>

fun silent :: "document \<Rightarrow> string list \<Rightarrow> bool" where
  "silent (YObj d) (k # p) = (case dict_get d k of Some v \<Rightarrow> silent v p | None \<Rightarrow> True)"
| "silent _ _ = False"

lemma not_objD: "\<not> is_obj b \<Longrightarrow> deep_merge a b = b"
  by (cases a; cases b) simp_all

lemma merge_left_leaf: "\<not> is_obj a \<Longrightarrow> deep_merge a b = b"
  by (cases a; cases b) simp_all

lemma is_objE:
  assumes "is_obj v"
  obtains d where "v = YObj d"
  using assms by (cases v) simp_all

lemma is_obj_wf: "wf_doc (YObj d) \<Longrightarrow> distinct (dict_keys d)"
  by simp

lemma wf_item: "wf_doc (YObj d) \<Longrightarrow> dict_get d k = Some v \<Longrightarrow> wf_doc v"
  by (auto simp: list_all_iff dest: map_of_SomeD)

section \<open>Merging\<close>

lemma merge_items_get:
  "distinct (dict_keys b) \<Longrightarrow>
   dict_get (merge_items a b) k =
     (case dict_get b k of
        None \<Rightarrow> dict_get a k
      | Some v \<Rightarrow> Some (case dict_get a k of Some w \<Rightarrow> deep_merge w v | None \<Rightarrow> v))"
proof (induction b arbitrary: a)
  case Nil
  then show ?case by simp
next
  case (Cons e b)
  obtain k' v where e: "e = (k', v)" by (cases e)
  have new: "dict_get b k' = None" using Cons.prems e by (simp add: map_of_eq_None_iff)
  show ?case
    using Cons.IH Cons.prems e new by (auto split: option.split)
qed

lemma merge_items_keys:
  "distinct (dict_keys a) \<Longrightarrow> distinct (dict_keys (merge_items a b))"
  by (induction b arbitrary: a) (auto split: option.split)

lemma distinct_get:
  "distinct (dict_keys d) \<Longrightarrow> list_all (\<lambda>(k, v). P v) d \<longleftrightarrow> (\<forall>k v. dict_get d k = Some v \<longrightarrow> P v)"
  by (force simp: list_all_iff dest: map_of_SomeD)

lemma wf_doc_get:
  "distinct (dict_keys d) \<Longrightarrow> (\<And>k v. dict_get d k = Some v \<Longrightarrow> wf_doc v) \<Longrightarrow> wf_doc (YObj d)"
  by (simp add: distinct_get)

lemma wf_merge: "wf_doc a \<Longrightarrow> wf_doc b \<Longrightarrow> wf_doc (deep_merge a b)"
proof (induction b arbitrary: a)
  case (YObj d)
  show ?case
  proof (cases a)
    fix e assume a: "a = YObj e"
    have d: "distinct (dict_keys d)" and e: "distinct (dict_keys e)"
      using YObj.prems a by simp_all
    have "wf_doc (YObj (merge_items e d))"
    proof (rule wf_doc_get)
      fix k v assume v: "dict_get (merge_items e d) k = Some v"
      have IH: "wf_doc w \<Longrightarrow> wf_doc u \<Longrightarrow> wf_doc (deep_merge u w)" if "dict_get d k = Some w" for w u
        by (rule YObj.IH) (use map_of_SomeD [OF that] in auto)
      show "wf_doc v"
        using v YObj.prems wf_item [of d k] wf_item [of e k] IH
        by (auto simp: merge_items_get [OF d] a split: option.splits)
    qed (simp add: merge_items_keys e)
    then show ?thesis by (simp add: a)
  qed (use YObj.prems in \<open>simp_all add: merge_left_leaf\<close>)
qed (simp_all add: not_objD)

text \<open>What the new document says at a path wins.\<close>

lemma merge_new_wins:
  "wf_doc b \<Longrightarrow> at_path b p = Some x \<Longrightarrow> \<not> is_obj x \<Longrightarrow> at_path (deep_merge a b) p = Some x"
proof (induction p arbitrary: a b)
  case Nil
  then show ?case by (simp add: not_objD)
next
  case (Cons k p)
  then obtain d where b: "b = YObj d" by (cases b) simp_all
  obtain v where v: "dict_get d k = Some v" "at_path v p = Some x"
    using Cons.prems b by (auto split: option.splits)
  have wf: "wf_doc v" using Cons.prems(1) v(1) wf_item b by blast
  show ?case
  proof (cases a)
    fix e assume "a = YObj e"
    then show ?thesis
      using Cons.prems b v Cons.IH [OF wf v(2) Cons.prems(3)]
      by (simp add: merge_items_get split: option.split)
  qed (use Cons.prems b in \<open>simp_all add: merge_left_leaf\<close>)
qed

text \<open>Where it is silent, what was there stays.\<close>

lemma merge_keeps_rest:
  "wf_doc b \<Longrightarrow> silent b p \<Longrightarrow> at_path a p = Some x \<Longrightarrow> at_path (deep_merge a b) p = Some x"
proof (induction p arbitrary: a b)
  case Nil
  then show ?case by simp
next
  case (Cons k p)
  obtain d where b: "b = YObj d" using Cons.prems(2) by (cases b) simp_all
  obtain e where a: "a = YObj e" using Cons.prems(3) by (cases a) simp_all
  obtain w where w: "dict_get e k = Some w" "at_path w p = Some x"
    using Cons.prems(3) a by (auto split: option.splits)
  have "at_path (deep_merge w v) p = Some x" if "dict_get d k = Some v" for v
    by (rule Cons.IH) (use that Cons.prems b w wf_item in auto)
  then show ?case
    using Cons.prems(1) a b w by (simp add: merge_items_get split: option.split)
qed

lemma silent_merge:
  "wf_doc b \<Longrightarrow> silent a p \<Longrightarrow> silent b p \<Longrightarrow> silent (deep_merge a b) p"
proof (induction p arbitrary: a b)
  case Nil
  then show ?case by (cases a) simp_all
next
  case (Cons k p)
  obtain d where b: "b = YObj d" using Cons.prems(3) by (cases b) simp_all
  obtain e where a: "a = YObj e" using Cons.prems(2) by (cases a) simp_all
  have "silent (deep_merge w v) p" if "dict_get d k = Some v" "dict_get e k = Some w" for v w
    by (rule Cons.IH) (use that Cons.prems a b wf_item in auto)
  then show ?case
    using Cons.prems a b
    by (cases "dict_get d k"; cases "dict_get e k") (simp_all add: merge_items_get)
qed

text \<open>Merging the same document a second time changes nothing.\<close>

lemma dict_set_same: "dict_get d k = Some v \<Longrightarrow> dict_set k v d = d"
  by (induction d) auto

lemma merge_again_items:
  assumes "distinct (dict_keys b)" and "\<And>k v. (k, v) \<in> set b \<Longrightarrow> dict_get c k = Some (r k) \<and> deep_merge (r k) v = r k"
  shows "merge_items c b = c"
  using assms
proof (induction b)
  case (Cons e b)
  obtain k v where e: "e = (k, v)" by (cases e)
  have "dict_get c k = Some (r k)" "deep_merge (r k) v = r k"
    using Cons.prems(2) [of k v] e by simp_all
  moreover have "merge_items c b = c" using Cons.prems by (intro Cons.IH) auto
  ultimately show ?case by (simp add: e dict_set_same)
qed simp

lemma merge_again: "wf_doc b \<Longrightarrow> deep_merge (deep_merge a b) b = deep_merge a b"
proof (induction b arbitrary: a)
  case (YObj d)
  have d: "distinct (dict_keys d)" using YObj.prems by simp
  have IH: "deep_merge (deep_merge u v) v = deep_merge u v" "wf_doc v"
    if "(k, v) \<in> set d" for k v u
    using YObj.IH [OF that] YObj.prems that by (auto simp: list_all_iff)
  have self: "deep_merge v v = v" if "(k, v) \<in> set d" for k v
    using IH(1) [OF that, of YNull] by (simp add: merge_left_leaf)
  show ?case
  proof (cases a)
    fix e assume a: "a = YObj e"
    have "merge_items (merge_items e d) d = merge_items e d"
      by (rule merge_again_items [OF d, where r = "\<lambda>k. the (dict_get (merge_items e d) k)"])
        (use IH self in \<open>auto simp: merge_items_get [OF d] map_of_is_SomeI [OF d] split: option.split\<close>)
    then show ?thesis by (simp add: a)
  qed (use d self in \<open>auto simp: merge_left_leaf intro!: merge_again_items [where r = "\<lambda>k. the (dict_get d k)"]\<close>)
qed (simp_all add: not_objD)

section \<open>Default and overwriting values\<close>

lemma parse_entries_get [simp]:
  "dict_get (parse_entries d) k = map_option parse_default_and_overwrite (dict_get d k)"
  by (induction d) auto

lemma parse_entries_keys [simp]: "dict_keys (parse_entries d) = dict_keys d"
  by (induction d) auto

lemma wf_with_both:
  "\<lbrakk>wf_doc v; \<And>r. a = Some r \<Longrightarrow> wf_doc r; \<And>r. b = Some r \<Longrightarrow> wf_doc r\<rbrakk> \<Longrightarrow> wf_doc (with_both a b v)"
  by (auto simp: with_both_def wf_merge split: option.split)

lemma wf_parse_default:
  "wf_doc v \<Longrightarrow> wf_doc (parse_default_and_overwrite v)"
  "list_all (\<lambda>(k, v). wf_doc v) d \<Longrightarrow> list_all (\<lambda>(k, v). wf_doc v) (parse_entries d)"
proof (induction v and d rule: parse_default_and_overwrite_parse_entries.induct)
  case (1 d)
  note wf = \<open>wf_doc (YObj d)\<close>
  let ?e = "parse_entries d"
  show ?case
  proof -
    have dist: "distinct (dict_keys ?e)" using wf by simp
    have all: "list_all (\<lambda>(k, v). wf_doc v) ?e" using 1 wf by simp
    have get: "wf_doc u" if "dict_get ?e k = Some u" for k u
      using distinct_get [OF dist, of wf_doc] all that by blast
    show "wf_doc (parse_default_and_overwrite (YObj d))"
      unfolding parse_default_and_overwrite.simps Let_def
    proof (rule wf_doc_get)
      fix k v
      assume "dict_get (dict_map (with_both (dict_get ?e ''overwrite'') (dict_get ?e ''default''))
        (dict_del ''default'' (dict_del ''overwrite'' ?e))) k = Some v"
      then show "wf_doc v"
        using get by (auto simp: simp del: parse_entries_get split: if_splits intro!: wf_with_both)
    next
      show "distinct (dict_keys (dict_map (with_both (dict_get ?e ''overwrite'') (dict_get ?e ''default''))
          (dict_del ''default'' (dict_del ''overwrite'' ?e))))"
        unfolding dict_keys_map by (intro distinct_dict_del dist)
    qed
  qed
qed simp_all

text \<open>
  C21: For a path below an entry of a section, what the section's overwriting value says
  wins; where that is silent, what the entry itself says; where both are silent, the default.
\<close>

theorem section_precedence:
  assumes wf: "wf_doc (YObj d)" and v: "dict_get d k = Some v"
    and k: "k \<noteq> ''overwrite''" "k \<noteq> ''default''"
    and over: "dict_get d ''overwrite'' = Some over" and dflt: "dict_get d ''default'' = Some dflt"
    and x: "\<not> is_obj x"
  shows "(let parsed = parse_default_and_overwrite;
              result = at_path (parsed (YObj d)) (k # p)
          in (at_path (parsed over) p = Some x \<longrightarrow> result = Some x) \<and>
             (silent (parsed over) p \<and> at_path (parsed v) p = Some x \<longrightarrow> result = Some x) \<and>
             (silent (parsed over) p \<and> silent (parsed v) p \<and> at_path (parsed dflt) p = Some x
              \<longrightarrow> result = Some x))"
proof -
  let ?p = parse_default_and_overwrite
  have "wf_doc (?p v)" "wf_doc (?p over)" "wf_doc (?p dflt)"
    using wf_parse_default(1) wf_item [OF wf] v over dflt by blast+
  then show ?thesis
    using x k v over dflt
    by (simp add: Let_def with_both_def wf_merge merge_new_wins merge_keeps_rest silent_merge)
qed

text \<open>
  An entry takes 1 from the overwriting value, 2 from itself and 3 from the default.
\<close>

lemma section_precedence_witness:
  "(let v = YObj [(''a'', YInt 4), (''b'', YInt 2)];
        d = [(''default'', YObj [(''b'', YInt 5), (''c'', YInt 3)]),
             (''overwrite'', YObj [(''a'', YInt 1)]), (''x'', v)];
        result = (\<lambda>p. at_path (parse_default_and_overwrite (YObj d)) [''x'', p])
    in result ''a'' = Some (YInt 1) \<and> result ''b'' = Some (YInt 2) \<and> result ''c'' = Some (YInt 3))"
proof -
  let ?v = "YObj [(''a'', YInt 4), (''b'', YInt 2)]"
  let ?o = "YObj [(''a'', YInt 1)]"
  let ?f = "YObj [(''b'', YInt 5), (''c'', YInt 3)]"
  let ?d = "[(''default'', ?f), (''overwrite'', ?o), (''x'', ?v)]"
  let ?p = parse_default_and_overwrite
  have "wf_doc (YObj ?d)" "dict_get ?d ''x'' = Some ?v" "''x'' \<noteq> ''overwrite''" "''x'' \<noteq> ''default''"
    "dict_get ?d ''overwrite'' = Some ?o" "dict_get ?d ''default'' = Some ?f" by simp_all
  note p = section_precedence [OF this, unfolded Let_def]
  have parsed: "?p ?o = ?o" "?p ?v = ?v" "?p ?f = ?f" by (simp_all add: dict_map_def with_both_def)
  have "at_path (?p (YObj ?d)) [''x'', ''a''] = Some (YInt 1)"
    by (rule mp [OF conjunct1 [OF p]]) (simp_all only: parsed, simp_all)
  moreover have "at_path (?p (YObj ?d)) [''x'', ''b''] = Some (YInt 2)"
    by (rule mp [OF conjunct1 [OF conjunct2 [OF p]]]) (simp_all only: parsed, simp_all)
  moreover have "at_path (?p (YObj ?d)) [''x'', ''c''] = Some (YInt 3)"
    by (rule mp [OF conjunct2 [OF conjunct2 [OF p]]]) (simp_all only: parsed, simp_all)
  ultimately show ?thesis unfolding Let_def by (intro conjI)
qed

section \<open>Environment variables\<close>

text \<open>The name of the variable for a path: the keys joined by underscores, in capitals, without hyphens.\<close>

definition variable :: "string list \<Rightarrow> string" where
  "variable p = map upper_char (replace_char (CHR ''-'') (CHR ''_'') (join_with ''_'' p))"

text \<open>What a value becomes by the text of its variable.\<close>

fun read_as :: "document \<Rightarrow> string \<Rightarrow> document" where
  "read_as (YBool b) s = YBool (str_lower s = ''true'' \<or> str_lower s = ''1'' \<or> str_lower s = ''yes'')"
| "read_as (YInt i) s = (case py_int s of Some j \<Rightarrow> YInt j | None \<Rightarrow> YStr s)"
| "read_as (YFloat x) s = (case py_float s of Some y \<Rightarrow> YFloat y | None \<Rightarrow> YStr s)"
| "read_as (YStr t) s = YStr s"
| "read_as YNull s = YStr s"
| "read_as (YList vs) s = YList (map (\<lambda>c. YStr [c]) s)"
| "read_as (YObj d) s = (if s = [] then YObj [] else YStr s)"

lemma override_value_reads: "override_value v s = read_as v s"
  by (cases v) (simp_all add: override_value_def split: option.split)

definition env_char :: "char \<Rightarrow> char" where
  "env_char c = upper_char (if c = CHR ''-'' then CHR ''_'' else c)"

lemma upper_char_hyphen: "upper_char c = CHR ''-'' \<longleftrightarrow> c = CHR ''-''"
proof -
  have "(of_char (char_of (n :: nat)) :: nat) = n mod 256" for n by simp
  moreover have "(of_char (CHR ''-'') :: nat) = 45" by simp
  ultimately show ?thesis unfolding upper_char_def by (auto dest: arg_cong [where f = "of_char :: char \<Rightarrow> nat"])
qed

lemma upper_char_idem: "upper_char (upper_char c) = upper_char c"
proof (cases "97 \<le> (of_char c :: nat) \<and> (of_char c :: nat) \<le> 122")
  case True
  then have "(of_char (upper_char c) :: nat) = of_char c - 32" by (auto simp: upper_char_def intro!: mod_less)
  with True have "\<not> 97 \<le> (of_char (upper_char c) :: nat)" by linarith
  then show ?thesis by (simp add: upper_char_def [of "upper_char c"])
next
  case False
  then have "upper_char c = c" by (simp only: upper_char_def if_False)
  then show ?thesis by simp
qed

lemma env_char_idem: "env_char (env_char c) = env_char c"
  by (auto simp: env_char_def upper_char_hyphen upper_char_idem)

lemma variable_chars: "variable p = map env_char (join_with ''_'' p)" "env_key pre k = map env_char (pre @ k)"
  by (simp_all add: variable_def env_key_def replace_char_def env_char_def)

lemma join_with_snoc: "join_with sep (ws @ [w]) = (if ws = [] then w else join_with sep ws @ sep @ w)"
  by (induction sep ws rule: join_with.induct) auto

definition prefix_at :: "string list \<Rightarrow> string" where
  "prefix_at q = (if q = [] then [] else variable q @ ''_'')"

lemma env_key_variable: "env_key (prefix_at q) k = variable (q @ [k])"
proof -
  have "env_char (CHR ''_'') = CHR ''_''" by (simp add: env_char_def upper_char_def)
  then show ?thesis by (simp add: prefix_at_def variable_chars join_with_snoc env_char_idem)
qed

text \<open>A variable for a section on the way to a path.\<close>

definition hidden :: "(string, string) dict \<Rightarrow> string list \<Rightarrow> string list \<Rightarrow> bool" where
  "hidden env q p \<longleftrightarrow> (\<exists>r t. p = r @ t \<and> r \<noteq> [] \<and> t \<noteq> [] \<and> dict_get env (variable (q @ r)) \<noteq> None)"

lemma hidden_simps:
  "\<not> hidden env q [k]"
  "hidden env q (k # k' # p) \<longleftrightarrow> dict_get env (variable (q @ [k])) \<noteq> None \<or> hidden env (q @ [k]) (k' # p)"
proof -
  show "\<not> hidden env q [k]" by (auto simp: hidden_def Cons_eq_append_conv)
  show "hidden env q (k # k' # p) \<longleftrightarrow> dict_get env (variable (q @ [k])) \<noteq> None \<or> hidden env (q @ [k]) (k' # p)"
    (is "?l \<longleftrightarrow> ?r")
  proof
    assume ?l
    then obtain r t where r: "k # k' # p = r @ t" "r \<noteq> []" "t \<noteq> []" "dict_get env (variable (q @ r)) \<noteq> None"
      unfolding hidden_def by blast
    then obtain r' where r': "r = k # r'" "k' # p = r' @ t" by (cases r) auto
    show ?r
    proof (cases "r' = []")
      case True
      then show ?thesis using r(4) r'(1) by simp
    next
      case False
      then show ?thesis using r(3,4) r' unfolding hidden_def by (metis append.assoc append_Cons append_Nil)
    qed
  next
    assume ?r
    then show ?l
    proof
      assume "dict_get env (variable (q @ [k])) \<noteq> None"
      then show ?l unfolding hidden_def by (intro exI [of _ "[k]"] exI [of _ "k' # p"]) simp
    next
      assume "hidden env (q @ [k]) (k' # p)"
      then obtain r t where "k' # p = r @ t" "r \<noteq> []" "t \<noteq> []" "dict_get env (variable ((q @ [k]) @ r)) \<noteq> None"
        unfolding hidden_def by blast
      then show ?l unfolding hidden_def by (intro exI [of _ "k # r"] exI [of _ t]) simp
    qed
  qed
qed

lemma override_items_get:
  "dict_get (override_items env (prefix_at q) d) k =
     map_option (\<lambda>v. case dict_get env (variable (q @ [k])) of
        Some s \<Rightarrow> read_as v s
      | None \<Rightarrow> deep_override_from_env env (prefix_at (q @ [k])) v) (dict_get d k)"
proof -
  have "variable (q @ [k]) @ ''_'' = prefix_at (q @ [k])" for k by (simp add: prefix_at_def)
  then show ?thesis
    by (induction d) (auto simp: env_key_variable override_value_reads split: option.split)
qed

lemma override_items_keys [simp]: "dict_keys (override_items env pre d) = dict_keys d"
  by (induction d) auto

lemma below_read: "at_path (read_as (YObj d) s) (k # p) = None" "\<not> is_obj v \<Longrightarrow> at_path v (k # p) = None"
  by (simp, cases v) simp_all

text \<open>The value at a path, from any section on.\<close>

definition overridden :: "(string, string) dict \<Rightarrow> string list \<Rightarrow> document \<Rightarrow> document option \<Rightarrow> bool" where
  "overridden env p w r \<longleftrightarrow>
     (case dict_get env (variable p) of
        Some s \<Rightarrow> r = Some (read_as w s)
      | None \<Rightarrow>
          (case w of
             YObj d \<Rightarrow> (\<exists>d'. r = Some (YObj d') \<and> dict_keys d' = dict_keys d)
           | _ \<Rightarrow> r = Some w))"

lemma overridden_below:
  "case at_path v (k # p) of
     None \<Rightarrow> at_path (deep_override_from_env env (prefix_at q) v) (k # p) = None
   | Some w \<Rightarrow>
       if hidden env q (k # p) then at_path (deep_override_from_env env (prefix_at q) v) (k # p) = None
       else overridden env (q @ k # p) w (at_path (deep_override_from_env env (prefix_at q) v) (k # p))"
proof (induction p arbitrary: v q k)
  case Nil
  show ?case
    by (cases v) (auto simp: override_items_get hidden_simps overridden_def split: option.split document.split)
next
  case (Cons k' p)
  show ?case
  proof (cases "is_obj v")
    case False
    then show ?thesis by (cases v) simp_all
  next
    case True
    then obtain d where v: "v = YObj d" by (rule is_objE)
    show ?thesis
    proof (cases "dict_get d k")
      case None
      then show ?thesis by (simp add: v override_items_get)
    next
      case (Some w)
      show ?thesis
      proof (cases "dict_get env (variable (q @ [k]))")
        case None
        then show ?thesis using Cons.IH [where v = w and k = k' and q = "q @ [k]"] Some
          by (cases "at_path w (k' # p)") (auto simp: v override_items_get hidden_simps split: if_splits)
      next
        case set: (Some s)
        have "at_path (read_as w s) (k' # p) = None"
          by (cases w) (simp_all split: option.split)
        then show ?thesis using Some set
          by (simp add: v override_items_get hidden_simps split: option.split)
      qed
    qed
  qed
qed

text \<open>Without a variable of a fitting name nothing changes.\<close>

lemma no_variable_no_change:
  "deep_override_from_env [] pre v = v"
  "override_items [] pre d = d"
  by (induction "[] :: (string, string) dict" pre v and "[] :: (string, string) dict" pre d
      rule: deep_override_from_env_override_items.induct) simp_all

lemma wf_override_value: "wf_doc (override_value v s)"
  by (cases v) (auto simp: override_value_def list_all_iff split: option.split)

lemma wf_override:
  "wf_doc v \<Longrightarrow> wf_doc (deep_override_from_env env pre v)"
  "list_all (\<lambda>(k, v). wf_doc v) d \<Longrightarrow> list_all (\<lambda>(k, v). wf_doc v) (override_items env pre d)"
  by (induction env pre v and env pre d rule: deep_override_from_env_override_items.induct)
    (auto simp: wf_override_value split: option.split)

section \<open>Programs of the loader\<close>

text \<open>
  What loading keeps: the paths being loaded are \<open>L\<close> again and the cache has property \<open>J\<close>, also after an
  exception; results have property \<open>N\<close>; with \<open>fin\<close> the bound on the depth is not used up.
\<close>

definition at_level :: "((string, document) dict \<Rightarrow> bool) \<Rightarrow> string list \<Rightarrow> loader \<Rightarrow> bool" where
  "at_level J L s \<longleftrightarrow> loading s = L \<and> J (loaded s)"

definition failed :: "bool \<Rightarrow> ((string, document) dict \<Rightarrow> bool) \<Rightarrow> string list \<Rightarrow> py_error \<Rightarrow> loader \<Rightarrow> bool" where
  "failed fin J L e s \<longleftrightarrow> (if e = StillRunning then \<not> fin else at_level J L s)"

definition keeps ::
  "bool \<Rightarrow> ((string, document) dict \<Rightarrow> bool) \<Rightarrow> string list \<Rightarrow> ('a \<Rightarrow> bool) \<Rightarrow> (loader, 'a) proc \<Rightarrow> bool" where
  "keeps fin J L N m \<longleftrightarrow>
     (\<forall>s. at_level J L s \<longrightarrow> wp m (\<lambda>x t. at_level J L t \<and> N x) (failed fin J L) s)"

named_theorems keeping \<open>programs that keep the level of the loader\<close>

lemma load_keepsD: "keeps fin J L N m \<Longrightarrow> at_level J L s \<Longrightarrow> wp m (\<lambda>x t. at_level J L t \<and> N x) (failed fin J L) s"
  by (simp add: keeps_def)

lemma load_keeps_ret [keeping]: "N x \<Longrightarrow> keeps fin J L N (ret x)"
  by (simp add: keeps_def)

lemma load_keeps_raise [keeping]: "e \<noteq> StillRunning \<Longrightarrow> keeps fin J L N (raise e)"
  by (simp add: keeps_def failed_def)

lemma load_keeps_bnd:
  assumes "keeps fin J L M m" and "\<And>x. M x \<Longrightarrow> keeps fin J L N (f x)"
  shows "keeps fin J L N (bnd m f)"
proof -
  have "wp m (\<lambda>x. wp (f x) (\<lambda>y t. at_level J L t \<and> N y) (failed fin J L)) (failed fin J L) s"
    if "at_level J L s" for s
    by (rule wp_mono [OF load_keepsD [OF assms(1) that]]) (use assms(2) in \<open>auto simp: keeps_def\<close>)
  then show ?thesis by (simp add: keeps_def)
qed

lemma keeps_mono: "keeps fin J L M m \<Longrightarrow> (\<And>x. M x \<Longrightarrow> N x) \<Longrightarrow> keeps fin J L N m"
  by (auto simp: keeps_def intro: wp_mono)

lemma keeps_fold:
  assumes "\<And>x a. N a \<Longrightarrow> keeps fin J L N (f x a)"
  shows "N a \<Longrightarrow> keeps fin J L N (fold_proc f xs a)"
  by (induction xs arbitrary: a) (auto intro: load_keeps_ret load_keeps_bnd [OF assms])

definition doc_ok :: "bool \<Rightarrow> document \<Rightarrow> bool" where
  "doc_ok w c \<longleftrightarrow> (w \<longrightarrow> wf_doc c)"

lemma doc_ok_merge: "doc_ok w a \<Longrightarrow> doc_ok w b \<Longrightarrow> doc_ok w (deep_merge a b)"
  by (simp add: doc_ok_def wf_merge)

lemma doc_ok_empty [simp]: "doc_ok w (YObj [])"
  by (simp add: doc_ok_def)

lemma keeps_import_one:
  assumes "\<And>p. keeps fin J L (doc_ok w) (load p)" and "doc_ok w r"
  shows "keeps fin J L (doc_ok w) (import_one load dir r p)"
  unfolding import_one_def
  by (rule load_keeps_bnd [OF assms(1)]) (simp add: load_keeps_ret doc_ok_merge assms(2))

lemma keeps_imported:
  assumes "\<And>p. keeps fin J L (doc_ok w) (load p)"
  shows "keeps fin J L (doc_ok w) (imported load dir v)"
  unfolding imported_def
  by (cases v) (auto split: document.split intro!: keeping keeps_fold keeps_import_one assms)

definition items_ok :: "bool \<Rightarrow> string set \<Rightarrow> (string \<times> document) list \<Rightarrow> bool" where
  "items_ok w ks d \<longleftrightarrow> (w \<longrightarrow> wf_doc (YObj d) \<and> set (dict_keys d) \<subseteq> ks)"

lemma items_ok_Cons:
  "doc_ok w v \<Longrightarrow> items_ok w (fst ` set d) r \<Longrightarrow> (w \<Longrightarrow> k \<notin> fst ` set d) \<Longrightarrow>
   items_ok w (insert k (fst ` set d)) ((k, v) # r)"
  by (auto simp: items_ok_def doc_ok_def)

lemma keeps_parse_imports:
  assumes "\<And>p. keeps fin J L (doc_ok w) (load p)"
  shows "doc_ok w v \<Longrightarrow> keeps fin J L (doc_ok w) (parse_imports load dir v)"
    and "(w \<Longrightarrow> wf_doc (YObj d)) \<Longrightarrow> keeps fin J L (items_ok w (fst ` set d)) (import_items load dir d)"
    and "(w \<Longrightarrow> list_all wf_doc vs) \<Longrightarrow>
      keeps fin J L (\<lambda>r. w \<longrightarrow> list_all wf_doc r) (import_list load dir vs)"
  using assms
proof (induction load dir v and load dir d and load dir vs
    rule: parse_imports_import_items_import_list.induct)
  case (1 load dir d)
  then have items: "keeps fin J L (items_ok w (fst ` set d)) (import_items load dir d)"
    by (simp add: doc_ok_def)
  have imp: "keeps fin J L (doc_ok w) (imported load dir (dict_get d ''import''))"
    by (rule keeps_imported) (rule 1)
  have merged: "doc_ok w (deep_merge r (YObj e))"
    if "doc_ok w r" "items_ok w (fst ` set d) e" for r e
    by (rule doc_ok_merge) (use that in \<open>simp_all add: doc_ok_def items_ok_def\<close>)
  show ?case
    unfolding parse_imports.simps
    by (rule load_keeps_bnd [OF imp], rule load_keeps_bnd [OF items], rule load_keeps_ret, rule merged)
next
  case (2 load dir vs)
  have "keeps fin J L (\<lambda>r. w \<longrightarrow> list_all wf_doc r) (import_list load dir vs)"
    using 2 by (simp add: doc_ok_def)
  then show ?case
    unfolding parse_imports.simps by (rule load_keeps_bnd) (simp add: load_keeps_ret doc_ok_def)
next
  case (5 load dir k v d)
  show ?case
  proof (cases "k = ''import''")
    case True
    have "keeps fin J L (items_ok w (fst ` set d)) (import_items load dir d)"
      by (rule 5(1)) (use True 5 in auto)
    then have "keeps fin J L (items_ok w (insert k (fst ` set d))) (import_items load dir d)"
      by (rule keeps_mono) (auto simp: items_ok_def)
    then show ?thesis using True by simp
  next
    case False
    have v: "keeps fin J L (doc_ok w) (parse_imports load dir v)"
      by (rule 5(2)) (use False 5 in \<open>auto simp: doc_ok_def\<close>)
    have d: "keeps fin J L (items_ok w (fst ` set d)) (import_items load dir d)"
      by (rule 5(3)) (use False 5 in auto)
    have "keeps fin J L (items_ok w (insert k (fst ` set d)))
        (bnd (parse_imports load dir v) (\<lambda>u. bnd (import_items load dir d) (\<lambda>r. ret ((k, u) # r))))"
      by (rule load_keeps_bnd [OF v], rule load_keeps_bnd [OF d], rule load_keeps_ret, rule items_ok_Cons)
        (use 5 in auto)
    then show ?thesis using False by simp
  qed
next
  case (7 load dir v vs)
  have v: "keeps fin J L (doc_ok w) (parse_imports load dir v)"
    by (rule 7(1)) (use 7 in \<open>auto simp: doc_ok_def\<close>)
  have vs: "keeps fin J L (\<lambda>r. w \<longrightarrow> list_all wf_doc r) (import_list load dir vs)"
    by (rule 7(2)) (use 7 in auto)
  show ?case
    unfolding import_list.simps
    by (rule load_keeps_bnd [OF v], rule load_keeps_bnd [OF vs], rule load_keeps_ret) (simp add: doc_ok_def)
qed (auto simp: items_ok_def intro!: load_keeps_ret)

section \<open>Loading ends and restores\<close>

definition parsers_ok :: "config_env \<Rightarrow> bool" where
  "parsers_ok E \<longleftrightarrow> (\<forall>t c. cf_yaml E t = Some c \<longrightarrow> wf_doc c) \<and> (\<forall>t c. cf_json E t = Some c \<longrightarrow> wf_doc c)"

text \<open>The files that are not being loaded.\<close>

definition remaining :: "config_env \<Rightarrow> string list \<Rightarrow> nat" where
  "remaining E L = length (filter (\<lambda>f. f \<notin> set L) (dict_keys (cf_files E)))"

lemma filter_length_less: "x \<in> set xs \<Longrightarrow> P x \<Longrightarrow> \<not> Q x \<Longrightarrow> (\<And>y. Q y \<Longrightarrow> P y) \<Longrightarrow>
  length (filter Q xs) < length (filter P xs)"
proof (induction xs)
  case (Cons y ys)
  have "length (filter Q ys) \<le> length (filter P ys)"
    by (induction ys) (use Cons.prems(4) in auto)
  then show ?case using Cons by auto
qed simp

lemma remaining_less:
  "path \<notin> set L \<Longrightarrow> dict_get (cf_files E) path = Some text \<Longrightarrow> remaining E (path # L) < remaining E L"
  unfolding remaining_def
  by (rule filter_length_less [of path]) (auto dest: map_of_SomeD simp: image_iff intro: bexI [of _ "(path, text)"])

lemma wp_loading_remove:
  "path \<notin> set L \<Longrightarrow> loading s = path # L \<Longrightarrow>
   wp (loading_remove path) Q X s = Q () (s\<lparr>loading := L\<rparr>)"
  by (simp add: loading_remove_def)

lemma parse_text_not_running: "parse_text E path text = Inl e \<Longrightarrow> e \<noteq> StillRunning"
  by (auto simp: parse_text_def split: if_splits option.splits)

text \<open>
  One file: the loads made inside happen one level deeper; the cache is extended by the result.
\<close>

lemma keeps_load_file:
  assumes load: "\<And>text p. \<lbrakk>cf_realpath E path0 \<notin> set L;
        dict_get (cf_files E) (cf_realpath E path0) = Some text\<rbrakk> \<Longrightarrow>
        keeps fin J (cf_realpath E path0 # L) (doc_ok w) (load p)"
    and cached: "\<And>l p c. J l \<Longrightarrow> dict_get l p = Some c \<Longrightarrow> doc_ok w c"
    and store: "\<And>l c. J l \<Longrightarrow> doc_ok w c \<Longrightarrow> J (dict_set (cf_realpath E path0) c l)"
    and parsers: "w \<Longrightarrow> parsers_ok E"
  shows "keeps fin J L (\<lambda>r. doc_ok w (fst r)) (load_file E load path0)"
proof -
  let ?p = "cf_realpath E path0"
  have "wp (load_file E load path0) (\<lambda>r t. at_level J L t \<and> doc_ok w (fst r)) (failed fin J L) s"
    if s: "at_level J L s" for s
  proof (cases "?p \<in> set L \<or> dict_get (loaded s) ?p \<noteq> None \<or> dict_get (cf_files E) ?p = None")
    case True
    then show ?thesis
      using s cached by (auto simp: load_file_def Let_def at_level_def failed_def split: option.split)
  next
    case False
    then obtain body where body: "dict_get (cf_files E) ?p = Some body" and new: "?p \<notin> set L" by auto
    have raw: "doc_ok w c" if "parse_text E ?p body = Inr c" for c
      using that parsers by (auto simp: parse_text_def parsers_ok_def doc_ok_def split: if_splits option.splits)
    have inner: "wp (parse_imports load (dirname ?p) c)
        (\<lambda>r t. at_level J (?p # L) t \<and> doc_ok w r) (failed fin J (?p # L)) (s\<lparr>loading := ?p # L\<rparr>)"
      if "parse_text E ?p body = Inr c" for c
      by (rule load_keepsD [OF keeps_parse_imports(1) [OF load raw [OF that]]])
        (use new body s in \<open>simp_all add: at_level_def\<close>)
    have parsed: "doc_ok w (parse_default_and_overwrite r)" if "doc_ok w r" for r
      using that wf_parse_default(1) by (simp add: doc_ok_def)
    have ins: "loading s = L" "List.insert ?p L = ?p # L"
      using s new by (simp_all add: at_level_def)
    show ?thesis
    proof (cases "parse_text E ?p body")
      case (Inl e)
      then show ?thesis
        using False body s parse_text_not_running [OF Inl]
        by (simp add: load_file_def Let_def at_level_def failed_def)
    next
      case (Inr c)
      have "wp (parse_imports load (dirname ?p) c)
        (\<lambda>r t. at_level J L (t\<lparr>loading := L, loaded := dict_set ?p (parse_default_and_overwrite r) (loaded t)\<rparr>) \<and>
           doc_ok w (parse_default_and_overwrite r) \<and> loading t = ?p # L)
        (\<lambda>e t. if e = StillRunning then failed fin J L e t
               else failed fin J L e (t\<lparr>loading := L\<rparr>) \<and> loading t = ?p # L)
        (s\<lparr>loading := ?p # L\<rparr>)"
        by (rule wp_mono [OF inner [OF Inr]])
          (use parsed store in \<open>auto simp: at_level_def failed_def\<close>)
      then show ?thesis
        using False body s Inr new
        by (simp add: load_file_def Let_def at_level_def loading_add_def ins)
          (erule wp_mono, auto simp: wp_loading_remove [OF new])
    qed
  qed
  then show ?thesis by (simp add: keeps_def)
qed

lemma doc_ok_override: "doc_ok w c \<Longrightarrow> doc_ok w (deep_override_from_env env pre c)"
  by (simp add: doc_ok_def wf_override(1))

lemma keeps_file_override:
  assumes "\<And>p. keeps fin J L (\<lambda>r. doc_ok w (fst r)) (file p)" and "doc_ok w (fst base)"
  shows "keeps fin J L (\<lambda>r. doc_ok w (fst r)) (file_override E file base)"
proof -
  have "keeps fin J L (\<lambda>r. doc_ok w (fst r))
    (bnd (file p) (\<lambda>(new, c). ret (deep_merge (fst base) new, f new c)))" for p and f :: "document \<Rightarrow> string option \<Rightarrow> string option"
    by (rule load_keeps_bnd [OF assms(1)]) (auto intro!: load_keeps_ret doc_ok_merge assms(2))
  then show ?thesis
    unfolding file_override_def Let_def by (auto intro: load_keeps_ret assms(2))
qed

lemma wf_get_config: "parsers_ok E \<Longrightarrow> get_config E name = Some c \<Longrightarrow> wf_doc c"
  by (auto simp: get_config_def parsers_ok_def Let_def split: option.splits if_splits)

lemma wf_set_item: "wf_doc (YObj d) \<Longrightarrow> wf_doc v \<Longrightarrow> wf_doc (YObj (dict_set k v d))"
  by (auto simp: list_all_iff dest!: set_dict_set)

lemma keeps_store:
  assumes "\<And>l. J l \<Longrightarrow> J (dict_set p c l)"
  shows "keeps fin J L (\<lambda>_. True) (modify (\<lambda>l. l\<lparr>loaded := dict_set p c (loaded l)\<rparr>))"
  using assms by (simp add: keeps_def at_level_def)

lemma keeps_consul_override:
  assumes store: "\<And>p l c. J l \<Longrightarrow> doc_ok w c \<Longrightarrow> J (dict_set p c l)"
    and parsers: "w \<Longrightarrow> parsers_ok E" and config: "doc_ok w config"
  shows "keeps fin J L (doc_ok w) (consul_override E name config cached)"
proof (cases "get_config E name")
  case None
  then show ?thesis by (simp add: consul_override_def load_keeps_ret config)
next
  case (Some new)
  show ?thesis
  proof (cases "doc_truth new \<and> is_obj config")
    case True
    then obtain d where d: "config = YObj d" by (auto elim: is_objE)
    define v where "v = dict_get_or d name YNull"
    define c where "c = YObj (dict_set name (deep_merge (if doc_truth v then v else YObj []) new) d)"
    have "doc_ok w v"
      using config d wf_item [of d name] by (auto simp: v_def dict_get_or_def doc_ok_def split: option.split)
    moreover have "doc_ok w new" using Some parsers wf_get_config by (auto simp: doc_ok_def)
    ultimately have "doc_ok w (deep_merge (if doc_truth v then v else YObj []) new)"
      by (simp add: doc_ok_merge)
    then have c: "doc_ok w c" using config d wf_set_item by (simp add: doc_ok_def c_def)
    have "keeps fin J L (doc_ok w)
      (andthen (case cached of Some path \<Rightarrow> modify (\<lambda>l. l\<lparr>loaded := dict_set path c (loaded l)\<rparr>) | None \<Rightarrow> ret ())
         (ret c))"
      unfolding andthen_def
      by (rule load_keeps_bnd [where M = "\<lambda>_. True"]) (auto split: option.split intro!: load_keeps_ret keeps_store store c)
    then show ?thesis
      using Some True by (cases "doc_truth v"; cases cached) (simp_all add: consul_override_def d Let_def v_def c_def)
  next
    case False
    then show ?thesis
      using Some config by (cases config) (auto simp: consul_override_def load_keeps_ret load_keeps_raise)
  qed
qed

lemma keeps_load_from:
  assumes cached: "\<And>l p c. J l \<Longrightarrow> dict_get l p = Some c \<Longrightarrow> doc_ok w c"
    and store: "\<And>p l c. J l \<Longrightarrow> doc_ok w c \<Longrightarrow> J (dict_set p c l)"
    and parsers: "w \<Longrightarrow> parsers_ok E"
  shows "(fin \<Longrightarrow> remaining E L < n) \<Longrightarrow> keeps fin J L (doc_ok w) (load_from E n path name)"
proof (induction n arbitrary: L path name)
  case 0
  then have "\<not> fin" by auto
  then show ?case by (simp add: keeps_def failed_def)
next
  case (Suc n)
  let ?file = "load_file E (\<lambda>p. load_from E n p None)"
  have one: "keeps fin J L (\<lambda>r. doc_ok w (fst r)) (?file p)" for p
  proof (rule keeps_load_file [where w = w and J = J, OF _ cached store parsers])
    fix body q
    assume "cf_realpath E p \<notin> set L" and "dict_get (cf_files E) (cf_realpath E p) = Some body"
    then show "keeps fin J (cf_realpath E p # L) (doc_ok w) (load_from E n q None)"
      using remaining_less Suc.prems by (intro Suc.IH) fastforce
  qed
  have named: "keeps fin J L (doc_ok w)
    (case name of None \<Rightarrow> ret c | Some nm \<Rightarrow> consul_override E nm c k)" if "doc_ok w c" for c k
    by (auto split: option.split intro!: load_keeps_ret keeps_consul_override that store parsers)
  show ?case
    unfolding load_from.simps Let_def
    by (rule load_keeps_bnd [OF one], rule load_keeps_bnd [OF keeps_file_override [OF one]], assumption,
        clarsimp, rule load_keeps_bnd [OF named], assumption) (simp add: load_keeps_ret doc_ok_override)
qed

text \<open>
  C22: Loading ends: with a bound on the depth of imports above the number of files, the
  bound is never used up, whatever the files import; and loading, also when it raises, leaves the set of
  paths being loaded as it was.
\<close>

theorem loading_ends_and_restores:
  assumes "remaining E (loading s) < n"
  shows "(case load_from E n path name s of
            (Inl e, t) \<Rightarrow> e \<noteq> StillRunning \<and> loading t = loading s
          | (Inr config, t) \<Rightarrow> loading t = loading s)"
proof -
  have "keeps True (\<lambda>_. True) (loading s) (doc_ok False) (load_from E n path name)"
    by (rule keeps_load_from) (use assms in \<open>simp_all add: doc_ok_def\<close>)
  then have "wp (load_from E n path name) (\<lambda>x t. at_level (\<lambda>_. True) (loading s) t \<and> doc_ok False x)
      (failed True (\<lambda>_. True) (loading s)) s"
    by (rule load_keepsD) (simp add: at_level_def)
  then show ?thesis
    by (auto simp: wp_def at_level_def failed_def split: prod.splits sum.splits if_splits)
qed

text \<open>Every configuration has distinct keys in every section, when the parsers return such documents.\<close>

lemma loaded_documents:
  assumes "parsers_ok E" and "\<forall>c \<in> ran (dict_get (loaded s)). wf_doc c"
    and "load_from E n path name s = (Inr config, t)"
  shows "wf_doc config \<and> (\<forall>c \<in> ran (dict_get (loaded t)). wf_doc c)"
proof -
  let ?J = "\<lambda>l. \<forall>c \<in> ran (dict_get l). wf_doc c"
  have "keeps False ?J (loading s) (doc_ok True) (load_from E n path name)"
    by (rule keeps_load_from) (use assms(1) in \<open>auto simp: doc_ok_def ran_def split: if_splits\<close>)
  then have "wp (load_from E n path name) (\<lambda>x t. at_level ?J (loading s) t \<and> doc_ok True x)
      (failed False ?J (loading s)) s"
    by (rule load_keepsD) (simp add: at_level_def assms(2))
  from wp_Inr [OF this assms(3)] show ?thesis by (simp add: at_level_def doc_ok_def)
qed

section \<open>Witness\<close>

text \<open>
  A small set of files: a main file whose section \<open>a\<close> imports \<open>b.json\<close>, which imports the main file again
  or not. Documents stand for themselves through the first character of their text.
\<close>

definition demo_json :: "string \<Rightarrow> document option" where
  "demo_json s =
     (if s = ''m'' then Some (YObj [(''a'', YObj [(''import'', YStr ''b.json'')])])
      else if s = ''b'' then Some (YObj [(''x'', YInt 1)])
      else if s = ''c'' then Some (YObj [(''import'', YStr ''m.json'')])
      else if s = ''o'' then Some (YObj [(''y'', YInt 2)])
      else None)"

definition demo_env :: "string \<Rightarrow> string \<Rightarrow> (string, string) dict \<Rightarrow> config_env" where
  "demo_env b over env =
     \<lparr>cf_files = [(''/m.json'', ''m''), (''/b.json'', b), (''/o.json'', over)],
      cf_realpath = id, cf_yaml = demo_json, cf_json = demo_json, cf_environ = env,
      cf_consul = None, cf_token = None, cf_get = (\<lambda>_ _. None), cf_decode = Some\<rparr>"

text \<open>Here \<open>b.json\<close> imports the main file: a circle, which is noticed.\<close>

lemma loading_ends_and_restores_witness:
  "(case load_from (demo_env ''c'' ''o'' []) 4 ''/m.json'' None new_loader of
      (Inl e, t) \<Rightarrow> e \<noteq> StillRunning \<and> loading t = []
    | (Inr config, t) \<Rightarrow> loading t = [])"
proof -
  have "loading new_loader = []" by (simp add: new_loader_def)
  then show ?thesis
    using loading_ends_and_restores [of "demo_env ''c'' ''o'' []" new_loader 4 "''/m.json''" None]
    by (simp only:) (simp add: remaining_def demo_env_def)
qed

section \<open>Overrides\<close>

lemma never_bnd: "keeps fin J L (\<lambda>_. False) m \<Longrightarrow> keeps fin J L N (bnd m f)"
  by (erule load_keeps_bnd) simp

text \<open>A file whose import never returns is itself never loaded.\<close>

lemma never_load_file:
  assumes load: "\<And>L p. keeps False J L (\<lambda>_. False) (load p)"
    and cached: "\<And>l. J l \<Longrightarrow> dict_get l (cf_realpath E p) = None"
    and body: "dict_get (cf_files E) (cf_realpath E p) = Some body"
    and doc: "parse_text E (cf_realpath E p) body = Inr (YObj d)"
    and imp: "dict_get d ''import'' = Some (YStr q)"
  shows "keeps False J L (\<lambda>_. False) (load_file E load p)"
proof -
  let ?p = "cf_realpath E p"
  have "wp (load_file E load p) (\<lambda>r t. at_level J L t \<and> False) (failed False J L) s"
    if s: "at_level J L s" for s
  proof (cases "?p \<in> set L")
    case True
    then show ?thesis using s by (auto simp: load_file_def Let_def at_level_def failed_def)
  next
    case False
    have level: "loading s = L" "J (loaded s)" "List.insert ?p L = ?p # L" "dict_get (loaded s) ?p = None"
      using s False cached by (simp_all add: at_level_def)
    have "keeps False J (?p # L) (\<lambda>_. False) (parse_imports load (dirname ?p) (YObj d))"
      by (simp add: imp imported_def import_one_def never_bnd load)
    then have "wp (parse_imports load (dirname ?p) (YObj d)) (\<lambda>r t. at_level J (?p # L) t \<and> False)
        (failed False J (?p # L)) (s\<lparr>loading := ?p # L\<rparr>)"
      by (rule load_keepsD) (simp add: at_level_def level)
    then have "wp (parse_imports load (dirname ?p) (YObj d)) (\<lambda>r t. False)
        (\<lambda>e t. if e = StillRunning then True
          else failed False J L e (t\<lparr>loading := L\<rparr>) \<and> loading t = ?p # L) (s\<lparr>loading := ?p # L\<rparr>)"
      by (rule wp_mono) (auto simp: failed_def at_level_def)
    then show ?thesis
      using False body doc level
      by (simp add: load_file_def Let_def loading_add_def del: parse_imports.simps)
        (erule wp_mono, auto simp: wp_loading_remove failed_def)
  qed
  then show ?thesis by (simp add: keeps_def)
qed

lemma never_load_from:
  assumes over: "dict_get (cf_environ E) ''AGENTRL_CONFIG_OVERRIDE'' = Some p" "p \<noteq> []"
    and body: "dict_get (cf_files E) (cf_realpath E p) = Some body"
    and doc: "parse_text E (cf_realpath E p) body = Inr (YObj d)"
    and imp: "dict_get d ''import'' = Some (YStr q)"
  shows "keeps False (\<lambda>l. dict_get l (cf_realpath E p) = None) L (\<lambda>_. False) (load_from E n path name)"
    (is "keeps False ?J L _ _")
proof (induction n arbitrary: L path name)
  case 0
  show ?case by (simp add: keeps_def failed_def)
next
  case (Suc n)
  let ?file = "load_file E (\<lambda>p. load_from E n p None)"
  have never: "keeps False ?J L (\<lambda>_. False) (?file p)"
    by (rule never_load_file [OF Suc.IH _ body doc imp]) simp
  have first: "keeps False ?J L (\<lambda>r. doc_ok False (fst r)) (?file path)"
  proof (cases "cf_realpath E path = cf_realpath E p")
    case True
    show ?thesis
      by (rule keeps_mono [OF never_load_file [OF Suc.IH _ _ _ imp]]) (use True body doc in simp_all)
  next
    case False
    show ?thesis
      by (rule keeps_load_file) (use False in \<open>auto simp: doc_ok_def intro: keeps_mono [OF Suc.IH]\<close>)
  qed
  have "keeps False ?J L (\<lambda>_. False) (file_override E ?file base)" for base
    using over by (simp add: file_override_def dict_get_or_def never_bnd never)
  then show ?case
    unfolding load_from.simps Let_def
    by (intro load_keeps_bnd [OF first] never_bnd)
qed

text \<open>
  An override file that imports another file can never be used: every
  load then raises an exception, because the override is applied to the imported file too, while
  it is itself being loaded.
\<close>

lemma override_file_cannot_import:
  assumes "dict_get (cf_environ E) ''AGENTRL_CONFIG_OVERRIDE'' = Some p" "p \<noteq> []"
    and "dict_get (cf_files E) (cf_realpath E p) = Some body"
    and "parse_text E (cf_realpath E p) body = Inr (YObj d)"
    and "dict_get d ''import'' = Some (YStr q)"
    and "dict_get (loaded s) (cf_realpath E p) = None" and "remaining E (loading s) < n"
  shows "\<exists>e. e \<noteq> StillRunning \<and> fst (load_from E n path name s) = Inl e"
proof -
  let ?J = "\<lambda>l. dict_get l (cf_realpath E p) = None"
  have "wp (load_from E n path name) (\<lambda>x t. at_level ?J (loading s) t \<and> False)
      (failed False ?J (loading s)) s"
    by (rule load_keepsD [OF never_load_from [OF assms(1-5)]]) (simp add: at_level_def assms(6))
  moreover have "keeps True (\<lambda>_. True) (loading s) (doc_ok False) (load_from E n path name)"
    by (rule keeps_load_from) (use assms(7) in \<open>simp_all add: doc_ok_def\<close>)
  then have "wp (load_from E n path name) (\<lambda>x t. at_level (\<lambda>_. True) (loading s) t \<and> doc_ok False x)
      (failed True (\<lambda>_. True) (loading s)) s"
    by (rule load_keepsD) (simp add: at_level_def)
  ultimately show ?thesis
    by (auto simp: wp_def failed_def split: prod.splits sum.splits if_splits)
qed

lemma override_file_cannot_import_witness:
  "\<exists>e. e \<noteq> StillRunning \<and>
     fst (load_from (demo_env ''b'' ''c'' [(''AGENTRL_CONFIG_OVERRIDE'', ''/o.json'')]) 4 ''/b.json'' None
       new_loader) = Inl e"
  by (rule override_file_cannot_import
      [where p = "''/o.json''" and body = "''c''" and d = "[(''import'', YStr ''m.json'')]" and q = "''m.json''"])
    (simp_all add: demo_env_def demo_json_def parse_text_def ends_with_def new_loader_def remaining_def)

text \<open>
  The value from Consul is written into the cached file: whoever imports the file later gets it too.
\<close>

lemma consul_override_is_cached:
  assumes "get_config E nm = Some new" and "doc_truth new"
    and "dict_get_or (cf_environ E) ''AGENTRL_CONFIG_OVERRIDE'' [] = []"
    and "dict_get (loaded s) (cf_realpath E path) = None"
    and "load_from E n path (Some nm) s = (Inr config, t)"
  shows "\<exists>d v. dict_get (loaded t) (cf_realpath E path) = Some (YObj d) \<and> dict_get d nm = Some (deep_merge v new)"
proof (cases n)
  case 0
  then show ?thesis using assms(5) by (simp add: raise_def)
next
  case (Suc m)
  let ?p = "cf_realpath E path"
  have "wp (load_file E (\<lambda>p. load_from E m p None) path)
    (\<lambda>r t. snd r = Some ?p) (\<lambda>_ _. True) s"
    using assms(4)
    by (auto simp: load_file_def Let_def split: option.split sum.split intro!: wp_any)
  then have "wp (load_from E n path (Some nm))
    (\<lambda>_ t. \<exists>d v. dict_get (loaded t) ?p = Some (YObj d) \<and> dict_get d nm = Some (deep_merge v new)) (\<lambda>_ _. True) s"
    unfolding Suc load_from.simps Let_def wp_bnd
    using assms(1-3) 
    by (auto simp: file_override_def consul_override_def Let_def split: document.split elim!: wp_mono)
  from wp_Inr [OF this assms(5)] show ?thesis .
qed

section \<open>Values under environment variables\<close>

text \<open>
  C29: what the environment makes of a configuration. Nothing appears at a path where the configuration
  has nothing. If a variable is set for a section on the way, the section has been replaced as a whole and nothing
  is at the path any more. Otherwise the value at the path is decided by the variable of its own name,
  the keys joined by underscores in capitals with hyphens as underscores: a truth value is true for the texts
  true, 1 and yes and false for any other, whole and floating-point numbers are read as such or replaced by
  the text where it is none, a text is the text, a list its characters, a null the text, a section the text
  or, by an empty one, an empty section. Without that variable a value that is no section stays as it
  is, and a section keeps its keys.
\<close>

theorem environment_overrides_exactly:
  "case at_path v (k # p) of
     None \<Rightarrow> at_path (deep_override_from_env env [] v) (k # p) = None
   | Some w \<Rightarrow>
       if \<exists>q r. k # p = q @ r \<and> q \<noteq> [] \<and> r \<noteq> [] \<and> dict_get env (variable q) \<noteq> None
       then at_path (deep_override_from_env env [] v) (k # p) = None
       else case dict_get env (variable (k # p)) of
         Some s \<Rightarrow> at_path (deep_override_from_env env [] v) (k # p) = Some (read_as w s)
       | None \<Rightarrow>
           if is_obj w then \<exists>d d'. w = YObj d \<and>
             at_path (deep_override_from_env env [] v) (k # p) = Some (YObj d') \<and> dict_keys d' = dict_keys d
           else at_path (deep_override_from_env env [] v) (k # p) = Some w"
proof -
  have h: "(\<exists>q r. k # p = q @ r \<and> q \<noteq> [] \<and> r \<noteq> [] \<and> dict_get env (variable q) \<noteq> None) \<longleftrightarrow> hidden env [] (k # p)"
    by (simp add: hidden_def)
  have eq: "overridden env (k # p) w r \<longleftrightarrow>
      (case dict_get env (variable (k # p)) of
         Some s \<Rightarrow> r = Some (read_as w s)
       | None \<Rightarrow> if is_obj w then \<exists>d d'. w = YObj d \<and> r = Some (YObj d') \<and> dict_keys d' = dict_keys d else r = Some w)" for w r
    by (cases w) (simp_all add: overridden_def split: option.split)
  note below = overridden_below [where v = v and k = k and p = p and env = env and q = "[]",
      unfolded prefix_at_def simp_thms if_True append_Nil]
  show ?thesis
  proof (cases "at_path v (k # p)")
    case None
    then show ?thesis using below by simp
  next
    case (Some w)
    show ?thesis using below unfolding h Some option.case eq [symmetric] by simp
  qed
qed

lemma floats_read:
  "py_float ''3.75'' = Some (Finite (15 / 4))" "py_float '' -1_0.5E-1 '' = Some (Finite (- 21 / 20))"
  "py_float ''.5'' = Some (Finite (1 / 2))" "py_float ''-Infinity'' = Some (Infinite False)"
  "py_float ''_1'' = None" "py_float ''.'' = None" "py_float ''1e'' = None" "py_float ''+-1'' = None"
  by code_simp+

text \<open>The service of the repository's own test: a number below a nested section, and a truth value.\<close>

definition service :: document where
  "service = YObj [(''service'', YObj [(''port'', YInt 8000), (''debug'', YBool False),
     (''nested'', YObj [(''throttle'', YFloat (Finite (1 / 10))), (''name'', YStr ''alpha'')])])]"

definition service_variables :: "(string, string) dict" where
  "service_variables = [(''SERVICE_PORT'', ''9000''), (''SERVICE_DEBUG'', ''true''), (''SERVICE_NESTED_THROTTLE'', ''0.5'')]"

lemma environment_overrides_exactly_witness:
  "at_path (deep_override_from_env service_variables [] service) [''service'', ''nested'', ''throttle''] =
     Some (YFloat (Finite (1 / 2))) \<and>
   at_path (deep_override_from_env service_variables [] service) [''service'', ''debug''] = Some (YBool True) \<and>
   at_path (deep_override_from_env service_variables [] service) [''service'', ''nested'', ''name''] = Some (YStr ''alpha'')"
proof -
  have sections: "dict_get service_variables (variable [''service'']) = None"
    "dict_get service_variables (variable [''service'', ''nested'']) = None"
    by code_simp+
  have h: "\<not> hidden service_variables [] [''service'', ''nested'', ''throttle'']"
    "\<not> hidden service_variables [] [''service'', ''debug'']" "\<not> hidden service_variables [] [''service'', ''nested'', ''name'']"
    by (simp_all add: hidden_simps sections)
  have v: "dict_get service_variables (variable [''service'', ''nested'', ''throttle'']) = Some ''0.5''"
    "dict_get service_variables (variable [''service'', ''debug'']) = Some ''true''"
    "dict_get service_variables (variable [''service'', ''nested'', ''name'']) = None"
    by code_simp+
  have r: "read_as (YFloat (Finite (1 / 10))) ''0.5'' = YFloat (Finite (1 / 2))" "read_as (YBool False) ''true'' = YBool True"
    by code_simp+
  have w: "at_path service [''service'', ''nested'', ''throttle''] = Some (YFloat (Finite (1 / 10)))"
    "at_path service [''service'', ''debug''] = Some (YBool False)"
    "at_path service [''service'', ''nested'', ''name''] = Some (YStr ''alpha'')"
    by code_simp+
  have hid: "(\<exists>q r. k # p = q @ r \<and> q \<noteq> [] \<and> r \<noteq> [] \<and> dict_get service_variables (variable q) \<noteq> None) \<longleftrightarrow>
      hidden service_variables [] (k # p)" for k p
    by (simp add: hidden_def)
  note exact = environment_overrides_exactly
      [where v = service and k = "''service''" and env = service_variables, unfolded hid]
  show ?thesis
    using exact [where p = "[''nested'', ''throttle'']"] exact [where p = "[''debug'']"] exact [where p = "[''nested'', ''name'']"]
    by (simp only: h v r w option.case if_False is_obj.simps simp_thms)
qed

end
