(* ===== verification/Tensor_Utils.thy ===== *)
theory Tensor_Utils
  imports Advantages
begin

text \<open>
  Helpers on tensors of the trainer (trainer/src/agentrl/trainer/utils/torch\_functional.py): response
  masks, padding and truncation, splitting, attention masks, statistics over several processes, and
  the schedules of the learning rate. A tensor of two dimensions is a list of rows of one length, with
  at least one row where its width is asked for. Real numbers are exact, and the smallest number
  of a type is a parameter.
\<close>

section \<open>Masks of responses\<close>

primrec cumsum_int :: "int \<Rightarrow> int list \<Rightarrow> int list" where
  "cumsum_int a [] = []"
| "cumsum_int a (x # xs) = (a + x) # cumsum_int (a + x) xs"

definition response_mask_row :: "int list \<Rightarrow> int list \<Rightarrow> int list" where
  "response_mask_row eos_token ids =
     (let eos_mask = map (\<lambda>t. if t \<in> set eos_token then 1 else 0) ids
      in map2 (\<lambda>c e. if c - e = 0 then 1 else 0) (cumsum_int 0 eos_mask) eos_mask)"

definition get_response_mask :: "int list \<Rightarrow> int list list \<Rightarrow> int list list" where
  "get_response_mask eos_token response_id = map (response_mask_row eos_token) response_id"

section \<open>Sums over parameters, and splitting\<close>

definition compute_grad_norm :: "row option list \<Rightarrow> real" where
  "compute_grad_norm grads =
     foldl (\<lambda>total g. case g of None \<Rightarrow> total | Some xs \<Rightarrow> total + sum_list (map (\<lambda>x. x ^ 2) xs)) 0 grads"

fun chunks :: "nat \<Rightarrow> 'a list \<Rightarrow> 'a list list" where
  "chunks n xs = (if n = 0 \<or> xs = [] then [] else take n xs # chunks n (drop n xs))"

declare chunks.simps [simp del]

text \<open>A dictionary of tensors with a common first dimension.\<close>

record 'a tensor_dict =
  batch_size :: nat
  entries :: "(string \<times> 'a list) list"

definition td_part :: "'a tensor_dict \<Rightarrow> nat \<Rightarrow> nat \<Rightarrow> 'a tensor_dict" where
  "td_part t n i =
     \<lparr>batch_size = min n (batch_size t - i * n),
      entries = map (\<lambda>(k, xs). (k, take n (drop (i * n) xs))) (entries t)\<rparr>"

definition split_dict_tensor_into_batches :: "'a tensor_dict \<Rightarrow> nat \<Rightarrow> 'a tensor_dict list res" where
  "split_dict_tensor_into_batches t n =
     (if n = 0 then Inl ZeroDivisionError
      else if batch_size t mod n \<noteq> 0 then Inl AssertionError
      else Inr (map (td_part t n) [0..<batch_size t div n]))"

section \<open>Padding and truncation\<close>

definition pad_2d_list_to_length :: "'a list list \<Rightarrow> 'a \<Rightarrow> nat option \<Rightarrow> 'a list list res" where
  "pad_2d_list_to_length response pad max_length =
     (if response = [] then Inl ValueError
      else
        (let response_length = Max (set (map length response));
             target = (case max_length of
                         Some m \<Rightarrow> if response_length < m then m else response_length
                       | None \<Rightarrow> response_length)
         in Inr (map (\<lambda>r. r @ replicate (target - length r) pad) response)))"

definition width :: "'a list list \<Rightarrow> nat" where
  "width xss = length (hd xss)"

definition pad_sequence_to_length :: "'a list list \<Rightarrow> nat \<Rightarrow> 'a \<Rightarrow> bool \<Rightarrow> 'a list list" where
  "pad_sequence_to_length tensors max_seq_len pad left_pad =
     (if max_seq_len \<le> width tensors then tensors
      else
        (let ps = replicate (max_seq_len - width tensors) pad
         in map (\<lambda>r. if left_pad then ps @ r else r @ ps) tensors))"

text \<open>\<open>r[-n:]\<close>, which for zero is the whole row.\<close>

definition last_n :: "nat \<Rightarrow> 'a list \<Rightarrow> 'a list" where
  "last_n n r = (if n = 0 then r else drop (length r - n) r)"

definition truncate_row :: "string \<Rightarrow> nat \<Rightarrow> 'a list \<Rightarrow> 'a list" where
  "truncate_row truncation max_length r =
     (if truncation = ''left'' then last_n max_length r
      else if truncation = ''right'' then take max_length r
      else
        (let left_half = max_length div 2; right_half = max_length - left_half
         in take left_half r @ last_n right_half r))"

definition postprocess_data ::
  "int list list \<Rightarrow> int list list \<Rightarrow> nat \<Rightarrow> int \<Rightarrow> bool \<Rightarrow> string \<Rightarrow> (int list list \<times> int list list) res" where
  "postprocess_data input_ids attention_mask max_length pad_token_id left_pad truncation =
     (if truncation \<notin> {''left'', ''right'', ''middle'', ''error''} then Inl AssertionError
      else if width input_ids < max_length then
        Inr (pad_sequence_to_length input_ids max_length pad_token_id left_pad,
             pad_sequence_to_length attention_mask max_length 0 left_pad)
      else if max_length < width input_ids then
        (if truncation = ''error'' then Inl NotImplementedError
         else Inr (map (truncate_row truncation max_length) input_ids,
                   map (truncate_row truncation max_length) attention_mask))
      else Inr (input_ids, attention_mask))"

definition tokenize_and_postprocess_data ::
  "string \<Rightarrow> (string \<Rightarrow> int list list \<times> int list list) \<Rightarrow> nat \<Rightarrow> int \<Rightarrow> bool \<Rightarrow> string
   \<Rightarrow> (int list list \<times> int list list) res" where
  "tokenize_and_postprocess_data prompt tokenizer max_length pad_token_id left_pad truncation =
     (case tokenizer prompt of
        (input_ids, attention_mask) \<Rightarrow>
          postprocess_data input_ids attention_mask max_length pad_token_id left_pad truncation)"

definition remove_pad_token :: "int list list \<Rightarrow> int list list \<Rightarrow> int list list" where
  "remove_pad_token input_ids attention_mask =
     map2 (\<lambda>ids mask. drop (length ids - nat (sum_list mask)) ids) input_ids attention_mask"

text \<open>Where the tokens are, where each row starts among them, and the longest row.\<close>

definition get_unpad_data :: "int list list \<Rightarrow> (nat list \<times> int list \<times> int) res" where
  "get_unpad_data attention_mask =
     (let seqlens = map sum_list attention_mask; flat = concat attention_mask
      in if seqlens = [] then Inl RuntimeError
         else Inr (filter (\<lambda>i. flat ! i \<noteq> 0) [0..<length flat], 0 # cumsum_int 0 seqlens, Max (set seqlens)))"

definition post_process_logits :: "batch \<Rightarrow> real \<Rightarrow> batch" where
  "post_process_logits logits temperature =
     (if temperature \<noteq> 1 then map (map (\<lambda>x. x / temperature)) logits else logits)"

section \<open>Attention masks\<close>

text \<open>Batch, head, target and source; \<open>lo\<close> is the smallest number of the type.\<close>

definition make_causal_mask :: "real \<Rightarrow> nat \<Rightarrow> nat \<Rightarrow> real list list list list" where
  "make_causal_mask lo bsz n =
     replicate bsz [map (\<lambda>i. map (\<lambda>j. if j < i + 1 then 0 else lo) [0..<n]) [0..<n]]"

definition expand_mask :: "real \<Rightarrow> batch \<Rightarrow> nat option \<Rightarrow> real list list list list" where
  "expand_mask lo amask tgt_len =
     (let n = (case tgt_len of Some n \<Rightarrow> n | None \<Rightarrow> width amask)
      in map (\<lambda>r. [replicate n (map (\<lambda>x. let v = 1 - x in if v \<noteq> 0 then lo else v) r)]) amask)"

definition prepare_decoder_attention_mask ::
  "real \<Rightarrow> batch option \<Rightarrow> nat \<times> nat \<Rightarrow> real list list list list option" where
  "prepare_decoder_attention_mask lo attention_mask input_shape =
     (let combined = (if 1 < snd input_shape then Some (make_causal_mask lo (fst input_shape) (snd input_shape))
                      else None)
      in case attention_mask of
           None \<Rightarrow> combined
         | Some amask \<Rightarrow>
             (let expanded = expand_mask lo amask (Some (snd input_shape))
              in Some (case combined of
                   None \<Rightarrow> expanded
                 | Some c \<Rightarrow> map2 (map2 (map2 (map2 (+)))) expanded c)))"

section \<open>Statistics over several processes\<close>

text \<open>
  Each process has a tensor; \<open>all_reduce\<close> leaves the sum, or the maximum or minimum, over the
  processes in each. The maximum of an empty tensor is an error.
\<close>

definition distributed_mean_max_min_std ::
  "row list \<Rightarrow> bool \<Rightarrow> bool \<Rightarrow> bool \<Rightarrow> (real \<times> real option \<times> real option \<times> real option) res" where
  "distributed_mean_max_min_std locals compute_max compute_min compute_std =
     (let global_sum = sum_list (map sum_list locals);
          global_num = real (sum_list (map length locals));
          global_mean = global_sum / global_num
      in if (compute_max \<or> compute_min) \<and> [] \<in> set locals then Inl RuntimeError
         else
           Inr (global_mean,
                if compute_max then Some (Max (set (map (\<lambda>xs. Max (set xs)) locals))) else None,
                if compute_min then Some (Min (set (map (\<lambda>xs. Min (set xs)) locals))) else None,
                if compute_std
                then Some (sqrt (sum_list (map (\<lambda>xs. sum_list (map (\<lambda>x. (x - global_mean) ^ 2) xs)) locals) /
                                 (global_num - 1)))
                else None))"

definition distributed_masked_mean :: "row list \<Rightarrow> row list \<Rightarrow> real" where
  "distributed_masked_mean locals masks =
     sum_list (map2 (\<lambda>xs m. sum_list (vmul xs m)) locals masks) / sum_list (map sum_list masks)"

section \<open>Schedules of the learning rate\<close>

definition cosine_lambda :: "int \<Rightarrow> int \<Rightarrow> real \<Rightarrow> real \<Rightarrow> int \<Rightarrow> real" where
  "cosine_lambda num_warmup_steps num_training_steps min_lr_ratio num_cycles current_step =
     (let coef = (1 - min_lr_ratio) * (1 / 2); intercept = (1 + min_lr_ratio) * (1 / 2)
      in if current_step < num_warmup_steps
         then min_lr_ratio + (1 - min_lr_ratio) * (real_of_int current_step / real_of_int (max 1 num_warmup_steps))
         else
           (let progress = real_of_int (current_step - num_warmup_steps) /
                           real_of_int (max 1 (num_training_steps - num_warmup_steps));
                x = cos (pi * num_cycles * 2 * progress)
            in max min_lr_ratio (x * coef + intercept)))"

definition get_cosine_schedule_with_warmup ::
  "int \<Rightarrow> int \<Rightarrow> real option \<Rightarrow> real \<Rightarrow> (int \<Rightarrow> real) res" where
  "get_cosine_schedule_with_warmup num_warmup_steps num_training_steps min_lr_ratio num_cycles =
     (let m = (case min_lr_ratio of None \<Rightarrow> 0 | Some m \<Rightarrow> m)
      in if 0 \<le> m \<and> m \<le> 1 then Inr (cosine_lambda num_warmup_steps num_training_steps m num_cycles)
         else Inl AssertionError)"

definition get_constant_schedule_with_warmup :: "int \<Rightarrow> int \<Rightarrow> real" where
  "get_constant_schedule_with_warmup num_warmup_steps current_step =
     (if current_step < num_warmup_steps
      then real_of_int current_step / max 1 (real_of_int num_warmup_steps) else 1)"

definition py_trunc :: "real \<Rightarrow> int" where
  "py_trunc x = (if 0 \<le> x then \<lfloor>x\<rfloor> else \<lceil>x\<rceil>)"

definition get_wsd_schedule_with_warmup ::
  "int \<Rightarrow> int \<Rightarrow> real \<Rightarrow> real \<Rightarrow> real \<Rightarrow> int \<Rightarrow> real" where
  "get_wsd_schedule_with_warmup num_warmup_steps num_training_steps min_lr_ratio num_cycles stable_ratio current_step =
     (let remaining_steps = max 0 (num_training_steps - num_warmup_steps);
          num_stable_steps = py_trunc (real_of_int remaining_steps * stable_ratio);
          num_decay_steps = remaining_steps - num_stable_steps
      in if current_step < num_warmup_steps
         then real_of_int current_step / real_of_int (max 1 num_warmup_steps)
         else if current_step < num_warmup_steps + num_stable_steps then 1
         else if current_step < num_training_steps then
           (let progress = real_of_int (current_step - num_warmup_steps - num_stable_steps) /
                           real_of_int (max 1 num_decay_steps);
                v = max 0 (1 / 2 * (1 + cos (pi * num_cycles * 2 * progress)))
            in (1 - min_lr_ratio) * v + min_lr_ratio)
         else min_lr_ratio)"

end
