(* ===== verification/Tensor_Proofs.thy ===== *)
theory Tensor_Proofs
  imports Tensor_Utils
begin

text \<open>
  Correctness of the helpers on tensors: where a response ends, that padding and its removal cancel
  out, which positions attention sees, that statistics over processes are those of all values, and
  the shapes of the schedules.
\<close>

section \<open>Response masks\<close>

lemma length_cumsum_int [simp]: "length (cumsum_int a xs) = length xs"
  by (induction xs arbitrary: a) simp_all

lemma mask_after:
  "(\<And>x. x \<in> set es \<Longrightarrow> 0 \<le> x) \<Longrightarrow> 0 < a \<Longrightarrow>
   map2 (\<lambda>c e. if c - e = (0::int) then 1 else 0) (cumsum_int a es) es = replicate (length es) 0"
proof (induction es arbitrary: a)
  case (Cons e es)
  have "0 < a + e" using Cons.prems(1) [of e] Cons.prems(2) by simp
  then show ?case using Cons by simp
qed simp

text \<open>The mask of a row: ones up to and with the first end token, then zeros.\<close>

definition response_length :: "int list \<Rightarrow> int list \<Rightarrow> nat" where
  "response_length eos ids = min (length ids) (Suc (length (takeWhile (\<lambda>t. t \<notin> set eos) ids)))"

lemma response_mask_row_closed:
  "response_mask_row eos ids =
     replicate (response_length eos ids) 1 @ replicate (length ids - response_length eos ids) 0"
proof (induction ids)
  case Nil
  show ?case by (simp add: response_mask_row_def response_length_def)
next
  case (Cons t ids)
  show ?case
  proof (cases "t \<in> set eos")
    case True
    have "map2 (\<lambda>c e. if c - e = (0::int) then 1 else 0) (cumsum_int 1 es) es = replicate (length es) 0"
      if "es = map (\<lambda>t. if t \<in> set eos then 1 else 0) ids" for es
      by (rule mask_after) (use that in auto)
    then show ?thesis
      using True by (simp add: response_mask_row_def response_length_def Let_def)
  next
    case False
    then have "response_mask_row eos (t # ids) = 1 # response_mask_row eos ids"
      by (simp add: response_mask_row_def Let_def)
    then show ?thesis
      using Cons.IH False by (simp add: response_length_def)
  qed
qed

section \<open>Padding\<close>

lemma last_n_length: "0 < n \<Longrightarrow> n \<le> length r \<Longrightarrow> length (last_n n r) = n"
  by (simp add: last_n_def)

lemma truncate_row_length:
  assumes "0 < n" and "n < length r"
  shows "length (truncate_row how n r) = n"
proof -
  have "0 < n - n div 2" "n - n div 2 \<le> length r" using assms by linarith+
  then show ?thesis
    using assms by (simp add: truncate_row_def last_n_length Let_def)
qed

lemma pad_sequence_length:
  assumes "\<forall>r \<in> set xss. length r = width xss" and "width xss \<le> n" and "r \<in> set (pad_sequence_to_length xss n p left)"
  shows "length r = n"
  using assms by (auto simp: pad_sequence_to_length_def Let_def split: if_splits)

text \<open>
  Whatever comes out of \<open>postprocess_data\<close> has rows of exactly the length asked for,
  as long as that is not zero.
\<close>

lemma postprocessed_length:
  assumes "\<forall>r \<in> set ids. length r = width ids" and "\<forall>r \<in> set masks. length r = width ids"
    and "width masks = width ids" and "0 < n"
    and "postprocess_data ids masks n pad left how = Inr (ids', masks')"
  shows "\<forall>r \<in> set ids' \<union> set masks'. length r = n"
proof -
  have m: "\<forall>r \<in> set masks. length r = width masks" using assms(2,3) by simp
  note pad = pad_sequence_length [OF assms(1)] pad_sequence_length [OF m]
  show ?thesis
    using assms m by (auto simp: postprocess_data_def truncate_row_length split: if_splits intro: pad)
qed

lemma postprocessed_length_witness:
  "\<forall>r \<in> set [[7, 9]] \<union> set [[1, 1 :: int]]. length (r :: int list) = 2"
  by (rule postprocessed_length [of "[[7, 8, 9]]" "[[1, 1, 1]]" 2 0 True "''middle''"])
    (simp_all add: postprocess_data_def width_def truncate_row_def last_n_def)

text \<open>With length zero nothing is cut on the left: the slice \<open>[-0:]\<close> is the whole row.\<close>

lemma zero_length_keeps_all: "truncate_row ''left'' 0 r = r"
  by (simp add: truncate_row_def last_n_def)

lemma map2_map_left: "map2 f (map g xs) ys = map2 (\<lambda>x y. f (g x) y) xs ys"
  by (induction xs ys rule: list_induct2') simp_all

lemma map2_map_right: "map2 f xs (map h ys) = map2 (\<lambda>x y. f x (h y)) xs ys"
  by (induction xs ys rule: list_induct2') simp_all

text \<open>
  Padding on the left is undone by \<open>remove_pad_token\<close>: rows whose tokens are all
  marked come back as they were. (Padding on the right is not: the tokens at the front are lost.)
\<close>

lemma left_padding_removed:
  assumes "\<forall>r \<in> set ids. length r = width ids" and "width ids \<le> n"
    and "masks = map (\<lambda>r. replicate (length r) 1) ids" and "how \<in> {''left'', ''right'', ''middle'', ''error''}"
  shows "(case postprocess_data ids masks n pad True how of
            Inr (ids', masks') \<Rightarrow> remove_pad_token ids' masks' = ids
          | Inl e \<Rightarrow> False)"
proof -
  have ones: "nat (sum_list (replicate k (1::int))) = k" for k
    by (simp add: sum_list_replicate)
  have same: "map2 f xs xs = xs" if "\<And>x. x \<in> set xs \<Longrightarrow> f x x = x" for f and xs :: "int list list"
    using that by (induction xs) simp_all
  have w: "width masks = width ids" if "ids \<noteq> []"
    using that by (cases ids) (simp_all add: assms(3) width_def)
  show ?thesis
  proof (cases "ids = []")
    case True
    then show ?thesis
      using assms by (auto simp: postprocess_data_def pad_sequence_to_length_def remove_pad_token_def split: if_splits)
  next
    case False
    then show ?thesis
      using assms(1,2,4) w [OF False]
      by (auto simp: postprocess_data_def pad_sequence_to_length_def remove_pad_token_def assms(3)
          map2_map_left map2_map_right Let_def ones sum_list_replicate intro!: same)
  qed
qed

lemma left_padding_removed_witness:
  "remove_pad_token [[0, 7, 8], [0, 5, 6]] [[0, 1, 1], [0, 1, 1]] = [[7, 8], [5, 6]]"
  using left_padding_removed [of "[[7, 8], [5, 6]]" 3 "[[1, 1], [1, 1]]" "''right''" 0]
  by (simp add: width_def postprocess_data_def pad_sequence_to_length_def Let_def)

section \<open>Splitting\<close>

lemma take_drop_concat: "concat (map (\<lambda>i. take n (drop (i * n) xs)) [0..<k]) = take (k * n) xs"
proof (induction k)
  case (Suc k)
  have "take (Suc k * n) xs = take (k * n) xs @ take n (drop (k * n) xs)"
    by (metis add.commute mult_Suc take_add)
  then show ?case using Suc by simp
qed simp

text \<open>The parts of a dictionary, put together again, are the dictionary.\<close>

lemma split_parts:
  assumes "split_dict_tensor_into_batches t n = Inr ts" and "(k, xs) \<in> set (entries t)"
    and "length xs = batch_size t"
  shows "concat (map (\<lambda>i. take n (drop (i * n) xs)) [0..<length ts]) = xs"
    and "\<forall>s \<in> set ts. batch_size s = n"
proof -
  have n: "0 < n" "batch_size t mod n = 0" and ts: "ts = map (td_part t n) [0..<batch_size t div n]"
    using assms(1) by (auto simp: split_dict_tensor_into_batches_def split: if_splits)
  have b: "batch_size t div n * n = batch_size t" using n(2) by auto
  then show "concat (map (\<lambda>i. take n (drop (i * n) xs)) [0..<length ts]) = xs"
    by (simp add: take_drop_concat ts assms(3))
  have "n \<le> batch_size t - i * n" if "i < batch_size t div n" for i
  proof -
    have "Suc i * n \<le> batch_size t div n * n" using that by (intro mult_le_mono1) simp
    then show ?thesis using b by simp
  qed
  then show "\<forall>s \<in> set ts. batch_size s = n" by (auto simp: ts td_part_def)
qed

section \<open>Attention\<close>

lemma map2_nth: "i < length xs \<Longrightarrow> i < length ys \<Longrightarrow> map2 f xs ys ! i = f (xs ! i) (ys ! i)"
  by simp

text \<open>
  A position attends to the positions up to itself that are not padding: there the
  mask is zero, everywhere else it is at most the smallest number.
\<close>

lemma attended_positions:
  assumes "prepare_decoder_attention_mask lo (Some masks) (length masks, n) = Some m"
    and "1 < n" and "\<forall>r \<in> set masks. length r = n \<and> set r \<subseteq> {0, 1}" and "lo < 0"
    and "b < length masks" and "i < n" and "j < n"
  shows "if j \<le> i \<and> masks ! b ! j = 1 then m ! b ! 0 ! i ! j = 0 else m ! b ! 0 ! i ! j \<le> lo"
proof -
  have row: "length (masks ! b) = n" "set (masks ! b) \<subseteq> {0, 1}"
    using assms(3,5) nth_mem by blast+
  then have "masks ! b ! j \<in> {0, 1}" using assms(7) nth_mem by blast
  note r = row(1) this
  have "m ! b ! 0 ! i ! j = (if masks ! b ! j = 1 then 0 else lo) + (if j \<le> i then 0 else lo)"
    using assms(1,2,5-7) r
    by (auto simp: prepare_decoder_attention_mask_def make_causal_mask_def expand_mask_def Let_def)
  then show ?thesis using assms(4) by auto
qed

lemma attended_positions_witness:
  "the (prepare_decoder_attention_mask (- 1) (Some [[0, 1]]) (1, 2)) ! 0 ! 0 ! 1 ! 1 = 0"
  using attended_positions [of "- 1" "[[0, 1]]" 2 "the (prepare_decoder_attention_mask (- 1) (Some [[0, 1]]) (1, 2))" 0 1 1]
  by (simp add: prepare_decoder_attention_mask_def)

section \<open>Statistics over processes\<close>

lemma concat_nonempty: "xss \<noteq> [] \<Longrightarrow> [] \<notin> set xss \<Longrightarrow> set (concat xss) \<noteq> {}"
  by (cases xss) auto

lemma Max_of_Max:
  "locals \<noteq> [] \<Longrightarrow> [] \<notin> set locals \<Longrightarrow> Max ((\<lambda>xs. Max (set xs)) ` set locals) = Max (set (concat locals))"
  for locals :: "row list"
proof (induction locals rule: list_nonempty_induct)
  case (cons xs xss)
  have ne: "set xs \<noteq> {}" "set (concat xss) \<noteq> {}"
    using cons.prems cons.hyps concat_nonempty [of xss] by auto
  then have "Max (set xs \<union> set (concat xss)) = max (Max (set xs)) (Max (set (concat xss)))"
    by (intro Max_Un) simp_all
  then show ?case using cons by (simp del: set_concat add: set_append)
qed simp

lemma Min_of_Min:
  "locals \<noteq> [] \<Longrightarrow> [] \<notin> set locals \<Longrightarrow> Min ((\<lambda>xs. Min (set xs)) ` set locals) = Min (set (concat locals))"
  for locals :: "row list"
proof (induction locals rule: list_nonempty_induct)
  case (cons xs xss)
  have ne: "set xs \<noteq> {}" "set (concat xss) \<noteq> {}"
    using cons.prems cons.hyps concat_nonempty [of xss] by auto
  then have "Min (set xs \<union> set (concat xss)) = min (Min (set xs)) (Min (set (concat xss)))"
    by (intro Min_Un) simp_all
  then show ?case using cons by (simp del: set_concat add: set_append)
qed simp

lemma sum_list_concat: "sum_list (map sum_list xss) = sum_list (concat xss)" for xss :: "row list"
  by (induction xss) simp_all

lemma length_concat_sum: "sum_list (map length xss) = length (concat xss)"
  by (induction xss) simp_all

text \<open>
  C30: The statistics over processes are those of all values in one tensor: mean, maximum,
  minimum, and the standard deviation of a sample.
\<close>

theorem distributed_is_central:
  assumes "locals \<noteq> []" and "[] \<notin> set locals"
  shows "distributed_mean_max_min_std locals True True True =
    (let xs = concat locals
     in Inr (sum_list xs / real (length xs), Some (Max (set xs)), Some (Min (set xs)), Some (sample_std xs)))"
proof -
  have "sum_list (map (\<lambda>xs. sum_list (map f xs)) locals) = sum_list (map f (concat locals))" for f :: "real \<Rightarrow> real"
    by (induction locals) simp_all
  then show ?thesis
    using assms
    by (simp add: distributed_mean_max_min_std_def sample_std_def Let_def Max_of_Max Min_of_Min
        sum_list_concat length_concat_sum del: length_concat set_concat)
qed

lemma distributed_is_central_witness:
  "distributed_mean_max_min_std [[1, 2], [3]] True True True = Inr (2, Some 3, Some 1, Some 1)"
  using distributed_is_central [of "[[1, 2], [3]]"] by (simp add: Let_def sample_std_def)

section \<open>Schedules\<close>

lemma warmup_ratio:
  assumes "0 \<le> s" and "s \<le> w"
  shows "0 \<le> real_of_int s / real_of_int (max 1 w)" and "real_of_int s / real_of_int (max 1 w) \<le> 1"
  using assms by (simp_all add: divide_le_eq max_def)

lemma halves: "(1 - m) / 2 + (1 + m) / 2 = (1::real)"
  by (simp add: field_simps)

lemma cosine_after:
  "w \<le> s \<Longrightarrow> cosine_lambda w t m c s =
     max m (cos (pi * c * 2 * (real_of_int (s - w) / real_of_int (max 1 (t - w)))) * ((1 - m) / 2) + (1 + m) / 2)"
  by (simp add: cosine_lambda_def Let_def)

lemma between: "0 \<le> m \<Longrightarrow> m \<le> 1 \<Longrightarrow> 0 \<le> r \<Longrightarrow> r \<le> 1 \<Longrightarrow> m \<le> m + (1 - m) * r \<and> m + (1 - m) * r \<le> (1::real)"
  by (smt (verit) mult_left_le mult_nonneg_nonneg)

lemma cosine_range:
  assumes "0 \<le> m" and "m \<le> 1" and "0 \<le> s"
  shows "m \<le> cosine_lambda w t m c s \<and> cosine_lambda w t m c s \<le> 1"
proof (cases "s < w")
  case True
  then show ?thesis
    using between [OF assms(1,2) warmup_ratio [of s w]] assms(3) by (simp add: cosine_lambda_def Let_def)
next
  case False
  have "x * ((1 - m) / 2) \<le> 1 * ((1 - m) / 2)" if "x \<le> 1" for x :: real
    using assms(2) that by (intro mult_right_mono) simp_all
  from this [OF cos_le_one] have "cos y * ((1 - m) / 2) + (1 + m) / 2 \<le> 1" for y
    using halves [of m] by (smt (verit))
  then show ?thesis using False assms(2) unfolding cosine_after [OF leI [OF False]] by simp
qed

text \<open>
  The cosine schedule over half a period starts at the minimum, rises to the full rate
  at the end of the warmup, falls to the minimum at the end of the training, monotonically in both
  phases, and never leaves the range from the minimum to the full rate.
\<close>

lemma cosine_schedule_shape:
  assumes "get_cosine_schedule_with_warmup w t (Some m) (1 / 2) = Inr lr" and "0 \<le> w" and "w < t"
  shows "(0 < w \<longrightarrow> lr 0 = m) \<and> lr w = 1 \<and> lr t = m \<and>
    (\<forall>s \<ge> 0. m \<le> lr s \<and> lr s \<le> 1) \<and>
    (\<forall>s s'. 0 \<le> s \<and> s \<le> s' \<and> s' \<le> w \<longrightarrow> lr s \<le> lr s') \<and>
    (\<forall>s s'. w \<le> s \<and> s \<le> s' \<and> s' \<le> t \<longrightarrow> lr s' \<le> lr s)"
proof -
  have m: "0 \<le> m" "m \<le> 1" and lr: "lr = cosine_lambda w t m (1 / 2)"
    using assms(1) by (auto simp: get_cosine_schedule_with_warmup_def split: if_splits)
  have one: "lr w = 1" using m by (simp add: lr cosine_after halves)
  have up: "lr s \<le> lr s'" if "0 \<le> s" "s \<le> s'" "s' \<le> w" for s s'
  proof (cases "s' = w")
    case True
    then show ?thesis using cosine_range [OF m, of s w t "1 / 2"] that one by (simp add: lr)
  next
    case False
    have "(1 - m) * (real_of_int s / real_of_int (max 1 w)) \<le> (1 - m) * (real_of_int s' / real_of_int (max 1 w))"
      using that m by (intro mult_left_mono divide_right_mono) simp_all
    then show ?thesis
      using False that by (simp add: lr cosine_lambda_def Let_def)
  qed
  let ?x = "\<lambda>s. pi * (real_of_int (s - w) / real_of_int (t - w))"
  have after: "lr s = max m (cos (?x s) * ((1 - m) / 2) + (1 + m) / 2)" if "w \<le> s" for s
    using that assms(3) by (simp add: lr cosine_after max_def)
  have down: "lr s' \<le> lr s" if "w \<le> s" "s \<le> s'" "s' \<le> t" for s s'
  proof -
    have "real_of_int (s - w) / real_of_int (t - w) \<le> real_of_int (s' - w) / real_of_int (t - w)"
      using that assms(3) by (intro divide_right_mono) simp_all
    moreover have "real_of_int (s' - w) / real_of_int (t - w) \<le> 1"
      using that assms(3) by (simp add: divide_le_eq)
    moreover have "0 \<le> real_of_int (s - w) / real_of_int (t - w)" using that assms(3) by simp
    moreover have "0 \<le> pi * a" "pi * a \<le> pi * b" "pi * b \<le> pi" if "0 \<le> a" "a \<le> b" "b \<le> 1" for a b :: real
      using that pi_ge_zero by (simp_all add: mult_left_mono mult_left_le)
    ultimately have "0 \<le> ?x s" "?x s \<le> ?x s'" "?x s' \<le> pi" by blast+
    then have "cos (?x s') \<le> cos (?x s)" by (rule cos_monotone_0_pi_le)
    then have "cos (?x s') * ((1 - m) / 2) \<le> cos (?x s) * ((1 - m) / 2)"
      using m by (intro mult_right_mono) simp_all
    then show ?thesis using that after [of s] after [of s'] by simp
  qed
  have "lr t = m"
  proof -
    have "?x t = pi" using assms(3) by simp
    moreover have "- 1 * ((1 - m) / 2) + (1 + m) / 2 = m" by (simp add: field_simps)
    ultimately show ?thesis using after [of t] assms(3) by simp
  qed
  moreover have "lr 0 = m" if "0 < w" using that by (simp add: lr cosine_lambda_def Let_def)
  ultimately show ?thesis
    using one up down cosine_range [OF m] unfolding lr by blast
qed

lemma cosine_schedule_shape_witness: "cosine_lambda 10 100 (1 / 10) (1 / 2) 100 = 1 / 10"
  using cosine_schedule_shape [of 10 100 "1 / 10" "cosine_lambda 10 100 (1 / 10) (1 / 2)"]
  by (simp add: get_cosine_schedule_with_warmup_def)

text \<open>The progress is not bounded: past the end of the training the rate rises again.\<close>

lemma cosine_rises_again:
  assumes "0 \<le> m" and "m \<le> 1" and "0 \<le> w" and "w < t"
  shows "cosine_lambda w t m (1 / 2) (t + (t - w)) = 1"
proof -
  have "real_of_int (t + (t - w) - w) / real_of_int (max 1 (t - w)) = 2"
    using assms(4) by (simp add: max_def field_simps)
  then show ?thesis
    using assms by (simp add: cosine_after mult.commute halves)
qed

lemma constant_schedule_range:
  "0 \<le> s \<Longrightarrow> 0 \<le> get_constant_schedule_with_warmup w s \<and> get_constant_schedule_with_warmup w s \<le> 1"
  by (auto simp: get_constant_schedule_with_warmup_def divide_le_eq)

text \<open>The schedule with a stable phase stays between zero and one and ends at the minimum.\<close>

lemma wsd_schedule_range:
  assumes "0 \<le> m" and "m \<le> 1" and "0 \<le> s"
  shows "0 \<le> get_wsd_schedule_with_warmup w t m c r s \<and> get_wsd_schedule_with_warmup w t m c r s \<le> 1"
proof -
  have v: "0 \<le> (1 - m) * max 0 (1 / 2 * (1 + cos y)) + m \<and> (1 - m) * max 0 (1 / 2 * (1 + cos y)) + m \<le> 1" for y
    using between [OF assms(1,2), of "max 0 (1 / 2 * (1 + cos y))"] assms(1) by (auto simp: algebra_simps)
  show ?thesis
    using assms warmup_ratio [of s w] v by (simp add: get_wsd_schedule_with_warmup_def Let_def)
qed

lemma wsd_schedule_end:
  assumes "w \<le> t" and "0 \<le> r" and "r \<le> 1" and "t \<le> s"
  shows "get_wsd_schedule_with_warmup w t m c r s = m"
proof -
  have "real_of_int (t - w) * r \<le> real_of_int (t - w)"
    using assms by (intro mult_left_le) simp_all
  then have "py_trunc (real_of_int (max 0 (t - w)) * r) \<le> t - w"
    using assms by (simp add: py_trunc_def floor_le_iff)
  then show ?thesis using assms by (simp add: get_wsd_schedule_with_warmup_def Let_def)
qed

end
