(* ===== verification/Log_Probs.thy ===== *)
theory Log_Probs
  imports Advantages
begin

text \<open>
  Log probabilities and the losses of the trainer (trainer/src/agentrl/trainer/utils/torch\_functional.py
  and algorithms/loss\_funcs.py). Logits are lists of rows over a vocabulary that is not empty; the
  cross entropy of flash-attn is a parameter. \<open>ppo_loss\<close> also removes the mask, the old
  log probabilities and the advantages from the dictionary of its inputs, which is left out.
\<close>

section \<open>Log probabilities\<close>

primrec all_res :: "'a res list \<Rightarrow> 'a list res" where
  "all_res [] = Inr []"
| "all_res (r # rs) =
     (case r of
        Inl e \<Rightarrow> Inl e
      | Inr x \<Rightarrow> (case all_res rs of Inl e \<Rightarrow> Inl e | Inr xs \<Rightarrow> Inr (x # xs)))"

definition logsumexp :: "row \<Rightarrow> real" where
  "logsumexp xs = ln (sum_list (map exp xs))"

definition log_softmax :: "row \<Rightarrow> row" where
  "log_softmax xs = map (\<lambda>x. x - logsumexp xs) xs"

definition softmax :: "row \<Rightarrow> row" where
  "softmax xs = map (\<lambda>x. exp x / sum_list (map exp xs)) xs"

text \<open>One entry of each row; an index outside of the row is an error.\<close>

definition gather_one :: "row \<Rightarrow> int \<Rightarrow> real res" where
  "gather_one xs l = (if 0 \<le> l \<and> l < int (length xs) then Inr (xs ! nat l) else Inl RuntimeError)"

definition gather_from_labels :: "batch \<Rightarrow> int list \<Rightarrow> row res" where
  "gather_from_labels data labels = all_res (map2 gather_one data labels)"

definition logprobs_from_logits_naive :: "batch \<Rightarrow> int list \<Rightarrow> row res" where
  "logprobs_from_logits_naive logits labels = gather_from_labels (map log_softmax logits) labels"

text \<open>For 32 and 64 bit numbers the normaliser is taken per row, otherwise the row is normalised.\<close>

definition logprobs_from_logits_v2 :: "bool \<Rightarrow> batch \<Rightarrow> int list \<Rightarrow> row res" where
  "logprobs_from_logits_v2 wide logits labels =
     (if wide then
        (case gather_from_labels logits labels of
           Inl e \<Rightarrow> Inl e
         | Inr logits_labels \<Rightarrow> Inr (map2 (-) logits_labels (map logsumexp logits)))
      else all_res (map2 (\<lambda>row_logits l. gather_one (log_softmax row_logits) l) logits labels))"

text \<open>The library's cross entropy returns losses and z-losses; \<open>None\<close> is an older version's result.\<close>

type_synonym flash = "batch \<Rightarrow> int list \<Rightarrow> (row \<times> row) option"

definition logprobs_from_logits_flash_attn :: "flash \<Rightarrow> batch \<Rightarrow> int list \<Rightarrow> row res" where
  "logprobs_from_logits_flash_attn cross_entropy_loss logits labels =
     (case cross_entropy_loss logits labels of
        None \<Rightarrow> Inl AssertionError
      | Some output \<Rightarrow> Inr (map uminus (fst output)))"

definition logprobs_from_logits :: "flash option \<Rightarrow> bool \<Rightarrow> batch list \<Rightarrow> int list list \<Rightarrow> batch res" where
  "logprobs_from_logits lib wide logits labels =
     (case lib of
        Some cross_entropy_loss \<Rightarrow>
          (case logprobs_from_logits_flash_attn cross_entropy_loss (concat logits) (concat labels) of
             Inl e \<Rightarrow> Inl e
           | Inr output \<Rightarrow> Inr (split_rows (map length logits) output))
      | None \<Rightarrow> all_res (map2 (logprobs_from_logits_v2 wide) logits labels))"

definition entropy_from_logits :: "row \<Rightarrow> real" where
  "entropy_from_logits logits = logsumexp logits - sum_list (map2 (*) (softmax logits) logits)"

text \<open>\<open>logits[:, -n-1:-1]\<close> and \<open>ids[:, -n:]\<close>, for a positive length of the response.\<close>

definition log_probs_from_logits_response ::
  "flash option \<Rightarrow> bool \<Rightarrow> int list list \<Rightarrow> batch list \<Rightarrow> nat \<Rightarrow> batch res" where
  "log_probs_from_logits_response lib wide input_ids logits response_length =
     logprobs_from_logits lib wide
       (map (\<lambda>r. butlast (drop (length r - response_length - 1) r)) logits)
       (map (\<lambda>ids. drop (length ids - response_length) ids) input_ids)"

section \<open>Losses\<close>

record loss_config =
  temperature :: real
  clip_ratio :: "real option"
  clip_ratio_low :: "real option"
  clip_ratio_high :: "real option"
  clip_ratio_c :: "real option"
  entropy_coef :: real
  loss_agg_mode :: "string option"
  use_kl_loss :: "bool option"
  kl_loss_type :: "string option"
  kl_loss_coef :: "real option"

record loss_inputs =
  input_ids :: "int list list"
  in_loss_mask :: batch
  rollout_log_prob :: batch
  in_advantages :: batch
  ref_log_prob :: "batch option"

definition cfg_get :: "'a option \<Rightarrow> 'a \<Rightarrow> 'a" where
  "cfg_get v d = (case v of Some x \<Rightarrow> x | None \<Rightarrow> d)"

text \<open>\<open>torch.roll\<close> along a row by one to the left and to the right.\<close>

definition roll_left :: "'a list \<Rightarrow> 'a list" where
  "roll_left xs = (case xs of [] \<Rightarrow> [] | y # ys \<Rightarrow> ys @ [y])"

definition roll_right :: "'a list \<Rightarrow> 'a list" where
  "roll_right xs = (if xs = [] then [] else last xs # butlast xs)"

definition scaled_logits :: "real \<Rightarrow> batch list \<Rightarrow> batch list" where
  "scaled_logits temp logits = map (map (map (\<lambda>x. x / temp))) logits"

text \<open>The log probability of every token at its own position, and that of the first at the wrapped end.\<close>

definition own_log_probs :: "flash option \<Rightarrow> bool \<Rightarrow> batch list \<Rightarrow> int list list \<Rightarrow> batch res" where
  "own_log_probs lib wide logits ids =
     (if map length ids \<noteq> map length logits then Inl AssertionError
      else case logprobs_from_logits lib wide logits (map roll_left ids) of
        Inl e \<Rightarrow> Inl e
      | Inr lp \<Rightarrow> Inr (map roll_right lp))"

definition kl_penalty :: "torch \<Rightarrow> string \<Rightarrow> batch \<Rightarrow> batch \<Rightarrow> batch res" where
  "kl_penalty T kind logprob ref_logprob =
     all_res (map2 (\<lambda>ls rs. all_res (map2 (kl_token T kind) ls rs)) logprob ref_logprob)"

definition kl_part ::
  "torch \<Rightarrow> loss_config \<Rightarrow> loss_inputs \<Rightarrow> batch \<Rightarrow> string \<Rightarrow> real \<times> (string \<times> real) list
   \<Rightarrow> (real \<times> (string \<times> real) list) res" where
  "kl_part T cfg inp log_prob mode r =
     (if \<not> cfg_get (use_kl_loss cfg) False then Inr r
      else case ref_log_prob inp of
        None \<Rightarrow> Inl KeyError
      | Some ref \<Rightarrow>
          (case kl_penalty T (cfg_get (kl_loss_type cfg) ''low_var_kl'') log_prob ref of
             Inl e \<Rightarrow> Inl e
           | Inr kld \<Rightarrow>
               (case agg_loss T kld (in_loss_mask inp) mode of
                  Inl e \<Rightarrow> Inl e
                | Inr kl_loss \<Rightarrow>
                    (case kl_loss_coef cfg of
                       None \<Rightarrow> Inl KeyError
                     | Some coef \<Rightarrow>
                         Inr (fst r + kl_loss * coef, snd r @ [(''kl_loss'', kl_loss), (''kl_coef'', coef)])))))"

definition ppo_loss ::
  "torch \<Rightarrow> flash option \<Rightarrow> bool \<Rightarrow> loss_config \<Rightarrow> loss_inputs \<Rightarrow> batch list
   \<Rightarrow> (real \<times> (string \<times> real) list) res" where
  "ppo_loss T lib wide cfg inp out_logits =
     (let masks = in_loss_mask inp;
          logits = scaled_logits (temperature cfg) out_logits;
          ratio = cfg_get (clip_ratio cfg) (2 / 10);
          mode = cfg_get (loss_agg_mode cfg) ''token-mean''
      in if [] \<in> set masks then Inl IndexError
         else if \<exists>m \<in> set masks. hd m \<noteq> 0 then Inl AssertionError
         else case own_log_probs lib wide logits (input_ids inp) of
           Inl e \<Rightarrow> Inl e
         | Inr log_prob \<Rightarrow>
             (case compute_policy_loss T (rollout_log_prob inp) log_prob (in_advantages inp) masks
                     (Some ratio) (Some (cfg_get (clip_ratio_low cfg) ratio))
                     (Some (cfg_get (clip_ratio_high cfg) ratio)) (cfg_get (clip_ratio_c cfg) 3) mode of
                Inl e \<Rightarrow> Inl e
              | Inr (pg_loss, pg_clipfrac, ppo_kl, pg_clipfrac_lower) \<Rightarrow>
                  (case agg_loss T (map (\<lambda>ls. roll_right (map entropy_from_logits ls)) logits) masks mode of
                     Inl e \<Rightarrow> Inl e
                   | Inr entropy_loss \<Rightarrow>
                       kl_part T cfg inp log_prob mode
                         (if entropy_coef cfg \<noteq> 0 then pg_loss - entropy_loss * entropy_coef cfg else pg_loss,
                          [(''pg_loss'', pg_loss), (''entropy_loss'', entropy_loss), (''pg_clipfrac'', pg_clipfrac),
                           (''ppo_kl'', ppo_kl), (''pg_clipfrac_lower'', pg_clipfrac_lower)]))))"

definition log_prob_loss ::
  "flash option \<Rightarrow> bool \<Rightarrow> real \<Rightarrow> int list list \<Rightarrow> batch list \<Rightarrow> (real \<times> batch) res" where
  "log_prob_loss lib wide temp ids out_logits =
     (case own_log_probs lib wide (scaled_logits temp out_logits) ids of
        Inl e \<Rightarrow> Inl e
      | Inr log_prob \<Rightarrow>
          if map length log_prob \<noteq> map length ids then Inl AssertionError else Inr (1, log_prob))"

text \<open>
  The mean over the positions whose label is kept; a label of -100 is ignored. Without any such position the
  library's result is not a number: \<open>None\<close>.
\<close>

definition cross_entropy :: "batch \<Rightarrow> int list \<Rightarrow> real option res" where
  "cross_entropy logits labels =
     (let kept = filter (\<lambda>(r, l). l \<noteq> - 100) (zip logits labels)
      in case gather_from_labels (map (log_softmax \<circ> fst) kept) (map snd kept) of
           Inl e \<Rightarrow> Inl e
         | Inr lps \<Rightarrow> Inr (if lps = [] then None else Some (sum_list (map uminus lps) / real (length lps))))"

definition cross_entropy_loss :: "int list list \<Rightarrow> batch \<Rightarrow> batch list \<Rightarrow> real option res" where
  "cross_entropy_loss ids masks out_logits =
     (let labels = map2 (\<lambda>is ms. map2 (\<lambda>i m. if m \<noteq> 0 then i else - 100) (tl is) (tl ms)) ids masks
      in cross_entropy (concat (map butlast out_logits)) (concat labels))"

end
