(* ===== verification/Log_Prob_Proofs.thy ===== *)
theory Log_Prob_Proofs
  imports Log_Probs
begin

text \<open>
  Correctness of the log probabilities and losses: they are a distribution over the vocabulary, the
  entropy is within its bounds, every token gets the probability of its own position, and the position that
  wraps around never counts in a loss.
\<close>

section \<open>Distributions\<close>

lemma exp_sum_pos: "xs \<noteq> [] \<Longrightarrow> 0 < sum_list (map exp xs)" for xs :: row
proof (induction xs)
  case (Cons x xs)
  then show ?case by (cases xs) (simp_all add: add_pos_pos)
qed simp

lemma exp_logsumexp: "xs \<noteq> [] \<Longrightarrow> exp (logsumexp xs) = sum_list (map exp xs)"
  using exp_sum_pos [of xs] by (simp add: logsumexp_def)

lemma sum_list_divide: "sum_list (map (\<lambda>x. f x / c) xs) = sum_list (map f xs) / (c :: real)"
  by (induction xs) (simp_all add: add_divide_distrib)

lemma softmax_log: "xs \<noteq> [] \<Longrightarrow> map exp (log_softmax xs) = softmax xs"
  by (simp add: log_softmax_def softmax_def exp_diff exp_logsumexp)

lemma softmax_sum: "xs \<noteq> [] \<Longrightarrow> sum_list (softmax xs) = 1"
  using exp_sum_pos [of xs] by (simp add: softmax_def sum_list_divide)

lemma exp_le_sum: "x \<in> set xs \<Longrightarrow> exp x \<le> sum_list (map exp xs)" for xs :: row
proof (induction xs)
  case (Cons y ys)
  have "0 \<le> sum_list (map exp ys)" by (rule sum_list_nonneg) auto
  moreover have "exp x \<le> exp y + sum_list (map exp ys)" if "x \<in> set ys"
    using Cons.IH that exp_ge_zero [of y] by (smt (verit))
  ultimately show ?case using Cons.prems by auto
qed simp

lemma le_logsumexp:
  assumes "x \<in> set xs" shows "x \<le> logsumexp xs"
proof -
  have ne: "xs \<noteq> []" using assms by auto
  have "exp x \<le> exp (logsumexp xs)" using exp_le_sum [OF assms] exp_logsumexp [OF ne] by simp
  then show ?thesis by simp
qed

text \<open>
  For every row of logits the probabilities of the labels sum to one, and no log
  probability is positive.
\<close>

lemma log_probs_normalised:
  assumes "row \<noteq> []"
    and "map (\<lambda>l. logprobs_from_logits_v2 wide [row] [l]) (map int [0..<length row]) = map (\<lambda>x. Inr [x]) lps"
  shows "sum_list (map exp lps) = 1 \<and> (\<forall>x \<in> set lps. x \<le> 0)"
proof -
  have one: "logprobs_from_logits_v2 wide [row] [int i] = Inr [log_softmax row ! i]" if "i < length row" for i
    using that by (simp add: logprobs_from_logits_v2_def gather_from_labels_def gather_one_def log_softmax_def)
  have "map (\<lambda>x. Inr [x] :: row res) lps = map (\<lambda>i. Inr [log_softmax row ! i]) [0..<length row]"
  proof -
    have "map (\<lambda>i. logprobs_from_logits_v2 wide [row] [int i]) [0..<length row] =
        map (\<lambda>i. Inr [log_softmax row ! i]) [0..<length row]"
      by (intro map_cong refl one) simp
    from trans [OF sym [OF this]] show ?thesis using assms(2) by (simp only: map_map comp_def)
  qed
  also have "\<dots> = map (\<lambda>x. Inr [x]) (log_softmax row)"
    by (rule nth_equalityI) (simp_all add: log_softmax_def)
  finally have lps: "lps = log_softmax row"
    by (rule inj_map_eq_map [THEN iffD1, rotated]) (simp add: inj_def)
  show ?thesis
    using assms(1) le_logsumexp [of _ row]
    by (auto simp: lps softmax_log softmax_sum) (auto simp: log_softmax_def)
qed

text \<open>The two formulas agree, and so does the library, when it computes the cross entropy.\<close>

lemma all_res_map2_cong:
  "(\<And>x y. f x y = g x y) \<Longrightarrow> all_res (map2 f xs ys) = all_res (map2 g xs ys)"
  by simp

lemma v2_is_naive:
  "length logits = length labels \<Longrightarrow>
   logprobs_from_logits_v2 wide logits labels = logprobs_from_logits_naive logits labels"
proof (induction logits labels rule: list_induct2)
  case (Cons row logits l labels)
  have "gather_one (log_softmax row) l = map_sum id (\<lambda>x. x - logsumexp row) (gather_one row l)"
    by (auto simp: gather_one_def log_softmax_def)
  then show ?case
    using Cons.IH
    by (cases wide; cases "gather_one row l")
      (auto simp: logprobs_from_logits_v2_def logprobs_from_logits_naive_def gather_from_labels_def split: sum.splits)
qed (simp add: logprobs_from_logits_v2_def logprobs_from_logits_naive_def gather_from_labels_def)

section \<open>Entropy\<close>

lemma sum_list_map2_sub:
  "sum_list (map (\<lambda>x. f x * (c - g x)) xs) = c * sum_list (map f xs) - sum_list (map (\<lambda>x. f x * g x) xs)"
  for f g :: "'a \<Rightarrow> real"
  by (induction xs) (simp_all add: algebra_simps)

text \<open>The entropy is the sum of the negative log probabilities, weighted by the probabilities.\<close>

lemma entropy_weighted:
  assumes "xs \<noteq> []"
  shows "entropy_from_logits xs = sum_list (map (\<lambda>x. exp x / sum_list (map exp xs) * (logsumexp xs - x)) xs)"
proof -
  have "sum_list (map (\<lambda>x. exp x / sum_list (map exp xs)) xs) = 1"
    using softmax_sum [OF assms] by (simp add: softmax_def)
  moreover have "map2 (*) (softmax xs) xs = map (\<lambda>x. exp x / sum_list (map exp xs) * x) xs"
  proof -
    have "map2 (*) (map h ys) ys = map (\<lambda>x. h x * x) ys" for h :: "real \<Rightarrow> real" and ys
      by (induction ys) simp_all
    then show ?thesis by (simp add: softmax_def)
  qed
  ultimately show ?thesis
    by (simp only: sum_list_map2_sub entropy_from_logits_def mult_1_right)
qed

text \<open>
  The entropy of a row is at least zero and at most the logarithm of the size
  of the vocabulary.
\<close>

lemma entropy_bounds:
  assumes "xs \<noteq> []"
  shows "0 \<le> entropy_from_logits xs \<and> entropy_from_logits xs \<le> ln (real (length xs))"
proof -
  let ?S = "sum_list (map exp xs)" and ?V = "real (length xs)"
  have S: "0 < ?S" and V: "0 < ?V" using exp_sum_pos [OF assms] assms by simp_all
  have "0 \<le> exp x / ?S * (logsumexp xs - x)" if "x \<in> set xs" for x
    using S le_logsumexp [OF that] by simp
  then have low: "0 \<le> entropy_from_logits xs"
    unfolding entropy_weighted [OF assms] by (intro sum_list_nonneg) auto
  have "exp x / ?S * (logsumexp xs - x) \<le> 1 / ?V + exp x / ?S * (ln ?V - 1)" for x
  proof -
    have "ln (?S / (?V * exp x)) \<le> ?S / (?V * exp x) - 1"
      using S V by (intro ln_le_minus_one) simp
    moreover have "ln (?S / (?V * exp x)) = logsumexp xs - x - ln ?V"
      using S V by (simp add: logsumexp_def ln_div ln_mult)
    ultimately have "logsumexp xs - x \<le> ?S / (?V * exp x) + (ln ?V - 1)" by simp
    then have "exp x / ?S * (logsumexp xs - x) \<le> exp x / ?S * (?S / (?V * exp x) + (ln ?V - 1))"
      using S by (intro mult_left_mono) simp_all
    also have "\<dots> = 1 / ?V + exp x / ?S * (ln ?V - 1)"
      using S V by (simp add: field_simps)
    finally show ?thesis .
  qed
  then have "entropy_from_logits xs \<le> sum_list (map (\<lambda>x. 1 / ?V + exp x / ?S * (ln ?V - 1)) xs)"
    unfolding entropy_weighted [OF assms] by (intro sum_list_mono)
  also have "\<dots> = ?V * (1 / ?V) + (ln ?V - 1) * sum_list (softmax xs)"
  proof -
    have "sum_list (map (\<lambda>x. a + h x * c) ys) = real (length ys) * a + c * sum_list (map h ys)"
      for a c :: real and h :: "real \<Rightarrow> real" and ys
      by (induction ys) (simp_all add: algebra_simps)
    from this [where h = "\<lambda>x. exp x / ?S"] show ?thesis unfolding softmax_def .
  qed
  also have "\<dots> = ln ?V" using V softmax_sum [OF assms] by simp
  finally show ?thesis using low by simp
qed

lemma entropy_bounds_witness:
  "0 \<le> entropy_from_logits [0, 1, 2] \<and> entropy_from_logits [0, 1, 2] \<le> ln 3"
  using entropy_bounds [of "[0, 1, 2]"] by simp

section \<open>Every token at its own position\<close>

lemma all_res_nth:
  "all_res rs = Inr xs \<Longrightarrow> length xs = length rs \<and> (\<forall>i < length rs. rs ! i = Inr (xs ! i))"
proof (induction rs arbitrary: xs)
  case (Cons r rs)
  then obtain x ys where x: "r = Inr x" "all_res rs = Inr ys" "xs = x # ys"
    by (auto split: sum.splits)
  from Cons.IH [OF x(2)] show ?case by (auto simp: x nth_Cons split: nat.split)
qed simp

lemma roll_left_nth: "Suc j < length xs \<Longrightarrow> roll_left xs ! j = xs ! Suc j"
  by (cases xs) (simp_all add: roll_left_def nth_append)

lemma roll_right_nth: "0 < t \<Longrightarrow> t < length xs \<Longrightarrow> roll_right xs ! t = xs ! (t - 1)"
  by (auto simp: roll_right_def nth_Cons' nth_butlast)

lemma length_roll [simp]: "length (roll_left xs) = length xs" "length (roll_right xs) = length xs"
  by (auto simp: roll_left_def roll_right_def split: list.split)

lemma gather_naive_nth:
  assumes "logprobs_from_logits_naive rows ls = Inr lp" and "j < length rows" and "length ls = length rows"
  shows "lp ! j = log_softmax (rows ! j) ! nat (ls ! j) \<and> 0 \<le> ls ! j \<and> nat (ls ! j) < length (rows ! j)"
proof -
  have "gather_one (log_softmax (rows ! j)) (ls ! j) = Inr (lp ! j)"
    using all_res_nth assms unfolding logprobs_from_logits_naive_def gather_from_labels_def
    by fastforce
  then show ?thesis by (auto simp: gather_one_def log_softmax_def split: if_splits)
qed

text \<open>
  What \<open>log_prob_loss\<close> returns for a token after the first is the log probability the
  scaled logits of the position before give to that very token.
\<close>

lemma log_prob_of_own_token:
  assumes "log_prob_loss None wide temp ids logits = Inr (one, lp)"
    and "b < length ids" and "0 < t" and "t < length (ids ! b)"
  shows "lp ! b ! t = log_softmax (map (\<lambda>x. x / temp) (logits ! b ! (t - 1))) ! nat (ids ! b ! t)"
proof -
  let ?l = "scaled_logits temp logits"
  have lens: "map length ids = map length ?l"
    using assms(1) by (auto simp: log_prob_loss_def own_log_probs_def split: if_splits)
  have n: "length ids = length logits"
    using map_eq_imp_length_eq [OF lens] by (simp add: scaled_logits_def)
  have lb: "length (ids ! b) = length (?l ! b)"
    using arg_cong [OF lens, of "\<lambda>xs. xs ! b"] assms(2) n by (simp add: scaled_logits_def)
  obtain lp0 where lp: "lp = map roll_right lp0"
    and all: "all_res (map2 (logprobs_from_logits_v2 wide) ?l (map roll_left ids)) = Inr lp0"
    using assms(1) lens
    by (auto simp: log_prob_loss_def own_log_probs_def logprobs_from_logits_def split: sum.splits if_splits)
  have b: "b < length ?l" using assms(2) n by (simp add: scaled_logits_def)
  have len: "length lp0 = length ids"
    using conjunct1 [OF all_res_nth [OF all]] n by (simp add: scaled_logits_def)
  have "map2 (logprobs_from_logits_v2 wide) ?l (map roll_left ids) ! b = Inr (lp0 ! b)"
    using conjunct2 [OF all_res_nth [OF all], rule_format, of b] assms(2) b n by simp
  then have "logprobs_from_logits_v2 wide (?l ! b) (roll_left (ids ! b)) = Inr (lp0 ! b)"
    using assms(2) b by simp
  then have naive: "logprobs_from_logits_naive (?l ! b) (roll_left (ids ! b)) = Inr (lp0 ! b)"
    using v2_is_naive lb by simp
  have lpb: "length (lp0 ! b) = length (ids ! b)"
    using conjunct1 [OF all_res_nth [OF naive [unfolded logprobs_from_logits_naive_def gather_from_labels_def]]] lb
    by simp
  have "lp0 ! b ! (t - 1) = log_softmax (?l ! b ! (t - 1)) ! nat (roll_left (ids ! b) ! (t - 1))"
    using gather_naive_nth [OF naive, of "t - 1"] assms(3,4) lb by simp
  moreover have "roll_left (ids ! b) ! (t - 1) = ids ! b ! t"
    using roll_left_nth [of "t - 1" "ids ! b"] assms(3,4) by simp
  moreover have "?l ! b ! (t - 1) = map (\<lambda>x. x / temp) (logits ! b ! (t - 1))"
    using b assms(3,4) lb by (simp add: scaled_logits_def)
  ultimately show ?thesis
    using roll_right_nth [of t "lp0 ! b"] assms lpb len by (simp add: lp)
qed

section \<open>The wrapped position\<close>

text \<open>Two rows agree under a mask when they are equal wherever the mask is not zero.\<close>

fun agree :: "row \<Rightarrow> row \<Rightarrow> row \<Rightarrow> bool" where
  "agree [] [] [] = True"
| "agree (m # ms) (x # xs) (y # ys) = ((m = 0 \<or> x = y) \<and> agree ms xs ys)"
| "agree _ _ _ = False"

fun agrees :: "batch \<Rightarrow> batch \<Rightarrow> batch \<Rightarrow> bool" where
  "agrees [] [] [] = True"
| "agrees (m # ms) (x # xs) (y # ys) = (agree m x y \<and> agrees ms xs ys)"
| "agrees _ _ _ = False"

lemma agree_length: "agree m x y \<Longrightarrow> length x = length m \<and> length y = length m"
  by (induction m x y rule: agree.induct) simp_all

lemma agree_refl: "length x = length m \<Longrightarrow> agree m x x"
  by (induction m x rule: list_induct2') simp_all

lemma agree_append: "agree m x y \<Longrightarrow> agree m' x' y' \<Longrightarrow> agree (m @ m') (x @ x') (y @ y')"
  by (induction m x y rule: agree.induct) simp_all

lemma agrees_concat: "agrees m x y \<Longrightarrow> agree (concat m) (concat x) (concat y)"
  by (induction m x y rule: agrees.induct) (simp_all add: agree_append)

lemma agree_map: "agree m x y \<Longrightarrow> agree m (map f x) (map f y)"
  by (induction m x y rule: agree.induct) auto

lemma agree_map2:
  "agree m x y \<Longrightarrow> length z = length m \<Longrightarrow> agree m (map2 f x z) (map2 f y z)"
proof (induction m x y arbitrary: z rule: agree.induct)
  case (2 m ms x xs y ys)
  then show ?case by (cases z) auto
qed simp_all

lemma agree_zip2:
  "agree m x y \<Longrightarrow> agree m x' y' \<Longrightarrow> agree m (map2 f x x') (map2 f y y')"
proof (induction m x y arbitrary: x' y' rule: agree.induct)
  case (2 m ms x xs y ys)
  then show ?case by (cases x'; cases y') auto
qed simp_all

lemma agrees_map2:
  "agrees m x y \<Longrightarrow> map length z = map length m \<Longrightarrow>
   (\<And>m x y z. agree m x y \<Longrightarrow> length z = length m \<Longrightarrow> agree m (g x z) (g y z)) \<Longrightarrow>
   agrees m (map2 g x z) (map2 g y z)"
proof (induction m x y arbitrary: z rule: agrees.induct)
  case (2 m ms x xs y ys)
  then show ?case by (cases z) auto
qed simp_all

lemma agree_vmul: "agree m x y \<Longrightarrow> vmul x m = vmul y m"
proof -
  assume a: "agree m x y"
  have l: "length x = length m" "length y = length m" using agree_length [OF a] by simp_all
  have "map2 (*) x m = map2 (*) y m" using a by (induction m x y rule: agree.induct) auto
  moreover have "vmul z m = map2 (*) z m" if "length z = length m" for z
    using that by (cases z; cases m) (auto simp: vmul_def)
  ultimately show ?thesis using l by simp
qed

lemma agree_masked_mean: "agree m x y \<Longrightarrow> masked_mean T x m = masked_mean T y m"
  by (simp add: masked_mean_def agree_vmul)

lemma agrees_seq: "agrees m x y \<Longrightarrow> map2 (\<lambda>l m. f (vmul l m) m) x m = map2 (\<lambda>l m. f (vmul l m) m) y m"
  by (induction m x y rule: agrees.induct) (auto simp: agree_vmul)

lemma agrees_agg_loss:
  assumes "agrees m x y" shows "agg_loss T x m mode = agg_loss T y m mode"
  using agrees_seq [OF assms, of "\<lambda>v m. t_sum T v"] agrees_seq [OF assms, of "\<lambda>v m. t_sum T v / t_sum T m"]
    agree_masked_mean [OF agrees_concat [OF assms]]
  by (simp add: agg_loss_def Let_def)

lemma length_concat_eq: "map length xs = map length ys \<Longrightarrow> length (concat xs) = length (concat ys)"
  by (simp add: length_concat)

lemma agrees_policy_loss:
  assumes lp: "agrees m x y" and old: "map length old = map length m" and adv: "map length adv = map length m"
  shows "compute_policy_loss T old x adv m c1 c2 c3 c mode = compute_policy_loss T old y adv m c1 c2 c3 c mode"
proof -
  have kl: "agrees m (map2 vsub x old) (map2 vsub y old)"
    by (rule agrees_map2 [OF lp old]) (simp add: vsub_def agree_map2)
  have loss: "agrees m (map2 (\<lambda>kls as. map2 f kls as) (map2 vsub x old) adv) (map2 (\<lambda>kls as. map2 f kls as) (map2 vsub y old) adv)"
    for f :: "real \<Rightarrow> real \<Rightarrow> real"
    by (rule agrees_map2 [OF kl adv]) (rule agree_map2)
  let ?m = "concat m"
  have ratio: "agree ?m (concat (map (map f) (map2 vsub x old))) (concat (map (map f) (map2 vsub y old)))"
    for f :: "real \<Rightarrow> real"
    using agree_map [OF agrees_concat [OF kl], of f] by (simp add: map_concat)
  have a: "length (concat adv) = length ?m" by (rule length_concat_eq [OF adv])
  note r = agree_map2 [OF ratio a] and n = agree_map [OF agrees_concat [OF kl]]
  show ?thesis
    unfolding compute_policy_loss_def Let_def
    by (simp only: agrees_agg_loss [OF loss] agree_masked_mean [OF n] agree_masked_mean [OF agree_zip2 [OF r r]]
        agree_masked_mean [OF agree_map2 [OF r a]])
qed

lemma all_res_append:
  "all_res (xs @ [y]) =
    (case all_res xs of Inl e \<Rightarrow> Inl e | Inr us \<Rightarrow> (case y of Inl e \<Rightarrow> Inl e | Inr v \<Rightarrow> Inr (us @ [v])))"
  by (induction xs) (auto split: sum.split)

text \<open>Rows that differ in the last entry only, and results that do.\<close>

definition differs_last :: "'a list \<Rightarrow> 'a list \<Rightarrow> bool" where
  "differs_last x y \<longleftrightarrow> butlast x = butlast y \<and> length x = length y"

definition differs_res :: "row res \<Rightarrow> row res \<Rightarrow> bool" where
  "differs_res r s =
     (case (r, s) of (Inl e, Inl f) \<Rightarrow> e = f | (Inr x, Inr y) \<Rightarrow> differs_last x y | _ \<Rightarrow> False)"

lemma naive_differs_last:
  assumes "differs_last xs ys" and "map length xs = map length ys" and "length ls = length xs"
  shows "differs_res (logprobs_from_logits_naive xs ls) (logprobs_from_logits_naive ys ls)"
proof (cases xs rule: rev_cases)
  case Nil
  then show ?thesis
    using assms by (simp add: differs_last_def differs_res_def logprobs_from_logits_naive_def gather_from_labels_def)
next
  case (snoc us u)
  obtain vs v where ys: "ys = vs @ [v]" using assms(1) snoc by (cases ys rule: rev_cases) (auto simp: differs_last_def)
  obtain ks k where ls: "ls = ks @ [k]" using assms(3) snoc by (cases ls rule: rev_cases) auto
  have eq: "vs = us" using assms(1) snoc ys by (simp add: differs_last_def)
  then have "length v = length u" using assms(2) snoc ys by simp
  then have "isl (gather_one (log_softmax v) k) = isl (gather_one (log_softmax u) k)"
    by (simp add: gather_one_def log_softmax_def)
  moreover have "gather_one r k = Inl e \<Longrightarrow> e = RuntimeError" for r e
    by (auto simp: gather_one_def split: if_splits)
  ultimately show ?thesis
    using assms(3) snoc ys ls eq
    by (auto simp: differs_res_def differs_last_def logprobs_from_logits_naive_def gather_from_labels_def
        all_res_append split: sum.split)
qed

lemma agree_roll:
  assumes "differs_last x y" and "length x = length m" and "m \<noteq> []" and "hd m = 0"
  shows "agree m (roll_right x) (roll_right y)"
proof -
  obtain ms where m: "m = 0 # ms" using assms(3,4) by (cases m) auto
  have "x \<noteq> []" "y \<noteq> []" using assms m by (auto simp: differs_last_def)
  then show ?thesis
    using assms m by (auto simp: roll_right_def differs_last_def intro!: agree_refl)
qed

text \<open>The outputs of a model that differ in the last position of each row only.\<close>

fun differs_end :: "batch list \<Rightarrow> batch list \<Rightarrow> bool" where
  "differs_end [] [] = True"
| "differs_end (x # xs) (y # ys) = (differs_last x y \<and> map length x = map length y \<and> differs_end xs ys)"
| "differs_end _ _ = False"

lemma differs_end_scaled: "differs_end xs ys \<Longrightarrow> differs_end (scaled_logits c xs) (scaled_logits c ys)"
  by (induction xs ys rule: differs_end.induct)
    (auto simp: scaled_logits_def differs_last_def comp_def simp flip: map_butlast)

lemma differs_end_lengths: "differs_end xs ys \<Longrightarrow> map length xs = map length ys"
  by (induction xs ys rule: differs_end.induct) (auto simp: differs_last_def)

definition agrees_res :: "batch \<Rightarrow> batch res \<Rightarrow> batch res \<Rightarrow> bool" where
  "agrees_res m r s =
     (case (r, s) of (Inl e, Inl f) \<Rightarrow> e = f | (Inr x, Inr y) \<Rightarrow> agrees m x y | _ \<Rightarrow> False)"

lemma rolled_log_probs:
  "differs_end xs ys \<Longrightarrow> map length ls = map length xs \<Longrightarrow> map length m = map length xs \<Longrightarrow>
   [] \<notin> set m \<Longrightarrow> (\<forall>r \<in> set m. hd r = 0) \<Longrightarrow>
   agrees_res m (map_sum id (map roll_right) (all_res (map2 (logprobs_from_logits_v2 wide) xs ls)))
                (map_sum id (map roll_right) (all_res (map2 (logprobs_from_logits_v2 wide) ys ls)))"
proof (induction xs ys arbitrary: ls m rule: differs_end.induct)
  case (2 x xs y ys)
  obtain l ls' where l: "ls = l # ls'" "length l = length x" using 2 by (cases ls) auto
  obtain r m' where m: "m = r # m'" "length r = length x" using 2 by (cases m) auto
  have hyp: "differs_last x y" "map length x = map length y" "length y = length x"
    using 2 by (auto simp: differs_last_def)
  have first: "differs_res (logprobs_from_logits_v2 wide x l) (logprobs_from_logits_v2 wide y l)"
    using naive_differs_last hyp l(2) by (simp add: v2_is_naive)
  have len: "length z = length x" if "logprobs_from_logits_v2 wide x l = Inr z" for z
    using that conjunct1 [OF all_res_nth, of _ z] l(2)
    by (simp add: v2_is_naive logprobs_from_logits_naive_def gather_from_labels_def)
  have IH: "agrees_res m' (map_sum id (map roll_right) (all_res (map2 (logprobs_from_logits_v2 wide) xs ls')))
                (map_sum id (map roll_right) (all_res (map2 (logprobs_from_logits_v2 wide) ys ls')))"
    by (rule 2) (use 2 l m in auto)
  have roll: "agree r (roll_right u) (roll_right v)" if "differs_last u v" "length u = length x" for u v
    by (rule agree_roll) (use that 2 m in auto)
  show ?case
    using first IH len roll
    by (auto simp: l m agrees_res_def differs_res_def split: sum.splits)
qed (auto simp: agrees_res_def)

lemma rolled_entropies:
  "differs_end xs ys \<Longrightarrow> map length m = map length xs \<Longrightarrow> [] \<notin> set m \<Longrightarrow> (\<forall>r \<in> set m. hd r = 0) \<Longrightarrow>
   agrees m (map (\<lambda>ls. roll_right (map f ls)) xs) (map (\<lambda>ls. roll_right (map f ls)) ys)"
proof (induction xs ys arbitrary: m rule: differs_end.induct)
  case (2 x xs y ys)
  obtain r m' where m: "m = r # m'" "length r = length x" using 2 by (cases m) auto
  have "agree r (roll_right (map f x)) (roll_right (map f y))"
    by (rule agree_roll) (use 2 m in \<open>auto simp: differs_last_def simp flip: map_butlast\<close>)
  then show ?case using 2 m by auto
qed auto

lemma all_res_Inr: "all_res (map Inr xs) = Inr xs"
  by (induction xs) simp_all

text \<open>A penalty either is an error for every pair of numbers or a number for each.\<close>

lemma kl_token_cases:
  obtains e where "kl_token T kind = (\<lambda>a b. Inl e)" | f where "kl_token T kind = (\<lambda>a b. Inr (f a b))"
  unfolding kl_token_def by (cases "kind \<in> {''kl'', ''k1''}"; cases "kind = ''abs''"; cases "kind \<in> {''mse'', ''k2''}";
    cases "kind \<in> {''low_var_kl'', ''k3''}") (auto simp: Let_def)

lemma kl_penalty_agrees:
  assumes "agrees m x y" and "map length ref = map length m" and "[] \<notin> set m"
  shows "agrees_res m (kl_penalty T kind x ref) (kl_penalty T kind y ref)"
proof (rule kl_token_cases [of T kind])
  fix f assume f: "kl_token T kind = (\<lambda>a b. Inr (f a b))"
  have inner: "all_res (map (\<lambda>p. Inr (f (fst p) (snd p))) ps) = Inr (map (\<lambda>p. f (fst p) (snd p)) ps)" for ps
    using all_res_Inr [of "map (\<lambda>p. f (fst p) (snd p)) ps"] by (simp add: comp_def)
  have "kl_penalty T kind z ref = Inr (map2 (map2 f) z ref)" for z
    using all_res_Inr [of "map2 (map2 f) z ref"]
    by (simp add: kl_penalty_def f inner comp_def case_prod_beta')
  moreover have "agrees m (map2 (map2 f) x ref) (map2 (map2 f) y ref)"
    by (rule agrees_map2 [OF assms(1,2)]) (rule agree_map2)
  ultimately show ?thesis by (simp add: agrees_res_def)
next
  fix e assume e: "kl_token T kind = (\<lambda>a b. Inl e)"
  show ?thesis
    using assms
  proof (cases m)
    case (Cons r m')
    then obtain a x' b y' c ref' where c: "x = a # x'" "y = b # y'" "ref = c # ref'"
      using assms(1,2) by (cases x; cases y; cases ref) auto
    have "a \<noteq> []" "b \<noteq> []" "c \<noteq> []"
      using assms Cons c agree_length [of r a b] by auto
    then show ?thesis
      by (cases a; cases b; cases c) (auto simp: kl_penalty_def e c agrees_res_def)
  qed (cases x; cases y; simp add: kl_penalty_def agrees_res_def)
qed

lemma agrees_kl_part:
  assumes "agrees (in_loss_mask inp) x y" and "[] \<notin> set (in_loss_mask inp)"
    and "\<And>ref. ref_log_prob inp = Some ref \<Longrightarrow> map length ref = map length (in_loss_mask inp)"
  shows "kl_part T cfg inp x mode r = kl_part T cfg inp y mode r"
proof (cases "ref_log_prob inp")
  case (Some ref)
  have "agrees_res (in_loss_mask inp) (kl_penalty T kind x ref) (kl_penalty T kind y ref)" for kind
    by (rule kl_penalty_agrees [OF assms(1) assms(3) [OF Some] assms(2)])
  from this [of "cfg_get (kl_loss_type cfg) ''low_var_kl''"] show ?thesis
    using agrees_agg_loss [of "in_loss_mask inp"]
    by (auto simp: kl_part_def Some agrees_res_def split: sum.splits)
qed (simp add: kl_part_def)

text \<open>
  The last position of a row predicts no token of the row, and its
  probability wraps around to the first token. It never counts: outputs of the model that differ there only
  give the same loss and the same metrics, or the same error, in every mode and with every penalty.
\<close>

lemma wrapped_position_is_masked:
  assumes "differs_end logits logits'"
    and "map length (in_loss_mask inp) = map length logits" and "map length (input_ids inp) = map length logits"
    and "map length (rollout_log_prob inp) = map length (in_loss_mask inp)"
    and "map length (in_advantages inp) = map length (in_loss_mask inp)"
    and "\<And>ref. ref_log_prob inp = Some ref \<Longrightarrow> map length ref = map length (in_loss_mask inp)"
  shows "ppo_loss T None wide cfg inp logits = ppo_loss T None wide cfg inp logits'"
proof (cases "[] \<in> set (in_loss_mask inp) \<or> (\<exists>m \<in> set (in_loss_mask inp). hd m \<noteq> 0)")
  case True
  then show ?thesis by (auto simp: ppo_loss_def Let_def)
next
  case False
  let ?m = "in_loss_mask inp"
  let ?l = "scaled_logits (temperature cfg) logits" and ?l' = "scaled_logits (temperature cfg) logits'"
  have d: "differs_end ?l ?l'" by (rule differs_end_scaled [OF assms(1)])
  have len: "map length ?l = map length logits" "map length ?l' = map length logits"
    using differs_end_lengths [OF d] by (simp_all add: scaled_logits_def comp_def)
  have masks: "map length ?m = map length ?l" "[] \<notin> set ?m" "\<forall>r \<in> set ?m. hd r = 0"
    using False assms(2) len by auto
  have rolled: "map length (map roll_left (input_ids inp)) = map length ?l"
    using assms(3) len by (simp add: comp_def)
  have lp: "agrees_res ?m (own_log_probs None wide ?l (input_ids inp)) (own_log_probs None wide ?l' (input_ids inp))"
    using rolled_log_probs [OF d rolled masks, of wide] assms(3) len
    by (auto simp: own_log_probs_def logprobs_from_logits_def agrees_res_def split: sum.splits)
  note ent = agrees_agg_loss [OF rolled_entropies [OF d masks]]
  have pg: "compute_policy_loss T (rollout_log_prob inp) x (in_advantages inp) ?m c1 c2 c3 c mode =
      compute_policy_loss T (rollout_log_prob inp) y (in_advantages inp) ?m c1 c2 c3 c mode"
    if "agrees ?m x y" for x y c1 c2 c3 c mode
    by (rule agrees_policy_loss [OF that assms(4,5)])
  have kl: "kl_part T cfg inp x mode r = kl_part T cfg inp y mode r" if "agrees ?m x y" for x y mode r
    by (rule agrees_kl_part [OF that masks(2) assms(6)])
  show ?thesis
  proof (cases "own_log_probs None wide ?l (input_ids inp)")
    case (Inl e)
    then have "own_log_probs None wide ?l' (input_ids inp) = Inl e"
      using lp by (auto simp: agrees_res_def split: sum.splits)
    then show ?thesis using Inl by (simp add: ppo_loss_def Let_def)
  next
    case (Inr x)
    then obtain y where y: "own_log_probs None wide ?l' (input_ids inp) = Inr y" and xy: "agrees ?m x y"
      using lp by (auto simp: agrees_res_def split: sum.splits)
    show ?thesis
      unfolding ppo_loss_def Let_def Inr y sum.case pg [OF xy] kl [OF xy] ent ..
  qed
qed

text \<open>The example is a row of two tokens over a vocabulary of two, with other logits at the end.\<close>

lemma wrapped_position_is_masked_witness:
  "let cfg = \<lparr>temperature = 1, clip_ratio = None, clip_ratio_low = None, clip_ratio_high = None,
              clip_ratio_c = None, entropy_coef = 1, loss_agg_mode = None, use_kl_loss = Some True,
              kl_loss_type = None, kl_loss_coef = Some 1\<rparr>;
       inp = \<lparr>input_ids = [[0, 1]], in_loss_mask = [[0, 1]], rollout_log_prob = [[0, -1]],
              in_advantages = [[0, 2]], ref_log_prob = Some [[0, -1]]\<rparr>
   in ppo_loss list_torch None True cfg inp [[[0, 0], [3, 4]]] = ppo_loss list_torch None True cfg inp [[[0, 0], [5, 7]]]"
  unfolding Let_def by (rule wrapped_position_is_masked) (auto simp: differs_last_def)

lemma log_prob_of_own_token_witness:
  "\<exists>lp. log_prob_loss None True 1 [[0, 1]] [[[0, 0], [3, 4]]] = Inr (1, lp) \<and> lp ! 0 ! 1 = log_softmax [0, 0] ! 1"
proof -
  let ?lp = "[[3 - logsumexp [3, 4], 0 - logsumexp [0, 0]]]"
  have eval: "log_prob_loss None True 1 [[0, 1]] [[[0, 0], [3, 4]]] = Inr (1, ?lp)"
    by (simp add: log_prob_loss_def own_log_probs_def scaled_logits_def logprobs_from_logits_def
        logprobs_from_logits_v2_def gather_from_labels_def gather_one_def roll_left_def roll_right_def)
  from log_prob_of_own_token [OF eval, of 0 1] eval show ?thesis by simp
qed

text \<open>Where the library computes the cross entropy, its log probabilities are those of the formula.\<close>

lemma flash_is_naive:
  assumes "\<And>xs ls lp. logprobs_from_logits_naive xs ls = Inr lp \<Longrightarrow> ce xs ls = Some (map uminus lp, zs)"
    and "logprobs_from_logits_naive xs ls = Inr lp"
  shows "logprobs_from_logits_flash_attn ce xs ls = Inr lp"
  using assms(1) [OF assms(2)] by (simp add: logprobs_from_logits_flash_attn_def comp_def)

text \<open>The cross entropy over a mask is the mean of the negative log probabilities under the mask.\<close>

lemma masked_labels_ignored:
  "filter (\<lambda>(r, l). l \<noteq> - 100) (zip rows (map2 (\<lambda>i m. if m \<noteq> 0 then i else - 100) is ms)) =
   map (\<lambda>(r, i, m). (r, i)) (filter (\<lambda>(r, i, m). m \<noteq> 0 \<and> i \<noteq> - 100) (zip rows (zip is ms)))"
  for "is" :: "int list" and ms :: row
proof (induction rows arbitrary: "is" ms)
  case (Cons r rows)
  then show ?case by (cases "is"; cases ms) auto
qed simp

end
