(* ===== verification/Weight_Sync.thy ===== *)
theory Weight_Sync
  imports Complex_Main Prelude
begin

text \<open>
  How new weights reach the sampling engines (trainer/src/agentrl/trainer/components/nccl\_tensor\_comm.py
  and workers/async\_sglang\_worker.py, with the handles and plug-ins of workers/collective\_handle.py and
  workers/abstract.py). A process group is the list of the messages that rank 0 has broadcast and a
  receiver has not taken yet; a receiver that waits for a message which does not come, or for one of
  another kind, does not return. The engine is a record of the calls made on it.
\<close>

section \<open>Tensors and buckets\<close>

record 'd tensor =
  shape :: "nat list"
  dtype :: 'd
  elements :: "real list"

type_synonym 'd buffer = "(string \<times> 'd tensor) list"
type_synonym 'd descriptions = "(string, nat list \<times> 'd) dict"

definition numel :: "'d tensor \<Rightarrow> nat" where
  "numel t = prod_list (shape t)"

datatype 'd message = Barrier | Described "'d descriptions" | Sent "'d tensor" | Finished bool

definition descriptions_of :: "'d buffer \<Rightarrow> 'd descriptions" where
  "descriptions_of buffer = foldl (\<lambda>d (k, v). dict_set k (shape v, dtype v) d) [] buffer"

definition send_buffer :: "'d buffer \<Rightarrow> 'd message list" where
  "send_buffer buffer = Described (descriptions_of buffer) # map (\<lambda>(_, v). Sent v) buffer"

text \<open>
  What \<open>send\<close> broadcasts for the parameters that are left, with the buffer and the size so
  far. The parameter with which the size reaches the limit is in no buffer.
\<close>

primrec send_loop :: "('d \<Rightarrow> nat) \<Rightarrow> nat \<Rightarrow> 'd buffer \<Rightarrow> 'd buffer \<Rightarrow> nat \<Rightarrow> 'd message list" where
  "send_loop element_size bucket_size [] buffer filled = send_buffer buffer @ [Finished True]"
| "send_loop element_size bucket_size (p # ps) buffer filled =
     (let filled' = filled + numel (snd p) * element_size (dtype (snd p))
      in if bucket_size \<le> filled'
         then send_buffer buffer @ [Finished False] @ send_loop element_size bucket_size ps [] 0
         else send_loop element_size bucket_size ps (buffer @ [p]) filled')"

definition send :: "('d \<Rightarrow> nat) \<Rightarrow> nat \<Rightarrow> nat \<Rightarrow> 'd buffer \<Rightarrow> 'd message list" where
  "send element_size rank bucket_size params =
     (if rank = 0 then Barrier # send_loop element_size bucket_size params [] 0 else [])"

section \<open>Receiving\<close>

type_synonym ('d, 'w, 'a) receiver = "('d message list \<times> 'w, 'a) proc"

definition take_message :: "('d, 'w, 'd message) receiver" where
  "take_message s = (case s of ([], w) \<Rightarrow> (Inl StillRunning, s) | (m # ms, w) \<Rightarrow> (Inr m, (ms, w)))"

definition await_barrier :: "('d, 'w, unit) receiver" where
  "await_barrier = bnd take_message (\<lambda>m. case m of Barrier \<Rightarrow> ret () | _ \<Rightarrow> raise StillRunning)"

definition await_descriptions :: "('d, 'w, 'd descriptions) receiver" where
  "await_descriptions = bnd take_message (\<lambda>m. case m of Described d \<Rightarrow> ret d | _ \<Rightarrow> raise StillRunning)"

definition await_flag :: "('d, 'w, bool) receiver" where
  "await_flag = bnd take_message (\<lambda>m. case m of Finished b \<Rightarrow> ret b | _ \<Rightarrow> raise StillRunning)"

text \<open>A broadcast fills a tensor of the shape and type that were announced.\<close>

definition await_tensor :: "nat list \<times> 'd \<Rightarrow> ('d, 'w, 'd tensor) receiver" where
  "await_tensor e =
     bnd take_message (\<lambda>m. case m of
       Sent t \<Rightarrow> if (shape t, dtype t) = e then ret t else raise StillRunning
     | _ \<Rightarrow> raise StillRunning)"

definition receive_buffer :: "('d, 'w, 'd buffer) receiver" where
  "receive_buffer =
     bnd await_descriptions (collect (\<lambda>(k, e). bnd (await_tensor e) (\<lambda>v. ret (k, v))))"

record ('d, 'w) rollout_worker =
  update_params :: "'d buffer \<Rightarrow> ('w, unit) proc"
  acquire_writer :: "('w, unit) proc"
  release_writer :: "('w, unit) proc"

definition on_worker :: "('w, 'a) proc \<Rightarrow> ('d, 'w, 'a) receiver" where
  "on_worker = zoom snd (\<lambda>w s. (fst s, w))"

text \<open>The task of an update runs where it is awaited; before the first there is only a sleep.\<close>

definition await_update :: "('d, 'w) rollout_worker \<Rightarrow> 'd buffer option \<Rightarrow> ('d, 'w, unit) receiver" where
  "await_update U pending = (case pending of None \<Rightarrow> ret () | Some b \<Rightarrow> on_worker (update_params U b))"

primrec receive_loop :: "('d, 'w) rollout_worker \<Rightarrow> nat \<Rightarrow> 'd buffer option \<Rightarrow> ('d, 'w, unit) receiver" where
  "receive_loop U 0 pending = raise StillRunning"
| "receive_loop U (Suc n) pending =
     bnd receive_buffer (\<lambda>b.
     andthen (await_update U pending)
     (bnd await_flag (\<lambda>finished.
      if finished then await_update U (Some b) else receive_loop U n (Some b))))"

definition async_receive :: "('d, 'w) rollout_worker \<Rightarrow> nat \<Rightarrow> ('d, 'w, unit) receiver" where
  "async_receive U n =
     andthen await_barrier
     (andthen (on_worker (acquire_writer U))
     (andthen (receive_loop U n None)
      (on_worker (release_writer U))))"

section \<open>The sampling worker\<close>

datatype setting = Flag bool | Number real | Word string

record generated =
  gen_text :: string
  gen_logprobs :: "(real \<times> nat) list"

record ('d, 'w) engine =
  acquire_reader_lock :: "('w, unit) proc"
  release_reader_lock :: "('w, unit) proc"
  acquire_writer_lock :: "('w, unit) proc"
  release_writer_lock :: "('w, unit) proc"
  async_generate :: "(string, setting) dict \<Rightarrow> ('w, generated) proc"
  update_weights :: "(string \<times> 'd tensor list) list list \<Rightarrow> ('w, unit) proc"
  flush_cache :: "('w, bool) proc"

record worker_config =
  tp_size :: nat
  sampling_params :: "(string, setting) dict"
  forget_lock :: bool

definition dict_update :: "('k, 'v) dict \<Rightarrow> ('k, 'v) dict \<Rightarrow> ('k, 'v) dict" where
  "dict_update d new = foldl (\<lambda>d (k, v). dict_set k v d) d new"

definition base_sampling_params :: "worker_config \<Rightarrow> (string, setting) dict" where
  "base_sampling_params c = dict_set ''skip_special_tokens'' (Flag False) (sampling_params c)"

text \<open>\<open>async with reader_lock\<close>; a cancellation while waiting or sampling starts over.\<close>

primrec generate_loop :: "('d, 'w) engine \<Rightarrow> (string, setting) dict \<Rightarrow> nat \<Rightarrow> ('w, generated) proc" where
  "generate_loop E settings 0 = raise StillRunning"
| "generate_loop E settings (Suc n) =
     bnd (catch
            (andthen (acquire_reader_lock E)
              (bnd (finally_do (async_generate E settings) (release_reader_lock E)) (\<lambda>r. ret (Some r))))
            (\<lambda>e. if e = CancelledError then ret None else raise e)) (\<lambda>r.
     case r of Some x \<Rightarrow> ret x | None \<Rightarrow> generate_loop E settings n)"

definition generate ::
  "('d, 'w) engine \<Rightarrow> worker_config \<Rightarrow> nat \<Rightarrow> (string, setting) dict option \<Rightarrow> ('w, string \<times> (real \<times> nat) list) proc" where
  "generate E c n given =
     bnd (generate_loop E (dict_update (base_sampling_params c) (case given of None \<Rightarrow> [] | Some d \<Rightarrow> d)) n)
       (\<lambda>r. ret (gen_text r, gen_logprobs r))"

definition sglang_update_params :: "('d, 'w) engine \<Rightarrow> worker_config \<Rightarrow> 'd buffer \<Rightarrow> ('w, unit) proc" where
  "sglang_update_params E c tensor_list =
     update_weights E (replicate (tp_size c) (map (\<lambda>(k, v). (k, replicate (tp_size c) v)) tensor_list))"

primrec flush_until_done :: "('d, 'w) engine \<Rightarrow> nat \<Rightarrow> ('w, unit) proc" where
  "flush_until_done E 0 = raise StillRunning"
| "flush_until_done E (Suc n) = bnd (flush_cache E) (\<lambda>b. if b then ret () else flush_until_done E n)"

definition async_acquire_writer_lock :: "('d, 'w) engine \<Rightarrow> worker_config \<Rightarrow> nat \<Rightarrow> ('w, unit) proc" where
  "async_acquire_writer_lock E c n =
     (if forget_lock c then ret () else andthen (acquire_writer_lock E) (flush_until_done E n))"

definition async_release_writer_lock :: "('d, 'w) engine \<Rightarrow> worker_config \<Rightarrow> ('w, unit) proc" where
  "async_release_writer_lock E c = (if forget_lock c then ret () else release_writer_lock E)"

definition sglang_worker :: "('d, 'w) engine \<Rightarrow> worker_config \<Rightarrow> nat \<Rightarrow> ('d, 'w) rollout_worker" where
  "sglang_worker E c n =
     \<lparr>update_params = sglang_update_params E c, acquire_writer = async_acquire_writer_lock E c n,
      release_writer = async_release_writer_lock E c\<rparr>"

section \<open>Handles and plug-ins\<close>

datatype 'h target = AllOf "'h list" | Only 'h

record 'h handle =
  workers :: "'h list"
  dispatch_target :: "'h target"

definition handle_init :: "'h list \<Rightarrow> 'h handle" where
  "handle_init ws = \<lparr>workers = ws, dispatch_target = AllOf ws\<rparr>"

definition call_all :: "('h \<Rightarrow> 'r) \<Rightarrow> 'h handle \<Rightarrow> 'r list + 'r" where
  "call_all f h = (case dispatch_target h of AllOf ws \<Rightarrow> Inl (map f ws) | Only w \<Rightarrow> Inr (f w))"

datatype rank_arg = Rank int | Ranks "int list"

text \<open>A list does not compare with a number, so the branch for lists is never reached.\<close>

fun dispatch_rank :: "'h handle \<Rightarrow> rank_arg \<Rightarrow> 'h handle res" where
  "dispatch_rank h (Ranks rs) = Inl TypeError"
| "dispatch_rank h (Rank r) =
     (if r < 0 \<or> int (length (workers h)) \<le> r then Inl IndexError
      else Inr (h\<lparr>dispatch_target := Only (workers h ! nat r)\<rparr>))"

definition dispatch_rank0 :: "'h handle \<Rightarrow> 'h handle res" where
  "dispatch_rank0 h = dispatch_rank h (Rank 0)"

definition register_plugin :: "string \<Rightarrow> 'p \<Rightarrow> ((string, 'p) dict, unit) proc" where
  "register_plugin name plugin = modify (dict_set name plugin)"

definition call_plugin :: "string \<Rightarrow> ('p \<Rightarrow> 'r res) \<Rightarrow> ((string, 'p) dict, 'r) proc" where
  "call_plugin name method =
     bnd (gets (\<lambda>plugins. dict_get plugins name)) (\<lambda>p.
     case p of None \<Rightarrow> raise AttributeError | Some plugin \<Rightarrow> lift_res (method plugin))"


section \<open>What is applied\<close>

text \<open>The buffers that are sent, one per message that says whether more follow.\<close>

primrec buckets_from :: "('d \<Rightarrow> nat) \<Rightarrow> nat \<Rightarrow> 'd buffer \<Rightarrow> 'd buffer \<Rightarrow> nat \<Rightarrow> 'd buffer list" where
  "buckets_from es b [] buffer filled = [buffer]"
| "buckets_from es b (p # ps) buffer filled =
     (let filled' = filled + numel (snd p) * es (dtype (snd p))
      in if b \<le> filled' then buffer # buckets_from es b ps [] 0
         else buckets_from es b ps (buffer @ [p]) filled')"

definition total_size :: "('d \<Rightarrow> nat) \<Rightarrow> 'd buffer \<Rightarrow> nat" where
  "total_size es ps = sum_list (map (\<lambda>p. numel (snd p) * es (dtype (snd p))) ps)"

lemma update_new_key: "k \<notin> set (dict_keys d) \<Longrightarrow> dict_set k v d = d @ [(k, v)]"
  by (induction d) auto

lemma descriptions_of_distinct:
  assumes "distinct (map fst buffer)"
  shows "descriptions_of buffer = map (\<lambda>(k, v). (k, (shape v, dtype v))) buffer"
proof -
  have "foldl (\<lambda>d (k, v). dict_set k (shape v, dtype v) d) d buffer =
      d @ map (\<lambda>(k, v). (k, (shape v, dtype v))) buffer" if "distinct (map fst (d' @ buffer))"
      and "map fst d = map fst d'" for d :: "'a descriptions" and d' :: "'a buffer"
    using that
  proof (induction buffer arbitrary: d d')
    case (Cons p buffer)
    obtain k v where p: "p = (k, v)" by (cases p)
    have "k \<notin> set (dict_keys d)" unfolding Cons.prems(2) using Cons.prems(1) by (simp add: p)
    then show ?case
      using Cons.IH [of "d' @ [p]" "d @ [(k, (shape v, dtype v))]"] Cons.prems by (simp add: p update_new_key)
  qed simp
  from this [of "[]" "[]"] show ?thesis using assms by (simp add: descriptions_of_def)
qed

lemma collect_tensors:
  "collect (\<lambda>(k, e). bnd (await_tensor e) (\<lambda>v. ret (k, v))) (map (\<lambda>(k, v). (k, (shape v, dtype v))) buffer)
     (map (\<lambda>(_, v). Sent v) buffer @ rest, w) = (Inr buffer, (rest, w))"
  by (induction buffer) (auto simp: await_tensor_def take_message_def bnd_def ret_def)

lemma received_buffer:
  "distinct (map fst buffer) \<Longrightarrow> receive_buffer (send_buffer buffer @ rest, w) = (Inr buffer, (rest, w))"
  using collect_tensors [of buffer rest w]
  by (simp add: receive_buffer_def await_descriptions_def take_message_def send_buffer_def bnd_def ret_def
      descriptions_of_distinct)

text \<open>The result of a receiver and the state of its worker.\<close>

definition outcome :: "('d, 'w, 'a) receiver \<Rightarrow> 'd message list \<Rightarrow> ('w, 'a) proc" where
  "outcome m ms w = (fst (m (ms, w)), snd (snd (m (ms, w))))"

definition pending_update :: "('d, 'w) rollout_worker \<Rightarrow> 'd buffer option \<Rightarrow> ('w, unit) proc" where
  "pending_update U pending = (case pending of None \<Rightarrow> ret () | Some b \<Rightarrow> update_params U b)"

lemma await_update_run:
  "await_update U pending (ms, w) = (fst (pending_update U pending w), (ms, snd (pending_update U pending w)))"
  by (cases pending) (simp_all add: await_update_def pending_update_def on_worker_def zoom_apply ret_def)

lemma flag_taken: "await_flag (Finished b # ms, w) = (Inr b, (ms, w))"
  by (simp add: await_flag_def take_message_def bnd_def ret_def)

lemma receive_loop_applies:
  assumes "distinct (map fst (buffer @ ps))" and "length ps < n"
  shows "outcome (receive_loop U n pending) (send_loop es b ps buffer filled) w =
    andthen (pending_update U pending) (each (update_params U) (buckets_from es b ps buffer filled)) w"
  using assms
proof (induction ps arbitrary: buffer filled pending n w)
  case Nil
  then obtain m where "n = Suc m" by (cases n) auto
  then show ?case
    using received_buffer [of buffer "[Finished True]" w] Nil
    by (simp add: outcome_def andthen_def bnd_def await_update_run flag_taken pending_update_def ret_def
        split: prod.splits sum.splits)
next
  case (Cons p ps)
  obtain m where n: "n = Suc m" "length ps < m" using Cons.prems by (cases n) auto
  let ?filled = "filled + numel (snd p) * es (dtype (snd p))"
  show ?case
  proof (cases "b \<le> ?filled")
    case True
    let ?rest = "Finished False # send_loop es b ps [] 0"
    have "receive_buffer (send_buffer buffer @ ?rest, w) = (Inr buffer, (?rest, w))"
      by (rule received_buffer) (use Cons.prems in simp)
    moreover have "outcome (receive_loop U m (Some buffer)) (send_loop es b ps [] 0) v =
        andthen (update_params U buffer) (each (update_params U) (buckets_from es b ps [] 0)) v" for v
      using Cons.IH [of "[]" m "Some buffer"] Cons.prems n by (simp add: pending_update_def)
    ultimately show ?thesis
      using True unfolding outcome_def n
      by (simp add: andthen_def bnd_def await_update_run flag_taken Let_def split: prod.splits sum.splits)
  next
    case False
    then show ?thesis
      using Cons.IH [of "buffer @ [p]" n] Cons.prems by (simp add: Let_def)
  qed
qed

lemma outcome_async:
  assumes "distinct (map fst params)" and "length params < n"
  shows "outcome (async_receive U n) (send es 0 b params) =
    andthen (acquire_writer U)
      (andthen (each (update_params U) (buckets_from es b params [] 0)) (release_writer U))"
proof
  fix w
  have applied: "each (update_params U) (buckets_from es b params [] 0) v =
      outcome (receive_loop U n None) (send_loop es b params [] 0) v" for v
    using receive_loop_applies [of "[]" params n U None es b 0 v] assms
    by (simp add: pending_update_def andthen_def)
  then show "outcome (async_receive U n) (send es 0 b params) w =
    andthen (acquire_writer U)
      (andthen (each (update_params U) (buckets_from es b params [] 0)) (release_writer U)) w"
    unfolding outcome_def [of "async_receive U n"]
    by (simp add: applied outcome_def async_receive_def send_def await_barrier_def take_message_def andthen_def bnd_def ret_def
        on_worker_def zoom_apply split: prod.splits sum.splits)
qed

text \<open>
  C11: A receiver applies the buckets of the sender one after the other between taking
  and giving back the writer lock, each update after the one before, and stops at the first that fails;
  whatever the updates do, the exchange itself ends.
\<close>

theorem sync_applies_buckets:
  assumes "distinct (map fst params)" and "length params < n"
  shows "outcome (async_receive U n) (send es 0 b params) =
    andthen (acquire_writer U)
      (andthen (each (update_params U) (buckets_from es b params [] 0)) (release_writer U))"
  using assms by (rule outcome_async)


section \<open>What is lost\<close>

text \<open>Each bucket that is full costs the parameter that filled it.\<close>

lemma buckets_length:
  "length (concat (buckets_from es b ps buffer filled)) + length (buckets_from es b ps buffer filled) =
   Suc (length buffer + length ps)"
  by (induction ps arbitrary: buffer filled) (simp_all add: Let_def)

lemma one_bucket:
  "filled + total_size es ps < b \<Longrightarrow> buckets_from es b ps buffer filled = [buffer @ ps]"
  by (induction ps arbitrary: buffer filled) (auto simp: Let_def total_size_def)

lemma more_buckets:
  assumes "b \<le> filled + total_size es ps" and "ps \<noteq> []"
  shows "1 < length (buckets_from es b ps buffer filled)"
  using assms
proof (induction ps arbitrary: buffer filled)
  case (Cons p ps)
  have "0 < length (buckets_from es b qs buf k)" for qs buf k
    using buckets_length [of es b qs buf k] by (cases "buckets_from es b qs buf k") auto
  then show ?case
    using Cons by (cases "ps = []") (auto simp: Let_def total_size_def)
qed simp

lemma buckets_complete_iff:
  "concat (buckets_from es b ps [] 0) = ps \<longleftrightarrow> ps = [] \<or> total_size es ps < b"
proof (cases "ps = [] \<or> total_size es ps < b")
  case True
  then show ?thesis using one_bucket [of 0 es ps b "[]"] by auto
next
  case False
  then have "1 < length (buckets_from es b ps [] 0)" using more_buckets [of b 0 es ps "[]"] by simp
  then have "length (concat (buckets_from es b ps [] 0)) < length ps"
    using buckets_length [of es b ps "[]" 0] by simp
  then show ?thesis using False by auto
qed

text \<open>A worker that keeps what it is given.\<close>

definition keeping_worker :: "('d, 'd buffer) rollout_worker" where
  "keeping_worker =
     \<lparr>update_params = (\<lambda>b. modify (\<lambda>l. l @ b)), acquire_writer = ret (), release_writer = ret ()\<rparr>"

lemma keeping_locks: "acquire_writer keeping_worker = ret ()" "release_writer keeping_worker = ret ()"
  by (simp_all add: keeping_worker_def)

lemma kept_buckets: "each (update_params keeping_worker) bs l = (Inr (), l @ concat bs)"
  by (induction bs arbitrary: l) (simp_all add: keeping_worker_def andthen_def bnd_def modify_def ret_def)

text \<open>
  The sender cuts the parameters into groups: each is filled by the parameter after it, with which its
  size reaches the limit, and what is left over at the end does not reach it.
\<close>

definition filled_groups :: "('d \<Rightarrow> nat) \<Rightarrow> nat \<Rightarrow> ('d buffer \<times> (string \<times> 'd tensor)) list \<Rightarrow> 'd buffer \<Rightarrow> bool" where
  "filled_groups es b gs rest \<longleftrightarrow>
     list_all (\<lambda>(g, p). (g = [] \<or> total_size es g < b) \<and> b \<le> total_size es (g @ [p])) gs \<and>
     (rest = [] \<or> total_size es rest < b)"

lemma total_size_append [simp]:
  "total_size es [] = 0" "total_size es (xs @ ys) = total_size es xs + total_size es ys"
  "total_size es [p] = numel (snd p) * es (dtype (snd p))"
  by (simp_all add: total_size_def)

lemma buckets_in_groups:
  assumes "filled = total_size es buffer" and "buffer = [] \<or> total_size es buffer < b"
  shows "\<exists>gs rest. buffer @ ps = concat (map (\<lambda>(g, p). g @ [p]) gs) @ rest \<and> filled_groups es b gs rest \<and>
    buckets_from es b ps buffer filled = map fst gs @ [rest]"
  using assms
proof (induction ps arbitrary: buffer filled)
  case Nil
  then show ?case by (intro exI [of _ "[]"] exI [of _ buffer]) (simp add: filled_groups_def)
next
  case (Cons p ps)
  show ?case
  proof (cases "b \<le> total_size es (buffer @ [p])")
    case True
    obtain gs rest where "[] @ ps = concat (map (\<lambda>(g, p). g @ [p]) gs) @ rest" "filled_groups es b gs rest"
      "buckets_from es b ps [] 0 = map fst gs @ [rest]"
      using Cons.IH [of 0 "[]"] by auto
    then show ?thesis using True Cons.prems
      by (intro exI [of _ "(buffer, p) # gs"] exI [of _ rest]) (simp add: filled_groups_def Let_def)
  next
    case False
    then have more: "buckets_from es b (p # ps) buffer filled = buckets_from es b ps (buffer @ [p]) (total_size es (buffer @ [p]))"
      using Cons.prems(1) by (simp add: Let_def)
    from Cons.IH [of "total_size es (buffer @ [p])" "buffer @ [p]"] False show ?thesis
      unfolding more by simp
  qed
qed

lemma kept_outcome:
  assumes "distinct (map fst params)" and "length params < n"
  shows "outcome (async_receive keeping_worker n) (send es 0 b params) [] =
    (Inr (), concat (buckets_from es b params [] 0))"
proof -
  have "each (update_params keeping_worker) (buckets_from es b params [] 0) [] =
      (Inr (), concat (buckets_from es b params [] 0))"
    using kept_buckets [of "buckets_from es b params [] 0" "[]"] by simp
  then show ?thesis
    unfolding outcome_async [OF assms]
    by (simp add: andthen_def bnd_def ret_def keeping_locks)
qed

text \<open>
  C12: what a transfer delivers. The parameters are cut into groups, each ended by the parameter with
  which its size reaches the bucket size; what arrives is all parameters in their order, without the
  ones that ended a group. So everything arrives exactly if there is nothing to send or all parameters
  together are smaller than one bucket.
\<close>

theorem sync_complete_iff:
  assumes "distinct (map fst params)" and "length params < n"
  shows "(\<exists>gs rest. params = concat (map (\<lambda>(g, p). g @ [p]) gs) @ rest \<and> filled_groups es b gs rest \<and>
      outcome (async_receive keeping_worker n) (send es 0 b params) [] = (Inr (), concat (map fst gs) @ rest)) \<and>
    (outcome (async_receive keeping_worker n) (send es 0 b params) [] = (Inr (), params) \<longleftrightarrow>
      params = [] \<or> total_size es params < b)"
proof
  obtain gs rest where "[] @ params = concat (map (\<lambda>(g, p). g @ [p]) gs) @ rest" "filled_groups es b gs rest"
    "buckets_from es b params [] 0 = map fst gs @ [rest]"
    using buckets_in_groups [of 0 es "[]" b params] by auto
  then show "\<exists>gs rest. params = concat (map (\<lambda>(g, p). g @ [p]) gs) @ rest \<and> filled_groups es b gs rest \<and>
      outcome (async_receive keeping_worker n) (send es 0 b params) [] = (Inr (), concat (map fst gs) @ rest)"
    by (intro exI [of _ gs] exI [of _ rest]) (simp only: kept_outcome [OF assms], simp)
  show "outcome (async_receive keeping_worker n) (send es 0 b params) [] = (Inr (), params) \<longleftrightarrow>
      params = [] \<or> total_size es params < b"
    by (simp add: kept_outcome [OF assms] buckets_complete_iff)
qed

text \<open>Three parameters of eight bytes with buckets of sixteen: the second never arrives.\<close>

definition small_tensor :: "real \<Rightarrow> bool tensor" where
  "small_tensor x = \<lparr>shape = [2, 1], dtype = True, elements = [x, x]\<rparr>"

definition three_params :: "bool buffer" where
  "three_params = [(''a'', small_tensor 1), (''b'', small_tensor 2), (''c'', small_tensor 3)]"

lemma sync_complete_iff_witness:
  "outcome (async_receive keeping_worker 4) (send (\<lambda>_. 4) 0 16 three_params) [] \<noteq> (Inr (), three_params) \<and>
   outcome (async_receive keeping_worker 4) (send (\<lambda>_. 4) 0 32 three_params) [] = (Inr (), three_params)"
  using sync_complete_iff [of three_params 4 "\<lambda>_. 4" 16] sync_complete_iff [of three_params 4 "\<lambda>_. 4" 32]
  by (simp add: three_params_def small_tensor_def total_size_def numel_def)

lemma sync_applies_buckets_witness:
  "outcome (async_receive keeping_worker 4) (send (\<lambda>_. 4) 0 16 three_params) [] =
     (Inr (), [(''a'', small_tensor 1), (''c'', small_tensor 3)])"
proof -
  have "distinct (map fst three_params)" "length three_params < 4" by (simp_all add: three_params_def)
  from sync_applies_buckets [OF this, of keeping_worker "\<lambda>_. 4" 16] show ?thesis
    by (simp add: andthen_def bnd_def ret_def keeping_locks kept_buckets)
      (simp add: three_params_def small_tensor_def numel_def)
qed

text \<open>When an update raises, the receiver raises with the writer lock held: nothing gives it back.\<close>

lemma failed_update_keeps_lock:
  assumes "distinct (map fst params)" and "length params < n"
    and "acquire_writer U w = (Inr (), w1)"
    and "each (update_params U) (buckets_from es b params [] 0) w1 = (Inl e, w2)"
  shows "outcome (async_receive U n) (send es 0 b params) w = (Inl e, w2)"
  unfolding outcome_async [OF assms(1,2)]
  by (simp add: andthen_def bnd_def assms(3,4))


section \<open>Sampling\<close>

text \<open>
  Sampling takes and gives back the reader lock in pairs, however often a writer cancels it: \<open>r\<close> is
  the number of readers.
\<close>

lemma generate_balances_readers:
  assumes "\<And>w. wp (acquire_reader_lock E) (\<lambda>_ v. r v = Suc (r w)) (\<lambda>_ v. r v = (r w :: nat)) w"
    and "\<And>w. wp (release_reader_lock E) (\<lambda>_ v. Suc (r v) = r w) (\<lambda>_ _. False) w"
    and "\<And>w. wp (async_generate E settings) (\<lambda>_ v. r v = r w) (\<lambda>_ v. r v = r w) w"
  shows "wp (generate_loop E settings n) (\<lambda>_ v. r v = r w) (\<lambda>e v. e = StillRunning \<or> r v = r w) w"
proof (induction n arbitrary: w)
  case (Suc n)
  have release: "wp (release_reader_lock E) (\<lambda>_. Q) F v"
    if "r v = Suc (r w)" "\<And>u. r u = r w \<Longrightarrow> Q u" for Q F v
    by (rule wp_mono [OF assms(2)]) (use that in auto)
  have retry: "wp (generate_loop E settings n) (\<lambda>_ v. r v = r w) (\<lambda>e v. e = StillRunning \<or> r v = r w) v"
    if "r v = r w" for v
    using Suc.IH [of v] that by simp
  show ?case
    by (simp, rule wp_mono [OF assms(1)]; (rule wp_mono [OF assms(3)])?)
      (auto intro!: release retry)
qed simp

text \<open>The answer to a request is that of one call of the engine, with the settings of the request over the base.\<close>

lemma generate_first_try:
  assumes "acquire_reader_lock E w = (Inr (), w1)"
    and "async_generate E (dict_update (base_sampling_params c) given) w1 = (Inr g, w2)"
    and "release_reader_lock E w2 = (Inr (), w3)"
  shows "generate E c (Suc n) (Some given) w = (Inr (gen_text g, gen_logprobs g), w3)"
  using assms by (simp add: generate_def andthen_def bnd_def catch_def finally_do_def ret_def)

lemma special_tokens_are_kept:
  "dict_get (base_sampling_params c) ''skip_special_tokens'' = Some (Flag False)"
  by (simp add: base_sampling_params_def)

section \<open>Handles\<close>

lemma dispatch_rank_calls_one:
  assumes "r < length (workers h)"
  shows "\<exists>h'. dispatch_rank h (Rank (int r)) = Inr h' \<and> call_all f h' = Inr (f (workers h ! r)) \<and> workers h' = workers h"
  using assms by (simp add: call_all_def)

lemma ranks_are_refused: "dispatch_rank h (Ranks rs) = Inl TypeError"
  by simp

end
