(* ===== verification/Training_Data.thy ===== *)
theory Training_Data
  imports Log_Probs Tensor_Utils
begin

text \<open>
  Data and metrics of the trainer (trainer/src/agentrl/trainer/agentic/data\_provider.py,
  algorithms/metrics.py, components/timer.py and the dictionaries and generators of utils/utils.py).
  A mean of no numbers, which is not a number, is 0. A generator is the list of what it yields,
  with the error it ends with.
\<close>

section \<open>Data sets\<close>

type_synonym index = "int + string"

record agentic_dataset =
  indices :: "index list"
  ds_name :: string

record data_item =
  item_index :: index
  item_name :: string
  data_source :: string

text \<open>Access to a Python list, from the end for negative positions.\<close>

definition list_item :: "'a list \<Rightarrow> int \<Rightarrow> 'a res" where
  "list_item xs i =
     (if 0 \<le> i \<and> i < int (length xs) then Inr (xs ! nat i)
      else if - int (length xs) \<le> i \<and> i < 0 then Inr (xs ! nat (int (length xs) + i))
      else Inl IndexError)"

definition agentic_len :: "agentic_dataset \<Rightarrow> nat" where
  "agentic_len ds = length (indices ds)"

definition agentic_getitem :: "agentic_dataset \<Rightarrow> int \<Rightarrow> data_item res" where
  "agentic_getitem ds item =
     (case list_item (indices ds) item of
        Inl e \<Rightarrow> Inl e
      | Inr i \<Rightarrow> Inr \<lparr>item_index = i, item_name = ds_name ds, data_source = ds_name ds\<rparr>)"

text \<open>Several sequences in turn; the length is the least common multiple of theirs.\<close>

definition balanced_len :: "'a list list \<Rightarrow> nat" where
  "balanced_len datasets = fold lcm (map length datasets) 1"

definition balanced_getitem :: "'a list list \<Rightarrow> int \<Rightarrow> 'a res" where
  "balanced_getitem datasets item =
     (if datasets = [] then Inl ZeroDivisionError
      else
        (let dataset_idx = item mod int (length datasets);
             ds = datasets ! nat dataset_idx
         in if ds = [] then Inl ZeroDivisionError
            else list_item ds (item div int (length datasets) mod int (length ds))))"

definition fetch_indices :: "(string \<Rightarrow> (string, string) dict \<Rightarrow> index list res) \<Rightarrow> string \<Rightarrow> string \<Rightarrow> index list res" where
  "fetch_indices get_json base_url task_name = get_json (base_url @ ''/get_indices'') [(''name'', task_name)]"

primrec get_agentic_datasets ::
  "(string \<Rightarrow> (string, string) dict \<Rightarrow> index list res) \<Rightarrow> string list \<Rightarrow> string \<Rightarrow> agentic_dataset list res" where
  "get_agentic_datasets get_json [] base_url = Inr []"
| "get_agentic_datasets get_json (name # names) base_url =
     (case fetch_indices get_json base_url name of
        Inl e \<Rightarrow> Inl e
      | Inr ixs \<Rightarrow>
          (case get_agentic_datasets get_json names base_url of
             Inl e \<Rightarrow> Inl e
           | Inr dss \<Rightarrow> Inr (\<lparr>indices = ixs, ds_name = name\<rparr> # dss)))"

section \<open>Generators\<close>

record rollout_item =
  payload :: data_item
  ri_group :: string
  ri_uid :: string

text \<open>\<open>n\<close> copies of each item, with one group id and identifiers of their own.\<close>

primrec copies :: "nat \<Rightarrow> data_item \<Rightarrow> string \<Rightarrow> uuid_src \<Rightarrow> rollout_item list \<times> uuid_src" where
  "copies 0 item g u = ([], u)"
| "copies (Suc n) item g u =
     (case uuid4 u of (k, u') \<Rightarrow>
        (case copies n item g u' of (rs, u'') \<Rightarrow> (\<lparr>payload = item, ri_group = g, ri_uid = k\<rparr> # rs, u'')))"

primrec repeat :: "data_item list \<Rightarrow> nat \<Rightarrow> uuid_src \<Rightarrow> rollout_item list \<times> uuid_src" where
  "repeat [] n u = ([], u)"
| "repeat (item # items) n u =
     (case uuid4 u of (g, u1) \<Rightarrow>
        (case copies n item g u1 of (rs, u2) \<Rightarrow>
           (case repeat items n u2 of (rs', u3) \<Rightarrow> (rs @ rs', u3))))"

text \<open>
  One pass over the iterators; an exhausted one raises \<open>StopIteration\<close>, which a
  generator turns into \<open>RuntimeError\<close>. The number bounds the passes.
\<close>

fun interleave_pass :: "'a list list \<Rightarrow> 'a list \<times> 'a list list option" where
  "interleave_pass [] = ([], Some [])"
| "interleave_pass ([] # its) = ([], None)"
| "interleave_pass ((x # xs) # its) =
     (case interleave_pass its of (ys, r) \<Rightarrow> (x # ys, map_option ((#) xs) r))"

primrec interleave :: "nat \<Rightarrow> 'a list list \<Rightarrow> 'a list \<times> py_error option" where
  "interleave 0 its = ([], Some StillRunning)"
| "interleave (Suc n) its =
     (if its = [] then ([], None)
      else case interleave_pass its of
        (ys, None) \<Rightarrow> (ys, Some RuntimeError)
      | (ys, Some its') \<Rightarrow> (case interleave n its' of (zs, e) \<Rightarrow> (ys @ zs, e)))"

section \<open>Metrics\<close>

definition mean_of :: "real list \<Rightarrow> real" where
  "mean_of xs = sum_list xs / real (length xs)"

text \<open>\<open>grouped[k].append(v)\<close> on a dictionary of lists.\<close>

definition append_at :: "'k \<Rightarrow> 'v \<Rightarrow> ('k, 'v list) dict \<Rightarrow> ('k, 'v list) dict" where
  "append_at k v d = dict_set k (dict_get_or d k [] @ [v]) d"

definition grouped_scores :: "(string \<times> real) list \<Rightarrow> (string, real list) dict" where
  "grouped_scores items = foldl (\<lambda>d (g, r). append_at g r d) [] items"

definition fraction :: "('a \<Rightarrow> bool) \<Rightarrow> 'a list \<Rightarrow> real" where
  "fraction P xs = mean_of (map (\<lambda>x. of_test (P x)) xs)"

record rl_metrics =
  average_reward :: real
  BoN_reward :: real
  average_margin :: real
  num_uids :: nat
  effective_uids :: real
  all_1_uids :: real
  all_leq0_uids :: real
  average_repeat :: real

definition calc_batch_rl_metrics :: "(string \<times> real) list \<Rightarrow> rl_metrics" where
  "calc_batch_rl_metrics items =
     (let groups = map snd (grouped_scores items);
          uniform = (\<lambda>s. card (set s) = 1)
      in \<lparr>average_reward = mean_of (map mean_of groups),
          BoN_reward = mean_of (map (\<lambda>s. Max (set s)) groups),
          average_margin = mean_of (map (\<lambda>s. Max (set s) - sum_list s / real (length s)) groups),
          num_uids = length groups,
          effective_uids = fraction (\<lambda>s. 1 < card (set s)) groups,
          all_1_uids = fraction (\<lambda>s. uniform s \<and> hd s = 1) groups,
          all_leq0_uids = fraction (\<lambda>s. uniform s \<and> hd s \<le> 0) groups,
          average_repeat = mean_of (map (\<lambda>s. real (length s)) groups)\<rparr>)"

definition masked_select :: "row \<Rightarrow> row \<Rightarrow> row" where
  "masked_select xs m = map fst (filter (\<lambda>(x, b). b \<noteq> 0) (zip xs m))"

text \<open>Maximum and minimum of no values are errors; so is a list of no tensors.\<close>

definition calc_adv_metrics :: "(row \<times> row) list \<Rightarrow> (string \<times> real) list res" where
  "calc_adv_metrics items =
     (let all_adv = concat (map (\<lambda>(adv, m). masked_select adv m) items)
      in if all_adv = [] then Inl RuntimeError
         else Inr [(''adv/mean'', mean_of all_adv), (''adv/std'', sample_std all_adv),
                   (''adv/max'', Max (set all_adv)), (''adv/min'', Min (set all_adv))])"

definition calc_metrics :: "(string, real) dict list \<Rightarrow> (string, real) dict" where
  "calc_metrics items =
     map (\<lambda>(k, vs). (k, mean_of vs)) (foldl (\<lambda>d m. foldl (\<lambda>d (k, v). append_at k v d) d m) [] items)"

definition population_std :: "real list \<Rightarrow> real" where
  "population_std xs = sqrt (mean_of (map (\<lambda>x. (x - mean_of xs) ^ 2) xs))"

definition calc_data_metrics :: "nat list \<Rightarrow> (string \<times> real) list res" where
  "calc_data_metrics seq_lens =
     (if seq_lens = [] then Inl ValueError
      else Inr [(''batch_size'', real (length seq_lens)), (''total_seq_len'', real (sum_list seq_lens)),
                (''seq_len/max'', real (Max (set seq_lens))), (''seq_len/min'', real (Min (set seq_lens))),
                (''seq_len/std'', population_std (map real seq_lens)),
                (''seq_len/avg'', real (sum_list seq_lens) / real (length seq_lens))])"

section \<open>Dictionaries of numbers\<close>

datatype metric_value = Values "real list" | One real

text \<open>A value under the key that is no list has no \<open>append\<close>.\<close>

primrec append_to_dict :: "(string, metric_value) dict \<Rightarrow> (string \<times> real) list \<Rightarrow> (string, metric_value) dict res" where
  "append_to_dict data [] = Inr data"
| "append_to_dict data (e # new_data) =
     (case dict_get data (fst e) of
        None \<Rightarrow> append_to_dict (dict_set (fst e) (Values [snd e]) data) new_data
      | Some (Values vs) \<Rightarrow> append_to_dict (dict_set (fst e) (Values (vs @ [snd e])) data) new_data
      | Some (One _) \<Rightarrow> Inl AttributeError)"

definition reduce_dict :: "(string, metric_value) dict \<Rightarrow> (string, real) dict" where
  "reduce_dict data =
     concat (map (\<lambda>(k, v). case v of Values vs \<Rightarrow> (if vs = [] then [] else [(k, mean_of vs)]) | One x \<Rightarrow> [(k, x)]) data)"

definition append_with_prefix :: "(string, 'v) dict \<Rightarrow> string \<Rightarrow> (string, 'v) dict \<Rightarrow> (string, 'v) dict" where
  "append_with_prefix data pre new_data = foldl (\<lambda>d (k, v). dict_set (pre @ k) v d) data new_data"

section \<open>Timer\<close>

record timer =
  timings :: "(string, real) dict"
  step_start_time :: real
  clock :: real

definition timer_init :: "real \<Rightarrow> timer" where
  "timer_init now = \<lparr>timings = [], step_start_time = 0, clock = now\<rparr>"

definition step_start :: "(timer, unit) proc" where
  "step_start = modify (\<lambda>t. t\<lparr>timings := [], step_start_time := clock t\<rparr>)"

definition step_end :: "(timer, (string, real) dict) proc" where
  "step_end =
     andthen (modify (\<lambda>t. t\<lparr>timings := dict_set ''step'' (clock t - step_start_time t) (timings t)\<rparr>))
       (gets timings)"

text \<open>\<open>with timer.time(name)\<close>: an exception of the body leaves no timing.\<close>

definition time_block :: "string \<Rightarrow> (timer, 'a) proc \<Rightarrow> (timer, 'a) proc" where
  "time_block name body =
     bnd (gets clock) (\<lambda>start.
     bnd body (\<lambda>x.
     andthen (modify (\<lambda>t. t\<lparr>timings := dict_set name (clock t - start) (timings t)\<rparr>)) (ret x)))"

section \<open>Taking turns\<close>

lemma list_item_nth: "j < length xs \<Longrightarrow> list_item xs (int j) = Inr (xs ! j)"
  by (simp add: list_item_def)

lemma balanced_item:
  assumes "d < length datasets" and "j < length (datasets ! d)"
  shows "balanced_getitem datasets (int (d + length datasets * (j + length (datasets ! d) * k))) = Inr (datasets ! d ! j)"
proof -
  let ?n = "length datasets" and ?L = "length (datasets ! d)"
  have "int (d + ?n * (j + ?L * k)) mod int ?n = int d"
    unfolding zmod_int [symmetric] using assms(1) by simp
  moreover have "int (d + ?n * (j + ?L * k)) div int ?n = int (j + ?L * k)"
  proof -
    have "(d + n * x) div n = x" if "d < n" for n x using that by simp
    from this [OF assms(1)] show ?thesis unfolding zdiv_int [symmetric] by simp
  qed
  moreover have "int (j + ?L * k) mod int ?L = int j"
    unfolding zmod_int [symmetric] using assms(2) by simp
  ultimately show ?thesis
    using assms by (auto simp: balanced_getitem_def Let_def list_item_nth simp del: of_nat_add of_nat_mult)
qed

lemma balanced_turn:
  assumes "datasets \<noteq> []" and "[] \<notin> set datasets"
  shows "balanced_getitem datasets (int i) =
    (let n = length datasets; ds = datasets ! (i mod n) in Inr (ds ! (i div n mod length ds)))"
proof -
  let ?d = "i mod length datasets" 
  have d: "?d < length datasets" using assms(1) by simp
  then have ne: "datasets ! ?d \<noteq> []" using assms(2) nth_mem by metis
  let ?L = "length (datasets ! ?d)"
  have i: "?d + length datasets * (i div length datasets mod ?L + ?L * (i div length datasets div ?L)) = i"
    by simp
  show ?thesis
    using balanced_item [OF d, of "i div length datasets mod ?L" "i div length datasets div ?L"] ne
    unfolding i Let_def by simp
qed

text \<open>Numbers with a given remainder of their quotient.\<close>

lemma count_turns:
  assumes "d < n" and "j < L" and "L * q = m"
  shows "card {i. i < n * m \<and> i mod n = d \<and> i div n mod L = j} = (q :: nat)"
proof -
  let ?f = "\<lambda>k. d + n * (j + L * k)"
  have f: "?f k mod n = d" "?f k div n = j + L * k" "?f k div n mod L = j" for k
    using assms(1,2) by simp_all
  have inj: "inj_on ?f {..<q}"
    using assms(1,2) by (intro inj_onI) simp
  have "{i. i < n * m \<and> i mod n = d \<and> i div n mod L = j} = ?f ` {..<q}"
  proof (intro equalityI subsetI)
    fix i assume i: "i \<in> {i. i < n * m \<and> i mod n = d \<and> i div n mod L = j}"
    let ?k = "i div n div L"
    have "i div n < m" using i by (simp add: less_mult_imp_div_less mult.commute)
    then have "?k < q" using assms(3) by (simp add: less_mult_imp_div_less mult.commute)
    moreover have "?f ?k = i" using i by auto
    ultimately show "i \<in> ?f ` {..<q}" by force
  next
    fix i assume "i \<in> ?f ` {..<q}"
    then obtain k where k: "k < q" "i = ?f k" by auto
    have "j + L * k < m"
    proof -
      have "j + L * k < L * Suc k" using assms(2) by simp
      also have "\<dots> \<le> L * q" using k by (intro mult_le_mono2) simp
      finally show ?thesis using assms(3) by simp
    qed
    then have "n * Suc (j + L * k) \<le> n * m" by (intro mult_le_mono2) simp
    then have "?f k < n * m" using assms(1) by simp
    then show "i \<in> {i. i < n * m \<and> i mod n = d \<and> i div n mod L = j}" using k f by simp
  qed
  then show ?thesis using inj by (simp add: card_image)
qed

text \<open>
  Over as many items as the least common multiple of the lengths times the number of
  data sets, each data set comes up equally often, and so does each of its samples.
\<close>

lemma balanced_counts:
  assumes "datasets \<noteq> []" and "[] \<notin> set datasets" and "d < length datasets" and "j < length (datasets ! d)"
  shows "card {i. i < length datasets * balanced_len datasets \<and> i mod length datasets = d \<and>
                i div length datasets mod length (datasets ! d) = j} * length (datasets ! d) = balanced_len datasets \<and>
    (\<forall>i. i mod length datasets = d \<longrightarrow> i div length datasets mod length (datasets ! d) = j \<longrightarrow>
       balanced_getitem datasets (int i) = Inr (datasets ! d ! j))"
proof -
  have step: "fold lcm xs a = lcm a (fold lcm xs 1)" for xs and a :: nat
  proof (induction xs arbitrary: a)
    case (Cons x xs)
    show ?case using Cons.IH [of "lcm x a"] Cons.IH [of x] by (simp add: lcm.assoc lcm.commute lcm.left_commute)
  qed simp
  have "x dvd fold lcm xs 1" if "x \<in> set xs" for xs and x :: nat
    using that
  proof (induction xs)
    case (Cons y ys)
    then show ?case using step [of ys y] by (auto intro: dvd_trans)
  qed simp
  then have "length (datasets ! d) dvd balanced_len datasets"
    using assms(3) by (simp add: balanced_len_def)
  then obtain q where q: "length (datasets ! d) * q = balanced_len datasets" by (metis dvdE)
  show ?thesis
    using count_turns [OF assms(3,4) q] q balanced_turn [OF assms(1,2)] by (auto simp: Let_def mult.commute)
qed

lemma balanced_counts_witness:
  "balanced_getitem [''ab'', ''xyz''] 5 = Inr (CHR ''z'')"
proof -
  have "5 mod length [''ab'', ''xyz''] = 1" "5 div length [''ab'', ''xyz''] mod length ([''ab'', ''xyz''] ! 1) = 2"
    by (simp_all flip: numeral_2_eq_2 numeral_3_eq_3)
  from conjunct2 [OF balanced_counts [of "[''ab'', ''xyz'']" 1 2], rule_format, OF _ _ _ _ this]
  show ?thesis by simp
qed

text \<open>
  The length of the data set is the least common multiple alone. Of several sets of one length
  only the first samples come up below it: those whose number, times the number of sets, is below
  the length.
\<close>

lemma balanced_misses:
  assumes "datasets \<noteq> []" and "\<forall>ds \<in> set datasets. length ds = L" and "0 < L" and "i < balanced_len datasets"
  shows "\<exists>d j. d < length datasets \<and> length datasets * j < L \<and> balanced_getitem datasets (int i) = Inr (datasets ! d ! j)"
proof -
  have "fold lcm (replicate k L) a = a" if "L dvd a" for k a
    by (induction k) (use that in \<open>simp_all add: lcm_proj2_if_dvd_nat\<close>)
  moreover have "map length datasets = L # replicate (length datasets - 1) L"
    using assms(1,2) by (cases datasets) (simp_all add: map_replicate_const [symmetric])
  ultimately have len: "balanced_len datasets = L" by (simp add: balanced_len_def)
  let ?n = "length datasets"
  have d: "i mod ?n < ?n" using assms(1) by simp
  have L: "length (datasets ! (i mod ?n)) = L" using assms(2) nth_mem [OF d] by blast
  have "i div ?n < L" using assms(4) len div_le_dividend [of i ?n] by linarith
  moreover have "[] \<notin> set datasets" using assms(2,3) by auto
  ultimately have "balanced_getitem datasets (int i) = Inr (datasets ! (i mod ?n) ! (i div ?n))"
    using balanced_turn [OF assms(1)] L by (simp add: Let_def)
  moreover have "?n * (i div ?n) < L"
    using assms(4) len times_div_less_eq_dividend [of ?n i] by linarith
  ultimately show ?thesis using d by blast
qed

section \<open>Generators\<close>

lemma interleave_pass_nonempty: "interleave_pass its = (ys, Some its') \<Longrightarrow> its \<noteq> [] \<Longrightarrow> its' \<noteq> []"
  by (induction its arbitrary: ys its' rule: interleave_pass.induct) (auto split: prod.splits)

text \<open>Iterators are never taken off the list: over any that are finite, the generator ends with an error.\<close>

lemma interleave_never_finishes: "its \<noteq> [] \<Longrightarrow> snd (interleave n its) \<noteq> None"
proof (induction n arbitrary: its)
  case (Suc n)
  obtain ys r where p: "interleave_pass its = (ys, r)" by (cases "interleave_pass its")
  show ?case
  proof (cases r)
    case (Some its')
    then have "its' \<noteq> []" using interleave_pass_nonempty p Suc.prems by metis
    from Suc.IH [OF this] show ?thesis
      using Suc.prems by (cases "interleave n its'") (simp add: p Some)
  qed (use Suc.prems p in simp)
qed simp

lemma interleave_example: "interleave 3 [[1, 2], [3 :: int, 4]] = ([1, 3, 2, 4], Some RuntimeError)"
  by (simp add: numeral_3_eq_3)

text \<open>The identifiers drawn for the copies of an item.\<close>

lemma copies_spec:
  "copies n item g (f, c) = (map (\<lambda>i. \<lparr>payload = item, ri_group = g, ri_uid = f i\<rparr>) [c..<c + n], (f, c + n))"
  by (induction n arbitrary: c) (simp_all add: uuid4_def upt_conv_Cons del: upt_Suc)

text \<open>Where in the stream the group ids and the other identifiers are.\<close>

primrec group_places :: "nat \<Rightarrow> nat \<Rightarrow> nat \<Rightarrow> nat list" where
  "group_places n c 0 = []"
| "group_places n c (Suc m) = c # group_places n (c + Suc n) m"

primrec uid_places :: "nat \<Rightarrow> nat \<Rightarrow> nat \<Rightarrow> nat list" where
  "uid_places n c 0 = []"
| "uid_places n c (Suc m) = [Suc c..<Suc c + n] @ uid_places n (c + Suc n) m"

lemma places_range:
  "set (group_places n c m) \<subseteq> {c..}" "set (uid_places n c m) \<subseteq> {c..}"
proof (induction m arbitrary: c)
  case (Suc m)
  { case 1 show ?case using Suc(1) [of "c + Suc n"] by fastforce }
  { case 2 show ?case using Suc(2) [of "c + Suc n"] by fastforce }
qed simp_all

lemma places_distinct: "distinct (group_places n c m)" "distinct (uid_places n c m)"
proof (induction m arbitrary: c)
  case (Suc m)
  { case 1 show ?case using Suc(1) places_range(1) [of n "c + Suc n" m] by fastforce }
  { case 2 show ?case using Suc(2) places_range(2) [of n "c + Suc n" m] by fastforce }
qed simp_all

lemma places_length [simp]: "length (group_places n c m) = m"
  by (induction m arbitrary: c) simp_all

lemma repeat_places:
  "(let rs = fst (repeat items n (f, c))
    in map ri_group rs = concat (map (replicate n) (map f (group_places n c (length items)))) \<and>
       map ri_uid rs = map f (uid_places n c (length items)) \<and>
       map payload rs = concat (map (replicate n) items))"
proof (induction items arbitrary: c)
  case (Cons item items)
  have rep: "map (\<lambda>i. x) [a..<b] = replicate (b - a) x" for x :: 'b and a b by (simp add: map_replicate_const)
  show ?case
    using Cons.IH [of "c + Suc n"]
    by (simp add: Let_def copies_spec uuid4_def comp_def rep split_beta del: upt_Suc)
qed simp

text \<open>
  With identifiers that never repeat, every item is yielded a given number of times under
  one group id, which no other item has, and no two of all the copies have the same identifier.
\<close>

lemma repeat_makes_groups:
  assumes "inj f"
  shows "\<exists>gs. length gs = length items \<and> distinct gs \<and>
    (let rs = fst (repeat items n (f, c))
     in map ri_group rs = concat (map (replicate n) gs) \<and> distinct (map ri_uid rs) \<and>
        map payload rs = concat (map (replicate n) items))"
proof (intro exI conjI)
  show "length (map f (group_places n c (length items))) = length items" by simp
  show "distinct (map f (group_places n c (length items)))"
    using assms places_distinct(1) by (simp add: distinct_map inj_on_subset [OF assms])
  have "distinct (map f (uid_places n c (length items)))"
    using assms places_distinct(2) by (simp add: distinct_map inj_on_subset [OF assms])
  then show "let rs = fst (repeat items n (f, c))
     in map ri_group rs = concat (map (replicate n) (map f (group_places n c (length items)))) \<and>
        distinct (map ri_uid rs) \<and> map payload rs = concat (map (replicate n) items)"
    using repeat_places [of items n f c] by (simp add: Let_def)
qed

lemma repeat_makes_groups_witness:
  "\<exists>gs. length gs = 1 \<and> distinct gs \<and>
    (let rs = fst (repeat [\<lparr>item_index = Inl 7, item_name = ''t'', data_source = ''t''\<rparr>] 2
                     (\<lambda>i. replicate i CHR ''x'', 0))
     in map ri_group rs = concat (map (replicate 2) gs) \<and> distinct (map ri_uid rs) \<and>
        map payload rs = concat (map (replicate 2) [\<lparr>item_index = Inl 7, item_name = ''t'', data_source = ''t''\<rparr>]))"
proof -
  have "inj (\<lambda>i. replicate i CHR ''x'')" by (rule injI) (metis length_replicate)
  from repeat_makes_groups [OF this, of "[\<lparr>item_index = Inl 7, item_name = ''t'', data_source = ''t''\<rparr>]" 2 0]
  show ?thesis by (simp only: list.size One_nat_def add_0)
qed

section \<open>Metrics\<close>

lemma mean_of_le: "(\<And>x. x \<in> set xs \<Longrightarrow> f x \<le> g x) \<Longrightarrow> mean_of (map f xs) \<le> mean_of (map g xs)"
  unfolding mean_of_def by (simp add: divide_right_mono sum_list_mono)

lemma mean_of_diff: "mean_of (map (\<lambda>x. f x - g x) xs) = mean_of (map f xs) - mean_of (map g xs)"
  by (simp add: mean_of_def sum_list_subtractf diff_divide_distrib)

lemma mean_le_max:
  assumes "xs \<noteq> []" shows "mean_of xs \<le> Max (set xs)"
proof -
  have "sum_list xs \<le> sum_list (map (\<lambda>_. Max (set xs)) xs)"
    using sum_list_mono [of xs "\<lambda>x. x" "\<lambda>_. Max (set xs)"] by simp
  also have "\<dots> = real (length xs) * Max (set xs)" by (simp add: sum_list_triv)
  finally show ?thesis using assms by (simp add: mean_of_def divide_le_eq mult.commute)
qed

lemma append_at_sum:
  "sum_list (map (\<lambda>p. length (snd p)) (append_at k v d)) = Suc (sum_list (map (\<lambda>p. length (snd p)) d))"
  if "distinct (dict_keys d)"
  using that
proof (induction d)
  case (Cons p d)
  obtain k' vs where p: "p = (k', vs)" by (cases p)
  show ?case
  proof (cases "k' = k")
    case False
    have "append_at k v (p # d) = p # append_at k v d" using False by (simp add: append_at_def dict_get_or_def p)
    then show ?thesis using Cons by simp
  qed (use Cons in \<open>simp add: append_at_def dict_get_or_def p\<close>)
qed (simp add: append_at_def dict_get_or_def)

lemma append_at_ok:
  "distinct (dict_keys d) \<and> (\<forall>p \<in> set d. snd p \<noteq> []) \<Longrightarrow>
   distinct (dict_keys (append_at k v d)) \<and> (\<forall>p \<in> set (append_at k v d). snd p \<noteq> [])"
  by (auto simp: append_at_def dest!: set_dict_set)

lemma grouped_fold:
  assumes "distinct (dict_keys d) \<and> (\<forall>p \<in> set d. snd p \<noteq> [])"
  shows "(let r = foldl (\<lambda>d (g, x). append_at g x d) d items
          in (distinct (dict_keys r) \<and> (\<forall>p \<in> set r. snd p \<noteq> [])) \<and>
             sum_list (map (\<lambda>p. length (snd p)) r) = sum_list (map (\<lambda>p. length (snd p)) d) + length items)"
  using assms
proof (induction items arbitrary: d)
  case (Cons i items)
  obtain g x where i: "i = (g, x)" by (cases i)
  show ?case
    using Cons.IH [OF append_at_ok [OF Cons.prems, of g x]] append_at_sum [of d g x] Cons.prems
    by (simp add: i Let_def)
qed simp

text \<open>
  The metrics of a batch fit together: the margin is the best less the average reward
  and never negative, the mean size of the groups times their number is the number of items, and the
  groups whose rewards are all 1 are among those that are not effective.
\<close>

lemma rl_metrics_relations:
  assumes "items \<noteq> []"
  shows "(let m = calc_batch_rl_metrics items
          in average_margin m = BoN_reward m - average_reward m \<and> 0 \<le> average_margin m \<and>
             average_repeat m * real (num_uids m) = real (length items) \<and>
             0 < num_uids m \<and> 0 \<le> effective_uids m \<and> effective_uids m + all_1_uids m \<le> 1)"
proof -
  let ?d = "grouped_scores items"
  let ?g = "map snd ?d"
  have d: "\<forall>p \<in> set ?d. snd p \<noteq> []" "sum_list (map (\<lambda>p. length (snd p)) ?d) = length items"
    using grouped_fold [of "[]" items] by (simp_all add: grouped_scores_def Let_def)
  have ne: "?g \<noteq> []" using d(2) assms by auto
  have margin: "mean_of (map (\<lambda>s. Max (set s) - sum_list s / real (length s)) ?g) =
      mean_of (map (\<lambda>s. Max (set s)) ?g) - mean_of (map mean_of ?g)"
    by (simp only: mean_of_diff mean_of_def [of "_ :: real list", symmetric])
  have "mean_of (map mean_of ?g) \<le> mean_of (map (\<lambda>s. Max (set s)) ?g)"
    by (rule mean_of_le) (use d(1) mean_le_max in auto)
  moreover have "mean_of (map (\<lambda>s. real (length s)) ?g) * real (length ?g) = real (length items)"
  proof -
    have "sum_list (map (\<lambda>s. real (length s)) (map snd e)) = real (sum_list (map (\<lambda>p. length (snd p)) e))"
      for e :: "(string, real list) dict"
      by (induction e) simp_all
    from this [of ?d] show ?thesis using d(2) ne by (simp add: mean_of_def)
  qed
  moreover have "0 \<le> fraction P ?g" for P
    by (auto simp: fraction_def mean_of_def of_test_def intro!: divide_nonneg_nonneg sum_list_nonneg)
  moreover have "fraction P ?g + fraction Q ?g \<le> 1" if "\<And>s. \<not> (P s \<and> Q s)" for P Q
  proof -
    have "sum_list (map (\<lambda>x. of_test (P x)) xs) + sum_list (map (\<lambda>x. of_test (Q x)) xs) \<le> real (length xs)" for xs
      by (induction xs) (use that in \<open>auto simp: of_test_def split: if_splits\<close>)
    from this [of ?g] show ?thesis
      using ne by (simp add: fraction_def mean_of_def comp_def add_divide_distrib [symmetric] divide_le_eq)
  qed
  ultimately show ?thesis
    using margin ne by (simp add: calc_batch_rl_metrics_def Let_def)
qed

lemma rl_metrics_relations_witness:
  "average_repeat (calc_batch_rl_metrics [(''g'', 1), (''h'', 0), (''g'', 0)]) *
     real (num_uids (calc_batch_rl_metrics [(''g'', 1), (''h'', 0), (''g'', 0)])) = 3"
  using rl_metrics_relations [of "[(''g'', 1), (''h'', 0), (''g'', 0)]"] by (simp add: Let_def)

end
