(* ===== verification/Train_Worker.thy ===== *)
theory Train_Worker
  imports Training_Data "HOL-Library.Multiset"
begin

text \<open>
  Training steps over packed samples on several devices (trainer/src/agentrl/trainer/workers/fsdp\_worker.py:
  \<open>pack\<close>, \<open>collate\<close>, \<open>forward_backward\<close>). The model, the loss function, the bin packing library and the
  sampler that deals micro batches out to the ranks are parameters. A call of \<open>backward\<close> is recorded
  with its loss; the gradients of the ranks are averaged, so the mean over the ranks of the recorded
  losses is what is differentiated. Dividing by a weight of 0 is not an error.
\<close>

section \<open>Samples\<close>

text \<open>
  A sample with its entries by kind: tensors of one row along the sequence, other values, and the
  tensors of the entry \<open>multi_modal_inputs\<close>.
\<close>

record 'e sample =
  seq_len :: nat
  loss_weight :: "real option"
  sample_idx :: nat
  uid :: string
  seq_rows :: "(string, 'e list) dict"
  plain :: "(string, string) dict"
  modal :: "(string, 'e list) dict"

definition weight_of :: "'e sample \<Rightarrow> real" where
  "weight_of s = (case loss_weight s of None \<Rightarrow> 1 | Some w \<Rightarrow> w)"

text \<open>The library binpacking, on the numbers of the samples and their lengths.\<close>

record packing =
  constant_volume :: "(nat \<times> nat) list \<Rightarrow> nat \<Rightarrow> nat list list"
  constant_number :: "(nat \<times> nat) list \<Rightarrow> nat \<Rightarrow> nat list list"

definition pack :: "packing \<Rightarrow> 'e sample list \<Rightarrow> nat \<Rightarrow> nat \<Rightarrow> 'e sample list list" where
  "pack B data max_tokens multiple_of =
     (let seq_lens = zip [0..<length data] (map seq_len data);
          bins = constant_volume B seq_lens max_tokens;
          num_bins = (length bins + multiple_of - 1) div multiple_of * multiple_of
      in map (map ((!) data)) (constant_number B seq_lens num_bins))"

section \<open>Packed inputs\<close>

record 'e inputs =
  in_rows :: "(string, 'e list) dict"
  in_plain :: "(string, string list) dict"
  in_modal :: "(string, 'e list list) dict"
  in_weights :: "real list"
  in_samples :: "nat list"
  indices_of :: "nat list"

definition check_item :: "'e sample \<Rightarrow> unit res" where
  "check_item s =
     (case dict_get (seq_rows s) ''input_ids'' of
        None \<Rightarrow> Inl KeyError
      | Some ids \<Rightarrow> if length ids = seq_len s then Inr () else Inl AssertionError)"

primrec check_items :: "'e sample list \<Rightarrow> unit res" where
  "check_items [] = Inr ()"
| "check_items (s # ss) = (case check_item s of Inl e \<Rightarrow> Inl e | Inr _ \<Rightarrow> check_items ss)"

definition gathered :: "('e sample \<Rightarrow> (string, 'v) dict) \<Rightarrow> 'e sample list \<Rightarrow> (string, 'v list) dict" where
  "gathered f batch = foldl (\<lambda>d s. foldl (\<lambda>d (k, v). append_at k v d) d (f s)) [] batch"

primrec running_sum :: "nat \<Rightarrow> nat list \<Rightarrow> nat list" where
  "running_sum n [] = []"
| "running_sum n (k # ks) = (n + k) # running_sum (n + k) ks"

definition stackable :: "'e list list \<Rightarrow> bool" where
  "stackable vs \<longleftrightarrow> (\<forall>v \<in> set vs. length v = length (hd vs))"

definition collate :: "'e sample list \<Rightarrow> bool \<Rightarrow> 'e inputs res" where
  "collate batch packed =
     (case check_items batch of
        Inl e \<Rightarrow> Inl e
      | Inr _ \<Rightarrow>
          let rows = gathered seq_rows batch; images = gathered modal batch
          in if batch = [] then Inl KeyError
             else if packed \<and> dict_get rows ''position_ids'' = None then Inl AssertionError
             else if \<not> packed then Inl NotImplementedError
             else if \<exists>e \<in> set images. \<not> stackable (snd e) then Inl RuntimeError
             else Inr \<lparr>in_rows = dict_map concat rows, in_plain = gathered plain batch, in_modal = images,
                       in_weights = map weight_of batch, in_samples = map sample_idx batch,
                       indices_of = running_sum 0 (map seq_len batch)\<rparr>)"

section \<open>A pass over the micro batches of a rank\<close>

datatype ('o, 'x) out_value = Along "'o list" | Other 'x

type_synonym ('o, 'x) outputs = "(string, ('o, 'x) out_value) dict"

definition slice_value :: "nat \<Rightarrow> nat \<Rightarrow> ('o, 'x) out_value \<Rightarrow> ('o, 'x) out_value" where
  "slice_value a b v = (case v of Along xs \<Rightarrow> Along (drop a (take b xs)) | Other x \<Rightarrow> Other x)"

definition slice_output :: "nat \<Rightarrow> nat \<Rightarrow> ('o, 'x) outputs \<Rightarrow> ('o, 'x) outputs" where
  "slice_output a b = dict_map (slice_value a b)"

datatype 'e loss_input = Packed "'e inputs" | Alone "'e sample"

type_synonym ('e, 'o, 'x, 'v) loss_fn = "'e loss_input \<Rightarrow> ('o, 'x) outputs \<Rightarrow> real \<times> (string, 'v) dict"

record ('e, 'o, 'x) train_setting =
  run_model :: "'e inputs \<Rightarrow> ('o, 'x) outputs"
  packer :: packing
  sampler :: "nat \<Rightarrow> nat \<Rightarrow> nat \<Rightarrow> nat list"
  mesh_size :: nat
  max_tokens_per_micro_batch :: nat
  model_input_keys :: "string list"

definition model_inputs :: "string list \<Rightarrow> 'e inputs \<Rightarrow> 'e inputs" where
  "model_inputs keys I =
     I\<lparr>in_rows := filter (\<lambda>e. fst e \<in> set keys) (in_rows I), in_plain := filter (\<lambda>e. fst e \<in> set keys) (in_plain I),
       in_modal := filter (\<lambda>e. fst e \<in> set keys) (in_modal I)\<rparr>"

text \<open>The samples of a micro batch one by one; the output is cut at the running sums of their lengths.\<close>

fun unpack_losses ::
  "('e, 'o, 'x, 'v) loss_fn \<Rightarrow> 'e sample list \<Rightarrow> ('o, 'x) outputs \<Rightarrow> nat \<Rightarrow> 'e sample list \<Rightarrow> nat list
   \<Rightarrow> (nat \<times> real \<times> (string, 'v) dict) list res" where
  "unpack_losses loss_fn mini_batch out last_idx (item # items) (index # ixs) =
     (if length mini_batch \<le> sample_idx item then Inl IndexError
      else if uid (mini_batch ! sample_idx item) \<noteq> uid item then Inl AssertionError
      else case unpack_losses loss_fn mini_batch out index items ixs of
        Inl e \<Rightarrow> Inl e
      | Inr rest \<Rightarrow>
          (case loss_fn (Alone item) (slice_output last_idx index out) of
             (loss, metric) \<Rightarrow> Inr ((sample_idx item, loss * weight_of item, metric) # rest)))"
| "unpack_losses loss_fn mini_batch out last_idx items ixs = Inr []"

record 'v pass_state =
  pass_metrics :: "(nat \<times> (string, 'v) dict) list"
  backwards :: "(bool \<times> real) list"

text \<open>
  One micro batch. The number given to \<open>set_is_last_backward\<close> is compared with the number of
  micro batches of the rank.
\<close>

definition micro_step ::
  "('e, 'o, 'x) train_setting \<Rightarrow> ('e, 'o, 'x, 'v) loss_fn \<Rightarrow> bool \<Rightarrow> bool \<Rightarrow> 'e sample list \<Rightarrow> real
   \<Rightarrow> nat \<Rightarrow> nat \<Rightarrow> 'e sample list \<Rightarrow> 'v pass_state res" where
  "micro_step T loss_fn forward_only unpack mini_batch full_weight total_batches batch_idx batch =
     (case collate batch True of
        Inl e \<Rightarrow> Inl e
      | Inr I \<Rightarrow>
          let batch_weight = sum_list (in_weights I);
              out = run_model T (model_inputs (model_input_keys T) I);
              back = (\<lambda>loss. if forward_only then []
                       else [(batch_idx = total_batches, loss * batch_weight / full_weight)])
          in if unpack then
               (case unpack_losses loss_fn mini_batch out 0 batch (indices_of I) of
                  Inl e \<Rightarrow> Inl e
                | Inr losses \<Rightarrow> Inr \<lparr>pass_metrics = map (\<lambda>(i, _, m). (i, m)) losses,
                    backwards = back (sum_list (map (\<lambda>(_, l, _). l / batch_weight) losses))\<rparr>)
             else
               (case loss_fn (Packed I) out of
                  (loss, metric) \<Rightarrow> Inr \<lparr>pass_metrics = [(batch_idx, metric)], backwards = back loss\<rparr>))"

primrec rank_loop ::
  "(nat \<Rightarrow> 'v pass_state res) \<Rightarrow> nat list \<Rightarrow> 'v pass_state res" where
  "rank_loop step [] = Inr \<lparr>pass_metrics = [], backwards = []\<rparr>"
| "rank_loop step (b # bs) =
     (case step b of
        Inl e \<Rightarrow> Inl e
      | Inr p \<Rightarrow>
          (case rank_loop step bs of
             Inl e \<Rightarrow> Inl e
           | Inr q \<Rightarrow> Inr \<lparr>pass_metrics = pass_metrics p @ pass_metrics q, backwards = backwards p @ backwards q\<rparr>))"

text \<open>The samples as they are marked: with their numbers, and with a weight.\<close>

definition marked_samples :: "'e sample list \<Rightarrow> 'e sample list" where
  "marked_samples data = map (\<lambda>(i, s). s\<lparr>sample_idx := i, loss_weight := Some (weight_of s)\<rparr>) (zip [0..<length data] data)"

definition micro_batches :: "('e, 'o, 'x) train_setting \<Rightarrow> 'e sample list \<Rightarrow> 'e sample list list" where
  "micro_batches T data = pack (packer T) data (max_tokens_per_micro_batch T) (mesh_size T)"

definition rank_pass ::
  "('e, 'o, 'x) train_setting \<Rightarrow> ('e, 'o, 'x, 'v) loss_fn \<Rightarrow> bool \<Rightarrow> bool \<Rightarrow> 'e sample list \<Rightarrow> nat \<Rightarrow> 'v pass_state res" where
  "rank_pass T loss_fn forward_only unpack data rank =
     (let mini_batch = marked_samples data;
          full_weight = sum_list (map weight_of mini_batch) / real (mesh_size T);
          micro = micro_batches T mini_batch;
          mine = sampler T (length micro) (mesh_size T) rank
      in rank_loop (\<lambda>b. micro_step T loss_fn forward_only unpack mini_batch full_weight (length mine) b (micro ! b)) mine)"

section \<open>All ranks\<close>

primrec all_passes :: "(nat \<Rightarrow> 'v pass_state res) \<Rightarrow> nat list \<Rightarrow> 'v pass_state list res" where
  "all_passes f [] = Inr []"
| "all_passes f (r # rs) =
     (case f r of Inl e \<Rightarrow> Inl e | Inr p \<Rightarrow> (case all_passes f rs of Inl e \<Rightarrow> Inl e | Inr ps \<Rightarrow> Inr (p # ps)))"

definition flattened_metrics :: "'v pass_state list \<Rightarrow> (nat \<times> (string, 'v) dict) list" where
  "flattened_metrics passes = sort_key fst (concat (map pass_metrics passes))"

definition merged_metrics :: "(nat \<times> (string, 'v) dict) list \<Rightarrow> (string, 'v list) dict" where
  "merged_metrics ms = foldl (\<lambda>d (_, m). foldl (\<lambda>d (k, v). append_at k v d) d m) [] ms"

text \<open>What every rank returns, and what the ranks differentiate.\<close>

definition forward_backward ::
  "('e, 'o, 'x) train_setting \<Rightarrow> ('e, 'o, 'x, 'v) loss_fn \<Rightarrow> bool \<Rightarrow> bool \<Rightarrow> 'e sample list
   \<Rightarrow> ((string, 'v list) dict \<times> (bool \<times> real) list list) res" where
  "forward_backward T loss_fn forward_only unpack data =
     (case all_passes (rank_pass T loss_fn forward_only unpack data) [0..<mesh_size T] of
        Inl e \<Rightarrow> Inl e
      | Inr ps \<Rightarrow> Inr (merged_metrics (flattened_metrics ps), map backwards ps))"

text \<open>The mean over the ranks of the losses they accumulate.\<close>

definition accumulated_loss :: "(bool \<times> real) list list \<Rightarrow> real" where
  "accumulated_loss bs = sum_list (map (\<lambda>b. sum_list (map snd b)) bs) / real (length bs)"


section \<open>Cutting what was put together\<close>

definition cuts :: "nat list \<Rightarrow> 'a list \<Rightarrow> 'a list list" where
  "cuts ixs xs = map (\<lambda>(a, b). drop a (take b xs)) (zip (0 # ixs) ixs)"

lemma length_running_sum [simp]: "length (running_sum n ks) = length ks"
  by (induction ks arbitrary: n) simp_all

lemma cut_rows:
  "map (\<lambda>(a, b). drop a (take b (ys @ concat xss)))
     (zip (length ys # running_sum (length ys) (map length xss)) (running_sum (length ys) (map length xss))) = xss"
proof (induction xss arbitrary: ys)
  case (Cons xs xss)
  show ?case using Cons.IH [of "ys @ xs"] by simp
qed simp

lemma cuts_of_concat: "cuts (running_sum 0 (map length xss)) (concat xss) = xss"
  using cut_rows [of "[]" xss] by (simp add: cuts_def)

lemma append_at_get: "dict_get (append_at k v d) k' = (if k' = k then Some (dict_get_or d k [] @ [v]) else dict_get d k')"
  by (simp add: append_at_def)

lemma append_row_get:
  assumes "distinct (dict_keys m)"
  shows "dict_get (foldl (\<lambda>d (k, v). append_at k v d) d m) k =
    (case dict_get m k of None \<Rightarrow> dict_get d k | Some v \<Rightarrow> Some (dict_get_or d k [] @ [v]))"
  using assms
proof (induction m arbitrary: d)
  case (Cons p m)
  obtain k' v where p: "p = (k', v)" by (cases p)
  show ?case
  proof (cases "k = k'")
    case True
    then have "dict_get m k = None" using Cons.prems by (simp add: p map_of_eq_None_iff)
    then show ?thesis using Cons True by (simp add: p append_at_get)
  next
    case False
    then show ?thesis
      using Cons.IH [of "append_at k' v d"] Cons.prems
      by (simp add: p append_at_get dict_get_or_def split: option.split)
  qed
qed simp

lemma gathered_get:
  assumes "\<forall>s \<in> set batch. distinct (dict_keys (f s)) \<and> dict_get (f s) k = Some (g s)" and "batch \<noteq> []"
  shows "dict_get (gathered f batch) k = Some (map g batch)"
proof -
  have "dict_get (foldl (\<lambda>d s. foldl (\<lambda>d (k, v). append_at k v d) d (f s)) d ss) k =
      (if ss = [] then dict_get d k else Some (dict_get_or d k [] @ map g ss))"
    if "\<forall>s \<in> set ss. distinct (dict_keys (f s)) \<and> dict_get (f s) k = Some (g s)" for d ss
    using that
  proof (induction ss arbitrary: d)
    case (Cons s ss)
    then show ?case
      by (simp add: append_row_get dict_get_or_def)
  qed simp
  from this [of batch "[]"] show ?thesis using assms by (simp add: gathered_def dict_get_or_def)
qed

lemma come_apart:
  assumes "collate batch True = Inr I"
    and "\<forall>s \<in> set batch. distinct (dict_keys (seq_rows s)) \<and> dict_get (seq_rows s) key = Some (row s) \<and>
           length (row s) = seq_len s"
  shows "\<exists>xs. dict_get (in_rows I) key = Some xs \<and> cuts (indices_of I) xs = map row batch"
proof -
  have ne: "batch \<noteq> []" and I: "in_rows I = dict_map concat (gathered seq_rows batch)"
      "indices_of I = running_sum 0 (map seq_len batch)"
    using assms(1) by (auto simp: collate_def Let_def split: sum.splits if_splits)
  have "dict_get (gathered seq_rows batch) key = Some (map row batch)"
    by (rule gathered_get) (use assms(2) ne in auto)
  then have "dict_get (in_rows I) key = Some (concat (map row batch))"
    by (simp add: I)
  moreover have "map seq_len batch = map length (map row batch)" using assms(2) by simp
  ultimately show ?thesis
    unfolding I using cuts_of_concat [of "map row batch"] by metis
qed

text \<open>
  Cutting a packed row at the running sums of the lengths gives back the rows of the
  samples, in order, for every tensor all of them have.
\<close>

lemma packed_rows_come_apart:
  assumes "collate batch True = Inr I"
    and "\<forall>s \<in> set batch. distinct (dict_keys (seq_rows s)) \<and> dict_get (seq_rows s) key = Some (row s) \<and>
           length (row s) = seq_len s"
  shows "\<exists>xs. dict_get (in_rows I) key = Some xs \<and> cuts (indices_of I) xs = map row batch"
  using assms by (rule come_apart)

definition small_sample :: "nat list \<Rightarrow> nat sample" where
  "small_sample ids =
     \<lparr>seq_len = length ids, loss_weight = None, sample_idx = 0, uid = ''u'',
      seq_rows = [(''input_ids'', ids), (''position_ids'', [0..<length ids])], plain = [], modal = []\<rparr>"

lemma packed_rows_come_apart_witness:
  "\<exists>I xs. collate [small_sample [7, 8], small_sample [9]] True = Inr I \<and>
     dict_get (in_rows I) ''input_ids'' = Some xs \<and> cuts (indices_of I) xs = [[7, 8], [9]]"
proof -
  obtain I where I: "collate [small_sample [7, 8], small_sample [9]] True = Inr I"
    by (simp add: collate_def check_item_def small_sample_def gathered_def append_at_def dict_get_or_def)
  from packed_rows_come_apart [OF this, of "''input_ids''" "\<lambda>s. the (dict_get (seq_rows s) ''input_ids'')"]
  show ?thesis using I by (auto simp: small_sample_def)
qed


section \<open>Every packing gives the same loss\<close>

text \<open>Samples that a training step accepts.\<close>

definition trainable :: "'e sample \<Rightarrow> bool" where
  "trainable s \<longleftrightarrow> distinct (dict_keys (seq_rows s)) \<and> modal s = [] \<and> 0 < weight_of s \<and>
     (\<exists>ids. dict_get (seq_rows s) ''input_ids'' = Some ids \<and> length ids = seq_len s) \<and>
     dict_get (seq_rows s) ''position_ids'' \<noteq> None"

text \<open>
  What is documented of the two libraries: the bins hold every number once, and the ranks
  get every micro batch once when their number is a multiple of that of the ranks.
\<close>

definition packs :: "packing \<Rightarrow> bool" where
  "packs B \<longleftrightarrow>
     (\<forall>d v. d \<noteq> [] \<longrightarrow> 0 < length (constant_volume B d v) \<and> length (constant_volume B d v) \<le> length d) \<and>
     (\<forall>d n. 0 < n \<longrightarrow> length (constant_number B d n) = n \<and> mset (concat (constant_number B d n)) = mset (map fst d))"

definition deals :: "(nat \<Rightarrow> nat \<Rightarrow> nat \<Rightarrow> nat list) \<Rightarrow> bool" where
  "deals f \<longleftrightarrow>
     (\<forall>n k. 0 < k \<longrightarrow> k dvd n \<longrightarrow> mset (concat (map (f n k) [0..<k])) = mset [0..<n] \<and>
        (\<forall>r < k. length (f n k r) = n div k))"

lemma marked_nth:
  "i < length data \<Longrightarrow> marked_samples data ! i = (data ! i)\<lparr>sample_idx := i, loss_weight := Some (weight_of (data ! i))\<rparr>"
  by (simp add: marked_samples_def)

lemma length_marked_samples [simp]: "length (marked_samples data) = length data"
  by (simp add: marked_samples_def)

lemma marked_own_place:
  assumes "s \<in> set (marked_samples data)"
  shows "sample_idx s < length data" "marked_samples data ! sample_idx s = s"
  using assms by (auto simp: in_set_conv_nth marked_nth)

lemma marked_not_empty [simp]: "marked_samples data = [] \<longleftrightarrow> data = []"
  by (metis length_0_conv length_marked_samples)

lemma trainable_marks:
  "trainable (s\<lparr>sample_idx := i, loss_weight := Some (weight_of s)\<rparr>) = trainable s"
  unfolding trainable_def by (simp add: weight_of_def)

lemma marked_trainable:
  assumes "\<forall>s \<in> set data. trainable s" and "s \<in> set (marked_samples data)"
  shows "trainable s"
proof -
  obtain i where "i < length data" "s = marked_samples data ! i" using assms(2) by (auto simp: in_set_conv_nth)
  then have "trainable (data ! i)" and s: "s = (data ! i)\<lparr>sample_idx := i, loss_weight := Some (weight_of (data ! i))\<rparr>"
    using assms(1) by (auto simp: marked_nth)
  then show ?thesis unfolding s trainable_marks by simp
qed

lemma packed_samples:
  assumes "packs (packer T)" and "0 < mesh_size T" and "data \<noteq> []"
  shows "mset (concat (micro_batches T (marked_samples data))) = mset (marked_samples data)"
    and "mesh_size T dvd length (micro_batches T (marked_samples data))"
proof -
  let ?S = "marked_samples data"
  let ?d = "zip [0..<length ?S] (map seq_len ?S)"
  define n where "n = (length (constant_volume (packer T) ?d (max_tokens_per_micro_batch T)) + mesh_size T - 1)
    div mesh_size T * mesh_size T"
  have micro: "micro_batches T ?S = map (map ((!) ?S)) (constant_number (packer T) ?d n)"
    by (simp add: micro_batches_def pack_def Let_def n_def)
  have "?d \<noteq> []" using assms(3) by simp
  then have "0 < length (constant_volume (packer T) ?d (max_tokens_per_micro_batch T))"
    using assms(1) unfolding packs_def by blast
  then have "mesh_size T \<le> length (constant_volume (packer T) ?d (max_tokens_per_micro_batch T)) + mesh_size T - 1"
    by linarith
  then have "0 < n" using assms(2) by (simp add: n_def div_greater_zero_iff)
  then have bins: "length (constant_number (packer T) ?d n) = n"
      "mset (concat (constant_number (packer T) ?d n)) = mset (map fst ?d)"
    using assms(1) unfolding packs_def by blast+
  moreover have "map fst ?d = [0..<length ?S]" by simp
  ultimately have bins: "length (constant_number (packer T) ?d n) = n"
      "mset (concat (constant_number (packer T) ?d n)) = mset [0..<length ?S]" by simp_all
  have "concat (micro_batches T ?S) = map ((!) ?S) (concat (constant_number (packer T) ?d n))"
    by (simp add: micro map_concat)
  then have "mset (concat (micro_batches T ?S)) = image_mset ((!) ?S) (mset [0..<length ?S])"
    using bins(2) by simp
  also have "\<dots> = mset (map ((!) ?S) [0..<length ?S])" by simp
  finally show "mset (concat (micro_batches T ?S)) = mset ?S" by (simp only: map_nth)
  show "mesh_size T dvd length (micro_batches T ?S)" using bins(1) by (simp add: micro n_def)
qed

text \<open>A batch of trainable samples passes the checks.\<close>

lemma collated:
  assumes "\<forall>s \<in> set batch. trainable s" and "batch \<noteq> []"
  shows "\<exists>I. collate batch True = Inr I \<and> in_weights I = map weight_of batch \<and>
    indices_of I = running_sum 0 (map seq_len batch)"
proof -
  have "check_item s = Inr ()" if "trainable s" for s :: "'a sample"
  proof -
    from that obtain ids where "dict_get (seq_rows s) ''input_ids'' = Some ids" "length ids = seq_len s"
      by (auto simp: trainable_def)
    then show ?thesis by (simp add: check_item_def)
  qed
  then have "check_items ss = Inr ()" if "\<forall>s \<in> set ss. trainable s" for ss :: "'a sample list"
    using that by (induction ss) auto
  moreover have "dict_get (gathered seq_rows batch) ''position_ids'' =
      Some (map (\<lambda>s. the (dict_get (seq_rows s) ''position_ids'')) batch)"
    by (rule gathered_get) (use assms in \<open>auto simp: trainable_def\<close>)
  moreover have "gathered modal batch = []"
  proof -
    have "foldl (\<lambda>d s. foldl (\<lambda>d (k, v). append_at k v d) d (modal s)) d ss = d"
      if "\<forall>s \<in> set ss. modal s = []" for d and ss :: "'a sample list"
      using that by (induction ss) auto
    then show ?thesis using assms(1) by (simp add: gathered_def trainable_def)
  qed
  ultimately show ?thesis using assms by (simp add: collate_def Let_def)
qed

lemma unpacked_losses:
  assumes "\<forall>s \<in> set items. s \<in> set (marked_samples data)"
    and "\<forall>j < length items. slice_output ((n # running_sum n (map seq_len items)) ! j)
           (running_sum n (map seq_len items) ! j) out = out_of (items ! j)"
  shows "unpack_losses loss_fn (marked_samples data) out n items (running_sum n (map seq_len items)) =
    Inr (map (\<lambda>s. (sample_idx s, fst (loss_fn (Alone s) (out_of s)) * weight_of s, snd (loss_fn (Alone s) (out_of s)))) items)"
  using assms
proof (induction items arbitrary: n)
  case (Cons s items)
  have "\<forall>j < length items. slice_output (((n + seq_len s) # running_sum (n + seq_len s) (map seq_len items)) ! j)
      (running_sum (n + seq_len s) (map seq_len items) ! j) out = out_of (items ! j)"
  proof (intro allI impI)
    fix j assume "j < length items"
    then show "slice_output (((n + seq_len s) # running_sum (n + seq_len s) (map seq_len items)) ! j)
        (running_sum (n + seq_len s) (map seq_len items) ! j) out = out_of (items ! j)"
      using Cons.prems(2) [rule_format, of "Suc j"] by simp
  qed
  note IH = Cons.IH [OF _ this]
  have "slice_output n (n + seq_len s) out = out_of s" using Cons.prems(2) [rule_format, of 0] by simp
  moreover have "sample_idx s < length data" "marked_samples data ! sample_idx s = s"
    using Cons.prems(1) marked_own_place by auto
  ultimately show ?case using IH Cons.prems(1) by (simp split: prod.split)
qed simp


text \<open>The part of an output that belongs to a sample does not depend on what it is packed with.\<close>

definition separates :: "('e, 'o, 'x) train_setting \<Rightarrow> ('e sample \<Rightarrow> ('o, 'x) outputs) \<Rightarrow> 'e sample list \<Rightarrow> bool" where
  "separates T out_of samples \<longleftrightarrow>
     (\<forall>batch I j. set batch \<subseteq> set samples \<longrightarrow> collate batch True = Inr I \<longrightarrow> j < length batch \<longrightarrow>
        slice_output ((0 # indices_of I) ! j) (indices_of I ! j) (run_model T (model_inputs (model_input_keys T) I)) =
        out_of (batch ! j))"

definition own_loss :: "('e, 'o, 'x, 'v) loss_fn \<Rightarrow> ('e sample \<Rightarrow> ('o, 'x) outputs) \<Rightarrow> 'e sample \<Rightarrow> real" where
  "own_loss loss_fn out_of s = fst (loss_fn (Alone s) (out_of s))"

definition own_metric :: "('e, 'o, 'x, 'v) loss_fn \<Rightarrow> ('e sample \<Rightarrow> ('o, 'x) outputs) \<Rightarrow> 'e sample \<Rightarrow> nat \<times> (string, 'v) dict" where
  "own_metric loss_fn out_of s = (sample_idx s, snd (loss_fn (Alone s) (out_of s)))"

lemma sum_list_over: "sum_list (map (\<lambda>x. f x / c) xs) = sum_list (map f xs) / c" for c :: real
  by (induction xs) (simp_all add: add_divide_distrib)

lemma micro_step_sum:
  assumes "\<forall>s \<in> set data. trainable s" and "set batch \<subseteq> set (marked_samples data)" and "batch \<noteq> []"
    and "separates T out_of (marked_samples data)"
  shows "micro_step T loss_fn False True (marked_samples data) full_weight total_batches b batch =
    Inr \<lparr>pass_metrics = map (own_metric loss_fn out_of) batch,
         backwards = [(b = total_batches,
           sum_list (map (\<lambda>s. own_loss loss_fn out_of s * weight_of s) batch) / full_weight)]\<rparr>"
proof -
  have ok: "\<forall>s \<in> set batch. trainable s" using assms(1,2) marked_trainable by blast
  from collated [OF this assms(3)] obtain I where I: "collate batch True = Inr I"
      "in_weights I = map weight_of batch" "indices_of I = running_sum 0 (map seq_len batch)" by blast
  let ?out = "run_model T (model_inputs (model_input_keys T) I)" and ?w = "sum_list (map weight_of batch)"
  have losses: "unpack_losses loss_fn (marked_samples data) ?out 0 batch (running_sum 0 (map seq_len batch)) =
      Inr (map (\<lambda>s. (sample_idx s, fst (loss_fn (Alone s) (out_of s)) * weight_of s, snd (loss_fn (Alone s) (out_of s)))) batch)"
    by (rule unpacked_losses)
      (use assms(2,4) I in \<open>auto simp: separates_def\<close>)
  have "0 < weight_of (hd batch)" "\<forall>s \<in> set batch. 0 \<le> weight_of s"
    using ok assms(3) by (auto simp: trainable_def less_imp_le)
  then have "0 < ?w"
    using assms(3) by (cases batch) (auto intro!: add_pos_nonneg sum_list_nonneg)
  then show ?thesis
    by (simp add: sum_list_over micro_step_def I losses Let_def comp_def own_loss_def own_metric_def)
qed

lemma rank_loop_all:
  assumes "\<forall>b \<in> set bs. step b = Inr (f b)"
  shows "rank_loop step bs =
    Inr \<lparr>pass_metrics = concat (map (\<lambda>b. pass_metrics (f b)) bs), backwards = concat (map (\<lambda>b. backwards (f b)) bs)\<rparr>"
  using assms by (induction bs) simp_all

lemma all_passes_all: "\<forall>r \<in> set rs. f r = Inr (g r) \<Longrightarrow> all_passes f rs = Inr (map g rs)"
  by (induction rs) simp_all

lemma sum_list_mset_eq: "mset xs = mset ys \<Longrightarrow> sum_list (map f xs) = sum_list (map f ys)" for f :: "'a \<Rightarrow> real"
  by (metis mset_map sum_mset_sum_list)

lemma sum_list_concat_map:
  "sum_list (map f (concat xss)) = sum_list (map (\<lambda>xs. sum_list (map f xs)) xss)" for f :: "'a \<Rightarrow> real"
  by (induction xss) simp_all

lemma marked_metrics_sorted:
  assumes "mset xs = mset (map (own_metric loss_fn out_of) (marked_samples data))"
  shows "sort_key fst xs = map (own_metric loss_fn out_of) (marked_samples data)"
proof (rule sort_key_inj_key_eq [OF assms])
  have "map (\<lambda>s. fst (own_metric loss_fn out_of s)) (marked_samples data) = [0..<length data]"
    by (rule nth_equalityI) (simp_all add: own_metric_def marked_nth)
  then have keys: "map fst (map (own_metric loss_fn out_of) (marked_samples data)) = [0..<length data]"
    by (simp add: comp_def)
  then have "distinct (map fst (map (own_metric loss_fn out_of) (marked_samples data)))"
    by (simp only: distinct_upt)
  then show "inj_on fst (set xs)"
    using mset_eq_setD [OF assms] by (simp only: distinct_map)
  show "sorted (map fst (map (own_metric loss_fn out_of) (marked_samples data)))"
    unfolding keys by (rule sorted_upt)
qed

lemma mset_of_concat_map: "mset (concat (map f xs)) = sum_mset (image_mset (\<lambda>x. mset (f x)) (mset xs))"
  by (induction xs) simp_all

text \<open>The pass of a rank over trainable samples without empty micro batches.\<close>

definition expected_pass ::
  "('e, 'o, 'x) train_setting \<Rightarrow> ('e, 'o, 'x, 'v) loss_fn \<Rightarrow> ('e sample \<Rightarrow> ('o, 'x) outputs) \<Rightarrow> 'e sample list \<Rightarrow> nat list
   \<Rightarrow> 'v pass_state" where
  "expected_pass T loss_fn out_of S mine =
     (let micro = micro_batches T S
      in \<lparr>pass_metrics = map (own_metric loss_fn out_of) (concat (map ((!) micro) mine)),
          backwards = map (\<lambda>b. (b = length mine,
            sum_list (map (\<lambda>s. own_loss loss_fn out_of s * weight_of s) (micro ! b)) /
              (sum_list (map weight_of S) / real (mesh_size T)))) mine\<rparr>)"

definition good_step :: "('e, 'o, 'x) train_setting \<Rightarrow> ('e sample \<Rightarrow> ('o, 'x) outputs) \<Rightarrow> 'e sample list \<Rightarrow> bool" where
  "good_step T out_of data \<longleftrightarrow>
     (\<forall>s \<in> set data. trainable s) \<and> data \<noteq> [] \<and> 0 < mesh_size T \<and> packs (packer T) \<and> deals (sampler T) \<and>
     separates T out_of (marked_samples data) \<and> [] \<notin> set (micro_batches T (marked_samples data))"

definition share :: "('e, 'o, 'x) train_setting \<Rightarrow> 'e sample list \<Rightarrow> nat \<Rightarrow> nat list" where
  "share T S = sampler T (length (micro_batches T S)) (mesh_size T)"

lemma good_step_parts:
  assumes "good_step T out_of data"
  shows "mset (concat (micro_batches T (marked_samples data))) = mset (marked_samples data)"
    and "mset (concat (map (share T (marked_samples data)) [0..<mesh_size T])) =
         mset [0..<length (micro_batches T (marked_samples data))]"
proof -
  have "0 < mesh_size T" "packs (packer T)" "data \<noteq> []" "deals (sampler T)" using assms by (simp_all add: good_step_def)
  note packed = packed_samples [OF this(2,1,3)]
  show "mset (concat (micro_batches T (marked_samples data))) = mset (marked_samples data)" by (rule packed(1))
  show "mset (concat (map (share T (marked_samples data)) [0..<mesh_size T])) =
        mset [0..<length (micro_batches T (marked_samples data))]"
    unfolding share_def using \<open>deals (sampler T)\<close> \<open>0 < mesh_size T\<close> packed(2) unfolding deals_def by blast
qed

lemma rank_pass_expected:
  assumes "good_step T out_of data" and "r < mesh_size T"
  shows "rank_pass T loss_fn False True data r =
    Inr (expected_pass T loss_fn out_of (marked_samples data) (share T (marked_samples data) r))"
proof -
  let ?S = "marked_samples data"
  let ?micro = "micro_batches T ?S" and ?mine = "share T ?S r"
  let ?f = "\<lambda>b. \<lparr>pass_metrics = map (own_metric loss_fn out_of) (?micro ! b),
      backwards = [(b = length ?mine, sum_list (map (\<lambda>s. own_loss loss_fn out_of s * weight_of s) (?micro ! b)) /
        (sum_list (map weight_of ?S) / real (mesh_size T)))]\<rparr>"
  have "set ?mine \<subseteq> set (concat (map (share T ?S) [0..<mesh_size T]))" using assms(2) by auto
  then have mine: "set ?mine \<subseteq> {..<length ?micro}" using mset_eq_setD [OF good_step_parts(2) [OF assms(1)]] by auto
  have "micro_step T loss_fn False True ?S (sum_list (map weight_of ?S) / real (mesh_size T)) (length ?mine) b (?micro ! b) =
      Inr (?f b)" if "b \<in> set ?mine" for b
  proof (rule micro_step_sum)
    have b: "?micro ! b \<in> set ?micro" using mine that by auto
    then show "set (?micro ! b) \<subseteq> set ?S" using mset_eq_setD [OF good_step_parts(1) [OF assms(1)]] by auto
    show "?micro ! b \<noteq> []" using assms(1) b by (auto simp: good_step_def)
  qed (use assms(1) in \<open>auto simp: good_step_def\<close>)
  then show ?thesis
    using rank_loop_all [of ?mine _ ?f]
    by (simp add: rank_pass_def Let_def expected_pass_def share_def [symmetric] comp_def map_concat)
qed

lemma expected_metrics:
  assumes "good_step T out_of data"
  shows "flattened_metrics (map (\<lambda>r. expected_pass T loss_fn out_of (marked_samples data) (share T (marked_samples data) r)) [0..<mesh_size T]) =
    map (own_metric loss_fn out_of) (marked_samples data)"
  unfolding flattened_metrics_def
proof (rule marked_metrics_sorted)
  let ?S = "marked_samples data"
  let ?micro = "micro_batches T ?S" and ?all = "concat (map (share T (marked_samples data)) [0..<mesh_size T])"
  let ?m = "own_metric loss_fn out_of"
  have "concat (map pass_metrics (map (\<lambda>r. expected_pass T loss_fn out_of ?S (share T ?S r)) rs)) =
      map ?m (concat (map ((!) ?micro) (concat (map (share T ?S) rs))))" for rs
    by (induction rs) (simp_all add: expected_pass_def Let_def)
  then have "mset (concat (map pass_metrics (map (\<lambda>r. expected_pass T loss_fn out_of ?S (share T ?S r)) [0..<mesh_size T]))) =
      image_mset ?m (mset (concat (map ((!) ?micro) ?all)))" by simp
  also have "mset (concat (map ((!) ?micro) ?all)) = mset (concat (map ((!) ?micro) [0..<length ?micro]))"
    unfolding mset_of_concat_map [of "(!) ?micro"] good_step_parts(2) [OF assms] ..
  also have "\<dots> = mset ?S" unfolding map_nth by (rule good_step_parts(1) [OF assms])
  finally show "mset (concat (map pass_metrics (map (\<lambda>r. expected_pass T loss_fn out_of ?S (share T ?S r)) [0..<mesh_size T]))) =
      mset (map ?m ?S)" by simp
qed

lemma expected_loss:
  assumes "good_step T out_of data"
  shows "accumulated_loss (map backwards (map (\<lambda>r. expected_pass T loss_fn out_of (marked_samples data) (share T (marked_samples data) r)) [0..<mesh_size T])) =
    sum_list (map (\<lambda>s. own_loss loss_fn out_of s * weight_of s) (marked_samples data)) / sum_list (map weight_of (marked_samples data))"
proof -
  let ?S = "marked_samples data" and ?k = "real (mesh_size T)"
  let ?micro = "micro_batches T ?S"
  let ?g = "\<lambda>s. own_loss loss_fn out_of s * weight_of s" and ?W = "sum_list (map weight_of (marked_samples data))"
  let ?h = "\<lambda>b. sum_list (map ?g (?micro ! b)) / (?W / ?k)"
  have "sum_list (map (\<lambda>b. sum_list (map snd b)) (map backwards (map (\<lambda>r. expected_pass T loss_fn out_of ?S (share T ?S r)) rs))) =
      sum_list (map ?h (concat (map (share T ?S) rs)))" for rs
    by (induction rs) (simp_all add: expected_pass_def Let_def comp_def)
  note this [of "[0..<mesh_size T]"]
  also have "sum_list (map ?h (concat (map (share T ?S) [0..<mesh_size T]))) = sum_list (map ?h [0..<length ?micro])"
    by (rule sum_list_mset_eq [OF good_step_parts(2) [OF assms]])
  also have "\<dots> = sum_list (map (\<lambda>b. sum_list (map ?g b) / (?W / ?k)) ?micro)"
    by (rule arg_cong [where f = sum_list], rule nth_equalityI) simp_all
  also have "\<dots> = sum_list (map ?g (concat ?micro)) / (?W / ?k)"
    unfolding sum_list_concat_map by (rule sum_list_over)
  also have "\<dots> = sum_list (map ?g ?S) / (?W / ?k)"
    by (rule arg_cong [where f = "\<lambda>x. x / (?W / ?k)"], rule sum_list_mset_eq [OF good_step_parts(1) [OF assms]])
  finally show ?thesis
    using assms by (simp add: accumulated_loss_def good_step_def)
qed

text \<open>
  C2: However the samples are packed and dealt out to the ranks, the mean over the ranks of
  the losses that are differentiated is the mean of the losses of the samples by their weights, and the
  metrics come back in the order of the samples.
\<close>

theorem loss_independent_of_packing:
  assumes "good_step T out_of data"
  shows "\<exists>bs. forward_backward T loss_fn False True data =
      Inr (merged_metrics (map (own_metric loss_fn out_of) (marked_samples data)), bs) \<and>
    accumulated_loss bs =
      sum_list (map (\<lambda>s. own_loss loss_fn out_of s * weight_of s) (marked_samples data)) /
      sum_list (map weight_of (marked_samples data))"
proof -
  have "all_passes (rank_pass T loss_fn False True data) [0..<mesh_size T] =
      Inr (map (\<lambda>r. expected_pass T loss_fn out_of (marked_samples data) (share T (marked_samples data) r)) [0..<mesh_size T])"
    by (rule all_passes_all, rule ballI, rule rank_pass_expected [OF assms]) simp
  then show ?thesis
    using expected_metrics [OF assms, of loss_fn] expected_loss [OF assms, of loss_fn]
    by (simp add: forward_backward_def)
qed


text \<open>A setting in which this holds: strided shares, a model that works on each position, two ranks.\<close>

definition strided :: "nat \<Rightarrow> nat \<Rightarrow> nat \<Rightarrow> nat list" where
  "strided n k r = map (\<lambda>j. j * k + r) [0..<n div k]"

lemma strided_deals: "deals strided"
proof -
  have step: "mset (concat (map (\<lambda>r. f r @ [g r]) rs)) = mset (concat (map f rs)) + mset (map g rs)"
    for f :: "nat \<Rightarrow> nat list" and g rs
    by (induction rs) simp_all
  have "mset (concat (map (\<lambda>r. map (\<lambda>j. j * k + r) [0..<q]) [0..<k])) = mset [0..<q * k]" for k q
  proof (induction q)
    case (Suc q)
    have "[0..<Suc q * k] = [0..<q * k] @ map (\<lambda>r. q * k + r) [0..<k]"
      using upt_add_eq_append [of 0 "q * k" k] map_add_upt [of "q * k" k] by (simp add: add.commute)
    then show ?case
      using step [of "\<lambda>r. map (\<lambda>j. j * k + r) [0..<q]" "\<lambda>r. q * k + r" "[0..<k]"] Suc by simp
  qed simp
  from this [of k "n div k" for k n] show ?thesis
    by (auto simp: deals_def strided_def [abs_def])
qed

definition one_each :: packing where
  "one_each =
     \<lparr>constant_volume = (\<lambda>d v. [map fst d]),
      constant_number = (\<lambda>d n. map (\<lambda>r. take 1 (drop r (map fst d))) [0..<n - 1] @ [drop (n - 1) (map fst d)])\<rparr>"

lemma one_each_packs: "packs one_each"
proof -
  have "concat (map (\<lambda>r. take 1 (drop r xs)) [0..<m]) = take m xs" for m and xs :: "nat list"
  proof (induction m)
    case (Suc m)
    then show ?case using take_add [of m 1 xs] by simp
  qed simp
  then show ?thesis
    by (auto simp: packs_def one_each_def Suc_le_eq simp flip: mset_append simp del: mset_append)
qed

definition echo_model :: "nat inputs \<Rightarrow> (nat, unit) outputs" where
  "echo_model I = (case dict_get (in_rows I) ''input_ids'' of None \<Rightarrow> [] | Some xs \<Rightarrow> [(''logits'', Along xs)])"

definition two_ranks :: "(nat, nat, unit) train_setting" where
  "two_ranks =
     \<lparr>run_model = echo_model, packer = one_each, sampler = strided, mesh_size = 2,
      max_tokens_per_micro_batch = 8, model_input_keys = [''input_ids'', ''position_ids'']\<rparr>"

definition two_samples :: "nat sample list" where
  "two_samples = [small_sample [7, 8], small_sample [9]]"


lemma two_samples_trainable: "\<forall>s \<in> set two_samples. trainable s"
  by (simp add: two_samples_def small_sample_def trainable_def weight_of_def)

definition echoed :: "nat sample \<Rightarrow> (nat, unit) outputs" where
  "echoed s = [(''logits'', Along (the (dict_get (seq_rows s) ''input_ids'')))]"

lemma two_ranks_separate: "separates two_ranks echoed (marked_samples two_samples)"
  unfolding separates_def
proof (intro allI impI)
  fix batch I and j :: nat
  assume batch: "set batch \<subseteq> set (marked_samples two_samples)" "collate batch True = Inr I" "j < length batch"
  have "\<forall>s \<in> set batch. trainable s" using batch(1) marked_trainable [OF two_samples_trainable] by blast
  then have "\<forall>s \<in> set batch. distinct (dict_keys (seq_rows s)) \<and>
      dict_get (seq_rows s) ''input_ids'' = Some (the (dict_get (seq_rows s) ''input_ids'')) \<and>
      length (the (dict_get (seq_rows s) ''input_ids'')) = seq_len s"
    by (metis option.sel trainable_def)
  from come_apart [OF batch(2) this] obtain xs where xs: "dict_get (in_rows I) ''input_ids'' = Some xs"
      "cuts (indices_of I) xs = map (\<lambda>s. the (dict_get (seq_rows s) ''input_ids'')) batch" by blast
  have keys: "dict_get (filter (\<lambda>e. fst e \<in> K) d) k = dict_get d k" if "k \<in> K" for K k and d :: "(string, nat list) dict"
    using that by (induction d) auto
  have "length (indices_of I) = length batch"
    using arg_cong [OF xs(2), of length] by (simp add: cuts_def)
  then have "drop ((0 # indices_of I) ! j) (take (indices_of I ! j) xs) = cuts (indices_of I) xs ! j"
    using batch(3) by (simp add: cuts_def)
  also have "\<dots> = the (dict_get (seq_rows (batch ! j)) ''input_ids'')" using batch(3) by (simp add: xs(2))
  finally show "slice_output ((0 # indices_of I) ! j) (indices_of I ! j)
      (run_model two_ranks (model_inputs (model_input_keys two_ranks) I)) = echoed (batch ! j)"
    using keys [of "''input_ids''" "{''input_ids'', ''position_ids''}" "in_rows I"] xs(1)
    by (simp add: two_ranks_def echo_model_def model_inputs_def slice_output_def dict_map_def
        slice_value_def echoed_def)
qed

lemma two_ranks_good: "good_step two_ranks echoed two_samples"
proof -
  have "[] \<notin> set (micro_batches two_ranks (marked_samples two_samples))"
    by (simp add: two_ranks_def micro_batches_def pack_def one_each_def two_samples_def marked_samples_def
        small_sample_def upt_rec)
  then show ?thesis
    unfolding good_step_def
    using two_samples_trainable strided_deals one_each_packs two_ranks_separate
    by (simp add: two_ranks_def two_samples_def)
qed

text \<open>With the number of tokens as the loss of a sample.\<close>

lemma loss_independent_of_packing_witness:
  "\<exists>ms bs. forward_backward two_ranks (\<lambda>x out. case x of Alone s \<Rightarrow> (real (seq_len s), [(''n'', seq_len s)]) | Packed I \<Rightarrow> (0, []))
      False True two_samples = Inr (ms, bs) \<and> accumulated_loss bs = 3 / 2"
  using loss_independent_of_packing [OF two_ranks_good,
      of "\<lambda>x out. case x of Alone s \<Rightarrow> (real (seq_len s), [(''n'', seq_len s)]) | Packed I \<Rightarrow> (0, [])"]
  by (auto simp: two_samples_def marked_samples_def small_sample_def own_loss_def weight_of_def upt_rec)

section \<open>What goes wrong\<close>

lemma all_nonempty_length: "\<forall>m \<in> set ms. 1 \<le> length m \<Longrightarrow> length ms \<le> length (concat ms)"
  by (induction ms) auto

text \<open>
  With fewer samples than devices one micro batch is empty, and the device that gets it
  raises a key error while the others wait for it.
\<close>

lemma too_few_samples:
  assumes "packs (packer T)" and "deals (sampler T)" and "data \<noteq> []" and "length data < mesh_size T"
  shows "\<exists>r < mesh_size T. rank_pass T loss_fn forward_only unpack data r = Inl KeyError"
proof -
  let ?S = "marked_samples data" and ?k = "mesh_size T"
  let ?micro = "micro_batches T ?S" and ?d = "zip [0..<length ?S] (map seq_len ?S)"
  have k: "0 < ?k" using assms(4) by simp
  have d: "?d \<noteq> []" using assms(3) by simp
  let ?b = "length (constant_volume (packer T) ?d (max_tokens_per_micro_batch T))"
  have "0 < ?b \<and> ?b \<le> length ?d" using assms(1) d unfolding packs_def by blast
  then have b: "0 < ?b" "?b \<le> length data" by simp_all
  have "(m + ?k - 1) div ?k = 1" if "0 < m" "m \<le> length data" for m
    using that assms(4) by (intro div_nat_eqI) simp_all
  from this [OF b] have "(?b + ?k - 1) div ?k = 1" .
  then have n: "length ?micro = ?k"
    using assms(1) k by (simp add: micro_batches_def pack_def Let_def packs_def)
  have "\<exists>i < ?k. ?micro ! i = []"
  proof (rule ccontr)
    assume "\<not> ?thesis"
    then have "\<forall>m \<in> set ?micro. 1 \<le> length m" using n by (auto simp: in_set_conv_nth Suc_le_eq)
    then have "length ?micro \<le> length (concat ?micro)" by (rule all_nonempty_length)
    moreover have "length (concat ?micro) = length data"
      using packed_samples(1) [OF assms(1) k assms(3)] by (metis length_marked_samples size_mset)
    ultimately show False using n assms(4) by simp
  qed
  then obtain i where i: "i < ?k" "?micro ! i = []" by blast
  have shares: "mset (concat (map (share T ?S) [0..<?k])) = mset [0..<?k]" "\<forall>r < ?k. length (share T ?S r) = 1"
    using assms(2) k by (simp_all add: deals_def share_def n)
  have "i \<in> set (concat (map (share T ?S) [0..<?k]))" using i(1) mset_eq_setD [OF shares(1)] by auto
  then obtain r where r: "r < ?k" "i \<in> set (share T ?S r)" by auto
  then have "share T ?S r = [i]" using shares(2) by (cases "share T ?S r") auto
  then have "rank_pass T loss_fn forward_only unpack data r = Inl KeyError"
    by (simp add: rank_pass_def Let_def share_def micro_step_def collate_def i(2))
  then show ?thesis using r(1) by blast
qed

lemma too_few_samples_witness:
  "\<exists>r < 2. rank_pass two_ranks (\<lambda>x out. (0, [])) False True [small_sample [7]] r = (Inl KeyError :: nat pass_state res)"
  using too_few_samples [of two_ranks "[small_sample [7]]" "\<lambda>x out. (0, [])" False True] one_each_packs strided_deals
  by (simp add: two_ranks_def)

text \<open>On one device the last micro batch is never marked as the last one.\<close>

lemma last_backward_unmarked:
  assumes "good_step T out_of data" and "mesh_size T = 1"
  shows "\<exists>ms bs. forward_backward T loss_fn False True data = Inr (ms, bs) \<and> (\<forall>b \<in> set bs. \<forall>p \<in> set b. \<not> fst p)"
proof -
  let ?S = "marked_samples data"
  have passes: "all_passes (rank_pass T loss_fn False True data) [0..<mesh_size T] =
      Inr (map (\<lambda>r. expected_pass T loss_fn out_of ?S (share T ?S r)) [0..<mesh_size T])"
    by (rule all_passes_all, rule ballI, rule rank_pass_expected [OF assms(1)]) simp
  have "mset (share T ?S 0) = mset [0..<length (micro_batches T ?S)]"
    using good_step_parts(2) [OF assms(1)] assms(2) by simp
  from mset_eq_setD [OF this] mset_eq_length [OF this]
  have "set (share T ?S 0) = {..<length (micro_batches T ?S)}" "length (share T ?S 0) = length (micro_batches T ?S)"
    by (simp_all add: atLeast0LessThan)
  then have "\<forall>p \<in> set (backwards (expected_pass T loss_fn out_of ?S (share T ?S 0))). \<not> fst p"
    by (auto simp: expected_pass_def Let_def)
  then show ?thesis using passes assms(2) by (simp add: forward_backward_def)
qed

end
