(* ===== verification/Eval_Clients.thy ===== *)
theory Eval_Clients
  imports Eval_Images
begin

text \<open>
  The clients of the model providers (eval/src/agentrl/eval/client/). The SDKs are a record of the
  calls the code makes; what a record of a conversation converts to is given by four functions; an
  error with a status is \<open>ApiError\<close>, where 400 is the class for a bad request and from 500 on
  that for an error of the server. Options are validated before they get here.
\<close>

section \<open>Conversations\<close>

record 'm conversions =
  to_anthropic_system :: "'m \<Rightarrow> json list res"
  to_anthropic_input :: "'m \<Rightarrow> json list res"
  to_response_input :: "'m \<Rightarrow> json list res"
  to_chat_input :: "'m \<Rightarrow> json list res"

datatype client_output =
    ResponseOutput "json list"
  | ChatOutput "json list"
  | AnthropicOutput json
  | DummyOutput "json list"

text \<open>
  What a query is given: the records of a conversation or, by mistake, plain documents, which have no
  conversion methods.
\<close>

datatype 'm conversation = Records "'m list" | Documents "json list"

definition convert_messages ::
  "('m \<Rightarrow> json list res) \<Rightarrow> bool \<Rightarrow> 'm conversation \<Rightarrow> json list res" where
  "convert_messages f ignore_errors c =
     (case c of
        Records ms \<Rightarrow> convert_all f ignore_errors ms
      | Documents ds \<Rightarrow> if ds = [] then Inr [] else Inl AttributeError)"

definition convert_tools :: "(json \<Rightarrow> json res) \<Rightarrow> json list option \<Rightarrow> json list res" where
  "convert_tools f tools =
     (case tools of
        None \<Rightarrow> Inr []
      | Some ts \<Rightarrow> convert_all (\<lambda>t. rbind (f t) (\<lambda>x. Inr [x])) False ts)"

text \<open>The filters on images that every client applies.\<close>

definition filter_images :: "imaging \<Rightarrow> nat option \<Rightarrow> string option \<Rightarrow> json list \<Rightarrow> json list res" where
  "filter_images P max_images wanted_size messages =
     rbind (case max_images of None \<Rightarrow> Inr messages | Some n \<Rightarrow> trim_images n messages) (\<lambda>ms.
     case wanted_size of None \<Rightarrow> Inr ms | Some s \<Rightarrow> resize_images P s ms)"

definition tools_given :: "json list option \<Rightarrow> bool" where
  "tools_given tools \<longleftrightarrow> (case tools of None \<Rightarrow> False | Some ts \<Rightarrow> ts \<noteq> [])"

section \<open>OpenAI\<close>

record openai_options =
  oo_model :: "string option"
  oo_base_url :: "string option"
  oo_thinking :: bool
  oo_temperature :: "rat option"
  oo_parallel :: "bool option"
  oo_max_output :: "nat option"
  oo_max_images :: "nat option"
  oo_image_size :: "string option"
  oo_chat_completions :: bool
  oo_extra_body :: json
  oo_extra_headers :: json

record reasoning =
  effort :: string
  reasoning_summary :: string

record responses_request =
  rq_input :: "json list"
  rq_max_output :: "nat option"
  rq_model :: string
  rq_parallel :: "bool option"
  rq_cache_key :: "string option"
  rq_reasoning :: "reasoning option"
  rq_temperature :: "rat option"
  rq_tools :: "json list"
  rq_truncation :: string
  rq_extra_body :: json
  rq_extra_headers :: json

record chat_request =
  cq_messages :: "json list"
  cq_model :: string
  cq_max_output :: "nat option"
  cq_parallel :: "bool option"
  cq_cache_key :: "string option"
  cq_effort :: "string option"
  cq_temperature :: "rat option"
  cq_tools :: "json list"
  cq_extra_body :: json
  cq_extra_headers :: json

text \<open>
  A reply has a usage if it is there and true; \<open>error_set\<close> says that one of the attributes
  \<open>error\<close>, \<open>message\<close> and \<open>error_message\<close> is; \<open>refused\<close> that a part of the output is a refusal.
\<close>

record responses_reply =
  rr_usage :: "usage option"
  rr_error_set :: bool
  rr_refused :: bool
  rr_output :: "json list"

record chat_choice =
  choice_message :: json
  choice_refusal :: bool
  finish_reason :: string

record chat_reply =
  cr_usage :: "usage option"
  cr_error_set :: bool
  cr_choices :: "chat_choice list"

record 'w openai_sdk =
  create_response :: "responses_request \<Rightarrow> ('w, responses_reply) proc"
  create_chat :: "chat_request \<Rightarrow> ('w, chat_reply) proc"
  list_models :: "('w, string list) proc"
  close_openai :: "('w, unit) proc"

record openai_client =
  oc_model :: "string option"
  oc_client :: bool
  use_responses :: bool
  oc_counter :: "token_counter option"

definition openai_init :: "openai_options \<Rightarrow> token_counter option \<Rightarrow> openai_client" where
  "openai_init opts counter =
     \<lparr>oc_model = oo_model opts, oc_client = False, use_responses = \<not> oo_chat_completions opts,
      oc_counter = counter\<rparr>"

type_synonym ('w, 'a) openai_proc = "('w \<times> openai_client, 'a) proc"

definition on_client :: "('c, 'a) proc \<Rightarrow> ('w \<times> 'c, 'a) proc" where
  "on_client = zoom snd (\<lambda>c s. (fst s, c))"

definition openai_get_client :: "('w, unit) openai_proc" where
  "openai_get_client = on_client (modify (\<lambda>c. c\<lparr>oc_client := True\<rparr>))"

definition openai_get_model_name :: "'w openai_sdk \<Rightarrow> openai_options \<Rightarrow> ('w, string) openai_proc" where
  "openai_get_model_name sdk opts =
     bnd (on_client (gets oc_model)) (\<lambda>m.
     case m of
       Some name \<Rightarrow> ret name
     | None \<Rightarrow>
         if oo_base_url opts = None then raise ValueError
         else andthen openai_get_client
           (bnd (on_first (list_models sdk)) (\<lambda>names.
            case names of
              [] \<Rightarrow> raise ValueError
            | name # _ \<Rightarrow> andthen (on_client (modify (\<lambda>c. c\<lparr>oc_model := Some name\<rparr>))) (ret name))))"

definition starts_with :: "string \<Rightarrow> string \<Rightarrow> bool" where
  "starts_with p s \<longleftrightarrow> take (length p) s = p"

definition reasoning_for :: "bool \<Rightarrow> string \<Rightarrow> reasoning option" where
  "reasoning_for use_thinking name =
     (let model = normalize_model_name name None
      in if contains ''thinking'' model \<or> starts_with ''o'' model \<or> starts_with ''gpt-5'' model then
           (if starts_with ''gpt-5.1'' model \<and> \<not> use_thinking then None
            else Some \<lparr>effort = (if \<not> starts_with ''gpt-5-pro'' model then ''medium'' else ''high''),
                       reasoning_summary = (if \<not> starts_with ''computer-use'' model then ''auto'' else ''concise'')\<rparr>)
         else None)"

definition reasoning_params :: "'w openai_sdk \<Rightarrow> openai_options \<Rightarrow> ('w, reasoning option) openai_proc" where
  "reasoning_params sdk opts =
     bnd (openai_get_model_name sdk opts) (\<lambda>name. ret (reasoning_for (oo_thinking opts) name))"

definition openai_count :: "usage option \<Rightarrow> ('w, unit) openai_proc" where
  "openai_count usage =
     (case usage of
        None \<Rightarrow> ret ()
      | Some u \<Rightarrow> on_client (modify (\<lambda>c. c\<lparr>oc_counter := map_option (add_from_usage u) (oc_counter c)\<rparr>)))"

definition chat_result :: "chat_reply \<Rightarrow> client_output list res" where
  "chat_result reply =
     (if cr_error_set reply then Inl RuntimeError
      else case cr_choices reply of
        [] \<Rightarrow> Inl IndexError
      | c # _ \<Rightarrow>
          if choice_refusal c then Inl RuntimeError
          else if finish_reason c = ''content_filter'' then Inl RuntimeError
          else Inr [ChatOutput [choice_message c]])"

definition query_chat_completions ::
  "'w openai_sdk \<Rightarrow> imaging \<Rightarrow> 'm conversions \<Rightarrow> (json \<Rightarrow> json res) \<Rightarrow> openai_options
   \<Rightarrow> 'm conversation \<Rightarrow> json list option \<Rightarrow> string option \<Rightarrow> ('w, client_output list) openai_proc" where
  "query_chat_completions sdk P conv tool opts messages tools cache_key =
     andthen openai_get_client
     (bnd (openai_get_model_name sdk opts) (\<lambda>model.
      bnd (reasoning_params sdk opts) (\<lambda>thinking.
      bnd (lift_res (convert_messages (to_chat_input conv) False messages)) (\<lambda>ms.
      bnd (lift_res (filter_images P (oo_max_images opts) (oo_image_size opts) ms)) (\<lambda>ms.
      bnd (lift_res (convert_tools tool tools)) (\<lambda>ts.
      bnd (on_first (create_chat sdk
             \<lparr>cq_messages = ms, cq_model = model, cq_max_output = oo_max_output opts,
              cq_parallel = (if tools_given tools then oo_parallel opts else None), cq_cache_key = cache_key,
              cq_effort = map_option effort thinking,
              cq_temperature = (if thinking = None then oo_temperature opts else None), cq_tools = ts,
              cq_extra_body = oo_extra_body opts, cq_extra_headers = oo_extra_headers opts\<rparr>)) (\<lambda>reply.
      andthen (openai_count (cr_usage reply)) (lift_res (chat_result reply)))))))))"

text \<open>
  The name \<open>messages\<close> is bound to the converted documents when the request fails, so they are
  what the fallback is given; the cache key is not passed on.
\<close>

definition falls_back :: "py_error \<Rightarrow> bool" where
  "falls_back e \<longleftrightarrow> (case e of ApiError status \<Rightarrow> status = 400 \<or> 500 \<le> status | _ \<Rightarrow> False)"

definition response_result :: "responses_reply \<Rightarrow> client_output list res" where
  "response_result reply =
     (if rr_error_set reply \<or> rr_refused reply then Inl RuntimeError else Inr [ResponseOutput (rr_output reply)])"

definition query_responses ::
  "'w openai_sdk \<Rightarrow> imaging \<Rightarrow> 'm conversions \<Rightarrow> (json \<Rightarrow> json res) \<Rightarrow> (json \<Rightarrow> json res) \<Rightarrow> openai_options
   \<Rightarrow> 'm conversation \<Rightarrow> json list option \<Rightarrow> string option \<Rightarrow> ('w, client_output list) openai_proc" where
  "query_responses sdk P conv rtool ctool opts messages tools cache_key =
     andthen openai_get_client
     (bnd (openai_get_model_name sdk opts) (\<lambda>model.
      bnd (reasoning_params sdk opts) (\<lambda>thinking.
      bnd (lift_res (convert_messages (to_response_input conv) False messages)) (\<lambda>ms.
      bnd (lift_res (filter_images P (oo_max_images opts) (oo_image_size opts) ms)) (\<lambda>ms.
      bnd (catch
             (bnd (lift_res (convert_tools rtool tools)) (\<lambda>ts.
              bnd (on_first (create_response sdk
                \<lparr>rq_input = ms, rq_max_output = oo_max_output opts, rq_model = model,
                 rq_parallel = (if tools_given tools then oo_parallel opts else None), rq_cache_key = cache_key,
                 rq_reasoning = thinking,
                 rq_temperature = (if thinking = None then oo_temperature opts else None), rq_tools = ts,
                 rq_truncation = ''auto'', rq_extra_body = oo_extra_body opts,
                 rq_extra_headers = oo_extra_headers opts\<rparr>)) (\<lambda>reply. ret (Inl reply))))
             (\<lambda>e. if falls_back e then
                    andthen (on_client (modify (\<lambda>c. c\<lparr>use_responses := False\<rparr>)))
                      (bnd (query_chat_completions sdk P conv ctool opts (Documents ms) tools None)
                         (\<lambda>out. ret (Inr out)))
                  else raise e)) (\<lambda>r.
      case r of
        Inr out \<Rightarrow> ret out
      | Inl reply \<Rightarrow> andthen (openai_count (rr_usage reply)) (lift_res (response_result reply))))))))"

definition openai_query ::
  "'w openai_sdk \<Rightarrow> imaging \<Rightarrow> 'm conversions \<Rightarrow> (json \<Rightarrow> json res) \<Rightarrow> (json \<Rightarrow> json res) \<Rightarrow> openai_options
   \<Rightarrow> 'm list \<Rightarrow> json list option \<Rightarrow> string option \<Rightarrow> ('w, client_output list) openai_proc" where
  "openai_query sdk P conv rtool ctool opts messages tools cache_key =
     bnd (on_client (gets use_responses)) (\<lambda>b.
     if b then query_responses sdk P conv rtool ctool opts (Records messages) tools cache_key
     else query_chat_completions sdk P conv ctool opts (Records messages) tools cache_key)"

definition openai_close :: "'w openai_sdk \<Rightarrow> ('w, unit) openai_proc" where
  "openai_close sdk =
     bnd (on_client (gets oc_client)) (\<lambda>b.
     if b then andthen (on_first (close_openai sdk)) (on_client (modify (\<lambda>c. c\<lparr>oc_client := False\<rparr>)))
     else ret ())"

section \<open>Anthropic\<close>

record anthropic_options =
  ao_bedrock :: bool
  ao_model :: "string option"
  ao_api_key :: "string option"
  ao_override_url :: "string option"
  ao_thinking :: bool
  ao_computer_use :: bool
  ao_temperature :: "rat option"
  ao_parallel :: "bool option"
  ao_max_thinking :: nat
  ao_max_output :: "nat option"
  ao_max_images :: "nat option"
  ao_image_size :: "string option"
  ao_extra_body :: json
  ao_extra_headers :: json

text \<open>The HTTP client below the SDK: it pins the URL, restores the model, and sets the authorization.\<close>

definition build_request :: "anthropic_options \<Rightarrow> string \<times> json \<Rightarrow> string \<times> json" where
  "build_request opts r =
     ((case ao_override_url opts of Some u \<Rightarrow> u | None \<Rightarrow> fst r),
      (case (ao_model opts, snd r) of
         (Some m, JObj d) \<Rightarrow> JObj (dict_set ''model'' (JStr m) d)
       | _ \<Rightarrow> snd r))"

definition send_headers :: "anthropic_options \<Rightarrow> (string, string) dict \<Rightarrow> (string, string) dict" where
  "send_headers opts headers =
     (case (ao_override_url opts, ao_api_key opts) of
        (Some _, Some key) \<Rightarrow> dict_set ''Authorization'' (''Bearer '' @ key) headers
      | _ \<Rightarrow> headers)"

record messages_request =
  mq_model :: string
  mq_system :: "json list"
  mq_messages :: "json list"
  mq_max_tokens :: "nat option"
  mq_temperature :: "rat option"
  mq_thinking :: "nat option"
  mq_disable_parallel :: "bool option"
  mq_tools :: "json list"
  mq_betas :: "string list"
  mq_extra_body :: json
  mq_extra_headers :: json

record messages_reply =
  mr_usage :: "usage option"
  mr_error_set :: bool
  mr_stop_reason :: string
  mr_body :: json

record 'w anthropic_sdk =
  create_message :: "messages_request \<Rightarrow> ('w, messages_reply) proc"
  close_anthropic :: "('w, unit) proc"

record anthropic_client =
  ac_client :: bool
  ac_counter :: "token_counter option"

type_synonym ('w, 'a) anthropic_proc = "('w \<times> anthropic_client, 'a) proc"

definition betas :: "anthropic_options \<Rightarrow> string list" where
  "betas opts =
     (if ao_thinking opts then [''interleaved-thinking-2025-05-14''] else []) @
     (if ao_computer_use opts then [''computer-use-2025-01-24''] else [])"

definition anthropic_get_client :: "('w, unit) anthropic_proc" where
  "anthropic_get_client = on_client (modify (\<lambda>c. c\<lparr>ac_client := True\<rparr>))"

definition anthropic_get_model_name :: "anthropic_options \<Rightarrow> ('w, string) anthropic_proc" where
  "anthropic_get_model_name opts =
     (case ao_model opts of Some m \<Rightarrow> ret m | None \<Rightarrow> raise ValueError)"

text \<open>\<open>d['cache_control'] = ...\<close>: anything but a dictionary refuses the assignment.\<close>

fun with_cache_control :: "json \<Rightarrow> json res" where
  "with_cache_control (JObj d) = Inr (JObj (dict_set ''cache_control'' (JObj [(''type'', JStr ''ephemeral'')]) d))"
| "with_cache_control _ = Inl TypeError"

definition mark_last :: "json list \<Rightarrow> json list res" where
  "mark_last xs =
     (if xs = [] then Inr [] else rbind (with_cache_control (last xs)) (\<lambda>x. Inr (butlast xs @ [x])))"

definition mark_assistants :: "json list \<Rightarrow> json list res" where
  "mark_assistants =
     rmap (\<lambda>m. rbind (json_get m ''role'' JNull) (\<lambda>r.
       if r = JStr ''assistant'' then with_cache_control m else Inr m))"

definition messages_result :: "messages_reply \<Rightarrow> client_output list res" where
  "messages_result reply =
     (if mr_error_set reply \<or> mr_stop_reason reply = ''refusal'' then Inl RuntimeError
      else Inr [AnthropicOutput (mr_body reply)])"

definition anthropic_query ::
  "'w anthropic_sdk \<Rightarrow> imaging \<Rightarrow> 'm conversions \<Rightarrow> (json \<Rightarrow> json res) \<Rightarrow> anthropic_options
   \<Rightarrow> 'm list \<Rightarrow> json list option \<Rightarrow> string option \<Rightarrow> ('w, client_output list) anthropic_proc" where
  "anthropic_query sdk P conv tool opts messages tools cache_key =
     andthen anthropic_get_client
     (bnd (anthropic_get_model_name opts) (\<lambda>model.
      bnd (lift_res (rbind (convert_messages (to_anthropic_system conv) True (Records messages)) mark_last)) (\<lambda>system.
      bnd (lift_res (rbind (convert_messages (to_anthropic_input conv) True (Records messages)) mark_assistants)) (\<lambda>ms.
      bnd (lift_res (rbind (convert_tools tool tools) mark_last)) (\<lambda>ts.
      bnd (lift_res (filter_images P (ao_max_images opts) (ao_image_size opts) ms)) (\<lambda>ms.
      bnd (on_first (create_message sdk
             \<lparr>mq_model = model, mq_system = system, mq_messages = ms, mq_max_tokens = ao_max_output opts,
              mq_temperature = (if \<not> ao_thinking opts then ao_temperature opts else Some 1),
              mq_thinking = (if ao_thinking opts then Some (ao_max_thinking opts) else None),
              mq_disable_parallel = (if ts \<noteq> [] then Some (ao_parallel opts \<noteq> Some True) else None),
              mq_tools = ts, mq_betas = betas opts, mq_extra_body = ao_extra_body opts,
              mq_extra_headers = ao_extra_headers opts\<rparr>)) (\<lambda>reply.
      andthen
        (case mr_usage reply of
           None \<Rightarrow> ret ()
         | Some u \<Rightarrow> on_client (modify (\<lambda>c. c\<lparr>ac_counter := map_option (add_from_usage u) (ac_counter c)\<rparr>)))
        (lift_res (messages_result reply)))))))))"

definition anthropic_close :: "'w anthropic_sdk \<Rightarrow> ('w, unit) anthropic_proc" where
  "anthropic_close sdk =
     bnd (on_client (gets ac_client)) (\<lambda>b.
     if b then andthen (on_first (close_anthropic sdk)) (on_client (modify (\<lambda>c. c\<lparr>ac_client := False\<rparr>)))
     else ret ())"

section \<open>The dummy client, and the choice of a client\<close>

record dummy_client =
  dc_model :: "string option"
  dc_interval :: rat
  first_query :: bool

definition dummy_init :: "string option \<Rightarrow> rat \<Rightarrow> dummy_client" where
  "dummy_init model interval = \<lparr>dc_model = model, dc_interval = interval, first_query = True\<rparr>"

definition dummy_get_model_name :: "dummy_client \<Rightarrow> string" where
  "dummy_get_model_name c = (case dc_model c of Some m \<Rightarrow> m | None \<Rightarrow> ''dummy'')"

definition dummy_query :: "(rat \<Rightarrow> ('w, unit) proc) \<Rightarrow> ('w \<times> dummy_client, client_output list) proc" where
  "dummy_query sleep =
     bnd (on_client (gets id)) (\<lambda>c.
     andthen (if 0 < dc_interval c \<and> \<not> first_query c then on_first (sleep (dc_interval c)) else ret ())
     (andthen (on_client (modify (\<lambda>c. c\<lparr>first_query := False\<rparr>)))
     (ret [DummyOutput [JObj [(''role'', JStr ''assistant''), (''content'', JStr ''Are you done?'')]]])))"

datatype client_kind = OpenAI | Anthropic bool | Dummy

definition client_kind_of :: "string \<Rightarrow> client_kind res" where
  "client_kind_of provider =
     (if provider = ''openai'' then Inr OpenAI
      else if provider = ''anthropic'' then Inr (Anthropic False)
      else if provider = ''bedrock'' then Inr (Anthropic True)
      else if provider = ''dummy'' then Inr Dummy
      else Inl ValueError)"

record ('w, 'm) client_ops =
  op_model_name :: "('w, string) proc"
  op_query :: "'m list \<Rightarrow> ('w, client_output list) proc"

definition sanity_messages :: "json list list" where
  "sanity_messages =
     [[JObj [(''role'', JStr ''system''), (''content'', JStr ''You are a helpful assistant.'')]],
      [JObj [(''role'', JStr ''user''), (''content'', JStr ''Say hi.'')]]]"

text \<open>\<open>build\<close> validates the settings and constructs the client of a kind.\<close>

definition create_client ::
  "(client_kind \<Rightarrow> json \<Rightarrow> ('w, 'm) client_ops res) \<Rightarrow> (json list \<Rightarrow> 'm) \<Rightarrow> string \<Rightarrow> json
   \<Rightarrow> ('w, ('w, 'm) client_ops) proc" where
  "create_client build chat_record provider settings =
     bnd (lift_res (client_kind_of provider)) (\<lambda>kind.
     bnd (lift_res (build kind settings)) (\<lambda>client.
     andthen (op_model_name client)
     (andthen (op_query client (map chat_record sanity_messages)) (ret client))))"

section \<open>What is sent\<close>

lemma bnd_lift_cong:
  "(\<And>x. r = Inr x \<Longrightarrow> f x = g x) \<Longrightarrow> bnd (lift_res r) f = bnd (lift_res r) g"
  by (rule ext, cases r) (simp_all add: lift_res_def)

lemma bnd_cong_all: "(\<And>x. f x = g x) \<Longrightarrow> bnd m f = bnd m g"
  by (rule arg_cong [where f = "bnd m"], rule ext)

lemma bnd_request_cong: "m = m' \<Longrightarrow> bnd (on_first m) f = bnd (on_first m') f"
  by simp

lemma bnd_first_cong: "m = m' \<Longrightarrow> bnd (catch m h) f = bnd (catch m' h) f"
  by simp

definition images_in :: "json list \<Rightarrow> nat" where
  "images_in ms = length (concat (map images_of_message ms))"

lemma filter_images_bound:
  assumes "filter_images P (Some n) None ms = Inr ms'"
  shows "images_in ms' \<le> n"
proof -
  from assms obtain k where "from_end (trim_message n) ms 0 = Inr (ms', k)"
    by (auto simp: filter_images_def trim_images_def rbind_def split: sum.splits)
  from keeps_last_from_end [OF keeps_last_message this] show ?thesis
    by (simp add: images_in_def lastn_def)
qed

text \<open>
  What every request looks like: a temperature only without reasoning, a choice on parallel calls only with
  tools, and no more images than allowed.
\<close>

definition request_fits ::
  "openai_options \<Rightarrow> json list \<Rightarrow> bool \<Rightarrow> rat option \<Rightarrow> bool option \<Rightarrow> json list \<Rightarrow> bool" where
  "request_fits opts ms reasons temp par ts \<longleftrightarrow>
     (reasons \<longrightarrow> temp = None) \<and> (ts = [] \<longrightarrow> par = None) \<and>
     (case oo_max_images opts of Some n \<Rightarrow> oo_image_size opts = None \<longrightarrow> images_in ms \<le> n | None \<Rightarrow> True)"

definition response_fits :: "openai_options \<Rightarrow> responses_request \<Rightarrow> bool" where
  "response_fits opts q \<longleftrightarrow>
     request_fits opts (rq_input q) (rq_reasoning q \<noteq> None) (rq_temperature q) (rq_parallel q) (rq_tools q)"

definition chat_fits :: "openai_options \<Rightarrow> chat_request \<Rightarrow> bool" where
  "chat_fits opts q \<longleftrightarrow>
     request_fits opts (cq_messages q) (cq_effort q \<noteq> None) (cq_temperature q) (cq_parallel q) (cq_tools q)"

lemma no_tools_converted: "convert_tools f tools = Inr [] \<Longrightarrow> \<not> tools_given tools"
proof -
  have "convert_all (\<lambda>t. rbind (f t) (\<lambda>x. Inr [x])) False ts = Inr [] \<Longrightarrow> ts = []" for ts
    by (cases ts) (auto simp: rbind_def split: sum.splits)
  then show "convert_tools f tools = Inr [] \<Longrightarrow> \<not> tools_given tools"
    by (auto simp: convert_tools_def tools_given_def split: option.splits)
qed

lemma built_request_fits:
  assumes "filter_images P (oo_max_images opts) (oo_image_size opts) ms = Inr ms'"
    and "convert_tools f tools = Inr ts"
  shows "request_fits opts ms' (thinking \<noteq> None) (if thinking = None then oo_temperature opts else None)
    (if tools_given tools then oo_parallel opts else None) ts"
  using assms filter_images_bound [of P _ ms ms'] no_tools_converted [of f tools]
  by (auto simp: request_fits_def split: option.split)

lemma same_on_fitting:
  assumes "\<And>q. response_fits opts q \<Longrightarrow> create_response sdk q = create_response sdk' q"
    and "\<And>q. chat_fits opts q \<Longrightarrow> create_chat sdk q = create_chat sdk' q"
    and "list_models sdk = list_models sdk'"
  shows "openai_query sdk P conv rtool ctool opts messages tools key =
         openai_query sdk' P conv rtool ctool opts messages tools key"
proof -
  have name: "openai_get_model_name sdk opts = openai_get_model_name sdk' opts"
    unfolding openai_get_model_name_def assms(3) ..
  then have params: "reasoning_params sdk opts = reasoning_params sdk' opts"
    by (simp add: reasoning_params_def)
  have chat: "query_chat_completions sdk P conv ctool opts ms tools key =
      query_chat_completions sdk' P conv ctool opts ms tools key" for ms key
    unfolding query_chat_completions_def name params
    by (rule arg_cong [where f = "andthen openai_get_client"],
        (rule bnd_lift_cong bnd_request_cong bnd_cong_all refl assms(2))+)
      (simp only: chat_fits_def chat_request.simps map_option_is_None, rule built_request_fits, assumption+)
  have resp: "query_responses sdk P conv rtool ctool opts ms tools key =
      query_responses sdk' P conv rtool ctool opts ms tools key" for ms key
    unfolding query_responses_def name params chat
    by (rule arg_cong [where f = "andthen openai_get_client"],
        (rule bnd_lift_cong bnd_first_cong bnd_request_cong bnd_cong_all refl assms(1))+)
      (simp only: response_fits_def responses_request.simps, rule built_request_fits, assumption+)
  show ?thesis unfolding openai_query_def chat resp ..
qed


text \<open>The SDK behind a check that refuses what does not fit.\<close>

definition strict_sdk :: "openai_options \<Rightarrow> 'w openai_sdk \<Rightarrow> 'w openai_sdk" where
  "strict_sdk opts sdk = sdk
     \<lparr>create_response := (\<lambda>q. if response_fits opts q then create_response sdk q else raise ValueError),
      create_chat := (\<lambda>q. if chat_fits opts q then create_chat sdk q else raise ValueError)\<rparr>"

text \<open>
  Every request the OpenAI client sends, on either API and in the fallback, fits: no
  temperature when it asks for reasoning, no choice on parallel calls without tools, and no more images
  than allowed. So a check of the requests in front of the SDK changes nothing.
\<close>

lemma openai_requests_fit:
  "openai_query (strict_sdk opts sdk) P conv rtool ctool opts messages tools key =
   openai_query sdk P conv rtool ctool opts messages tools key"
  by (rule same_on_fitting) (simp_all add: strict_sdk_def)

section \<open>The fallback\<close>

text \<open>
  A request that the Responses API refuses is not answered by the fallback: the documents it hands on have
  no conversion. From then on the client keeps to chat completions.
\<close>

lemma documents_do_not_convert: "ms \<noteq> [] \<Longrightarrow> convert_messages f b (Documents ms) = Inl AttributeError"
  by (simp add: convert_messages_def)

lemma openai_get_client_run: "openai_get_client (w, c) = (Inr (), (w, c\<lparr>oc_client := True\<rparr>))"
  by (simp add: openai_get_client_def on_client_def zoom_def modify_def)

lemma known_model_name: "oc_model c = Some m \<Longrightarrow> openai_get_model_name sdk opts (w, c) = (Inr m, (w, c))"
  by (simp add: openai_get_model_name_def on_client_def zoom_def gets_def bnd_def ret_def)

lemma known_reasoning:
  "oc_model c = Some m \<Longrightarrow> reasoning_params sdk opts (w, c) = (Inr (reasoning_for (oo_thinking opts) m), (w, c))"
  by (simp add: reasoning_params_def bnd_def known_model_name ret_def)

lemmas openai_steps = openai_get_client_run known_model_name known_reasoning andthen_def bnd_def lift_res_def
  ret_def raise_def on_first_def on_client_def zoom_def modify_def gets_def

lemma documents_are_refused:
  assumes "ms \<noteq> []" and "oc_model c = Some m"
  shows "query_chat_completions sdk P conv ctool opts (Documents ms) tools key (w, c) =
    (Inl AttributeError, (w, c\<lparr>oc_client := True\<rparr>))"
  using assms by (simp add: query_chat_completions_def openai_steps documents_do_not_convert)

text \<open>
  C31: When the Responses API refuses a request as bad, or fails as a server, the query ends
  with an attribute error whatever the chat API would answer: the fallback converts what is converted
  already. The client is left on chat completions.
\<close>

theorem fallback_never_answers:
  assumes "use_responses c" and "oc_model c = Some m"
    and "convert_messages (to_response_input conv) False (Records messages) = Inr ds"
    and "filter_images P (oo_max_images opts) (oo_image_size opts) ds = Inr ms" and "ms \<noteq> []"
    and "convert_tools rtool tools = Inr ts"
    and "\<And>q. create_response sdk q w = (Inl e, w')" and "falls_back e"
  shows "openai_query sdk P conv rtool ctool opts messages tools key (w, c) =
    (Inl AttributeError, (w', c\<lparr>oc_client := True, use_responses := False\<rparr>))"
proof -
  have "e \<noteq> StillRunning" using assms(8) by (auto simp: falls_back_def)
  then show ?thesis
    using assms by (simp add: openai_query_def query_responses_def openai_steps catch_def documents_are_refused)
qed


definition plain_options :: openai_options where
  "plain_options =
     \<lparr>oo_model = Some ''gpt-4o'', oo_base_url = None, oo_thinking = True, oo_temperature = Some 1,
      oo_parallel = Some True, oo_max_output = None, oo_max_images = None, oo_image_size = None,
      oo_chat_completions = False, oo_extra_body = JNull, oo_extra_headers = JNull\<rparr>"

definition failing_sdk :: "unit openai_sdk" where
  "failing_sdk =
     \<lparr>create_response = (\<lambda>q. raise (ApiError 400)),
      create_chat = (\<lambda>q. ret \<lparr>cr_usage = None, cr_error_set = False,
        cr_choices = [\<lparr>choice_message = JStr ''hi'', choice_refusal = False, finish_reason = ''stop''\<rparr>]\<rparr>),
      list_models = ret [], close_openai = ret ()\<rparr>"

definition plain_conversions :: "string conversions" where
  "plain_conversions =
     \<lparr>to_anthropic_system = (\<lambda>m. Inl ConversionError), to_anthropic_input = (\<lambda>m. Inr [JStr m]),
      to_response_input = (\<lambda>m. Inr [JStr m]), to_chat_input = (\<lambda>m. Inr [JStr m])\<rparr>"

theorem fallback_never_answers_witness:
  "\<forall>P. openai_query failing_sdk P plain_conversions Inr Inr plain_options [''hello''] None None
     ((), openai_init plain_options None) =
   (Inl AttributeError,
    ((), (openai_init plain_options None)\<lparr>oc_client := True, use_responses := False\<rparr>))"
  using fallback_never_answers [of "openai_init plain_options None" "''gpt-4o''" plain_conversions "[''hello'']"
      "[JStr ''hello'']" _ plain_options "[JStr ''hello'']" Inr None "[]" failing_sdk "()" "ApiError 400" "()"
      Inr None]
  by (simp add: openai_init_def plain_options_def convert_messages_def plain_conversions_def rbind_def
      filter_images_def convert_tools_def failing_sdk_def falls_back_def raise_def)

section \<open>Tokens and state\<close>

text \<open>The tokens of a reply are counted before it is looked at: an answer that is an error counts.\<close>

lemma tokens_counted_first:
  assumes "oc_model c = Some m" and "convert_messages (to_chat_input conv) False messages = Inr ds"
    and "filter_images P (oo_max_images opts) (oo_image_size opts) ds = Inr ms"
    and "convert_tools ctool tools = Inr ts"
    and "\<And>q. create_chat sdk q w = (Inr reply, w')" and "cr_usage reply = Some u" and "oc_counter c = Some t"
  shows "query_chat_completions sdk P conv ctool opts messages tools key (w, c) =
    (chat_result reply, (w', c\<lparr>oc_client := True, oc_counter := Some (add_from_usage u t)\<rparr>))"
  using assms
  by (cases "chat_result reply") (simp_all add: query_chat_completions_def openai_steps openai_count_def)

text \<open>A model that is listed once is kept, whatever the listing says later.\<close>

lemma listed_model_is_kept:
  assumes "openai_get_model_name sdk opts s = (Inr m, s')"
  shows "oc_model (snd s') = Some m \<and> openai_get_model_name sdk' opts s' = (Inr m, s')"
proof -
  obtain w c where s: "s = (w, c)" by (cases s)
  from assms have "oc_model (snd s') = Some m"
    by (auto simp: openai_get_model_name_def openai_get_client_def s openai_steps
        split: option.splits if_splits list.splits sum.splits prod.splits)
  then show ?thesis by (cases s') (simp add: known_model_name)
qed

text \<open>The first query of a dummy does not wait; each later one waits for the interval.\<close>

lemma dummy_waits_after_first:
  "dummy_query sleep (w, dummy_init model interval) =
     (Inr [DummyOutput [JObj [(''role'', JStr ''assistant''), (''content'', JStr ''Are you done?'')]]],
      (w, (dummy_init model interval)\<lparr>first_query := False\<rparr>))"
  "0 < dc_interval c \<Longrightarrow> \<not> first_query c \<Longrightarrow> sleep (dc_interval c) w = (Inr (), w') \<Longrightarrow>
     snd (dummy_query sleep (w, c)) = (w', c)"
  by (simp_all add: dummy_query_def dummy_init_def openai_steps)

text \<open>A client exists for four names of providers only.\<close>

lemma unknown_provider: "client_kind_of p = Inl ValueError \<longleftrightarrow> p \<notin> {''openai'', ''anthropic'', ''bedrock'', ''dummy''}"
  by (simp add: client_kind_of_def)

end
