(* ===== verification/Session_Tasks.thy ===== *)
theory Session_Tasks
  imports Encoding
begin

text \<open>
  The requests an agent makes to a task worker (trainer/src/agentrl/trainer/agentic/tasks.py). The HTTP
  session and the random pauses are a record of calls; a reply whose body is no document raises when
  it is decoded. Only exceptions are caught, a cancellation is not one.
\<close>

record reply =
  status_code :: int
  decoded :: "json res"
  reply_headers :: "(string, string) dict"

record 'w session_http =
  post :: "string \<Rightarrow> json \<Rightarrow> (string, string) dict \<Rightarrow> ('w, reply) proc"
  pause_between :: "nat \<Rightarrow> nat \<Rightarrow> ('w, unit) proc"

text \<open>What a reply to the start of a sample gives.\<close>

definition started_reply :: "reply \<Rightarrow> (string, json) dict res" where
  "started_reply r =
     (case decoded r of
        Inl e \<Rightarrow> Inl e
      | Inr answer \<Rightarrow>
          if 400 \<le> status_code r then Inl HTTPStatusError
          else case dict_get (reply_headers r) ''session_id'' of
            None \<Rightarrow> Inl KeyError
          | Some sid \<Rightarrow>
              (case answer of
                 JObj d \<Rightarrow>
                   (case dict_get d ''messages'' of
                      None \<Rightarrow> Inl KeyError
                    | Some ms \<Rightarrow> if json_truth ms then Inr (dict_set ''sid'' (JStr sid) d) else Inl AssertionError)
               | _ \<Rightarrow> Inl TypeError))"

definition start_attempt :: "'w session_http \<Rightarrow> json \<Rightarrow> string \<Rightarrow> string \<Rightarrow> ('w, (string, json) dict) proc" where
  "start_attempt H index name url =
     bnd (post H (url @ ''/start_sample'') (JObj [(''index'', index), (''name'', JStr name)]) [])
       (\<lambda>r. lift_res (started_reply r))"

primrec start_attempts :: "'w session_http \<Rightarrow> json \<Rightarrow> string \<Rightarrow> string \<Rightarrow> nat \<Rightarrow> ('w, (string, json) dict) proc" where
  "start_attempts H index name url 0 = raise NotImplementedError"
| "start_attempts H index name url (Suc n) =
     catch (start_attempt H index name url)
       (\<lambda>e. if e = CancelledError \<or> n = 0 then raise e
            else andthen (pause_between H 1 10) (start_attempts H index name url n))"

definition openai_chat_start :: "'w session_http \<Rightarrow> json \<Rightarrow> string \<Rightarrow> string \<Rightarrow> ('w, (string, json) dict) proc" where
  "openai_chat_start H index name url =
     andthen (pause_between H 0 3) (start_attempts H index name url 5)"

definition with_metrics :: "json \<Rightarrow> json res" where
  "with_metrics answer =
     (case answer of
        JObj d \<Rightarrow>
          (case dict_get_or d ''metrics'' (JObj []) of
             JObj m \<Rightarrow> Inr (JObj (dict_set ''metrics'' (JObj (dict_set ''client_observation_times'' (JInt 1) m)) d))
           | _ \<Rightarrow> Inl TypeError)
      | _ \<Rightarrow> Inl AttributeError)"

definition openai_chat_obs :: "'w session_http \<Rightarrow> json \<Rightarrow> string \<Rightarrow> string \<Rightarrow> ('w, json) proc" where
  "openai_chat_obs H message sid url =
     bnd (post H (url @ ''/interact'') (JObj [(''messages'', JList [message])]) [(''session_id'', sid)]) (\<lambda>r.
     if status_code r \<noteq> 200 then raise AssertionError
     else bnd (lift_res (decoded r)) (\<lambda>answer. lift_res (with_metrics answer)))"

definition openai_chat_end :: "'w session_http \<Rightarrow> string \<Rightarrow> bool \<Rightarrow> string \<Rightarrow> ('w, unit) proc" where
  "openai_chat_end H sid finished url =
     (if finished then ret ()
      else catch (bnd (post H (url @ ''/cancel'') (JObj []) [(''session_id'', sid)]) (\<lambda>_. ret ()))
        (\<lambda>e. if e = CancelledError then raise e else ret ()))"

section \<open>Attempts\<close>

text \<open>A session that counts the requests.\<close>

definition counting :: "'w session_http \<Rightarrow> ('w \<times> nat) session_http" where
  "counting H =
     \<lparr>post = (\<lambda>u p h. bnd (modify (\<lambda>s. (fst s, Suc (snd s)))) (\<lambda>_. on_first (post H u p h))),
      pause_between = (\<lambda>a b. on_first (pause_between H a b))\<rparr>"

lemma pause_counted: "pause_between (counting H) a b = on_first (pause_between H a b)"
  by (simp add: counting_def)

lemma attempts_counted:
  "wp (start_attempts (counting H) index name url n) (\<lambda>_ s. snd s \<le> k + n) (\<lambda>_ s. snd s \<le> k + n) (w, k)"
proof (induction n arbitrary: w k)
  case (Suc n)
  have attempt: "wp (start_attempt (counting H) index name url) Q F (w, k)"
    if "\<And>x v. Q x (v, Suc k)" "\<And>e v. F e (v, Suc k)" for Q F
    unfolding start_attempt_def counting_def
    by (simp add: wp_on_first, rule wp_any) (use that in \<open>auto split: sum.split\<close>)
  have later: "wp (start_attempts (counting H) index name url n) (\<lambda>_ s. snd s \<le> k + Suc n)
      (\<lambda>_ s. snd s \<le> k + Suc n) (v, Suc k)" for v
    by (rule wp_mono [OF Suc.IH]) simp_all
  show ?case
    by (simp, rule attempt) (auto simp: pause_counted intro!: wp_first_any later [simplified])
qed simp

text \<open>A sample is started with at most five requests.\<close>

lemma start_is_bounded:
  "wp (openai_chat_start (counting H) index name url) (\<lambda>_ s. snd s \<le> 5) (\<lambda>_ s. snd s \<le> 5) (w, 0)"
proof -
  have "wp (start_attempts (counting H) index name url 5) (\<lambda>_ s. snd s \<le> 5) (\<lambda>_ s. snd s \<le> 5) (v, 0)" for v
    using attempts_counted [of H index name url 5 0 v] by simp
  then show ?thesis
    unfolding openai_chat_start_def wp_andthen pause_counted by (intro wp_first_any) simp_all
qed

text \<open>
  A worker that starts a session at each request and has no messages to give: the call opens five
  sessions, cancels none, and raises.
\<close>

definition empty_starts :: "nat session_http" where
  "empty_starts =
     \<lparr>post = (\<lambda>u p h n. (Inr \<lparr>status_code = 200, decoded = Inr (JObj [(''messages'', JList [])]),
        reply_headers = [(''session_id'', nat_str n)]\<rparr>, Suc n)),
      pause_between = (\<lambda>a b. ret ())\<rparr>"

lemma retries_leave_sessions: "openai_chat_start empty_starts index name url n = (Inl AssertionError, n + 5)"
proof -
  have "start_attempt empty_starts index name url k = (Inl AssertionError, Suc k)" for k
    by (simp add: start_attempt_def empty_starts_def bnd_def started_reply_def lift_res_def raise_def)
  moreover have "pause_between empty_starts a b = ret ()" for a b by (simp add: empty_starts_def)
  ultimately show ?thesis
    by (simp add: openai_chat_start_def andthen_def bnd_def ret_def catch_def raise_def eval_nat_numeral)
qed

text \<open>Ending a session does not fail, whatever the worker answers.\<close>

lemma end_never_fails:
  assumes "fst (openai_chat_end H sid finished url w) = Inl e" shows "e = CancelledError \<or> e = StillRunning"
  using assms
  by (auto simp: openai_chat_end_def catch_def bnd_def ret_def raise_def split: if_splits sum.splits prod.splits)

lemma observation_counts:
  assumes "post H (url @ ''/interact'') (JObj [(''messages'', JList [m])]) [(''session_id'', sid)] w = (Inr r, w')"
    and "status_code r = 200" and "decoded r = Inr (JObj d)" and "dict_get d ''metrics'' = None"
  shows "openai_chat_obs H m sid url w =
    (Inr (JObj (dict_set ''metrics'' (JObj [(''client_observation_times'', JInt 1)]) d)), w')"
  using assms by (simp add: openai_chat_obs_def bnd_def lift_res_def with_metrics_def dict_get_or_def ret_def)

end
