(* ===== verification/Event_Bus.thy ===== *)
theory Event_Bus
  imports Prelude
begin

text \<open>
  The event bus of the evaluation (eval/src/agentrl/eval/event/bus.py). Listeners are called in the
  order in which the set is listed; what a call returns is nothing or a coroutine, which runs later.
  The second part is \<open>wait_for\<close> as steps between awaits: subscribing, the delivery of an event to the
  listeners of waiting tasks, and the resumption of a task with its event or by its timeout.
\<close>

section \<open>Listeners\<close>

type_synonym ('k, 'l) bus = "('k, 'l set) dict"

definition subscribe :: "'k \<Rightarrow> 'l \<Rightarrow> ('k, 'l) bus \<Rightarrow> ('k, 'l) bus" where
  "subscribe event_type l bus = dict_set event_type (insert l (dict_get_or bus event_type {})) bus"

definition unsubscribe :: "'k \<Rightarrow> 'l \<Rightarrow> ('k, 'l) bus \<Rightarrow> ('k, 'l) bus" where
  "unsubscribe event_type l bus =
     (case dict_get bus event_type of None \<Rightarrow> bus | Some ls \<Rightarrow> dict_set event_type (ls - {l}) bus)"

definition listeners_of :: "('k, 'l) bus \<Rightarrow> 'k \<Rightarrow> 'l set" where
  "listeners_of bus event_type = dict_get_or bus event_type {}"

section \<open>Publishing\<close>

text \<open>
  Exceptions of listeners and of their coroutines are logged; a cancellation passes
  through the call of a listener, but not through \<open>gather\<close>. The coroutines run one after the other.
\<close>

definition call_listener :: "('l \<Rightarrow> ('w, ('w, unit) proc option) proc) \<Rightarrow> 'l \<Rightarrow> ('w, unit) proc list \<Rightarrow> ('w, ('w, unit) proc list) proc" where
  "call_listener call l futures =
     catch (bnd (call l) (\<lambda>c. ret (case c of None \<Rightarrow> futures | Some f \<Rightarrow> futures @ [f])))
       (\<lambda>e. if e = CancelledError then raise e else ret futures)"

definition gather :: "('w, unit) proc list \<Rightarrow> ('w, unit) proc" where
  "gather = each (\<lambda>f. catch f (\<lambda>_. ret ()))"

definition publish :: "('l set \<Rightarrow> 'l list) \<Rightarrow> ('l \<Rightarrow> ('w, ('w, unit) proc option) proc) \<Rightarrow> ('k, 'l) bus \<Rightarrow> 'k \<Rightarrow> ('w, unit) proc" where
  "publish listing call bus event_type =
     bnd (fold_proc (call_listener call) (listing (listeners_of bus event_type)) []) gather"

section \<open>Waiting for an event\<close>

datatype 'e phase = Waiting | Got 'e | Returned 'e | TimedOut

record ('k, 'e) waiter =
  wanted :: 'k
  check :: "'e \<Rightarrow> bool"
  state :: "'e phase"

record ('k, 'e) world =
  bus :: "('k, nat) bus"
  waiters :: "('k, 'e) waiter list"

datatype ('k, 'e) event_step = WaitFor 'k "'e \<Rightarrow> bool" | Publish 'e | Resume nat | Timeout nat

text \<open>The listener of a task sets its future unless it is set.\<close>

definition deliver :: "'e \<Rightarrow> nat set \<Rightarrow> ('k, 'e) waiter list \<Rightarrow> ('k, 'e) waiter list" where
  "deliver e ls ws =
     map (\<lambda>(i, w). if i \<in> ls \<and> check w e \<and> state w = Waiting then w\<lparr>state := Got e\<rparr> else w)
       (zip [0..<length ws] ws)"

definition leave :: "nat \<Rightarrow> 'e phase \<Rightarrow> ('k, 'e) world \<Rightarrow> ('k, 'e) world" where
  "leave i p v =
     (let w = waiters v ! i
      in v\<lparr>bus := unsubscribe (wanted w) i (bus v), waiters := (waiters v)[i := w\<lparr>state := p\<rparr>]\<rparr>)"

definition bus_step :: "('e \<Rightarrow> 'k) \<Rightarrow> ('k, 'e) event_step \<Rightarrow> ('k, 'e) world \<Rightarrow> ('k, 'e) world" where
  "bus_step type_of s v =
     (case s of
        WaitFor k c \<Rightarrow>
          v\<lparr>bus := subscribe k (length (waiters v)) (bus v),
            waiters := waiters v @ [\<lparr>wanted = k, check = c, state = Waiting\<rparr>]\<rparr>
      | Publish e \<Rightarrow> v\<lparr>waiters := deliver e (listeners_of (bus v) (type_of e)) (waiters v)\<rparr>
      | Resume i \<Rightarrow>
          if i < length (waiters v)
          then (case state (waiters v ! i) of Got e \<Rightarrow> leave i (Returned e) v | _ \<Rightarrow> v) else v
      | Timeout i \<Rightarrow>
          if i < length (waiters v)
          then (case state (waiters v ! i) of Waiting \<Rightarrow> leave i TimedOut v | _ \<Rightarrow> v) else v)"

definition bus_run :: "('e \<Rightarrow> 'k) \<Rightarrow> ('k, 'e) event_step list \<Rightarrow> ('k, 'e) world" where
  "bus_run type_of ss = foldl (\<lambda>v s. bus_step type_of s v) \<lparr>bus = [], waiters = []\<rparr> ss"

section \<open>Facts on publishing\<close>

lemma listeners_after:
  "listeners_of (subscribe k l b) k' = (if k' = k then insert l (listeners_of b k) else listeners_of b k')"
  "listeners_of (unsubscribe k l b) k' = (if k' = k then listeners_of b k - {l} else listeners_of b k')"
  by (auto simp: listeners_of_def subscribe_def unsubscribe_def dict_get_or_def split: option.splits)

text \<open>Whatever listeners raise, short of a cancellation, every one of them is called.\<close>

lemma publish_calls_all:
  assumes "\<And>l w. l \<in> listeners_of b k \<Longrightarrow> \<exists>r. call l w = (r, l # w) \<and> r \<noteq> Inl CancelledError \<and> r \<noteq> Inl StillRunning"
    and "\<And>l w c f. call l w = (Inr (Some f), c) \<Longrightarrow> f = ret ()"
    and "set (listing (listeners_of b k)) = listeners_of b k"
  shows "publish listing call b k w = (Inr (), rev (listing (listeners_of b k)) @ w)"
proof -
  define idle where "idle f \<longleftrightarrow> f = ret ()" for f :: "('a list, unit) proc"
  have "\<exists>gs. fold_proc (call_listener call) ls fs w = (Inr gs, rev ls @ w) \<and> (\<forall>g \<in> set gs. idle g)"
    if "set ls \<subseteq> listeners_of b k" "\<forall>f \<in> set fs. idle f" for ls fs w
    using that
  proof (induction ls arbitrary: fs w)
    case (Cons l ls)
    obtain r where r: "call l w = (r, l # w)" "r \<noteq> Inl CancelledError" "r \<noteq> Inl StillRunning"
      using assms(1) [of l w] Cons.prems by auto
    obtain fs' where "call_listener call l fs w = (Inr fs', l # w)" "\<forall>f \<in> set fs'. idle f"
      using r assms(2) [of l w, folded idle_def] Cons.prems(2)
      by (cases r) (auto simp: call_listener_def catch_def bnd_def ret_apply split: option.splits)
    then show ?case
      using Cons.IH [of fs' "l # w"] Cons.prems by (simp add: bnd_def)
  qed (simp add: ret_def)
  from this [of "listing (listeners_of b k)" "[]" w] assms(3)
  obtain gs where "fold_proc (call_listener call) (listing (listeners_of b k)) [] w = (Inr gs, rev (listing (listeners_of b k)) @ w)"
      "\<forall>g \<in> set gs. idle g" by auto
  moreover have "gather gs v = (Inr (), v)" if "\<forall>g \<in> set gs. idle g" for gs v
    using that by (induction gs arbitrary: v) (auto simp: gather_def andthen_def bnd_def catch_def ret_def idle_def)
  ultimately show ?thesis by (simp add: publish_def bnd_def)
qed

section \<open>Facts on waiting\<close>

lemma length_deliver [simp]: "length (deliver e ls ws) = length ws"
  by (simp add: deliver_def)

lemma deliver_nth:
  "i < length ws \<Longrightarrow> deliver e ls ws ! i =
     (if i \<in> ls \<and> check (ws ! i) e \<and> state (ws ! i) = Waiting then (ws ! i)\<lparr>state := Got e\<rparr> else ws ! i)"
  by (simp add: deliver_def)

text \<open>The listeners are those of the tasks that have not left.\<close>

definition bus_inv :: "('k, 'e) world \<Rightarrow> bool" where
  "bus_inv v \<longleftrightarrow>
     (\<forall>k. listeners_of (bus v) k =
        {i. i < length (waiters v) \<and> wanted (waiters v ! i) = k \<and>
            (state (waiters v ! i) = Waiting \<or> (\<exists>e. state (waiters v ! i) = Got e))})"

lemma leave_inv:
  assumes "bus_inv v" and "i < length (waiters v)" and "p = TimedOut \<or> (\<exists>e. p = Returned e)"
  shows "bus_inv (leave i p v)"
  unfolding bus_inv_def
proof (intro allI set_eqI iffI)
  fix k j
  { assume "j \<in> listeners_of (bus (leave i p v)) k"
    then have "j \<noteq> i \<and> j \<in> listeners_of (bus v) k"
      using assms(1,2) by (auto simp: leave_def Let_def listeners_after bus_inv_def split: if_splits)
    then show "j \<in> {j. j < length (waiters (leave i p v)) \<and> wanted (waiters (leave i p v) ! j) = k \<and>
        (state (waiters (leave i p v) ! j) = Waiting \<or> (\<exists>e. state (waiters (leave i p v) ! j) = Got e))}"
      using assms(1) by (auto simp: leave_def Let_def bus_inv_def) }
  { assume j: "j \<in> {j. j < length (waiters (leave i p v)) \<and> wanted (waiters (leave i p v) ! j) = k \<and>
        (state (waiters (leave i p v) ! j) = Waiting \<or> (\<exists>e. state (waiters (leave i p v) ! j) = Got e))}"
    have "j \<noteq> i" using j assms(2,3) by (auto simp: leave_def Let_def)
    then have "j \<in> listeners_of (bus v) k" using j assms(1) by (auto simp: leave_def Let_def bus_inv_def)
    then show "j \<in> listeners_of (bus (leave i p v)) k"
      using \<open>j \<noteq> i\<close> by (auto simp: leave_def Let_def listeners_after) }
qed

lemma bus_step_inv:
  assumes "bus_inv v" shows "bus_inv (bus_step type_of s v)"
proof (cases s)
  case (WaitFor k c)
  then show ?thesis
    using assms by (auto simp: bus_step_def bus_inv_def listeners_after nth_append less_Suc_eq)
next
  case (Publish e)
  then show ?thesis
    using assms by (auto simp: bus_step_def bus_inv_def deliver_nth split: if_splits)
next
  case (Resume i)
  then show ?thesis
    using assms by (auto simp: bus_step_def intro: leave_inv split: phase.split)
next
  case (Timeout i)
  then show ?thesis
    using assms by (auto simp: bus_step_def intro: leave_inv split: phase.split)
qed

lemma bus_run_inv: "bus_inv (bus_run type_of ss)"
proof -
  have "bus_inv v \<Longrightarrow> bus_inv (foldl (\<lambda>v s. bus_step type_of s v) v ss)" for v
    by (induction ss arbitrary: v) (simp_all add: bus_step_inv)
  then show ?thesis by (simp add: bus_run_def bus_inv_def listeners_of_def dict_get_or_def)
qed

text \<open>A task that has left has no listener: waiting leaves nothing behind, also after a timeout.\<close>

lemma no_listener_left:
  assumes "i < length (waiters (bus_run type_of ss))"
    and "state (waiters (bus_run type_of ss) ! i) = TimedOut \<or> (\<exists>e. state (waiters (bus_run type_of ss) ! i) = Returned e)"
  shows "i \<notin> listeners_of (bus (bus_run type_of ss)) k"
  using bus_run_inv [of type_of ss] assms by (auto simp: bus_inv_def)

text \<open>The events of a list of steps.\<close>

fun published :: "('k, 'e) event_step list \<Rightarrow> 'e list" where
  "published [] = []"
| "published (Publish e # ss) = e # published ss"
| "published (_ # ss) = published ss"

text \<open>
  A task that waits gets the first event of its type after its subscription that passes its check,
  whatever else happens on the bus.
\<close>

lemma waits_for_first:
  assumes "bus_inv v" and "i < length (waiters v)" and "waiters v ! i = \<lparr>wanted = k, check = c, state = Waiting\<rparr>"
    and "\<forall>s \<in> set ss. s \<noteq> Resume i \<and> s \<noteq> Timeout i"
  shows "i < length (waiters (foldl (\<lambda>v s. bus_step type_of s v) v ss)) \<and>
    waiters (foldl (\<lambda>v s. bus_step type_of s v) v ss) ! i =
    \<lparr>wanted = k, check = c, state = (case find (\<lambda>e. type_of e = k \<and> c e) (published ss) of None \<Rightarrow> Waiting | Some e \<Rightarrow> Got e)\<rparr>"
proof -
  have frame: "i < length (waiters (bus_step type_of s u)) \<and> waiters (bus_step type_of s u) ! i = waiters u ! i"
    if "i < length (waiters u)" "s \<noteq> Resume i" "s \<noteq> Timeout i" "\<And>e. s = Publish e \<Longrightarrow> state (waiters u ! i) \<noteq> Waiting"
    for s and u :: "('a, 'b) world"
    using that by (cases s) (auto simp: bus_step_def nth_append deliver_nth leave_def Let_def split: phase.split)
  have stays: "i < length (waiters (foldl (\<lambda>v s. bus_step type_of s v) u ss)) \<and>
      waiters (foldl (\<lambda>v s. bus_step type_of s v) u ss) ! i = waiters u ! i"
    if "i < length (waiters u)" "state (waiters u ! i) = Got e" "\<forall>s \<in> set ss. s \<noteq> Resume i \<and> s \<noteq> Timeout i"
    for ss e and u :: "('a, 'b) world"
    using that
  proof (induction ss arbitrary: u)
    case (Cons s ss)
    then have "i < length (waiters (bus_step type_of s u)) \<and> waiters (bus_step type_of s u) ! i = waiters u ! i"
      using frame [of u s] by simp
    then show ?case using Cons.IH [of "bus_step type_of s u"] Cons.prems by simp
  qed simp
  show ?thesis
    using assms
  proof (induction ss arbitrary: v)
    case (Cons s ss)
    let ?u = "bus_step type_of s v"
    have inv: "bus_inv ?u" using Cons.prems(1) by (rule bus_step_inv)
    show ?case
    proof (cases "\<exists>e. s = Publish e")
      case True
      then obtain e where s: "s = Publish e" by blast
      have "i \<in> listeners_of (bus v) k" using Cons.prems(1-3) by (simp add: bus_inv_def)
      moreover have "type_of e \<noteq> k \<Longrightarrow> i \<notin> listeners_of (bus v) (type_of e)" using Cons.prems(1-3) by (simp add: bus_inv_def)
      ultimately have u: "waiters ?u ! i = \<lparr>wanted = k, check = c, state = (if type_of e = k \<and> c e then Got e else Waiting)\<rparr>"
          "i < length (waiters ?u)"
        using Cons.prems(2,3) by (auto simp: bus_step_def s deliver_nth)
      show ?thesis
      proof (cases "type_of e = k \<and> c e")
        case True
        then show ?thesis using stays [of ?u e ss] u Cons.prems(4) by (simp add: s)
      next
        case False
        then show ?thesis using Cons.IH [OF inv u(2)] u(1) Cons.prems(4) by (auto simp: s)
      qed
    next
      case False
      then have "published (s # ss) = published ss" by (cases s) simp_all
      moreover have "i < length (waiters ?u) \<and> waiters ?u ! i = waiters v ! i"
        using frame [of v s] Cons.prems(2,4) False by simp
      ultimately show ?thesis using Cons.IH [OF inv] Cons.prems(3,4) by simp
    qed
  qed simp
qed

end
