(* ===== verification/Files.thy ===== *)
theory Files
  imports Prelude
begin

text \<open>
  A file system as far as the trace store and the checkpoints use it: nodes by absolute path, with the
  operations of \<open>os\<close>, \<open>shutil\<close> and \<open>pathlib\<close> the code calls. Links are followed as the last
  component of a path only. Writing a file replaces what is at its path. \<open>same_device\<close> says between
  which paths a rename is possible.
\<close>

section \<open>Nodes\<close>

type_synonym path = "string list"

datatype 'c node = File 'c | Folder | Link path

type_synonym 'c fs = "(path, 'c node) dict"

definition is_folder :: "'c fs \<Rightarrow> path \<Rightarrow> bool" where
  "is_folder fs p \<longleftrightarrow> p = [] \<or> dict_get fs p = Some Folder"

text \<open>A path with its dots resolved.\<close>

definition plain_path :: "path \<Rightarrow> path" where
  "plain_path p =
     foldl (\<lambda>q c. if c = ''..'' then butlast q else if c = ''.'' then q else q @ [c]) [] p"

definition link_target :: "path \<Rightarrow> path \<Rightarrow> path" where
  "link_target link rel = plain_path (butlast link @ rel)"

definition file_content :: "'c fs \<Rightarrow> path \<Rightarrow> 'c option" where
  "file_content fs p =
     (case dict_get fs p of
        Some (File c) \<Rightarrow> Some c
      | Some (Link rel) \<Rightarrow> (case dict_get fs (link_target p rel) of Some (File c) \<Rightarrow> Some c | _ \<Rightarrow> None)
      | _ \<Rightarrow> None)"

definition below :: "path \<Rightarrow> path \<Rightarrow> bool" where
  "below p q \<longleftrightarrow> length p < length q \<and> take (length p) q = p"

definition descendants :: "'c fs \<Rightarrow> path \<Rightarrow> path list" where
  "descendants fs p = filter (below p) (dict_keys fs)"

definition children :: "'c fs \<Rightarrow> path \<Rightarrow> path list" where
  "children fs p = filter (\<lambda>q. length q = Suc (length p)) (descendants fs p)"

section \<open>Operations\<close>

definition is_os_error :: "py_error \<Rightarrow> bool" where
  "is_os_error e \<longleftrightarrow> e \<in> {OSError, FileExistsError, FileNotFoundError, NotADirectoryError}"

definition put_node :: "path \<Rightarrow> 'c node \<Rightarrow> ('c fs, unit) proc" where
  "put_node p n = modify (dict_set p n)"

text \<open>\<open>mkdir(parents=True, exist_ok=True)\<close>\<close>

definition make_folder :: "path \<Rightarrow> nat \<Rightarrow> ('c fs, unit) proc" where
  "make_folder p n =
     bnd (gets (\<lambda>fs. dict_get fs (take n p))) (\<lambda>x.
     case x of
       None \<Rightarrow> put_node (take n p) Folder
     | Some Folder \<Rightarrow> ret ()
     | Some _ \<Rightarrow> raise (if n = length p then FileExistsError else NotADirectoryError))"

definition mkdir_parents :: "path \<Rightarrow> ('c fs, unit) proc" where
  "mkdir_parents p = each (make_folder p) [1..<Suc (length p)]"

text \<open>\<open>os.replace\<close>\<close>

definition move_tree :: "path \<Rightarrow> path \<Rightarrow> 'c fs \<Rightarrow> 'c fs" where
  "move_tree src dst fs =
     map (\<lambda>(p, n). (if p = src \<or> below src p then dst @ drop (length src) p else p, n)) (dict_del dst fs)"

definition rename :: "(path \<Rightarrow> path \<Rightarrow> bool) \<Rightarrow> path \<Rightarrow> path \<Rightarrow> ('c fs, unit) proc" where
  "rename same_device src dst fs =
     (case dict_get fs src of
        None \<Rightarrow> (Inl FileNotFoundError, fs)
      | Some n \<Rightarrow>
          if \<not> is_folder fs (butlast dst) then (Inl FileNotFoundError, fs)
          else if \<not> same_device src dst then (Inl OSError, fs)
          else if n = Folder then
            (if below src dst \<or> (dict_get fs dst \<noteq> None \<and> dict_get fs dst \<noteq> Some Folder) \<or> descendants fs dst \<noteq> []
             then (Inl OSError, fs)
             else (Inr (), if src = dst then fs else move_tree src dst fs))
          else if is_folder fs dst then (Inl OSError, fs)
          else (Inr (), if src = dst then fs else dict_set dst n (dict_del src fs)))"

definition unlink :: "path \<Rightarrow> ('c fs, unit) proc" where
  "unlink p =
     bnd (gets (\<lambda>fs. dict_get fs p)) (\<lambda>x.
     case x of None \<Rightarrow> raise FileNotFoundError | Some Folder \<Rightarrow> raise OSError | Some _ \<Rightarrow> modify (dict_del p))"

definition symlink_to :: "path \<Rightarrow> path \<Rightarrow> ('c fs, unit) proc" where
  "symlink_to link rel =
     bnd (gets (\<lambda>fs. (is_folder fs (butlast link), dict_get fs link))) (\<lambda>(b, x).
     if x \<noteq> None then raise FileExistsError
     else if \<not> b then raise FileNotFoundError else put_node link (Link rel))"

definition write_file :: "path \<Rightarrow> 'c \<Rightarrow> ('c fs, unit) proc" where
  "write_file p c =
     bnd (gets (\<lambda>fs. (is_folder fs (butlast p), is_folder fs p))) (\<lambda>(b, folder).
     if \<not> b then raise FileNotFoundError else if folder then raise OSError else put_node p (File c))"

definition copy_file :: "path \<Rightarrow> path \<Rightarrow> ('c fs, unit) proc" where
  "copy_file src dst =
     bnd (gets (\<lambda>fs. file_content fs src)) (\<lambda>c.
     case c of None \<Rightarrow> raise FileNotFoundError | Some c \<Rightarrow> write_file dst c)"

definition remove_tree :: "path \<Rightarrow> 'c fs \<Rightarrow> 'c fs" where
  "remove_tree p fs = filter (\<lambda>e. fst e \<noteq> p \<and> \<not> below p (fst e)) fs"

text \<open>\<open>shutil.copytree(src, dst, symlinks=True)\<close>\<close>

definition copy_tree :: "path \<Rightarrow> path \<Rightarrow> ('c fs, unit) proc" where
  "copy_tree src dst =
     bnd (gets (\<lambda>fs. (is_folder fs src, dict_get fs dst))) (\<lambda>(b, x).
     if \<not> b then raise FileNotFoundError
     else if x \<noteq> None then raise FileExistsError
     else andthen (mkdir_parents dst)
       (bnd (gets (\<lambda>fs. filter (\<lambda>e. below src (fst e)) fs)) (\<lambda>es.
        each (\<lambda>(p, n). put_node (dst @ drop (length src) p) n) es)))"

section \<open>What folders and links change\<close>

text \<open>Between two states only folders have come, and \<open>S\<close> may have changed.\<close>

definition folders_added :: "path set \<Rightarrow> 'c fs \<Rightarrow> 'c fs \<Rightarrow> bool" where
  "folders_added S fs fs' \<longleftrightarrow>
     (\<forall>p. p \<notin> S \<longrightarrow> dict_get fs' p = dict_get fs p \<or> (dict_get fs p = None \<and> dict_get fs' p = Some Folder))"

lemma folders_added_refl [simp]: "folders_added S fs fs"
  by (simp add: folders_added_def)

lemma folders_added_trans:
  "folders_added S fs fs1 \<Longrightarrow> folders_added S' fs1 fs2 \<Longrightarrow> folders_added (S \<union> S') fs fs2"
  unfolding folders_added_def by (metis UnCI option.distinct(1))

lemma folders_added_again: "folders_added S fs fs1 \<Longrightarrow> folders_added S fs1 fs2 \<Longrightarrow> folders_added S fs fs2"
  using folders_added_trans [of S fs fs1 S fs2] by simp

lemma folders_added_first: "folders_added {} fs fs1 \<Longrightarrow> folders_added S fs1 fs2 \<Longrightarrow> folders_added S fs fs2"
  using folders_added_trans [of "{}" fs fs1 S fs2] by simp

lemma folders_added_keeps:
  "folders_added S fs fs' \<Longrightarrow> p \<notin> S \<Longrightarrow> dict_get fs p = Some n \<Longrightarrow> dict_get fs' p = Some n"
  unfolding folders_added_def by (metis option.distinct(1))

lemma folders_added_mono: "folders_added S fs fs' \<Longrightarrow> S \<subseteq> S' \<Longrightarrow> folders_added S' fs fs'"
  unfolding folders_added_def by blast

lemma make_folder_adds:
  "wp (make_folder p n) (\<lambda>_. folders_added {} fs) (\<lambda>_. folders_added {} fs) fs' \<longleftrightarrow> True"
  if "folders_added {} fs fs'"
proof -
  have "folders_added {} fs' (dict_set (take n p) Folder fs')" if "dict_get fs' (take n p) = None"
    using that by (simp add: folders_added_def)
  then show ?thesis
    using that folders_added_trans [OF that, of "{}"]
    by (auto simp: make_folder_def put_node_def split: option.split node.split)
qed

lemma wp_mkdir_parents:
  "wp (mkdir_parents p) (\<lambda>_. folders_added {} fs) (\<lambda>_. folders_added {} fs) fs"
  unfolding mkdir_parents_def by (rule wp_each) (simp_all add: make_folder_adds)

end
