(* ===== verification/Trace_Store.thy ===== *)
theory Trace_Store
  imports Files
begin

text \<open>
  The store of traces (worker/src/agentrl/worker/trace\_store.py) over the file system of \<open>Files\<close>: where
  a trace goes, how it is moved there, and the links to it. A file holds bytes, or an archive of
  the files below a folder. Permissions and the removal of the temporary folder are left out.
\<close>

datatype content = Bytes string | Archive "(path \<times> content) list"

section \<open>Where a trace goes\<close>

definition hex_digit :: "nat \<Rightarrow> char" where
  "hex_digit d = (if d < 10 then char_of (48 + d) else char_of (87 + d))"

definition hex2 :: "int \<Rightarrow> string" where
  "hex2 b = [hex_digit (nat b div 16), hex_digit (nat b mod 16)]"

text \<open>\<open>(session_id >> k) & 0xFF\<close>, also of negative numbers.\<close>

definition session_bucket :: "path \<Rightarrow> int \<Rightarrow> path" where
  "session_bucket root session_id = root @ [hex2 (session_id div 256 mod 256), hex2 (session_id mod 256)]"

text \<open>The date of a day, counted from the first of January 1970.\<close>

definition civil_date :: "int \<Rightarrow> int \<times> int \<times> int" where
  "civil_date days =
     (let z = days + 719468;
          era = z div 146097;
          doe = z mod 146097;
          yoe = (doe - doe div 1460 + doe div 36524 - doe div 146096) div 365;
          doy = doe - (365 * yoe + yoe div 4 - yoe div 100);
          mp = (5 * doy + 2) div 153;
          d = doy - (153 * mp + 2) div 5 + 1;
          m = (if mp < 10 then mp + 3 else mp - 9)
      in (yoe + era * 400 + (if m \<le> 2 then 1 else 0), m, d))"

definition two_digits :: "int \<Rightarrow> string" where
  "two_digits n = [digit_char (nat n div 10 mod 10), digit_char (nat n mod 10)]"

text \<open>Year, month, day and hour of a time in milliseconds, eight hours east.\<close>

definition time_partition_path :: "path \<Rightarrow> int \<Rightarrow> path" where
  "time_partition_path root ts =
     (let hours = ts div 3600000 + 8
      in case civil_date (hours div 24) of
        (y, m, d) \<Rightarrow> root @ [two_digits (y mod 100), two_digits m, two_digits d, two_digits (hours mod 24)])"

definition trace_base :: "string option \<Rightarrow> string \<Rightarrow> int \<Rightarrow> int \<Rightarrow> string" where
  "trace_base tag task_index session_id ts =
     (let base = task_index @ ''-'' @ int_str session_id @ ''-'' @ int_str ts
      in case tag of None \<Rightarrow> base | Some t \<Rightarrow> if t = [] then base else t @ ''-'' @ base)"

text \<open>\<open>Path.suffix\<close>: from the last dot on, unless it is the first or the last character.\<close>

definition suffix_of :: "string \<Rightarrow> string" where
  "suffix_of name =
     (let ext = takeWhile (\<lambda>c. c \<noteq> CHR ''.'') (rev name)
      in if ext = [] \<or> length name \<le> Suc (length ext) then [] else CHR ''.'' # rev ext)"

definition with_partial :: "path \<Rightarrow> path" where
  "with_partial p = butlast p @ [last p @ ''.partial'']"

section \<open>Moving\<close>

type_synonym 'a store_proc = "(content fs, 'a) proc"

definition atomic_move :: "(path \<Rightarrow> path \<Rightarrow> bool) \<Rightarrow> path \<Rightarrow> path \<Rightarrow> unit store_proc" where
  "atomic_move same_device src dst =
     catch (rename same_device src dst)
       (\<lambda>e. if is_os_error e
            then andthen (copy_file src (with_partial dst)) (rename same_device (with_partial dst) dst)
            else raise e)"

text \<open>The files below a folder; links to files are files.\<close>

definition files_below :: "content fs \<Rightarrow> path \<Rightarrow> path list" where
  "files_below fs p = filter (\<lambda>q. file_content fs q \<noteq> None) (descendants fs p)"

definition zip_dir :: "(path list \<Rightarrow> path list) \<Rightarrow> (path \<Rightarrow> path \<Rightarrow> bool) \<Rightarrow> path \<Rightarrow> path \<Rightarrow> unit store_proc" where
  "zip_dir sorted_paths same_device src dst =
     bnd (gets (\<lambda>fs. map (\<lambda>p. (drop (length src) p, the (file_content fs p))) (sorted_paths (files_below fs src)))) (\<lambda>entries.
     andthen (write_file (with_partial dst) (Archive entries)) (rename same_device (with_partial dst) dst))"

text \<open>By way of a copy beside the destination.\<close>

definition copy_dir :: "(path \<Rightarrow> path \<Rightarrow> bool) \<Rightarrow> path \<Rightarrow> path \<Rightarrow> unit store_proc" where
  "copy_dir same_device src dst =
     bnd (gets (\<lambda>fs. dict_get fs (with_partial dst))) (\<lambda>x.
     andthen
       (case x of
          None \<Rightarrow> ret ()
        | Some Folder \<Rightarrow> modify (remove_tree (with_partial dst))
        | Some _ \<Rightarrow> unlink (with_partial dst))
       (andthen (copy_tree src (with_partial dst))
       (andthen (rename same_device (with_partial dst) dst)
         (modify (remove_tree src)))))"

definition move_dir :: "(path \<Rightarrow> path \<Rightarrow> bool) \<Rightarrow> path \<Rightarrow> path \<Rightarrow> unit store_proc" where
  "move_dir same_device src dst =
     andthen (mkdir_parents (butlast dst))
       (finally_do
         (catch (rename same_device src dst) (\<lambda>e. if is_os_error e then copy_dir same_device src dst else raise e))
         (catch (mkdir_parents src) (\<lambda>_. ret ())))"

section \<open>Links\<close>

text \<open>\<open>os.path.relpath\<close>\<close>

fun relative_path :: "path \<Rightarrow> path \<Rightarrow> path" where
  "relative_path (a # start) (b # target) =
     (if a = b then relative_path start target else replicate (Suc (length start)) ''..'' @ b # target)"
| "relative_path start target =
     (if start = [] \<and> target = [] then [''.''] else replicate (length start) ''..'' @ target)"

definition resolved :: "content fs \<Rightarrow> path \<Rightarrow> path" where
  "resolved fs p = (case dict_get fs p of Some (Link rel) \<Rightarrow> link_target p rel | _ \<Rightarrow> p)"

text \<open>What is at a link, a dangling link as well, is removed first.\<close>

definition replace_link :: "path \<Rightarrow> path \<Rightarrow> unit store_proc" where
  "replace_link link rel =
     catch
       (bnd (gets (\<lambda>fs. dict_get fs link)) (\<lambda>x.
        andthen (if x \<noteq> None then unlink link else ret ()) (symlink_to link rel)))
       (\<lambda>e. if e = FileExistsError then
              andthen (catch (unlink link) (\<lambda>e. if e = FileNotFoundError then ret () else raise e))
                (symlink_to link rel)
            else raise e)"

definition create_link :: "path \<Rightarrow> path \<Rightarrow> unit store_proc" where
  "create_link link target =
     andthen (mkdir_parents (butlast link))
       (bnd (gets (\<lambda>fs. relative_path (butlast link) (resolved fs target))) (replace_link link))"

section \<open>Finalising\<close>

record trace_setting =
  store_root :: path
  devices :: "path \<Rightarrow> path \<Rightarrow> bool"
  in_order :: "path list \<Rightarrow> path list"

record trace =
  task_index :: string
  session_id :: int
  stamp :: int
  tag :: "string option"
  disable_compression :: bool

definition session_link :: "path \<Rightarrow> int \<Rightarrow> path" where
  "session_link root sid = session_bucket root sid @ [''session_'' @ int_str sid]"

definition link_by_task :: "trace_setting \<Rightarrow> trace \<Rightarrow> path" where
  "link_by_task S t = session_link (store_root S @ [''by-task'', task_index t]) (session_id t)"

definition link_by_session :: "trace_setting \<Rightarrow> trace \<Rightarrow> path" where
  "link_by_session S t = session_link (store_root S @ [''by-session'']) (session_id t)"

definition folder_by_time :: "trace_setting \<Rightarrow> trace \<Rightarrow> path" where
  "folder_by_time S t = time_partition_path (store_root S @ [''by-time'']) (stamp t)"

text \<open>Moving the files; the final path, or nothing when there are no files.\<close>

definition store_files :: "trace_setting \<Rightarrow> trace \<Rightarrow> path \<Rightarrow> path list \<Rightarrow> path list \<Rightarrow> path store_proc" where
  "store_files S t tmp_dir all_files direct =
     (let base = trace_base (tag t) (task_index t) (session_id t) (stamp t); folder = folder_by_time S t
      in andthen (mkdir_parents folder)
        (if length all_files = 1 \<and> length direct = 1 \<and> hd direct \<in> set all_files then
           (let ext = suffix_of (last (hd direct)); final = folder @ [base @ (if ext = [] then ''.bin'' else ext)]
            in andthen (atomic_move (devices S) (hd direct) final) (ret final))
         else if disable_compression t then
           andthen (move_dir (devices S) tmp_dir (folder @ [base])) (ret (folder @ [base]))
         else
           andthen (zip_dir (in_order S) (devices S) tmp_dir (folder @ [base @ ''.zip'']))
             (ret (folder @ [base @ ''.zip'']))))"

definition finalize :: "trace_setting \<Rightarrow> trace \<Rightarrow> path \<Rightarrow> path option store_proc" where
  "finalize S t tmp_dir =
     bnd (gets (\<lambda>fs. (files_below fs tmp_dir, children fs tmp_dir))) (\<lambda>(all_files, direct).
     if all_files = [] then ret None
     else bnd (store_files S t tmp_dir all_files direct) (\<lambda>final.
       andthen (create_link (link_by_task S t) final)
       (andthen (create_link (link_by_session S t) final)
       (ret (Some final)))))"

section \<open>The writer\<close>

record writer =
  final_path :: "path option"
  finalized :: bool
  finalizer_alive :: bool

definition writer_init :: writer where
  "writer_init = \<lparr>final_path = None, finalized = False, finalizer_alive = True\<rparr>"

text \<open>The finaliser of the object is another call of the same function; \<open>aclose\<close> does the same in a thread.\<close>

definition close_writer :: "trace_setting \<Rightarrow> trace \<Rightarrow> path \<Rightarrow> (content fs \<times> writer, path option) proc" where
  "close_writer S t tmp_dir =
     bnd (gets snd) (\<lambda>w.
     if finalized w then ret (final_path w)
     else bnd (on_first (finalize S t tmp_dir)) (\<lambda>final.
       andthen (modify (\<lambda>s. (fst s, (snd s)\<lparr>final_path := final, finalized := True\<rparr>)))
       (andthen
         (if finalizer_alive w
          then andthen (modify (\<lambda>s. (fst s, (snd s)\<lparr>finalizer_alive := False\<rparr>)))
                 (bnd (on_first (finalize S t tmp_dir)) (\<lambda>_. ret ()))
          else ret ())
         (gets (\<lambda>s. final_path (snd s))))))"


section \<open>Relative paths\<close>

definition plain_names :: "path \<Rightarrow> bool" where
  "plain_names p \<longleftrightarrow> ''..'' \<notin> set p \<and> ''.'' \<notin> set p"

definition go :: "path \<Rightarrow> string \<Rightarrow> path" where
  "go q c = (if c = ''..'' then butlast q else if c = ''.'' then q else q @ [c])"

lemma plain_path_go: "plain_path p = foldl go [] p"
  by (simp add: plain_path_def go_def [abs_def])

lemma go_plain: "plain_names p \<Longrightarrow> foldl go q p = q @ p"
  by (induction p arbitrary: q) (auto simp: plain_names_def go_def)

lemma go_up: "foldl go (q @ p) (replicate (length p) ''..'') = q"
proof (induction p rule: rev_induct)
  case (snoc c p)
  then show ?case by (simp add: go_def butlast_append flip: append_assoc)
qed simp

lemma go_here: "foldl go q [''.''] = q"
  by (simp add: go_def)

lemma go_relative:
  "plain_names start \<Longrightarrow> plain_names target \<Longrightarrow> foldl go (q @ start) (relative_path start target) = q @ target"
proof (induction start arbitrary: target q)
  case Nil
  then show ?case using go_plain [of target q] go_here [of q] by (cases target) simp_all
next
  case (Cons a start)
  have up: "foldl go (q @ a # start) (replicate (Suc (length start)) ''..'') = q"
    using go_up [of q "a # start"] by simp
  show ?case
  proof (cases target)
    case Nil
    then show ?thesis using up by simp
  next
    case target: (Cons b rest)
    show ?thesis
    proof (cases "a = b")
      case True
      then show ?thesis using Cons.IH [of rest "q @ [a]"] Cons.prems by (simp add: target plain_names_def)
    next
      case False
      then show ?thesis using up go_plain [of target q] Cons.prems(2) by (simp add: target del: replicate_Suc)
    qed
  qed
qed

lemma link_of_relative:
  assumes "plain_names (butlast link)" and "plain_names target"
  shows "link_target link (relative_path (butlast link) target) = target"
  using go_relative [OF assms, of "[]"] go_plain [OF assms(1), of "[]"]
  by (simp add: link_target_def plain_path_go)

lemma plain_path_plain: "plain_names (plain_path p)"
proof -
  have "plain_names q \<Longrightarrow> plain_names (foldl go q p)" for q
    by (induction p arbitrary: q) (auto simp: plain_names_def go_def dest: in_set_butlastD)
  from this [of "[]"] show ?thesis by (simp add: plain_path_go plain_names_def)
qed

lemma plain_resolved: "plain_names p \<Longrightarrow> plain_names (resolved fs p)"
  by (auto simp: resolved_def link_target_def plain_path_plain split: option.split node.split)

section \<open>Links\<close>

lemma unlink_only: "wp (unlink p) (\<lambda>_. folders_added {p} fs) (\<lambda>_ fs'. fs' = fs) fs"
  by (auto simp: unlink_def folders_added_def split: option.split node.split)

lemma symlink_only:
  "wp (symlink_to link rel) (\<lambda>_ fs'. folders_added {link} fs fs' \<and> dict_get fs' link = Some (Link rel)) (\<lambda>_ fs'. fs' = fs) fs"
  by (auto simp: symlink_to_def put_node_def folders_added_def)

lemma link_then:
  assumes "folders_added {link} fs v"
  shows "wp (symlink_to link rel) (\<lambda>_ fs'. folders_added {link} fs fs' \<and> dict_get fs' link = Some (Link rel))
    (\<lambda>_. folders_added {link} fs) v"
  by (rule wp_mono [OF symlink_only]) (use assms folders_added_again [OF assms] in auto)

lemma replaced_link:
  "wp (replace_link link rel) (\<lambda>_ fs'. folders_added {link} fs fs' \<and> dict_get fs' link = Some (Link rel)) (\<lambda>_ _. True) fs"
proof -
  have away: "wp (unlink link) Q F v"
    if "folders_added {link} fs v" "\<And>x u. folders_added {link} fs u \<Longrightarrow> Q x u" "\<And>e u. folders_added {link} fs u \<Longrightarrow> F e u"
    for Q F v
    by (rule wp_mono [OF unlink_only]) (use that folders_added_again [OF that(1)] in auto)
  have linked: "wp (symlink_to link rel) Q F v"
    if "folders_added {link} fs v" "\<And>x u. folders_added {link} fs u \<Longrightarrow> dict_get u link = Some (Link rel) \<Longrightarrow> Q x u"
      "\<And>e u. folders_added {link} fs u \<Longrightarrow> F e u" for Q F v
    by (rule wp_mono [OF link_then [OF that(1)]]) (use that(2,3) in auto)
  show ?thesis
    unfolding replace_link_def by (auto intro!: away linked)
qed

text \<open>A link that is made leads to its target, and besides folders nothing else has changed.\<close>

lemma link_made:
  assumes "plain_names (butlast link)" and "plain_names target" and "dict_get fs target \<noteq> None" and "target \<noteq> link"
  shows "wp (create_link link target)
    (\<lambda>_ fs'. folders_added {link} fs fs' \<and>
       (\<exists>rel. dict_get fs' link = Some (Link rel) \<and> link_target link rel = resolved fs' target))
    (\<lambda>_ _. True) fs"
proof -
  have keep: "resolved v target = resolved u target" if "folders_added {link} u v" "folders_added {} fs u" for u v
  proof -
    obtain n where n: "dict_get fs target = Some n" using assms(3) by blast
    then have "dict_get u target = Some n" using folders_added_keeps [OF that(2)] by simp
    then have "dict_get v target = Some n" using folders_added_keeps [OF that(1)] assms(4) by simp
    then show ?thesis using \<open>dict_get u target = Some n\<close> by (simp add: resolved_def)
  qed
  show ?thesis
    unfolding create_link_def wp_andthen
  proof (rule wp_mono [OF wp_mkdir_parents])
    fix x u assume u: "folders_added {} fs u"
    have post: "folders_added {link} fs v \<and>
        (\<exists>rel. dict_get v link = Some (Link rel) \<and> link_target link rel = resolved v target)"
      if "folders_added {link} u v \<and> dict_get v link = Some (Link (relative_path (butlast link) (resolved u target)))" for v
      using that folders_added_first [OF u] keep [OF conjunct1 [OF that] u]
        link_of_relative [OF assms(1) plain_resolved [OF assms(2), of u]] by simp
    show "wp (bnd (gets (\<lambda>fs. relative_path (butlast link) (resolved fs target))) (replace_link link))
      (\<lambda>_ fs'. folders_added {link} fs fs' \<and>
         (\<exists>rel. dict_get fs' link = Some (Link rel) \<and> link_target link rel = resolved fs' target)) (\<lambda>_ _. True) u"
      unfolding wp_bnd wp_gets by (rule wp_mono [OF replaced_link post]) simp_all
  qed simp
qed


section \<open>A saved trace\<close>

lemma rename_puts: "wp (rename d src dst) (\<lambda>_ fs'. dict_get fs' dst \<noteq> None) (\<lambda>_ _. True) fs"
proof -
  have moved: "dict_get (move_tree src dst fs) dst \<noteq> None" if "dict_get fs src = Some n" "src \<noteq> dst" for n
  proof -
    have "(src, n) \<in> set (dict_del dst fs)" using that by (simp add: map_of_SomeD delete_conv' map_of_delete)
    then have "(dst, n) \<in> set (move_tree src dst fs)" by (force simp: move_tree_def)
    then show ?thesis by (metis domI dom_map_of_conv_image_fst image_eqI fst_conv option.distinct(1) map_of_eq_None_iff)
  qed
  show ?thesis
    using moved by (auto simp: wp_def rename_def split: option.split)
qed

definition puts :: "path \<Rightarrow> 'a store_proc \<Rightarrow> bool" where
  "puts p m \<longleftrightarrow> (\<forall>fs. wp m (\<lambda>_ fs'. dict_get fs' p \<noteq> None) (\<lambda>_ _. True) fs)"

lemma puts_rename: "puts dst (rename d src dst)"
  unfolding puts_def using rename_puts by blast

lemma puts_last: "puts p k \<Longrightarrow> puts p (andthen m k)"
  unfolding puts_def wp_andthen by (auto intro: wp_any)

lemma puts_bnd: "(\<And>x. puts p (f x)) \<Longrightarrow> puts p (bnd m f)"
  unfolding puts_def wp_bnd by (auto intro: wp_any)

lemma puts_then: "puts p m \<Longrightarrow> (\<And>fs. dict_get fs p \<noteq> None \<Longrightarrow> wp k (\<lambda>_ fs'. dict_get fs' p \<noteq> None) (\<lambda>_ _. True) fs) \<Longrightarrow> puts p (andthen m k)"
  unfolding puts_def wp_andthen by (blast intro: wp_mono)

lemma puts_catch:
  assumes "puts p m" and "\<And>e. puts p (h e)" shows "puts p (catch m h)"
  unfolding puts_def wp_catch
proof
  fix fs
  show "wp m (\<lambda>_ fs'. dict_get fs' p \<noteq> None)
      (\<lambda>e. if e = StillRunning then \<lambda>_. True else wp (h e) (\<lambda>_ fs'. dict_get fs' p \<noteq> None) (\<lambda>_ _. True)) fs"
    by (rule wp_mono [OF assms(1) [unfolded puts_def, rule_format]]) (use assms(2) in \<open>auto simp: puts_def\<close>)
qed

lemma puts_finally:
  assumes "puts p m" and "\<And>fs. dict_get fs p \<noteq> None \<Longrightarrow> wp k (\<lambda>_ fs'. dict_get fs' p \<noteq> None) (\<lambda>_ _. True) fs"
  shows "puts p (finally_do m k)"
  unfolding puts_def wp_finally
proof
  fix fs
  show "wp m (\<lambda>x. wp k (\<lambda>_ fs'. dict_get fs' p \<noteq> None) (\<lambda>_ _. True))
      (\<lambda>e. if e = StillRunning then \<lambda>_. True else wp k (\<lambda>_ _. True) (\<lambda>_ _. True)) fs"
    by (rule wp_mono [OF assms(1) [unfolded puts_def, rule_format]]) (use assms(2) in \<open>auto intro: wp_any\<close>)
qed

lemma puts_raise: "puts p (raise e)"
  by (simp add: puts_def)

lemma still_there: "folders_added {} fs fs' \<Longrightarrow> dict_get fs p \<noteq> None \<Longrightarrow> dict_get fs' p \<noteq> None"
  using folders_added_keeps [of "{}" fs fs' p] by auto

lemma atomic_move_puts: "puts dst (atomic_move d src dst)"
  unfolding atomic_move_def by (intro puts_catch puts_rename) (simp add: puts_raise puts_last puts_rename)

lemma zip_dir_puts: "puts dst (zip_dir ord d src dst)"
  unfolding zip_dir_def by (intro puts_bnd puts_last puts_rename)

lemma move_dir_puts:
  assumes "\<not> below src dst" and "src \<noteq> dst"
  shows "puts dst (move_dir d src dst)"
proof -
  have again: "wp (catch (mkdir_parents src) (\<lambda>_. ret ())) (\<lambda>_ fs'. dict_get fs' dst \<noteq> None) (\<lambda>_ _. True) v"
    if "dict_get v dst \<noteq> None" for v
    unfolding wp_catch
    by (rule wp_mono [OF wp_mkdir_parents]) (use still_there [OF _ that] in auto)
  have "dict_get (remove_tree src v) dst = dict_get v dst" for v :: "content fs"
    using assms by (induction v) (auto simp: remove_tree_def)
  then have "puts dst (copy_dir d src dst)"
    unfolding copy_dir_def by - (rule puts_bnd, rule puts_last, rule puts_last, rule puts_then [OF puts_rename], simp)
  then show ?thesis
    unfolding move_dir_def
    by (intro puts_last puts_finally puts_catch puts_rename again) (simp_all add: puts_raise)
qed


lemma puts_andthen_ret: "puts p m \<Longrightarrow> wp (andthen m (ret p)) (\<lambda>q fs'. q = p \<and> dict_get fs' p \<noteq> None) (\<lambda>_ _. True) fs"
  unfolding puts_def wp_andthen by (erule allE, erule wp_mono) simp_all

text \<open>The path that is returned is in the folder of the time, and there is something.\<close>

lemma store_files_puts:
  assumes "\<And>n. \<not> below tmp_dir (folder_by_time S t @ [n]) \<and> tmp_dir \<noteq> folder_by_time S t @ [n]"
  shows "wp (store_files S t tmp_dir all_files direct)
    (\<lambda>p fs'. dict_get fs' p \<noteq> None \<and> (\<exists>x. p = folder_by_time S t @ [trace_base (tag t) (task_index t) (session_id t) (stamp t) @ x]))
    (\<lambda>_ _. True) fs"
proof -
  let ?base = "trace_base (tag t) (task_index t) (session_id t) (stamp t)"
  define Q where "Q p fs' \<longleftrightarrow> dict_get fs' p \<noteq> None \<and> (\<exists>x. p = folder_by_time S t @ [?base @ x])" for p and fs' :: "content fs"
  have stored: "wp (andthen m (ret p)) Q (\<lambda>_ _. True) u"
    if "puts p m" "p = folder_by_time S t @ [?base @ x]" for m p x u
    by (rule wp_mono [OF puts_andthen_ret [OF that(1)]]) (use that(2) in \<open>auto simp: Q_def\<close>)
  have moved: "wp (andthen (atomic_move d a (folder_by_time S t @ [?base @ x])) (ret (folder_by_time S t @ [?base @ x]))) Q (\<lambda>_ _. True) u"
    for d a x u by (rule stored [OF atomic_move_puts refl])
  have folder: "wp (andthen (move_dir d tmp_dir (folder_by_time S t @ [?base])) (ret (folder_by_time S t @ [?base]))) Q (\<lambda>_ _. True) u"
    for d u by (rule stored [OF move_dir_puts, of _ _ "[]"]) (use assms in simp_all)
  have zipped: "wp (andthen (zip_dir ord d tmp_dir (folder_by_time S t @ [?base @ x])) (ret (folder_by_time S t @ [?base @ x]))) Q (\<lambda>_ _. True) u"
    for ord d x u by (rule stored [OF zip_dir_puts refl])
  have first: "wp (andthen m k) Q (\<lambda>_ _. True) u" if "\<And>u. wp k Q (\<lambda>_ _. True) u" for m k u
    unfolding wp_andthen by (rule wp_any) (use that in simp_all)
  have "wp (store_files S t tmp_dir all_files direct) Q (\<lambda>_ _. True) fs"
    unfolding store_files_def Let_def
    by (rule first) (simp add: moved folder zipped del: wp_andthen wp_if split: if_split)
  then show ?thesis unfolding Q_def [abs_def] .
qed

section \<open>Both links lead to the trace\<close>

lemma plain_names_append [simp]: "plain_names (p @ q) \<longleftrightarrow> plain_names p \<and> plain_names q"
  by (auto simp: plain_names_def)

lemma plain_name: "c \<noteq> ''..'' \<Longrightarrow> c \<noteq> ''.'' \<Longrightarrow> plain_names [c]"
  by (simp add: plain_names_def)

lemma hex2_plain: "plain_names [hex2 (b mod 256)]"
proof -
  have "hex_digit d \<noteq> CHR ''.''" if "d < 16" for d
  proof -
    have "\<forall>d \<in> set [0..<16]. hex_digit d \<noteq> CHR ''.''" by (simp add: upt_rec hex_digit_def char_of_def)
    then show ?thesis using that by simp
  qed
  moreover have "nat (b mod 256) div 16 < 16" by (simp add: less_mult_imp_div_less nat_less_iff)
  ultimately show ?thesis by (auto simp: plain_names_def hex2_def)
qed

lemma digits_plain: "plain_names [two_digits n]"
proof -
  have "digit_char d \<noteq> CHR ''.''" if "d < 10" for d
  proof -
    have "\<forall>d \<in> set [0..<10]. digit_char d \<noteq> CHR ''.''" by (simp add: upt_rec digit_char_def char_of_def)
    then show ?thesis using that by simp
  qed
  then show ?thesis by (auto simp: plain_names_def two_digits_def)
qed

lemma folder_plain: "plain_names (store_root S) \<Longrightarrow> plain_names (folder_by_time S t)"
  unfolding folder_by_time_def time_partition_path_def Let_def
  using digits_plain by (auto simp: plain_names_def split: prod.split)

lemma base_plain: "plain_names [trace_base a b c d @ x]"
proof -
  have "CHR ''-'' \<in> set (trace_base a b c d)" by (auto simp: trace_base_def Let_def split: option.split)
  then have "CHR ''-'' \<in> set (trace_base a b c d @ x)" by simp
  moreover have "CHR ''-'' \<notin> set ''..''" "CHR ''-'' \<notin> set ''.''" by simp_all
  ultimately show ?thesis unfolding plain_names_def by (metis empty_iff empty_set set_ConsD)
qed

lemma session_link_parts: "butlast (session_link p sid) = session_bucket p sid" "session_link p sid \<noteq> []"
  by (simp_all add: session_link_def)

lemma bucket_plain: "plain_names p \<Longrightarrow> plain_names (session_bucket p sid)"
  unfolding session_bucket_def using hex2_plain by (simp add: plain_names_def)

lemma link_folders_plain:
  assumes "plain_names (store_root S)" and "plain_names [task_index t]"
  shows "plain_names (butlast (link_by_task S t))" "plain_names (butlast (link_by_session S t))"
  using assms bucket_plain by (auto simp: link_by_task_def link_by_session_def session_link_parts plain_names_def)

text \<open>The three parts of the store are apart.\<close>

lemma nth_apart: "p ! n \<noteq> q ! n \<Longrightarrow> p \<noteq> q" by auto

lemma paths_apart:
  "folder_by_time S t @ [n] \<noteq> link_by_task S t" "folder_by_time S t @ [n] \<noteq> link_by_session S t"
  "link_by_task S t \<noteq> link_by_session S t"
  by (rule nth_apart [of _ "length (store_root S)"],
      simp add: folder_by_time_def link_by_task_def link_by_session_def session_link_def session_bucket_def
        time_partition_path_def Let_def nth_append split: prod.split)+


lemma saved_trace_links:
  assumes "plain_names (store_root S)" and "plain_names [task_index t]"
    and "\<forall>n. \<not> below tmp_dir (folder_by_time S t @ [n]) \<and> tmp_dir \<noteq> folder_by_time S t @ [n]"
    and "finalize S t tmp_dir fs = (Inr (Some final), fs')"
  shows "dict_get fs' final \<noteq> None \<and>
    (\<forall>link \<in> {link_by_task S t, link_by_session S t}.
       \<exists>rel. dict_get fs' link = Some (Link rel) \<and> link_target link rel = resolved fs' final)"
proof -
  let ?task = "link_by_task S t" and ?session = "link_by_session S t"
  define leads where "leads v link \<longleftrightarrow> (\<exists>rel. dict_get v link = Some (Link rel) \<and> link_target link rel = resolved v final)"
    for v link
  obtain u where u: "store_files S t tmp_dir (files_below fs tmp_dir) (children fs tmp_dir) fs = (Inr final, u)"
      and linked: "andthen (create_link ?task final) (create_link ?session final) u = (Inr (), fs')"
    using assms(4)
    by (auto simp: finalize_def bnd_def gets_def andthen_def ret_def split: if_splits prod.splits sum.splits)
  have there: "dict_get u final \<noteq> None" and final: "\<exists>x. final = folder_by_time S t @ [trace_base (tag t) (task_index t) (session_id t) (stamp t) @ x]"
    using wp_Inr [OF store_files_puts u] assms(3) by auto
  then have plain: "plain_names final" using folder_plain [OF assms(1)] base_plain by auto
  have apart: "final \<noteq> ?task" "final \<noteq> ?session" using final paths_apart by auto
  obtain v where v: "create_link ?task final u = (Inr (), v)" "create_link ?session final v = (Inr (), fs')"
    using linked by (auto simp: andthen_def bnd_def split: prod.splits sum.splits)
  have task: "folders_added {?task} u v" "leads v ?task"
    using wp_Inr [OF link_made [OF link_folders_plain(1) [OF assms(1,2)] plain there apart(1)] v(1)]
    by (auto simp: leads_def)
  have still: "dict_get v final \<noteq> None" "dict_get v final = dict_get u final"
    using folders_added_keeps [OF task(1)] there apart(1) by auto
  have session: "folders_added {?session} v fs'" "leads fs' ?session"
    using wp_Inr [OF link_made [OF link_folders_plain(2) [OF assms(1,2)] plain still(1) apart(2)] v(2)]
    by (auto simp: leads_def)
  have same: "dict_get fs' final = dict_get v final" "dict_get fs' ?task = dict_get v ?task"
    using folders_added_keeps [OF session(1)] still(1) apart(2) paths_apart(3) task(2) by (auto simp: leads_def)
  then have "leads fs' ?task" using task(2) by (simp add: leads_def resolved_def)
  then show ?thesis using session(2) same(1) still(1) by (simp add: leads_def)
qed

text \<open>
  C23: When saving a trace returns a path, something is at that path, and the links by task
  and by session lead to it, whichever way the files were moved and whatever was at the links before.
\<close>

theorem saved_trace_is_linked:
  assumes "plain_names (store_root S)" and "plain_names [task_index t]"
    and "\<forall>n. \<not> below tmp_dir (folder_by_time S t @ [n]) \<and> tmp_dir \<noteq> folder_by_time S t @ [n]"
    and "finalize S t tmp_dir fs = (Inr (Some final), fs')"
  shows "dict_get fs' final \<noteq> None \<and>
    (\<forall>link \<in> {link_by_task S t, link_by_session S t}.
       \<exists>rel. dict_get fs' link = Some (Link rel) \<and> link_target link rel = resolved fs' final)"
  using saved_trace_links [OF assms] .

definition here :: trace_setting where
  "here = \<lparr>store_root = [''srv''], devices = (\<lambda>_ _. True), in_order = id\<rparr>"

definition first_trace :: trace where
  "first_trace = \<lparr>task_index = ''3'', session_id = 7, stamp = 0, tag = None, disable_compression = False\<rparr>"

definition one_file :: "content fs" where
  "one_file = [([''srv''], Folder), ([''tmp''], Folder), ([''tmp'', ''log.txt''], File (Bytes ''x''))]"

lemma civil_examples: "civil_date 0 = (1970, 1, 1)" "civil_date 19782 = (2024, 2, 29)" "civil_date 47481 = (2099, 12, 31)"
  by code_simp+

lemma leap_day_folder: "time_partition_path [] 1709164800000 = [''24'', ''02'', ''29'', ''08'']"
  by code_simp

lemma first_trace_saved:
  "fst (finalize here first_trace [''tmp''] one_file) =
     Inr (Some [''srv'', ''by-time'', ''70'', ''01'', ''01'', ''08'', ''3-7-0.txt''])"
  by code_simp


lemma saved_trace_is_linked_witness:
  "\<exists>fs' rel. finalize here first_trace [''tmp''] one_file =
      (Inr (Some [''srv'', ''by-time'', ''70'', ''01'', ''01'', ''08'', ''3-7-0.txt'']), fs') \<and>
    dict_get fs' (link_by_session here first_trace) = Some (Link rel) \<and>
    link_target (link_by_session here first_trace) rel =
      resolved fs' [''srv'', ''by-time'', ''70'', ''01'', ''01'', ''08'', ''3-7-0.txt'']"
proof -
  let ?final = "[''srv'', ''by-time'', ''70'', ''01'', ''01'', ''08'', ''3-7-0.txt'']"
  obtain fs' where run: "finalize here first_trace [''tmp''] one_file = (Inr (Some ?final), fs')"
    using first_trace_saved by (cases "finalize here first_trace [''tmp''] one_file") simp
  have "folder_by_time here first_trace = [''srv'', ''by-time'', ''70'', ''01'', ''01'', ''08'']" by code_simp
  then have "\<forall>n. \<not> below [''tmp''] (folder_by_time here first_trace @ [n]) \<and> [''tmp''] \<noteq> folder_by_time here first_trace @ [n]"
    by (simp add: below_def)
  from saved_trace_is_linked [OF _ _ this run] run show ?thesis
    by (auto simp: plain_names_def here_def first_trace_def)
qed

section \<open>Buckets\<close>

lemma hex_digit_inj: "a < 16 \<Longrightarrow> b < 16 \<Longrightarrow> hex_digit a = hex_digit b \<Longrightarrow> a = b"
proof -
  have "\<forall>a \<in> set [0..<16]. \<forall>b \<in> set [0..<16]. hex_digit a = hex_digit b \<longrightarrow> a = b" by code_simp
  then show "a < 16 \<Longrightarrow> b < 16 \<Longrightarrow> hex_digit a = hex_digit b \<Longrightarrow> a = b" by simp
qed

lemma hex2_inj: "hex2 (a mod 256) = hex2 (b mod 256) \<longleftrightarrow> a mod 256 = b mod 256"
proof
  assume eq: "hex2 (a mod 256) = hex2 (b mod 256)"
  have small: "nat (x mod 256) div 16 < 16" for x by (simp add: less_mult_imp_div_less nat_less_iff)
  have "nat (a mod 256) div 16 = nat (b mod 256) div 16" "nat (a mod 256) mod 16 = nat (b mod 256) mod 16"
    using eq small by (auto simp: hex2_def intro: hex_digit_inj)
  then have "nat (a mod 256) = nat (b mod 256)" by (metis div_mult_mod_eq)
  then show "a mod 256 = b mod 256" by simp
qed simp

text \<open>Two sessions are in one bucket exactly if their numbers agree in the last sixteen bits.\<close>

lemma same_bucket: "session_bucket root a = session_bucket root b \<longleftrightarrow> a mod 65536 = b mod 65536"
proof -
  have split: "x mod 65536 = 256 * (x div 256 mod 256) + x mod 256" for x :: int
    using zmod_zmult2_eq [of 256 x 256] by simp
  have digits: "256 * p + q = 256 * r + s \<longleftrightarrow> p = r \<and> q = s"
    if "0 \<le> q" "q < 256" "0 \<le> s" "s < 256" for p q r s :: int
  proof -
    have "(256 * p + q) div 256 = p" "(256 * r + s) div 256 = r" using that by (simp_all add: div_pos_pos_trivial)
    then show ?thesis by (metis add_left_cancel)
  qed
  show ?thesis
    using digits [of "a mod 256" "b mod 256" "a div 256 mod 256" "b div 256 mod 256"]
    unfolding split [of a] split [of b] session_bucket_def by (simp add: hex2_inj)
qed

section \<open>Closing\<close>

text \<open>
  Closing saves twice, as the finaliser of the writer is still alive: the path is that of the
  first time, but the second one may still raise.
\<close>

lemma close_saves_twice:
  assumes "finalize S t d fs = (Inr p, fs1)" and "finalize S t d fs1 = (r, fs2)"
  shows "close_writer S t d (fs, writer_init) =
    (case r of Inr _ \<Rightarrow> Inr p | Inl e \<Rightarrow> Inl e, (fs2, \<lparr>final_path = p, finalized = True, finalizer_alive = False\<rparr>))"
  using assms
  by (simp add: close_writer_def writer_init_def bnd_def andthen_def gets_def modify_def on_first_def zoom_def ret_def
      split: sum.split)

lemma close_again: "finalized w \<Longrightarrow> close_writer S t d (fs, w) = (Inr (final_path w), (fs, w))"
  by (simp add: close_writer_def bnd_def gets_def ret_def)

end
