(* ===== verification/Checkpoints.thy ===== *)
theory Checkpoints
  imports Files
begin

text \<open>
  Checkpoints of one rank (trainer/src/agentrl/trainer/checkpoint/) over the file system of \<open>Files\<close>:
  saving with rotation, loading, and finding the latest one. The states of model, optimizer,
  scheduler and random numbers are opaque values; what rank 0 writes with the libraries of the model
  is a program given as parameter. Barriers between the ranks are left out.
\<close>

section \<open>State\<close>

datatype 'm shard =
    ModelState 'm
  | OptimState "'m option"
  | ExtraState "'m option" "'m option"
  | Text string

record 'm manager =
  model_state :: 'm
  optimizer_state :: "'m option"
  scheduler_state :: "'m option"
  rng_state :: 'm
  previous_global_step :: "int option"
  previous_saved_paths :: "path list"

record 'm ckpt_setting =
  rank :: nat
  world_size :: nat
  checkpoint_contents :: "string list"
  dump_configs :: "path \<Rightarrow> ('m shard fs, unit) proc"
  dump_hf_model :: "path \<Rightarrow> ('m shard fs, unit) proc"

type_synonym ('m, 'a) ckpt_proc = "('m shard fs \<times> 'm manager, 'a) proc"

definition shard_path :: "'m ckpt_setting \<Rightarrow> string \<Rightarrow> path \<Rightarrow> path" where
  "shard_path S kind p =
     p @ [kind @ ''_world_size_'' @ nat_str (world_size S) @ ''_rank_'' @ nat_str (rank S) @ ''.pt'']"

definition checkpath :: "string option \<Rightarrow> string option \<Rightarrow> (bool \<times> string) res" where
  "checkpath local_path hdfs_path =
     (case (local_path, hdfs_path) of
        (Some p, _) \<Rightarrow> Inr (True, p)
      | (None, Some p) \<Rightarrow> Inr (False, p)
      | (None, None) \<Rightarrow> Inl AssertionError)"

section \<open>Saving\<close>

definition remove_previous :: "path list \<Rightarrow> 'm shard fs \<Rightarrow> 'm shard fs" where
  "remove_previous ps fs = foldl (\<lambda>fs p. if dict_get fs p = None then fs else remove_tree p fs) fs ps"

definition on_manager :: "('m manager \<Rightarrow> 'm manager) \<Rightarrow> ('m, unit) ckpt_proc" where
  "on_manager f = modify (\<lambda>s. (fst s, f (snd s)))"

text \<open>How many of the oldest checkpoints make room for one more.\<close>

definition removed_count :: "int option \<Rightarrow> nat \<Rightarrow> nat" where
  "removed_count max_ckpt_to_keep n =
     (case max_ckpt_to_keep of
        None \<Rightarrow> 0
      | Some k \<Rightarrow> if 0 < k \<and> k \<le> int n then n - nat k + 1 else 0)"

definition rotate_saved :: "int option \<Rightarrow> ('m, unit) ckpt_proc" where
  "rotate_saved max_ckpt_to_keep =
     modify (\<lambda>(fs, m).
       let n = removed_count max_ckpt_to_keep (length (previous_saved_paths m))
       in (remove_previous (take n (previous_saved_paths m)) fs,
           m\<lparr>previous_saved_paths := drop n (previous_saved_paths m)\<rparr>))"

definition save_shards :: "'m ckpt_setting \<Rightarrow> path \<Rightarrow> ('m, unit) ckpt_proc" where
  "save_shards S p =
     bnd (gets snd) (\<lambda>m.
     andthen (on_first (write_file (shard_path S ''model'' p) (ModelState (model_state m))))
     (andthen (on_first (write_file (shard_path S ''optim'' p) (OptimState (optimizer_state m))))
      (on_first (write_file (shard_path S ''extra_state'' p) (ExtraState (scheduler_state m) (Some (rng_state m)))))))"

definition save_checkpoint :: "'m ckpt_setting \<Rightarrow> path option \<Rightarrow> int \<Rightarrow> int option \<Rightarrow> ('m, unit) ckpt_proc" where
  "save_checkpoint S local_path global_step max_ckpt_to_keep =
     (case local_path of
        None \<Rightarrow> ret ()
      | Some p \<Rightarrow>
          andthen (on_manager (\<lambda>m. m\<lparr>previous_global_step := Some global_step\<rparr>))
          (andthen (rotate_saved max_ckpt_to_keep)
          (andthen (on_first (mkdir_parents p))
          (andthen (save_shards S p)
          (andthen (if rank S = 0 then on_first (dump_configs S p) else ret ())
          (andthen
            (if ''hf_model'' \<in> set (checkpoint_contents S)
             then andthen (on_first (mkdir_parents (p @ [''huggingface''])))
               (if rank S = 0 then on_first (dump_hf_model S (p @ [''huggingface''])) else ret ())
             else ret ())
            (on_manager (\<lambda>m. m\<lparr>previous_saved_paths := previous_saved_paths m @ [p]\<rparr>))))))))"

section \<open>Loading\<close>

definition load_shard :: "path \<Rightarrow> ('m, 'm shard) ckpt_proc" where
  "load_shard p =
     bnd (gets (\<lambda>s. file_content (fst s) p)) (\<lambda>c.
     case c of None \<Rightarrow> raise FileNotFoundError | Some c \<Rightarrow> ret c)"

text \<open>A state of another kind, or none, does not load.\<close>

definition load_checkpoint :: "'m ckpt_setting \<Rightarrow> path option \<Rightarrow> bool \<Rightarrow> ('m, unit) ckpt_proc" where
  "load_checkpoint S local_path del_local_after_load =
     (case local_path of
        None \<Rightarrow> ret ()
      | Some p \<Rightarrow>
          bnd (load_shard (shard_path S ''model'' p)) (\<lambda>model.
          bnd (load_shard (shard_path S ''optim'' p)) (\<lambda>optim.
          bnd (load_shard (shard_path S ''extra_state'' p)) (\<lambda>extra.
          andthen
            (if del_local_after_load
             then catch (on_first (andthen (unlink (shard_path S ''model'' p))
                   (andthen (unlink (shard_path S ''optim'' p)) (unlink (shard_path S ''extra_state'' p)))))
                 (\<lambda>_. ret ())
             else ret ())
            (case extra of
               ExtraState sched rng \<Rightarrow>
                 andthen (case model of ModelState x \<Rightarrow> on_manager (\<lambda>m. m\<lparr>model_state := x\<rparr>) | _ \<Rightarrow> raise RuntimeError)
                 (bnd (gets snd) (\<lambda>m.
                  andthen
                    (if optimizer_state m = None then ret ()
                     else case optim of
                       OptimState (Some x) \<Rightarrow> on_manager (\<lambda>m. m\<lparr>optimizer_state := Some x\<rparr>)
                     | _ \<Rightarrow> raise TypeError)
                    (andthen
                      (case rng of None \<Rightarrow> ret () | Some x \<Rightarrow> on_manager (\<lambda>m. m\<lparr>rng_state := x\<rparr>))
                      (if scheduler_state m = None then ret ()
                       else case sched of
                         None \<Rightarrow> raise TypeError
                       | Some x \<Rightarrow> on_manager (\<lambda>m. m\<lparr>scheduler_state := Some x\<rparr>)))))
             | _ \<Rightarrow> raise KeyError)))))"

definition tracker_file :: "path \<Rightarrow> path" where
  "tracker_file p = p @ [''latest_checkpointed_iteration.txt'']"

text \<open>The directory is named by the number in the tracker file; a file without a number raises.\<close>

definition find_latest_ckpt_path :: "'m shard fs \<Rightarrow> path option \<Rightarrow> path option res" where
  "find_latest_ckpt_path fs path =
     (case path of
        None \<Rightarrow> Inr None
      | Some p \<Rightarrow>
          (case file_content fs (tracker_file p) of
             None \<Rightarrow> if dict_get fs (tracker_file p) = Some Folder then Inl OSError else Inr None
           | Some (Text s) \<Rightarrow>
               (case parse_int (str_strip s) of
                  None \<Rightarrow> Inl ValueError
                | Some i \<Rightarrow>
                    let q = p @ [''global_step_'' @ int_str i]
                    in Inr (if dict_get fs q = None then None else Some q))
           | Some _ \<Rightarrow> Inl ValueError))"


section \<open>What is saved can be loaded\<close>

definition shards :: "'m ckpt_setting \<Rightarrow> path \<Rightarrow> path set" where
  "shards S p = {shard_path S ''model'' p, shard_path S ''optim'' p, shard_path S ''extra_state'' p}"

definition saved :: "'m ckpt_setting \<Rightarrow> path \<Rightarrow> 'm manager \<Rightarrow> 'm shard fs \<Rightarrow> bool" where
  "saved S p m fs \<longleftrightarrow>
     dict_get fs (shard_path S ''model'' p) = Some (File (ModelState (model_state m))) \<and>
     dict_get fs (shard_path S ''optim'' p) = Some (File (OptimState (optimizer_state m))) \<and>
     dict_get fs (shard_path S ''extra_state'' p) = Some (File (ExtraState (scheduler_state m) (Some (rng_state m))))"

text \<open>Programs that leave the shards as they are.\<close>

definition spares :: "path set \<Rightarrow> ('c fs, 'a) proc \<Rightarrow> bool" where
  "spares Q m \<longleftrightarrow> (\<forall>fs q. q \<in> Q \<longrightarrow> dict_get fs q \<noteq> None \<longrightarrow> dict_get (snd (m fs)) q = dict_get fs q)"

lemma spares_wp: "spares Q m \<Longrightarrow> (\<forall>q \<in> Q. dict_get fs q \<noteq> None) \<Longrightarrow>
    wp m (\<lambda>_ fs'. \<forall>q \<in> Q. dict_get fs' q = dict_get fs q) (\<lambda>_ _. True) fs"
  unfolding spares_def wp_def by (auto split: prod.split sum.split) (metis snd_conv)+

lemma saved_present: "saved S p m fs \<Longrightarrow> \<forall>q \<in> shards S p. dict_get fs q \<noteq> None"
  by (auto simp: saved_def shards_def)

lemma spares_saved:
  assumes "spares (shards S p) k" and "saved S p m fs"
  shows "wp k (\<lambda>_. saved S p m) (\<lambda>_ _. True) fs"
  by (rule wp_mono [OF spares_wp [OF assms(1) saved_present [OF assms(2)]]])
    (use assms(2) in \<open>auto simp: saved_def shards_def\<close>)

lemma spares_mkdir: "spares Q (mkdir_parents p)"
  unfolding spares_def
proof (intro allI impI)
  fix fs :: "'c fs" and q assume "dict_get fs q \<noteq> None"
  moreover have "folders_added {} fs (snd (mkdir_parents p fs))" by (rule wp_inv [OF wp_mkdir_parents])
  ultimately show "dict_get (snd (mkdir_parents p fs)) q = dict_get fs q"
    using folders_added_keeps by fastforce
qed

lemma write_file_wp: "wp (write_file p c) (\<lambda>_ fs'. fs' = dict_set p (File c) fs) (\<lambda>_ _. True) fs"
  by (auto simp: write_file_def put_node_def)

lemma shard_paths_differ [simp]:
  "shard_path S ''model'' p \<noteq> shard_path S ''optim'' p" "shard_path S ''model'' p \<noteq> shard_path S ''extra_state'' p"
  "shard_path S ''optim'' p \<noteq> shard_path S ''extra_state'' p"
  by (simp_all add: shard_path_def)

lemma writes_then:
  assumes "\<And>fs'. fs' = dict_set p (File c) fs \<Longrightarrow> Q () (fs', m)"
  shows "wp (on_first (write_file p c)) Q (\<lambda>_ _. True) (fs, m)"
  unfolding wp_on_first by (rule wp_mono [OF write_file_wp]) (use assms in auto)

lemma save_shards_saves: "wp (save_shards S p) (\<lambda>_ s. saved S p m (fst s)) (\<lambda>_ _. True) (fs, m)"
  unfolding save_shards_def
  by (simp, intro writes_then) (simp add: saved_def shard_paths_differ [symmetric])

text \<open>Rotation and steps touch no state that is saved.\<close>

definition same_states :: "'m manager \<Rightarrow> 'm manager \<Rightarrow> bool" where
  "same_states m n \<longleftrightarrow> model_state n = model_state m \<and> optimizer_state n = optimizer_state m \<and>
     scheduler_state n = scheduler_state m \<and> rng_state n = rng_state m"

lemma saved_same: "same_states m n \<Longrightarrow> saved S p n = saved S p m"
  by (rule ext) (simp add: same_states_def saved_def)

lemma save_saves:
  assumes "spares (shards S p) (dump_configs S p)" and "spares (shards S p) (dump_hf_model S (p @ [''huggingface'']))"
  shows "wp (save_checkpoint S (Some p) step keep) (\<lambda>_ s. saved S p m (fst s)) (\<lambda>_ _. True) (fs, m)"
proof -
  have kept: "wp (on_first k) Q (\<lambda>_ _. True) (u, n)" if "spares (shards S p) k" "saved S p m u"
      "\<And>x v. saved S p m v \<Longrightarrow> Q x (v, n)" for k :: "('a shard fs, unit) proc" and Q u n
    unfolding wp_on_first by (rule wp_mono [OF spares_saved [OF that(1,2)]]) (use that(3) in auto)
  have shards: "wp (save_shards S p) Q (\<lambda>_ _. True) (u, n)" if "same_states m n" "\<And>x s. saved S p m (fst s) \<Longrightarrow> Q x s" for Q u n
    by (rule wp_mono [OF save_shards_saves]) (use that(2) saved_same [OF that(1)] in auto)
  have any: "wp (on_first (mkdir_parents p)) Q (\<lambda>_ _. True) (u, n)" if "\<And>x v. Q x (v, n)" for Q u and n :: "'a manager"
    by (rule wp_first_any) (use that in auto)
  show ?thesis
    unfolding save_checkpoint_def
    by (auto simp: on_manager_def rotate_saved_def Let_def same_states_def split: prod.split
        intro!: any shards kept spares_mkdir assms)
qed


lemma saved_loads:
  assumes "saved S p m fs" and "optimizer_state n = None \<longleftrightarrow> optimizer_state m = None"
    and "scheduler_state n = None \<longleftrightarrow> scheduler_state m = None"
  shows "load_checkpoint S (Some p) False (fs, n) =
    (Inr (), (fs, n\<lparr>model_state := model_state m, optimizer_state := optimizer_state m,
       scheduler_state := scheduler_state m, rng_state := rng_state m\<rparr>))"
proof -
  have "load_shard (shard_path S ''model'' p) (fs, n) = (Inr (ModelState (model_state m)), (fs, n))"
    "load_shard (shard_path S ''optim'' p) (fs, n) = (Inr (OptimState (optimizer_state m)), (fs, n))"
    "load_shard (shard_path S ''extra_state'' p) (fs, n) =
      (Inr (ExtraState (scheduler_state m) (Some (rng_state m))), (fs, n))"
    using assms(1) by (simp_all add: saved_def load_shard_def file_content_def bnd_def gets_def ret_def)
  then show ?thesis
    using assms(2,3)
    by (cases "optimizer_state m"; cases "scheduler_state m")
      (auto simp: load_checkpoint_def bnd_def andthen_def on_manager_def modify_def gets_def ret_def)
qed

text \<open>
  C24: A checkpoint that was saved gives back the states of model, optimizer, scheduler and
  random numbers to a manager of the same rank, when what the libraries write beside it spares its files.
\<close>

theorem checkpoint_roundtrip:
  assumes "save_checkpoint S (Some p) step keep (fs, m) = (Inr (), (fs', m'))"
    and "spares (shards S p) (dump_configs S p)" and "spares (shards S p) (dump_hf_model S (p @ [''huggingface'']))"
    and "optimizer_state n = None \<longleftrightarrow> optimizer_state m = None"
    and "scheduler_state n = None \<longleftrightarrow> scheduler_state m = None"
  shows "load_checkpoint S (Some p) False (fs', n) =
    (Inr (), (fs', n\<lparr>model_state := model_state m, optimizer_state := optimizer_state m,
       scheduler_state := scheduler_state m, rng_state := rng_state m\<rparr>))"
proof -
  have "saved S p m fs'" using wp_Inr [OF save_saves [OF assms(2,3)] assms(1)] by simp
  then show ?thesis by (rule saved_loads [OF _ assms(4,5)])
qed

definition first_rank :: "nat ckpt_setting" where
  "first_rank =
     \<lparr>rank = 0, world_size = 2, checkpoint_contents = [''model'', ''optimizer'', ''extra''],
      dump_configs = (\<lambda>p. write_file (p @ [''config.json'']) (Text ''{}'')), dump_hf_model = (\<lambda>p. ret ())\<rparr>"

definition states :: "nat \<Rightarrow> nat manager" where
  "states x =
     \<lparr>model_state = x, optimizer_state = Some x, scheduler_state = None, rng_state = x,
      previous_global_step = None, previous_saved_paths = []\<rparr>"

lemma first_rank_spares:
  "spares (shards first_rank p) (dump_configs first_rank p)"
  "spares (shards first_rank p) (dump_hf_model first_rank q)"
proof -
  have "p @ [''config.json''] \<notin> shards first_rank p" by (simp add: shards_def shard_path_def)
  moreover have "spares Q (write_file r c)" if "r \<notin> Q" for Q r and c :: "nat shard"
    using that by (auto simp: spares_def write_file_def bnd_def gets_def put_node_def modify_def raise_def)
  ultimately show "spares (shards first_rank p) (dump_configs first_rank p)" by (simp add: first_rank_def)
qed (simp add: spares_def first_rank_def ret_def)

lemma checkpoint_roundtrip_witness:
  "\<exists>fs'. fst (save_checkpoint first_rank (Some [''c'']) 1 None ([], states 5)) = Inr () \<and>
    load_checkpoint first_rank (Some [''c'']) False (fs', states 9) = (Inr (), (fs', states 5))"
proof -
  have run: "fst (save_checkpoint first_rank (Some [''c'']) 1 None ([], states 5)) = Inr ()" by code_simp
  then obtain fs' m' where "save_checkpoint first_rank (Some [''c'']) 1 None ([], states 5) = (Inr (), (fs', m'))"
    by (cases "save_checkpoint first_rank (Some [''c'']) 1 None ([], states 5)") auto
  from checkpoint_roundtrip [OF this first_rank_spares, of "states 9"] run show ?thesis
    by (auto simp: states_def)
qed


section \<open>Rotation\<close>

lemma remove_tree_get: "dict_get (remove_tree p fs) q = (if q = p \<or> below p q then None else dict_get fs q)"
  by (induction fs) (auto simp: remove_tree_def)

lemma below_trans: "below p r \<Longrightarrow> below r q \<Longrightarrow> below p q"
  unfolding below_def by (metis less_imp_le less_trans min_absorb1 take_take)

text \<open>What is rotated out is gone with all below it, everything else stays.\<close>

lemma removed_previous:
  assumes "\<And>p q. p \<in> set ps \<Longrightarrow> below p q \<Longrightarrow> dict_get fs q \<noteq> None \<Longrightarrow> dict_get fs p \<noteq> None"
  shows "dict_get (remove_previous ps fs) q = (if \<exists>p \<in> set ps. q = p \<or> below p q then None else dict_get fs q)"
  using assms
proof (induction ps arbitrary: fs)
  case (Cons p ps)
  let ?fs = "if dict_get fs p = None then fs else remove_tree p fs"
  have one: "dict_get ?fs q = (if q = p \<or> below p q then None else dict_get fs q)" for q
    using Cons.prems [of p q] by (cases "dict_get fs q") (auto simp: remove_tree_get)
  have "dict_get ?fs r \<noteq> None" if "r \<in> set ps" "below r q" "dict_get ?fs q \<noteq> None" for r q
  proof -
    have q: "q \<noteq> p \<and> \<not> below p q" "dict_get fs q \<noteq> None" using that(3) unfolding one by (auto split: if_splits)
    then have "dict_get fs r \<noteq> None" using Cons.prems [of r q] that by simp
    moreover have "r \<noteq> p \<and> \<not> below p r" using q(1) that(2) below_trans by auto
    ultimately show ?thesis unfolding one by simp
  qed
  from Cons.IH [of ?fs, OF this] have "dict_get (remove_previous ps ?fs) q =
      (if \<exists>p \<in> set ps. q = p \<or> below p q then None else dict_get ?fs q)" .
  then show ?case unfolding one by (auto simp: remove_previous_def)
qed (simp add: remove_previous_def)

text \<open>The manager remembers the newest checkpoints, no more than it may keep.\<close>

lemma rotation_keeps_newest:
  assumes "save_checkpoint S (Some p) step (Some k) (fs, m) = (Inr (), (fs', m'))" and "0 < k"
  shows "previous_saved_paths m' =
    drop (Suc (length (previous_saved_paths m)) - nat k) (previous_saved_paths m @ [p])"
proof -
  let ?ps = "previous_saved_paths m"
  have kept: "wp (on_first c) Q (\<lambda>_ _. True) (u, n)" if "\<And>x v. Q x (v, n)" for c :: "('a shard fs, unit) proc" and Q u and n :: "'a manager"
    by (rule wp_first_any) (use that in auto)
  have shards: "wp (save_shards S p) Q (\<lambda>_ _. True) (u, n)" if "\<And>x v. Q x (v, n)" for Q u and n :: "'a manager"
    unfolding save_shards_def by (auto intro!: kept that)
  have "wp (save_checkpoint S (Some p) step (Some k))
      (\<lambda>_ s. previous_saved_paths (snd s) = drop (removed_count (Some k) (length ?ps)) ?ps @ [p]) (\<lambda>_ _. True) (fs, m)"
    unfolding save_checkpoint_def
    by (auto simp: on_manager_def rotate_saved_def Let_def split: prod.split intro!: kept shards)
  from wp_Inr [OF this assms(1)] show ?thesis
    using assms(2) by (auto simp: removed_count_def Suc_diff_le nat_le_iff split: if_splits)
qed

lemma latest_exists:
  "find_latest_ckpt_path fs p = Inr (Some q) \<Longrightarrow> dict_get fs q \<noteq> None"
  by (auto simp: find_latest_ckpt_path_def Let_def split: option.splits shard.splits if_splits)

end
