(* ===== verification/Worker_Transport.thy ===== *)
theory Worker_Transport
  imports Task_Worker_Proofs "HOL-Library.Multiset"
begin

text \<open>
  The transport of the task worker (worker/src/agentrl/worker/task\_worker\_grpc.py) and what of
  task\_worker.py it serves: the routing of requests of the controller to the methods of the
  worker, the queue of envelopes behind the stream with its restarts, heartbeats, notices of
  cancellation and calls of the controller. A handler that waits for a session goes on as a later
  step; the steps of the environments are those of Task_Worker. The parsing of JSON, its printing
  and the validation of request bodies are parameters.
\<close>

section \<open>Envelopes\<close>

datatype body =
    WorkerRequest string string string
  | WorkerResponse nat "string option" "string option"
  | HeartbeatRequest string string nat "(int option \<times> string option) list"
  | CancelNotice int

datatype envelope_type = RequestType | ResponseType | HeartbeatType

record envelope =
  envelope_id :: string
  envelope_type :: envelope_type
  envelope_body :: body

text \<open>An envelope without a request reads as the empty request.\<close>

definition worker_request :: "envelope \<Rightarrow> string \<times> string" where
  "worker_request e =
     (case envelope_body e of WorkerRequest m endpoint content \<Rightarrow> (endpoint, content) | _ \<Rightarrow> ([], []))"

definition response_to :: "string \<Rightarrow> nat \<Rightarrow> string option \<Rightarrow> string option \<Rightarrow> envelope" where
  "response_to k c m js =
     \<lparr>envelope_id = k, envelope_type = ResponseType, envelope_body = WorkerResponse c m js\<rparr>"

section \<open>What a method comes to\<close>

text \<open>
  \<open>ReturnedObject\<close>: a value that \<open>json.dumps\<close> refuses. An HTTP exception is treated alike whether
  raised or returned. \<open>Escaped\<close>: an exception that is no subclass of \<open>Exception\<close>.
\<close>

datatype outcome =
    Returned "json option"
  | ReturnedObject
  | ReturnedResponse nat string
  | HttpError nat string
  | Failed
  | Escaped

definition response_of :: "(json \<Rightarrow> string) \<Rightarrow> string \<Rightarrow> outcome \<Rightarrow> envelope option" where
  "response_of dumps k x =
     (case x of
        Returned None \<Rightarrow> Some (response_to k 200 None None)
      | Returned (Some j) \<Rightarrow> Some (response_to k 200 None (Some (dumps j)))
      | ReturnedObject \<Rightarrow> Some (response_to k 500 (Some ''Internal Server Error'') None)
      | ReturnedResponse c b \<Rightarrow> Some (response_to k c None (if b = [] then None else Some b))
      | HttpError c detail \<Rightarrow> Some (response_to k c (Some detail) None)
      | Failed \<Rightarrow> Some (response_to k 500 (Some ''Internal Server Error'') None)
      | Escaped \<Rightarrow> None)"

section \<open>The methods of the worker\<close>

text \<open>
  What the worker's methods get from outside: the validation of their bodies, the printing of
  what they return, and the task's own tools, indices and overall result. Messages of the agent
  that do not validate are read as none.
\<close>

record methods =
  loads :: "string \<Rightarrow> json option"
  dumps :: "json \<Rightarrow> string"
  start_request :: "json \<Rightarrow> (int \<times> sample_index) option"
  interact_request :: "json \<Rightarrow> (int \<times> json list) option"
  session_request :: "json \<Rightarrow> int option"
  overall_request :: "json \<Rightarrow> json list option"
  number :: "rat \<Rightarrow> json"
  session_tools :: "nat \<Rightarrow> json"
  task_tools :: json
  output_dump :: "session \<Rightarrow> json"
  render :: "json \<Rightarrow> string"
  worker_id :: string
  task_name :: string
  task_indices :: "sample_index list res"
  task_overall :: "json list \<Rightarrow> json option"

definition json_index :: "sample_index \<Rightarrow> json" where
  "json_index i = (case i of IntIndex n \<Rightarrow> JInt n | StrIndex s \<Rightarrow> JStr s)"

definition is_object :: "json \<Rightarrow> bool" where
  "is_object j = (case j of JObj d \<Rightarrow> True | _ \<Rightarrow> False)"

text \<open>What a handler waits for: the reply of a sample, or the end of samples being cancelled;
  a heartbeat loop goes on for ever.\<close>

datatype waiting = ForReply nat bool | ForCancel "nat list" "int option" | Forever

datatype called = Now outcome | Later waiting

definition started :: "int \<Rightarrow> sample_index \<Rightarrow> tworker \<Rightarrow> called \<times> tworker" where
  "started k ix w =
     (case start_sample k ix w of
        (Inl c, w1) \<Rightarrow>
          (Now (HttpError c (if c = 400 then ''Session ID already exists''
                             else ''Sample concurrency limit reached: '' @ nat_str (concurrency w))), w1)
      | (Inr u, w1) \<Rightarrow> (Later (ForReply (length (samples w)) True), w1))"

definition interacted :: "int \<Rightarrow> json list \<Rightarrow> tworker \<Rightarrow> called \<times> tworker" where
  "interacted k ms w =
     (case interact k ms w of
        (Inl c, w1) \<Rightarrow>
          (Now (if c = 400
                then HttpError 400 (if dict_get (session_map w) k = None then ''No such session''
                                    else ''Task Executing, please do not send new request.'')
                else Failed), w1)
      | (Inr u, w1) \<Rightarrow> (Later (ForReply (the (dict_get (session_map w) k)) False), w1))"

definition cancelled :: "int \<Rightarrow> bool \<Rightarrow> tworker \<Rightarrow> called \<times> tworker" where
  "cancelled k with_notice w =
     (case Task_Worker.cancel k with_notice w of
        (Inl c, w1) \<Rightarrow> (Now (HttpError c ''No such session''), w1)
      | (Inr u, w1) \<Rightarrow>
          (if with_notice then Now (Returned (Some (JObj [(''session_id'', JInt k)])))
           else Later (ForCancel [the (dict_get (session_map w) k)] (Some k)), w1))"

definition cancelled_all :: "bool \<Rightarrow> tworker \<Rightarrow> called \<times> tworker" where
  "cancelled_all with_notice w =
     ((if with_notice then Now (Returned None) else Later (ForCancel (map snd (session_map w)) None)),
      cancel_all with_notice w)"

text \<open>
  \<open>sample_status\<close> hands out the last output of the agent itself, which \<open>json.dumps\<close> refuses.
\<close>

definition status_outcome :: "methods \<Rightarrow> int \<Rightarrow> tworker \<Rightarrow> outcome" where
  "status_outcome M k w =
     (case sample_status_of k w of
        Inl c \<Rightarrow> HttpError c ''No such session''
      | Inr (ix, env, agent) \<Rightarrow>
          let s = session (samples w ! the (dict_get (session_map w) k)) in
          if env_input s \<noteq> None then ReturnedObject
          else Returned (Some (JObj [(''session_id'', JInt k), (''index'', json_index ix),
                 (''status'', JObj [(''waiting_for_env'', JBool env), (''waiting_for_agent'', JBool agent),
                                    (''env_input'', JNull), (''env_output'', output_dump M s)])])))"

definition status_str :: "sample_status \<Rightarrow> string" where
  "status_str s =
     (case s of
        RUNNING \<Rightarrow> ''running'' | COMPLETED \<Rightarrow> ''completed''
      | AGENT_CONTEXT_LIMIT \<Rightarrow> ''agent context limit''
      | AGENT_VALIDATION_FAILED \<Rightarrow> ''agent validation failed''
      | AGENT_INVALID_ACTION \<Rightarrow> ''agent invalid action''
      | TASK_LIMIT_REACHED \<Rightarrow> ''task limit reached'' | UNKNOWN \<Rightarrow> ''unknown''
      | TASK_ERROR \<Rightarrow> ''task error'' | CANCELLED \<Rightarrow> ''cancelled'')"

definition chat_json :: "history_item \<Rightarrow> json" where
  "chat_json x = (case x of Chat j \<Rightarrow> j | RewardItem r m \<Rightarrow> JNull)"

definition response_json :: "methods \<Rightarrow> json \<Rightarrow> response \<Rightarrow> json" where
  "response_json M ts r =
     JObj [(''messages'', JList (map chat_json (messages r))), (''tools'', ts),
           (''status'', JStr (status_str (status r))), (''finish'', JBool (finish r)),
           (''reward'', number M (reward r)), (''metric'', JObj (metric r))]"

text \<open>\<open>start_sample\<close> and \<open>interact\<close> from the wake-up on.\<close>

definition replied_outcome :: "methods \<Rightarrow> nat \<Rightarrow> bool \<Rightarrow> tworker \<Rightarrow> outcome" where
  "replied_outcome M i starting w =
     (let r = samples w ! i; c = response_content (session r)
      in if starting then ReturnedResponse 200 (render M (response_json M (session_tools M i) c))
         else Returned (Some (JObj [(''session_id'', JInt (session_id r)),
                                    (''env_out'', response_json M (task_tools M) c)])))"

text \<open>
  A method of one parameter takes an object that its model validates; anything else that is no
  object is handed on as it is, and the method fails on it.
\<close>

definition validated :: "(json \<Rightarrow> 'a option) \<Rightarrow> json option \<Rightarrow> 'a option" where
  "validated model d = (case d of Some j \<Rightarrow> if is_object j then model j else None | None \<Rightarrow> None)"

definition with_model ::
    "(json \<Rightarrow> 'a option) \<Rightarrow> json option \<Rightarrow> ('a \<Rightarrow> tworker \<Rightarrow> called \<times> tworker) \<Rightarrow> tworker \<Rightarrow> called \<times> tworker" where
  "with_model model d f w = (case validated model d of Some x \<Rightarrow> f x w | None \<Rightarrow> (Now Failed, w))"

text \<open>
  \<open>getattr\<close> finds every method of the worker, not only those with a route. Methods with more than
  one parameter are refused, attributes that cannot be called or awaited fail. The names every
  Python object has are left out.
\<close>

definition invoke :: "methods \<Rightarrow> string \<Rightarrow> json option \<Rightarrow> tworker \<Rightarrow> called \<times> tworker" where
  "invoke M endpoint d w =
     (if endpoint = ''start_sample'' then with_model (start_request M) d (\<lambda>(k, ix). started k ix) w
      else if endpoint = ''interact'' then with_model (interact_request M) d (\<lambda>(k, ms). interacted k ms) w
      else if endpoint = ''cancel'' then with_model (session_request M) d (\<lambda>k. cancelled k False) w
      else if endpoint = ''cancel_with_notice'' then with_model (session_request M) d (\<lambda>k. cancelled k True) w
      else if endpoint = ''cancel_all'' then cancelled_all False w
      else if endpoint = ''cancel_all_with_notice'' then cancelled_all True w
      else if endpoint = ''_cancel_all'' then
        (case d of
           None \<Rightarrow> cancelled_all False w
         | Some j \<Rightarrow> if is_object j then (Now Failed, w) else cancelled_all (json_truth j) w)
      else if endpoint = ''worker_status'' then
        (Now (Returned (Some (JObj [(''concurrency'', JInt (int (fst (worker_status w)))),
                                    (''current'', JInt (int (snd (worker_status w))))]))), w)
      else if endpoint = ''sample_status'' then
        with_model (session_request M) d (\<lambda>k w. (Now (status_outcome M k w), w)) w
      else if endpoint = ''get_sessions'' then
        (Now (Returned (Some (JObj (map (\<lambda>(k, ix). (int_str k, json_index ix)) (get_sessions w))))), w)
      else if endpoint = ''get_indices'' then
        (Now (case task_indices M of Inl e \<Rightarrow> Failed | Inr is \<Rightarrow> Returned (Some (JList (map json_index is)))), w)
      else if endpoint = ''calculate_overall'' then
        with_model (overall_request M) d (\<lambda>rs w. (Now (case task_overall M rs of None \<Rightarrow> Failed | Some j \<Rightarrow> Returned (Some j)), w)) w
      else if endpoint = ''heart_beat'' then (Later Forever, w)
      else (Now Failed, w))"

section \<open>The transport\<close>

text \<open>
  \<open>silent\<close>: requests whose handler was left by an exception that is not caught, with the
  cancellations it had started. \<open>unfinished\<close> is the count of the queue that \<open>task_done\<close> lowers.
\<close>

record transport =
  worker :: tworker
  handlers :: "(string \<times> waiting) list"
  silent :: "(string \<times> nat list) list"
  queue :: "envelope list"
  unfinished :: nat
  in_flight :: "envelope option"
  sent :: "envelope list"
  lost :: "envelope list"
  connected :: bool

definition transport_init :: "tworker \<Rightarrow> transport" where
  "transport_init w =
     \<lparr>worker = w, handlers = [], silent = [], queue = [], unfinished = 0, in_flight = None, sent = [],
      lost = [], connected = False\<rparr>"

definition put_message :: "envelope \<Rightarrow> transport \<Rightarrow> transport" where
  "put_message e t = t\<lparr>queue := queue t @ [e], unfinished := unfinished t + 1\<rparr>"

definition answer :: "methods \<Rightarrow> string \<Rightarrow> outcome \<Rightarrow> nat list \<Rightarrow> transport \<Rightarrow> transport" where
  "answer M k x is t =
     (case response_of (dumps M) k x of
        Some e \<Rightarrow> put_message e t
      | None \<Rightarrow> t\<lparr>silent := silent t @ [(k, is)]\<rparr>)"

definition request_data :: "methods \<Rightarrow> string \<Rightarrow> json option" where
  "request_data M content = (if content = [] then None else loads M content)"

definition route_message :: "methods \<Rightarrow> envelope \<Rightarrow> transport \<Rightarrow> transport" where
  "route_message M e t =
     (if envelope_type e = RequestType then
        (case worker_request e of (endpoint, content) \<Rightarrow>
           case invoke M endpoint (request_data M content) (worker t) of
             (Now x, w) \<Rightarrow> answer M (envelope_id e) x [] (t\<lparr>worker := w\<rparr>)
           | (Later h, w) \<Rightarrow> t\<lparr>worker := w, handlers := handlers t @ [(envelope_id e, h)]\<rparr>)
      else t)"

definition remove_nth :: "nat \<Rightarrow> 'a list \<Rightarrow> 'a list" where
  "remove_nth n xs = take n xs @ drop (Suc n) xs"

definition first_index :: "('a \<Rightarrow> bool) \<Rightarrow> 'a list \<Rightarrow> nat" where
  "first_index P xs = length (takeWhile (\<lambda>x. \<not> P x) xs)"

text \<open>One of the cancellations a handler waits for: whether it is over, and the worker after it.\<close>

definition cancel_wait :: "nat \<Rightarrow> tworker \<Rightarrow> bool \<times> tworker" where
  "cancel_wait i w =
     (let w1 = cancel_task (first_index (\<lambda>c. c = (i, False)) (cancel_tasks w)) w
      in (length (cancel_tasks w1) < length (cancel_tasks w), w1))"

definition crashes :: "nat \<Rightarrow> tworker \<Rightarrow> bool" where
  "crashes i w \<longleftrightarrow> \<not> full_async w \<and> phase (samples w ! i) = Crashed"

definition resume_handler :: "methods \<Rightarrow> nat \<Rightarrow> nat \<Rightarrow> transport \<Rightarrow> transport" where
  "resume_handler M h n t =
     (if h < length (handlers t) then
        let (k, x) = handlers t ! h; t1 = t\<lparr>handlers := remove_nth h (handlers t)\<rparr>
        in case x of
             Forever \<Rightarrow> t
           | ForReply i starting \<Rightarrow>
               (let s = session (samples (worker t) ! i) in
                if i < length (samples (worker t)) \<and> agent_lock s \<and> 0 < agent_signal s
                then answer M k (replied_outcome M i starting (worker t)) [] (t1\<lparr>worker := reply i (worker t)\<rparr>)
                else t)
           | ForCancel is sid \<Rightarrow>
               (if is = [] then
                  answer M k (Returned (map_option (\<lambda>s. JObj [(''session_id'', JInt s)]) sid)) [] t1
                else if n < length is then
                  (case cancel_wait (is ! n) (worker t) of (over, w) \<Rightarrow>
                     if \<not> over then t
                     else if crashes (is ! n) (worker t)
                     then answer M k Escaped (remove_nth n is) (t1\<lparr>worker := w\<rparr>)
                     else t\<lparr>worker := w, handlers := (handlers t)[h := (k, ForCancel (remove_nth n is) sid)]\<rparr>)
                else t)
      else t)"

text \<open>The other cancellations of a handler that was left go on without it.\<close>

definition drain_silent :: "nat \<Rightarrow> nat \<Rightarrow> transport \<Rightarrow> transport" where
  "drain_silent h n t =
     (if h < length (silent t) \<and> n < length (snd (silent t ! h)) then
        let (k, is) = silent t ! h
        in case cancel_wait (is ! n) (worker t) of (over, w) \<Rightarrow>
             if over then t\<lparr>worker := w, silent := (silent t)[h := (k, remove_nth n is)]\<rparr> else t
      else t)"

text \<open>A cancellation with notice, and the envelope of the notice.\<close>

definition cancel_notice :: "string \<Rightarrow> int \<Rightarrow> envelope" where
  "cancel_notice uuid k =
     \<lparr>envelope_id = uuid, envelope_type = RequestType, envelope_body = CancelNotice k\<rparr>"

definition background_cancel :: "nat \<Rightarrow> string \<Rightarrow> transport \<Rightarrow> transport" where
  "background_cancel j uuid t =
     (if j < length (cancel_tasks (worker t)) \<and> snd (cancel_tasks (worker t) ! j) then
        let w = cancel_task j (worker t)
        in fold put_message (map (cancel_notice uuid) (drop (length (notices (worker t))) (notices w)))
             (t\<lparr>worker := w\<rparr>)
      else t)"

definition task_index :: "sample_index \<Rightarrow> int option \<times> string option" where
  "task_index i = (case i of IntIndex n \<Rightarrow> (Some n, None) | StrIndex s \<Rightarrow> (None, Some s))"

text \<open>A heartbeat whose indices the task cannot give is only logged.\<close>

definition send_heartbeat :: "methods \<Rightarrow> string \<Rightarrow> transport \<Rightarrow> transport" where
  "send_heartbeat M uuid t =
     (case task_indices M of
        Inl e \<Rightarrow> t
      | Inr is \<Rightarrow>
          put_message \<lparr>envelope_id = uuid, envelope_type = HeartbeatType,
            envelope_body = HeartbeatRequest (worker_id M) (task_name M) (concurrency (worker t)) (map task_index is)\<rparr> t)"

text \<open>\<open>call_api\<close> with a body that was printed already, or none.\<close>

definition call_api :: "string \<Rightarrow> string \<Rightarrow> string \<Rightarrow> string option \<Rightarrow> transport \<Rightarrow> transport" where
  "call_api uuid verb endpoint content t =
     put_message \<lparr>envelope_id = uuid, envelope_type = RequestType,
       envelope_body = WorkerRequest verb endpoint (case content of None \<Rightarrow> [] | Some c \<Rightarrow> c)\<rparr> t"

section \<open>The stream\<close>

text \<open>
  \<open>task_done\<close> raises when the count is zero already: the send loop ends and the stream is restarted.
\<close>

definition task_done :: "transport \<Rightarrow> transport" where
  "task_done t =
     (if unfinished t = 0 then t\<lparr>connected := False\<rparr> else t\<lparr>unfinished := unfinished t - 1\<rparr>)"

text \<open>The send loop gets an envelope, and writes it or fails.\<close>

definition get_message :: "transport \<Rightarrow> transport" where
  "get_message t =
     (case queue t of
        e # q \<Rightarrow> if connected t \<and> in_flight t = None then t\<lparr>in_flight := Some e, queue := q\<rparr> else t
      | [] \<Rightarrow> t)"

definition written :: "bool \<Rightarrow> transport \<Rightarrow> transport" where
  "written ok t =
     (case in_flight t of
        None \<Rightarrow> t
      | Some e \<Rightarrow>
          task_done (if ok then t\<lparr>in_flight := None, sent := sent t @ [e]\<rparr>
                     else t\<lparr>in_flight := None, lost := lost t @ [e]\<rparr>))"

text \<open>
  A stream that is closed cancels the send loop: an envelope that is being written is given up,
  and \<open>task_done\<close> is called also by a loop that waits for one.
\<close>

definition close_stream :: "transport \<Rightarrow> transport" where
  "close_stream t =
     (if connected t then
        (case in_flight t of
           Some e \<Rightarrow> written False t
         | None \<Rightarrow> task_done t)\<lparr>connected := False\<rparr>
      else t)"

section \<open>Steps\<close>

datatype transport_event =
    Receive envelope | Resume nat nat | Drain nat nat | Background nat string | Environment event
  | Heartbeat string | CallApi string string string "string option" | Connect | Get | Written bool | Close

text \<open>Steps of the environments and of their ends; requests come from the stream only.\<close>

definition of_environment :: "event \<Rightarrow> bool" where
  "of_environment e =
     (case e of
        StartSample k ix \<Rightarrow> False | Interact k ms \<Rightarrow> False | Reply i \<Rightarrow> False | Task_Worker.Cancel k n \<Rightarrow> False
      | CancelAll n \<Rightarrow> False | RunCancel j \<Rightarrow> False | _ \<Rightarrow> True)"

primrec transport_step :: "methods \<Rightarrow> transport_event \<Rightarrow> transport \<Rightarrow> transport" where
  "transport_step M (Receive e) t = (if connected t then route_message M e t else t)"
| "transport_step M (Resume h n) t = resume_handler M h n t"
| "transport_step M (Drain h n) t = drain_silent h n t"
| "transport_step M (Background j uuid) t = background_cancel j uuid t"
| "transport_step M (Environment e) t = (if of_environment e then t\<lparr>worker := act e (worker t)\<rparr> else t)"
| "transport_step M (Heartbeat uuid) t = send_heartbeat M uuid t"
| "transport_step M (CallApi uuid verb endpoint c) t = call_api uuid verb endpoint c t"
| "transport_step M Connect t = t\<lparr>connected := True\<rparr>"
| "transport_step M Get t = get_message t"
| "transport_step M (Written ok) t = written ok t"
| "transport_step M Close t = close_stream t"

definition run_transport :: "methods \<Rightarrow> transport_event list \<Rightarrow> transport \<Rightarrow> transport" where
  "run_transport M = fold (transport_step M)"

lemma run_transport_simps [simp]:
  "run_transport M [] t = t" "run_transport M (e # es) t = run_transport M es (transport_step M e t)"
  by (simp_all add: run_transport_def)

section \<open>The worker behind the transport\<close>

text \<open>The ids that requests to start a sample carry, in the order of their arrival.\<close>

definition requested_starts :: "methods \<Rightarrow> transport_event list \<Rightarrow> int list" where
  "requested_starts M es =
     concat (map (\<lambda>e. case e of
                        Receive m \<Rightarrow>
                          (if envelope_type m = RequestType \<and> fst (worker_request m) = ''start_sample'' then
                             (case validated (start_request M) (request_data M (snd (worker_request m))) of
                                None \<Rightarrow> [] | Some (k, ix) \<Rightarrow> [k])
                           else [])
                      | _ \<Rightarrow> []) es)"

lemma subseq_distinct: "subseq xs ys \<Longrightarrow> distinct ys \<Longrightarrow> distinct xs"
  by (induction rule: list_emb.induct) (auto dest: list_emb_set)

text \<open>A worker reached from another by events whose starts are the given ones.\<close>

definition reached :: "int list \<Rightarrow> tworker \<Rightarrow> tworker \<Rightarrow> bool" where
  "reached ks w w' \<longleftrightarrow> (\<exists>es. w' = run_events es w \<and> start_ids es = ks)"

lemma reached_refl: "reached [] w w"
  by (auto simp: reached_def run_events_def start_ids_def intro!: exI [of _ "[]"])

lemma reached_act: "start_ids [e] = ks \<Longrightarrow> reached ks w (act e w)"
  by (auto simp: reached_def run_events_def intro!: exI [of _ "[e]"])

lemma reached_trans: "reached ks w v \<Longrightarrow> reached ls v u \<Longrightarrow> reached (ks @ ls) w u"
  unfolding reached_def
proof (elim exE conjE)
  fix es fs
  assume "v = run_events es w" "start_ids es = ks" "u = run_events fs v" "start_ids fs = ls"
  then show "\<exists>gs. u = run_events gs w \<and> start_ids gs = ks @ ls"
    by (intro exI [of _ "es @ fs"]) (simp add: run_events_def start_ids_def)
qed

lemma snd_methods [simp]:
  "snd (started k ix w) = snd (start_sample k ix w)"
  "snd (interacted k ms w) = snd (interact k ms w)"
  "snd (cancelled k n w) = snd (Task_Worker.cancel k n w)"
  by (auto simp: started_def interacted_def cancelled_def split: prod.split sum.split)

lemma reached_started: "reached [k] w (snd (start_sample k ix w))"
  using reached_act [of "StartSample k ix" "[k]" w] by (simp add: start_ids_def)

lemma reached_interacted: "reached [] w (snd (interact k ms w))"
  using reached_act [of "Interact k ms" "[]" w] by (simp add: start_ids_def)

lemma reached_cancelled: "reached [] w (snd (Task_Worker.cancel k n w))"
  using reached_act [of "Task_Worker.Cancel k n" "[]" w] by (simp add: start_ids_def)

lemma reached_cancelled_all: "reached [] w (cancel_all n w)"
  using reached_act [of "CancelAll n" "[]" w] by (simp add: start_ids_def)

lemmas reached_methods = reached_refl reached_started reached_interacted reached_cancelled reached_cancelled_all

lemma reached_invoke:
  "reached (if endpoint = ''start_sample''
            then (case validated (start_request M) d of None \<Rightarrow> [] | Some (k, ix) \<Rightarrow> [k]) else [])
     w (snd (invoke M endpoint d w))"
  by (simp add: invoke_def with_model_def reached_methods cancelled_all_def split: option.split prod.split)

lemma worker_puts [simp]: "worker (fold put_message ms t) = worker t"
  by (induction ms arbitrary: t) (simp_all add: put_message_def)

lemma worker_answer [simp]: "worker (answer M k x is t) = worker t"
  by (simp add: answer_def put_message_def split: option.split)

lemma reached_cancel_task: "reached [] w (cancel_task j w)"
  using reached_act [of "RunCancel j" "[]" w] by (simp add: start_ids_def)

lemma reached_cancel_wait: "cancel_wait i w = (b, w') \<Longrightarrow> reached [] w w'"
  by (auto simp: cancel_wait_def Let_def reached_cancel_task)

lemma reached_reply: "reached [] w (reply i w)"
  using reached_act [of "Reply i" "[]" w] by (simp add: start_ids_def)

lemma reached_route:
  "connected t \<Longrightarrow> reached (requested_starts M [Receive e]) (worker t) (worker (route_message M e t))"
  using reached_invoke [of "fst (worker_request e)" M "request_data M (snd (worker_request e))" "worker t"]
  by (auto simp: route_message_def requested_starts_def reached_refl split: prod.split called.split if_splits)

lemma reached_resume: "reached [] (worker t) (worker (resume_handler M h n t))"
  by (auto simp: resume_handler_def Let_def reached_refl reached_reply dest: reached_cancel_wait
      split: prod.split waiting.split)

lemma reached_stream [simp]:
  "worker (task_done t) = worker t" "worker (get_message t) = worker t" "worker (written ok t) = worker t"
  "worker (close_stream t) = worker t" "worker (call_api u v p c t) = worker t"
  "worker (send_heartbeat M u t) = worker t"
  by (simp_all add: task_done_def get_message_def written_def close_stream_def call_api_def send_heartbeat_def
      put_message_def split: option.split list.split sum.split)

lemma reached_step:
  "\<exists>ks. subseq ks (requested_starts M [e]) \<and> reached ks (worker t) (worker (transport_step M e t))"
proof (cases e)
  case (Receive m)
  then show ?thesis using reached_route [of t M m] reached_refl by (cases "connected t") auto
next
  case (Environment x)
  then show ?thesis using reached_act [of x "[]" "worker t"] reached_refl
    by (auto simp: of_environment_def start_ids_def split: event.splits)
qed (auto simp: reached_refl reached_resume drain_silent_def background_cancel_def Let_def reached_cancel_task
    dest: reached_cancel_wait split: prod.split intro!: exI [of _ "[]"])

lemma requested_starts_Cons: "requested_starts M (e # es) = requested_starts M [e] @ requested_starts M es"
  by (simp add: requested_starts_def)

lemma reached_run:
  "\<exists>ks. subseq ks (requested_starts M es) \<and> reached ks (worker t) (worker (run_transport M es t))"
proof (induction es arbitrary: t)
  case Nil
  show ?case using reached_refl by auto
next
  case (Cons e es)
  from reached_step [of M e t] obtain ks where ks: "subseq ks (requested_starts M [e])"
    "reached ks (worker t) (worker (transport_step M e t))" by blast
  moreover from Cons.IH [of "transport_step M e t"] obtain ls where
    "subseq ls (requested_starts M es)"
    "reached ls (worker (transport_step M e t)) (worker (run_transport M es (transport_step M e t)))" by blast
  ultimately have "subseq (ks @ ls) (requested_starts M (e # es))"
    "reached (ks @ ls) (worker t) (worker (run_transport M (e # es) t))"
    by (auto simp: requested_starts_Cons [of M e es] intro: list_emb_append_mono reached_trans)
  then show ?case by blast
qed

lemma map_ok_run: "map_ok w \<Longrightarrow> map_ok (run_events es w) \<and> concurrency (run_events es w) = concurrency w"
proof (induction es arbitrary: w)
  case (Cons e es)
  then show ?case using Cons.IH [OF map_ok_act [OF Cons.prems]] by (simp add: run_events_def)
qed (simp add: run_events_def)

text \<open>
  C6: whatever the controller sends over the stream, in whatever order handlers, environments,
  writes, failures and reconnections interleave, the worker behind it goes through a sequence of
  its own steps, with no sample started that was not asked for, and it never holds more sessions
  than its concurrency. If the task is not fully asynchronous and no session id is asked for twice,
  there are never more samples that have not ended than that either. (A fully asynchronous task
  frees the session of a cancelled sample while the sample still runs.)
\<close>

theorem remote_worker_within_concurrency:
  "\<exists>ws. worker (run_transport M es (transport_init (worker_init n fa))) = run_events ws (worker_init n fa) \<and>
     subseq (start_ids ws) (requested_starts M es) \<and>
     length (session_map (worker (run_transport M es (transport_init (worker_init n fa))))) \<le> n \<and>
     (\<not> fa \<and> distinct (requested_starts M es) \<longrightarrow>
        length (filter (\<lambda>r. phase r \<noteq> Ended)
          (samples (worker (run_transport M es (transport_init (worker_init n fa)))))) \<le> n)"
proof -
  from reached_run [of M es "transport_init (worker_init n fa)"] obtain ws where
    ws: "subseq (start_ids ws) (requested_starts M es)"
      "worker (run_transport M es (transport_init (worker_init n fa))) = run_events ws (worker_init n fa)"
    by (auto simp: reached_def transport_init_def)
  have m: "map_ok (run_events ws (worker_init n fa))" "concurrency (run_events ws (worker_init n fa)) = n"
    using map_ok_run [OF worker_start(1)] by (simp_all add: worker_init_def)
  have "length (filter (\<lambda>r. phase r \<noteq> Ended) (samples (run_events ws (worker_init n fa)))) \<le> n"
    if "\<not> fa" and d: "distinct (requested_starts M es)"
  proof -
    have "distinct (ids (worker_init n False) @ start_ids ws)"
      using ws(1) d by (auto simp: worker_init_def ids_def dest: subseq_distinct)
    from run_slots [OF worker_start this] have "slots_ok (run_events ws (worker_init n fa))"
      using that(1) by simp
    from unfinished_bound [OF m(1) this] m(2) show ?thesis by simp
  qed
  moreover have "length (session_map (run_events ws (worker_init n fa))) \<le> n"
    using m by (simp add: map_ok_def)
  ultimately show ?thesis using ws by auto
qed

text \<open>With a fully asynchronous task of concurrency one, two samples run after a cancellation.\<close>

lemma full_async_frees_while_running:
  "let w = run_events [StartSample 1 (IntIndex 1), Cancel 1 False, RunCancel 0, StartSample 2 (IntIndex 1)]
         (worker_init 1 True)
   in map phase (samples w) = [Active, Active] \<and> dict_keys (session_map w) = [2]"
  by code_simp

section \<open>Every request and its response\<close>

definition traffic :: "transport \<Rightarrow> envelope list" where
  "traffic t = sent t @ lost t @ (case in_flight t of None \<Rightarrow> [] | Some e \<Rightarrow> [e]) @ queue t"

definition response_ids :: "envelope list \<Rightarrow> string list" where
  "response_ids es = map envelope_id (filter (\<lambda>e. envelope_type e = ResponseType) es)"

text \<open>The ids of the requests that arrive in a run.\<close>

definition arrived :: "transport_event \<Rightarrow> transport \<Rightarrow> string list" where
  "arrived e t =
     (case e of Receive m \<Rightarrow> if connected t \<and> envelope_type m = RequestType then [envelope_id m] else [] | _ \<Rightarrow> [])"

fun arrivals :: "methods \<Rightarrow> transport_event list \<Rightarrow> transport \<Rightarrow> string list" where
  "arrivals M [] t = []"
| "arrivals M (e # es) t = arrived e t @ arrivals M es (transport_step M e t)"

definition accounted :: "transport \<Rightarrow> string multiset" where
  "accounted t =
     mset (response_ids (traffic t)) + mset (map fst (handlers t)) + mset (map fst (silent t))"

lemma mset_remove_nth: "n < length xs \<Longrightarrow> mset xs = add_mset (xs ! n) (mset (remove_nth n xs))"
proof -
  assume n: "n < length xs"
  have "mset xs = mset (take n xs @ xs ! n # drop (Suc n) xs)" using id_take_nth_drop [OF n] by metis
  then show ?thesis by (simp add: remove_nth_def)
qed

lemma accounted_put [simp]:
  "accounted (put_message e t) =
     accounted t + (if envelope_type e = ResponseType then {#envelope_id e#} else {#})"
  by (simp add: accounted_def traffic_def response_ids_def put_message_def)

lemma accounted_worker [simp]: "accounted (t\<lparr>worker := w\<rparr>) = accounted t"
  by (simp add: accounted_def traffic_def)

lemma accounted_handlers:
  "accounted (t\<lparr>handlers := hs\<rparr>) + mset (map fst (handlers t)) = accounted t + mset (map fst hs)"
  by (simp add: accounted_def traffic_def)

lemma accounted_answer [simp]: "accounted (answer M k x is t) = accounted t + {#k#}"
proof -
  have "envelope_type e = ResponseType \<and> envelope_id e = k" if "response_of (dumps M) k x = Some e" for e
    using that by (auto simp: response_of_def response_to_def split: outcome.splits option.splits)
  then show ?thesis
    by (auto simp: answer_def split: option.split) (simp add: accounted_def traffic_def)
qed

lemma accounted_finished:
  assumes "h < length (handlers t)" and "handlers t ! h = (k, x)"
  shows "accounted t = accounted (t\<lparr>handlers := remove_nth h (handlers t)\<rparr>) + {#k#}"
  using accounted_handlers [of "remove_nth h (handlers t)" t] mset_remove_nth [OF assms(1)] assms(2) by simp

lemma accounted_notices [simp]: "accounted (fold put_message (map (cancel_notice u) ks) t) = accounted t"
  by (induction ks arbitrary: t) (simp_all add: cancel_notice_def)

lemma map_fst_same: "h < length xs \<Longrightarrow> fst (xs ! h) = k \<Longrightarrow> map fst (xs[h := (k, y)]) = map fst xs"
  by (simp add: map_update list_update_same_conv)

lemma accounted_resume: "accounted (resume_handler M h n t) = accounted t"
proof (cases "h < length (handlers t)")
  case True
  obtain k x where x: "handlers t ! h = (k, x)" by force
  have same: "accounted (t\<lparr>worker := w, handlers := (handlers t)[h := (k, y)]\<rparr>) = accounted t" for w y
    using map_fst_same [OF True, of k y] x by (simp add: accounted_def traffic_def)
  have one: "accounted (t\<lparr>handlers := remove_nth h (handlers t), worker := w\<rparr>) + {#k#} = accounted t" for w
    using accounted_finished [OF True x] by (simp add: accounted_def traffic_def)
  show ?thesis using True x same one accounted_finished [OF True x]
    by (cases x) (auto simp: resume_handler_def Let_def split: prod.split)
qed (simp add: resume_handler_def)

lemma accounted_drain: "accounted (drain_silent h n t) = accounted t"
proof (cases "h < length (silent t)")
  case True
  obtain k js where "silent t ! h = (k, js)" by force
  then show ?thesis using map_fst_same [OF True, of k]
    by (auto simp: drain_silent_def Let_def accounted_def traffic_def simp del: mset_map split: prod.split)
qed (simp add: drain_silent_def)

lemma accounted_done [simp]: "accounted (task_done t) = accounted t"
  by (simp add: task_done_def accounted_def traffic_def)

lemma accounted_written [simp]: "accounted (written ok t) = accounted t"
proof -
  have "accounted (t\<lparr>in_flight := None, sent := sent t @ [e]\<rparr>) = accounted t"
    "accounted (t\<lparr>in_flight := None, lost := lost t @ [e]\<rparr>) = accounted t" if "in_flight t = Some e" for e
    using that by (simp_all add: accounted_def traffic_def response_ids_def)
  then show ?thesis by (simp add: written_def split: option.split)
qed

lemma accounted_connected [simp]: "accounted (t\<lparr>connected := b\<rparr>) = accounted t"
  by (simp add: accounted_def traffic_def)

lemma accounted_close [simp]: "accounted (close_stream t) = accounted t"
  by (simp add: close_stream_def split: option.split)

lemma accounted_get [simp]: "accounted (get_message t) = accounted t"
  by (simp add: get_message_def accounted_def traffic_def response_ids_def split: list.split)

lemma accounted_route:
  "accounted (route_message M e t) =
     accounted t + (if envelope_type e = RequestType then {#envelope_id e#} else {#})"
proof -
  have "accounted (t\<lparr>worker := w, handlers := handlers t @ [(k, h)]\<rparr>) = accounted t + {#k#}" for w k h
    by (simp add: accounted_def traffic_def)
  then show ?thesis by (simp add: route_message_def split: prod.split called.split)
qed

lemma accounted_step: "accounted (transport_step M e t) = accounted t + mset (arrived e t)"
proof (cases e)
  case (Receive m)
  then show ?thesis by (simp add: accounted_route arrived_def)
next
  case (Background j uuid)
  then show ?thesis by (simp add: background_cancel_def Let_def arrived_def)
next
  case (Heartbeat u)
  then show ?thesis by (simp add: send_heartbeat_def arrived_def split: sum.split)
qed (simp_all add: accounted_resume accounted_drain call_api_def arrived_def)

lemma accounted_run: "accounted (run_transport M es t) = accounted t + mset (arrivals M es t)"
  by (induction es arbitrary: t) (simp_all add: accounted_step)

section \<open>What a stream can lose\<close>

text \<open>The failed writes and the closings of a run.\<close>

definition failures :: "transport_event list \<Rightarrow> nat" where
  "failures es = length (filter (\<lambda>e. e = Written False \<or> e = Close) es)"

lemma lost_same [simp]:
  "lost (put_message e t) = lost t" "lost (fold put_message ms t) = lost t" "lost (task_done t) = lost t"
  "lost (answer M k x js t) = lost t" "lost (get_message t) = lost t" "lost (route_message M e t) = lost t"
  "lost (drain_silent h n t) = lost t" "lost (background_cancel j u t) = lost t"
  "lost (send_heartbeat M u t) = lost t" "lost (call_api u v p c t) = lost t"
proof -
  show put: "lost (put_message e t) = lost t" for e t by (simp add: put_message_def)
  then show puts: "lost (fold put_message ms t) = lost t" for ms t by (induction ms arbitrary: t) simp_all
  show answer: "lost (answer M k x js t) = lost t" for k x js t by (simp add: answer_def put split: option.split)
  show "lost (task_done t) = lost t" "lost (get_message t) = lost t"
    by (simp_all add: task_done_def get_message_def split: list.split)
  show "lost (route_message M e t) = lost t" by (simp add: route_message_def answer split: prod.split called.split)
  show "lost (drain_silent h n t) = lost t" by (simp add: drain_silent_def Let_def split: prod.split)
  show "lost (background_cancel j u t) = lost t" by (simp add: background_cancel_def Let_def puts)
  show "lost (send_heartbeat M u t) = lost t" by (simp add: send_heartbeat_def put split: sum.split)
  show "lost (call_api u v p c t) = lost t" by (simp add: call_api_def put)
qed

lemma lost_resume [simp]: "lost (resume_handler M h n t) = lost t"
  by (auto simp: resume_handler_def Let_def split: prod.split waiting.split)

lemma lost_step: "length (lost (transport_step M e t)) \<le> length (lost t) + failures [e]"
  by (cases e) (auto simp: failures_def written_def close_stream_def split: option.split)

lemma lost_run: "length (lost (run_transport M es t)) \<le> length (lost t) + failures es"
proof (induction es arbitrary: t)
  case (Cons e es)
  have "failures (e # es) = failures [e] + failures es" by (simp add: failures_def)
  then show ?case using Cons.IH [of "transport_step M e t"] lost_step [of M e t] by simp
qed simp

text \<open>
  C7: every request has one response. After any events the requests that arrived are, with
  multiplicity, the responses that were sent, are being written, wait in the queue or went down
  with a stream, the handlers that still wait, and the requests whose handler was left by an
  exception nothing catches; and no more envelopes went down than writes failed and streams closed.
\<close>

theorem requests_answered_once:
  "mset (arrivals M es (transport_init w)) =
     mset (response_ids (traffic (run_transport M es (transport_init w)))) +
     mset (map fst (handlers (run_transport M es (transport_init w)))) +
     mset (map fst (silent (run_transport M es (transport_init w)))) \<and>
   length (lost (run_transport M es (transport_init w))) \<le> failures es"
  using accounted_run [of M es "transport_init w"] lost_run [of M es "transport_init w"]
  by (simp add: accounted_def traffic_def response_ids_def transport_init_def)

section \<open>Requests that stay silent\<close>

definition crash_seen :: "tworker \<Rightarrow> bool" where
  "crash_seen w \<longleftrightarrow> (\<exists>r \<in> set (samples w). phase r = Crashed)"

lemma crash_seen_nth: "crash_seen w \<longleftrightarrow> (\<exists>i < length (samples w). phase (samples w ! i) = Crashed)"
  unfolding crash_seen_def by (metis in_set_conv_nth)

lemma crash_seen_act: "crash_seen w \<Longrightarrow> crash_seen (act e w)"
  unfolding crash_seen_nth using crash_stays by blast

lemma crash_seen_reached: "reached ks w w' \<Longrightarrow> crash_seen w \<Longrightarrow> crash_seen w'"
proof -
  have "crash_seen w \<Longrightarrow> crash_seen (run_events es w)" for es w
    by (induction es arbitrary: w) (auto simp: run_events_def intro: crash_seen_act)
  then show "reached ks w w' \<Longrightarrow> crash_seen w \<Longrightarrow> crash_seen w'" by (auto simp: reached_def)
qed

lemma map_ok_reached: "reached ks w w' \<Longrightarrow> map_ok w \<Longrightarrow> map_ok w'"
proof -
  have "map_ok w \<Longrightarrow> map_ok (run_events es w)" for es w
    by (induction es arbitrary: w) (auto simp: run_events_def intro: map_ok_act)
  then show "reached ks w w' \<Longrightarrow> map_ok w \<Longrightarrow> map_ok w'" by (auto simp: reached_def)
qed

text \<open>A cancellation that is over belongs to a sample of the worker.\<close>

lemma first_index_nth: "first_index P xs < length xs \<Longrightarrow> P (xs ! first_index P xs)"
  using nth_length_takeWhile [of "\<lambda>x. \<not> P x" xs] by (auto simp: first_index_def)

lemma crash_of_cancel:
  assumes "map_ok w" and "cancel_wait i w = (True, w')" and "crashes i w"
  shows "crash_seen w"
proof -
  let ?j = "first_index (\<lambda>c. c = (i, False)) (cancel_tasks w)"
  have "?j < length (cancel_tasks w)"
  proof (rule ccontr)
    assume "\<not> ?j < length (cancel_tasks w)"
    then have "cancel_task ?j w = w" by (simp add: cancel_task_def)
    then show False using assms(2) by (simp add: cancel_wait_def Let_def)
  qed
  then have "(i, False) \<in> set (cancel_tasks w)"
    using first_index_nth [of "\<lambda>c. c = (i, False)" "cancel_tasks w"] nth_mem [of ?j "cancel_tasks w"] by simp
  then have "i < length (samples w)" using map_ok_cancelling [OF assms(1), of "(i, False)"] by (simp add: is_cancelling_def)
  then show ?thesis using assms(3) unfolding crash_seen_nth crashes_def by blast
qed

definition silent_ok :: "transport \<Rightarrow> bool" where
  "silent_ok t \<longleftrightarrow> map_ok (worker t) \<and> (silent t \<noteq> [] \<longrightarrow> crash_seen (worker t))"

lemma answer_silent:
  "silent (answer M k x is t) = (if x = Escaped then silent t @ [(k, is)] else silent t)"
  by (cases x) (auto simp: answer_def response_of_def put_message_def split: option.split)

lemma silent_put [simp]: "silent (put_message e t) = silent t"
  by (simp add: put_message_def)

lemma silent_puts [simp]: "silent (fold put_message ms t) = silent t"
  by (induction ms arbitrary: t) simp_all

lemma silent_stream [simp]:
  "silent (task_done t) = silent t" "silent (get_message t) = silent t" "silent (written ok t) = silent t"
  "silent (close_stream t) = silent t" "silent (call_api u v p c t) = silent t"
  "silent (send_heartbeat M u t) = silent t" "silent (background_cancel j u t) = silent t"
  by (simp_all add: task_done_def get_message_def written_def close_stream_def call_api_def send_heartbeat_def
      background_cancel_def Let_def split: option.split list.split sum.split)

lemma catches [simp]:
  "fst (started k ix w) \<noteq> Now Escaped" "fst (interacted k ms w) \<noteq> Now Escaped"
  "fst (cancelled k n w) \<noteq> Now Escaped" "fst (cancelled_all n w) \<noteq> Now Escaped"
  "status_outcome M k w \<noteq> Escaped"
  by (auto simp: started_def interacted_def cancelled_def cancelled_all_def status_outcome_def Let_def
      split: prod.split sum.split)

lemma with_model_catches:
  assumes "\<And>x. fst (f x w) \<noteq> Now Escaped"
  shows "fst (with_model model d f w) \<noteq> Now Escaped"
  using assms by (simp add: with_model_def split: option.split)

lemma invoke_catches: "fst (invoke M endpoint d w) \<noteq> Now Escaped"
  unfolding invoke_def
  by (simp add: with_model_catches split_def split: option.split sum.split)

lemma silent_route: "silent (route_message M e t) = silent t"
proof -
  have "silent (case invoke M p d w of
      (Now x, w') \<Rightarrow> answer M k x [] (t\<lparr>worker := w'\<rparr>)
    | (Later h, w') \<Rightarrow> t\<lparr>worker := w', handlers := handlers t @ [(k, h)]\<rparr>) = silent t" for p d w k
    using invoke_catches [of M p d w] by (auto simp: answer_silent split: prod.split called.split)
  then show ?thesis by (simp add: route_message_def split: prod.split)
qed

lemma silent_resume:
  assumes "map_ok (worker t)" and "silent (resume_handler M h n t) \<noteq> silent t"
  shows "crash_seen (worker t)"
proof -
  have "replied_outcome M i st w \<noteq> Escaped" for i st w by (simp add: replied_outcome_def Let_def)
  then show ?thesis using assms(2) crash_of_cancel [OF assms(1)]
    by (auto simp: resume_handler_def Let_def answer_silent split: prod.splits waiting.splits if_splits)
qed

lemma silent_drain: "silent t = [] \<Longrightarrow> silent (drain_silent h n t) = []"
  by (simp add: drain_silent_def)

lemma silent_ok_step:
  assumes "silent_ok t"
  shows "silent_ok (transport_step M e t)"
proof -
  from reached_step [of M e t] obtain ks where ks: "reached ks (worker t) (worker (transport_step M e t))" by blast
  then have ok: "map_ok (worker (transport_step M e t))"
    using assms map_ok_reached by (auto simp: silent_ok_def)
  have "crash_seen (worker t)" if "silent (transport_step M e t) \<noteq> []"
  proof (cases "silent t = []")
    case True
    then have "silent (transport_step M e t) \<noteq> silent t" using that by simp
    then show ?thesis using assms silent_resume [of t M] silent_drain [OF True] that
      by (cases e) (auto simp: silent_route silent_ok_def split: if_splits)
  qed (use assms in \<open>simp add: silent_ok_def\<close>)
  then show ?thesis using ok crash_seen_reached [OF ks] by (auto simp: silent_ok_def)
qed

lemma silent_ok_run: "silent_ok t \<Longrightarrow> silent_ok (run_transport M es t)"
  by (induction es arbitrary: t) (simp_all add: silent_ok_step)

text \<open>
  A request stays without a response for good only when the environment of a sample has let
  the exception of its cancellation through. While no sample has ended that way, every request
  that arrived has its response or a handler that waits for it.
\<close>

lemma unanswered_only_after_crash:
  assumes "\<forall>r \<in> set (samples (worker (run_transport M es (transport_init (worker_init n fa))))). phase r \<noteq> Crashed"
  shows "mset (arrivals M es (transport_init (worker_init n fa))) =
     mset (response_ids (traffic (run_transport M es (transport_init (worker_init n fa))))) +
     mset (map fst (handlers (run_transport M es (transport_init (worker_init n fa)))))"
proof -
  let ?t = "run_transport M es (transport_init (worker_init n fa))"
  have "silent_ok ?t" by (rule silent_ok_run) (simp add: silent_ok_def transport_init_def worker_start)
  then have "silent ?t = []" using assms by (auto simp: silent_ok_def crash_seen_def)
  then show ?thesis using accounted_run [of M es "transport_init (worker_init n fa)"]
    by (simp add: accounted_def traffic_def response_ids_def transport_init_def)
qed

section \<open>The status of a session over the stream\<close>

text \<open>What the agent has sent stays with the session.\<close>

definition agent_spoke :: "nat \<Rightarrow> tworker \<Rightarrow> bool" where
  "agent_spoke i w \<longleftrightarrow> i < length (samples w) \<and> env_input (session (samples w ! i)) \<noteq> None"

lemma agent_spoke_sample:
  assumes "agent_spoke i w" and "\<And>r. env_input (session r) \<noteq> None \<Longrightarrow> env_input (session (f r)) \<noteq> None"
  shows "agent_spoke i (on_sample j f w)"
  using assms by (cases "j = i") (auto simp: agent_spoke_def)

lemma agent_spoke_act:
  assumes "agent_spoke i w"
  shows "agent_spoke i (act e w)"
proof -
  note sample = agent_spoke_sample [of i]
  have cancel: "agent_spoke i (snd (Task_Worker.cancel k n v))" if "agent_spoke i v" for k n v
  proof -
    have "agent_spoke i (on_sample j (\<lambda>r. r\<lparr>cancelling := True, session := (session r)
        \<lparr>env_input := Some AgentCancelled, env_signal := env_signal (session r) + 1\<rparr>\<rparr>) v)" for j
      by (rule sample [OF that]) simp
    then show ?thesis using that by (simp add: Task_Worker.cancel_def agent_spoke_def split: option.split)
  qed
  have all: "agent_spoke i (fold (\<lambda>k. snd \<circ> Task_Worker.cancel k n) ks v)" if "agent_spoke i v" for n ks v
    using that by (induction ks arbitrary: v) (simp_all add: cancel)
  have pull: "env_input (env_pull h s) = env_input s" "env_input (env_finish st h s) = env_input s"
    "env_input (agent_pulled s) = env_input s" "env_input (env_pulled s) = env_input s"
    "env_input (snd (action_done s)) = env_input s" "env_input (action xs s) = env_input s" for st h s xs
    by (simp_all add: env_pull_def env_finish_def agent_pulled_def env_pulled_def action_done_def action_def Let_def
        split: option.split agent_output.split)
  show ?thesis
  proof (cases e)
    case (ActionDone j)
    have "env_input s = env_input (session (samples w ! j))" if "action_done (session (samples w ! j)) = (x, s)" for x s
      using pull(5) [of "session (samples w ! j)"] that by simp
    then show ?thesis using ActionDone assms
      by (cases "j = i") (auto simp: action_return_def Let_def agent_spoke_def split: prod.split option.split)
  next
    case (RunCancel j)
    have "agent_spoke i (on_sample h (\<lambda>r. r\<lparr>killed := phase r = Active\<rparr>) w)" for h
      by (rule sample [OF assms]) simp
    moreover have "agent_spoke i (drop_cancel j (end_cancel j v)) = agent_spoke i v"
      "agent_spoke i (drop_cancel j v) = agent_spoke i v" for v
      by (simp_all add: agent_spoke_def)
    ultimately show ?thesis using RunCancel assms by (simp add: cancel_task_def Let_def split: phase.split)
  next
    case (End j x)
    have "agent_spoke i (on_sample j (\<lambda>r. r\<lparr>phase := p, session := env_finish st (history (session r)) (session r)\<rparr>)
        (pop_session k w))" "agent_spoke i (on_sample j (\<lambda>r. r\<lparr>phase := p\<rparr>) w)" for p st k
      by (rule sample; use assms in \<open>simp add: agent_spoke_def pull\<close>)+
    then show ?thesis using End assms by (simp add: task_wrapper_end_def Let_def split: ending.split)
  qed (use assms cancel all pull in \<open>auto simp: start_sample_def interact_def reply_def cancel_all_def Let_def
        on_session_def agent_pull_def clear_def cover_def set_full_history_def agent_spoke_def nth_append
        split: option.split\<close>)
qed

lemma agent_spoke_run: "agent_spoke i w \<Longrightarrow> agent_spoke i (run_events es w)"
  by (induction es arbitrary: w) (simp_all add: run_events_def agent_spoke_act)

lemma agent_spoke_interact:
  assumes "interact k ms w = (Inr (), w1)" and "dict_get (session_map w) k = Some i" and "map_ok w"
  shows "agent_spoke i w1"
  using assms map_ok_points [OF assms(3,2)]
  by (auto simp: interact_def Let_def agent_spoke_def points_to_def agent_pull_def split: if_splits)

lemma status_refused:
  assumes "agent_spoke i w" and "dict_get (session_map w) k = Some i"
  shows "status_outcome M k w = ReturnedObject"
  using assms by (auto simp: status_outcome_def sample_status_of_def agent_spoke_def Let_def)

lemma status_request:
  assumes "validated (session_request M) (request_data M c) = Some k"
  shows "invoke M ''sample_status'' (request_data M c) w = (Now (status_outcome M k w), w)"
  using assms by (simp add: invoke_def with_model_def)

text \<open>
  Over the stream the status of a session cannot be asked for once its agent has sent a
  message: however the worker goes on, as long as the session is there, the request is answered
  with an internal error, since the last output of the agent is put into the answer as it is.
\<close>

lemma status_fails_after_interaction:
  assumes "interact k ms (run_events es (worker_init n fa)) = (Inr (), w1)"
    and "dict_get (session_map (run_events es (worker_init n fa))) k = Some i"
    and "worker t = run_events fs w1" and "dict_get (session_map (worker t)) k = Some i"
    and "validated (session_request M) (request_data M c) = Some k"
  shows "route_message M \<lparr>envelope_id = u, envelope_type = RequestType,
             envelope_body = WorkerRequest v ''sample_status'' c\<rparr> t =
     put_message (response_to u 500 (Some ''Internal Server Error'') None) t"
proof -
  have "reached (start_ids es) (worker_init n fa) (run_events es (worker_init n fa))" by (auto simp: reached_def)
  then have "map_ok (run_events es (worker_init n fa))" using map_ok_reached worker_start(1) by blast
  then have "agent_spoke i (worker t)"
    using agent_spoke_run [OF agent_spoke_interact [OF assms(1,2)]] assms(3) by simp
  then have "status_outcome M k (worker t) = ReturnedObject" using assms(4) by (rule status_refused)
  then show ?thesis
    using status_request [OF assms(5)]
    by (simp add: route_message_def worker_request_def answer_def response_of_def put_message_def)
qed

section \<open>Calls of the controller\<close>

text \<open>\<open>str.replace\<close> for a text that is not empty; the counter skips what was replaced.\<close>

fun replace_from :: "nat \<Rightarrow> string \<Rightarrow> string \<Rightarrow> string \<Rightarrow> string" where
  "replace_from n old new [] = []"
| "replace_from n old new (c # cs) =
     (if 0 < n then replace_from (n - 1) old new cs
      else if prefix old (c # cs) then new @ replace_from (length old - 1) old new cs
      else c # replace_from 0 old new cs)"

definition rstrip_char :: "char \<Rightarrow> string \<Rightarrow> string" where
  "rstrip_char c s = rev (dropWhile (\<lambda>x. x = c) (rev s))"

definition is_grpc :: "string \<Rightarrow> bool" where
  "is_grpc address \<longleftrightarrow> prefix ''grpc://'' address"

text \<open>The address of the stream, and the one of the other calls.\<close>

definition stream_address :: "string \<Rightarrow> string" where
  "stream_address address = rstrip_char (CHR ''/'') (replace_from 0 ''grpc://'' [] address)"

definition api_address :: "string \<Rightarrow> string" where
  "api_address address =
     (if is_grpc address then rstrip_char (CHR ''/'') (replace_from 0 ''grpc://'' ''http://'' address) @ ''/api''
      else address)"

text \<open>\<open>post\<close> gives the status and the decoded body; a notice goes over the stream where there is one.\<close>

definition call_controller ::
    "(string \<Rightarrow> json \<Rightarrow> ('w, nat \<times> json) proc) \<Rightarrow> (int \<Rightarrow> ('w, unit) proc) \<Rightarrow> string \<Rightarrow> string \<Rightarrow> json \<Rightarrow> ('w, json) proc" where
  "call_controller post notice address api d =
     (if api = ''/cancel_notice'' \<and> is_grpc address then
        bnd (lift_res (json_item d ''session_id''))
          (\<lambda>k. case k of JInt n \<Rightarrow> andthen (notice n) (ret JNull) | _ \<Rightarrow> raise TypeError)
      else bnd (post (api_address address @ api) d)
             (\<lambda>(c, j). if c \<noteq> 200 then raise HTTPStatusError else ret j))"

definition json_indices :: "sample_index list \<Rightarrow> json" where
  "json_indices is = JList (map json_index is)"

text \<open>The heartbeat over HTTP; \<open>heart_beat\<close> for a number of rounds: every \<open>Exception\<close> is logged.\<close>

definition http_heartbeat ::
    "methods \<Rightarrow> (string \<Rightarrow> json \<Rightarrow> ('w, nat \<times> json) proc) \<Rightarrow> string \<Rightarrow> string option \<Rightarrow> nat \<Rightarrow> ('w, unit) proc" where
  "http_heartbeat M post address self n =
     bnd (lift_res (task_indices M)) (\<lambda>is.
     andthen (call_controller post (\<lambda>k. ret ()) address ''/receive_heartbeat''
         (JObj [(''name'', JStr (task_name M)),
                (''address'', case self of None \<Rightarrow> JNull | Some a \<Rightarrow> JStr a),
                (''concurrency'', JInt (int n)), (''indices'', json_indices is)])) (ret ()))"

primrec heart_beat :: "('w, unit) proc \<Rightarrow> nat \<Rightarrow> ('w, unit) proc" where
  "heart_beat beat 0 = ret ()"
| "heart_beat beat (Suc n) =
     andthen (catch beat (\<lambda>e. if e = CancelledError then raise e else ret ())) (heart_beat beat n)"

text \<open>No failure of a heartbeat ends the loop, only its cancellation.\<close>

lemma heart_beat_goes_on:
  "fst (heart_beat beat n s) = Inr () \<or> fst (heart_beat beat n s) \<in> {Inl CancelledError, Inl StillRunning}"
  by (induction n arbitrary: s)
    (auto simp: andthen_def bnd_def catch_def ret_def raise_def split: prod.split sum.split)

lemma addresses_of_grpc:
  "stream_address ''grpc://host:5020/'' = ''host:5020''"
  "api_address ''grpc://host:5020/'' = ''http://host:5020/api''"
  "api_address ''http://host:5020/api'' = ''http://host:5020/api''"
  by code_simp+

section \<open>Examples\<close>

text \<open>A controller that sends \<open>1\<close> or \<open>2\<close> for the requests of session 1 or 2.\<close>

definition short_requests :: methods where
  "short_requests =
     \<lparr>loads = (\<lambda>c. Some (JObj [(''session_id'', JInt (if c = ''1'' then 1 else 2))])), dumps = (\<lambda>j. ''{}''),
      start_request = (\<lambda>j. case json_item j ''session_id'' of Inr (JInt k) \<Rightarrow> Some (k, IntIndex k) | _ \<Rightarrow> None),
      interact_request = (\<lambda>j. case json_item j ''session_id'' of Inr (JInt k) \<Rightarrow> Some (k, [JNull]) | _ \<Rightarrow> None),
      session_request = (\<lambda>j. case json_item j ''session_id'' of Inr (JInt k) \<Rightarrow> Some k | _ \<Rightarrow> None),
      overall_request = (\<lambda>j. None), number = (\<lambda>r. JNull), session_tools = (\<lambda>i. JNull), task_tools = JNull,
      output_dump = (\<lambda>s. JNull), render = (\<lambda>j. ''{}''), worker_id = ''w'', task_name = ''calc'',
      task_indices = Inr [IntIndex 1], task_overall = (\<lambda>rs. None)\<rparr>"

definition ask :: "string \<Rightarrow> string \<Rightarrow> string \<Rightarrow> envelope" where
  "ask u endpoint c =
     \<lparr>envelope_id = u, envelope_type = RequestType, envelope_body = WorkerRequest ''POST'' endpoint c\<rparr>"

definition two_starts :: "transport_event list" where
  "two_starts =
     [Connect, Receive (ask ''a'' ''start_sample'' ''1''), Receive (ask ''b'' ''start_sample'' ''2''), Get, Close]"

lemma two_starts_run:
  "requested_starts short_requests two_starts = [1, 2]"
  "arrivals short_requests two_starts (transport_init (worker_init 1 False)) = [''a'', ''b'']"
  "\<forall>r \<in> set (samples (worker (run_transport short_requests two_starts (transport_init (worker_init 1 False))))).
     phase r \<noteq> Crashed"
  by code_simp+

lemma remote_worker_within_concurrency_witness:
  "let t = run_transport short_requests two_starts (transport_init (worker_init 1 False))
   in length (session_map (worker t)) \<le> 1 \<and>
     length (filter (\<lambda>r. phase r \<noteq> Ended) (samples (worker t))) \<le> 1"
  using remote_worker_within_concurrency [of short_requests two_starts 1 False]
  by (auto simp: Let_def two_starts_run)

lemma unanswered_only_after_crash_witness:
  "let t = run_transport short_requests two_starts (transport_init (worker_init 1 False))
   in {#''a'', ''b''#} = mset (response_ids (traffic t)) + mset (map fst (handlers t))"
  using unanswered_only_after_crash [OF two_starts_run(3)]
  unfolding Let_def by (simp only: two_starts_run(2) mset.simps)

definition spoken :: tworker where
  "spoken = run_events [StartSample 1 (IntIndex 1), Action 0 [], Reply 0] (worker_init 1 False)"

lemma status_fails_after_interaction_witness:
  "route_message short_requests (ask ''c'' ''sample_status'' ''1'') (transport_init (snd (interact 1 [JNull] spoken))) =
     put_message (response_to ''c'' 500 (Some ''Internal Server Error'') None)
       (transport_init (snd (interact 1 [JNull] spoken)))"
proof -
  let ?w = "snd (interact 1 [JNull] spoken)"
  have "fst (interact 1 [JNull] spoken) = Inr ()" by code_simp
  then have "interact 1 [JNull] (run_events [StartSample 1 (IntIndex 1), Action 0 [], Reply 0] (worker_init 1 False)) = (Inr (), ?w)"
    by (simp only: spoken_def [symmetric] prod_eq_iff fst_conv snd_conv simp_thms)
  moreover have "dict_get (session_map (run_events [StartSample 1 (IntIndex 1), Action 0 [], Reply 0] (worker_init 1 False))) 1 = Some 0"
    by code_simp
  moreover have "worker (transport_init ?w) = run_events [] ?w" by (simp add: transport_init_def run_events_def)
  moreover have "dict_get (session_map (worker (transport_init ?w))) 1 = Some 0" by code_simp
  moreover have "validated (session_request short_requests) (request_data short_requests ''1'') = Some 1" by code_simp
  ultimately show ?thesis unfolding ask_def by (rule status_fails_after_interaction)
qed

end
