(* ===== verification/Snapshots_Client.thy ===== *)
theory Snapshots_Client
  imports Worker_Transport
begin

text \<open>
  The client of the snapshots service (worker/src/agentrl/worker/snapshots.py): the connection
  that is made on first use, one request per method, and the tools offered to an agent. The
  generated stubs are a record of calls; numbers must fit the widths of their fields, or the
  request cannot be built. The lock of \<open>_get_client\<close> lets its bodies run one after the other,
  so a call is one program here.
\<close>

section \<open>Requests\<close>

record snapshot_fields =
  task_type :: "string option"
  task_label :: "string option"
  task_pos :: "sample_index option"
  env_type :: "string option"
  session_no :: "int option"
  step_no :: "int option"
  parent_id :: "string option"

text \<open>\<open>CreateRequest\<close> with the expected size, \<open>ListRequest\<close> with the page size.\<close>

datatype snapshot_request =
    GetStorePath
  | CreateRequest snapshot_fields "(int option \<times> string option) option" "int option" "string list"
  | MarkReady string
  | ListRequest snapshot_fields "(int option \<times> string option) option" int "string list"
  | GetRequest string bool
  | DeleteRequest string
  | AddTags string "string list"
  | RemoveTags string "string list"
  | SetTags string "string list"

definition fits :: "int \<Rightarrow> int \<Rightarrow> int option \<Rightarrow> bool" where
  "fits lo hi v = (case v of None \<Rightarrow> True | Some n \<Rightarrow> lo \<le> n \<and> n < hi)"

definition index_number :: "sample_index option \<Rightarrow> int option" where
  "index_number i = (case i of Some (IntIndex n) \<Rightarrow> Some n | _ \<Rightarrow> None)"

definition fields_fit :: "snapshot_fields \<Rightarrow> bool" where
  "fields_fit f \<longleftrightarrow>
     fits (- (2 ^ 63)) (2 ^ 63) (index_number (task_pos f)) \<and> fits (- (2 ^ 63)) (2 ^ 63) (session_no f) \<and>
     fits (- (2 ^ 31)) (2 ^ 31) (step_no f)"

text \<open>Empty tags are left out, as is a task index that is not given.\<close>

definition given_tags :: "string list option \<Rightarrow> string list" where
  "given_tags ts = (case ts of None \<Rightarrow> [] | Some xs \<Rightarrow> xs)"

definition create_request :: "snapshot_fields \<Rightarrow> int option \<Rightarrow> string list option \<Rightarrow> snapshot_request res" where
  "create_request f sz ts =
     (if fields_fit f \<and> fits 0 (2 ^ 64) sz
      then Inr (CreateRequest f (map_option task_index (task_pos f)) sz (given_tags ts)) else Inl ValueError)"

definition list_request :: "snapshot_fields \<Rightarrow> int \<Rightarrow> string list option \<Rightarrow> snapshot_request res" where
  "list_request f limit ts =
     (if fields_fit f \<and> fits 0 (2 ^ 32) (Some limit)
      then Inr (ListRequest f (map_option task_index (task_pos f)) limit (given_tags ts)) else Inl ValueError)"

section \<open>The service and the client\<close>

text \<open>
  The calls of the generated stub by the kind of their answer, with \<open>MessageToDict\<close> applied to
  snapshots, and the wait for the channel, which may time out.
\<close>

record 'w snapshot_service =
  channel_ready :: "('w, unit) proc"
  ask_path :: "('w, string) proc"
  ask_create :: "snapshot_request \<Rightarrow> ('w, string \<times> string) proc"
  ask_nothing :: "snapshot_request \<Rightarrow> ('w, unit) proc"
  ask_list :: "snapshot_request \<Rightarrow> ('w, json list) proc"
  ask_snapshot :: "snapshot_request \<Rightarrow> ('w, json) proc"
  ask_located :: "snapshot_request \<Rightarrow> ('w, string) proc"

text \<open>What the client keeps, with the channels it opened and the store paths it was given so far.\<close>

record snapshots_client =
  store_path :: "string option"
  channel :: bool
  stub :: bool
  opened :: nat
  told_paths :: "string list"

definition snapshots_init :: snapshots_client where
  "snapshots_init = \<lparr>store_path = None, channel = False, stub = False, opened = 0, told_paths = []\<rparr>"

definition on_client :: "(snapshots_client, 'a) proc \<Rightarrow> (snapshots_client \<times> 'w, 'a) proc" where
  "on_client = zoom fst (\<lambda>c s. (c, snd s))"

definition on_service :: "('w, 'a) proc \<Rightarrow> (snapshots_client \<times> 'w, 'a) proc" where
  "on_service = zoom snd (\<lambda>w s. (fst s, w))"

definition open_channel :: "snapshots_client \<Rightarrow> snapshots_client" where
  "open_channel c = (if channel c then c else c\<lparr>channel := True, opened := opened c + 1\<rparr>)"

definition keep_path :: "string \<Rightarrow> snapshots_client \<Rightarrow> snapshots_client" where
  "keep_path p c = c\<lparr>store_path := Some p, told_paths := told_paths c @ [p]\<rparr>"

definition get_client :: "'w snapshot_service \<Rightarrow> (snapshots_client \<times> 'w, unit) proc" where
  "get_client S =
     andthen (on_client (modify open_channel))
     (andthen (on_service (channel_ready S))
     (andthen (on_client (modify (\<lambda>c. c\<lparr>stub := True\<rparr>)))
     (bnd (on_client (gets store_path)) (\<lambda>p.
        case p of
          Some q \<Rightarrow> ret ()
        | None \<Rightarrow> bnd (on_service (ask_path S)) (\<lambda>q. on_client (modify (keep_path q)))))))"

definition get_store_path :: "'w snapshot_service \<Rightarrow> (snapshots_client \<times> 'w, string option) proc" where
  "get_store_path S = andthen (get_client S) (on_client (gets store_path))"

definition request_with ::
    "'w snapshot_service \<Rightarrow> snapshot_request res \<Rightarrow> (snapshot_request \<Rightarrow> ('w, 'a) proc) \<Rightarrow> (snapshots_client \<times> 'w, 'a) proc" where
  "request_with S r call = andthen (get_client S) (bnd (lift_res r) (\<lambda>q. on_service (call q)))"

definition create_snapshot ::
    "'w snapshot_service \<Rightarrow> snapshot_fields \<Rightarrow> int option \<Rightarrow> string list option \<Rightarrow> (snapshots_client \<times> 'w, string \<times> string) proc" where
  "create_snapshot S f sz ts = request_with S (create_request f sz ts) (ask_create S)"

definition mark_ready :: "'w snapshot_service \<Rightarrow> string \<Rightarrow> (snapshots_client \<times> 'w, unit) proc" where
  "mark_ready S k = request_with S (Inr (MarkReady k)) (ask_nothing S)"

definition list_snapshots ::
    "'w snapshot_service \<Rightarrow> snapshot_fields \<Rightarrow> string list option \<Rightarrow> int \<Rightarrow> (snapshots_client \<times> 'w, json list) proc" where
  "list_snapshots S f ts limit = request_with S (list_request f limit ts) (ask_list S)"

text \<open>The failure of the call itself is logged; a failure to connect is raised.\<close>

definition get_snapshot :: "'w snapshot_service \<Rightarrow> string \<Rightarrow> (snapshots_client \<times> 'w, json option) proc" where
  "get_snapshot S k =
     andthen (get_client S)
       (catch (bnd (on_service (ask_snapshot S (GetRequest k False))) (\<lambda>j. ret (Some j)))
          (\<lambda>e. if e = CancelledError then raise e else ret None))"

definition get_snapshot_path :: "'w snapshot_service \<Rightarrow> string \<Rightarrow> (snapshots_client \<times> 'w, string) proc" where
  "get_snapshot_path S k = request_with S (Inr (GetRequest k True)) (ask_located S)"

definition delete_snapshot :: "'w snapshot_service \<Rightarrow> string \<Rightarrow> (snapshots_client \<times> 'w, unit) proc" where
  "delete_snapshot S k = request_with S (Inr (DeleteRequest k)) (ask_nothing S)"

definition add_snapshot_tags :: "'w snapshot_service \<Rightarrow> string \<Rightarrow> string list \<Rightarrow> (snapshots_client \<times> 'w, json) proc" where
  "add_snapshot_tags S k ts = request_with S (Inr (AddTags k ts)) (ask_snapshot S)"

definition remove_snapshot_tags :: "'w snapshot_service \<Rightarrow> string \<Rightarrow> string list \<Rightarrow> (snapshots_client \<times> 'w, json) proc" where
  "remove_snapshot_tags S k ts = request_with S (Inr (RemoveTags k ts)) (ask_snapshot S)"

definition set_snapshot_tags :: "'w snapshot_service \<Rightarrow> string \<Rightarrow> string list \<Rightarrow> (snapshots_client \<times> 'w, json) proc" where
  "set_snapshot_tags S k ts = request_with S (Inr (SetTags k ts)) (ask_snapshot S)"

section \<open>Tools\<close>

definition typed :: "string \<Rightarrow> string \<Rightarrow> json" where
  "typed t d = JObj [(''type'', JStr t), (''description'', JStr d)]"

definition parameters_of :: "(string \<times> json) list \<Rightarrow> string list \<Rightarrow> json" where
  "parameters_of props needed =
     JObj ([(''type'', JStr ''object''), (''properties'', JObj props)] @
           (if needed = [] then [] else [(''required'', JList (map JStr needed))]) @
           [(''additionalProperties'', JBool False)])"

definition snapshot_tool :: "string \<Rightarrow> string \<Rightarrow> (string \<times> json) list \<Rightarrow> string list \<Rightarrow> json" where
  "snapshot_tool name d props needed =
     JObj [(''type'', JStr ''function''),
           (''function'', JObj [(''name'', JStr name), (''description'', JStr d),
                                (''parameters'', parameters_of props needed), (''strict'', JBool True)])]"

definition string_list :: "string \<Rightarrow> json" where
  "string_list d =
     JObj [(''type'', JStr ''array''), (''items'', JObj [(''type'', JStr ''string'')]), (''description'', JStr d)]"

definition tools :: "json list" where
  "tools =
     [snapshot_tool ''snapshot.create'' ''Create a new snapshot saving the current state of the environment.''
        [(''continue'', JObj [(''type'', JStr ''boolean''),
                              (''description'', JStr ''Whether to continue execution after creating the snapshot''),
                              (''default'', JBool True)]),
         (''tags'', string_list ''List of tags to associate with the created snapshot'')] [],
      snapshot_tool ''snapshot.list'' ''List available snapshots with optional filtering parameters.''
        [(''env_type'', typed ''string'' ''Filter by environment type''),
         (''session_id'', typed ''integer'' ''Filter by session ID''),
         (''step'', typed ''integer'' ''Filter by step number''),
         (''parent_id'', typed ''string'' ''Filter by parent snapshot ID''),
         (''tags'', string_list ''Filter by snapshots that contain all specified tags''),
         (''limit'', JObj [(''type'', JStr ''integer''),
                           (''description'', JStr ''Maximum number of snapshots to return''), (''default'', JInt 100)])] [],
      snapshot_tool ''snapshot.load'' ''Load a snapshot by its ID to restore the environment state.''
        [(''id'', typed ''string'' ''The ID of the snapshot to load'')] [''id''],
      snapshot_tool ''snapshot.delete'' ''Delete a snapshot by its ID to free up storage.''
        [(''id'', typed ''string'' ''The ID of the snapshot to delete'')] [''id'']]"

section \<open>One connection\<close>

datatype client_call =
    PathCall | CreateCall snapshot_fields "int option" "string list option" | ReadyCall string
  | ListCall snapshot_fields "string list option" int | GetCall string | LocateCall string
  | DeleteCall string | AddCall string "string list" | RemoveCall string "string list" | SetCall string "string list"

definition ignore :: "('w, 'a) proc \<Rightarrow> ('w, unit) proc" where
  "ignore m = bnd m (\<lambda>x. ret ())"

primrec run_call :: "'w snapshot_service \<Rightarrow> client_call \<Rightarrow> (snapshots_client \<times> 'w, unit) proc" where
  "run_call S PathCall = ignore (get_store_path S)"
| "run_call S (CreateCall f sz ts) = ignore (create_snapshot S f sz ts)"
| "run_call S (ReadyCall k) = mark_ready S k"
| "run_call S (ListCall f ts n) = ignore (list_snapshots S f ts n)"
| "run_call S (GetCall k) = ignore (get_snapshot S k)"
| "run_call S (LocateCall k) = ignore (get_snapshot_path S k)"
| "run_call S (DeleteCall k) = delete_snapshot S k"
| "run_call S (AddCall k ts) = ignore (add_snapshot_tags S k ts)"
| "run_call S (RemoveCall k ts) = ignore (remove_snapshot_tags S k ts)"
| "run_call S (SetCall k ts) = ignore (set_snapshot_tags S k ts)"

text \<open>Calls one after the other, each whatever became of those before it.\<close>

definition client_calls :: "'w snapshot_service \<Rightarrow> client_call list \<Rightarrow> snapshots_client \<times> 'w \<Rightarrow> snapshots_client \<times> 'w" where
  "client_calls S = fold (\<lambda>c s. snd (run_call S c s))"

definition settled :: "snapshots_client \<times> 'w \<Rightarrow> bool" where
  "settled s \<longleftrightarrow>
     (case fst s of c \<Rightarrow> opened c = (if channel c then 1 else 0) \<and>
        told_paths c = (case store_path c of None \<Rightarrow> [] | Some p \<Rightarrow> [p]) \<and> (store_path c \<noteq> None \<longrightarrow> stub c \<and> channel c))"

lemma wp_on_service:
  assumes "\<And>v x. Q x (fst s, v)" and "\<And>v e. E e (fst s, v)"
  shows "wp (on_service m) Q E s"
  using assms by (auto simp: on_service_def intro: wp_any)

lemma get_client_settles:
  assumes "settled s"
  shows "wp (get_client S) (\<lambda>_ t. settled t \<and> store_path (fst t) \<noteq> None) (\<lambda>_. settled) s"
proof (cases "store_path (fst s)")
  case None
  then show ?thesis using assms
    by (auto simp: get_client_def on_client_def settled_def open_channel_def keep_path_def intro!: wp_on_service)
next
  case (Some p)
  then show ?thesis using assms
    by (auto simp: get_client_def on_client_def settled_def open_channel_def keep_path_def intro!: wp_on_service)
qed

lemma settled_on_service [preserving]: "preserves settled (\<lambda>_. True) (on_service m)"
  by (auto simp: preserves_def settled_def intro!: wp_on_service)

lemma settled_get_client [preserving]: "preserves settled (\<lambda>_. True) (get_client S)"
  unfolding preserves_def using wp_mono [OF get_client_settles] by (metis (mono_tags, lifting))

lemma settled_request [preserving]: "preserves settled (\<lambda>_. True) (request_with S r call)"
  unfolding request_with_def by (intro preserving) simp_all

lemma settled_path [preserving]: "preserves settled (\<lambda>_. True) (on_client (gets store_path))"
  by (auto simp: preserves_def on_client_def)

lemma settled_ignore [preserving]: "preserves settled (\<lambda>_. True) m \<Longrightarrow> preserves settled (\<lambda>_. True) (ignore m)"
  unfolding ignore_def by (intro preserving) simp_all

lemma settled_get_snapshot [preserving]: "preserves settled (\<lambda>_. True) (get_snapshot S k)"
proof -
  have "preserves settled (\<lambda>_. True) (if e = CancelledError then raise e else ret None)" for e :: py_error
    by (cases "e = CancelledError") (simp_all add: preserving)
  then show ?thesis unfolding get_snapshot_def by (intro preserving) simp_all
qed

lemma settled_call: "preserves settled (\<lambda>_. True) (run_call S c)"
  by (cases c) (simp_all add: preserving create_snapshot_def mark_ready_def list_snapshots_def get_snapshot_path_def
      delete_snapshot_def add_snapshot_tags_def remove_snapshot_tags_def set_snapshot_tags_def get_store_path_def)

lemma settled_calls: "settled s \<Longrightarrow> settled (client_calls S cs s)"
proof (induction cs arbitrary: s)
  case (Cons c cs)
  have "wp (run_call S c) (\<lambda>_. settled) (\<lambda>_. settled) s"
    by (rule wp_mono [OF preserves_wp [OF settled_call Cons.prems]]) simp_all
  then have "settled (snd (run_call S c s))" by (rule wp_inv)
  then show ?case using Cons.IH by (simp add: client_calls_def)
qed (simp add: client_calls_def)

text \<open>
  C32: whatever methods of the client are called and however the service answers them, the client
  opens at most one channel and is told the store path at most once; the path it was told is the one
  that get\_store\_path gives from then on, without asking again.
\<close>

theorem client_connects_once:
  fixes S :: "'w snapshot_service"
  shows "opened (fst (client_calls S cs (snapshots_init, w))) \<le> 1 \<and>
     length (told_paths (fst (client_calls S cs (snapshots_init, w)))) \<le> 1 \<and>
     wp (get_store_path S)
       (\<lambda>p s. \<exists>q. p = Some q \<and> told_paths (fst s) = [q] \<and>
          prefix (told_paths (fst (client_calls S cs (snapshots_init, w)))) [q])
       (\<lambda>e s. True) (client_calls S cs (snapshots_init, w))"
proof -
  let ?s = "client_calls S cs (snapshots_init, w)"
  have ok: "settled ?s" by (rule settled_calls) (simp add: settled_def snapshots_init_def)
  have "wp (get_client S) (\<lambda>_ t. settled t \<and> store_path (fst t) \<noteq> None \<and>
      prefix (told_paths (fst ?s)) (told_paths (fst t))) (\<lambda>_ _. True) ?s"
    using ok by (cases "store_path (fst ?s)")
      (auto simp: get_client_def on_client_def settled_def open_channel_def keep_path_def intro!: wp_on_service)
  then have "wp (get_store_path S)
       (\<lambda>p s. \<exists>q. p = Some q \<and> told_paths (fst s) = [q] \<and> prefix (told_paths (fst ?s)) [q]) (\<lambda>e s. True) ?s"
    unfolding get_store_path_def wp_andthen on_client_def wp_zoom wp_gets
    by (rule wp_mono) (auto simp: settled_def)
  then show ?thesis using ok by (auto simp: settled_def split: option.splits)
qed

text \<open>A number that does not fit its field is refused before anything but the connection is asked.\<close>

lemma unfit_request_not_sent:
  assumes "\<not> fits 0 (2 ^ 32) (Some limit)"
  shows "snd (list_snapshots S f ts limit s) = snd (get_client S s)"
  using assms by (simp add: list_snapshots_def request_with_def list_request_def andthen_def bnd_def lift_res_def
      raise_def split: prod.split sum.split)

end
