(* ===== verification/Training_Loop.thy ===== *)
theory Training_Loop
  imports Training_Data
begin

text \<open>
  The asynchronous training loops (examples/training/agentrl\_trainer.py and async\_trainer.py):
  how the devices are divided, the resumption from a checkpoint, one step of training with its
  advantages, losses, transfers of the weights, validation and checkpoints, and the metrics of a
  batch by the source of its samples. Rollouts, reference model, forward and backward pass and the
  transfer itself are parameters, which their own theories model. Numbers are exact.
\<close>

section \<open>Devices\<close>

text \<open>\<open>int(x)\<close> of a number drops its fraction.\<close>

definition whole_part :: "rat \<Rightarrow> int" where
  "whole_part x = (if 0 \<le> x then floor x else ceiling x)"

record devices =
  fresh_engines :: int
  stale_engines :: int
  actor_gpus :: int

text \<open>Ray refuses a placement group without bundles.\<close>

definition divide_devices :: "int \<Rightarrow> rat \<Rightarrow> rat \<Rightarrow> int \<Rightarrow> devices res" where
  "divide_devices gpus rollout_ratio stale_ratio tp =
     (let rollout = whole_part (rollout_ratio * of_int gpus);
          stale = whole_part (stale_ratio * of_int rollout);
          fresh = (rollout - stale) div tp; old = (if 0 < stale then stale div tp else 0)
      in if tp = 0 then Inl ZeroDivisionError
         else if fresh \<le> 0 \<or> (0 < stale \<and> old \<le> 0) \<or> gpus - rollout \<le> 0 then Inl ValueError
         else Inr \<lparr>fresh_engines = fresh, stale_engines = old, actor_gpus = gpus - rollout\<rparr>)"

text \<open>The engine a request goes to: the stale ones take the share they are meant to have.\<close>

definition choose_engine :: "devices \<Rightarrow> rat \<Rightarrow> rat \<Rightarrow> int \<Rightarrow> (bool \<times> int) res" where
  "choose_engine d stale_ratio draw hash =
     (let stale = 0 < stale_engines d \<and> \<not> draw < 1 - stale_ratio;
          world = if stale then stale_engines d else fresh_engines d
      in if world = 0 then Inl ZeroDivisionError else Inr (stale, hash mod world))"

section \<open>Items of a batch\<close>

text \<open>\<open>ti_undefined\<close>: the advantages are not numbers.\<close>

record training_item =
  ti_source :: string
  ti_group :: string
  ti_reward :: real
  ti_metrics :: "(string, real) dict"
  ti_adv :: "row option"
  ti_undefined :: bool
  ti_mask :: row
  ti_tokens :: nat
  ti_seq_len :: nat
  ti_ref :: "row option"
  ti_weight :: real

definition adv_of :: "training_item \<Rightarrow> row" where
  "adv_of it = (case ti_adv it of None \<Rightarrow> [] | Some r \<Rightarrow> r)"

definition effective_adv :: "training_item list \<Rightarrow> row" where
  "effective_adv items = concat (map (\<lambda>it. masked_select (adv_of it) (ti_mask it)) items)"

text \<open>The deviation of fewer than two values is not a number.\<close>

definition adv_norm_item :: "training_item list \<Rightarrow> training_item \<Rightarrow> training_item" where
  "adv_norm_item items it =
     (let xs = effective_adv items
      in if length xs < 2 then it\<lparr>ti_undefined := True\<rparr>
         else it\<lparr>ti_adv := Some (map (\<lambda>x. (x - mean_of xs) / (sample_std xs + 1 / 10 ^ 6)) (adv_of it))\<rparr>)"

definition adv_norm :: "training_item list \<Rightarrow> training_item list" where
  "adv_norm items = map (adv_norm_item items) items"

text \<open>With \<open>task_adv_norm\<close> the items of each source are normalised among themselves, in place.\<close>

definition of_source :: "string \<Rightarrow> training_item list \<Rightarrow> training_item list" where
  "of_source s = filter (\<lambda>it. ti_source it = s)"

definition task_adv_norm :: "training_item list \<Rightarrow> training_item list" where
  "task_adv_norm items = map (\<lambda>it. adv_norm_item (of_source (ti_source it) items) it) items"

definition loss_weights :: "string \<Rightarrow> bool \<Rightarrow> training_item list \<Rightarrow> training_item list res" where
  "loss_weights mode has_reduce_mode items =
     (if mode = ''seq-mean'' then Inr (map (\<lambda>it. it\<lparr>ti_weight := 1\<rparr>) items)
      else if mode = ''token-mean'' then Inr (map (\<lambda>it. it\<lparr>ti_weight := real (ti_tokens it)\<rparr>) items)
      else if items = [] then Inr []
      else Inl (if has_reduce_mode then NotImplementedError else KeyError))"

section \<open>Metrics by source\<close>

definition rl_dict :: "rl_metrics \<Rightarrow> (string, real) dict" where
  "rl_dict m =
     [(''average_reward'', average_reward m), (''BoN_reward'', BoN_reward m), (''average_margin'', average_margin m),
      (''num_uids'', real (num_uids m)), (''effective_uids'', effective_uids m), (''all_1_uids'', all_1_uids m),
      (''all_leq0_uids'', all_leq0_uids m), (''average_repeat'', average_repeat m)]"

definition dict_update :: "('k, 'v) dict \<Rightarrow> ('k, 'v) dict \<Rightarrow> ('k, 'v) dict" where
  "dict_update d new = foldl (\<lambda>d (k, v). dict_set k v d) d new"

definition by_source :: "training_item list \<Rightarrow> (string, training_item list) dict" where
  "by_source items = foldl (\<lambda>d it. append_at (ti_source it) it d) [] items"

definition source_metrics :: "training_item list \<Rightarrow> (string, real) dict res" where
  "source_metrics items =
     (let m = dict_update (calc_metrics (map ti_metrics items))
                (rl_dict (calc_batch_rl_metrics (map (\<lambda>it. (ti_group it, ti_reward it)) items)))
      in if ti_adv (hd items) = None then Inr m
         else if \<exists>it \<in> set items. ti_adv it = None then Inl KeyError
         else (case calc_adv_metrics (map (\<lambda>it. (adv_of it, ti_mask it)) items) of
                 Inl e \<Rightarrow> Inl e
               | Inr a \<Rightarrow> Inr (dict_update m a)))"

primrec add_sources ::
    "(string, training_item list) dict \<Rightarrow> (string, real) dict \<Rightarrow> (string, real list) dict \<Rightarrow>
       ((string, real) dict \<times> (string, real list) dict) res" where
  "add_sources [] metrics overall = Inr (metrics, overall)"
| "add_sources (e # es) metrics overall =
     (case source_metrics (snd e) of
        Inl x \<Rightarrow> Inl x
      | Inr m \<Rightarrow> add_sources es (append_with_prefix metrics (fst e @ ''/'') m)
                   (foldl (\<lambda>d (k, v). append_at k v d) overall m))"

definition gather_metrics :: "training_item list \<Rightarrow> (string, real) dict res" where
  "gather_metrics items =
     (case add_sources (by_source items) [] [] of
        Inl e \<Rightarrow> Inl e
      | Inr (metrics, overall) \<Rightarrow>
          Inr (append_with_prefix metrics ''overall/'' (map (\<lambda>(k, vs). (k, mean_of vs)) overall)))"

section \<open>The loop\<close>

text \<open>
  \<open>stale_step\<close> is none where there are no stale engines. \<open>batch_size\<close> counts samples.
\<close>

record loop_config =
  max_steps :: int
  save_interval :: int
  val_interval :: int
  stale_step :: "int option"
  val_before_train :: bool
  norm_by_task :: bool
  reduce_mode :: string
  has_reduce_mode :: bool
  batch_size :: nat

text \<open>
  The remote parts: filling the queue, rollouts, advantages, reference log probabilities, the
  update of the actor, validation, and what is reported. \<open>transfer\<close> gives the weights of an engine
  after one transfer from the actor, from those of the actor and the engine.
\<close>

record ('p, 'w) trainer =
  fill_queue :: "('w, unit) proc"
  rollouts :: "rat \<Rightarrow> ('w, training_item list) proc"
  advantage_step :: "training_item list \<Rightarrow> training_item list res"
  ref_step :: "training_item list \<Rightarrow> ('w, training_item list) proc"
  actor_step :: "training_item list \<Rightarrow> 'p \<Rightarrow> ('w, 'p) proc"
  report :: "training_item list \<Rightarrow> ('w, unit) proc"
  load_val_data :: "('w, unit) proc"
  collect_val :: "('w, unit) proc"
  transfer :: "'p \<Rightarrow> 'p \<Rightarrow> 'p"

text \<open>\<open>marker\<close> is the content of latest\_checkpointed\_iteration.txt, \<open>stored\<close> the checkpoints.\<close>

record ('p, 'w) training =
  global_step :: int
  first_step :: bool
  validating :: bool
  actor :: 'p
  engine :: 'p
  stale_engine :: 'p
  stored :: "(string, 'p) dict"
  marker :: "string option"
  world :: 'w

definition in_world :: "('w, 'a) proc \<Rightarrow> (('p, 'w) training, 'a) proc" where
  "in_world = zoom world (\<lambda>w s. s\<lparr>world := w\<rparr>)"

definition every :: "int \<Rightarrow> (('p, 'w) training, unit) proc \<Rightarrow> (('p, 'w) training, unit) proc" where
  "every n m =
     (if n = 0 then raise ZeroDivisionError
      else bnd (gets global_step) (\<lambda>s. if s mod n = 0 then m else ret ()))"

definition sync_params :: "loop_config \<Rightarrow> ('p, 'w) trainer \<Rightarrow> (('p, 'w) training, unit) proc" where
  "sync_params C R =
     andthen (modify (\<lambda>s. s\<lparr>engine := transfer R (actor s) (engine s)\<rparr>))
       (case stale_step C of
          None \<Rightarrow> ret ()
        | Some n \<Rightarrow> every n (modify (\<lambda>s. s\<lparr>stale_engine := transfer R (actor s) (stale_engine s)\<rparr>)))"

definition begin_validation :: "('p, 'w) trainer \<Rightarrow> (('p, 'w) training, unit) proc" where
  "begin_validation R = andthen (in_world (load_val_data R)) (modify (\<lambda>s. s\<lparr>validating := True\<rparr>))"

definition end_validation :: "('p, 'w) trainer \<Rightarrow> (('p, 'w) training, unit) proc" where
  "end_validation R =
     bnd (gets validating) (\<lambda>v.
       if v then andthen (in_world (collect_val R)) (modify (\<lambda>s. s\<lparr>validating := False\<rparr>)) else ret ())"

definition checkpoint_name :: "string \<Rightarrow> string" where
  "checkpoint_name step = ''global_step_'' @ step"

text \<open>The checkpoint is written before the marker.\<close>

definition save_step :: "(('p, 'w) training, unit) proc" where
  "save_step =
     andthen (modify (\<lambda>s. s\<lparr>stored := dict_set (checkpoint_name (int_str (global_step s))) (actor s) (stored s)\<rparr>))
       (modify (\<lambda>s. s\<lparr>marker := Some (int_str (global_step s))\<rparr>))"

definition sample_target :: "loop_config \<Rightarrow> bool \<Rightarrow> rat" where
  "sample_target C first = of_nat (batch_size C) * (if first then 17 / 10 else 1)"

text \<open>A step from the collection of the validation on.\<close>

definition finish_step :: "loop_config \<Rightarrow> ('p, 'w) trainer \<Rightarrow> training_item list \<Rightarrow> (('p, 'w) training, unit) proc" where
  "finish_step C R data =
     andthen (end_validation R)
     (andthen (sync_params C R)
     (andthen (every (val_interval C) (begin_validation R))
     (andthen (every (save_interval C) save_step)
     (andthen (in_world (report R data))
       (modify (\<lambda>s. s\<lparr>global_step := global_step s + 1\<rparr>))))))"

definition train_step :: "loop_config \<Rightarrow> ('p, 'w) trainer \<Rightarrow> (('p, 'w) training, unit) proc" where
  "train_step C R =
     andthen (in_world (fill_queue R))
     (bnd (gets first_step) (\<lambda>first.
      bnd (in_world (rollouts R (sample_target C first))) (\<lambda>data.
      andthen (modify (\<lambda>s. s\<lparr>first_step := False\<rparr>))
      (bnd (lift_res (advantage_step R data)) (\<lambda>adv.
       bnd (in_world (ref_step R (if norm_by_task C then task_adv_norm adv else adv))) (\<lambda>with_ref.
       bnd (lift_res (loss_weights (reduce_mode C) (has_reduce_mode C) with_ref)) (\<lambda>weighted.
       bnd (gets actor) (\<lambda>p.
       bnd (in_world (actor_step R weighted p)) (\<lambda>p'.
       andthen (modify (\<lambda>s. s\<lparr>actor := p'\<rparr>))
       (bnd (lift_res (gather_metrics weighted)) (\<lambda>rl.
        finish_step C R weighted)))))))))))"

text \<open>\<open>while global_step < max_steps\<close>; the number bounds the steps.\<close>

primrec train_loop :: "nat \<Rightarrow> loop_config \<Rightarrow> ('p, 'w) trainer \<Rightarrow> (('p, 'w) training, unit) proc" where
  "train_loop 0 C R = bnd (gets global_step) (\<lambda>s. if s < max_steps C then raise StillRunning else ret ())"
| "train_loop (Suc n) C R =
     bnd (gets global_step) (\<lambda>s. if s < max_steps C then andthen (train_step C R) (train_loop n C R) else ret ())"

text \<open>
  Resumption: the step after the marker, with its checkpoint, which must be there; an empty
  marker starts anew. The engines are given the weights of the actor.
\<close>

definition resume :: "(('p, 'w) training, unit) proc" where
  "resume =
     bnd (gets marker) (\<lambda>m.
     case m of
       None \<Rightarrow> modify (\<lambda>s. s\<lparr>marker := Some []\<rparr>)
     | Some content \<Rightarrow>
         (if str_strip content = [] then ret ()
          else (case parse_int (str_strip content) of
                  None \<Rightarrow> raise ValueError
                | Some k \<Rightarrow>
                    andthen (modify (\<lambda>s. s\<lparr>global_step := k + 1\<rparr>))
                    (bnd (gets stored) (\<lambda>d.
                       case dict_get d (checkpoint_name (str_strip content)) of None \<Rightarrow> raise FileNotFoundError | Some p \<Rightarrow> modify (\<lambda>s. s\<lparr>actor := p\<rparr>))))))"

text \<open>A process starts from the weights of the base model; marker and checkpoints are on disk.\<close>

definition start_process :: "'p \<Rightarrow> (string, 'p) dict \<Rightarrow> string option \<Rightarrow> 'w \<Rightarrow> ('p, 'w) training" where
  "start_process base d m w =
     \<lparr>global_step = 1, first_step = True, validating = False, actor = base, engine = base, stale_engine = base,
      stored = d, marker = m, world = w\<rparr>"

definition prepare :: "loop_config \<Rightarrow> ('p, 'w) trainer \<Rightarrow> (('p, 'w) training, unit) proc" where
  "prepare C R =
     andthen resume
     (andthen (modify (\<lambda>s. s\<lparr>engine := transfer R (actor s) (engine s)\<rparr>))
     (andthen (if stale_step C = None then ret ()
               else modify (\<lambda>s. s\<lparr>stale_engine := transfer R (actor s) (stale_engine s)\<rparr>))
     (if val_before_train C then begin_validation R else ret ())))"

section \<open>Devices are enough\<close>

lemma whole_part_nonneg: "0 \<le> x \<Longrightarrow> 0 \<le> whole_part x"
  by (simp add: whole_part_def)

text \<open>
  The devices asked for are there. However the ratios round, the engines of all kinds, each on
  its tensor parallel devices, and the actors fit into the devices of the cluster, and fewer than
  two engines' worth of devices stays unused; every kind of worker that is used has at least one.
\<close>

lemma devices_fit:
  assumes "divide_devices gpus rollout_ratio stale_ratio tp = Inr d" and "0 < tp" and "0 \<le> gpus"
    and "0 \<le> rollout_ratio" and "0 \<le> stale_ratio"
  shows "tp * (fresh_engines d + stale_engines d) + actor_gpus d \<le> gpus \<and>
     gpus < tp * (fresh_engines d + stale_engines d) + actor_gpus d + 2 * tp \<and>
     0 < fresh_engines d \<and> 0 \<le> stale_engines d \<and> 0 < actor_gpus d"
proof -
  define r where "r = whole_part (rollout_ratio * of_int gpus)"
  define q where "q = whole_part (stale_ratio * of_int r)"
  have d: "fresh_engines d = (r - q) div tp" "stale_engines d = (if 0 < q then q div tp else 0)" "actor_gpus d = gpus - r"
    and pos: "0 < (r - q) div tp" "0 < q \<Longrightarrow> 0 < q div tp" "0 < gpus - r"
    using assms(1,2) by (auto simp: divide_devices_def Let_def r_def q_def split: if_splits)
  have bounds: "tp * (x div tp) \<le> x \<and> x < tp * (x div tp) + tp" for x
  proof -
    have "x = tp * (x div tp) + x mod tp" by simp
    moreover have "0 \<le> x mod tp \<and> x mod tp < tp" using assms(2) by simp
    ultimately show ?thesis by linarith
  qed
  have "0 \<le> r" unfolding r_def using assms(3,4) by (intro whole_part_nonneg) simp
  then have q: "0 \<le> q" unfolding q_def using assms(5) by (intro whole_part_nonneg) simp
  have fresh: "tp * ((r - q) div tp) \<le> r - q" "r - q < tp * ((r - q) div tp) + tp" using bounds [of "r - q"] by auto
  have stale: "tp * stale_engines d \<le> q" "q < tp * stale_engines d + tp" "0 \<le> stale_engines d"
    using bounds [of q] q assms(2) pos(2) by (auto simp: d split: if_splits)
  have "tp * (fresh_engines d + stale_engines d) = tp * ((r - q) div tp) + tp * stale_engines d"
    by (simp add: d(1) algebra_simps)
  then show ?thesis using fresh stale pos d(1,3) by linarith
qed

lemma devices_fit_witness:
  "divide_devices 8 (1 / 2) (1 / 4) 1 = Inr \<lparr>fresh_engines = 3, stale_engines = 1, actor_gpus = 4\<rparr> \<and> 1 * (3 + 1) + 4 \<le> (8 :: int)"
proof -
  have eval: "divide_devices 8 (1 / 2) (1 / 4) 1 = Inr \<lparr>fresh_engines = 3, stale_engines = 1, actor_gpus = 4\<rparr>"
    by (simp add: divide_devices_def whole_part_def Let_def)
  then show ?thesis using devices_fit [OF eval] by simp
qed

section \<open>Normalised advantages\<close>

lemma mean_of_shift: "xs \<noteq> [] \<Longrightarrow> mean_of (map (\<lambda>x. (x - c) / d) xs) = (mean_of xs - c) / d"
proof -
  have sum: "sum_list (map (\<lambda>x. (x - c) / d) ys) = (sum_list ys - real (length ys) * c) / d" for ys
    by (induction ys) (auto simp: algebra_simps add_divide_distrib diff_divide_distrib)
  assume "xs \<noteq> []"
  then show ?thesis unfolding mean_of_def length_map sum by (cases "d = 0") (simp_all add: field_simps)
qed

lemma masked_select_map: "masked_select (map f xs) m = map f (masked_select xs m)"
  unfolding masked_select_def by (induction xs m rule: list_induct2') auto

lemma sample_std_nonneg: "2 \<le> length xs \<Longrightarrow> 0 \<le> sample_std xs"
proof -
  assume "2 \<le> length xs"
  moreover have "0 \<le> sum_list (map (\<lambda>x. (x - c) ^ 2) xs)" for c :: real by (induction xs) auto
  ultimately show ?thesis by (simp add: sample_std_def Let_def)
qed

lemma sample_std_scaled:
  assumes "xs \<noteq> []" and "0 < d"
  shows "sample_std (map (\<lambda>x. (x - c) / d) xs) = sample_std xs / d"
proof -
  have sum: "sum_list (map (\<lambda>y. (y - (m - c) / d) ^ 2) (map (\<lambda>x. (x - c) / d) ys)) =
      sum_list (map (\<lambda>x. (x - m) ^ 2) ys) / d ^ 2" for ys m
    by (induction ys) (simp_all add: diff_divide_distrib [symmetric] power_divide add_divide_distrib)
  have std: "sample_std ys = sqrt (sum_list (map (\<lambda>x. (x - mean_of ys) ^ 2) ys) / (real (length ys) - 1))" for ys
    by (simp add: sample_std_def mean_of_def Let_def)
  have "sample_std (map (\<lambda>x. (x - c) / d) xs) =
      sqrt (sum_list (map (\<lambda>x. (x - mean_of xs) ^ 2) xs) / d ^ 2 / (real (length xs) - 1))"
    unfolding std mean_of_shift [OF assms(1)] sum length_map ..
  also have "\<dots> = sqrt (sum_list (map (\<lambda>x. (x - mean_of xs) ^ 2) xs) / (real (length xs) - 1) / d ^ 2)"
    by (simp add: mult.commute)
  also have "\<dots> = sample_std xs / d"
    using assms(2) unfolding std real_sqrt_divide [of _ "d ^ 2"] by simp
  finally show ?thesis .
qed

lemma adv_norm_effective:
  assumes "2 \<le> length (effective_adv items)"
  shows "effective_adv (adv_norm items) =
     map (\<lambda>x. (x - mean_of (effective_adv items)) / (sample_std (effective_adv items) + 1 / 10 ^ 6)) (effective_adv items)"
proof -
  define f where "f = (\<lambda>x. (x - mean_of (effective_adv items)) / (sample_std (effective_adv items) + 1 / 10 ^ 6))"
  have "adv_of (adv_norm_item items it) = map f (adv_of it)" "ti_mask (adv_norm_item items it) = ti_mask it" for it
    using assms by (simp_all add: adv_norm_item_def adv_of_def f_def Let_def)
  then have "effective_adv (map (adv_norm_item items) its) = map f (effective_adv its)" for its
    by (induction its) (simp_all add: effective_adv_def masked_select_map)
  then show ?thesis by (simp add: adv_norm_def f_def)
qed

lemma of_source_norm: "of_source s (task_adv_norm items) = adv_norm (of_source s items)"
proof -
  have keep: "ti_source (adv_norm_item xs it) = ti_source it" for xs it
    by (simp add: adv_norm_item_def Let_def)
  have "filter (\<lambda>it. ti_source it = s) (map (\<lambda>it. adv_norm_item (of_source (ti_source it) items) it) its) =
      map (adv_norm_item (of_source s items)) (filter (\<lambda>it. ti_source it = s) its)" for its
    by (induction its) (simp_all add: keep)
  then show ?thesis by (simp add: task_adv_norm_def adv_norm_def of_source_def)
qed

text \<open>
  C34: normalisation by task makes the advantages of each source comparable. For a source with two
  or more tokens that count, the normalised advantages of these tokens have mean zero and a standard
  deviation of s / (s + 10^-6), which is below one, where s was the deviation before; the items of
  other sources play no part.
\<close>

theorem task_adv_norm_standardises:
  assumes "2 \<le> length (effective_adv (of_source src items))"
  shows "mean_of (effective_adv (of_source src (task_adv_norm items))) = 0 \<and>
     sample_std (effective_adv (of_source src (task_adv_norm items))) =
       sample_std (effective_adv (of_source src items)) / (sample_std (effective_adv (of_source src items)) + 1 / 10 ^ 6) \<and>
     sample_std (effective_adv (of_source src (task_adv_norm items))) < 1"
proof -
  let ?xs = "effective_adv (of_source src items)"
  have ne: "?xs \<noteq> []" using assms by auto
  have s: "0 \<le> sample_std ?xs" by (rule sample_std_nonneg [OF assms])
  then have d: "0 < sample_std ?xs + 1 / 10 ^ 6" by (simp add: add_nonneg_pos)
  have "sample_std ?xs / (sample_std ?xs + 1 / 10 ^ 6) < 1" using d by simp
  then show ?thesis
    unfolding of_source_norm adv_norm_effective [OF assms] mean_of_shift [OF ne] sample_std_scaled [OF ne d] by simp
qed

text \<open>A source with fewer than two tokens that count gets advantages that are not numbers.\<close>

lemma task_adv_norm_undefined:
  assumes "length (effective_adv (of_source (ti_source it) items)) < 2"
  shows "ti_undefined (adv_norm_item (of_source (ti_source it) items) it)"
  using assms by (simp add: adv_norm_item_def Let_def)

lemma task_adv_norm_witness:
  "let it = \<lparr>ti_source = ''a'', ti_group = ''g'', ti_reward = 1, ti_metrics = [], ti_adv = Some [3, 1], ti_undefined = False,
              ti_mask = [1, 1], ti_tokens = 2, ti_seq_len = 4, ti_ref = None, ti_weight = 1\<rparr>
   in mean_of (effective_adv (of_source ''a'' (task_adv_norm [it]))) = 0"
  using task_adv_norm_standardises [of "''a''" "[\<lparr>ti_source = ''a'', ti_group = ''g'', ti_reward = 1, ti_metrics = [],
      ti_adv = Some [3, 1], ti_undefined = False, ti_mask = [1, 1], ti_tokens = 2, ti_seq_len = 4, ti_ref = None,
      ti_weight = 1\<rparr>]"]
  by (simp add: of_source_def effective_adv_def masked_select_def adv_of_def Let_def)

section \<open>One step\<close>

lemma wp_in_world:
  assumes "\<And>x v. Q x (s\<lparr>world := v\<rparr>)" and "\<And>e v. E e (s\<lparr>world := v\<rparr>)"
  shows "wp (in_world m) Q E s"
  using assms by (auto simp: in_world_def intro: wp_any)

lemma wp_every:
  "wp (every n m) Q E s =
     (if n = 0 then E ZeroDivisionError s else if global_step s mod n = 0 then wp m Q E s else Q () s)"
  by (simp add: every_def)

lemma wp_sync:
  assumes "\<And>old. (stale_step C = None \<Longrightarrow> old = stale_engine s) \<Longrightarrow>
      (\<And>n. stale_step C = Some n \<Longrightarrow> n \<noteq> 0 \<and>
         old = (if global_step s mod n = 0 then transfer R (actor s) (stale_engine s) else stale_engine s)) \<Longrightarrow>
      Q () (s\<lparr>engine := transfer R (actor s) (engine s), stale_engine := old\<rparr>)"
    and "\<And>t. E ZeroDivisionError t"
  shows "wp (sync_params C R) Q E s"
proof -
  have same: "s\<lparr>engine := e\<rparr> = s\<lparr>engine := e, stale_engine := stale_engine s\<rparr>" for e by simp
  show ?thesis
  proof (cases "stale_step C")
    case None
    have "Q () (s\<lparr>engine := transfer R (actor s) (engine s), stale_engine := stale_engine s\<rparr>)"
      by (rule assms(1)) (simp_all add: None)
    then show ?thesis by (simp add: sync_params_def None)
  next
    case (Some n)
    let ?old = "if global_step s mod n = 0 then transfer R (actor s) (stale_engine s) else stale_engine s"
    have "Q () (s\<lparr>engine := transfer R (actor s) (engine s), stale_engine := ?old\<rparr>)" if "n \<noteq> 0"
      by (rule assms(1)) (use Some that in simp_all)
    then show ?thesis using assms(2) by (cases "global_step s mod n = 0") (simp_all add: sync_params_def Some wp_every)
  qed
qed

lemma wp_end_validation:
  assumes "\<And>v. Q () (s\<lparr>world := v, validating := False\<rparr>)" and "\<And>e t. E e t"
  shows "wp (end_validation R) Q E s"
proof -
  have same: "s\<lparr>world := world s, validating := False\<rparr> = s" if "\<not> validating s" using that by (cases s) simp
  have "Q () s" if "\<not> validating s" using assms(1) [of "world s"] unfolding same [OF that] .
  then show ?thesis using assms by (auto simp: end_validation_def intro!: wp_in_world)
qed

text \<open>What a step that returns has done to the parts that outlive it.\<close>

definition stepped :: "loop_config \<Rightarrow> ('p, 'w) trainer \<Rightarrow> ('p, 'w) training \<Rightarrow> ('p, 'w) training \<Rightarrow> bool" where
  "stepped C R s t \<longleftrightarrow>
     global_step t = global_step s + 1 \<and>
     engine t = transfer R (actor t) (engine s) \<and>
     (case stale_step C of
        None \<Rightarrow> stale_engine t = stale_engine s
      | Some n \<Rightarrow> stale_engine t = (if global_step s mod n = 0 then transfer R (actor t) (stale_engine s) else stale_engine s)) \<and>
     validating t = (global_step s mod val_interval C = 0) \<and>
     (if global_step s mod save_interval C = 0
      then stored t = dict_set (checkpoint_name (int_str (global_step s))) (actor t) (stored s) \<and>
        marker t = Some (int_str (global_step s))
      else stored t = stored s \<and> marker t = marker s)"

lemma stepped_next: "stepped C R s t \<Longrightarrow> global_step t = global_step s + 1"
  by (simp add: stepped_def)

lemma step_steps: "wp (train_step C R) (\<lambda>_. stepped C R s) (\<lambda>_ _. True) s"
proof -
  have tail: "wp (andthen (every (val_interval C) (begin_validation R))
      (andthen (every (save_interval C) save_step)
      (andthen (in_world (report R d)) (modify (\<lambda>s. s\<lparr>global_step := global_step s + 1\<rparr>)))))
      (\<lambda>_. stepped C R s) (\<lambda>_ _. True) t"
    if "global_step t = global_step s" "engine t = transfer R (actor t) (engine s)" "\<not> validating t"
      "case stale_step C of
        None \<Rightarrow> stale_engine t = stale_engine s
      | Some n \<Rightarrow> stale_engine t = (if global_step s mod n = 0 then transfer R (actor t) (stale_engine s) else stale_engine s)"
      "stored t = stored s" "marker t = marker s" for d t
    using that by (auto simp: wp_every begin_validation_def save_step_def stepped_def intro!: wp_in_world split: option.splits)
  have rest: "wp (finish_step C R d) (\<lambda>_. stepped C R s) (\<lambda>_ _. True) t"
    if "global_step t = global_step s" "engine t = engine s" "stale_engine t = stale_engine s"
      "stored t = stored s" "marker t = marker s" for d t
    unfolding finish_step_def wp_andthen [of "end_validation R"] wp_andthen [of "sync_params C R"]
    by (intro wp_end_validation wp_sync tail) (use that in \<open>auto split: option.splits\<close>)
  show ?thesis
    unfolding train_step_def
    by (auto intro!: wp_in_world rest split: sum.split)
qed

section \<open>Many steps\<close>

primrec train_steps :: "nat \<Rightarrow> loop_config \<Rightarrow> ('p, 'w) trainer \<Rightarrow> (('p, 'w) training, unit) proc" where
  "train_steps 0 C R = ret ()"
| "train_steps (Suc n) C R = andthen (train_steps n C R) (train_step C R)"

lemma train_steps_Suc:
  assumes "train_steps (Suc n) C R s0 = (Inr (), t)"
  obtains s where "train_steps n C R s0 = (Inr (), s)" "train_step C R s = (Inr (), t)" "stepped C R s t"
proof -
  from assms obtain s where s: "train_steps n C R s0 = (Inr (), s)" "train_step C R s = (Inr (), t)"
    by (auto simp: andthen_def bnd_def split: prod.splits sum.splits)
  moreover have "stepped C R s t" using step_steps [of C R s] s(2) by (rule wp_Inr)
  ultimately show ?thesis using that by blast
qed

lemma andthen_assoc: "andthen (andthen a b) c = andthen a (andthen b c)"
  by (rule ext) (simp add: andthen_def bnd_def split: prod.split sum.split)

lemma andthen_ret: "andthen (ret ()) m = m" "andthen m (ret ()) = m"
  by (rule ext, auto simp: andthen_def bnd_def ret_def split: prod.split sum.split)+

text \<open>The loop is its steps, as many as are left.\<close>

lemma train_steps_loop:
  assumes "train_steps n C R s0 = (Inr (), s)" and "int n = max_steps C - global_step s0"
  shows "train_loop n C R s0 = (Inr (), s)"
proof -
  have step: "train_steps (Suc n) C R = andthen (train_step C R) (train_steps n C R)" for n
    by (induction n) (simp_all add: andthen_assoc andthen_ret)
  show ?thesis using assms
  proof (induction n arbitrary: s0)
    case 0
    then show ?case by (simp add: bnd_def gets_def ret_def)
  next
    case (Suc n)
    then obtain s1 where s1: "train_step C R s0 = (Inr (), s1)" "train_steps n C R s1 = (Inr (), s)"
      unfolding step by (auto simp: andthen_def bnd_def split: prod.splits sum.splits)
    then have "stepped C R s0 s1" using wp_Inr [OF step_steps] by blast
    then have "train_loop n C R s1 = (Inr (), s)"
      using Suc.IH [OF s1(2)] Suc.prems(2) by (simp add: stepped_def)
    then show ?case using Suc.prems(2) s1(1) by (simp add: bnd_def andthen_def gets_def)
  qed
qed

lemma prepared:
  assumes "prepare C R (start_process base [] None w) = (Inr (), s0)"
  shows "global_step s0 = 1 \<and> actor s0 = base \<and> stored s0 = [] \<and> marker s0 = Some [] \<and>
     engine s0 = transfer R base base \<and> stale_engine s0 = (if stale_step C = None then base else transfer R base base)"
proof -
  have "wp (prepare C R) (\<lambda>_ s. global_step s = 1 \<and> actor s = base \<and> stored s = [] \<and> marker s = Some [] \<and>
      engine s = transfer R base base \<and> stale_engine s = (if stale_step C = None then base else transfer R base base))
      (\<lambda>_ _. True) (start_process base [] None w)"
    by (auto simp: prepare_def resume_def start_process_def begin_validation_def intro!: wp_in_world)
  from wp_Inr [OF this assms] show ?thesis .
qed

lemma after_steps:
  assumes "train_steps n C R s0 = (Inr (), s)"
  shows "global_step s = global_step s0 + int n"
  using assms
proof (induction n arbitrary: s)
  case (Suc n)
  from Suc.prems obtain s' where s': "train_steps n C R s0 = (Inr (), s')" "stepped C R s' s" by (rule train_steps_Suc)
  show ?case using Suc.IH [OF s'(1)] stepped_next [OF s'(2)] by simp
qed (simp add: ret_def)

text \<open>The last multiple of an interval.\<close>

definition last_multiple :: "nat \<Rightarrow> nat \<Rightarrow> nat" where
  "last_multiple d n = n - n mod d"

lemma last_multiple_Suc:
  "last_multiple d (Suc n) = (if Suc n mod d = 0 then Suc n else last_multiple d n)"
  by (auto simp: last_multiple_def mod_Suc split: if_splits)

lemma last_multiple_zero [simp]: "last_multiple d 0 = 0"
  by (simp add: last_multiple_def)

lemma mod_int_zero: "(1 + int n) mod int d = 0 \<longleftrightarrow> Suc n mod d = 0"
proof -
  have "1 + int n = int (Suc n)" by simp
  then show ?thesis by (simp only: of_nat_mod [symmetric] of_nat_eq_0_iff)
qed

text \<open>What is on disk: the checkpoint of a step and its number in the marker, or nothing.\<close>

definition saved_at :: "nat \<Rightarrow> 'p \<Rightarrow> ('p, 'w) training \<Rightarrow> bool" where
  "saved_at k p s \<longleftrightarrow>
     (if k = 0 then marker s = Some []
      else marker s = Some (nat_str k) \<and> dict_get (stored s) (checkpoint_name (nat_str k)) = Some p)"

lemma saved_after_steps:
  assumes "train_steps n C R s0 = (Inr (), s)" and "global_step s0 = 1" and "marker s0 = Some []"
    and "save_interval C = int d"
  shows "saved_at (last_multiple d n) (actor (snd (train_steps (last_multiple d n) C R s0))) s"
  using assms(1)
proof (induction n arbitrary: s)
  case 0
  then show ?case using assms(3) by (simp add: saved_at_def ret_def)
next
  case (Suc n)
  from Suc.prems obtain s' where s': "train_steps n C R s0 = (Inr (), s')" "stepped C R s' s" by (rule train_steps_Suc)
  have g: "global_step s' = 1 + int n" using after_steps [OF s'(1)] assms(2) by simp
  show ?case
  proof (cases "Suc n mod d = 0")
    case True
    moreover have "int_str (1 + int n) = nat_str (Suc n)" by (simp add: int_str_def nat_add_distrib)
    ultimately show ?thesis
      using s'(2) Suc.prems mod_int_zero [of n d] assms(4)
      by (simp add: stepped_def saved_at_def last_multiple_Suc g update_conv' del: train_steps.simps)
  next
    case False
    then show ?thesis using s'(2) Suc.IH [OF s'(1)] mod_int_zero [of n d] assms(4)
      by (simp add: stepped_def saved_at_def last_multiple_Suc g)
  qed
qed

lemma strip_nat_str [simp]: "str_strip (nat_str n) = nat_str n"
proof -
  have "\<not> is_space c" if "is_digit c" for c using that by (auto simp: is_digit_def is_space_def)
  then have "list_all (\<lambda>c. \<not> is_space c) (nat_str n)"
    using nat_str_digits [of n] by (auto simp: list_all_iff)
  then have "dropWhile is_space (nat_str n) = nat_str n" "dropWhile is_space (rev (nat_str n)) = rev (nat_str n)"
    by (auto simp: dropWhile_eq_self_iff list_all_iff hd_rev)
  then show ?thesis by (simp add: str_strip_def)
qed

text \<open>
  C16: a training that is interrupted goes on from its last checkpoint. A fresh training that has
  done n steps and is then started again continues with the step after the last multiple k of the
  save interval, with the actor as it was after k steps, or from the start when k is zero.
\<close>

theorem resumes_from_last_checkpoint:
  assumes "prepare C R (start_process base [] None w) = (Inr (), s0)"
    and "train_steps n C R s0 = (Inr (), s)" and "save_interval C = int d"
  shows "\<exists>t. resume (start_process base (stored s) (marker s) v) = (Inr (), t) \<and>
     global_step t = int (last_multiple d n) + 1 \<and>
     actor t = actor (snd (train_steps (last_multiple d n) C R s0))"
proof -
  let ?k = "last_multiple d n"
  have s0: "global_step s0 = 1" "marker s0 = Some []" "actor s0 = base" using prepared [OF assms(1)] by auto
  have saved: "saved_at ?k (actor (snd (train_steps ?k C R s0))) s"
    by (rule saved_after_steps [OF assms(2) s0(1,2) assms(3)])
  show ?thesis
  proof (cases "?k = 0")
    case True
    then show ?thesis using saved s0(3)
      by (simp add: saved_at_def resume_def start_process_def bnd_def gets_def ret_def str_strip_def)
  next
    case False
    then have "marker s = Some (nat_str ?k)" "dict_get (stored s) (checkpoint_name (nat_str ?k)) =
        Some (actor (snd (train_steps ?k C R s0)))"
      using saved by (simp_all add: saved_at_def)
    then show ?thesis
      by (simp add: resume_def start_process_def bnd_def gets_def andthen_def modify_def)
  qed
qed

text \<open>A process that has started: the engines have the weights of its actor, resumed or not.\<close>

lemma prepared_engines:
  assumes "prepare C R (start_process base d0 m w) = (Inr (), s0)" and "\<And>a e. transfer R a e = a"
  shows "engine s0 = actor s0 \<and> (stale_step C \<noteq> None \<longrightarrow> stale_engine s0 = actor s0)"
proof -
  have engines: "wp (andthen (modify (\<lambda>s. s\<lparr>engine := transfer R (actor s) (engine s)\<rparr>))
      (andthen (if stale_step C = None then ret ()
               else modify (\<lambda>s. s\<lparr>stale_engine := transfer R (actor s) (stale_engine s)\<rparr>))
      (if val_before_train C then begin_validation R else ret ())))
      (\<lambda>_ s. engine s = actor s \<and> (stale_step C \<noteq> None \<longrightarrow> stale_engine s = actor s)) (\<lambda>_ _. True) s" for s
    by (auto simp: begin_validation_def assms(2) intro!: wp_in_world)
  have "wp (prepare C R) (\<lambda>_ s. engine s = actor s \<and> (stale_step C \<noteq> None \<longrightarrow> stale_engine s = actor s))
      (\<lambda>_ _. True) (start_process base d0 m w)"
    unfolding prepare_def wp_andthen [of resume] by (rule wp_any) (simp_all only: engines)
  from wp_Inr [OF this assms(1)] show ?thesis .
qed

lemma steps_since_multiple:
  "last_multiple d (k + Suc n) - k = (if (k + Suc n) mod d = 0 then Suc n else last_multiple d (k + n) - k)"
  by (simp add: last_multiple_Suc)

lemma followed_after_steps:
  assumes "train_steps n C R s0 = (Inr (), s)" and "global_step s0 = int (Suc k)" and "\<And>a e. transfer R a e = a"
    and "engine s0 = actor s0" and "stale_step C = Some (int d) \<Longrightarrow> stale_engine s0 = actor s0"
  shows "engine s = actor s \<and>
     (stale_step C = Some (int d) \<longrightarrow>
        stale_engine s = actor (snd (train_steps (last_multiple d (k + n) - k) C R s0)))"
  using assms(1)
proof (induction n arbitrary: s)
  case 0
  have "last_multiple d k - k = 0" by (simp add: last_multiple_def)
  then show ?case using 0 assms(4,5) by (simp add: ret_def)
next
  case (Suc n)
  from Suc.prems obtain s' where s': "train_steps n C R s0 = (Inr (), s')" "stepped C R s' s" by (rule train_steps_Suc)
  have g: "global_step s' = 1 + int (k + n)" using after_steps [OF s'(1)] assms(2) by simp
  have engine: "engine s = actor s" using s'(2) assms(3) by (simp add: stepped_def)
  have stale: "stale_engine s = (if (k + Suc n) mod d = 0 then actor s else stale_engine s')" if "stale_step C = Some (int d)"
    using s'(2) that assms(3) mod_int_zero [of "k + n" d] by (simp add: stepped_def g)
  show ?case
  proof (cases "(k + Suc n) mod d = 0")
    case True
    then have m: "last_multiple d (k + Suc n) - k = Suc n" unfolding steps_since_multiple by simp
    show ?thesis unfolding m using True stale engine Suc.prems by (simp del: train_steps.simps)
  next
    case False
    then have m: "last_multiple d (k + Suc n) - k = last_multiple d (k + n) - k" unfolding steps_since_multiple by simp
    show ?thesis unfolding m using False stale engine Suc.IH [OF s'(1)] by (simp del: train_steps.simps)
  qed
qed

text \<open>
  C33: how old the weights are that sample. A process starts fresh or resumes after a step k, and does
  n steps, in which every transfer brings all weights over. Then the engines have the weights of the
  actor. Stale engines, if there are any, have those the actor had after the last step whose number is
  a multiple of the stale interval, if the process has done such a step, and else those it started with:
  in both cases the weights of fewer steps ago than the interval.
\<close>

theorem engines_follow_actor:
  assumes "prepare C R (start_process base d0 m w) = (Inr (), s0)" and "global_step s0 = int (Suc k)"
    and "train_steps n C R s0 = (Inr (), s)" and "\<And>a e. transfer R a e = a"
  shows "engine s = actor s \<and>
    (\<forall>d. stale_step C = Some (int d) \<and> 0 < d \<longrightarrow>
       stale_engine s = actor (snd (train_steps (last_multiple d (k + n) - k) C R s0)) \<and>
       n < (last_multiple d (k + n) - k) + d)"
proof -
  have s0: "engine s0 = actor s0" "stale_step C = Some (int d) \<Longrightarrow> stale_engine s0 = actor s0" for d
    using prepared_engines [OF assms(1,4)] by auto
  have "n < (last_multiple d (k + n) - k) + d" if "0 < d" for d
    using mod_less_divisor [OF that, of "k + n"] mod_less_eq_dividend [of "k + n" d]
    unfolding last_multiple_def by linarith
  then show ?thesis
    using followed_after_steps [OF assms(3,2,4) s0] by blast
qed

text \<open>
  A validation that is begun in a step is collected in the next one, so the one begun in the last
  step is never collected.
\<close>

lemma validation_left:
  assumes "prepare C R (start_process base [] None w) = (Inr (), s0)" and "train_steps (Suc n) C R s0 = (Inr (), s)"
    and "val_interval C = int d"
  shows "validating s = (Suc n mod d = 0)"
proof -
  from assms(2) obtain s' where s': "train_steps n C R s0 = (Inr (), s')" "stepped C R s' s" by (rule train_steps_Suc)
  have "global_step s' = 1 + int n" using after_steps [OF s'(1)] prepared [OF assms(1)] by simp
  then show ?thesis using s'(2) assms(3) mod_int_zero [of n d] by (simp add: stepped_def)
qed

text \<open>A marker that was being written when the process ended is empty: the training starts anew.\<close>

lemma torn_marker_restarts:
  "resume (start_process base d (Some []) w) = (Inr (), start_process base d (Some []) w)"
  by (simp add: resume_def start_process_def bnd_def gets_def ret_def str_strip_def)

text \<open>An unknown way of reducing the loss is reported with the wrong key of the configuration.\<close>

lemma unknown_mode_raises_key_error:
  "items \<noteq> [] \<Longrightarrow> mode \<notin> {''seq-mean'', ''token-mean''} \<Longrightarrow> loss_weights mode False items = Inl KeyError"
  by (simp add: loss_weights_def)

section \<open>A training of counters\<close>

text \<open>The actor counts its steps; nothing else happens.\<close>

definition counting :: "(nat, unit) trainer" where
  "counting =
     \<lparr>fill_queue = ret (), rollouts = (\<lambda>x. ret []), advantage_step = Inr, ref_step = ret,
      actor_step = (\<lambda>d p. ret (Suc p)), report = (\<lambda>d. ret ()), load_val_data = ret (), collect_val = ret (),
      transfer = (\<lambda>a e. a)\<rparr>"

definition counting_config :: loop_config where
  "counting_config =
     \<lparr>max_steps = 6, save_interval = 2, val_interval = 3, stale_step = Some 2, val_before_train = False,
      norm_by_task = False, reduce_mode = ''seq-mean'', has_reduce_mode = False, batch_size = 4\<rparr>"

abbreviation counting_start :: "(nat, unit) training" where
  "counting_start \<equiv> snd (prepare counting_config counting (start_process 0 [] None ()))"

lemma counting_step: "\<exists>t. train_step counting_config counting s = (Inr (), t) \<and> actor t = Suc (actor s)"
proof -
  have "gather_metrics [] = Inr []" "loss_weights ''seq-mean'' False [] = Inr []"
    by (simp_all add: gather_metrics_def by_source_def append_with_prefix_def loss_weights_def)
  then show ?thesis
    by (simp add: train_step_def finish_step_def counting_def counting_config_def in_world_def zoom_def ret_def andthen_def
        bnd_def gets_def modify_def lift_res_def end_validation_def sync_params_def every_def begin_validation_def save_step_def)
qed

lemma counting_steps:
  "\<exists>t. train_steps n counting_config counting s = (Inr (), t) \<and> actor t = n + actor s"
proof (induction n)
  case (Suc n)
  then obtain t where t: "train_steps n counting_config counting s = (Inr (), t)" "actor t = n + actor s" by blast
  moreover obtain u where "train_step counting_config counting t = (Inr (), u)" "actor u = Suc (actor t)"
    using counting_step by blast
  ultimately show ?case by (simp add: andthen_def bnd_def)
qed (simp add: ret_def)

lemma counting_runs:
  "fst (prepare counting_config counting (start_process 0 [] None ())) = Inr ()"
  "fst (train_steps 5 counting_config counting counting_start) = Inr ()"
  "actor (snd (train_steps 4 counting_config counting counting_start)) = 4"
proof -
  show p: "fst (prepare counting_config counting (start_process 0 [] None ())) = Inr ()" by code_simp
  show "fst (train_steps 5 counting_config counting counting_start) = Inr ()"
    using counting_steps [of 5 counting_start] by force
  have "actor counting_start = 0" by code_simp
  then show "actor (snd (train_steps 4 counting_config counting counting_start)) = 4"
    using counting_steps [of 4 counting_start] by force
qed

lemma counting_pairs:
  "prepare counting_config counting (start_process 0 [] None ()) = (Inr (), counting_start)"
  "train_steps 5 counting_config counting counting_start = (Inr (), snd (train_steps 5 counting_config counting counting_start))"
  using counting_runs(1,2) by (simp_all add: prod_eq_iff)

lemma resumes_from_last_checkpoint_witness:
  "\<exists>t. resume (start_process 0 (stored (snd (train_steps 5 counting_config counting counting_start)))
       (marker (snd (train_steps 5 counting_config counting counting_start))) ()) = (Inr (), t) \<and>
     global_step t = 5 \<and> actor t = 4"
  using resumes_from_last_checkpoint [OF counting_pairs, of 2 "()"] counting_runs(3)
  by (simp add: counting_config_def [THEN arg_cong [where f = save_interval]] last_multiple_def)

text \<open>A process that resumes after step 4 and does three more.\<close>

abbreviation resumed_start :: "(nat, unit) training" where
  "resumed_start \<equiv> snd (prepare counting_config counting (start_process 0 [(''global_step_4'', 4)] (Some ''4'') ()))"

lemma resumed_runs:
  "prepare counting_config counting (start_process 0 [(''global_step_4'', 4)] (Some ''4'') ()) = (Inr (), resumed_start)"
  "global_step resumed_start = int (Suc 4)" "actor resumed_start = 4"
proof -
  have "fst (prepare counting_config counting (start_process 0 [(''global_step_4'', 4)] (Some ''4'') ())) = Inr ()"
    by code_simp
  then show "prepare counting_config counting (start_process 0 [(''global_step_4'', 4)] (Some ''4'') ()) = (Inr (), resumed_start)"
    by (simp add: prod_eq_iff)
  show "global_step resumed_start = int (Suc 4)" "actor resumed_start = 4" by code_simp+
qed

lemma engines_follow_actor_witness:
  "engine (snd (train_steps 3 counting_config counting resumed_start)) = 7 \<and>
   stale_engine (snd (train_steps 3 counting_config counting resumed_start)) = 6"
proof -
  obtain t where t: "train_steps 3 counting_config counting resumed_start = (Inr (), t)" "actor t = 7"
    using counting_steps [of 3 resumed_start] unfolding resumed_runs(3) by auto
  have two: "actor (snd (train_steps 2 counting_config counting resumed_start)) = 6"
    using counting_steps [of 2 resumed_start] unfolding resumed_runs(3) by force
  have conf: "stale_step counting_config = Some (int 2)" "transfer counting a e = a" for a e
    by (simp_all add: counting_config_def counting_def)
  from engines_follow_actor [OF resumed_runs(1,2) t(1) conf(2)]
  have e: "engine t = actor t" "stale_engine t = actor (snd (train_steps (last_multiple 2 (4 + 3) - 4) counting_config counting resumed_start))"
    using conf(1) by auto
  have "last_multiple 2 (4 + 3) - 4 = (2 :: nat)" by (simp add: last_multiple_def)
  with e t two show ?thesis by simp
qed

end
