(* ===== verification/Trace_Copy.thy ===== *)
theory Trace_Copy
  imports Trace_Store Encoding
begin

text \<open>
  The script that fetches traces from a trace store (extra/scripts/tracectl.py): the session
  ids named by its arguments, the path of a session in the store, and the copy of what is there.
  Where the store puts its links is Trace_Store; here it is read again. Prompts, threads and printing
  are left out: every question is answered by \<open>assume_yes\<close>.
\<close>

section \<open>Session ids\<close>

definition isdigit :: "string \<Rightarrow> bool" where
  "isdigit s \<longleftrightarrow> s \<noteq> [] \<and> list_all is_digit s"

text \<open>\<open>str(v)\<close> as far as its digits matter.\<close>

definition value_str :: "json \<Rightarrow> string" where
  "value_str j = (case j of JInt i \<Rightarrow> int_str i | JStr s \<Rightarrow> s | _ \<Rightarrow> [])"

fun first_present :: "string list \<Rightarrow> (string \<times> json) list \<Rightarrow> json option" where
  "first_present [] d = None"
| "first_present (k # ks) d =
     (case dict_get d k of
        None \<Rightarrow> first_present ks d
      | Some v \<Rightarrow> if v = JNull then first_present ks d else Some v)"

definition line_text :: "(string \<Rightarrow> json option) \<Rightarrow> string \<Rightarrow> string" where
  "line_text loads line =
     (let s = str_strip line
      in case loads s of
           Some (JObj d) \<Rightarrow> (case first_present [''session_id'', ''sid''] d of None \<Rightarrow> s | Some v \<Rightarrow> value_str v)
         | _ \<Rightarrow> s)"

definition number_of :: "string \<Rightarrow> int list" where
  "number_of s = (if isdigit s then (case parse_nat s of None \<Rightarrow> [] | Some n \<Rightarrow> [int n]) else [])"

text \<open>\<open>file_lines\<close> gives the lines of the argument where it names a file.\<close>

definition parse_session_ids :: "(string \<Rightarrow> string list option) \<Rightarrow> (string \<Rightarrow> json option) \<Rightarrow> string list \<Rightarrow> int list" where
  "parse_session_ids file_lines loads input_args =
     concat (map (\<lambda>arg. case file_lines arg of
                          Some ls \<Rightarrow> concat (map (\<lambda>l. number_of (line_text loads l)) ls)
                        | None \<Rightarrow> number_of arg) input_args)"

section \<open>The path of a session\<close>

definition exists_path :: "content fs \<Rightarrow> path \<Rightarrow> bool" where
  "exists_path fs p \<longleftrightarrow> p = [] \<or> dict_get fs (resolved fs p) \<noteq> None"

definition find_by_session :: "path \<Rightarrow> int \<Rightarrow> content fs \<Rightarrow> path option" where
  "find_by_session root sid fs =
     (let p = root @ [hex2 (sid div 256 mod 256), hex2 (sid mod 256), ''session_'' @ int_str sid]
      in if exists_path fs p then Some (resolved fs p) else None)"

section \<open>Copying\<close>

datatype entry_type = DirEntry | ZipEntry | FileEntry | UnknownEntry

definition is_zip_name :: "string \<Rightarrow> bool" where
  "is_zip_name name \<longleftrightarrow> str_lower (suffix_of name) = ''.zip''"

definition describe_entry :: "content fs \<Rightarrow> path \<Rightarrow> entry_type" where
  "describe_entry fs p =
     (if is_folder fs (resolved fs p) then DirEntry
      else if file_content fs p \<noteq> None then (if is_zip_name (last p) then ZipEntry else FileEntry)
      else UnknownEntry)"

text \<open>\<open>sys.exit(1)\<close> is the end of the script.\<close>

definition script_exit :: py_error where
  "script_exit = PlainException ''SystemExit''"

definition ensure_clean :: "bool \<Rightarrow> path \<Rightarrow> unit store_proc" where
  "ensure_clean assume_yes p =
     bnd (gets (\<lambda>fs. (exists_path fs p, is_folder fs (resolved fs p)))) (\<lambda>(there, folder).
     if \<not> there then ret ()
     else if \<not> assume_yes then raise script_exit
     else if folder then modify (remove_tree p) else unlink p)"

text \<open>The stem of a name, and unpacking, which puts the members below the folder.\<close>

definition stem_of :: "string \<Rightarrow> string" where
  "stem_of name = take (length name - length (suffix_of name)) name"

definition unpack_archive :: "path \<Rightarrow> path \<Rightarrow> unit store_proc" where
  "unpack_archive src dst =
     bnd (gets (\<lambda>fs. file_content fs src)) (\<lambda>c.
     case c of
       Some (Archive members) \<Rightarrow>
         andthen (mkdir_parents dst)
           (each (\<lambda>(p, c). andthen (mkdir_parents (dst @ butlast p)) (write_file (dst @ p) c)) members)
     | _ \<Rightarrow> raise (PlainException ''ReadError''))"

definition copy_entry :: "bool \<Rightarrow> path \<Rightarrow> path \<Rightarrow> path option store_proc" where
  "copy_entry assume_yes output src =
     (let dest = output @ [last src]
      in bnd (gets (\<lambda>fs. describe_entry fs src)) (\<lambda>kind.
         case kind of
           DirEntry \<Rightarrow> andthen (ensure_clean assume_yes dest) (andthen (copy_tree src dest) (ret (Some dest)))
         | FileEntry \<Rightarrow> andthen (ensure_clean assume_yes dest) (andthen (copy_file src dest) (ret (Some dest)))
         | ZipEntry \<Rightarrow>
             (let extract_dir = output @ [stem_of (last src)]
              in andthen (ensure_clean assume_yes dest)
                 (andthen (copy_file src dest)
                 (andthen (ensure_clean assume_yes extract_dir)
                 (andthen (unpack_archive dest extract_dir)
                 (andthen (unlink dest) (ret (Some extract_dir)))))))
         | UnknownEntry \<Rightarrow> ret None))"

text \<open>One session: nothing where it is not found or of no known kind.\<close>

definition process_one :: "bool \<Rightarrow> path \<Rightarrow> path \<Rightarrow> int \<Rightarrow> path option store_proc" where
  "process_one assume_yes root output sid =
     bnd (gets (find_by_session root sid)) (\<lambda>p.
     case p of None \<Rightarrow> ret None | Some src \<Rightarrow> copy_entry assume_yes output src)"

definition guess_default_jobs :: "nat option \<Rightarrow> nat \<Rightarrow> nat" where
  "guess_default_jobs cpus n_items =
     (let cpu = (case cpus of None \<Rightarrow> 4 | Some 0 \<Rightarrow> 4 | Some c \<Rightarrow> c)
      in min (max 4 (cpu * 5)) (min 32 (max 1 n_items)))"

text \<open>The whole script, one session after the other.\<close>

definition fetch_traces :: "bool \<Rightarrow> path \<Rightarrow> path \<Rightarrow> int list \<Rightarrow> unit store_proc" where
  "fetch_traces assume_yes store output session_ids =
     (if session_ids = [] then ret ()
      else andthen (mkdir_parents output)
        (each (\<lambda>k. andthen (process_one assume_yes (store @ [''by-session'']) output k) (ret ())) session_ids))"

section \<open>What was stored is found\<close>

text \<open>The number of a session that is given in digits is read as it is.\<close>

lemma ids_of_digits: "parse_session_ids (\<lambda>a. None) loads (map nat_str ns) = map int ns"
  by (induction ns) (simp_all add: parse_session_ids_def number_of_def isdigit_def nat_str_digits)

lemma ids_of_records:
  assumes "loads (str_strip l) = Some (JObj [(''session_id'', JInt (int n))])"
  shows "parse_session_ids (\<lambda>a. Some [l]) loads [''results.jsonl''] = [int n]"
  using assms
  by (simp add: parse_session_ids_def line_text_def number_of_def isdigit_def nat_str_digits Let_def value_str_def
      int_str_def)

lemma default_jobs_bounds: "1 \<le> guess_default_jobs cpus n \<and> guess_default_jobs cpus n \<le> 32"
  by (auto simp: guess_default_jobs_def Let_def)

text \<open>
  C35: the script finds what the trace store has saved. When saving a trace returns a path with
  something at it that is no link, then looking the session of the trace up in the folder of the store
  gives that path, whatever else the store holds.
\<close>

theorem saved_trace_is_found:
  assumes "plain_names (store_root S)" and "plain_names [task_index t]"
    and "\<forall>n. \<not> below tmp_dir (folder_by_time S t @ [n]) \<and> tmp_dir \<noteq> folder_by_time S t @ [n]"
    and "finalize S t tmp_dir fs = (Inr (Some final), fs')"
    and "\<forall>rel. dict_get fs' final \<noteq> Some (Link rel)"
  shows "find_by_session (store_root S @ [''by-session'']) (session_id t) fs' = Some final"
proof -
  have there: "dict_get fs' final \<noteq> None" and "\<exists>rel. dict_get fs' (link_by_session S t) = Some (Link rel) \<and>
      link_target (link_by_session S t) rel = resolved fs' final"
    using saved_trace_links [OF assms(1-4)] by auto
  moreover have "resolved fs' final = final"
    using assms(5) by (auto simp: resolved_def split: option.split node.split)
  ultimately have "resolved fs' (link_by_session S t) = final" by (auto simp: resolved_def)
  moreover have "store_root S @ [''by-session'', hex2 (session_id t div 256 mod 256), hex2 (session_id t mod 256),
      ''session_'' @ int_str (session_id t)] = link_by_session S t"
    by (simp add: link_by_session_def session_link_def session_bucket_def)
  ultimately show ?thesis using there by (simp add: find_by_session_def Let_def exists_path_def)
qed

text \<open>Copying a plain file to another place gives its content there.\<close>

lemma file_copied:
  assumes "dict_get fs src = Some (File c)" and "\<not> is_zip_name (last src)" and "is_folder fs output"
    and "dict_get fs (output @ [last src]) = None" and "src \<noteq> []"
  shows "\<exists>fs'. copy_entry b output src fs = (Inr (Some (output @ [last src])), fs') \<and>
     file_content fs' (output @ [last src]) = Some c"
proof -
  have "resolved fs src = src" "\<not> is_folder fs src" "file_content fs src = Some c"
    "resolved fs (output @ [last src]) = output @ [last src]"
    using assms(1,4,5) by (auto simp: resolved_def is_folder_def file_content_def)
  then show ?thesis
    using assms
    by (auto simp: copy_entry_def describe_entry_def ensure_clean_def exists_path_def bnd_def gets_def andthen_def ret_def
        copy_file_def write_file_def put_node_def modify_def is_folder_def file_content_def Let_def)
qed

text \<open>Copying into the folder of the trace itself with \<open>assume_yes\<close> removes it from the store, and then fails.\<close>

lemma copy_to_itself_loses:
  assumes "src \<noteq> []" and "dict_get fs src = Some (File c)" and "\<not> is_zip_name (last src)" and "distinct (dict_keys fs)"
  shows "fst (copy_entry True (butlast src) src fs) = Inl FileNotFoundError \<and>
     dict_get (snd (copy_entry True (butlast src) src fs)) src = None"
proof -
  have "resolved fs src = src" "\<not> is_folder fs src" "file_content fs src = Some c"
    using assms by (auto simp: resolved_def is_folder_def file_content_def)
  then show ?thesis
    using assms
    by (simp add: copy_entry_def describe_entry_def ensure_clean_def exists_path_def bnd_def gets_def andthen_def
        copy_file_def unlink_def modify_def file_content_def raise_def Let_def)
qed

lemma saved_trace_is_found_witness:
  "\<exists>fs'. finalize here first_trace [''tmp''] one_file =
      (Inr (Some [''srv'', ''by-time'', ''70'', ''01'', ''01'', ''08'', ''3-7-0.txt'']), fs') \<and>
    find_by_session [''srv'', ''by-session''] 7 fs' = Some [''srv'', ''by-time'', ''70'', ''01'', ''01'', ''08'', ''3-7-0.txt'']"
proof -
  let ?final = "[''srv'', ''by-time'', ''70'', ''01'', ''01'', ''08'', ''3-7-0.txt'']"
  obtain fs' where run: "finalize here first_trace [''tmp''] one_file = (Inr (Some ?final), fs')"
    using first_trace_saved by (cases "finalize here first_trace [''tmp''] one_file") simp
  have "dict_get (snd (finalize here first_trace [''tmp''] one_file)) ?final = Some (File (Bytes ''x''))" by code_simp
  then have plain: "\<forall>rel. dict_get fs' ?final \<noteq> Some (Link rel)" using run by simp
  have "folder_by_time here first_trace = [''srv'', ''by-time'', ''70'', ''01'', ''01'', ''08'']" by code_simp
  then have "\<forall>n. \<not> below [''tmp''] (folder_by_time here first_trace @ [n]) \<and> [''tmp''] \<noteq> folder_by_time here first_trace @ [n]"
    by (simp add: below_def)
  from saved_trace_is_found [OF _ _ this run plain] run show ?thesis
    by (simp add: plain_names_def here_def first_trace_def)
qed

end
