(* ===== verification/Calculator_Task.thy ===== *)
theory Calculator_Task
  imports Task_Worker
begin

text \<open>
  The example task of a calculator (examples/simple-calculator/task.py): an environment as the
  task worker runs it, with its tools, its tasks and the loop over the replies of the agent. What the
  environment does between two waits is a function of the messages it gets. Numbers in arguments are
  integers; the parser of arguments and the text of a document are parameters.
\<close>

section \<open>Tools and tasks\<close>

definition number_parameter :: "string \<Rightarrow> json" where
  "number_parameter d = JObj [(''type'', JStr ''number''), (''description'', JStr d)]"

definition calculator_tool :: "string \<Rightarrow> string \<Rightarrow> (string \<times> json) list \<Rightarrow> json" where
  "calculator_tool k d props =
     JObj [(''type'', JStr ''function''),
           (''function'', JObj [(''name'', JStr k), (''description'', JStr d),
              (''parameters'', JObj [(''type'', JStr ''object''), (''properties'', JObj props),
                 (''required'', JList (map (JStr \<circ> fst) props)), (''additionalProperties'', JBool False)]),
              (''strict'', JBool True)])]"

definition calculator_tools :: "json list" where
  "calculator_tools =
     [calculator_tool ''add'' ''Add two numbers''
        [(''a'', number_parameter ''The first number''), (''b'', number_parameter ''The second number'')],
      calculator_tool ''subtract'' ''Subtract two numbers''
        [(''a'', number_parameter ''The first number''), (''b'', number_parameter ''The second number'')],
      calculator_tool ''submit'' ''Submit the final answer.'' [(''result'', number_parameter ''The final result'')]]"

record calc_task =
  operand_a :: int
  operand_b :: int
  operator :: string
  answer_of :: int

definition generate_tasks :: "nat \<Rightarrow> calc_task list" where
  "generate_tasks count =
     map (\<lambda>k. let i = int k in
        \<lparr>operand_a = i, operand_b = i * 2, operator = (if i mod 2 = 0 then ''+'' else ''-''),
         answer_of = (if i mod 2 = 0 then i + i * 2 else i - i * 2)\<rparr>) [1..<Suc count]"

definition calculator_indices :: "calc_task list \<Rightarrow> sample_index list" where
  "calculator_indices ts = map (IntIndex \<circ> int) [0..<length ts]"

section \<open>One reply of the agent\<close>

definition system_prompt :: history_item where
  "system_prompt =
     Chat (JObj [(''role'', JStr ''system''),
       (''content'', JStr (''You are an agent specialized in tool-calling. ''
          @ ''You can use the functions provided to you to perform calculations. ''
          @ ''When you are done, you must use the ''
          @ [CHR 0x22] @ ''submit'' @ [CHR 0x22] @ '' function to submit the final answer. ''
          @ ''Do not provide any text response outside of the function calls.''))])"

definition user_prompt :: "calc_task \<Rightarrow> history_item" where
  "user_prompt t =
     Chat (JObj [(''role'', JStr ''user''),
       (''content'', JStr (''What'' @ [CHR 0x27] @ ''s '' @ int_str (operand_a t) @ '' '' @ operator t @ '' ''
                             @ int_str (operand_b t) @ ''?''))])"

definition tool_message :: "json \<Rightarrow> string \<Rightarrow> history_item" where
  "tool_message k text = Chat (JObj [(''role'', JStr ''tool''), (''content'', JStr text), (''tool_call_id'', k)])"

text \<open>\<open>d.get(k, default)\<close>; anything but an object has no \<open>get\<close>.\<close>

definition json_get :: "json \<Rightarrow> string \<Rightarrow> json \<Rightarrow> json res" where
  "json_get j k v =
     (case j of JObj d \<Rightarrow> Inr (case dict_get d k of None \<Rightarrow> v | Some x \<Rightarrow> x) | _ \<Rightarrow> Inl AttributeError)"

definition json_number :: "json \<Rightarrow> int option" where
  "json_number j = (case j of JInt i \<Rightarrow> Some i | JBool b \<Rightarrow> Some (if b then 1 else 0) | _ \<Rightarrow> None)"

definition then_res :: "'a res \<Rightarrow> ('a \<Rightarrow> 'b res) \<Rightarrow> 'b res" where
  "then_res r f = (case r of Inl e \<Rightarrow> Inl e | Inr x \<Rightarrow> f x)"

text \<open>What a tool call asks for: its id, its name and its arguments.\<close>

definition read_call :: "(string \<Rightarrow> json option) \<Rightarrow> json \<Rightarrow> (json \<times> json \<times> json) res" where
  "read_call loads c =
     then_res (json_get c ''id'' JNull) (\<lambda>k.
     then_res (json_get c ''function'' (JObj [])) (\<lambda>f.
     then_res (json_get f ''name'' JNull) (\<lambda>nm.
     then_res (json_get f ''arguments'' JNull) (\<lambda>a.
       case a of
         JStr s \<Rightarrow> Inr (k, nm, case loads s of None \<Rightarrow> JObj [] | Some j \<Rightarrow> j)
       | _ \<Rightarrow> Inl TypeError))))"

datatype call_result = Answered history_item | Submitted rat

definition do_call :: "(json \<Rightarrow> string) \<Rightarrow> int \<Rightarrow> json \<times> json \<times> json \<Rightarrow> call_result res" where
  "do_call show_json ans c =
     (case c of (k, nm, args) \<Rightarrow>
        if nm = JStr ''add'' \<or> nm = JStr ''subtract'' then
          then_res (json_get args ''a'' JNull) (\<lambda>a.
          then_res (json_get args ''b'' JNull) (\<lambda>b.
            Inr (Answered (tool_message k
              (case (json_number a, json_number b) of
                 (Some x, Some y) \<Rightarrow> int_str (if nm = JStr ''add'' then x + y else x - y)
               | _ \<Rightarrow> ''Invalid arguments. Both a and b must be numbers.'')))))
        else if nm = JStr ''submit'' then
          then_res (json_get args ''result'' JNull) (\<lambda>r. Inr (Submitted (if json_number r = Some ans then 1 else 0)))
        else Inr (Answered (tool_message k (''Unknown function: '' @ show_json nm))))"

text \<open>
  The calls of one reply: the items put into the history, and the status where the sample ends.
  An exception ends it as a failure of the task, with what was put there before.
\<close>

fun run_calls ::
    "(string \<Rightarrow> json option) \<Rightarrow> (json \<Rightarrow> string) \<Rightarrow> int \<Rightarrow> json list \<Rightarrow> history_item list \<times> sample_status option" where
  "run_calls loads show_json ans [] = ([], None)"
| "run_calls loads show_json ans (c # cs) =
     (case then_res (read_call loads c) (do_call show_json ans) of
        Inl e \<Rightarrow> ([], Some TASK_ERROR)
      | Inr (Submitted r) \<Rightarrow> ([reward_item r None []], Some COMPLETED)
      | Inr (Answered m) \<Rightarrow> (case run_calls loads show_json ans cs of (ms, st) \<Rightarrow> (m # ms, st)))"

text \<open>\<open>response.messages[0].get('tool_calls') or []\<close>, and the loop over it.\<close>

definition reply_calls :: "json list \<Rightarrow> json res" where
  "reply_calls ms = (case ms of [] \<Rightarrow> Inl IndexError | m # _ \<Rightarrow> json_get m ''tool_calls'' JNull)"

definition run_reply ::
    "(string \<Rightarrow> json option) \<Rightarrow> (json \<Rightarrow> string) \<Rightarrow> int \<Rightarrow> json list \<Rightarrow> history_item list \<times> sample_status option" where
  "run_reply loads show_json ans ms =
     (case reply_calls ms of
        Inl e \<Rightarrow> ([], Some TASK_ERROR)
      | Inr j \<Rightarrow>
          if \<not> json_truth j then ([], Some AGENT_VALIDATION_FAILED)
          else (case j of JList cs \<Rightarrow> run_calls loads show_json ans cs | _ \<Rightarrow> ([], Some TASK_ERROR)))"

section \<open>The sample\<close>

text \<open>
  The rounds over the replies that have come; without a status the environment waits for the next one.
\<close>

fun run_rounds ::
    "(string \<Rightarrow> json option) \<Rightarrow> (json \<Rightarrow> string) \<Rightarrow> int \<Rightarrow> nat \<Rightarrow> agent_output list \<Rightarrow>
       history_item list \<times> sample_status option" where
  "run_rounds loads show_json ans 0 outputs = ([], Some TASK_LIMIT_REACHED)"
| "run_rounds loads show_json ans (Suc n) [] = ([], None)"
| "run_rounds loads show_json ans (Suc n) (AgentCancelled # outputs) = ([], Some CANCELLED)"
| "run_rounds loads show_json ans (Suc n) (Normal ms # outputs) =
     (case run_reply loads show_json ans ms of
        (xs, Some st) \<Rightarrow> (map Chat ms @ xs, Some st)
      | (xs, None) \<Rightarrow>
          (case run_rounds loads show_json ans n outputs of (ys, st) \<Rightarrow> (map Chat ms @ xs @ ys, st)))"

definition start_calculator ::
    "(string \<Rightarrow> json option) \<Rightarrow> (json \<Rightarrow> string) \<Rightarrow> nat \<Rightarrow> calc_task \<Rightarrow> agent_output list \<Rightarrow>
       history_item list \<times> sample_status option" where
  "start_calculator loads show_json max_rounds t outputs =
     (case run_rounds loads show_json (answer_of t) max_rounds outputs of
        (xs, st) \<Rightarrow> ([system_prompt, user_prompt t] @ xs, st))"

section \<open>Rewards\<close>

definition rewards_of :: "history_item list \<Rightarrow> rat list" where
  "rewards_of xs = concat (map (\<lambda>x. case x of RewardItem r m \<Rightarrow> [r] | Chat j \<Rightarrow> []) xs)"

lemma rewards_append [simp]: "rewards_of (xs @ ys) = rewards_of xs @ rewards_of ys"
  by (simp add: rewards_of_def)

lemma rewards_chat [simp]: "rewards_of (map Chat ms) = []" "rewards_of [] = []"
  "rewards_of (tool_message k t # xs) = rewards_of xs"
  by (induction ms) (simp_all add: rewards_of_def tool_message_def)

text \<open>An item that is no reward is a message.\<close>

lemma do_call_answers: "do_call s ans c = Inr (Answered m) \<Longrightarrow> \<exists>t. m = tool_message (fst c) t"
  by (auto simp: do_call_def then_res_def split: prod.splits if_splits sum.splits)

text \<open>A call that submits a result, and the reward it is worth; a reply that has such a call.\<close>

definition submits :: "(string \<Rightarrow> json option) \<Rightarrow> int \<Rightarrow> json \<Rightarrow> rat \<Rightarrow> bool" where
  "submits loads ans c r \<longleftrightarrow>
     (\<exists>k args v. read_call loads c = Inr (k, JStr ''submit'', args) \<and> json_get args ''result'' JNull = Inr v \<and>
        r = (if json_number v = Some ans then 1 else 0))"

definition submitted_in :: "(string \<Rightarrow> json option) \<Rightarrow> int \<Rightarrow> agent_output list \<Rightarrow> rat list \<Rightarrow> bool" where
  "submitted_in loads ans outputs rs \<longleftrightarrow>
     (\<exists>ms cs c r. Normal ms \<in> set outputs \<and> reply_calls ms = Inr (JList cs) \<and> c \<in> set cs \<and> submits loads ans c r \<and> rs = [r])"

definition rewarded :: "(rat list \<Rightarrow> bool) \<Rightarrow> history_item list \<times> sample_status option \<Rightarrow> bool" where
  "rewarded P p \<longleftrightarrow>
     (if snd p = Some COMPLETED then P (rewards_of (fst p)) \<and> is_reward (last (fst p))
      else rewards_of (fst p) = [])"

lemma rewarded_mono: "rewarded P p \<Longrightarrow> (\<And>r. P r \<Longrightarrow> Q r) \<Longrightarrow> rewarded Q p"
  by (auto simp: rewarded_def split: if_splits)

lemma rewarded_submit: "rewarded P ([reward_item r None []], Some COMPLETED) \<longleftrightarrow> P [r]"
  by (simp add: rewarded_def rewards_of_def reward_item_def is_reward_def)

lemma rewarded_none: "st \<noteq> Some COMPLETED \<Longrightarrow> rewarded P ([], st)"
  by (simp add: rewarded_def)

lemma do_call_submits:
  assumes "do_call s ans (k, nm, args) = Inr (Submitted r)"
  shows "nm = JStr ''submit'' \<and> (\<exists>v. json_get args ''result'' JNull = Inr v \<and> r = (if json_number v = Some ans then 1 else 0))"
  using assms by (auto simp: do_call_def then_res_def split: if_splits sum.splits)

lemma rewarded_before:
  "rewards_of xs = [] \<Longrightarrow> rewarded P (ys, st) \<Longrightarrow> P [] = False \<Longrightarrow> rewarded P (xs @ ys, st)"
  by (cases "ys = []") (auto simp: rewarded_def)

definition among :: "(string \<Rightarrow> json option) \<Rightarrow> int \<Rightarrow> json list \<Rightarrow> rat list \<Rightarrow> bool" where
  "among loads ans cs rs \<longleftrightarrow> (\<exists>c \<in> set cs. \<exists>r. submits loads ans c r \<and> rs = [r])"

lemma among_not_Nil [simp]: "among loads ans cs [] = False" "submitted_in loads ans outputs [] = False"
  by (auto simp: among_def submitted_in_def)

lemma rewarded_calls: "rewarded (among loads ans cs) (run_calls loads s ans cs)"
proof (induction cs)
  case Nil
  show ?case by (simp add: rewarded_def)
next
  case (Cons c cs)
  show ?case
  proof (cases "then_res (read_call loads c) (do_call s ans)")
    case (Inl e)
    then show ?thesis by (simp add: rewarded_none)
  next
    case (Inr x)
    then obtain k nm args where k: "read_call loads c = Inr (k, nm, args)" "do_call s ans (k, nm, args) = Inr x"
      by (auto simp: then_res_def split: sum.splits)
    show ?thesis
    proof (cases x)
      case (Answered m)
      obtain t where m: "m = tool_message k t" using do_call_answers [OF k(2) [unfolded Answered]] by auto
      obtain ms st where rest: "run_calls loads s ans cs = (ms, st)" by force
      have "rewarded (among loads ans (c # cs)) (ms, st)"
        using rewarded_mono [OF Cons.IH] unfolding rest by (force simp: among_def)
      then have "rewarded (among loads ans (c # cs)) ([m] @ ms, st)"
        by (intro rewarded_before) (simp_all add: m)
      then show ?thesis using Inr Answered rest by simp
    next
      case (Submitted r)
      then have "submits loads ans c r" using do_call_submits [OF k(2) [unfolded Submitted]] k(1)
        by (auto simp: submits_def)
      then show ?thesis using Inr Submitted by (simp add: rewarded_submit among_def)
    qed
  qed
qed

lemma rewarded_reply: "rewarded (submitted_in loads ans [Normal ms]) (run_reply loads s ans ms)"
proof -
  have "rewarded (submitted_in loads ans [Normal ms]) (run_calls loads s ans cs)" if "reply_calls ms = Inr (JList cs)" for cs
    by (rule rewarded_mono [OF rewarded_calls]) (use that in \<open>auto simp: among_def submitted_in_def\<close>)
  then show ?thesis by (simp add: run_reply_def rewarded_none split: sum.split json.split)
qed

lemma rewarded_rounds: "rewarded (submitted_in loads ans outputs) (run_rounds loads s ans n outputs)"
proof (induction loads s ans n outputs rule: run_rounds.induct)
  case (4 loads s ans n ms outputs)
  let ?P = "submitted_in loads ans (Normal ms # outputs)"
  obtain xs st where reply: "run_reply loads s ans ms = (xs, st)" by force
  have xs: "rewarded ?P (xs, st)"
    by (rule rewarded_mono [OF rewarded_reply [of loads ans ms s, unfolded reply]]) (auto simp: submitted_in_def)
  show ?case
  proof (cases st)
    case None
    obtain ys st' where ys: "run_rounds loads s ans n outputs = (ys, st')" by force
    have "rewarded ?P (ys, st')"
      by (rule rewarded_mono [OF 4 [OF reply [symmetric] None, unfolded ys]]) (auto simp: submitted_in_def)
    moreover have "rewards_of (map Chat ms @ xs) = []" using xs None by (simp add: rewarded_def)
    ultimately have "rewarded ?P ((map Chat ms @ xs) @ ys, st')" by (intro rewarded_before) simp_all
    then show ?thesis using reply None ys by simp
  next
    case (Some u)
    then show ?thesis using reply rewarded_before [of "map Chat ms" ?P xs "Some u"] xs by simp
  qed
qed (simp_all add: rewarded_none)

text \<open>The tool calls of the replies, and the answers in the history, by their ids.\<close>

definition answer_ids :: "history_item list \<Rightarrow> json list" where
  "answer_ids xs =
     concat (map (\<lambda>x. case x of
        Chat (JObj d) \<Rightarrow> if dict_get d ''role'' = Some (JStr ''tool'') then [the (dict_get d ''tool_call_id'')] else []
      | _ \<Rightarrow> []) xs)"

lemma answer_ids_tool [simp]: "answer_ids (tool_message k t # xs) = k # answer_ids xs"
  by (simp add: answer_ids_def tool_message_def)

text \<open>A reply after which the sample goes on has an answer for each of its calls, in order.\<close>

lemma calls_answered:
  "run_calls loads s ans cs = (xs, None) \<Longrightarrow> \<exists>ks. map (\<lambda>c. json_get c ''id'' JNull) cs = map Inr ks \<and> answer_ids xs = ks"
proof (induction cs arbitrary: xs)
  case Nil
  then show ?case by (simp add: answer_ids_def)
next
  case (Cons c cs)
  then obtain m ms where m: "then_res (read_call loads c) (do_call s ans) = Inr (Answered m)"
      "run_calls loads s ans cs = (ms, None)" "xs = m # ms"
    by (auto split: sum.splits call_result.splits prod.splits)
  then obtain k where k: "read_call loads c = Inr k" "do_call s ans k = Inr (Answered m)"
    by (auto simp: then_res_def split: sum.splits)
  have "json_get c ''id'' JNull = Inr (fst k)"
    using k(1) by (auto simp: read_call_def then_res_def split: sum.splits json.splits)
  moreover obtain t where "m = tool_message (fst k) t" using do_call_answers [OF k(2)] by blast
  moreover obtain ks where "map (\<lambda>c. json_get c ''id'' JNull) cs = map Inr ks" "answer_ids ms = ks"
    using Cons.IH [OF m(2)] by blast
  ultimately show ?case using m(3) by (intro exI [of _ "fst k # ks"]) simp
qed

lemma rounds_end: "n \<le> length outputs \<Longrightarrow> snd (run_rounds loads s ans n outputs) \<noteq> None"
proof (induction loads s ans n outputs rule: run_rounds.induct)
  case (4 loads s ans n ms outputs)
  then show ?case by (auto split: prod.split option.split)
qed auto

text \<open>
  C36: a sample of the calculator ends within its rounds, and is rewarded for its answer only. After
  as many replies as there are rounds it has a status. If it is completed, its history has one reward,
  as its last item, which is one or zero as the result of a call of the agent that submits it is the answer or not;
  otherwise, while it waits or however it ended, no reward was given.
\<close>

theorem calculator_rewards_answers:
  "(if max_rounds \<le> length outputs then snd (start_calculator loads s max_rounds t outputs) \<noteq> None else True) \<and>
   (if snd (start_calculator loads s max_rounds t outputs) = Some COMPLETED
    then submitted_in loads (answer_of t) outputs (rewards_of (fst (start_calculator loads s max_rounds t outputs))) \<and>
      is_reward (last (fst (start_calculator loads s max_rounds t outputs)))
    else rewards_of (fst (start_calculator loads s max_rounds t outputs)) = [])"
proof -
  obtain xs st where xs: "run_rounds loads s (answer_of t) max_rounds outputs = (xs, st)" by force
  have "rewards_of [system_prompt, user_prompt t] = []"
    by (simp add: rewards_of_def system_prompt_def user_prompt_def)
  moreover have "rewarded (submitted_in loads (answer_of t) outputs) (xs, st)"
    using rewarded_rounds [of loads "answer_of t" outputs s max_rounds] xs by simp
  ultimately have "rewarded (submitted_in loads (answer_of t) outputs) ([system_prompt, user_prompt t] @ xs, st)"
    by (rule rewarded_before) simp
  then have "rewarded (submitted_in loads (answer_of t) outputs) (start_calculator loads s max_rounds t outputs)"
    by (simp add: start_calculator_def xs)
  moreover have "max_rounds \<le> length outputs \<Longrightarrow> st \<noteq> None"
    using rounds_end [of max_rounds outputs loads s "answer_of t"] xs by simp
  ultimately show ?thesis using xs by (cases "xs = []") (auto simp: rewarded_def start_calculator_def)
qed

lemma calculator_example:
  "start_calculator (\<lambda>a. Some (JObj [(''result'', JInt (- 1))])) (\<lambda>j. []) 3 (generate_tasks 2 ! 0)
     [Normal [JObj [(''tool_calls'', JList [JObj [(''id'', JStr ''c1''),
        (''function'', JObj [(''name'', JStr ''submit''), (''arguments'', JStr ''x'')])]])]]] =
   ([system_prompt, user_prompt (generate_tasks 2 ! 0),
     Chat (JObj [(''tool_calls'', JList [JObj [(''id'', JStr ''c1''),
        (''function'', JObj [(''name'', JStr ''submit''), (''arguments'', JStr ''x'')])]])]),
     RewardItem 1 []], Some COMPLETED)"
  by code_simp

end
