(* ===== verification/Eval_Cli.thy ===== *)
theory Eval_Cli
  imports Eval_Runner
begin

text \<open>
  The command of the evaluation (eval/src/agentrl/eval/cli/settings.py and main.py) and the choice of
  a result store by the runner: settings with their bounds and defaults, what is run with which
  models and indices, and which clients are closed in the end. The parsing of arguments and variables, the
  terminal interface and logging are left out; times of creation are parameters.
\<close>

section \<open>Settings\<close>

datatype client_kind = AnthropicKind | BedrockKind | DummyKind | OpenAIKind

text \<open>\<open>model\<close> is a set; its elements are in the order in which it is iterated.\<close>

record settings =
  client :: client_kind
  model_set :: "string list option"
  api_key :: "string option"
  base_url :: "string option"
  proxy_url :: "string option"
  override_url :: "string option"
  thinking :: bool
  computer_use :: bool
  parallel_tool_calls :: bool
  temperature :: "rat option"
  max_thinking_tokens :: int
  max_output_tokens :: "int option"
  max_retries :: "int option"
  max_images :: "int option"
  image_size :: "string option"
  chat_completions :: bool
  extra_body :: "(string, json) dict option"
  extra_headers :: "(string, string) dict option"
  aws_access_key :: "string option"
  aws_secret_key :: "string option"
  aws_region :: "string option"
  dummy_interval :: "rat option"
  model_configs :: "(string, json) dict list"
  controller_url :: "string option"
  controller_proxy :: "string option"
  chosen_indices :: "task_index set"
  indices_range :: "string option"
  task_names :: "string list"
  custom_params :: "(string, json) dict option"
  controller_renew :: bool
  run_count :: int
  jobs :: int
  start_only :: bool
  cross :: bool
  output_dir :: "string list"
  resume_dir :: "string list option"
  metric_kind :: metric_type
  insecure :: bool
  verbose :: bool
  interactive :: bool

definition default_settings :: "bool \<Rightarrow> settings" where
  "default_settings terminal =
     \<lparr>client = OpenAIKind, model_set = None, api_key = None, base_url = None, proxy_url = None, override_url = None, thinking = True, computer_use = False,
      parallel_tool_calls = True, temperature = Some (8 / 10), max_thinking_tokens = 10000,
      max_output_tokens = Some 16000, max_retries = Some 2, max_images = None, image_size = None,
      chat_completions = False, extra_body = None, extra_headers = None, aws_access_key = None, aws_secret_key = None,
      aws_region = None, dummy_interval = Some 1, model_configs = [], controller_url = None,
      controller_proxy = None, chosen_indices = {}, indices_range = None, task_names = [], custom_params = None, controller_renew = False,
      run_count = 1, jobs = 32, start_only = False, cross = False, output_dir = [''results''], resume_dir = None,
      metric_kind = SUCCESS_RATE, insecure = False, verbose = False, interactive = terminal\<rparr>"

definition at_least :: "'a::linorder \<Rightarrow> 'a option \<Rightarrow> bool" where
  "at_least lo v = (case v of None \<Rightarrow> True | Some x \<Rightarrow> lo \<le> x)"

definition valid_settings :: "settings \<Rightarrow> bool" where
  "valid_settings S \<longleftrightarrow>
     at_least 0 (temperature S) \<and> (case temperature S of None \<Rightarrow> True | Some t \<Rightarrow> t \<le> 1) \<and>
     1024 \<le> max_thinking_tokens S \<and> at_least 1024 (max_output_tokens S) \<and> at_least 0 (max_retries S) \<and>
     at_least 0 (max_images S) \<and> at_least 0 (dummy_interval S) \<and> 1 \<le> run_count S \<and> 1 \<le> jobs S"

lemma defaults_valid: "valid_settings (default_settings t)"
  by (simp add: valid_settings_def default_settings_def at_least_def)

section \<open>What is run\<close>

definition no_controller :: "settings \<Rightarrow> bool" where
  "no_controller S \<longleftrightarrow> controller_url S = None \<or> task_names S = []"

text \<open>The options of each model: the dump of the settings with what is given for the model.\<close>

definition model_options :: "settings \<Rightarrow> (string, json) dict \<Rightarrow> (string, json) dict list" where
  "model_options S dump =
     (if model_configs S \<noteq> [] then map (\<lambda>m. foldl (\<lambda>d (k, v). dict_set k v d) dump m) (model_configs S)
      else (case model_set S of
              Some (n # ns) \<Rightarrow> map (\<lambda>m. dict_set ''model'' (JStr m) dump) (n # ns)
            | _ \<Rightarrow> if \<not> no_controller S \<and> \<not> start_only S then [dump] else []))"

text \<open>\<open>a, b = text.split('-', 1)\<close> and the numbers from \<open>a\<close> to \<open>b\<close>.\<close>

definition index_range :: "string \<Rightarrow> task_index set res" where
  "index_range text =
     (let a = takeWhile (\<lambda>c. c \<noteq> CHR ''-'') text; rest = dropWhile (\<lambda>c. c \<noteq> CHR ''-'') text
      in case rest of
           [] \<Rightarrow> Inl ValueError
         | _ # b \<Rightarrow>
             (case (parse_int (str_strip a), parse_int (str_strip b)) of
                (Some m, Some n) \<Rightarrow> Inr (IntIx ` {m..n})
              | _ \<Rightarrow> Inl ValueError))"

definition run_indices :: "settings \<Rightarrow> task_index set res" where
  "run_indices S = (case indices_range S of None \<Rightarrow> Inr (chosen_indices S) | Some r \<Rightarrow> index_range r)"

text \<open>The directory to resume from: as given, or below the output directory; neither is an error.\<close>

definition resume_path :: "(string list \<Rightarrow> bool) \<Rightarrow> settings \<Rightarrow> (string list option) option" where
  "resume_path is_dir S =
     (case resume_dir S of
        None \<Rightarrow> Some None
      | Some p \<Rightarrow>
          (let q = (if is_dir p then p else output_dir S @ p) in if is_dir q then Some (Some q) else None))"

section \<open>The command\<close>

text \<open>The clients that are open; \<open>ran\<close> tells whether the runner was started.\<close>

record 'w session_state =
  controller_open :: bool
  models_open :: nat
  ran :: bool
  outer :: 'w

record 'w cli =
  has_tui :: bool
  directory :: "string list \<Rightarrow> bool"
  dumped :: "(string, json) dict"
  new_client :: "(string, json) dict \<Rightarrow> ('w, unit) proc"
  run_evaluation :: "task_index set \<Rightarrow> string list option \<Rightarrow> bool \<Rightarrow> ('w, unit) proc"
  close_controller :: "('w, unit) proc"
  close_model :: "('w, unit) proc"

definition outside :: "('w, 'a) proc \<Rightarrow> ('w session_state, 'a) proc" where
  "outside = zoom outer (\<lambda>w s. s\<lparr>outer := w\<rparr>)"

definition open_model :: "'w cli \<Rightarrow> (string, json) dict \<Rightarrow> ('w session_state, unit) proc" where
  "open_model C opts =
     andthen (outside (new_client C opts)) (modify (\<lambda>s. s\<lparr>models_open := models_open s + 1\<rparr>))"

definition close_one :: "'w cli \<Rightarrow> ('w session_state, unit) proc" where
  "close_one C = andthen (outside (close_model C)) (modify (\<lambda>s. s\<lparr>models_open := models_open s - 1\<rparr>))"

definition close_clients :: "'w cli \<Rightarrow> nat \<Rightarrow> ('w session_state, unit) proc" where
  "close_clients C n =
     andthen (bnd (gets controller_open) (\<lambda>b.
                if b then andthen (outside (close_controller C)) (modify (\<lambda>s. s\<lparr>controller_open := False\<rparr>)) else ret ()))
       (each (\<lambda>k. close_one C) [0..<n])"

text \<open>Every \<open>Exception\<close> of the runner is logged; what it cannot catch passes after the clients are closed.\<close>

definition run_and_close :: "'w cli \<Rightarrow> nat \<Rightarrow> task_index set \<Rightarrow> string list option \<Rightarrow> bool \<Rightarrow> ('w session_state, unit) proc" where
  "run_and_close C n ixs resume view =
     finally_do
       (catch (andthen (modify (\<lambda>s. s\<lparr>ran := True\<rparr>)) (outside (run_evaluation C ixs resume view)))
          (\<lambda>e. if e = CancelledError then raise e else ret ()))
       (close_clients C n)"

text \<open>\<open>main\<close>; the value tells whether it got to the evaluation.\<close>

definition cli_main :: "'w cli \<Rightarrow> settings \<Rightarrow> ('w session_state, bool) proc" where
  "cli_main C S =
     (if interactive S \<and> \<not> has_tui C then ret False
      else if no_controller S \<and> \<not> interactive S then ret False
      else
        (let opts = model_options S (dumped C)
         in andthen (modify (\<lambda>s. s\<lparr>controller_open := \<not> no_controller S\<rparr>))
            (andthen (each (open_model C) opts)
            (bnd (lift_res (run_indices S)) (\<lambda>ixs.
             case resume_path (directory C) S of
               None \<Rightarrow> ret False
             | Some resume \<Rightarrow> andthen (run_and_close C (length opts) ixs resume (no_controller S)) (ret True))))))"

section \<open>The result store\<close>

datatype store_choice = StoreAt "string list" bool | NewStore

text \<open>
  A directory to resume from is forced; otherwise the user may choose one of the earlier results in
  the interactive mode: \<open>answer\<close> is None if the interface ended, or gives the path chosen, if any.
\<close>

definition choose_store :: "string list option \<Rightarrow> bool \<Rightarrow> bool \<Rightarrow> 'r list \<Rightarrow> (string list option) option \<Rightarrow> store_choice" where
  "choose_store resume starting asking earlier answer =
     (case resume of
        Some p \<Rightarrow> StoreAt p True
      | None \<Rightarrow>
          if starting then NewStore
          else if earlier \<noteq> [] \<and> asking then
            (case answer of Some (Some p) \<Rightarrow> StoreAt p False | _ \<Rightarrow> NewStore)
          else NewStore)"

section \<open>Clients are closed\<close>

lemma wp_outside:
  assumes "\<And>x v. Q x (s\<lparr>outer := v\<rparr>)" and "\<And>e v. E e (s\<lparr>outer := v\<rparr>)"
  shows "wp (outside m) Q E s"
  using assms by (auto simp: outside_def intro: wp_any)

definition closes :: "('w, unit) proc \<Rightarrow> bool" where
  "closes m \<longleftrightarrow> (\<forall>w. fst (m w) = Inr ())"

lemma wp_closes:
  assumes "closes m" and "\<And>v. Q () (s\<lparr>outer := v\<rparr>)"
  shows "wp (outside m) Q E s"
  using assms by (cases "m (outer s)") (auto simp: outside_def wp_def zoom_def closes_def split: sum.splits,
      metis fst_conv sum.distinct(1))

definition all_closed :: "'w session_state \<Rightarrow> bool" where
  "all_closed t \<longleftrightarrow> models_open t = 0 \<and> \<not> controller_open t"

lemma close_models:
  assumes "closes (close_model C)" and "models_open s = length ks" and "\<not> controller_open s"
  shows "wp (each (\<lambda>k. close_one C) ks) (\<lambda>_. all_closed) (\<lambda>_ _. False) s"
  using assms(2,3)
proof (induction ks arbitrary: s)
  case Nil
  then show ?case by (simp add: all_closed_def)
next
  case (Cons k ks)
  have "wp (each (\<lambda>k. close_one C) ks) (\<lambda>_. all_closed) (\<lambda>_ _. False) (s\<lparr>outer := v, models_open := models_open s - 1\<rparr>)" for v
    by (rule Cons.IH) (use Cons.prems in simp_all)
  then show ?case by (auto simp: close_one_def intro!: wp_closes [OF assms(1)])
qed

lemma closing:
  assumes "closes (close_controller C)" and "closes (close_model C)" and "models_open s = n"
  shows "wp (close_clients C n) (\<lambda>_. all_closed) (\<lambda>_ _. False) s"
proof -
  have "wp (each (\<lambda>k. close_one C) [0..<n]) (\<lambda>_. all_closed) (\<lambda>_ _. False) t"
    if "models_open t = n" "\<not> controller_open t" for t
    using close_models [OF assms(2), of t "[0..<n]"] that by simp
  then show ?thesis using assms(3) by (auto simp: close_clients_def intro!: wp_closes [OF assms(1)])
qed

lemma run_closes:
  assumes "closes (close_controller C)" and "closes (close_model C)" and "models_open s = n"
  shows "wp (run_and_close C n ixs resume view) (\<lambda>_. all_closed) (\<lambda>e t. e = StillRunning \<or> all_closed t) s"
proof -
  have close: "wp (close_clients C n) (\<lambda>_. all_closed) (\<lambda>e t. e = StillRunning \<or> all_closed t) t" if "models_open t = n" for t
    by (rule wp_mono [OF closing [OF assms(1,2) that]]) simp_all
  moreover have "wp (close_clients C n) (\<lambda>_ t. e = StillRunning \<or> all_closed t) (\<lambda>e t. e = StillRunning \<or> all_closed t) t"
    if "models_open t = n" for t e
    by (rule wp_mono [OF closing [OF assms(1,2) that]]) simp_all
  ultimately show ?thesis using assms(3) by (auto simp: run_and_close_def intro!: wp_outside)
qed

lemma wp_open:
  assumes "\<And>v. Q () (s\<lparr>outer := v, models_open := models_open s + 1\<rparr>)" and "\<And>e v. E e (s\<lparr>outer := v\<rparr>)"
  shows "wp (open_model C x) Q E s"
  using assms by (auto simp: open_model_def intro!: wp_outside)

lemma opened:
  "models_open s = k \<Longrightarrow> ran s = r \<Longrightarrow>
   wp (each (open_model C) opts) (\<lambda>_ t. models_open t = k + length opts \<and> ran t = r) (\<lambda>_ t. ran t = r) s"
proof (induction opts arbitrary: s k)
  case (Cons x opts)
  have "wp (each (open_model C) opts) (\<lambda>_ t. models_open t = k + length (x # opts) \<and> ran t = r) (\<lambda>_ t. ran t = r)
      (s\<lparr>outer := v, models_open := models_open s + 1\<rparr>)" for v
    using Cons.IH [of "s\<lparr>outer := v, models_open := models_open s + 1\<rparr>" "k + 1"] Cons.prems by simp
  then show ?case using Cons.prems by (auto intro!: wp_open)
qed simp

definition cli_start :: "'w \<Rightarrow> 'w session_state" where
  "cli_start w = \<lparr>controller_open = False, models_open = 0, ran = False, outer = w\<rparr>"

text \<open>
  C37: an evaluation leaves no client open. When the evaluation was started, then however it ends, by
  itself, with an error that is logged, or by being cancelled, the client of the controller and those of all
  models have been closed; main says that it ran exactly then. Closing itself must not fail.
\<close>

theorem cli_closes_clients:
  assumes "closes (close_controller C)" and "closes (close_model C)"
  shows "wp (cli_main C S) (\<lambda>done t. if done then all_closed t else \<not> ran t)
     (\<lambda>e t. e = StillRunning \<or> \<not> ran t \<or> all_closed t) (cli_start w)"
proof -
  let ?Q = "\<lambda>done t. if done then all_closed t else \<not> ran t" and ?E = "\<lambda>e t. e = StillRunning \<or> \<not> ran t \<or> all_closed t"
  have run: "wp (run_and_close C n ixs resume view) (\<lambda>_. ?Q True) ?E t" if "models_open t = n" for n ixs resume view t
    by (rule wp_mono [OF run_closes [OF assms that]]) auto
  have rest: "wp (bnd (lift_res (run_indices S)) (\<lambda>ixs. case resume_path (directory C) S of
      None \<Rightarrow> ret False
    | Some resume \<Rightarrow> andthen (run_and_close C n ixs resume view) (ret True))) ?Q ?E t"
    if "models_open t = n" "\<not> ran t" for n view t
    using run [OF that(1)] that(2) by (simp split: sum.split option.split)
  have "wp (each (open_model C) opts) (\<lambda>_ t. models_open t = length opts \<and> \<not> ran t) (\<lambda>_ t. \<not> ran t)
      (cli_start w\<lparr>controller_open := b\<rparr>)" for opts b
    using opened [of "cli_start w\<lparr>controller_open := b\<rparr>" 0 False C opts] by (simp add: cli_start_def)
  then have "wp (each (open_model C) opts)
      (\<lambda>_. wp (bnd (lift_res (run_indices S)) (\<lambda>ixs. case resume_path (directory C) S of
        None \<Rightarrow> ret False
      | Some resume \<Rightarrow> andthen (run_and_close C (length opts) ixs resume view) (ret True))) ?Q ?E) ?E
      (cli_start w\<lparr>controller_open := b\<rparr>)" for opts b view
    by (rule wp_mono) (rule rest, simp_all)
  then show ?thesis by (simp add: cli_main_def Let_def cli_start_def)
qed

text \<open>A client that is there for testing: nothing fails.\<close>

definition quiet_cli :: "unit cli" where
  "quiet_cli =
     \<lparr>has_tui = False, directory = (\<lambda>p. p = [''old'']), dumped = [], new_client = (\<lambda>opts. ret ()),
      run_evaluation = (\<lambda>ixs p v. raise ValueError), close_controller = ret (), close_model = ret ()\<rparr>"

definition plain_settings :: settings where
  "plain_settings = (default_settings False)\<lparr>controller_url := Some ''http://host'', task_names := [''db'']\<rparr>"

lemma cli_closes_clients_witness:
  "all_closed (snd (cli_main quiet_cli plain_settings (cli_start ())))"
proof -
  have "fst (cli_main quiet_cli plain_settings (cli_start ())) = Inr True"
    by (simp add: cli_main_def quiet_cli_def plain_settings_def default_settings_def no_controller_def model_options_def
        run_indices_def resume_path_def run_and_close_def close_clients_def close_one_def open_model_def outside_def
        zoom_def cli_start_def andthen_def bnd_def ret_def modify_def gets_def lift_res_def raise_def catch_def finally_do_def)
  moreover have "wp (cli_main quiet_cli plain_settings) (\<lambda>done t. if done then all_closed t else \<not> ran t)
     (\<lambda>e t. e = StillRunning \<or> \<not> ran t \<or> all_closed t) (cli_start ())"
    by (rule cli_closes_clients) (simp_all add: closes_def quiet_cli_def ret_def)
  ultimately show ?thesis
    by (cases "cli_main quiet_cli plain_settings (cli_start ())") (simp add: wp_def)
qed

section \<open>Where the command goes wrong\<close>

text \<open>A directory to resume from that does not exist ends the command with all its clients open.\<close>

lemma missing_resume_leaves_clients_open:
  "cli_main quiet_cli (plain_settings\<lparr>resume_dir := Some [''new'']\<rparr>) (cli_start ()) =
     (Inr False, \<lparr>controller_open = True, models_open = 1, ran = False, outer = ()\<rparr>)"
  by (simp add: cli_main_def quiet_cli_def plain_settings_def default_settings_def no_controller_def model_options_def
      run_indices_def resume_path_def open_model_def outside_def
      zoom_def cli_start_def andthen_def bnd_def ret_def modify_def lift_res_def Let_def)

text \<open>A range that is empty selects all indices, as no index at all does.\<close>

lemma empty_range_runs_all:
  "index_range ''5-3'' = Inr {} \<and> wanted {} (IntIx 7)"
proof -
  have "takeWhile (\<lambda>c. c \<noteq> CHR ''-'') ''5-3'' = ''5''" "dropWhile (\<lambda>c. c \<noteq> CHR ''-'') ''5-3'' = ''-3''" by simp_all
  moreover have "parse_int (str_strip ''5'') = Some 5" "parse_int (str_strip ''3'') = Some 3" by code_simp+
  ultimately show ?thesis by (simp add: index_range_def Let_def wanted_def)
qed

text \<open>A range with a negative start is no range: the text is cut at its first sign.\<close>

lemma negative_range_raises: "index_range ''-1-3'' = Inl ValueError"
proof -
  have "parse_int (str_strip []) = None" by code_simp
  then show ?thesis by (simp add: index_range_def Let_def)
qed

end
