(* ===== verification/Environment_Factory.thy ===== *)
theory Environment_Factory
  imports Encoding
begin

text \<open>
  The interface of environment controllers (worker/src/agentrl/worker/environment/\_base.py), the
  controller of environments that are started by hand (manual.py), the choice of a controller and of a
  state provider by the name of its driver (environment/\_\_init\_\_.py and state/\_\_init\_\_.py), and
  the creation of a task from its configuration (InstanceFactory in typings.py). The controllers and
  providers that do something have theories of their own.
\<close>

section \<open>The interface\<close>

record 'w environment =
  start_session :: "string list \<Rightarrow> bool \<Rightarrow> ('w, string \<times> (string, string) dict \<times> (string, string) dict) proc"
  renew_session :: "string \<Rightarrow> ('w, unit) proc"
  end_session :: "string \<Rightarrow> ('w, unit) proc"
  execute_command :: "string \<Rightarrow> string list \<Rightarrow> nat \<Rightarrow> ('w, int \<times> string \<times> string) proc"
  create_shell :: "string \<Rightarrow> string \<Rightarrow> ('w, string) proc"
  execute_shell :: "string \<Rightarrow> string \<Rightarrow> nat \<Rightarrow> ('w, string) proc"
  get_env_variables :: "string \<Rightarrow> ('w, (string, string) dict) proc"
  background_task :: "('w, unit) proc"

text \<open>The base class implements nothing but the background task, which does nothing.\<close>

definition base_environment :: "'w environment" where
  "base_environment =
     \<lparr>start_session = (\<lambda>subtypes immutable. raise NotImplementedError), renew_session = (\<lambda>k. raise NotImplementedError),
      end_session = (\<lambda>k. raise NotImplementedError), execute_command = (\<lambda>k c n. raise NotImplementedError),
      create_shell = (\<lambda>k sh. raise NotImplementedError), execute_shell = (\<lambda>k c n. raise NotImplementedError),
      get_env_variables = (\<lambda>k. raise NotImplementedError), background_task = ret ()\<rparr>"

definition manual_environment :: "(string, string) dict \<Rightarrow> 'w environment" where
  "manual_environment urls =
     base_environment\<lparr>start_session := (\<lambda>subtypes immutable. ret (''manual'', [], urls)),
                      renew_session := (\<lambda>k. ret ()), end_session := (\<lambda>k. ret ())\<rparr>"

section \<open>Drivers\<close>

type_synonym config = "(string, json) dict"

definition config_or :: "config \<Rightarrow> string \<Rightarrow> json \<Rightarrow> json" where
  "config_or c k v = dict_get_or c k v"

text \<open>\<open>config[k]\<close>\<close>

definition config_item :: "config \<Rightarrow> string \<Rightarrow> json res" where
  "config_item c k = (case dict_get c k of None \<Rightarrow> Inl KeyError | Some v \<Rightarrow> Inr v)"

text \<open>What a controller is created with: connection, network or namespace, state driver and its options.\<close>

datatype controller_spec =
    ManualController json
  | DockerController json json json json
  | K8sController json json json json

definition create_controller :: "string \<Rightarrow> config \<Rightarrow> controller_spec res" where
  "create_controller driver c =
     (if driver = ''manual'' then Inr (ManualController (config_or c ''urls'' (JObj [])))
      else if driver = ''docker'' then
        (case config_item c ''network_name'' of
           Inl e \<Rightarrow> Inl e
         | Inr n \<Rightarrow> Inr (DockerController (config_or c ''connection'' (JObj [])) n
                      (config_or c ''state_driver'' (JStr ''redis'')) (config_or c ''state_options'' (JObj []))))
      else if driver = ''k8s'' then
        (case config_item c ''namespace'' of
           Inl e \<Rightarrow> Inl e
         | Inr n \<Rightarrow> Inr (K8sController (config_or c ''connection'' JNull) n
                      (config_or c ''state_driver'' (JStr ''redis'')) (config_or c ''state_options'' (JObj []))))
      else Inl ValueError)"

text \<open>\<open>env\<close> are the environment variables.\<close>

datatype provider_spec =
    LocalProvider
  | RedisProvider json string json
  | ConsulProvider json json json json string
  | EtcdProvider json string

definition env_value :: "(string \<Rightarrow> string option) \<Rightarrow> string \<Rightarrow> json" where
  "env_value env k = (case env k of None \<Rightarrow> JNull | Some v \<Rightarrow> JStr v)"

definition create_state_provider :: "(string \<Rightarrow> string option) \<Rightarrow> string \<Rightarrow> string \<Rightarrow> config \<Rightarrow> provider_spec res" where
  "create_state_provider env driver key_prefix c =
     (if driver = ''local'' then Inr LocalProvider
      else if driver = ''redis'' then
        Inr (RedisProvider (config_or c ''connection'' (JObj [])) key_prefix (config_or c ''sentinel'' JNull))
      else if driver = ''consul'' then
        Inr (ConsulProvider (config_or c ''connection'' (env_value env ''CONSUL_HTTP_ADDR''))
               (config_or c ''token'' (env_value env ''CONSUL_HTTP_TOKEN'')) (config_or c ''datacenter'' JNull)
               (config_or c ''namespace'' JNull) key_prefix)
      else if driver = ''etcd'' then Inr (EtcdProvider (config_or c ''connection'' (JObj [])) key_prefix)
      else Inl ValueError)"

section \<open>Tasks by name\<close>

text \<open>
  The class a dotted name means: the last part in the module before it; a name without a dot is one of this
  module's or a builtin. Both lookups and the call of the class are parameters.
\<close>

definition class_path :: "string \<Rightarrow> string \<times> string" where
  "class_path m = (let parts = split_on (CHR ''.'') m in (join_with ''.'' (butlast parts), last parts))"

definition create_instance ::
    "(string \<Rightarrow> 'c option) \<Rightarrow> (string \<Rightarrow> 'c res) \<Rightarrow> (string \<Rightarrow> string \<Rightarrow> 'c res) \<Rightarrow> ('c \<Rightarrow> config \<Rightarrow> 'i res) \<Rightarrow>
       string \<Rightarrow> config \<Rightarrow> 'i res" where
  "create_instance own builtin imported call m params =
     (let cls = (if length (split_on (CHR ''.'') m) = 1
                 then (case own m of Some k \<Rightarrow> Inr k | None \<Rightarrow> builtin m)
                 else (case class_path m of (module_name, k) \<Rightarrow> imported module_name k))
      in case cls of Inl e \<Rightarrow> Inl e | Inr k \<Rightarrow> call k params)"

section \<open>What the choices give\<close>

lemma manual_start: "start_session (manual_environment urls) subtypes b w = (Inr (''manual'', [], urls), w)"
  by (simp add: manual_environment_def ret_def)

lemma manual_has_no_commands: "execute_command (manual_environment urls) k c n w = (Inl NotImplementedError, w)"
  by (simp add: manual_environment_def base_environment_def raise_def)

lemma unknown_drivers:
  "driver \<notin> {''manual'', ''docker'', ''k8s''} \<Longrightarrow> create_controller driver c = Inl ValueError"
  "driver \<notin> {''local'', ''redis'', ''consul'', ''etcd''} \<Longrightarrow> create_state_provider env driver p c = Inl ValueError"
  by (simp_all add: create_controller_def create_state_provider_def)

text \<open>A dotted name is put together again from its module and its class.\<close>

lemma join_split: "join_with [c] (split_on c s) = s"
proof (induction s)
  case (Cons x s)
  obtain w ws where ws: "split_on c s = w # ws" using split_on_not_Nil by (metis list.exhaust)
  then show ?case using Cons.IH by (cases ws) auto
qed simp

lemma join_snoc: "ws \<noteq> [] \<Longrightarrow> join_with sep (ws @ [w]) = join_with sep ws @ sep @ w"
  by (induction sep ws rule: join_with.induct) auto

lemma class_path_parts:
  assumes "1 < length (split_on (CHR ''.'') m)"
  shows "fst (class_path m) @ ''.'' @ snd (class_path m) = m"
proof -
  let ?parts = "split_on (CHR ''.'') m"
  have "butlast ?parts \<noteq> []" using assms by (cases ?parts rule: rev_cases) auto
  then have "join_with ''.'' (butlast ?parts @ [last ?parts]) = join_with ''.'' (butlast ?parts) @ ''.'' @ last ?parts"
    by (rule join_snoc)
  then show ?thesis unfolding class_path_def Let_def fst_conv snd_conv using join_split [of "CHR ''.''" m] split_on_not_Nil [of "CHR ''.''" m] by simp
qed

end
