(* ===== verification/Async_Trainer.thy ===== *)
theory Async_Trainer
  imports Training_Loop
begin

text \<open>
  The trainer without stale engines (examples/training/async\_trainer.py): its division of devices,
  the engine of a request, preparation with resumption, and the loop. It shares records and remote
  parts with \<open>Training_Loop\<close>; \<open>stale_step\<close> and \<open>norm_by_task\<close> of the configuration are not read.
\<close>

section \<open>Devices\<close>

definition async_devices :: "int \<Rightarrow> rat \<Rightarrow> int \<Rightarrow> (int \<times> int) res" where
  "async_devices gpus rollout_ratio tp =
     (let rollout = whole_part (rollout_ratio * of_int gpus); actors = gpus - rollout
      in if tp = 0 then Inl ZeroDivisionError
         else if rollout div tp \<le> 0 \<or> actors \<le> 0 then Inl ValueError
         else Inr (rollout div tp, actors))"

definition async_engine :: "int \<Rightarrow> int \<Rightarrow> int res" where
  "async_engine engines hash = (if engines = 0 then Inl ZeroDivisionError else Inr (hash mod engines))"

section \<open>The loop\<close>

definition async_sync :: "('p, 'w) trainer \<Rightarrow> (('p, 'w) training, unit) proc" where
  "async_sync R = modify (\<lambda>s. s\<lparr>engine := transfer R (actor s) (engine s)\<rparr>)"

text \<open>A step from the collection of the validation on.\<close>

definition async_finish :: "loop_config \<Rightarrow> ('p, 'w) trainer \<Rightarrow> training_item list \<Rightarrow> (('p, 'w) training, unit) proc" where
  "async_finish C R data =
     andthen (end_validation R)
     (andthen (async_sync R)
     (andthen (every (val_interval C) (begin_validation R))
     (andthen (every (save_interval C) save_step)
     (andthen (in_world (report R data))
       (modify (\<lambda>s. s\<lparr>global_step := global_step s + 1\<rparr>))))))"

definition async_step :: "loop_config \<Rightarrow> ('p, 'w) trainer \<Rightarrow> (('p, 'w) training, unit) proc" where
  "async_step C R =
     andthen (in_world (fill_queue R))
     (bnd (gets first_step) (\<lambda>first.
      bnd (in_world (rollouts R (sample_target C first))) (\<lambda>data.
      andthen (modify (\<lambda>s. s\<lparr>first_step := False\<rparr>))
      (bnd (lift_res (advantage_step R data)) (\<lambda>adv.
       bnd (in_world (ref_step R adv)) (\<lambda>with_ref.
       bnd (lift_res (loss_weights (reduce_mode C) (has_reduce_mode C) with_ref)) (\<lambda>weighted.
       bnd (gets actor) (\<lambda>p.
       bnd (in_world (actor_step R weighted p)) (\<lambda>p'.
       andthen (modify (\<lambda>s. s\<lparr>actor := p'\<rparr>))
       (bnd (lift_res (gather_metrics weighted)) (\<lambda>rl.
        async_finish C R weighted)))))))))))"

primrec async_loop :: "nat \<Rightarrow> loop_config \<Rightarrow> ('p, 'w) trainer \<Rightarrow> (('p, 'w) training, unit) proc" where
  "async_loop 0 C R = bnd (gets global_step) (\<lambda>s. if s < max_steps C then raise StillRunning else ret ())"
| "async_loop (Suc n) C R =
     bnd (gets global_step) (\<lambda>s. if s < max_steps C then andthen (async_step C R) (async_loop n C R) else ret ())"

definition async_prepare :: "loop_config \<Rightarrow> ('p, 'w) trainer \<Rightarrow> (('p, 'w) training, unit) proc" where
  "async_prepare C R =
     andthen resume (andthen (async_sync R) (if val_before_train C then begin_validation R else ret ()))"

section \<open>A case of the other trainer\<close>

definition plain_config :: "loop_config \<Rightarrow> loop_config" where
  "plain_config C = C\<lparr>stale_step := None, norm_by_task := False\<rparr>"

lemma plain_config_simps [simp]:
  "stale_step (plain_config C) = None" "norm_by_task (plain_config C) = False"
  "max_steps (plain_config C) = max_steps C" "save_interval (plain_config C) = save_interval C"
  "val_interval (plain_config C) = val_interval C" "val_before_train (plain_config C) = val_before_train C"
  "reduce_mode (plain_config C) = reduce_mode C" "has_reduce_mode (plain_config C) = has_reduce_mode C"
  "batch_size (plain_config C) = batch_size C"
  by (simp_all add: plain_config_def)

lemma plain_sync: "sync_params (plain_config C) R = async_sync R"
  by (simp add: sync_params_def async_sync_def andthen_ret)

lemma plain_sample_target: "sample_target (plain_config C) = sample_target C"
  by (rule ext) (simp add: sample_target_def)

lemma plain_step: "train_step (plain_config C) R = async_step C R"
  by (simp add: train_step_def async_step_def finish_step_def async_finish_def plain_sync plain_sample_target)

lemma plain_prepare: "prepare (plain_config C) R = async_prepare C R"
  by (simp add: prepare_def async_prepare_def async_sync_def andthen_def)

text \<open>
  The trainer of one kind of engines is the trainer of two without stale engines and without
  normalisation by task: preparation, steps and errors are the same. What is proved of the one holds
  of the other; its engines have the actor's weights after each step, and it resumes the same.
\<close>

lemma async_trainer_is_plain_case:
  "andthen (async_prepare C R) (async_loop n C R) =
     andthen (prepare (plain_config C) R) (train_loop n (plain_config C) R)"
proof -
  have "async_loop n C R = train_loop n (plain_config C) R"
    by (induction n) (simp_all add: plain_step cong: if_cong)
  then show ?thesis by (simp add: plain_prepare)
qed

lemma async_devices_are_fresh:
  "map_sum id (\<lambda>d. (fresh_engines d, actor_gpus d)) (divide_devices gpus ratio 0 tp) = async_devices gpus ratio tp"
  by (simp add: divide_devices_def async_devices_def Let_def whole_part_def)

lemma async_engine_is_fresh:
  "choose_engine (d\<lparr>stale_engines := 0\<rparr>) ratio draw hash = map_sum id (Pair False) (async_engine (fresh_engines d) hash)"
  by (simp add: choose_engine_def async_engine_def)

end
