(* ===== verification/Agent_Script.thy ===== *)
theory Agent_Script
  imports Session_Tasks Eval_Types
begin

text \<open>
  The evaluation script (examples/eval/server\_agent.py): the agent with its retries and its choice
  between two models, and the worker that plays one sample against the controller. Posting, pauses and
  random numbers are records of calls; printing is left out. A reply has been read whole when it is there.
\<close>

section \<open>The agent\<close>

record 'w agent_env =
  http :: "'w session_http"
  draw :: "('w, rat) proc"

record chat_agent =
  agent_model :: string
  agent_url :: string
  second_model :: string
  second_url :: string
  agent_key :: string

text \<open>\<open>x[0]\<close>, and the elements \<open>extend\<close> finds in a document.\<close>

definition json_first :: "json \<Rightarrow> json res" where
  "json_first j =
     (case j of
        JList (x # xs) \<Rightarrow> Inr x | JList [] \<Rightarrow> Inl IndexError
      | JStr (c # cs) \<Rightarrow> Inr (JStr [c]) | JStr [] \<Rightarrow> Inl IndexError
      | JObj d \<Rightarrow> Inl KeyError | _ \<Rightarrow> Inl TypeError)"

definition json_elements :: "json \<Rightarrow> json list res" where
  "json_elements j =
     (case j of
        JList js \<Rightarrow> Inr js | JStr s \<Rightarrow> Inr (map (\<lambda>c. JStr [c]) s)
      | JObj d \<Rightarrow> Inr (map (\<lambda>e. JStr (fst e)) d) | _ \<Rightarrow> Inl TypeError)"

definition drop_nulls :: "(string, json) dict \<Rightarrow> (string, json) dict" where
  "drop_nulls d = filter (\<lambda>e. snd e \<noteq> JNull) d"

definition clean_message :: "json \<Rightarrow> json res" where
  "clean_message m =
     (case m of
        JObj d \<Rightarrow>
          (case dict_get d ''content'' of
             None \<Rightarrow> Inl KeyError
           | Some c \<Rightarrow> Inr (JObj (drop_nulls (if c = JNull then dict_set ''content'' (JStr []) d else d))))
      | _ \<Rightarrow> Inl TypeError)"

definition chat_payload :: "string \<Rightarrow> json list \<Rightarrow> json \<Rightarrow> json \<Rightarrow> json" where
  "chat_payload model ms ts temp =
     JObj [(''model'', JStr model), (''messages'', JList ms), (''tool_choice'', JStr ''auto''), (''tools'', ts),
           (''temperature'', temp), (''max_completion_tokens'', JInt 1024)]"

definition agent_call ::
    "'w agent_env \<Rightarrow> chat_agent \<Rightarrow> string \<Rightarrow> string \<Rightarrow> json list \<Rightarrow> json \<Rightarrow> json \<Rightarrow> ('w, json) proc" where
  "agent_call E A url model ms ts temp =
     bnd (post (http E) (url @ ''/chat/completions'') (chat_payload model ms ts temp)
            [(''Authorization'', ''Bearer '' @ agent_key A), (''Content-Type'', ''application/json'')]) (\<lambda>r.
     bnd (lift_res (decoded r)) (\<lambda>answer.
     if 400 \<le> status_code r then raise HTTPStatusError
     else bnd (lift_res (json_item answer ''choices'')) (\<lambda>cs.
          bnd (lift_res (json_first cs)) (\<lambda>c.
          bnd (lift_res (json_item c ''message'')) (\<lambda>m. lift_res (clean_message m))))))"

definition one_call :: "'w agent_env \<Rightarrow> chat_agent \<Rightarrow> json list \<Rightarrow> json \<Rightarrow> json \<Rightarrow> ('w, json) proc" where
  "one_call E A ms ts temp =
     (if second_model A \<noteq> []
      then bnd (draw E) (\<lambda>x.
             if x < 1 / 2 then agent_call E A (second_url A) (second_model A) ms ts temp
             else agent_call E A (agent_url A) (agent_model A) ms ts temp)
      else agent_call E A (agent_url A) (agent_model A) ms ts temp)"

primrec chat_attempts :: "nat \<Rightarrow> 'w agent_env \<Rightarrow> chat_agent \<Rightarrow> json list \<Rightarrow> json \<Rightarrow> json \<Rightarrow> ('w, json) proc" where
  "chat_attempts 0 E A ms ts temp = raise NotImplementedError"
| "chat_attempts (Suc n) E A ms ts temp =
     catch (one_call E A ms ts temp)
       (\<lambda>e. if e = CancelledError \<or> n = 0 then raise e
            else andthen (pause_between (http E) 1 1) (chat_attempts n E A ms ts temp))"

definition chat_completion :: "'w agent_env \<Rightarrow> chat_agent \<Rightarrow> json list \<Rightarrow> json \<Rightarrow> json \<Rightarrow> ('w, json) proc" where
  "chat_completion = chat_attempts 3"

section \<open>The worker\<close>

record script_args =
  controller_at :: string
  script_task :: string
  temperature_arg :: json
  truncate_calls :: bool
  verbose_arg :: bool

definition start_url :: "script_args \<Rightarrow> string" where
  "start_url S = controller_at S @ ''/start_sample''"

definition interact_url :: "script_args \<Rightarrow> string" where
  "interact_url S = controller_at S @ ''/interact''"

definition cancel_url :: "script_args \<Rightarrow> string" where
  "cancel_url S = controller_at S @ ''/cancel''"

definition opened :: "reply \<Rightarrow> string res" where
  "opened r =
     (if 400 \<le> status_code r then Inl HTTPStatusError
      else case dict_get (reply_headers r) ''session_id'' of None \<Rightarrow> Inl KeyError | Some sid \<Rightarrow> Inr sid)"

text \<open>The result of a program, its exception as a value.\<close>

definition outcome_of :: "('w, 'a) proc \<Rightarrow> ('w, 'a res) proc" where
  "outcome_of m = catch (bnd m (\<lambda>x. ret (Inr x))) (\<lambda>e. ret (Inl e))"

text \<open>
  The start is tried until it succeeds; the number bounds the attempts. The handler takes every
  exception, a cancellation too. When it reports, it reads \<open>text\<close>, which is not bound before
  there was a first reply (\<open>seen\<close>).
\<close>

primrec start_session :: "nat \<Rightarrow> bool \<Rightarrow> 'w agent_env \<Rightarrow> script_args \<Rightarrow> json \<Rightarrow> ('w, string \<times> reply) proc" where
  "start_session 0 seen E S index = raise StillRunning"
| "start_session (Suc n) seen E S index =
     bnd (outcome_of (post (http E) (start_url S) (JObj [(''name'', JStr (script_task S)), (''index'', index)]) [])) (\<lambda>x.
     case x of
       Inl e \<Rightarrow>
         if verbose_arg S \<and> \<not> seen then raise (PlainException ''UnboundLocalError'')
         else andthen (pause_between (http E) 1 1) (start_session n seen E S index)
     | Inr r \<Rightarrow>
         (case opened r of
            Inr sid \<Rightarrow> ret (sid, r)
          | Inl e \<Rightarrow> andthen (pause_between (http E) 1 1) (start_session n True E S index)))"

definition strip_message :: "json \<Rightarrow> json res" where
  "strip_message m = (case m of JObj d \<Rightarrow> Inr (JObj (drop_nulls d)) | _ \<Rightarrow> Inl AttributeError)"

primrec strip_messages :: "json list \<Rightarrow> json list res" where
  "strip_messages [] = Inr []"
| "strip_messages (m # ms) =
     (case (strip_message m, strip_messages ms) of
        (Inl e, _) \<Rightarrow> Inl e | (_, Inl e) \<Rightarrow> Inl e | (Inr x, Inr xs) \<Rightarrow> Inr (x # xs))"

text \<open>Only the first of several tool calls.\<close>

definition truncated :: "json \<Rightarrow> json res" where
  "truncated m =
     (case m of
        JObj d \<Rightarrow>
          (case dict_get d ''tool_calls'' of
             None \<Rightarrow> Inl KeyError
           | Some (JList []) \<Rightarrow> Inr (JObj (dict_del ''tool_calls'' d))
           | Some (JList (c # cs)) \<Rightarrow> Inr (JObj (dict_set ''tool_calls'' (JList [c]) d))
           | Some (JStr []) \<Rightarrow> Inr (JObj (dict_del ''tool_calls'' d))
           | Some (JStr (c # cs)) \<Rightarrow> Inr (JObj (dict_set ''tool_calls'' (JStr [c]) d))
           | _ \<Rightarrow> Inl TypeError)
      | _ \<Rightarrow> Inl TypeError)"

text \<open>The conversation is the second part of the state.\<close>

definition say :: "json list \<Rightarrow> ('w \<times> json list, unit) proc" where
  "say ms = modify (\<lambda>s. (fst s, snd s @ ms))"

definition interaction :: "'w agent_env \<Rightarrow> script_args \<Rightarrow> string \<Rightarrow> json \<Rightarrow> ('w, reply) proc" where
  "interaction E S sid m =
     post (http E) (interact_url S) (JObj [(''messages'', JList [m])]) [(''session_id'', sid)]"

text \<open>What follows from the answer of the environment: the reward once it is finished, or new messages.\<close>

definition observed :: "reply \<Rightarrow> (json + json list) res" where
  "observed r =
     (if 400 \<le> status_code r then Inl HTTPStatusError
      else case decoded r of
        Inl e \<Rightarrow> Inl e
      | Inr answer \<Rightarrow>
          (case json_item answer ''finish'' of
             Inl e \<Rightarrow> Inl e
           | Inr f \<Rightarrow>
               if json_truth f then map_sum id Inl (json_item answer ''reward'')
               else (case json_item answer ''messages'' of
                       Inl e \<Rightarrow> Inl e
                     | Inr j \<Rightarrow> map_sum id Inr (json_elements j))))"

definition take_answer :: "reply \<Rightarrow> ('w \<times> json list, json option) proc" where
  "take_answer r =
     bnd (lift_res (observed r)) (\<lambda>x. case x of Inl v \<Rightarrow> ret (Some v) | Inr new \<Rightarrow> andthen (say new) (ret None))"

definition exchange :: "'w agent_env \<Rightarrow> script_args \<Rightarrow> string \<Rightarrow> json \<Rightarrow> ('w \<times> json list, json option) proc" where
  "exchange E S sid m = andthen (say [m]) (bnd (on_first (interaction E S sid m)) take_answer)"

definition agent_round ::
    "'w agent_env \<Rightarrow> chat_agent \<Rightarrow> script_args \<Rightarrow> string \<Rightarrow> json \<Rightarrow> ('w \<times> json list, json option) proc" where
  "agent_round E A S sid ts =
     bnd (gets snd) (\<lambda>ms0.
     bnd (lift_res (strip_messages ms0)) (\<lambda>ms.
     andthen (modify (\<lambda>s. (fst s, ms)))
     (bnd (on_first (chat_completion E A ms ts (temperature_arg S))) (\<lambda>m.
      bnd (lift_res (if truncate_calls S then truncated m else Inr m)) (exchange E S sid)))))"

primrec agent_rounds ::
    "nat \<Rightarrow> 'w agent_env \<Rightarrow> chat_agent \<Rightarrow> script_args \<Rightarrow> string \<Rightarrow> json \<Rightarrow> ('w \<times> json list, json) proc" where
  "agent_rounds 0 E A S sid ts = ret (JInt 0)"
| "agent_rounds (Suc n) E A S sid ts =
     bnd (agent_round E A S sid ts) (\<lambda>x. case x of Some v \<Rightarrow> ret v | None \<Rightarrow> agent_rounds n E A S sid ts)"

definition converse_with :: "'w agent_env \<Rightarrow> chat_agent \<Rightarrow> script_args \<Rightarrow> string \<Rightarrow> reply \<Rightarrow> ('w \<times> json list, json) proc" where
  "converse_with E A S sid r =
     bnd (lift_res (decoded r)) (\<lambda>answer.
     bnd (lift_res (json_item answer ''messages'')) (\<lambda>j.
     bnd (lift_res (json_elements j)) (\<lambda>ms.
     andthen (say ms)
     (bnd (lift_res (json_item answer ''tools'')) (\<lambda>ts. agent_rounds 20 E A S sid ts)))))"

text \<open>The program on an empty conversation, with the conversation it leaves and its exception as a value.\<close>

definition with_conversation :: "('w \<times> json list, 'a) proc \<Rightarrow> ('w, 'a res \<times> json list) proc" where
  "with_conversation m w = (case m (w, []) of (x, s) \<Rightarrow> (Inr (x, snd s), fst s))"

definition cancel_session :: "'w agent_env \<Rightarrow> script_args \<Rightarrow> string \<Rightarrow> ('w, unit) proc" where
  "cancel_session E S sid =
     bnd (outcome_of (post (http E) (cancel_url S) JNull [(''session_id'', sid)])) (\<lambda>_. ret ())"

definition end_run ::
    "'w agent_env \<Rightarrow> script_args \<Rightarrow> string \<Rightarrow> json res \<times> json list \<Rightarrow> ('w, json list \<times> json res \<times> string) proc" where
  "end_run E S sid y =
     (case y of
        (Inr v, ms) \<Rightarrow> ret (ms, Inr v, sid)
      | (Inl e, ms) \<Rightarrow>
          if e = CancelledError \<or> e = StillRunning then raise e
          else andthen (cancel_session E S sid) (ret (ms, Inl e, sid)))"

definition agent_worker ::
    "nat \<Rightarrow> 'w agent_env \<Rightarrow> chat_agent \<Rightarrow> script_args \<Rightarrow> json \<Rightarrow> ('w, json list \<times> json res \<times> string) proc" where
  "agent_worker n E A S index =
     bnd (start_session n False E S index) (\<lambda>(sid, r).
     bnd (with_conversation (converse_with E A S sid r)) (end_run E S sid))"

section \<open>Requests\<close>

text \<open>The environment that keeps the requests made, with their headers and replies.\<close>

type_synonym posted = "string \<times> (string, string) dict \<times> reply res"

definition logged :: "'w agent_env \<Rightarrow> ('w \<times> posted list) agent_env" where
  "logged E =
     \<lparr>http = \<lparr>post = (\<lambda>u b h s. case post (http E) u b h (fst s) of (x, w) \<Rightarrow> (x, (w, snd s @ [(u, h, x)]))),
              pause_between = (\<lambda>a b. on_first (pause_between (http E) a b))\<rparr>,
      draw = on_first (draw E)\<rparr>"

lemma wp_logged_post:
  assumes "\<And>x v. Q x (v, l @ [(u, h, Inr x)])" and "\<And>e v. F e (v, l @ [(u, h, Inl e)])"
  shows "wp (post (http (logged E)) u b h) Q F (w, l)"
  using assms by (cases "post (http E) u b h w") (auto simp: logged_def wp_def split: sum.split)

lemma logged_sels:
  "pause_between (http (logged E)) a b = on_first (pause_between (http E) a b)" "draw (logged E) = on_first (draw E)"
  by (simp_all add: logged_def)

definition requests :: "string \<Rightarrow> posted list \<Rightarrow> nat" where
  "requests u l = length (filter (\<lambda>e. fst e = u) l)"

lemma requests_simps [simp]:
  "requests u [] = 0" "requests u (l @ [(v, x)]) = requests u l + (if v = u then 1 else 0)"
  by (simp_all add: requests_def)

definition started_by :: "script_args \<Rightarrow> string \<Rightarrow> posted list \<Rightarrow> bool" where
  "started_by S sid l \<longleftrightarrow> (\<exists>h r. (start_url S, h, Inr r) \<in> set l \<and> opened r = Inr sid)"

lemma started_grows: "started_by S sid l \<Longrightarrow> started_by S sid (l @ [e])"
  by (auto simp: started_by_def)

definition finished_with :: "script_args \<Rightarrow> json \<Rightarrow> posted list \<Rightarrow> bool" where
  "finished_with S v l \<longleftrightarrow>
     (case last l of (u, h, x) \<Rightarrow> l \<noteq> [] \<and> u = interact_url S \<and> (case x of Inr r \<Rightarrow> observed r = Inr (Inl v) | Inl e \<Rightarrow> False))"

text \<open>The urls are told apart by their last letters.\<close>

lemma last_letters: "u @ ''/chat/completions'' \<noteq> interact_url S" "u @ ''/chat/completions'' \<noteq> cancel_url S"
  "interact_url S \<noteq> cancel_url S" "start_url S \<noteq> interact_url S" "start_url S \<noteq> cancel_url S"
  by (auto simp: interact_url_def cancel_url_def start_url_def dest: arg_cong [where f = last])

definition in_session :: "script_args \<Rightarrow> nat \<Rightarrow> string \<Rightarrow> posted list \<Rightarrow> bool" where
  "in_session S k sid l \<longleftrightarrow> started_by S sid l \<and> requests (interact_url S) l = k \<and> requests (cancel_url S) l = 0"

lemma in_session_chat: "in_session S k sid l \<Longrightarrow> in_session S k sid (l @ [(u @ ''/chat/completions'', x)])"
  by (simp add: in_session_def started_grows last_letters)

lemma call_in_session: "preserves (\<lambda>s. in_session S k sid (snd s)) (\<lambda>_. True) (agent_call (logged E) A url model ms ts temp)"
proof -
  have "preserves (\<lambda>s. in_session S k sid (snd s)) (\<lambda>_. True) (post (http (logged E)) (url @ ''/chat/completions'') b h)" for b h
    unfolding preserves_def by (auto intro!: wp_logged_post in_session_chat)
  then show ?thesis unfolding agent_call_def
    by (intro preserves_bnd_any preserves_if preserves_raise preserves_lift_res) auto
qed

lemma first_in_session: "preserves (\<lambda>s. in_session S k sid (snd s)) (\<lambda>_. True) (on_first m)"
  unfolding preserves_def by (auto intro!: wp_first_any)

lemma chat_in_session:
  "preserves (\<lambda>s. in_session S k sid (snd s)) (\<lambda>_. True) (chat_completion (logged E) A ms ts temp)"
proof -
  have one: "preserves (\<lambda>s. in_session S k sid (snd s)) (\<lambda>_. True) (one_call (logged E) A ms ts temp)"
    unfolding one_call_def logged_sels by (intro preserves_if preserves_bnd_any call_in_session first_in_session)
  have "preserves (\<lambda>s. in_session S k sid (snd s)) (\<lambda>_. True) (chat_attempts n (logged E) A ms ts temp)" for n
    by (induction n) (auto simp: logged_sels intro!: preserves_raise preserves_catch one preserves_then first_in_session)
  then show ?thesis by (simp add: chat_completion_def)
qed

section \<open>What happens to a session\<close>

text \<open>One round is one more request to the environment, or none when it fails before.\<close>

definition rounds_ok :: "script_args \<Rightarrow> nat \<Rightarrow> string \<Rightarrow> ('w \<times> posted list) \<times> json list \<Rightarrow> bool" where
  "rounds_ok S k sid s \<longleftrightarrow> in_session S k sid (snd (fst s))"

definition round_result :: "script_args \<Rightarrow> nat \<Rightarrow> string \<Rightarrow> json option \<Rightarrow> ('w \<times> posted list) \<times> json list \<Rightarrow> bool" where
  "round_result S k sid x s \<longleftrightarrow>
     rounds_ok S k sid s \<and> (case x of Some v \<Rightarrow> finished_with S v (snd (fst s)) | None \<Rightarrow> True)"

definition round_error :: "script_args \<Rightarrow> nat \<Rightarrow> string \<Rightarrow> py_error \<Rightarrow> ('w \<times> posted list) \<times> json list \<Rightarrow> bool" where
  "round_error S k sid e s \<longleftrightarrow> rounds_ok S k sid s \<or> rounds_ok S (k + 1) sid s"

lemma asked_in_session: "in_session S k sid l \<Longrightarrow> in_session S (k + 1) sid (l @ [(interact_url S, x)])"
  by (simp add: in_session_def started_grows last_letters)

lemma answer_in_session:
  assumes "in_session S k sid l"
  shows "wp (take_answer r) (round_result S (k + 1) sid) (round_error S k sid) ((w, l @ [(interact_url S, h, Inr r)]), ms)"
  using asked_in_session [OF assms, of "(h, Inr r)"]
  by (auto simp: take_answer_def say_def round_result_def round_error_def rounds_ok_def finished_with_def split: sum.split)

lemma exchange_in_session:
  assumes "in_session S k sid l"
  shows "wp (exchange (logged E) S sid m) (round_result S (k + 1) sid) (round_error S k sid) ((w, l), ms)"
proof -
  have "wp (interaction (logged E) S sid m) (\<lambda>r v. wp (take_answer r) (round_result S (k + 1) sid) (round_error S k sid) (v, ms'))
      (\<lambda>e v. round_error S k sid e (v, ms')) (w, l)" for ms'
    unfolding interaction_def
    by (intro wp_logged_post answer_in_session [OF assms])
      (use asked_in_session [OF assms] in \<open>simp add: round_error_def rounds_ok_def\<close>)
  then show ?thesis by (simp add: exchange_def say_def wp_on_first)
qed

lemma round_in_session:
  assumes "in_session S k sid l"
  shows "wp (agent_round (logged E) A S sid ts) (round_result S (k + 1) sid) (round_error S k sid) ((w, l), ms)"
proof -
  have "wp (bnd (lift_res (if truncate_calls S then truncated m else Inr m)) (exchange (logged E) S sid))
      (round_result S (k + 1) sid) (round_error S k sid) (v, ms')" if "in_session S k sid (snd v)" for m v ms'
    using exchange_in_session [OF that, of E _ "fst v" ms'] that
    by (simp add: round_error_def rounds_ok_def split: sum.split)
  then have "wp (chat_completion (logged E) A ms' ts (temperature_arg S))
      (\<lambda>m v. wp (bnd (lift_res (if truncate_calls S then truncated m else Inr m)) (exchange (logged E) S sid))
        (round_result S (k + 1) sid) (round_error S k sid) (v, ms'))
      (\<lambda>e v. round_error S k sid e (v, ms')) (w, l)" for ms'
    by (intro wp_mono [OF preserves_wp [OF chat_in_session]]) (use assms in \<open>auto simp: round_error_def rounds_ok_def\<close>)
  then show ?thesis using assms
    by (simp add: agent_round_def wp_on_first round_error_def rounds_ok_def split: sum.split)
qed

definition play_result :: "script_args \<Rightarrow> nat \<Rightarrow> string \<Rightarrow> json \<Rightarrow> ('w \<times> posted list) \<times> json list \<Rightarrow> bool" where
  "play_result S n sid v s \<longleftrightarrow>
     (\<exists>j \<le> n. rounds_ok S j sid s \<and> (finished_with S v (snd (fst s)) \<or> v = JInt 0 \<and> j = n))"

definition play_error :: "script_args \<Rightarrow> string \<Rightarrow> py_error \<Rightarrow> ('w \<times> posted list) \<times> json list \<Rightarrow> bool" where
  "play_error S sid e s \<longleftrightarrow> (\<exists>j. rounds_ok S j sid s)"

lemma rounds_in_session:
  "in_session S k sid l \<Longrightarrow>
   wp (agent_rounds n (logged E) A S sid ts) (play_result S (k + n) sid) (play_error S sid) ((w, l), ms)"
proof (induction n arbitrary: k w l ms)
  case 0
  then show ?case by (auto simp: play_result_def rounds_ok_def)
next
  case (Suc n)
  have "wp (case x of Some v \<Rightarrow> ret v | None \<Rightarrow> agent_rounds n (logged E) A S sid ts)
      (play_result S (k + Suc n) sid) (play_error S sid) s" if "round_result S (k + 1) sid x s" for x s
  proof (cases x)
    case None
    have "wp (agent_rounds n (logged E) A S sid ts) (play_result S (k + 1 + n) sid) (play_error S sid)
        ((fst (fst s), snd (fst s)), snd s)"
      by (rule Suc.IH) (use that in \<open>simp add: round_result_def rounds_ok_def\<close>)
    then show ?thesis using None by simp
  next
    case (Some v)
    then show ?thesis using that by (auto simp: round_result_def play_result_def intro!: exI [of _ "k + 1"])
  qed
  then have "wp (agent_round (logged E) A S sid ts)
      (\<lambda>x. wp (case x of Some v \<Rightarrow> ret v | None \<Rightarrow> agent_rounds n (logged E) A S sid ts)
         (play_result S (k + Suc n) sid) (play_error S sid)) (play_error S sid) ((w, l), ms)"
    by (intro wp_mono [OF round_in_session [OF Suc.prems]]) (auto simp: round_error_def play_error_def)
  then show ?case by simp
qed

lemma conversation_in_session:
  assumes "in_session S 0 sid l"
  shows "wp (converse_with (logged E) A S sid r) (play_result S 20 sid) (play_error S sid) ((w, l), [])"
proof -
  have "wp (agent_rounds 20 (logged E) A S sid ts) (play_result S 20 sid) (play_error S sid) ((w, l), ms)" for ts ms
    using rounds_in_session [OF assms, of 20] by simp
  moreover have "play_error S sid e ((w, l), ms)" for e ms
    using assms by (auto simp: play_error_def rounds_ok_def)
  ultimately show ?thesis by (simp add: converse_with_def say_def split: sum.split)
qed

lemma wp_with_conversation:
  "wp (with_conversation m) Q F w = wp m (\<lambda>v s. Q (Inr v, snd s) (fst s)) (\<lambda>e s. Q (Inl e, snd s) (fst s)) (w, [])"
  by (auto simp: with_conversation_def wp_def split: prod.split sum.split)

definition no_session :: "script_args \<Rightarrow> posted list \<Rightarrow> bool" where
  "no_session S l \<longleftrightarrow> requests (interact_url S) l = 0 \<and> requests (cancel_url S) l = 0"

lemma wp_outcome_logged:
  assumes "\<And>x v. x \<noteq> Inl StillRunning \<Longrightarrow> Q x (v, l @ [(u, h, x)])" and "\<And>v. F StillRunning (v, l @ [(u, h, Inl StillRunning)])"
  shows "wp (outcome_of (post (http (logged E)) u b h)) Q F (w, l)"
  unfolding outcome_of_def wp_catch wp_bnd
  by (rule wp_logged_post) (use assms in auto)

lemma wp_pause_logged:
  "(\<And>v. Q () (v, l)) \<Longrightarrow> (\<And>e v. F e (v, l)) \<Longrightarrow> wp (pause_between (http (logged E)) a b) Q F (w, l)"
  unfolding logged_sels by (rule wp_first_any) simp_all

lemma start_in_session:
  "no_session S l \<Longrightarrow>
   wp (start_session n seen (logged E) S index) (\<lambda>(sid, r) s. in_session S 0 sid (snd s)) (\<lambda>e s. no_session S (snd s)) (w, l)"
proof (induction n arbitrary: seen w l)
  case (Suc n)
  have still: "no_session S (l @ [(start_url S, x)])" for x
    using Suc.prems by (simp add: no_session_def last_letters)
  have again: "wp (andthen (pause_between (http (logged E)) 1 1) (start_session n seen' (logged E) S index))
      (\<lambda>(sid, r) s. in_session S 0 sid (snd s)) (\<lambda>e s. no_session S (snd s)) (v, l @ [(start_url S, x)])" for seen' v x
    unfolding wp_andthen by (intro wp_pause_logged Suc.IH still) (simp add: still)
  have open_one: "in_session S 0 sid (l @ [(start_url S, h, Inr r)])" if "opened r = Inr sid" for h r sid
    using still that by (auto simp: no_session_def in_session_def started_by_def)
  show ?case unfolding start_session.simps wp_bnd
  proof (rule wp_outcome_logged)
    fix x v assume "x \<noteq> (Inl StillRunning :: reply res)"
    show "wp (case x of
        Inl e \<Rightarrow> if verbose_arg S \<and> \<not> seen then raise (PlainException ''UnboundLocalError'')
          else andthen (pause_between (http (logged E)) 1 1) (start_session n seen (logged E) S index)
      | Inr r \<Rightarrow> case opened r of
          Inl e \<Rightarrow> andthen (pause_between (http (logged E)) 1 1) (start_session n True (logged E) S index)
        | Inr sid \<Rightarrow> ret (sid, r)) (\<lambda>(sid, r) s. in_session S 0 sid (snd s)) (\<lambda>e s. no_session S (snd s))
        (v, l @ [(start_url S, [], x)])"
      using again open_one still by (auto simp del: wp_andthen split: sum.split)
  qed (simp add: still)
qed simp

definition worker_result :: "script_args \<Rightarrow> json list \<times> json res \<times> string \<Rightarrow> posted list \<Rightarrow> bool" where
  "worker_result S y l =
     (case y of (ms, x, sid) \<Rightarrow>
        started_by S sid l \<and>
        (case x of
           Inr v \<Rightarrow> requests (cancel_url S) l = 0 \<and>
             (finished_with S v l \<or> v = JInt 0 \<and> requests (interact_url S) l = 20)
         | Inl e \<Rightarrow> requests (cancel_url S) l = 1 \<and> (\<exists>z. last l = (cancel_url S, [(''session_id'', sid)], z))))"

lemma cancelled_in_session:
  assumes "in_session S j sid l"
  shows "wp (andthen (cancel_session (logged E) S sid) (ret (ms, Inl e, sid))) (\<lambda>y s. worker_result S y (snd s))
     (\<lambda>e s. e = StillRunning) (w, l)"
  unfolding cancel_session_def wp_andthen wp_bnd wp_ret
  by (rule wp_outcome_logged) (use assms in \<open>auto simp: worker_result_def in_session_def started_grows\<close>)

text \<open>
  C38: a run of the evaluation script ends with the environment's verdict or with a cancellation. Whatever
  the model and the environment answer, a run that returns had started its session, and either it has
  the reward of the answer that finished it, or 20 exchanges took place without one and its result is
  zero, or it has an error and its last request was the one cancellation of that session. An
  exception leaves the worker only without a cancellation having been requested.
\<close>

theorem failed_runs_are_cancelled:
  "wp (agent_worker n (logged E) A S index) (\<lambda>y s. worker_result S y (snd s))
     (\<lambda>e s. e = StillRunning \<or> requests (cancel_url S) (snd s) = 0) (w, [])"
proof -
  let ?Q = "\<lambda>y s. worker_result S y (snd s)"
    and ?E = "\<lambda>e s. e = StillRunning \<or> requests (cancel_url S) (snd s) = 0"
  have finished: "wp (end_run (logged E) S sid (Inr v, snd s)) ?Q ?E (fst s)" if "play_result S 20 sid v s" for v s sid
    using that by (auto simp: end_run_def play_result_def worker_result_def rounds_ok_def in_session_def)
  have failed: "wp (end_run (logged E) S sid (Inl e, snd s)) ?Q ?E (fst s)" if played: "play_error S sid e s" for e s sid
  proof -
    obtain j where j: "in_session S j sid (snd (fst s))" using played by (auto simp: play_error_def rounds_ok_def)
    have "wp (andthen (cancel_session (logged E) S sid) (ret (snd s, Inl e, sid))) ?Q ?E (fst (fst s), snd (fst s))"
      by (rule wp_mono [OF cancelled_in_session [OF j]]) auto
    then show ?thesis using j by (simp add: end_run_def in_session_def del: wp_andthen)
  qed
  have "wp (with_conversation (converse_with (logged E) A S sid r)) (\<lambda>y. wp (end_run (logged E) S sid y) ?Q ?E) ?E s"
    if "in_session S 0 sid (snd s)" for sid r s
    unfolding wp_with_conversation
    using wp_mono [OF conversation_in_session [OF that, of E A r "fst s"] finished failed] by simp
  then show ?thesis unfolding agent_worker_def wp_bnd
    by (intro wp_mono [OF start_in_session]) (auto simp: no_session_def split: prod.split)
qed

section \<open>Where runs go wrong\<close>

text \<open>With truncation a message without tool calls is an error, so that a run that answers in text fails.\<close>

lemma text_fails_truncation:
  assumes "dict_get d ''tool_calls'' = None" shows "truncated (JObj d) = Inl KeyError"
  using assms by (simp add: truncated_def)

text \<open>A first request that does not get through ends a verbose worker, instead of being made again.\<close>

lemma verbose_start_gives_up:
  assumes "verbose_arg S"
    and "post (http E) (start_url S) (JObj [(''name'', JStr (script_task S)), (''index'', index)]) [] w = (Inl e, w')"
    and "e \<noteq> StillRunning"
  shows "agent_worker (Suc n) E A S index w = (Inl (PlainException ''UnboundLocalError''), w')"
  using assms by (simp add: agent_worker_def outcome_of_def catch_def bnd_def ret_def raise_def)

text \<open>
  An environment that is never finished: after 20 exchanges the run is a zero and its session is left
  open, neither finished nor cancelled.
\<close>

definition endless_reply :: reply where
  "endless_reply =
     \<lparr>status_code = 200,
      decoded = Inr (JObj [(''messages'', JList []), (''tools'', JNull), (''finish'', JBool False),
        (''choices'', JList [JObj [(''message'', JObj [(''content'', JNull)])]])]),
      reply_headers = [(''session_id'', ''7'')]\<rparr>"

definition endless :: "unit agent_env" where
  "endless = \<lparr>http = \<lparr>post = (\<lambda>u b h. ret endless_reply), pause_between = (\<lambda>a b. ret ())\<rparr>, draw = ret 0\<rparr>"

definition plain_args :: script_args where
  "plain_args = \<lparr>controller_at = ''c'', script_task = ''t'', temperature_arg = JInt 1, truncate_calls = False, verbose_arg = False\<rparr>"

definition plain_agent :: chat_agent where
  "plain_agent = \<lparr>agent_model = ''m'', agent_url = ''u'', second_model = [], second_url = [], agent_key = ''k''\<rparr>"

definition empty_answer :: json where
  "empty_answer = JObj [(''content'', JStr [])]"

lemma endless_chat: "chat_completion (logged endless) plain_agent ms ts temp (w, l) =
  (Inr empty_answer, (w, l @ [(''u/chat/completions'', [(''Authorization'', ''Bearer k''), (''Content-Type'', ''application/json'')], Inr endless_reply)]))"
  by (simp add: chat_completion_def eval_nat_numeral one_call_def agent_call_def plain_agent_def logged_def endless_def
      catch_def bnd_def ret_def lift_res_def endless_reply_def json_first_def clean_message_def drop_nulls_def empty_answer_def)

lemma endless_observed: "observed endless_reply = Inr (Inr [])"
  by (simp add: observed_def endless_reply_def json_elements_def)

lemma endless_post: "post (http (logged endless)) u b h (w, l) = (Inr endless_reply, (w, l @ [(u, h, Inr endless_reply)]))"
  by (simp add: logged_def endless_def ret_def)

lemma empty_answers_strip: "strip_messages (replicate n empty_answer) = Inr (replicate n empty_answer)"
  by (induction n) (simp_all add: strip_message_def drop_nulls_def empty_answer_def)

lemma endless_round:
  "\<exists>l'. agent_round (logged endless) plain_agent plain_args sid ts ((w, l), replicate n empty_answer) =
     (Inr None, ((w, l'), replicate (Suc n) empty_answer))"
  by (simp add: agent_round_def exchange_def take_answer_def interaction_def say_def on_first_def zoom_def bnd_def andthen_def gets_def
      lift_res_def modify_def ret_def empty_answers_strip endless_chat endless_post endless_observed plain_args_def replicate_append_same)

lemma endless_rounds:
  "\<exists>l' ms. agent_rounds k (logged endless) plain_agent plain_args sid ts ((w, l), replicate n empty_answer) = (Inr (JInt 0), ((w, l'), ms))"
proof (induction k arbitrary: w l n)
  case (Suc k)
  obtain l' where "agent_round (logged endless) plain_agent plain_args sid ts ((w, l), replicate n empty_answer) =
     (Inr None, ((w, l'), replicate (Suc n) empty_answer))" using endless_round by blast
  then show ?case using Suc.IH [of w l' "Suc n"] by simp
qed (simp add: ret_def)

lemma endless_conversation:
  "\<exists>l' ms. converse_with (logged endless) plain_agent plain_args sid endless_reply ((w, l), []) = (Inr (JInt 0), ((w, l'), ms))"
  using endless_rounds [of 20 sid JNull w l 0]
  by (simp add: converse_with_def endless_reply_def json_elements_def say_def lift_res_def ret_def modify_def andthen_def bnd_def)

lemma rounds_used_up_leave_session:
  "\<exists>ms l. agent_worker 1 (logged endless) plain_agent plain_args JNull ((), []) = (Inr (ms, Inr (JInt 0), ''7''), ((), l)) \<and>
     started_by plain_args ''7'' l \<and> requests (cancel_url plain_args) l = 0"
proof -
  let ?l = "[(start_url plain_args, [], Inr endless_reply)] :: posted list"
  obtain l ms where played: "converse_with (logged endless) plain_agent plain_args ''7'' endless_reply (((), ?l), []) = (Inr (JInt 0), (((), l), ms))"
    using endless_conversation by blast
  have "opened endless_reply = Inr ''7''" by (simp add: opened_def endless_reply_def)
  then have start: "start_session 1 False (logged endless) plain_args JNull ((), []) = (Inr (''7'', endless_reply), ((), ?l))"
    and "in_session plain_args 0 ''7'' ?l"
    by (simp_all add: outcome_of_def catch_def bnd_def ret_def endless_post in_session_def started_by_def last_letters requests_def)
  then have "play_result plain_args 20 ''7'' (JInt 0) (((), l), ms)"
    using conversation_in_session [of plain_args "''7''" ?l endless plain_agent endless_reply "()"] played by (simp add: wp_def)
  then have "started_by plain_args ''7'' l \<and> requests (cancel_url plain_args) l = 0"
    by (auto simp: play_result_def rounds_ok_def in_session_def)
  moreover have "agent_worker 1 (logged endless) plain_agent plain_args JNull ((), []) = (Inr (ms, Inr (JInt 0), ''7''), ((), l))"
    unfolding agent_worker_def bnd_Inr [of "start_session _ _ _ _ _", OF start]
    by (simp add: bnd_def with_conversation_def played end_run_def ret_def)
  ultimately show ?thesis by blast
qed

end
