(* ===== verification/Pass_At_K.thy ===== *)
theory Pass_At_K
  imports Training_Data
begin

text \<open>
  The summary of an evaluation (examples/eval/check.py): the statistics of a file of results and the
  estimates of pass@k. A value that is not a number is none; file names and printing are left out.
\<close>

section \<open>Results\<close>

datatype result_cell = Score rat | ErrorCell

record 'i result_row =
  row_task :: 'i
  row_run :: int
  row_result :: result_cell

definition score_of :: "('i, 'z) result_row_scheme \<Rightarrow> real" where
  "score_of r = (case row_result r of Score x \<Rightarrow> of_rat x | ErrorCell \<Rightarrow> 0)"

definition passed :: "('i, 'z) result_row_scheme \<Rightarrow> bool" where
  "passed r \<longleftrightarrow> row_result r = Score 1"

definition usable :: "('i, 'z) result_row_scheme \<Rightarrow> bool" where
  "usable r \<longleftrightarrow> row_result r \<noteq> ErrorCell \<and> row_run r < 256"

text \<open>\<open>groupby\<close> gives the groups in the order of their keys.\<close>

definition groups_by :: "('r \<Rightarrow> 'k::linorder) \<Rightarrow> 'r list \<Rightarrow> 'r list list" where
  "groups_by key rows = map (\<lambda>k. filter (\<lambda>r. key r = k) rows) (sort (remdups (map key rows)))"

definition mean_or_nan :: "real list \<Rightarrow> real option" where
  "mean_or_nan xs = (if xs = [] then None else Some (mean_of xs))"

definition std_or_nan :: "real list \<Rightarrow> real option" where
  "std_or_nan xs = (if length xs < 2 then None else Some (sample_std xs))"

record summary =
  valid_rows :: nat
  avg_result :: "real option"
  std_of_runs :: "real option"
  best_of_n :: "real option"
  mean_pass_rate :: "real option"
  std_pass_rate :: "real option"

definition process_single_file :: "'i::linorder result_row list \<Rightarrow> summary" where
  "process_single_file rows =
     (let df = filter usable rows;
          run_means = map (\<lambda>g. mean_of (map score_of g)) (groups_by row_run df);
          pass_rates = map (\<lambda>g. mean_of (map (\<lambda>r. if passed r then 1 else 0) g)) (groups_by row_run df)
      in \<lparr>valid_rows = length df,
          avg_result = mean_or_nan (map score_of df),
          std_of_runs = std_or_nan run_means,
          best_of_n = mean_or_nan (map (\<lambda>g. Max (set (map score_of g))) (groups_by row_task df)),
          mean_pass_rate = mean_or_nan pass_rates,
          std_pass_rate = std_or_nan pass_rates\<rparr>)"

section \<open>pass@k\<close>

text \<open>The doubling numbers below \<open>n\<close>, from \<open>i\<close> on.\<close>

function doubling :: "nat \<Rightarrow> nat \<Rightarrow> nat list" where
  "doubling n i = (if 0 < i \<and> i < n then i # doubling n (2 * i) else [])"
  by auto
termination by (relation "measure (\<lambda>(n, i). n - i)") auto

declare doubling.simps [simp del]

lemma doubling_step: "0 < i \<Longrightarrow> i < n \<Longrightarrow> doubling n i = i # doubling n (2 * i)"
  by (simp add: doubling.simps [of n i])

lemma doubling_none: "\<not> (0 < i \<and> i < n) \<Longrightarrow> doubling n i = []"
  by (simp add: doubling.simps [of n i])

definition sample_sizes :: "nat \<Rightarrow> nat list res" where
  "sample_sizes n =
     (let ks = doubling n 1
      in if ks = [] then Inl IndexError else Inr (if last ks \<noteq> n then ks @ [n] else ks))"

definition successes :: "'i result_row list \<Rightarrow> nat" where
  "successes g = length (filter passed g)"

definition pass_score :: "nat \<Rightarrow> nat \<Rightarrow> 'i result_row list \<Rightarrow> rat" where
  "pass_score n k g = 1 - of_nat ((n - successes g) choose k) / of_nat (n choose k)"

definition largest_group :: "'i result_row list list \<Rightarrow> nat" where
  "largest_group gs = (if gs = [] then 0 else Max (set (map length gs)))"

text \<open>The rows of a second file are taken as they are.\<close>

definition pass_at_k :: "'i::linorder result_row list \<Rightarrow> 'i result_row list \<Rightarrow> (nat, rat) dict res" where
  "pass_at_k rows second =
     (let gs = groups_by row_task (filter usable rows @ second); n = largest_group gs
      in case sample_sizes n of
           Inl e \<Rightarrow> Inl e
         | Inr ks \<Rightarrow> Inr (map (\<lambda>k. (k, sum_list (map (pass_score n k) gs) / of_nat (length gs))) ks))"

section \<open>What the estimate is\<close>

lemma doubling_bounds: "k \<in> set (doubling n i) \<Longrightarrow> i \<le> k \<and> 0 < k \<and> k < n"
proof (induction n i rule: doubling.induct)
  case (1 n i)
  show ?case
  proof (cases "0 < i \<and> i < n")
    case True
    then have "k = i \<or> k \<in> set (doubling n (2 * i))" using "1.prems" by (simp add: doubling_step)
    then show ?thesis using "1.IH" [OF True] True by auto
  next
    case False
    then show ?thesis using "1.prems" by (simp add: doubling_none)
  qed
qed

lemma doubling_sorted: "sorted_wrt (<) (doubling n i)"
proof (induction n i rule: doubling.induct)
  case (1 n i)
  show ?case
  proof (cases "0 < i \<and> i < n")
    case True
    have "i < k" if "k \<in> set (doubling n (2 * i))" for k using doubling_bounds [OF that] True by auto
    then show ?thesis using "1.IH" [OF True] True by (simp add: doubling_step)
  qed (simp add: doubling_none)
qed

text \<open>The sizes are increasing, from one to the largest number of runs; a single run raises.\<close>

lemma sample_sizes_range:
  assumes "sample_sizes n = Inr ks" shows "sorted_wrt (<) ks \<and> hd ks = 1 \<and> last ks = n \<and> set ks \<subseteq> {1..n}"
proof -
  let ?d = "doubling n 1"
  have d: "?d \<noteq> []" and ks: "ks = (if last ?d \<noteq> n then ?d @ [n] else ?d)"
    using assms by (auto simp: sample_sizes_def Let_def split: if_splits)
  have "1 < n"
  proof (rule ccontr)
    assume "\<not> 1 < n"
    then show False using d doubling_none [of 1 n] by simp
  qed
  then have one: "hd ?d = 1" by (simp add: doubling_step)
  have below: "1 \<le> k \<and> k < n" if "k \<in> set ?d" for k using doubling_bounds [OF that] by auto
  have upper: "set ?d \<subseteq> {1..n}" using below by force
  have "last ?d \<noteq> n" using below [OF last_in_set [OF d]] by simp
  then show ?thesis using ks one d upper \<open>1 < n\<close> doubling_sorted [of n 1] below
    by (simp add: sorted_wrt_append hd_append)
qed

lemma single_run_raises: "n \<le> 1 \<Longrightarrow> sample_sizes n = Inl IndexError"
  by (simp add: sample_sizes_def doubling_none)

definition passed_at :: "'i result_row list \<Rightarrow> nat set" where
  "passed_at g = {i. i < length g \<and> passed (g ! i)}"

lemma card_passed_at: "card (passed_at g) = successes g"
  by (simp add: passed_at_def successes_def length_filter_conv_card)

text \<open>
  C39: pass@k is the chance that a sample of k runs has a success. The number computed for a task is the
  share of those sets of k among n runs that contain a run that passed, where the runs the
  task has fewer than n count as failed.
\<close>

theorem pass_score_is_chance:
  assumes "length g \<le> n" and "k \<le> n"
  shows "pass_score n k g =
     of_nat (card {S. S \<subseteq> {..<n} \<and> card S = k \<and> (\<exists>i \<in> S. i < length g \<and> passed (g ! i))}) /
     of_nat (card {S. S \<subseteq> {..<n} \<and> card S = k})"
proof -
  let ?all = "{S. S \<subseteq> {..<n} \<and> card S = k}" and ?P = "passed_at g"
  let ?no = "{S. S \<subseteq> {..<n} - ?P \<and> card S = k}"
  have sub: "?P \<subseteq> {..<n}" using assms(1) by (auto simp: passed_at_def)
  have no: "card ?no = ((n - successes g) choose k)"
    using n_subsets [of "{..<n} - ?P" k] sub by (simp add: card_Diff_subset finite_subset [OF sub] card_passed_at)
  have all: "card ?all = (n choose k)" using n_subsets [of "{..<n}" k] by simp
  have fin: "finite ?all" by (rule finite_subset [of _ "Pow {..<n}"]) auto
  have hit: "{S. S \<subseteq> {..<n} \<and> card S = k \<and> (\<exists>i \<in> S. i < length g \<and> passed (g ! i))} = ?all - ?no"
    by (auto simp: passed_at_def)
  have "?no \<subseteq> ?all" by auto
  then have "card (?all - ?no) = (n choose k) - ((n - successes g) choose k)" and "((n - successes g) choose k) \<le> (n choose k)"
    using card_mono [OF fin, of ?no] by (simp_all add: card_Diff_subset finite_subset [OF _ fin] no all)
  moreover have "0 < (n choose k)" using assms(2) by simp
  ultimately show ?thesis unfolding hit all pass_score_def by (simp add: of_nat_diff diff_divide_distrib)
qed

definition two_runs :: "int result_row list" where
  "two_runs = [\<lparr>row_task = 0, row_run = 1, row_result = Score 1\<rparr>, \<lparr>row_task = 0, row_run = 2, row_result = Score 0\<rparr>]"

lemma pass_score_is_chance_witness:
  "of_nat (card {S. S \<subseteq> {..<4} \<and> card S = 2 \<and> (\<exists>i \<in> S. i < length two_runs \<and> passed (two_runs ! i))}) /
   of_nat (card {S. S \<subseteq> {..<(4 :: nat)} \<and> card S = 2}) = (1 / 2 :: rat)"
proof -
  have "pass_score 4 2 two_runs = 1 / 2"
    by (simp add: pass_score_def successes_def two_runs_def passed_def eval_nat_numeral)
  then show ?thesis by (subst pass_score_is_chance [symmetric]) (simp_all add: two_runs_def)
qed

text \<open>A task with fewer runs than another is taken to have failed the missing ones.\<close>

lemma missing_runs_fail: "pass_score 4 1 two_runs = 1 / 4"
  by (simp add: pass_score_def successes_def two_runs_def passed_def eval_nat_numeral)

text \<open>A file in which every task was run once has no estimate at all.\<close>

lemma one_run_each_raises:
  "pass_at_k [\<lparr>row_task = (0 :: int), row_run = 1, row_result = Score 1\<rparr>] [] = Inl IndexError"
  by (simp add: pass_at_k_def usable_def groups_by_def largest_group_def single_run_raises)

text \<open>Errors of the second file are counted as failed runs, those of the first are not counted.\<close>

definition failed_run :: "int result_row" where
  "failed_run = \<lparr>row_task = 0, row_run = 3, row_result = ErrorCell\<rparr>"

lemma errors_count_in_second_file:
  "pass_at_k (failed_run # two_runs) [] = Inr [(1, 1 / 2), (2, 1)]"
  "pass_at_k two_runs [failed_run] = Inr [(1, 1 / 3), (2, 2 / 3), (3, 1)]"
  by (simp_all add: pass_at_k_def usable_def groups_by_def largest_group_def two_runs_def failed_run_def
      sample_sizes_def doubling.simps pass_score_def successes_def passed_def eval_nat_numeral)

end
