(* ===== verification/Script_Runs.thy ===== *)
theory Script_Runs
  imports Agent_Script Pass_At_K "HOL-Library.Multiset" "HOL-Library.List_Lexorder" "HOL-Library.Char_ord" "HOL-Library.Product_Lexorder"
begin

text \<open>
  The runs of the evaluation script (examples/eval/server\_agent.py): names of models and files, which
  samples are run, and the table of results that it resumes from, fills in and saves. Between two
  awaits a run enters its result, so that a list of results is the order in which they come in. Time
  stamps, printing and the format of the file are left out.
\<close>

section \<open>Indices in their order\<close>

instantiation task_index :: linorder
begin

definition less_eq_task_index :: "task_index \<Rightarrow> task_index \<Rightarrow> bool" where
  "less_eq_task_index a b =
     (case (a, b) of
        (IntIx i, IntIx j) \<Rightarrow> i \<le> j | (IntIx i, StrIx t) \<Rightarrow> True
      | (StrIx s, IntIx j) \<Rightarrow> False | (StrIx s, StrIx t) \<Rightarrow> s \<le> t)"

definition less_task_index :: "task_index \<Rightarrow> task_index \<Rightarrow> bool" where
  "less_task_index a b \<longleftrightarrow> a \<le> b \<and> \<not> b \<le> a"

instance
  by standard (auto simp: less_eq_task_index_def less_task_index_def split: task_index.splits)

end

section \<open>Names\<close>

text \<open>The segments behind the first slash: one that is followed by a step, or one between slashes.\<close>

fun trained_name :: "string list \<Rightarrow> string option" where
  "trained_name (s # g # t # ss) =
     (case (if s = [] then None else Eval_Types.global_step g) of
        Some step \<Rightarrow> Some (s @ ''-step'' @ step)
      | None \<Rightarrow> trained_name (g # t # ss))"
| "trained_name ss = None"

fun path_name :: "string list \<Rightarrow> string option" where
  "path_name (s # t # ss) = (if s \<noteq> [] then Some s else path_name (t # ss))"
| "path_name ss = None"

definition parse_model_name :: "string \<Rightarrow> string" where
  "parse_model_name name =
     (let behind = tl (split_on (CHR ''/'') name)
      in case trained_name behind of
           Some n \<Rightarrow> n
         | None \<Rightarrow> (case path_name behind of Some n \<Rightarrow> n | None \<Rightarrow> name))"

text \<open>What is given to the script; \<open>temperature_text\<close> and \<open>date\<close> are as they are printed.\<close>

record run_args =
  given_model :: string
  given_second :: string
  run_every :: bool
  parallel :: nat
  run_total :: nat
  out_file :: string
  out_dir :: "string list"
  index_arg :: string
  range_arg :: string
  task_arg :: string
  temperature_text :: string
  date :: string

definition model_label :: "run_args \<Rightarrow> string" where
  "model_label R =
     (if given_second R \<noteq> [] then parse_model_name (given_model R) @ ''-'' @ parse_model_name (given_second R)
      else parse_model_name (given_model R))"

definition run_label :: "run_args \<Rightarrow> string" where
  "run_label R = task_arg R @ ''-'' @ model_label R @ ''-'' @ temperature_text R @ ''-'' @ date R"

definition results_dir :: "run_args \<Rightarrow> string list" where
  "results_dir R = (if run_every R then out_dir R @ [run_label R] else out_dir R)"

definition results_file :: "run_args \<Rightarrow> string list" where
  "results_file R =
     results_dir R @ [if out_file R = [] then run_label R @ ''.jsonl'' else out_file R]"

text \<open>Which samples: one, a range, or all that the controller knows, with the number of runs.\<close>

definition known_index :: "json \<Rightarrow> task_index list" where
  "known_index j =
     (case j of JInt i \<Rightarrow> (if i = - 1 then [] else [IntIx i]) | JStr s \<Rightarrow> [StrIx s] | _ \<Rightarrow> [])"

definition choose_indices :: "run_args \<Rightarrow> json list \<Rightarrow> (task_index list \<times> nat) res" where
  "choose_indices R known =
     (if index_arg R \<noteq> [] then Inr ([StrIx (index_arg R)], 1)
      else if range_arg R \<noteq> [] then
        (case map (\<lambda>p. parse_int (str_strip p)) (split_on (CHR '','') (range_arg R)) of
           [Some a, Some b] \<Rightarrow> Inr (map IntIx [a..b - 1], run_total R)
         | _ \<Rightarrow> Inl ValueError)
      else Inr (concat (map known_index known), run_total R))"

text \<open>The passes: file, name of the model in the table, concurrency. The first two run at the same time.\<close>

definition passes :: "run_args \<Rightarrow> (string list \<times> string \<times> nat) list res" where
  "passes R =
     (if run_every R then
        (if given_second R = [] then Inl AssertionError
         else Inr [(results_dir R @ [parse_model_name (given_model R) @ ''.jsonl''], given_model R, parallel R div 2),
                   (results_dir R @ [parse_model_name (given_second R) @ ''.jsonl''], given_second R, parallel R div 2),
                   (results_dir R @ [''cross.jsonl''], model_label R, parallel R)])
      else Inr [(results_file R, model_label R, parallel R)])"

section \<open>The table\<close>

record script_row = "task_index result_row" +
  row_model :: string
  row_messages :: "json list"
  row_sid :: string

definition int_of_index :: "task_index \<Rightarrow> int res" where
  "int_of_index i =
     (case i of
        IntIx n \<Rightarrow> Inr n
      | StrIx s \<Rightarrow> (case parse_int (str_strip s) of Some n \<Rightarrow> Inr n | None \<Rightarrow> Inl ValueError))"

fun completed_runs :: "string \<Rightarrow> script_row list \<Rightarrow> (int \<times> int) list res" where
  "completed_runs model [] = Inr []"
| "completed_runs model (r # rows) =
     (if row_model r = model \<and> row_result r \<noteq> ErrorCell then
        (case int_of_index (row_task r) of
           Inl e \<Rightarrow> Inl e
         | Inr i \<Rightarrow> map_sum id (\<lambda>done. (i, row_run r) # done) (completed_runs model rows))
      else completed_runs model rows)"

definition pending_runs :: "nat \<Rightarrow> task_index list \<Rightarrow> (int \<times> int) list \<Rightarrow> (task_index \<times> int) list" where
  "pending_runs runs ixs completed =
     filter (\<lambda>(ix, run). case ix of IntIx i \<Rightarrow> (i, run) \<notin> set completed | StrIx s \<Rightarrow> True)
       (concat (map (\<lambda>run. map (\<lambda>ix. (ix, int run)) ixs) [1..<runs + 1]))"

definition row_key :: "script_row \<Rightarrow> string \<times> task_index \<times> int" where
  "row_key r = (row_model r, row_task r, row_run r)"

text \<open>A result: the run, its messages, its reward or none on an error, and its session.\<close>

record run_outcome =
  done_index :: task_index
  done_run :: int
  done_messages :: "json list"
  done_reward :: "rat option"
  done_sid :: string

definition outcome_cell :: "run_outcome \<Rightarrow> result_cell" where
  "outcome_cell o1 = (case done_reward o1 of Some v \<Rightarrow> Score v | None \<Rightarrow> ErrorCell)"

text \<open>The first row of the run gets the result and messages; its session is left as it was.\<close>

fun update_first :: "('a \<Rightarrow> bool) \<Rightarrow> ('a \<Rightarrow> 'a) \<Rightarrow> 'a list \<Rightarrow> 'a list" where
  "update_first P f [] = []"
| "update_first P f (x # xs) = (if P x then f x # xs else x # update_first P f xs)"

definition enter_result :: "string \<Rightarrow> run_outcome \<Rightarrow> script_row list \<Rightarrow> script_row list" where
  "enter_result model o1 rows =
     (if done_reward o1 = None \<and> done_messages o1 = [] then rows
      else let key = (model, done_index o1, done_run o1)
           in if key \<in> row_key ` set rows
              then update_first (\<lambda>r. row_key r = key)
                     (\<lambda>r. r\<lparr>row_result := outcome_cell o1, row_messages := done_messages o1\<rparr>) rows
              else rows @ [\<lparr>row_task = done_index o1, row_run = done_run o1, row_result = outcome_cell o1,
                            row_model = model, row_messages = done_messages o1, row_sid = done_sid o1\<rparr>])"

text \<open>Numbers and strings in one column cannot be sorted.\<close>

definition is_int_index :: "task_index \<Rightarrow> bool" where
  "is_int_index i = (case i of IntIx n \<Rightarrow> True | StrIx s \<Rightarrow> False)"

definition sort_rows :: "script_row list \<Rightarrow> script_row list res" where
  "sort_rows rows =
     (if (\<exists>r \<in> set rows. is_int_index (row_task r)) \<and> (\<exists>r \<in> set rows. \<not> is_int_index (row_task r))
      then Inl TypeError else Inr (sort_key row_key rows))"

text \<open>The table and the file. It is written when its length is a multiple of 50, and in the end.\<close>

definition write_table :: "script_row list \<times> script_row list \<Rightarrow> (script_row list \<times> script_row list) res" where
  "write_table s = map_sum id (\<lambda>rows. (rows, rows)) (sort_rows (fst s))"

definition finish_run :: "string \<Rightarrow> run_outcome \<Rightarrow> script_row list \<times> script_row list \<Rightarrow> (script_row list \<times> script_row list) res" where
  "finish_run model o1 s =
     (let rows = enter_result model o1 (fst s)
      in if done_reward o1 = None \<and> done_messages o1 = [] then Inr s
         else if length rows mod 50 = 0 then write_table (rows, snd s) else Inr (rows, snd s))"

primrec finish_runs :: "string \<Rightarrow> run_outcome list \<Rightarrow> script_row list \<times> script_row list \<Rightarrow> (script_row list \<times> script_row list) res" where
  "finish_runs model [] s = write_table s"
| "finish_runs model (o1 # os) s =
     (case finish_run model o1 s of Inl e \<Rightarrow> Inl e | Inr t \<Rightarrow> finish_runs model os t)"

definition script_summary :: "script_row list \<Rightarrow> nat \<times> real option \<times> real option \<times> real option" where
  "script_summary rows =
     (let df = filter (\<lambda>r. row_result r \<noteq> ErrorCell) rows
      in (length df, mean_or_nan (map score_of df),
          std_or_nan (map (\<lambda>g. mean_of (map score_of g)) (groups_by row_run df)),
          mean_or_nan (map (\<lambda>g. Max (set (map score_of g))) (groups_by row_task df))))"

section \<open>One row per run\<close>

lemma update_first_keys:
  "(\<And>x. g (f x) = g x) \<Longrightarrow> map g (update_first P f xs) = map g xs"
  by (induction xs) auto

lemma update_first_other: "y \<in> set xs \<Longrightarrow> \<not> P y \<Longrightarrow> y \<in> set (update_first P f xs)"
  by (induction xs) auto

lemma update_first_hit: "x \<in> set xs \<Longrightarrow> P x \<Longrightarrow> \<exists>y \<in> set xs. P y \<and> f y \<in> set (update_first P f xs)"
  by (induction xs) auto

lemma entered_keys:
  "map row_key (enter_result model o1 rows) =
     (if (done_reward o1 = None \<and> done_messages o1 = []) \<or> (model, done_index o1, done_run o1) \<in> row_key ` set rows
      then map row_key rows else map row_key rows @ [(model, done_index o1, done_run o1)])"
  by (simp add: enter_result_def Let_def update_first_keys row_key_def)

definition one_row_each :: "script_row list \<Rightarrow> bool" where
  "one_row_each rows \<longleftrightarrow> distinct (map row_key rows)"

lemma entered_one_row: "one_row_each rows \<Longrightarrow> one_row_each (enter_result model o1 rows)"
  by (auto simp: one_row_each_def entered_keys)

definition entered :: "string \<Rightarrow> run_outcome \<Rightarrow> script_row list \<Rightarrow> bool" where
  "entered model o1 rows \<longleftrightarrow>
     (\<exists>r \<in> set rows. row_key r = (model, done_index o1, done_run o1) \<and> row_result r = outcome_cell o1 \<and>
        row_messages r = done_messages o1)"

lemma enter_nothing: "done_reward o1 = None \<Longrightarrow> done_messages o1 = [] \<Longrightarrow> enter_result model o1 rows = rows"
  by (simp add: enter_result_def)

lemma entered_enter:
  assumes "done_reward o1 \<noteq> None \<or> done_messages o1 \<noteq> []" shows "entered model o1 (enter_result model o1 rows)"
proof (cases "(model, done_index o1, done_run o1) \<in> row_key ` set rows")
  case True
  let ?P = "\<lambda>r. row_key r = (model, done_index o1, done_run o1)"
    and ?f = "\<lambda>r. r\<lparr>row_result := outcome_cell o1, row_messages := done_messages o1\<rparr>"
  obtain x where "x \<in> set rows" "?P x" using True by (metis imageE)
  then obtain y where y: "?P y" "?f y \<in> set (update_first ?P ?f rows)" using update_first_hit [of x rows ?P ?f] by auto
  have "enter_result model o1 rows = update_first ?P ?f rows" using True assms
    by (cases "done_reward o1"; cases "done_messages o1") (simp_all add: enter_result_def Let_def)
  then have "?f y \<in> set (enter_result model o1 rows)" using y(2) by (simp only:)
  moreover have "row_key (?f y) = row_key y" by (simp add: row_key_def)
  ultimately show ?thesis unfolding entered_def using y(1) by (intro bexI [of _ "?f y"]) simp_all
next
  case False
  then show ?thesis using assms by (auto simp: entered_def enter_result_def row_key_def)
qed

lemma kept_by_enter:
  assumes "r \<in> set rows" and "row_key r \<noteq> (model, done_index o1, done_run o1)" shows "r \<in> set (enter_result model o1 rows)"
  using assms by (auto simp: enter_result_def Let_def intro: update_first_other)

lemma sorted_rows: "sort_rows rows = Inr rows' \<Longrightarrow> mset rows' = mset rows"
  unfolding sort_rows_def by (metis Inl_Inr_False mset_sort sum.inject(2))

lemma written_rows:
  assumes "write_table s = Inr t" shows "mset (fst t) = mset (fst s) \<and> snd t = fst t"
proof -
  obtain rows where "sort_rows (fst s) = Inr rows" "t = (rows, rows)" using assms by (cases "sort_rows (fst s)") (auto simp: write_table_def)
  then show ?thesis by (simp add: sorted_rows)
qed

lemma finished_rows:
  assumes "finish_run model o1 s = Inr t" shows "mset (fst t) = mset (enter_result model o1 (fst s))"
proof (cases "done_reward o1 = None \<and> done_messages o1 = []")
  case True
  then show ?thesis using assms by (simp add: finish_run_def enter_nothing)
next
  case False
  let ?rows = "enter_result model o1 (fst s)"
  have "(if length ?rows mod 50 = 0 then write_table (?rows, snd s) else Inr (?rows, snd s)) = Inr t"
    using assms False by (simp only: finish_run_def Let_def if_False)
  then show ?thesis using written_rows [of "(?rows, snd s)" t] by (auto split: if_splits)
qed

lemma one_row_mset: "mset xs = mset ys \<Longrightarrow> one_row_each xs \<longleftrightarrow> one_row_each ys"
  unfolding one_row_each_def by (rule mset_eq_imp_distinct_iff) simp

lemma entered_mset: "mset xs = mset ys \<Longrightarrow> entered model o1 xs \<longleftrightarrow> entered model o1 ys"
  unfolding entered_def by (drule mset_eq_setD) (simp only:)

lemma kept_by_runs:
  "finish_runs model os s = Inr t \<Longrightarrow> r \<in> set (fst s) \<Longrightarrow> \<forall>a \<in> set os. row_key r \<noteq> (model, done_index a, done_run a) \<Longrightarrow> r \<in> set (fst t)"
proof (induction os arbitrary: s)
  case Nil
  then show ?case using written_rows [of s t] mset_eq_setD [of "fst t" "fst s"] by simp
next
  case (Cons o1 os)
  obtain u where u: "finish_run model o1 s = Inr u" "finish_runs model os u = Inr t"
    using Cons.prems(1) by (auto split: sum.splits)
  have "r \<in> set (enter_result model o1 (fst s))" using Cons.prems by (intro kept_by_enter) auto
  then have "r \<in> set (fst u)" using mset_eq_setD [OF finished_rows [OF u(1)]] by simp
  then show ?case using Cons.IH [OF u(2)] Cons.prems(3) by simp
qed

text \<open>
  The table in the end. In whatever order the runs come in, there is one row for each run if there was
  at the beginning; every run that got as far as a message has its row with its result and messages; rows of
  other runs stay as they were; and the file holds the table.
\<close>

lemma results_recorded:
  assumes "finish_runs model os s = Inr t" and "one_row_each (fst s)" and "distinct (map (\<lambda>a. (done_index a, done_run a)) os)"
  shows "one_row_each (fst t) \<and> snd t = fst t \<and>
     (\<forall>a \<in> set os. done_reward a \<noteq> None \<or> done_messages a \<noteq> [] \<longrightarrow> entered model a (fst t)) \<and>
     (\<forall>r \<in> set (fst s). (\<forall>a \<in> set os. row_key r \<noteq> (model, done_index a, done_run a)) \<longrightarrow> r \<in> set (fst t))"
  using assms
proof (induction os arbitrary: s)
  case Nil
  then show ?case using written_rows [of s t] one_row_mset [of "fst t" "fst s"] mset_eq_setD [of "fst t" "fst s"] by simp
next
  case (Cons o1 os)
  obtain u where u: "finish_run model o1 s = Inr u" "finish_runs model os u = Inr t"
    using Cons.prems(1) by (auto split: sum.splits)
  note table = finished_rows [OF u(1)]
  have one: "one_row_each (fst u)" using one_row_mset [OF table] entered_one_row Cons.prems(2) by simp
  have later: "(done_index a, done_run a) \<noteq> (done_index o1, done_run o1)" if "a \<in> set os" for a
    using Cons.prems(3) that by (auto simp: image_iff)
  have "entered model o1 (fst t)" if got: "done_reward o1 \<noteq> None \<or> done_messages o1 \<noteq> []"
  proof -
    obtain r where r: "r \<in> set (fst u)" "row_key r = (model, done_index o1, done_run o1)" "row_result r = outcome_cell o1"
      "row_messages r = done_messages o1"
      using entered_mset [OF table, of model o1] entered_enter [OF got, of model "fst s"] unfolding entered_def by blast
    have "r \<in> set (fst t)" by (rule kept_by_runs [OF u(2) r(1)]) (use r(2) later in force)
    then show ?thesis using r by (auto simp: entered_def)
  qed
  then show ?case using Cons.IH [OF u(2) one] Cons.prems(3) kept_by_runs [OF Cons.prems(1)] by auto
qed

section \<open>Where the table goes wrong\<close>

definition old_row :: script_row where
  "old_row = \<lparr>row_task = IntIx 5, row_run = 1, row_result = Score 1, row_model = ''m'', row_messages = [], row_sid = ''1''\<rparr>"

definition new_outcome :: "task_index \<Rightarrow> run_outcome" where
  "new_outcome ix = \<lparr>done_index = ix, done_run = 1, done_messages = [], done_reward = Some 0, done_sid = ''2''\<rparr>"

text \<open>A row that is filled in again keeps the session of its first attempt.\<close>

lemma retried_row_keeps_session:
  "enter_result ''m'' (new_outcome (IntIx 5)) [old_row\<lparr>row_result := ErrorCell\<rparr>] = [old_row\<lparr>row_result := Score 0\<rparr>]"
  by (simp add: enter_result_def old_row_def new_outcome_def row_key_def outcome_cell_def)

text \<open>
  An index that is given by hand is a string: a run of it that is completed is made again, entered
  as a second row, and the table can no longer be sorted and saved.
\<close>

lemma given_index_runs_again:
  "completed_runs ''m'' [old_row] = Inr [(5, 1)]"
  "pending_runs 1 [StrIx ''5''] [(5, 1)] = [(StrIx ''5'', 1)]"
  "finish_runs ''m'' [new_outcome (StrIx ''5'')] ([old_row], [old_row]) = Inl TypeError"
  by (simp_all add: old_row_def new_outcome_def int_of_index_def pending_runs_def enter_result_def row_key_def outcome_cell_def
      finish_run_def write_table_def sort_rows_def is_int_index_def)

text \<open>With one run at a time the first two passes wait for ever: they may run none.\<close>

lemma passes_without_runs:
  assumes "run_every R" and "parallel R = 1" and "given_second R \<noteq> []"
  shows "map_sum id (\<lambda>ps. map (\<lambda>p. snd (snd p)) ps) (passes R) = Inr [0, 0, 1]"
  using assms by (simp add: passes_def)

lemma parse_model_name_examples:
  "parse_model_name ''/a/glm/global_step_40/hf'' = ''glm-step40''" "parse_model_name ''org/glm/x'' = ''glm''"
  "parse_model_name ''org/glm'' = ''org/glm''"
  by code_simp+

text \<open>Rows of the model that are not of numbered samples stop a resumed evaluation.\<close>

lemma named_samples_cannot_resume:
  "completed_runs ''m'' [old_row\<lparr>row_task := StrIx ''abc''\<rparr>] = Inl ValueError"
  by (simp add: old_row_def int_of_index_def parse_int_def parse_nat_def str_strip_def is_space_def is_digit_def)

end
