(* ===== verification/Trainer_Utils.thy ===== *)
theory Trainer_Utils
  imports Training_Data "HOL-Library.List_Lexorder" "HOL-Library.Char_ord"
begin

text \<open>
  Helpers of the trainer: moving nested data to a device and into the object store and back
  (\<open>recursive\_apply\<close>, \<open>to\_device\<close> and \<open>to\_plasma\<close> of utils/utils.py), and the printing of metrics as a
  tree (\<open>pretty\_print\_metrics\<close>). A tensor is its value and its device.
\<close>

section \<open>Nested data\<close>

datatype 'v item =
    Tensor 'v string
  | ObjectRef nat
  | DictItem "(string \<times> 'v item) list"
  | ListItem "'v item list"
  | PlainItem string

text \<open>The object store is the list of what was put into it; references are positions.\<close>

fun to_plasma :: "'v item \<Rightarrow> 'v item list \<Rightarrow> 'v item \<times> 'v item list"
  and plasma_dict :: "(string \<times> 'v item) list \<Rightarrow> 'v item list \<Rightarrow> (string \<times> 'v item) list \<times> 'v item list"
  and plasma_list :: "'v item list \<Rightarrow> 'v item list \<Rightarrow> 'v item list \<times> 'v item list" where
  "to_plasma (Tensor v d) s = (ObjectRef (length s), s @ [Tensor v ''cpu''])"
| "to_plasma (DictItem d) s = (case plasma_dict d s of (d', t) \<Rightarrow> (DictItem d', t))"
| "to_plasma (ListItem xs) s = (case plasma_list xs s of (xs', t) \<Rightarrow> (ListItem xs', t))"
| "to_plasma (ObjectRef i) s = (ObjectRef i, s)"
| "to_plasma (PlainItem j) s = (PlainItem j, s)"
| "plasma_dict [] s = ([], s)"
| "plasma_dict ((k, x) # d) s =
     (case to_plasma x s of (x', t) \<Rightarrow> case plasma_dict d t of (d', u) \<Rightarrow> ((k, x') # d', u))"
| "plasma_list [] s = ([], s)"
| "plasma_list (x # xs) s =
     (case to_plasma x s of (x', t) \<Rightarrow> case plasma_list xs t of (xs', u) \<Rightarrow> (x' # xs', u))"

text \<open>A reference is looked up once; what it gives is moved, and descended into.\<close>

definition resolve :: "'v item list \<Rightarrow> 'v item \<Rightarrow> 'v item option" where
  "resolve s x = (case x of ObjectRef i \<Rightarrow> if i < length s then Some (s ! i) else None | _ \<Rightarrow> Some x)"

definition those_values :: "(string \<times> 'v item option) list \<Rightarrow> (string \<times> 'v item) list option" where
  "those_values d = map_option (zip (map fst d)) (those (map snd d))"

text \<open>Stored data may itself hold references: the number bounds the depth.\<close>

fun to_device :: "nat \<Rightarrow> string \<Rightarrow> 'v item list \<Rightarrow> 'v item \<Rightarrow> 'v item option" where
  "to_device 0 dev s x = None"
| "to_device (Suc n) dev s x =
     (case resolve s x of
        None \<Rightarrow> None
      | Some (Tensor v d) \<Rightarrow> Some (Tensor v dev)
      | Some (DictItem d) \<Rightarrow> map_option DictItem (those_values (map (\<lambda>(k, y). (k, to_device n dev s y)) d))
      | Some (ListItem xs) \<Rightarrow> map_option ListItem (those (map (to_device n dev s) xs))
      | Some y \<Rightarrow> Some y)"

text \<open>What moving data means: every tensor on the device.\<close>

primrec moved :: "string \<Rightarrow> 'v item \<Rightarrow> 'v item" where
  "moved dev (Tensor v d) = Tensor v dev"
| "moved dev (ObjectRef i) = ObjectRef i"
| "moved dev (DictItem d) = DictItem (map (map_prod id (moved dev)) d)"
| "moved dev (ListItem xs) = ListItem (map (moved dev) xs)"
| "moved dev (PlainItem j) = PlainItem j"

primrec no_refs :: "'v item \<Rightarrow> bool" where
  "no_refs (Tensor v d) \<longleftrightarrow> True"
| "no_refs (ObjectRef i) \<longleftrightarrow> False"
| "no_refs (DictItem d) \<longleftrightarrow> list_all snd (map (map_prod id no_refs) d)"
| "no_refs (ListItem xs) \<longleftrightarrow> list_all id (map no_refs xs)"
| "no_refs (PlainItem j) \<longleftrightarrow> True"

primrec depth :: "'v item \<Rightarrow> nat" where
  "depth (Tensor v d) = 1"
| "depth (ObjectRef i) = 1"
| "depth (DictItem d) = Suc (foldr max (map snd (map (map_prod id depth) d)) 0)"
| "depth (ListItem xs) = Suc (foldr max (map depth xs) 0)"
| "depth (PlainItem j) = 1"

section \<open>Round trip\<close>

lemma plasma_grows:
  fixes x :: "'v item" and d :: "(string \<times> 'v item) list" and xs :: "'v item list"
  shows "\<exists>new. snd (to_plasma x s) = s @ new" "\<exists>new. snd (plasma_dict d t) = t @ new" "\<exists>new. snd (plasma_list xs u) = u @ new"
proof (induction x s and d t and xs u rule: to_plasma_plasma_dict_plasma_list.induct)
  case 7
  then show ?case by (auto split: prod.splits)
next
  case 9
  then show ?case by (auto split: prod.splits)
qed (auto split: prod.splits)

lemma resolve_grows: "resolve s x = Some y \<Longrightarrow> resolve (s @ new) x = Some y"
  by (auto simp: resolve_def nth_append split: item.splits if_splits)

lemma those_Some: "those (map f xs) = Some ys \<longleftrightarrow> list_all2 (\<lambda>x y. f x = Some y) xs ys"
  by (induction xs arbitrary: ys) (auto simp: list_all2_Cons1 split: option.splits)

lemma those_values_Some:
  "those_values (map (\<lambda>(k, y). (k, f y)) d) = Some e \<longleftrightarrow> list_all2 (\<lambda>a b. fst b = fst a \<and> f (snd a) = Some (snd b)) d e"
proof (induction d arbitrary: e)
  case Nil
  then show ?case by (auto simp: those_values_def)
next
  case (Cons a d)
  have "those_values (map (\<lambda>(k, y). (k, f y)) (a # d)) =
      (case f (snd a) of None \<Rightarrow> None | Some y \<Rightarrow> map_option ((#) (fst a, y)) (those_values (map (\<lambda>(k, y). (k, f y)) d)))"
    by (cases a) (auto simp: those_values_def option.map_comp comp_def split: option.split)
  then show ?case using Cons.IH by (cases a) (auto simp: list_all2_Cons1 split: option.splits)
qed

text \<open>A result of moving data, read as a relation.\<close>

lemma device_cases:
  "to_device (Suc n) dev s x = Some y \<longleftrightarrow>
     (case resolve s x of
        None \<Rightarrow> False
      | Some (Tensor v d) \<Rightarrow> y = Tensor v dev
      | Some (DictItem d) \<Rightarrow> (\<exists>e. y = DictItem e \<and> list_all2 (\<lambda>a b. fst b = fst a \<and> to_device n dev s (snd a) = Some (snd b)) d e)
      | Some (ListItem xs) \<Rightarrow> (\<exists>ys. y = ListItem ys \<and> list_all2 (\<lambda>a b. to_device n dev s a = Some b) xs ys)
      | Some z \<Rightarrow> y = z)"
  by (auto simp: those_Some those_values_Some split: option.split item.split)

declare to_device.simps(2) [simp del]

lemma device_grows: "to_device n dev s x = Some y \<Longrightarrow> to_device n dev (s @ new) x = Some y"
proof (induction n arbitrary: x y)
  case (Suc n)
  obtain z where z: "resolve s x = Some z" using Suc.prems by (cases "resolve s x") (auto simp: device_cases)
  have pairs: "list_all2 (\<lambda>a b. fst b = fst a \<and> to_device n dev (s @ new) (snd a) = Some (snd b)) d e"
    if "list_all2 (\<lambda>a b. fst b = fst a \<and> to_device n dev s (snd a) = Some (snd b)) d e" for d e
    by (rule list_all2_mono [OF that]) (auto intro: Suc.IH)
  have items: "list_all2 (\<lambda>a b. to_device n dev (s @ new) a = Some b) xs ys"
    if "list_all2 (\<lambda>a b. to_device n dev s a = Some b) xs ys" for xs ys
    by (rule list_all2_mono [OF that]) (rule Suc.IH)
  show ?case using Suc.prems by (cases z) (auto simp: device_cases z resolve_grows intro: pairs items)
qed simp

lemma plasma_depth_dict: "foldr max (map depth xs) 0 \<le> n \<longleftrightarrow> list_all (\<lambda>x. depth x \<le> n) xs"
  by (induction xs) auto

lemma plasma_device:
  fixes x :: "'v item" and d :: "(string \<times> 'v item) list" and xs :: "'v item list"
  shows
  "no_refs x \<Longrightarrow> depth x \<le> n \<Longrightarrow> to_device n dev (snd (to_plasma x s)) (fst (to_plasma x s)) = Some (moved dev x)"
  "list_all (\<lambda>e. no_refs (snd e) \<and> depth (snd e) \<le> m) d \<Longrightarrow>
     list_all2 (\<lambda>a b. fst b = fst a \<and> to_device m dev (snd (plasma_dict d t)) (snd a) = Some (snd b))
       (fst (plasma_dict d t)) (map (map_prod id (moved dev)) d)"
  "list_all (\<lambda>x. no_refs x \<and> depth x \<le> k) xs \<Longrightarrow>
     list_all2 (\<lambda>a b. to_device k dev (snd (plasma_list xs u)) a = Some b) (fst (plasma_list xs u)) (map (moved dev) xs)"
proof (induction x s and d t and xs u arbitrary: n and m and k rule: to_plasma_plasma_dict_plasma_list.induct)
  case (1 v d s)
  then show ?case by (cases n) (simp_all add: device_cases resolve_def)
next
  case (2 d s)
  obtain m where n: "n = Suc m" using "2.prems" by (cases n) auto
  have "list_all (\<lambda>e. no_refs (snd e) \<and> depth (snd e) \<le> m) d"
    using "2.prems" n plasma_depth_dict [of "map snd d" m] by (auto simp: list_all_iff comp_def)
  from "2.IH" [OF this] show ?case by (auto simp: n id_def device_cases resolve_def split: prod.split)
next
  case (3 xs s)
  obtain m where n: "n = Suc m" using "3.prems" by (cases n) auto
  have "list_all (\<lambda>x. no_refs x \<and> depth x \<le> m) xs"
    using "3.prems" n plasma_depth_dict [of xs m] by (auto simp: list_all_iff)
  from "3.IH" [OF this] show ?case by (auto simp: n device_cases resolve_def split: prod.split)
next
  case (5 j s)
  then show ?case by (cases n) (simp_all add: device_cases resolve_def)
next
  case (7 key x d s)
  obtain y t where x: "to_plasma x s = (y, t)" by fastforce
  obtain e u where d: "plasma_dict d t = (e, u)" by fastforce
  obtain new where "u = t @ new" using plasma_grows(2) [of d t] d by auto
  then show ?case using "7.IH"(1) [of m] "7.IH"(2) [of y t m] "7.prems" by (auto simp: x d device_grows)
next
  case (9 x xs s)
  obtain y t where x: "to_plasma x s = (y, t)" by fastforce
  obtain ys u where xs: "plasma_list xs t = (ys, u)" by fastforce
  obtain new where "u = t @ new" using plasma_grows(3) [of xs t] xs by auto
  then show ?case using "9.IH"(1) [of k] "9.IH"(2) [of y t k] "9.prems" by (auto simp: x xs device_grows)
qed auto

text \<open>
  Data that goes through the object store comes back. What to_plasma puts away, to_device gives back
  with every tensor on the device asked for, whatever the store held before or gets later.
\<close>

lemma plasma_roundtrip:
  assumes "no_refs x" and "depth x \<le> n" and "to_plasma x s = (y, t)"
  shows "to_device n dev (t @ later) y = Some (moved dev x)"
  using plasma_device(1) [OF assms(1,2), of dev s] assms(3) by (simp add: device_grows)

text \<open>A reference to a reference is looked up once only.\<close>

lemma nested_reference_stays: "to_device (Suc n) dev [Tensor v d, ObjectRef 0] (ObjectRef 1) = Some (ObjectRef 0)"
  by (simp add: device_cases resolve_def)

section \<open>Metrics as a tree\<close>

text \<open>
  The names of metrics are paths. Entering a value below a value fails, a value entered over a
  subtree replaces it. Printed values are given as text.
\<close>

datatype tree = Value string | Branch "(string \<times> tree) list"

fun insert_metric :: "tree \<Rightarrow> string list \<Rightarrow> string \<Rightarrow> tree res" where
  "insert_metric (Value w) ks v = Inl TypeError"
| "insert_metric (Branch d) [] v = Inl IndexError"
| "insert_metric (Branch d) [k] v = Inr (Branch (dict_set k (Value v) d))"
| "insert_metric (Branch d) (k # ks) v =
     map_sum id (\<lambda>t. Branch (dict_set k t d)) (insert_metric (dict_get_or d k (Branch [])) ks v)"

primrec metric_tree :: "(string \<times> string) list \<Rightarrow> tree \<Rightarrow> tree res" where
  "metric_tree [] t = Inr t"
| "metric_tree (e # es) t =
     (case insert_metric t (split_on (CHR ''/'') (fst e)) (snd e) of Inl x \<Rightarrow> Inl x | Inr u \<Rightarrow> metric_tree es u)"

definition indent_by :: "nat \<Rightarrow> string" where
  "indent_by n = concat (replicate n ''  '')"

lemma size_list_insort [simp]: "size_list f (insort_key k x xs) = Suc (f x + size_list f xs)"
  by (induction xs) auto

lemma size_list_sort [simp]: "size_list f (sort_key k xs) = size_list f xs"
  by (induction xs) auto

lemma size_list_pairs: "size_list (\<lambda>e. size (snd e)) d \<le> size_list (size_prod (\<lambda>x. 0) size) d"
  by (induction d) (auto split: prod.split)

function print_tree :: "nat \<Rightarrow> tree \<Rightarrow> string list"
  and print_entries :: "nat \<Rightarrow> (string \<times> tree) list \<Rightarrow> string list" where
  "print_tree n (Value v) = []"
| "print_tree n (Branch d) = print_entries n (sort_key fst d)"
| "print_entries n [] = []"
| "print_entries n (e # d) =
     (case snd e of
        Value v \<Rightarrow> [indent_by n @ fst e @ '': '' @ v]
      | Branch b \<Rightarrow> (indent_by n @ fst e @ ''/'') # print_tree (n + 1) (snd e)) @ print_entries n d"
  by pat_completeness auto
termination
  by (relation "measure (case_sum (\<lambda>p. size (snd p)) (\<lambda>p. size_list (\<lambda>e. size (snd e)) (snd p)))")
    (auto simp: less_Suc_eq_le size_list_pairs)

definition pretty_print_metrics :: "(string, string) dict \<Rightarrow> string list res" where
  "pretty_print_metrics metrics = map_sum id (print_tree 0) (metric_tree metrics (Branch []))"

section \<open>What the tree holds\<close>

fun lookup_metric :: "tree \<Rightarrow> string list \<Rightarrow> string option" where
  "lookup_metric (Value v) ks = (if ks = [] then Some v else None)"
| "lookup_metric (Branch d) [] = None"
| "lookup_metric (Branch d) (k # ks) = (case dict_get d k of None \<Rightarrow> None | Some t \<Rightarrow> lookup_metric t ks)"

lemma lookup_or_empty: "lookup_metric (dict_get_or d k (Branch [])) ks = lookup_metric (Branch d) (k # ks)"
  by (cases ks) (simp_all add: dict_get_or_def split: option.split)

lemma inserted_value: "insert_metric t ks v = Inr u \<Longrightarrow> lookup_metric u ks = Some v"
proof (induction t ks v arbitrary: u rule: insert_metric.induct)
  case (4 d k k2 ks v)
  then show ?case by (cases "insert_metric (dict_get_or d k (Branch [])) (k2 # ks) v") auto
qed auto

lemma inserted_below: "insert_metric t ks v = Inr u \<Longrightarrow> lookup_metric u (ks @ ls) = (if ls = [] then Some v else None)"
proof (induction t ks v arbitrary: u rule: insert_metric.induct)
  case (4 d k k2 ks v)
  then show ?case by (cases "insert_metric (dict_get_or d k (Branch [])) (k2 # ks) v") auto
qed auto

lemma inserted_others:
  "insert_metric t ks v = Inr u \<Longrightarrow> \<not> prefix ks js \<Longrightarrow> lookup_metric u js = lookup_metric t js"
proof (induction t ks v arbitrary: u js rule: insert_metric.induct)
  case (3 d k v)
  then show ?case by (cases js) auto
next
  case (4 d k k2 ks v)
  obtain w where w: "insert_metric (dict_get_or d k (Branch [])) (k2 # ks) v = Inr w" "u = Branch (dict_set k w d)"
    using "4.prems"(1) by (cases "insert_metric (dict_get_or d k (Branch [])) (k2 # ks) v") auto
  show ?case
  proof (cases js)
    case (Cons j js')
    then show ?thesis using "4.IH" [OF w(1), of js'] "4.prems"(2) by (auto simp: w(2) lookup_or_empty)
  qed (simp add: w(2))
qed auto

lemma insert_succeeds:
  "ks \<noteq> [] \<Longrightarrow> (\<And>js. strict_prefix js ks \<Longrightarrow> lookup_metric t js = None) \<Longrightarrow> \<exists>u. insert_metric t ks v = Inr u"
proof (induction t ks v rule: insert_metric.induct)
  case (1 w ks v)
  then show ?case using "1.prems"(2) [of "[]"] by (cases ks) auto
next
  case (4 d k k2 ks v)
  have "lookup_metric (dict_get_or d k (Branch [])) js = None" if "strict_prefix js (k2 # ks)" for js
    using "4.prems"(2) [of "k # js"] that by (simp add: lookup_or_empty)
  then obtain u where "insert_metric (dict_get_or d k (Branch [])) (k2 # ks) v = Inr u" using "4.IH" by auto
  then show ?case by simp
qed auto

definition metric_path :: "string \<times> string \<Rightarrow> string list" where
  "metric_path e = split_on (CHR ''/'') (fst e)"

definition apart :: "string list \<Rightarrow> string list \<Rightarrow> bool" where
  "apart ks js \<longleftrightarrow> \<not> prefix ks js \<and> \<not> prefix js ks"

lemma split_on_nonempty: "split_on c s \<noteq> []"
  by (induction c s rule: split_on.induct) auto

lemma inserted_only:
  assumes "insert_metric t ks v = Inr u" and "lookup_metric u js \<noteq> None" shows "js = ks \<or> lookup_metric t js \<noteq> None \<and> \<not> prefix ks js"
proof (cases "prefix ks js")
  case True
  then obtain ls where js: "js = ks @ ls" by (auto simp: prefix_def)
  then show ?thesis using inserted_below [OF assms(1), of ls] assms(2) by (auto split: if_splits)
next
  case False
  then show ?thesis using inserted_others [OF assms(1)] assms(2) by simp
qed

lemma metric_tree_holds:
  assumes "\<And>js. lookup_metric t js \<noteq> None \<Longrightarrow> list_all (\<lambda>e. apart js (metric_path e)) es"
    and "sorted_wrt (\<lambda>a b. apart (metric_path a) (metric_path b)) es"
  shows "\<exists>u. metric_tree es t = Inr u \<and> list_all (\<lambda>e. lookup_metric u (metric_path e) = Some (snd e)) es \<and>
     (\<forall>js. lookup_metric t js \<noteq> None \<longrightarrow> lookup_metric u js = lookup_metric t js)"
  using assms
proof (induction es arbitrary: t)
  case (Cons e es)
  let ?k = "metric_path e"
  have "\<exists>u. insert_metric t ?k (snd e) = Inr u"
  proof (rule insert_succeeds)
    show "lookup_metric t js = None" if "strict_prefix js ?k" for js
      using Cons.prems(1) [of js] that by (cases "lookup_metric t js") (auto simp: apart_def strict_prefix_def)
  qed (simp add: metric_path_def split_on_nonempty)
  then obtain u where u: "insert_metric t ?k (snd e) = Inr u" by blast
  have "list_all (\<lambda>e. apart js (metric_path e)) es" if "lookup_metric u js \<noteq> None" for js
    using inserted_only [OF u that] Cons.prems by (auto simp: list_all_iff)
  then obtain w where w: "metric_tree es u = Inr w" "list_all (\<lambda>e. lookup_metric w (metric_path e) = Some (snd e)) es"
    "\<forall>js. lookup_metric u js \<noteq> None \<longrightarrow> lookup_metric w js = lookup_metric u js"
    using Cons.IH [of u] Cons.prems(2) by auto
  have "lookup_metric w js = lookup_metric t js" if "lookup_metric t js \<noteq> None" for js
    using inserted_others [OF u, of js] Cons.prems(1) [OF that] w(3) that by (auto simp: apart_def)
  then show ?case using w u inserted_value [OF u] by (auto simp: metric_path_def)
qed simp

text \<open>
  Metrics keep their values. When no name is a path below another, the tree has the value of every
  metric at its path; otherwise a value is lost or the printing fails.
\<close>

lemma metrics_keep_values:
  assumes "sorted_wrt (\<lambda>a b. apart (metric_path a) (metric_path b)) metrics"
  shows "\<exists>t. metric_tree metrics (Branch []) = Inr t \<and> list_all (\<lambda>e. lookup_metric t (metric_path e) = Some (snd e)) metrics"
proof -
  have "lookup_metric (Branch []) js = None" for js by (cases js) auto
  then show ?thesis using metric_tree_holds [OF _ assms, of "Branch []"] by auto
qed

lemma metric_below_value_fails: "pretty_print_metrics [(''a'', ''1''), (''a/b'', ''2'')] = Inl TypeError"
  by (simp add: pretty_print_metrics_def dict_get_or_def)

lemma metric_over_subtree_is_lost: "pretty_print_metrics [(''a/b'', ''2''), (''a'', ''1'')] = Inr [''a: 1'']"
  by (simp add: pretty_print_metrics_def dict_get_or_def indent_by_def)

lemma printed_example:
  "pretty_print_metrics [(''rl/z'', ''1''), (''actor/loss'', ''2''), (''rl/a'', ''3'')] =
     Inr [''actor/'', ''  loss: 2'', ''rl/'', ''  a: 3'', ''  z: 1'']"
  by (simp add: pretty_print_metrics_def dict_get_or_def indent_by_def)

end
