(* ===== verification/Spec2Isabelle.thy ===== *)
theory Spec2Isabelle
  imports State_Local State_Redis State_Consul State_Etcd Docker_Sessions K8s_Proofs Worker_Utils
    RWLock Task_Manager Task_Worker_Proofs Advantages Agent_Loop Eval_Runner Eval_Images
    Config_Proofs Tensor_Proofs Log_Prob_Proofs Weight_Sync Train_Worker Eval_Clients
    Session_Tasks Event_Bus Trace_Store Checkpoints Snapshots_Client Training_Loop Worker_Transport
    Trace_Copy Calculator_Task Eval_Cli Environment_Factory Async_Trainer Agent_Script Pass_At_K Script_Runs
    Trainer_Utils
begin

text \<open>
  A verification library for AgentRL, a system that trains and evaluates language model agents
  on interactive tasks.

  THE PROGRAM. A task worker (worker/) runs samples of a task: an environment that talks to an agent
  through requests. Environments live in containers that an environment controller starts, shares
  between sessions and cleans up, on Docker or on Kubernetes; what workers must know of each other
  (which container has how many sessions, who holds a lock) is kept by a state provider, in memory
  or on Redis, Consul or etcd. The trainer (trainer/) plays episodes against task workers, groups
  them in a rollout buffer fed by a task manager, estimates advantages and computes the policy loss,
  with a reader-writer lock between sampling and weight updates; training steps run over packed samples
  on several devices, and new weights are broadcast to the sampling engines. The evaluation (eval/) runs a
  benchmark: a runner takes specifications from a queue, a workflow lets a model of one of three
  provider APIs answer the environment, and a store keeps the results. A controller in Go stands
  between the workers and their clients.

  COMMON CONVENTIONS (\<open>Prelude\<close>, \<open>Encoding\<close>). A coroutine (type \<open>proc\<close>) is a function
  from a world to a result, \<open>Inr\<close> a value or \<open>Inl\<close> an exception, and a new world; \<open>bnd\<close> is the
  sequence of statements, \<open>catch\<close> and \<open>finally_do\<close> are the clauses of Python, and what is written before an
  exception stays written. A dictionary is an association list in insertion order, a string a list
  of characters, bytes one character each, an int is \<open>int\<close>, and floating point numbers are exact
  rationals or reals. \<open>wp\<close> states what holds after a program on each outcome, \<open>preserves\<close>
  that it keeps a predicate. Where tasks run concurrently, a step is the code between two awaits,
  which one event loop does not interrupt, and a schedule is a list of steps; the properties
  hold for every schedule.

  SHARED STATE, worker/src/agentrl/worker/environment/state/.
  \<open>State_Provider\<close> (\_base.py): the record of operations and \<open>with_lock\<close>. The locale
  \<open>container_registry\<close> says what a provider promises of containers (an abstract map from container
  identifiers to session counts, and how each operation changes or reads it), \<open>lock_service\<close> what
  it promises of locks.
  \<open>State_Local\<close> (local.py): three dictionaries, which interpret \<open>container_registry\<close>.
  \<open>State_Redis\<close> (redis.py): the keys, the five scripts and the operations over a server that is a
  record of commands with the contract \<open>redis_server\<close>; \<open>redis_store\<close> extends it by the key scheme,
  is a \<open>sublocale\<close> of both contracts, and is interpreted on a server in memory (\<open>mem\<close>).
  \<open>State_Consul\<close> (consul.py, with the durations of utils.py in \<open>Worker_Utils\<close>): the HTTP client
  with its reconnection and the operations over it.
  \<open>State_Etcd\<close> (etcd.py): stubs, retries, leases, transactions and key ranges, over a server with
  the contract \<open>etcd_server\<close> (interpreted as \<open>mem_etcd\<close>).

  ENVIRONMENTS, worker/src/agentrl/worker/environment/.
  \<open>Delegation\<close> (\_delegation.py, \_const.py): what a task configures.
  \<open>Docker_Controller\<close> (docker.py), with \<open>Docker_Proofs\<close> and \<open>Docker_Sessions\<close>: starting, sharing,
  ending, cleaning and execution, over a daemon that is a record of calls. The proofs are made in
  the locale \<open>docker_setting\<close>, any registry whose daemon calls leave the registry alone, and
  interpreted on the in-memory provider (\<open>mem_docker\<close>).
  \<open>K8s_Controller\<close> (k8s.py) and \<open>K8s_Proofs\<close>: the same on Kubernetes, with the cache of pods that a
  watch keeps.
  \<open>Environment_Factory\<close> (\_base.py, manual.py, the two \_\_init\_\_.py): the interface with its base class,
  the manual controller, and how a driver's name chooses a controller or provider.

  TASK WORKER, worker/src/agentrl/worker/.
  \<open>Task_Worker\<close> (task\_worker.py, task.py, typings.py) and \<open>Task_Worker_Proofs\<close>: sessions, the
  hand-over of control between agent and environment, the requests, the wrapper of a sample.
  \<open>Worker_Transport\<close> (task\_worker\_grpc.py, and the calls of the controller in task\_worker.py): routing of
  requests to the methods of the worker, answers, the queue behind the stream and its restarts,
  heartbeats and notices, over the steps of \<open>Task_Worker\<close>.
  \<open>Snapshots_Client\<close> (snapshots.py): the connection, its requests, and the tools it offers.
  \<open>Config_Loader\<close> (config/loader.py, consul.py) and \<open>Config_Proofs\<close>: documents with imports, defaults
  and overwriting sections, and overrides by environment variables, a file and Consul.
  \<open>Trace_Store\<close> (trace\_store.py): where traces go, how they get there and the links to them. Traces and
  checkpoints are written to the file system of \<open>Files\<close>, nodes by path with the operations of os,
  shutil and pathlib that the code calls. \<open>Trace_Copy\<close> (extra/scripts/tracectl.py) finds and copies the
  traces of sessions. \<open>Calculator_Task\<close> (examples/simple-calculator/task.py) is a task as users write it.

  TRAINER, trainer/src/agentrl/trainer/.
  \<open>RWLock\<close> (utils/aio\_rwlock.py); \<open>Task_Buffer\<close> (components/buffer.py) and \<open>Task_Manager\<close>
  (components/task\_manager.py); \<open>Agent_Loop\<close> (agentic/loops.py): one episode, keeping token ids,
  loss mask and log probabilities in step; \<open>Advantages\<close> (algorithms/core\_algos.py, advantage.py
  and the masked reductions of utils/torch\_functional.py) over reals, with the locale
  \<open>reductions\<close> for the tensor library, interpreted on lists (\<open>on_lists\<close>).
  \<open>Tensor_Utils\<close> and \<open>Tensor_Proofs\<close> (utils/torch\_functional.py): masks, padding, attention masks,
  statistics over processes, schedules of the learning rate. \<open>Log_Probs\<close> and \<open>Log_Prob_Proofs\<close> (the
  log probabilities of the same file, algorithms/loss\_funcs.py): the losses over packed rows.
  \<open>Training_Data\<close> (agentic/data\_provider.py, algorithms/metrics.py, components/timer.py, parts of
  utils/utils.py): data sets, groups of rollouts, metrics.
  \<open>Train_Worker\<close> (workers/fsdp\_worker.py): packing, collation and the forward and backward pass of all
  ranks; bin packing, sampler, model and loss are parameters, of which \<open>packs\<close>, \<open>deals\<close> and
  \<open>separates\<close> state what is documented.
  \<open>Weight_Sync\<close> (components/nccl\_tensor\_comm.py, workers/async\_sglang\_worker.py, collective\_handle.py,
  abstract.py): the broadcasts between sender and receiver as one list of messages, and what the receiver
  does to the sampling worker. \<open>Session_Tasks\<close> (agentic/tasks.py): the requests of an agent, with retries.
  \<open>Checkpoints\<close> (checkpoint/): saving with rotation and loading, for one rank.
  \<open>Training_Loop\<close> (examples/training/agentrl\_trainer.py) composes them: division of the devices,
  resumption from a marker, the loop with transfers to engines, validation, checkpoints and metrics;
  \<open>Async_Trainer\<close> (async\_trainer.py) is the loop without stale engines, proved to be a case of it.
  \<open>Trainer_Utils\<close> (utils/utils.py): nested data in the object store, and metrics printed as a tree.

  EVALUATION, eval/src/agentrl/eval/.
  \<open>Eval_Types\<close> (session/types.py, metric.py, tokens.py, utils/utils.py); \<open>Convert_Messages\<close>
  (convert/): conversation formats of three provider APIs; \<open>Data_Url\<close> (utils/data\_url.py);
  \<open>Eval_Images\<close> (utils/messages.py); \<open>Eval_Workflow\<close> (session/controller.py, workflow.py);
  \<open>Eval_Store\<close> (store/); \<open>Eval_Runner\<close> (session/runner.py); \<open>Eval_Clients\<close> (client/): the clients of
  OpenAI, Anthropic and the dummy over SDKs that are records of calls; \<open>Event_Bus\<close> (event/bus.py):
  publishing, and waiting for an event as steps between awaits; \<open>Eval_Cli\<close> (cli/settings.py, cli/main.py):
  settings with their bounds and the command with the clients it opens and closes.
  Scripts of examples/eval/: \<open>Agent_Script\<close> and \<open>Script_Runs\<close> (server\_agent.py) play samples with an agent of
  their own and keep a table of results; \<open>Pass_At_K\<close> (check.py) computes statistics and pass@k from it.

  WHAT THE LEMMAS SHOW. For the providers, that the operations implement the abstract registry, also
  over any sequence of them, and where they fall short of it. For the Docker controller, whose
  operations run on their own, without those of other sessions at their awaits: that cleaning takes no
  container from a session except as a dependency of one it deletes, that sharing stays within its limits,
  and what the end of a session gives back. For the concurrent parts (lock, buffer, managers, worker, runner),
  invariants over every schedule: exclusion, nothing lost or doubled, no sleeper that could run,
  capacity, and that work is finished. For the numeric core, that the loops compute their closed
  forms, and that neither packing nor the number of devices changes the loss. For formats, round trips
  and what is kept. For the weights, which of them arrive. For configurations, termination, which
  value wins, and what a variable of the environment makes of a value. For traces and checkpoints, that they are found and read back, and for the training loop, that
  it goes on where it was interrupted. Each operation also has lemmas on its
  branches, errors included.

  BOUNDS. A loop of the code that waits for the outside, such as the polling for a container, has the number of
  its rounds as an argument (\<open>rounds\<close>, \<open>loop_fuel\<close>) and the value \<open>StillRunning\<close> when they are used
  up; properties that such a loop returns name a number of rounds that is enough. Retries and attempts
  that the code bounds itself (\<open>max_tries\<close>) are modelled as they are. All other recursion is
  structural or has a termination proof.

  NOT MODELLED. The Go controller, the dashboard and the protocol buffers are another language or
  generated. The HTTP server of the worker, the terminal interface of the evaluation and the parsing of
  arguments pass values on to libraries. Building and sharding models, optimizer steps,
  process groups and the patches to sglang and torch are calls of tensor libraries on devices.
  Of the scripts, those that test a deployment and mark workers as stale are left out. Logging, time stamps in logs, and rounding of floating point numbers are left out
  of the modelled parts. PROJECT.json lists what is left out of each part.

  WHAT COULD FOLLOW. The registry contract is proved for the in-memory and the Redis provider; for etcd
  and Consul the operations are verified one by one. Allocation on Kubernetes is
  modelled whole, with lemmas on its candidates but without the contract that Docker's has. Operations of
  the controllers are not interleaved, so that the loops which allocate under contention are verified for one session
  at a time. Rotation of checkpoints is verified for one save.
\<close>

end
